(* ===== verification/Prelude.thy ===== *)
theory Prelude
  imports Main "HOL-Library.Word" "HOL-Library.FSet" "HOL-Library.Multiset"
begin

section \<open>Shared vocabulary: results, loops, sizes, floats and strings\<close>

text \<open>
  What the components use of Rust and its standard library: \<open>Result\<close> with the
  \<open>?\<close> operator (\<open>and_then\<close>), \<open>Iterator::try_fold\<close> (a \<open>for\<close> loop
  with early return), \<open>usize\<close> with \<open>checked_add\<close>, \<open>f64\<close> as its IEEE 754
  bit pattern, and \<open>String\<close> as its UTF-8 bytes. A Rust \<open>String\<close> is a HOL
  \<open>string\<close> holding one \<open>char\<close> per byte.
\<close>

subsection \<open>Collections of facts\<close>

named_theorems result_simps \<open>when a checked computation returns Ok or Err\<close>
named_theorems size_limits \<open>the numeric limits of the protocol, for arithmetic\<close>

subsection \<open>Machine integers\<close>

type_synonym u8 = "8 word"
type_synonym u16 = "16 word"
type_synonym u32 = "32 word"
type_synonym u64 = "64 word"
type_synonym usize = nat

text \<open>
  Sizes are natural numbers below \<open>2 ^ 64\<close> (the 64-bit targets the project builds
  for); the only operation that can leave the range is addition, which the source
  always writes as \<open>checked_add\<close> or \<open>saturating_add\<close>.
\<close>

definition usize_max :: usize where
  "usize_max = 18446744073709551615"

definition checked_add_usize :: "usize \<Rightarrow> usize \<Rightarrow> usize option" where
  "checked_add_usize a b = (if a + b \<le> usize_max then Some (a + b) else None)"

definition saturating_add_usize :: "usize \<Rightarrow> usize \<Rightarrow> usize" where
  "saturating_add_usize a b = min (a + b) usize_max"

definition saturating_add_u16 :: "u16 \<Rightarrow> u16 \<Rightarrow> u16" where
  "saturating_add_u16 a b = (if unat a + unat b < 65536 then a + b else 65535)"

definition checked_add_u64 :: "u64 \<Rightarrow> u64 \<Rightarrow> u64 option" where
  "checked_add_u64 a b = (if unat a + unat b \<le> usize_max then Some (a + b) else None)"

subsection \<open>Results\<close>

datatype ('a, 'e) result = Ok 'a | Err 'e

text \<open>\<open>and_then r k\<close> is \<open>let x = r?; k x\<close>: the first error is returned.\<close>

primrec and_then :: "('a, 'e) result \<Rightarrow> ('a \<Rightarrow> ('b, 'e) result) \<Rightarrow> ('b, 'e) result" where
  "and_then (Ok x) k = k x"
| "and_then (Err e) k = Err e"

primrec map_err :: "('e \<Rightarrow> 'f) \<Rightarrow> ('a, 'e) result \<Rightarrow> ('a, 'f) result" where
  "map_err f (Ok x) = Ok x"
| "map_err f (Err e) = Err (f e)"

primrec ok_or :: "'a option \<Rightarrow> 'e \<Rightarrow> ('a, 'e) result" where
  "ok_or (Some x) e = Ok x"
| "ok_or None e = Err e"

primrec is_ok :: "('a, 'e) result \<Rightarrow> bool" where
  "is_ok (Ok x) = True"
| "is_ok (Err e) = False"

text \<open>A \<open>for\<close> loop over a list whose body may return early with an error.\<close>

primrec try_fold :: "('s \<Rightarrow> 'x \<Rightarrow> ('s, 'e) result) \<Rightarrow> 's \<Rightarrow> 'x list \<Rightarrow> ('s, 'e) result" where
  "try_fold f s [] = Ok s"
| "try_fold f s (x # xs) = and_then (f s x) (\<lambda>s'. try_fold f s' xs)"

definition try_for :: "('x \<Rightarrow> (unit, 'e) result) \<Rightarrow> 'x list \<Rightarrow> (unit, 'e) result" where
  "try_for f xs = try_fold (\<lambda>_. f) () xs"

text \<open>
  The \<open>?\<close> operator in a method with \<open>&mut self\<close>: on an error the method returns
  with the state as it is at that point.
\<close>

primrec try_in :: "'s \<Rightarrow> ('a, 'e) result \<Rightarrow> ('a \<Rightarrow> 's \<times> ('b, 'e) result) \<Rightarrow> 's \<times> ('b, 'e) result" where
  "try_in s (Ok x) k = k x"
| "try_in s (Err e) k = (s, Err e)"

text \<open>\<open>Iterator::find_map\<close>.\<close>

primrec find_map :: "('x \<Rightarrow> 'y option) \<Rightarrow> 'x list \<Rightarrow> 'y option" where
  "find_map f [] = None"
| "find_map f (x # xs) = (case f x of Some y \<Rightarrow> Some y | None \<Rightarrow> find_map f xs)"

text \<open>\<open>try_fold\<close> over \<open>Option\<close>.\<close>

primrec try_fold_option :: "('s \<Rightarrow> 'x \<Rightarrow> 's option) \<Rightarrow> 's \<Rightarrow> 'x list \<Rightarrow> 's option" where
  "try_fold_option f s [] = Some s"
| "try_fold_option f s (x # xs) = Option.bind (f s x) (\<lambda>s'. try_fold_option f s' xs)"

text \<open>What a deterministic machine puts out along a sequence of events.\<close>

primrec run_out :: "('s \<Rightarrow> 'e \<Rightarrow> 's) \<Rightarrow> ('s \<Rightarrow> 'e \<Rightarrow> 'o list) \<Rightarrow> 's \<Rightarrow> 'e list \<Rightarrow> 'o list" where
  "run_out step out s [] = []"
| "run_out step out s (e # es) = out s e @ run_out step out (step s e) es"

subsection \<open>Decimal output\<close>

fun show_nat :: "nat \<Rightarrow> string" where
  "show_nat n =
     (if n < 10 then [char_of (48 + n)] else show_nat (n div 10) @ [char_of (48 + n mod 10)])"

declare show_nat.simps [simp del]

abbreviation show_word :: "'w::len word \<Rightarrow> string" where
  "show_word w \<equiv> show_nat (unat w)"

subsection \<open>Floating point numbers\<close>

text \<open>
  An \<open>f64\<close> is its bit pattern: the sign bit, then eleven exponent and fifty-two
  fraction bits. Below the sign bit the patterns are ordered like the magnitudes they
  denote; magnitudes from \<open>2047 * 2 ^ 52\<close> on are the infinity and the NaNs. The
  protocol only compares floats, so no rounding is involved.
\<close>

type_synonym f64 = "64 word"

definition f64_negative :: "f64 \<Rightarrow> bool" where
  "f64_negative a \<longleftrightarrow> 9223372036854775808 \<le> unat a"

definition f64_magnitude :: "f64 \<Rightarrow> nat" where
  "f64_magnitude a = unat a mod 9223372036854775808"

definition f64_is_finite :: "f64 \<Rightarrow> bool" where
  "f64_is_finite a \<longleftrightarrow> f64_magnitude a < 9218868437227405312"

definition f64_is_nan :: "f64 \<Rightarrow> bool" where
  "f64_is_nan a \<longleftrightarrow> 9218868437227405312 < f64_magnitude a"

definition f64_key :: "f64 \<Rightarrow> int" where
  "f64_key a = (if f64_negative a then - int (f64_magnitude a) else int (f64_magnitude a))"

definition f64_lt :: "f64 \<Rightarrow> f64 \<Rightarrow> bool" where
  "f64_lt a b \<longleftrightarrow> \<not> f64_is_nan a \<and> \<not> f64_is_nan b \<and> f64_key a < f64_key b"

definition f64_le :: "f64 \<Rightarrow> f64 \<Rightarrow> bool" where
  "f64_le a b \<longleftrightarrow> \<not> f64_is_nan a \<and> \<not> f64_is_nan b \<and> f64_key a \<le> f64_key b"

text \<open>\<open>PartialEq\<close> on floats: NaN differs from itself, the two zeros are equal.\<close>

definition f64_eq :: "f64 \<Rightarrow> f64 \<Rightarrow> bool" where
  "f64_eq a b \<longleftrightarrow> \<not> f64_is_nan a \<and> \<not> f64_is_nan b \<and> f64_key a = f64_key b"

definition f64_abs :: "f64 \<Rightarrow> f64" where
  "f64_abs a = of_nat (f64_magnitude a)"

subsection \<open>Strings\<close>

text \<open>
  \<open>str::encode_utf16().count()\<close> on UTF-8 bytes: continuation bytes count nothing,
  the lead byte of a four-byte sequence counts a surrogate pair, every other byte one.
\<close>

definition utf16_units :: "char \<Rightarrow> nat" where
  "utf16_units c = (let b = (of_char c :: nat) in
     if 128 \<le> b \<and> b < 192 then 0 else if 240 \<le> b then 2 else 1)"

definition utf16_len :: "string \<Rightarrow> usize" where
  "utf16_len s = sum_list (map utf16_units s)"

section \<open>Lemmas on results and loops\<close>

lemma and_then_eq_Ok [result_simps]:
  "and_then r k = Ok y \<longleftrightarrow> (\<exists>x. r = Ok x \<and> k x = Ok y)"
  by (cases r) auto

lemma and_then_eq_Err [result_simps]:
  "and_then r k = Err e \<longleftrightarrow> r = Err e \<or> (\<exists>x. r = Ok x \<and> k x = Err e)"
  by (cases r) auto

lemma map_err_eq_Ok [result_simps]: "map_err f r = Ok y \<longleftrightarrow> r = Ok y"
  by (cases r) auto

lemma ok_or_eq_Ok [result_simps]: "ok_or m e = Ok y \<longleftrightarrow> m = Some y"
  by (cases m) auto

lemma if_Err_eq_Ok [result_simps]: "(if b then Err e else r) = Ok y \<longleftrightarrow> \<not> b \<and> r = Ok y"
  by simp

lemma if_Ok_eq_Ok [result_simps]: "(if b then r else Err e) = Ok y \<longleftrightarrow> b \<and> r = Ok y"
  by simp

lemma case_Err_eq_Ok [result_simps]:
  "(case m of Some t \<Rightarrow> Err (e t) | None \<Rightarrow> Ok x) = Ok u \<longleftrightarrow> m = None \<and> x = u"
  by (cases m) auto

lemma is_ok_iff: "is_ok r \<longleftrightarrow> (\<exists>x. r = Ok x)"
  by (cases r) auto

lemma unit_result_cases: "r = Ok () \<or> (\<exists>e. r = Err e)"
  by (cases r) auto

lemma not_Ok_unit: "r \<noteq> Ok () \<longleftrightarrow> (\<exists>e. r = Err e)"
  by (cases r) auto

lemma try_in_eq:
  "try_in s r k = p \<longleftrightarrow> (\<exists>e. r = Err e \<and> p = (s, Err e)) \<or> (\<exists>x. r = Ok x \<and> k x = p)"
  by (cases r) auto

lemma try_in_eq_Ok [result_simps]:
  "try_in s r k = (t, Ok y) \<longleftrightarrow> (\<exists>x. r = Ok x \<and> k x = (t, Ok y))"
  by (cases r) auto

lemma try_in_eq_Err [result_simps]:
  "try_in s r k = (t, Err e) \<longleftrightarrow> r = Err e \<and> t = s \<or> (\<exists>x. r = Ok x \<and> k x = (t, Err e))"
  by (cases r) auto

lemma find_map_eq_Some:
  "find_map f xs = Some y \<Longrightarrow> \<exists>x\<in>set xs. f x = Some y"
  by (induction xs) (auto split: option.splits)

lemma find_map_eq_None: "find_map f xs = None \<longleftrightarrow> (\<forall>x\<in>set xs. f x = None)"
  by (induction xs) (auto split: option.splits)

lemma list_ex_eq_image: "list_ex (\<lambda>x. f x = k) xs \<longleftrightarrow> k \<in> f ` set xs"
  by (induction xs) auto

lemma try_fold_append:
  "try_fold f s (xs @ ys) = and_then (try_fold f s xs) (\<lambda>s'. try_fold f s' ys)"
proof (induction xs arbitrary: s)
  case Nil
  then show ?case by simp
next
  case (Cons x xs)
  then show ?case by (cases "f s x") simp_all
qed

lemma try_fold_block:
  "try_fold f s xs = Ok s' \<Longrightarrow> try_fold f s' ys = r \<Longrightarrow> try_fold f s (xs @ ys) = r"
  by (simp add: try_fold_append)

lemma try_fold_cong_Ok:
  "(\<And>s x. x \<in> set xs \<Longrightarrow> f s x = g s x) \<Longrightarrow> try_fold f s xs = try_fold g s xs"
proof (induction xs arbitrary: s)
  case Nil
  then show ?case by simp
next
  case (Cons x xs)
  then show ?case by (cases "g s x") simp_all
qed

lemma try_fold_invariant:
  assumes "try_fold f s xs = Ok t" and "P s"
    and "\<And>s x s'. P s \<Longrightarrow> x \<in> set xs \<Longrightarrow> f s x = Ok s' \<Longrightarrow> P s'"
  shows "P t"
  using assms
proof (induction xs arbitrary: s)
  case Nil
  then show ?case by simp
next
  case (Cons x xs)
  from Cons.prems(1) obtain s' where s': "f s x = Ok s'" "try_fold f s' xs = Ok t"
    by (auto simp: result_simps)
  have "P s'" by (rule Cons.prems(3) [OF Cons.prems(2) _ s'(1)]) simp
  with s'(2) show ?case
    by (rule Cons.IH) (use Cons.prems(3) in \<open>meson list.set_intros(2)\<close>)
qed

lemma try_for_eq_Ok [result_simps]: "try_for f xs = Ok u \<longleftrightarrow> (\<forall>x\<in>set xs. f x = Ok ())"
  by (induction xs) (auto simp: try_for_def result_simps)

section \<open>Lemmas on sizes and floats\<close>

lemma checked_add_usize_Some [simp]:
  "checked_add_usize a b = Some c \<longleftrightarrow> a + b \<le> usize_max \<and> c = a + b"
  by (auto simp: checked_add_usize_def)

lemma checked_add_u64_unat:
  "checked_add_u64 a b = Some c \<Longrightarrow> unat c = unat a + unat b"
  by (auto simp: checked_add_u64_def usize_max_def unat_word_ariths split: if_splits)

lemma unat_saturating_add_u16:
  "unat (saturating_add_u16 a b) = min (unat a + unat b) 65535"
  by (auto simp: saturating_add_u16_def unat_word_ariths min_def)

lemma f64_eq_sym: "f64_eq a b \<Longrightarrow> f64_eq b a"
  by (simp add: f64_eq_def)

lemma f64_eq_trans: "f64_eq a b \<Longrightarrow> f64_eq b c \<Longrightarrow> f64_eq a c"
  by (simp add: f64_eq_def)

lemma f64_finite_not_nan: "f64_is_finite a \<Longrightarrow> \<not> f64_is_nan a"
  by (simp add: f64_is_finite_def f64_is_nan_def)

lemma f64_eq_refl: "f64_is_finite a \<Longrightarrow> f64_eq a a"
  by (simp add: f64_eq_def f64_finite_not_nan)

lemma f64_lt_irrefl: "\<not> f64_lt a a"
  by (simp add: f64_lt_def)

lemma f64_lt_trans: "f64_lt a b \<Longrightarrow> f64_lt b c \<Longrightarrow> f64_lt a c"
  by (simp add: f64_lt_def)

lemma f64_total: "f64_is_finite a \<Longrightarrow> f64_is_finite b \<Longrightarrow> f64_lt a b \<or> f64_eq a b \<or> f64_lt b a"
  by (auto simp: f64_lt_def f64_eq_def f64_finite_not_nan)

lemma f64_magnitude_less: "f64_magnitude a < 9223372036854775808"
  by (simp add: f64_magnitude_def)

lemma f64_key_inj:
  assumes "f64_key a = f64_key b" and "f64_key a \<noteq> 0"
  shows "a = b"
proof -
  have split: "unat x = (if f64_negative x then 9223372036854775808 else 0) + f64_magnitude x" for x
  proof -
    have "unat x < 18446744073709551616" using unsigned_less [of x] by simp
    then show ?thesis
      by (auto simp: f64_negative_def f64_magnitude_def le_mod_geq)
  qed
  have "unat a = unat b"
    using assms split [of a] split [of b] by (auto simp: f64_key_def split: if_splits)
  then show ?thesis by (simp add: word_unat_eq_iff)
qed

lemma utf16_len_append [simp]: "utf16_len (s @ t) = utf16_len s + utf16_len t"
  by (simp add: utf16_len_def)

lemma utf16_len_le_bytes: "utf16_len s \<le> 2 * length s"
  by (induction s) (auto simp: utf16_len_def utf16_units_def Let_def)

end
