(* ===== verification/Ids.thy ===== *)
theory Ids
  imports Prelude
begin

section \<open>Stable identifiers\<close>

text \<open>
  \<open>vixen-api/src/ids.rs\<close> and the opaque handles of \<open>vixen-api/src/render/mod.rs\<close>.
  The macro \<open>define_id\<close> makes one newtype over \<open>NonZeroU64\<close> per kind of
  identifier; here they are instances of one type whose parameter is the kind, so that
  identifiers of different kinds cannot be mixed up, as in the source. The value zero is
  excluded where an identifier is made (\<open>ident_new\<close>, \<open>ident_try_from\<close>).
\<close>

datatype 'k ident = Ident (ident_get: u64)

definition ident_new :: "u64 \<Rightarrow> 'k ident option" where
  "ident_new r = (if r = 0 then None else Some (Ident r))"

record InvalidId =
  invalid_kind :: string

definition InvalidId_display :: "InvalidId \<Rightarrow> string" where
  "InvalidId_display e = invalid_kind e @ '' must be non-zero''"

definition ident_try_from :: "string \<Rightarrow> u64 \<Rightarrow> ('k ident, InvalidId) result" where
  "ident_try_from kind r = ok_or (ident_new r) \<lparr>invalid_kind = kind\<rparr>"

definition ident_display :: "'k ident \<Rightarrow> string" where
  "ident_display i = show_nat (unat (ident_get i))"

text \<open>Identifiers are ordered by their value (\<open>derive(PartialOrd, Ord)\<close>). The order of the type class is
  this one.\<close>

definition ident_le :: "'k ident \<Rightarrow> 'k ident \<Rightarrow> bool" where
  "ident_le i j \<longleftrightarrow> ident_get i \<le> ident_get j"

definition ident_lt :: "'k ident \<Rightarrow> 'k ident \<Rightarrow> bool" where
  "ident_lt i j \<longleftrightarrow> ident_get i < ident_get j"

instantiation ident :: (type) linorder
begin

definition less_eq_ident :: "'k ident \<Rightarrow> 'k ident \<Rightarrow> bool" where
  "less_eq_ident = ident_le"

definition less_ident :: "'k ident \<Rightarrow> 'k ident \<Rightarrow> bool" where
  "less_ident = ident_lt"

instance
  by standard (auto simp: less_eq_ident_def less_ident_def ident_le_def ident_lt_def ident.expand)

end

lemma less_eq_ident_iff: "i \<le> j \<longleftrightarrow> ident_get i \<le> ident_get j"
  by (simp add: less_eq_ident_def ident_le_def)

lemma less_ident_iff: "i < j \<longleftrightarrow> ident_get i < ident_get j"
  by (simp add: less_ident_def ident_lt_def)

typedecl browsing_context_kind
typedecl document_kind
typedecl render_node_kind
typedecl render_resource_kind
typedecl render_fragment_kind
typedecl render_commit_kind
typedecl render_handle_kind
typedecl render_query_kind
typedecl render_scroll_node_kind
typedecl render_scroll_command_kind
typedecl render_request_kind
typedecl semantic_node_kind
typedecl semantic_action_request_kind

type_synonym BrowsingContextId = "browsing_context_kind ident"
type_synonym DocumentId = "document_kind ident"
type_synonym RenderNodeId = "render_node_kind ident"
type_synonym RenderResourceId = "render_resource_kind ident"
type_synonym RenderFragmentId = "render_fragment_kind ident"
type_synonym RenderCommitId = "render_commit_kind ident"
type_synonym RenderHandleId = "render_handle_kind ident"
type_synonym RenderQueryId = "render_query_kind ident"
type_synonym RenderScrollNodeId = "render_scroll_node_kind ident"
type_synonym RenderScrollCommandId = "render_scroll_command_kind ident"
type_synonym RenderRequestId = "render_request_kind ident"
type_synonym SemanticNodeId = "semantic_node_kind ident"
type_synonym SemanticActionRequestId = "semantic_action_request_kind ident"

datatype RenderHitTestHandle = RenderHitTestHandle RenderHandleId
datatype RenderTextQueryHandle = RenderTextQueryHandle RenderHandleId

definition RenderHitTestHandle_new :: "u64 \<Rightarrow> RenderHitTestHandle option" where
  "RenderHitTestHandle_new r = map_option RenderHitTestHandle (ident_new r)"

definition RenderTextQueryHandle_new :: "u64 \<Rightarrow> RenderTextQueryHandle option" where
  "RenderTextQueryHandle_new r = map_option RenderTextQueryHandle (ident_new r)"

primrec RenderHitTestHandle_get :: "RenderHitTestHandle \<Rightarrow> u64" where
  "RenderHitTestHandle_get (RenderHitTestHandle i) = ident_get i"

primrec RenderTextQueryHandle_get :: "RenderTextQueryHandle \<Rightarrow> u64" where
  "RenderTextQueryHandle_get (RenderTextQueryHandle i) = ident_get i"

lemma Ident_less_iff [simp]: "Ident a < Ident b \<longleftrightarrow> a < b"
  by (simp add: less_ident_iff)

lemma Ident_le_iff [simp]: "Ident a \<le> Ident b \<longleftrightarrow> a \<le> b"
  by (simp add: less_eq_ident_iff)

lemma ident_new_get: "ident_new r = Some i \<longleftrightarrow> r \<noteq> 0 \<and> ident_get i = r"
  by (cases i) (auto simp: ident_new_def)

end
