(* ===== verification/Render_Types.thy ===== *)
theory Render_Types
  imports Ids
begin

section \<open>Limits, errors and geometry of the renderer protocol\<close>

text \<open>
  \<open>vixen-api/src/render/mod.rs\<close>: the protocol version and limits, the stable error
  codes, and the validated geometry types every exchange with the renderer carries.
\<close>

subsection \<open>Limits\<close>

definition RENDER_PROTOCOL_VERSION :: u16 where [size_limits]: "RENDER_PROTOCOL_VERSION = 1"
definition RENDER_MAX_NODES :: usize where [size_limits]: "RENDER_MAX_NODES = 16384"
definition RENDER_MAX_TREE_DEPTH :: u16 where [size_limits]: "RENDER_MAX_TREE_DEPTH = 256"
definition RENDER_MAX_MUTATIONS :: usize where [size_limits]: "RENDER_MAX_MUTATIONS = 4096"
definition RENDER_MAX_RESOURCES :: usize where [size_limits]: "RENDER_MAX_RESOURCES = 512"
definition RENDER_MAX_RESOURCE_BYTES :: usize where [size_limits]:
  "RENDER_MAX_RESOURCE_BYTES = 16777216"
definition RENDER_MAX_TOTAL_RESOURCE_BYTES :: usize where [size_limits]:
  "RENDER_MAX_TOTAL_RESOURCE_BYTES = 67108864"
definition RENDER_MAX_CAPTURE_BYTES :: usize where [size_limits]:
  "RENDER_MAX_CAPTURE_BYTES = 68157440"
definition RENDER_MAX_STRING_BYTES :: usize where [size_limits]: "RENDER_MAX_STRING_BYTES = 65536"
definition RENDER_MAX_TOTAL_STRING_BYTES :: usize where [size_limits]:
  "RENDER_MAX_TOTAL_STRING_BYTES = 4194304"
definition RENDER_MAX_STYLES_PER_NODE :: usize where [size_limits]:
  "RENDER_MAX_STYLES_PER_NODE = 512"
definition RENDER_MAX_RESOURCES_PER_NODE :: usize where [size_limits]:
  "RENDER_MAX_RESOURCES_PER_NODE = 32"
definition RENDER_MAX_SEMANTIC_ACTIONS_PER_NODE :: usize where [size_limits]:
  "RENDER_MAX_SEMANTIC_ACTIONS_PER_NODE = 32"
definition RENDER_MAX_SEMANTIC_VALUE_BYTES :: usize where [size_limits]:
  "RENDER_MAX_SEMANTIC_VALUE_BYTES = 16384"
definition RENDER_MAX_GEOMETRY_ENTRIES :: usize where [size_limits]:
  "RENDER_MAX_GEOMETRY_ENTRIES = 65536"
definition RENDER_MAX_SCROLL_ENTRIES :: usize where [size_limits]:
  "RENDER_MAX_SCROLL_ENTRIES = 4096"
definition RENDER_MAX_SEMANTIC_BOUNDS :: usize where [size_limits]:
  "RENDER_MAX_SEMANTIC_BOUNDS = 16384"
definition RENDER_MAX_TEXT_QUERIES :: usize where [size_limits]: "RENDER_MAX_TEXT_QUERIES = 256"
definition RENDER_MAX_TEXT_BOXES :: usize where [size_limits]: "RENDER_MAX_TEXT_BOXES = 4096"
definition RENDER_MAX_TRUNCATION_DIAGNOSTICS :: usize where [size_limits]:
  "RENDER_MAX_TRUNCATION_DIAGNOSTICS = 32"
definition RENDER_MAX_SEEN_SCROLL_COMMANDS :: usize where [size_limits]:
  "RENDER_MAX_SEEN_SCROLL_COMMANDS = 1024"
definition RENDER_MAX_SEEN_SEMANTIC_ACTIONS :: usize where [size_limits]:
  "RENDER_MAX_SEEN_SEMANTIC_ACTIONS = 1024"
definition RENDER_MAX_VIEWPORT_DIMENSION :: u32 where [size_limits]:
  "RENDER_MAX_VIEWPORT_DIMENSION = 16384"

text \<open>The two float limits by their bit patterns: \<open>16777216.0\<close> is \<open>2 ^ 24\<close>, \<open>16.0\<close> is \<open>2 ^ 4\<close>.\<close>

definition RENDER_MAX_COORDINATE :: f64 where [size_limits]:
  "RENDER_MAX_COORDINATE = 0x4170000000000000"
definition RENDER_MAX_SCALE :: f64 where [size_limits]: "RENDER_MAX_SCALE = 0x4030000000000000"
definition f64_zero :: f64 where [size_limits]: "f64_zero = 0"

subsection \<open>Errors\<close>

record RenderProtocolError =
  err_code :: string
  err_message :: string

definition RenderProtocolError_new :: "string \<Rightarrow> string \<Rightarrow> RenderProtocolError" where
  "RenderProtocolError_new c m = \<lparr>err_code = c, err_message = m\<rparr>"

definition RenderProtocolError_display :: "RenderProtocolError \<Rightarrow> string" where
  "RenderProtocolError_display e = err_code e @ '': '' @ err_message e"

type_synonym 'a render_result = "('a, RenderProtocolError) result"

definition code_VERSION :: string where "code_VERSION = ''render.version''"
definition code_REVISION :: string where "code_REVISION = ''render.revision''"
definition code_STALE :: string where "code_STALE = ''render.stale''"
definition code_LIMIT :: string where "code_LIMIT = ''render.limit''"
definition code_DUPLICATE_ID :: string where "code_DUPLICATE_ID = ''render.duplicate-id''"
definition code_UNKNOWN_ID :: string where "code_UNKNOWN_ID = ''render.unknown-id''"
definition code_INVALID_GRAPH :: string where "code_INVALID_GRAPH = ''render.invalid-graph''"
definition code_NON_FINITE :: string where "code_NON_FINITE = ''render.non-finite''"
definition code_INVALID_GEOMETRY :: string where
  "code_INVALID_GEOMETRY = ''render.invalid-geometry''"
definition code_TRUNCATED_REQUIRED :: string where
  "code_TRUNCATED_REQUIRED = ''render.truncated-required''"
definition code_UNADVERTISED_ACTION :: string where
  "code_UNADVERTISED_ACTION = ''render.unadvertised-action''"
definition code_REPLAYED_COMMAND :: string where
  "code_REPLAYED_COMMAND = ''render.replayed-command''"
definition code_REPLAYED_ACTION :: string where
  "code_REPLAYED_ACTION = ''render.replayed-action''"

definition limit_error :: "string \<Rightarrow> usize \<Rightarrow> usize \<Rightarrow> RenderProtocolError" where
  "limit_error field observed limit = RenderProtocolError_new code_LIMIT
     (field @ '' count/size '' @ show_nat observed @ '' exceeds limit '' @ show_nat limit)"

definition duplicate_id_error :: "string \<Rightarrow> 'k ident \<Rightarrow> RenderProtocolError" where
  "duplicate_id_error kind i = RenderProtocolError_new code_DUPLICATE_ID
     (''duplicate '' @ kind @ '' id '' @ ident_display i)"

definition unknown_id_error :: "string \<Rightarrow> 'k ident \<Rightarrow> RenderProtocolError" where
  "unknown_id_error kind i = RenderProtocolError_new code_UNKNOWN_ID
     (''unknown '' @ kind @ '' id '' @ ident_display i)"

definition validate_version :: "u16 \<Rightarrow> unit render_result" where
  "validate_version v =
     (if v = RENDER_PROTOCOL_VERSION then Ok ()
      else Err (RenderProtocolError_new code_VERSION
        (''renderer protocol version '' @ show_word v @ '' is unsupported; expected '' @
         show_word RENDER_PROTOCOL_VERSION)))"

definition validate_finite :: "f64 \<Rightarrow> string \<Rightarrow> unit render_result" where
  "validate_finite x field =
     (if f64_is_finite x then Ok ()
      else Err (RenderProtocolError_new code_NON_FINITE (field @ '' must be finite'')))"

subsection \<open>Truncation diagnostics\<close>

datatype RenderLimitDomain =
  Nodes | TreeDepth | Mutations | Resources | ResourceBytes | StringBytes | Geometry |
  ScrollEntries | SemanticBounds | TextQueries | TextBoxes

primrec RenderLimitDomain_debug :: "RenderLimitDomain \<Rightarrow> string" where
  "RenderLimitDomain_debug Nodes = ''Nodes''"
| "RenderLimitDomain_debug TreeDepth = ''TreeDepth''"
| "RenderLimitDomain_debug Mutations = ''Mutations''"
| "RenderLimitDomain_debug Resources = ''Resources''"
| "RenderLimitDomain_debug ResourceBytes = ''ResourceBytes''"
| "RenderLimitDomain_debug StringBytes = ''StringBytes''"
| "RenderLimitDomain_debug Geometry = ''Geometry''"
| "RenderLimitDomain_debug ScrollEntries = ''ScrollEntries''"
| "RenderLimitDomain_debug SemanticBounds = ''SemanticBounds''"
| "RenderLimitDomain_debug TextQueries = ''TextQueries''"
| "RenderLimitDomain_debug TextBoxes = ''TextBoxes''"

record RenderTruncationDiagnostic =
  tr_domain :: RenderLimitDomain
  tr_limit :: u64
  tr_omitted :: u64
  tr_required :: bool

subsection \<open>Geometry\<close>

record RenderPoint =
  pt_x :: f64
  pt_y :: f64

definition RenderPoint_validate :: "RenderPoint \<Rightarrow> string \<Rightarrow> unit render_result" where
  "RenderPoint_validate p field =
     and_then (validate_finite (pt_x p) (field @ ''.x'')) (\<lambda>_.
     and_then (validate_finite (pt_y p) (field @ ''.y'')) (\<lambda>_.
     if f64_lt RENDER_MAX_COORDINATE (f64_abs (pt_x p))
        \<or> f64_lt RENDER_MAX_COORDINATE (f64_abs (pt_y p))
     then Err (RenderProtocolError_new code_INVALID_GEOMETRY
       (field @ '' exceeds the coordinate limit''))
     else Ok ()))"

record RenderSize =
  sz_width :: f64
  sz_height :: f64

definition RenderSize_validate :: "RenderSize \<Rightarrow> string \<Rightarrow> unit render_result" where
  "RenderSize_validate s field =
     and_then (validate_finite (sz_width s) (field @ ''.width'')) (\<lambda>_.
     and_then (validate_finite (sz_height s) (field @ ''.height'')) (\<lambda>_.
     if f64_lt (sz_width s) f64_zero
        \<or> f64_lt (sz_height s) f64_zero
        \<or> f64_lt RENDER_MAX_COORDINATE (sz_width s)
        \<or> f64_lt RENDER_MAX_COORDINATE (sz_height s)
     then Err (RenderProtocolError_new code_INVALID_GEOMETRY
       (field @ '' must be non-negative and within the coordinate limit''))
     else Ok ()))"

record RenderRect =
  rc_x :: f64
  rc_y :: f64
  rc_width :: f64
  rc_height :: f64

definition RenderRect_validate :: "RenderRect \<Rightarrow> string \<Rightarrow> unit render_result" where
  "RenderRect_validate r field =
     and_then (RenderPoint_validate \<lparr>pt_x = rc_x r, pt_y = rc_y r\<rparr> field) (\<lambda>_.
     RenderSize_validate \<lparr>sz_width = rc_width r, sz_height = rc_height r\<rparr> field)"

record RenderViewport =
  vp_width :: u32
  vp_height :: u32
  vp_device_scale :: f64
  vp_page_zoom :: f64

definition f64_in_scale_range :: "f64 \<Rightarrow> bool" where
  "f64_in_scale_range x \<longleftrightarrow> f64_le f64_zero x \<and> f64_le x RENDER_MAX_SCALE"

definition RenderViewport_validate :: "RenderViewport \<Rightarrow> unit render_result" where
  "RenderViewport_validate v =
     (if vp_width v = 0 \<or> vp_height v = 0
         \<or> RENDER_MAX_VIEWPORT_DIMENSION < vp_width v
         \<or> RENDER_MAX_VIEWPORT_DIMENSION < vp_height v
      then Err (RenderProtocolError_new code_INVALID_GEOMETRY
        ''render viewport dimensions must be non-zero and bounded'')
      else
        and_then (validate_finite (vp_device_scale v) ''render viewport device scale'') (\<lambda>_.
        and_then (validate_finite (vp_page_zoom v) ''render viewport page zoom'') (\<lambda>_.
        if \<not> f64_in_scale_range (vp_device_scale v)
           \<or> f64_eq (vp_device_scale v) f64_zero
           \<or> \<not> f64_in_scale_range (vp_page_zoom v)
           \<or> f64_eq (vp_page_zoom v) f64_zero
        then Err (RenderProtocolError_new code_INVALID_GEOMETRY
          ''render viewport scales must be positive and bounded'')
        else Ok ())))"

text \<open>The derived \<open>PartialEq\<close> of the types that hold floats.\<close>

definition RenderPoint_eq :: "RenderPoint \<Rightarrow> RenderPoint \<Rightarrow> bool" where
  "RenderPoint_eq p q \<longleftrightarrow> f64_eq (pt_x p) (pt_x q) \<and> f64_eq (pt_y p) (pt_y q)"

definition RenderViewport_eq :: "RenderViewport \<Rightarrow> RenderViewport \<Rightarrow> bool" where
  "RenderViewport_eq v w \<longleftrightarrow>
     vp_width v = vp_width w \<and> vp_height v = vp_height w
     \<and> f64_eq (vp_device_scale v) (vp_device_scale w)
     \<and> f64_eq (vp_page_zoom v) (vp_page_zoom w)"

primrec option_eq_by :: "('a \<Rightarrow> 'a \<Rightarrow> bool) \<Rightarrow> 'a option \<Rightarrow> 'a option \<Rightarrow> bool" where
  "option_eq_by eq None y = (y = None)"
| "option_eq_by eq (Some x) y = (case y of None \<Rightarrow> False | Some y' \<Rightarrow> eq x y')"

section \<open>What validation accepts\<close>

text \<open>The declarative counterparts of the checks.\<close>

definition point_ok :: "RenderPoint \<Rightarrow> bool" where
  "point_ok p \<longleftrightarrow> f64_is_finite (pt_x p) \<and> f64_is_finite (pt_y p)
     \<and> f64_le (f64_abs (pt_x p)) RENDER_MAX_COORDINATE
     \<and> f64_le (f64_abs (pt_y p)) RENDER_MAX_COORDINATE"

definition size_ok :: "RenderSize \<Rightarrow> bool" where
  "size_ok s \<longleftrightarrow> f64_is_finite (sz_width s) \<and> f64_is_finite (sz_height s)
     \<and> f64_le f64_zero (sz_width s) \<and> f64_le f64_zero (sz_height s)
     \<and> f64_le (sz_width s) RENDER_MAX_COORDINATE \<and> f64_le (sz_height s) RENDER_MAX_COORDINATE"

definition rect_ok :: "RenderRect \<Rightarrow> bool" where
  "rect_ok r \<longleftrightarrow> point_ok \<lparr>pt_x = rc_x r, pt_y = rc_y r\<rparr>
     \<and> size_ok \<lparr>sz_width = rc_width r, sz_height = rc_height r\<rparr>"

definition viewport_ok :: "RenderViewport \<Rightarrow> bool" where
  "viewport_ok v \<longleftrightarrow>
     0 < vp_width v \<and> vp_width v \<le> RENDER_MAX_VIEWPORT_DIMENSION
     \<and> 0 < vp_height v \<and> vp_height v \<le> RENDER_MAX_VIEWPORT_DIMENSION
     \<and> f64_lt f64_zero (vp_device_scale v) \<and> f64_le (vp_device_scale v) RENDER_MAX_SCALE
     \<and> f64_lt f64_zero (vp_page_zoom v) \<and> f64_le (vp_page_zoom v) RENDER_MAX_SCALE"

lemma validate_version_Ok [result_simps]:
  "validate_version v = Ok u \<longleftrightarrow> v = RENDER_PROTOCOL_VERSION"
  by (simp add: validate_version_def)

lemma validate_finite_Ok [result_simps]: "validate_finite x f = Ok u \<longleftrightarrow> f64_is_finite x"
  by (simp add: validate_finite_def)

lemma f64_abs_finite [simp]: "f64_is_finite (f64_abs x) \<longleftrightarrow> f64_is_finite x"
  using f64_magnitude_less [of x]
  by (simp add: f64_is_finite_def f64_abs_def f64_magnitude_def unat_of_nat)

lemma float_limits_finite [simp]:
  "f64_is_finite RENDER_MAX_COORDINATE" "f64_is_finite RENDER_MAX_SCALE" "f64_is_finite f64_zero"
  by (simp_all add: size_limits f64_is_finite_def f64_magnitude_def)

lemma f64_le_iff_not_lt:
  "f64_is_finite a \<Longrightarrow> f64_is_finite b \<Longrightarrow> f64_le a b \<longleftrightarrow> \<not> f64_lt b a"
  by (auto simp: f64_le_def f64_lt_def f64_finite_not_nan)

lemma f64_lt_iff_le_neq:
  "f64_is_finite a \<Longrightarrow> f64_is_finite b \<Longrightarrow> f64_lt a b \<longleftrightarrow> f64_le a b \<and> \<not> f64_eq b a"
  by (auto simp: f64_le_def f64_lt_def f64_eq_def f64_finite_not_nan)

lemma f64_key_bounded_finite:
  assumes "f64_le x y" and "f64_le f64_zero x" and "f64_is_finite y"
  shows "f64_is_finite x"
proof -
  have y: "f64_key y < 9218868437227405312"
    using assms(3) by (simp add: f64_key_def f64_is_finite_def)
  have "0 \<le> f64_key x" and "f64_key x \<le> f64_key y"
    using assms(1,2) by (simp_all add: f64_le_def f64_zero_def f64_key_def f64_magnitude_def
        f64_negative_def split: if_splits)
  with y show ?thesis by (auto simp: f64_key_def f64_is_finite_def split: if_splits)
qed

lemma RenderPoint_validate_Ok [result_simps]:
  "RenderPoint_validate p f = Ok u \<longleftrightarrow> point_ok p"
  by (auto simp: RenderPoint_validate_def point_ok_def result_simps f64_le_iff_not_lt)

lemma RenderSize_validate_Ok [result_simps]: "RenderSize_validate s f = Ok u \<longleftrightarrow> size_ok s"
  by (auto simp: RenderSize_validate_def size_ok_def result_simps f64_le_iff_not_lt)

lemma RenderRect_validate_Ok [result_simps]: "RenderRect_validate r f = Ok u \<longleftrightarrow> rect_ok r"
  by (auto simp: RenderRect_validate_def rect_ok_def result_simps)

lemma f64_lt_imp_le: "f64_lt a b \<Longrightarrow> f64_le a b"
  by (simp add: f64_lt_def f64_le_def)

lemma f64_lt_imp_neq: "f64_lt a b \<Longrightarrow> \<not> f64_eq b a"
  by (simp add: f64_lt_def f64_eq_def)

lemma RenderViewport_validate_Ok [result_simps]:
  "RenderViewport_validate v = Ok u \<longleftrightarrow> viewport_ok v"
proof -
  have fin: "f64_is_finite x" if "f64_lt f64_zero x" "f64_le x RENDER_MAX_SCALE" for x
    using that f64_key_bounded_finite [of x RENDER_MAX_SCALE] by (simp add: f64_lt_imp_le)
  have scale: "f64_is_finite x \<and> f64_in_scale_range x \<and> \<not> f64_eq x f64_zero
      \<longleftrightarrow> f64_lt f64_zero x \<and> f64_le x RENDER_MAX_SCALE" for x
    using fin [of x] f64_lt_imp_le [of f64_zero x] f64_lt_imp_neq [of f64_zero x]
    by (auto simp: f64_in_scale_range_def f64_lt_iff_le_neq)
  have dim: "\<not> (w = 0 \<or> RENDER_MAX_VIEWPORT_DIMENSION < w)
      \<longleftrightarrow> 0 < w \<and> w \<le> RENDER_MAX_VIEWPORT_DIMENSION" for w :: u32
    by (auto simp: word_neq_0_conv not_less)
  show ?thesis
    using scale [of "vp_device_scale v"] scale [of "vp_page_zoom v"]
      dim [of "vp_width v"] dim [of "vp_height v"]
    by (simp add: RenderViewport_validate_def viewport_ok_def result_simps) argo
qed

lemma RenderViewport_eq_refl: "viewport_ok v \<Longrightarrow> RenderViewport_eq v v"
  by (auto simp: RenderViewport_eq_def viewport_ok_def f64_eq_def f64_lt_def)

text \<open>Positive scales have one bit pattern each, so equal valid viewports are identical.\<close>

lemma RenderViewport_eq_imp_eq:
  assumes "RenderViewport_eq v w" and "viewport_ok v"
  shows "v = w"
proof -
  have "f64_key x \<noteq> 0" if "f64_lt f64_zero x" for x
    using that by (auto simp: f64_lt_def f64_zero_def f64_key_def f64_magnitude_def f64_negative_def
        split: if_splits)
  then have "vp_device_scale v = vp_device_scale w" "vp_page_zoom v = vp_page_zoom w"
    using assms by (auto simp: RenderViewport_eq_def viewport_ok_def f64_eq_def intro: f64_key_inj)
  with assms show ?thesis by (simp add: RenderViewport_eq_def)
qed

lemma RenderPoint_eq_refl: "point_ok p \<Longrightarrow> RenderPoint_eq p p"
  by (simp add: RenderPoint_eq_def point_ok_def f64_eq_refl)

lemma RenderPoint_eq_sym: "RenderPoint_eq p q \<Longrightarrow> RenderPoint_eq q p"
  by (simp add: RenderPoint_eq_def f64_eq_sym)

end
