(* ===== verification/Ordered_Map.thy ===== *)
theory Ordered_Map
  imports Prelude
begin

section \<open>Ordered maps\<close>

text \<open>
  Rust's \<open>BTreeMap\<close>: a finite map iterated in increasing key order. The model is the
  sequence its iterator yields, an association list with strictly increasing keys
  (\<open>bt_ok\<close>); two maps hold the same entries exactly when these lists are equal
  (\<open>bt_ext\<close>). The interface the components rely on is the locale \<open>key_map\<close>,
  interpreted on these operations as \<open>btm\<close>.
\<close>

type_synonym ('k, 'v) btree = "('k \<times> 'v) list"

definition bt_ok :: "('k::linorder, 'v) btree \<Rightarrow> bool" where
  "bt_ok m \<longleftrightarrow> sorted_wrt (<) (map fst m)"

definition bt_get :: "('k, 'v) btree \<Rightarrow> 'k \<Rightarrow> 'v option" where
  "bt_get m k = map_of m k"

definition bt_contains_key :: "('k, 'v) btree \<Rightarrow> 'k \<Rightarrow> bool" where
  "bt_contains_key m k \<longleftrightarrow> bt_get m k \<noteq> None"

fun bt_insert :: "'k::linorder \<Rightarrow> 'v \<Rightarrow> ('k, 'v) btree \<Rightarrow> ('k, 'v) btree" where
  "bt_insert k v [] = [(k, v)]"
| "bt_insert k v (e # m) =
     (if k < fst e then (k, v) # e # m
      else if fst e < k then e # bt_insert k v m
      else (k, v) # m)"

definition bt_remove :: "'k \<Rightarrow> ('k, 'v) btree \<Rightarrow> ('k, 'v) btree" where
  "bt_remove k m = filter (\<lambda>e. fst e \<noteq> k) m"

definition bt_len :: "('k, 'v) btree \<Rightarrow> usize" where
  "bt_len m = length m"

definition bt_keys :: "('k, 'v) btree \<Rightarrow> 'k list" where
  "bt_keys m = map fst m"

definition bt_values :: "('k, 'v) btree \<Rightarrow> 'v list" where
  "bt_values m = map snd m"

text \<open>\<open>collect::<BTreeMap<_, _>>()\<close>: later entries replace earlier ones.\<close>

definition bt_collect :: "('k::linorder \<times> 'v) list \<Rightarrow> ('k, 'v) btree" where
  "bt_collect kvs = fold (\<lambda>kv m. bt_insert (fst kv) (snd kv) m) kvs []"

text \<open>Equality of maps up to an equality of their values (\<open>PartialEq\<close> of \<open>BTreeMap\<close>).\<close>

definition bt_eq_by :: "('v \<Rightarrow> 'v \<Rightarrow> bool) \<Rightarrow> ('k, 'v) btree \<Rightarrow> ('k, 'v) btree \<Rightarrow> bool" where
  "bt_eq_by eq m m' \<longleftrightarrow> list_all2 (\<lambda>e e'. fst e = fst e' \<and> eq (snd e) (snd e')) m m'"

section \<open>The interface\<close>

locale key_map =
  fixes empty :: "'m"
    and insert :: "'k \<Rightarrow> 'v \<Rightarrow> 'm \<Rightarrow> 'm"
    and remove :: "'k \<Rightarrow> 'm \<Rightarrow> 'm"
    and get :: "'m \<Rightarrow> 'k \<Rightarrow> 'v option"
    and invar :: "'m \<Rightarrow> bool"
  assumes invar_empty: "invar empty"
    and invar_insert: "invar m \<Longrightarrow> invar (insert k v m)"
    and invar_remove: "invar m \<Longrightarrow> invar (remove k m)"
    and get_empty: "get empty k = None"
    and get_insert: "invar m \<Longrightarrow> get (insert k v m) k' = (if k' = k then Some v else get m k')"
    and get_remove: "invar m \<Longrightarrow> get (remove k m) k' = (if k' = k then None else get m k')"
begin

lemma invar_fold_insert:
  "invar m \<Longrightarrow> invar (fold (\<lambda>kv m. insert (fst kv) (snd kv) m) kvs m)"
  by (induction kvs arbitrary: m) (auto intro: invar_insert)

lemma get_fold_insert:
  "invar m \<Longrightarrow> get (fold (\<lambda>kv m. insert (fst kv) (snd kv) m) kvs m) k =
     (case map_of (rev kvs) k of Some v \<Rightarrow> Some v | None \<Rightarrow> get m k)"
proof (induction kvs arbitrary: m)
  case Nil
  then show ?case by simp
next
  case (Cons kv kvs)
  then show ?case
    by (auto simp: get_insert invar_insert map_add_def split: option.splits)
qed

lemma invar_fold_remove: "invar m \<Longrightarrow> invar (fold remove ks m)"
  by (induction ks arbitrary: m) (auto intro: invar_remove)

lemma get_fold_remove:
  "invar m \<Longrightarrow> get (fold remove ks m) k = (if k \<in> set ks then None else get m k)"
  by (induction ks arbitrary: m) (auto simp: get_remove invar_remove)

end

section \<open>The association list implements it\<close>

lemma bt_get_Nil [simp]: "bt_get [] k = None"
  by (simp add: bt_get_def)

lemma bt_get_Cons: "bt_get ((k', v) # m) k = (if k = k' then Some v else bt_get m k)"
  by (simp add: bt_get_def)

lemma bt_ok_Nil [simp]: "bt_ok []"
  by (simp add: bt_ok_def)

lemma bt_ok_Cons: "bt_ok (e # m) \<longleftrightarrow> bt_ok m \<and> (\<forall>x\<in>set m. fst e < fst x)"
  by (auto simp: bt_ok_def)

lemma keys_bt_insert: "set (map fst (bt_insert k v m)) = {k} \<union> set (map fst m)"
  by (induction m) auto

lemma bt_ok_insert [simp]: "bt_ok m \<Longrightarrow> bt_ok (bt_insert k v m)"
proof (induction m)
  case Nil
  then show ?case by (simp add: bt_ok_Cons)
next
  case (Cons e m)
  have keys: "x \<in> set (bt_insert k v m) \<Longrightarrow> fst x \<in> {k} \<union> fst ` set m" for x
    using keys_bt_insert [of k v m] by (metis image_eqI image_set)
  from Cons show ?case by (force simp: bt_ok_Cons dest!: keys)
qed

lemma bt_get_above: "bt_ok (e # m) \<Longrightarrow> k \<le> fst e \<Longrightarrow> bt_get m k = None"
  by (force simp: bt_ok_Cons bt_get_def map_of_eq_None_iff)

lemma bt_get_insert:
  "bt_ok m \<Longrightarrow> bt_get (bt_insert k v m) k' = (if k' = k then Some v else bt_get m k')"
proof (induction m)
  case Nil
  then show ?case by (simp add: bt_get_Cons)
next
  case (Cons e m)
  then have "bt_ok m" by (simp add: bt_ok_Cons)
  with Cons show ?case
    by (cases e) (auto simp: bt_get_Cons)
qed

lemma bt_ok_remove [simp]: "bt_ok m \<Longrightarrow> bt_ok (bt_remove k m)"
  by (induction m) (auto simp: bt_remove_def bt_ok_Cons)

lemma bt_get_remove: "bt_get (bt_remove k m) k' = (if k' = k then None else bt_get m k')"
  by (induction m) (auto simp: bt_get_def bt_remove_def)

interpretation btm: key_map "[]" bt_insert bt_remove bt_get bt_ok
  by unfold_locales (auto simp: bt_get_insert bt_get_remove)

section \<open>Extensionality, collecting and comparing\<close>

lemma bt_ok_distinct: "bt_ok m \<Longrightarrow> distinct (map fst m)"
  unfolding bt_ok_def by (rule strict_sorted_iff [THEN iffD1, THEN conjunct2])

lemma bt_get_eq_Some: "bt_ok m \<Longrightarrow> bt_get m k = Some v \<longleftrightarrow> (k, v) \<in> set m"
  by (simp add: bt_get_def bt_ok_distinct)

lemma bt_get_None: "bt_get m k = None \<longleftrightarrow> k \<notin> fst ` set m"
  by (simp add: bt_get_def map_of_eq_None_iff)

lemma bt_contains_key_iff: "bt_contains_key m k \<longleftrightarrow> k \<in> set (bt_keys m)"
  by (simp add: bt_contains_key_def bt_get_None bt_keys_def)

lemma bt_ext:
  assumes "bt_ok m" and "bt_ok m'" and "\<And>k. bt_get m k = bt_get m' k"
  shows "m = m'"
proof -
  have "set m = set m'"
    using assms by (auto simp: bt_get_eq_Some [symmetric])
  then have "set (map fst m) = set (map fst m')" by simp
  moreover have "sorted (map fst m)" "sorted (map fst m')"
    using assms by (simp_all add: bt_ok_def strict_sorted_iff)
  ultimately have keys: "map fst m = map fst m'"
    using assms by (simp add: bt_ok_distinct sorted_distinct_set_unique)
  have lookup: "map_of m = map_of m'" using assms(3) by (auto simp: bt_get_def)
  have "m = map (\<lambda>k. (k, the (map_of m k))) (map fst m)" if "bt_ok m" for m :: "('a, 'b) btree"
    using that by (auto simp: bt_ok_distinct intro!: map_idI [symmetric])
  then show ?thesis using keys lookup assms by metis
qed

lemma bt_ok_collect [simp]: "bt_ok (bt_collect kvs)"
  unfolding bt_collect_def by (rule btm.invar_fold_insert) simp

lemma bt_get_collect: "bt_get (bt_collect kvs) k = map_of (rev kvs) k"
  unfolding bt_collect_def
  by (subst btm.get_fold_insert) (auto split: option.splits)

lemma bt_get_collect_distinct:
  "distinct (map fst kvs) \<Longrightarrow> bt_get (bt_collect kvs) k = map_of kvs k"
proof -
  assume d: "distinct (map fst kvs)"
  then have "distinct (map fst (rev kvs))" by (simp add: rev_map [symmetric])
  with d have "map_of (rev kvs) k = Some v \<longleftrightarrow> map_of kvs k = Some v" for v
    by (simp add: map_of_eq_Some_iff)
  then show ?thesis unfolding bt_get_collect by (metis option.exhaust)
qed

lemma set_bt_collect: "distinct (map fst kvs) \<Longrightarrow> set (bt_collect kvs) = set kvs"
  using bt_get_eq_Some [OF bt_ok_collect, of kvs] bt_get_collect_distinct [of kvs]
  by (metis map_of_eq_Some_iff subrelI subset_antisym)

lemma mset_bt_collect: "distinct (map fst kvs) \<Longrightarrow> mset (bt_collect kvs) = mset kvs"
  by (metis bt_ok_collect bt_ok_distinct distinct_map set_bt_collect set_eq_iff_mset_eq_distinct)

lemma bt_collect_id: "bt_ok m \<Longrightarrow> bt_collect m = m"
  by (rule bt_ext) (simp_all add: bt_get_collect_distinct bt_ok_distinct, simp add: bt_get_def)

text \<open>A map collected from values that carry their own key.\<close>

lemma values_collect_self:
  "distinct (map f xs) \<Longrightarrow> mset (bt_values (bt_collect (map (\<lambda>x. (f x, x)) xs))) = mset xs"
  using mset_bt_collect [of "map (\<lambda>x. (f x, x)) xs"]
  by (simp add: bt_values_def comp_def multiset.map_comp)

lemma bt_get_collect_self:
  "distinct (map f xs) \<Longrightarrow>
     bt_get (bt_collect (map (\<lambda>x. (f x, x)) xs)) k = Some v \<longleftrightarrow> v \<in> set xs \<and> f v = k"
  by (auto simp: bt_get_collect_distinct comp_def)

lemma bt_eq_by_eq: "bt_eq_by (=) m m' \<longleftrightarrow> m = m'"
  by (simp add: bt_eq_by_def prod_eq_iff [symmetric] list.rel_eq)

text \<open>Comparing maps entry by entry is comparing their lookups.\<close>

lemma bt_eq_by_get:
  assumes "bt_ok m" and "bt_ok m'"
  shows "bt_eq_by eq m m' \<longleftrightarrow> (\<forall>k. rel_option eq (bt_get m k) (bt_get m' k))"
proof
  assume "bt_eq_by eq m m'"
  then show "\<forall>k. rel_option eq (bt_get m k) (bt_get m' k)"
    unfolding bt_eq_by_def by (induction rule: list_all2_induct) (auto simp: bt_get_def)
next
  assume rel: "\<forall>k. rel_option eq (bt_get m k) (bt_get m' k)"
  then have none: "bt_get m k = None \<longleftrightarrow> bt_get m' k = None" for k
    by (metis option.rel_sel)
  then have "set (map fst m) = set (map fst m')"
    unfolding bt_get_None by auto
  then have keys: "map fst m = map fst m'"
    using assms by (intro sorted_distinct_set_unique)
      (simp_all add: bt_ok_def strict_sorted_iff)
  have "fst (m ! i) = fst (m' ! i) \<and> eq (snd (m ! i)) (snd (m' ! i))" if "i < length m" for i
  proof -
    have len: "length m = length m'" using keys by (metis length_map)
    then have same: "fst (m ! i) = fst (m' ! i)"
      using keys that by (metis nth_map)
    have "bt_get m (fst (m ! i)) = Some (snd (m ! i))"
         "bt_get m' (fst (m' ! i)) = Some (snd (m' ! i))"
      using assms that len by (simp_all add: bt_get_eq_Some)
    with rel same show ?thesis by (metis option.rel_inject(2))
  qed
  then show "bt_eq_by eq m m'"
    using keys by (auto simp: bt_eq_by_def list_all2_conv_all_nth dest: map_eq_imp_length_eq)
qed

text \<open>Maps whose entries carry their own key.\<close>

definition keyed_by :: "('v \<Rightarrow> 'k) \<Rightarrow> ('k, 'v) btree \<Rightarrow> bool" where
  "keyed_by f m \<longleftrightarrow> (\<forall>e\<in>set m. f (snd e) = fst e)"

lemma keyed_by_Nil [simp]: "keyed_by f []"
  by (simp add: keyed_by_def)

lemma keyed_by_insert [simp]: "keyed_by f m \<Longrightarrow> f v = k \<Longrightarrow> keyed_by f (bt_insert k v m)"
  by (induction m) (auto simp: keyed_by_def)

lemma keyed_by_remove [simp]: "keyed_by f m \<Longrightarrow> keyed_by f (bt_remove k m)"
  by (simp add: keyed_by_def bt_remove_def)

lemma keyed_by_collect [simp]: "keyed_by f (bt_collect (map (\<lambda>x. (f x, x)) xs))"
proof -
  have "keyed_by f (fold (\<lambda>kv m. bt_insert (fst kv) (snd kv) m) (map (\<lambda>x. (f x, x)) xs) m)"
    if "keyed_by f m" for m
    using that by (induction xs arbitrary: m) simp_all
  then show ?thesis by (simp add: bt_collect_def)
qed

lemma keyed_by_get: "keyed_by f m \<Longrightarrow> bt_get m k = Some v \<Longrightarrow> f v = k"
  by (auto simp: keyed_by_def bt_get_def dest!: map_of_SomeD)

lemma map_values_keyed: "keyed_by f m \<Longrightarrow> map f (bt_values m) = map fst m"
  by (simp add: keyed_by_def bt_values_def)

lemma collect_values_keyed:
  assumes "bt_ok m" and "keyed_by f m"
  shows "bt_collect (map (\<lambda>x. (f x, x)) (bt_values m)) = m"
proof -
  have "map (\<lambda>x. (f x, x)) (bt_values m) = m"
    using assms(2) by (auto simp: keyed_by_def bt_values_def comp_def intro!: map_idI)
  then show ?thesis by (simp add: bt_collect_id assms)
qed

lemma bt_get_fold_insert_self:
  assumes "bt_ok m" and "distinct (map f vs)"
  shows "bt_get (fold (\<lambda>v. bt_insert (f v) v) vs m) k =
     (case find (\<lambda>v. f v = k) vs of Some v \<Rightarrow> Some v | None \<Rightarrow> bt_get m k)"
  using assms
proof (induction vs arbitrary: m)
  case Nil
  then show ?case by simp
next
  case (Cons v vs)
  have "find (\<lambda>v'. f v' = f v) vs = None"
    using Cons.prems(2) by (auto simp: find_None_iff image_iff)
  with Cons show ?case by (auto simp: bt_get_insert split: option.splits)
qed

lemma bt_ok_fold_insert [simp]: "bt_ok m \<Longrightarrow> bt_ok (fold (\<lambda>v. bt_insert (f v) v) vs m)"
  by (induction vs arbitrary: m) simp_all

end
