(* ===== verification/Render_Source.thy ===== *)
theory Render_Source
  imports Render_Types Ordered_Map
begin

section \<open>Renderer source state and its validation\<close>

text \<open>
  The data half of \<open>vixen-api/src/render/source.rs\<close>: revisions, the nodes, resources
  and scroll intents BrowserCore sends to the renderer, and \<open>validate_state\<close>, the
  single gate every renderer source state passes. The replica that applies snapshots and
  mutation batches is in \<open>Render_Replica\<close>. The main result of this theory is
  \<open>validate_state_iff\<close>: the loops with their running totals, seen-sets and early
  returns accept exactly the states of the declarative predicate \<open>wf_render_state\<close>.
\<close>

subsection \<open>Revisions\<close>

record RenderRevision =
  rev_context_id :: BrowsingContextId
  rev_document_id :: DocumentId
  source_generation :: u64
  style_generation :: u64
  viewport_generation :: u64
  resource_generation :: u64

definition generations :: "RenderRevision \<Rightarrow> u64 list" where
  "generations r =
     [source_generation r, style_generation r, viewport_generation r, resource_generation r]"

definition RenderRevision_validate :: "RenderRevision \<Rightarrow> unit render_result" where
  "RenderRevision_validate r =
     (if 0 \<in> set (generations r)
      then Err (RenderProtocolError_new code_REVISION
        ''render revision generations must be non-zero'')
      else Ok ())"

text \<open>\<open>new.iter().zip(old).any(|(new, old)| new < old)\<close>\<close>

definition generation_regressed :: "RenderRevision \<Rightarrow> RenderRevision \<Rightarrow> bool" where
  "generation_regressed new old \<longleftrightarrow>
     list_ex (\<lambda>(n, b). n < b) (zip (generations new) (generations old))"

definition RenderRevision_validate_successor_of ::
    "RenderRevision \<Rightarrow> RenderRevision \<Rightarrow> unit render_result" where
  "RenderRevision_validate_successor_of self base =
     and_then (RenderRevision_validate self) (\<lambda>_.
     and_then (RenderRevision_validate base) (\<lambda>_.
     if rev_context_id self \<noteq> rev_context_id base \<or> rev_document_id self \<noteq> rev_document_id base
     then Err (RenderProtocolError_new code_REVISION
       ''render revision successor changed context or document'')
     else if generation_regressed self base \<or> generations self = generations base
     then Err (RenderProtocolError_new code_REVISION
       ''render revision must advance without regressing a generation'')
     else Ok ()))"

subsection \<open>Nodes, resources, scroll intents\<close>

datatype RenderSemanticActionKind =
  KindActivate | KindFocus | KindSetValue | KindSetSelection | KindIncrease | KindDecrease |
  KindScrollIntoView

record RenderSemanticNode =
  sem_id :: SemanticNodeId
  sem_role :: string
  sem_name :: string
  sem_value :: "string option"
  sem_action_generation :: u64
  sem_actions :: "RenderSemanticActionKind list"

record RenderStyleProperty =
  style_name :: string
  style_value :: string

datatype RenderNodeKind =
  Element string | Text string | PseudoBefore string | PseudoAfter string

record RenderNode =
  node_id :: RenderNodeId
  node_parent_id :: "RenderNodeId option"
  node_sibling_index :: u32
  node_depth :: u16
  node_kind :: RenderNodeKind
  node_styles :: "RenderStyleProperty list"
  node_resource_ids :: "RenderResourceId list"
  node_semantic :: "RenderSemanticNode option"

datatype RenderResourceKind = Image | Font

record RenderResource =
  res_id :: RenderResourceId
  res_kind :: RenderResourceKind
  res_mime :: string
  res_bytes :: "u8 list"

datatype RenderScrollIntentKind =
  IntentBy RenderPoint | IntentTo RenderPoint | IntentRestore RenderPoint

record RenderScrollIntent =
  intent_scroll_node_id :: RenderScrollNodeId
  intent_node_id :: RenderNodeId
  intent_kind :: RenderScrollIntentKind

subsection \<open>\<open>validate_state\<close>\<close>

definition add_string_bytes :: "usize \<Rightarrow> string \<Rightarrow> string \<Rightarrow> usize render_result" where
  "add_string_bytes tot value field =
     (if RENDER_MAX_STRING_BYTES < length value
      then Err (limit_error field (length value) RENDER_MAX_STRING_BYTES)
      else
        and_then (ok_or (checked_add_usize tot (length value))
          (limit_error ''total string byte'' usize_max RENDER_MAX_TOTAL_STRING_BYTES)) (\<lambda>tot'.
        if RENDER_MAX_TOTAL_STRING_BYTES < tot'
        then Err (limit_error ''total string byte'' tot' RENDER_MAX_TOTAL_STRING_BYTES)
        else Ok tot'))"

text \<open>One iteration of the loop over the resources; its state is the two running totals
  and the identifiers seen.\<close>

fun validate_resource ::
    "usize \<times> usize \<times> RenderResourceId set \<Rightarrow> RenderResource
     \<Rightarrow> (usize \<times> usize \<times> RenderResourceId set) render_result" where
  "validate_resource (total_strings, total_resource_bytes, resource_ids) resource =
     (if res_id resource \<in> resource_ids
      then Err (duplicate_id_error ''render resource'' (res_id resource))
      else
        and_then (add_string_bytes total_strings (res_mime resource) ''resource MIME'') (\<lambda>ts.
        if RENDER_MAX_RESOURCE_BYTES < length (res_bytes resource)
        then Err (limit_error ''resource byte'' (length (res_bytes resource))
          RENDER_MAX_RESOURCE_BYTES)
        else
          and_then (ok_or (checked_add_usize total_resource_bytes (length (res_bytes resource)))
            (limit_error ''total resource byte'' usize_max RENDER_MAX_TOTAL_RESOURCE_BYTES)) (\<lambda>tb.
          if RENDER_MAX_TOTAL_RESOURCE_BYTES < tb
          then Err (limit_error ''total resource byte'' tb RENDER_MAX_TOTAL_RESOURCE_BYTES)
          else Ok (ts, tb, insert (res_id resource) resource_ids))))"

primrec add_kind_bytes :: "usize \<Rightarrow> RenderNodeKind \<Rightarrow> usize render_result" where
  "add_kind_bytes tot (Element local_name) =
     add_string_bytes tot local_name ''element local name''"
| "add_kind_bytes tot (Text t) = add_string_bytes tot t ''render text''"
| "add_kind_bytes tot (PseudoBefore t) = add_string_bytes tot t ''render text''"
| "add_kind_bytes tot (PseudoAfter t) = add_string_bytes tot t ''render text''"

fun validate_style ::
    "RenderNodeId \<Rightarrow> usize \<times> string set \<Rightarrow> RenderStyleProperty
     \<Rightarrow> (usize \<times> string set) render_result" where
  "validate_style nid (tot, style_names) style =
     and_then (add_string_bytes tot (style_name style) ''style name'') (\<lambda>tot.
     and_then (add_string_bytes tot (style_value style) ''style value'') (\<lambda>tot.
     if style_name style \<in> style_names
     then Err (RenderProtocolError_new code_INVALID_GRAPH
       (''render node '' @ ident_display nid @ '' repeats style '' @ style_name style))
     else Ok (tot, insert (style_name style) style_names)))"

definition validate_node_resource ::
    "RenderResourceId set \<Rightarrow> RenderResourceId set \<Rightarrow> RenderResourceId
     \<Rightarrow> RenderResourceId set render_result" where
  "validate_node_resource resource_ids node_resources rid =
     (if rid \<in> node_resources then Err (duplicate_id_error ''node resource reference'' rid)
      else if rid \<notin> resource_ids then Err (unknown_id_error ''render resource'' rid)
      else Ok (insert rid node_resources))"

definition validate_semantic ::
    "usize \<Rightarrow> SemanticNodeId set \<Rightarrow> RenderSemanticNode
     \<Rightarrow> (usize \<times> SemanticNodeId set) render_result" where
  "validate_semantic tot semantic_ids s =
     (if sem_action_generation s = 0
      then Err (RenderProtocolError_new code_REVISION
        (''semantic node '' @ ident_display (sem_id s) @ '' action generation must be non-zero''))
      else if RENDER_MAX_SEMANTIC_ACTIONS_PER_NODE < length (sem_actions s)
      then Err (limit_error ''semantic action'' (length (sem_actions s))
        RENDER_MAX_SEMANTIC_ACTIONS_PER_NODE)
      else if sem_id s \<in> semantic_ids
      then Err (duplicate_id_error ''semantic node'' (sem_id s))
      else
        and_then (add_string_bytes tot (sem_role s) ''semantic role'') (\<lambda>tot.
        and_then (add_string_bytes tot (sem_name s) ''semantic name'') (\<lambda>tot.
        and_then (case sem_value s of None \<Rightarrow> Ok tot
            | Some v \<Rightarrow> add_string_bytes tot v ''semantic value'') (\<lambda>tot.
        if card (set (sem_actions s)) \<noteq> length (sem_actions s)
        then Err (RenderProtocolError_new code_INVALID_GRAPH
          (''semantic node '' @ ident_display (sem_id s) @ '' repeats an advertised action''))
        else Ok (tot, insert (sem_id s) semantic_ids)))))"

text \<open>One iteration of the first loop over the nodes; its state is the running total, the
  nodes by identifier and the semantic identifiers seen.\<close>

fun validate_node ::
    "RenderResourceId set
     \<Rightarrow> usize \<times> (RenderNodeId, RenderNode) btree \<times> SemanticNodeId set \<Rightarrow> RenderNode
     \<Rightarrow> (usize \<times> (RenderNodeId, RenderNode) btree \<times> SemanticNodeId set) render_result" where
  "validate_node resource_ids (total_strings, node_by_id, semantic_ids) node =
     (if RENDER_MAX_TREE_DEPTH < node_depth node
      then Err (limit_error ''render tree depth'' (unat (node_depth node))
        (unat RENDER_MAX_TREE_DEPTH))
      else if RENDER_MAX_STYLES_PER_NODE < length (node_styles node)
      then Err (limit_error ''style property'' (length (node_styles node))
        RENDER_MAX_STYLES_PER_NODE)
      else if RENDER_MAX_RESOURCES_PER_NODE < length (node_resource_ids node)
      then Err (limit_error ''node resource reference'' (length (node_resource_ids node))
        RENDER_MAX_RESOURCES_PER_NODE)
      else if bt_contains_key node_by_id (node_id node)
      then Err (duplicate_id_error ''render node'' (node_id node))
      else
        and_then (add_kind_bytes total_strings (node_kind node)) (\<lambda>tot.
        and_then (try_fold (validate_style (node_id node)) (tot, {}) (node_styles node)) (\<lambda>st.
        and_then (try_fold (validate_node_resource resource_ids) {} (node_resource_ids node)) (\<lambda>_.
        and_then (case node_semantic node of None \<Rightarrow> Ok (fst st, semantic_ids)
            | Some s \<Rightarrow> validate_semantic (fst st) semantic_ids s) (\<lambda>ts.
        Ok (fst ts, bt_insert (node_id node) node node_by_id, snd ts))))))"

text \<open>The second loop over the nodes: the parent edges.\<close>

definition validate_parent ::
    "(RenderNodeId, RenderNode) btree \<Rightarrow> RenderNode \<Rightarrow> unit render_result" where
  "validate_parent node_by_id node =
     (case node_parent_id node of
        Some parent_id \<Rightarrow>
          and_then (ok_or (bt_get node_by_id parent_id)
            (unknown_id_error ''parent render node'' parent_id)) (\<lambda>parent.
          if node_depth node \<noteq> saturating_add_u16 (node_depth parent) 1
          then Err (RenderProtocolError_new code_INVALID_GRAPH
            (''render node '' @ ident_display (node_id node) @ '' depth '' @
             show_word (node_depth node) @ '' does not follow parent '' @
             ident_display parent_id @ '' depth '' @ show_word (node_depth parent)))
          else Ok ())
      | None \<Rightarrow>
          if node_depth node \<noteq> 0
          then Err (RenderProtocolError_new code_INVALID_GRAPH
            (''root render node '' @ ident_display (node_id node) @ '' must have depth zero''))
          else Ok ())"

primrec intent_point :: "RenderScrollIntentKind \<Rightarrow> RenderPoint" where
  "intent_point (IntentBy p) = p"
| "intent_point (IntentTo p) = p"
| "intent_point (IntentRestore p) = p"

definition validate_scroll_intent ::
    "(RenderNodeId, RenderNode) btree \<Rightarrow> RenderScrollNodeId set \<Rightarrow> RenderScrollIntent
     \<Rightarrow> RenderScrollNodeId set render_result" where
  "validate_scroll_intent node_by_id scroll_ids intent =
     (if intent_scroll_node_id intent \<in> scroll_ids
      then Err (duplicate_id_error ''render scroll node'' (intent_scroll_node_id intent))
      else if \<not> bt_contains_key node_by_id (intent_node_id intent)
      then Err (unknown_id_error ''scroll render node'' (intent_node_id intent))
      else
        and_then (RenderPoint_validate (intent_point (intent_kind intent)) ''scroll intent'') (\<lambda>_.
        Ok (insert (intent_scroll_node_id intent) scroll_ids)))"

definition validate_state ::
    "RenderNode list \<Rightarrow> RenderResource list \<Rightarrow> RenderScrollIntent list \<Rightarrow> unit render_result" where
  "validate_state nodes resources scroll_intents =
     (if RENDER_MAX_NODES < length nodes
      then Err (limit_error ''node'' (length nodes) RENDER_MAX_NODES)
      else if RENDER_MAX_RESOURCES < length resources
      then Err (limit_error ''resource'' (length resources) RENDER_MAX_RESOURCES)
      else if RENDER_MAX_SCROLL_ENTRIES < length scroll_intents
      then Err (limit_error ''scroll intent'' (length scroll_intents) RENDER_MAX_SCROLL_ENTRIES)
      else
        and_then (try_fold validate_resource (0, 0, {}) resources) (\<lambda>rs.
        and_then (try_fold (validate_node (snd (snd rs))) (fst rs, [], {}) nodes) (\<lambda>ns.
        and_then (try_for (validate_parent (fst (snd ns))) nodes) (\<lambda>_.
        and_then (try_fold (validate_scroll_intent (fst (snd ns))) {} scroll_intents) (\<lambda>_.
        Ok ())))))"

section \<open>The declarative counterpart\<close>

definition string_ok :: "string \<Rightarrow> bool" where
  "string_ok s \<longleftrightarrow> length s \<le> RENDER_MAX_STRING_BYTES"

definition string_bytes :: "string list \<Rightarrow> nat" where
  "string_bytes ss = sum_list (map length ss)"

primrec kind_string :: "RenderNodeKind \<Rightarrow> string" where
  "kind_string (Element s) = s"
| "kind_string (Text s) = s"
| "kind_string (PseudoBefore s) = s"
| "kind_string (PseudoAfter s) = s"

definition style_strings :: "RenderStyleProperty list \<Rightarrow> string list" where
  "style_strings ps = concat (map (\<lambda>p. [style_name p, style_value p]) ps)"

definition semantic_strings :: "RenderSemanticNode option \<Rightarrow> string list" where
  "semantic_strings s = (case s of None \<Rightarrow> [] | Some s \<Rightarrow>
     [sem_role s, sem_name s] @ (case sem_value s of None \<Rightarrow> [] | Some v \<Rightarrow> [v]))"

text \<open>Every string a node sends to the renderer.\<close>

definition node_strings :: "RenderNode \<Rightarrow> string list" where
  "node_strings n =
     kind_string (node_kind n) # style_strings (node_styles n) @ semantic_strings (node_semantic n)"

definition semantic_ok :: "RenderSemanticNode \<Rightarrow> bool" where
  "semantic_ok s \<longleftrightarrow> sem_action_generation s \<noteq> 0
     \<and> length (sem_actions s) \<le> RENDER_MAX_SEMANTIC_ACTIONS_PER_NODE
     \<and> distinct (sem_actions s)"

definition node_ok :: "RenderResourceId set \<Rightarrow> RenderNode \<Rightarrow> bool" where
  "node_ok rids n \<longleftrightarrow>
     node_depth n \<le> RENDER_MAX_TREE_DEPTH
     \<and> length (node_styles n) \<le> RENDER_MAX_STYLES_PER_NODE
     \<and> length (node_resource_ids n) \<le> RENDER_MAX_RESOURCES_PER_NODE
     \<and> distinct (map style_name (node_styles n))
     \<and> distinct (node_resource_ids n) \<and> set (node_resource_ids n) \<subseteq> rids
     \<and> (\<forall>s\<in>set (node_strings n). string_ok s)
     \<and> (\<forall>s\<in>set_option (node_semantic n). semantic_ok s)"

definition resource_ok :: "RenderResource \<Rightarrow> bool" where
  "resource_ok r \<longleftrightarrow> string_ok (res_mime r) \<and> length (res_bytes r) \<le> RENDER_MAX_RESOURCE_BYTES"

text \<open>A node is a root of depth zero or one level below its parent.\<close>

definition parent_ok :: "RenderNode list \<Rightarrow> RenderNode \<Rightarrow> bool" where
  "parent_ok nodes n \<longleftrightarrow>
     (case node_parent_id n of
        None \<Rightarrow> node_depth n = 0
      | Some p \<Rightarrow> (\<exists>m\<in>set nodes. node_id m = p \<and> unat (node_depth n) = Suc (unat (node_depth m))))"

definition intent_ok :: "RenderNode list \<Rightarrow> RenderScrollIntent \<Rightarrow> bool" where
  "intent_ok nodes i \<longleftrightarrow>
     intent_node_id i \<in> node_id ` set nodes \<and> point_ok (intent_point (intent_kind i))"

definition semantic_ids :: "RenderNode list \<Rightarrow> SemanticNodeId list" where
  "semantic_ids nodes = map sem_id (List.map_filter node_semantic nodes)"

definition wf_render_state ::
    "RenderNode list \<Rightarrow> RenderResource list \<Rightarrow> RenderScrollIntent list \<Rightarrow> bool" where
  "wf_render_state nodes resources intents \<longleftrightarrow>
     length nodes \<le> RENDER_MAX_NODES
     \<and> length resources \<le> RENDER_MAX_RESOURCES
     \<and> length intents \<le> RENDER_MAX_SCROLL_ENTRIES
     \<and> distinct (map res_id resources) \<and> distinct (map node_id nodes)
     \<and> distinct (semantic_ids nodes) \<and> distinct (map intent_scroll_node_id intents)
     \<and> (\<forall>r\<in>set resources. resource_ok r)
     \<and> sum_list (map (length \<circ> res_bytes) resources) \<le> RENDER_MAX_TOTAL_RESOURCE_BYTES
     \<and> string_bytes (map res_mime resources) + sum_list (map (string_bytes \<circ> node_strings) nodes)
         \<le> RENDER_MAX_TOTAL_STRING_BYTES
     \<and> (\<forall>n\<in>set nodes. node_ok (set (map res_id resources)) n \<and> parent_ok nodes n)
     \<and> (\<forall>i\<in>set intents. intent_ok nodes i)"

section \<open>Validation accepts exactly the well-formed states\<close>

subsection \<open>Revisions\<close>

lemma RenderRevision_validate_Ok [result_simps]:
  "RenderRevision_validate r = Ok u \<longleftrightarrow> 0 \<notin> set (generations r)"
  by (simp add: RenderRevision_validate_def)

lemma generation_regressed_iff:
  "generation_regressed new old \<longleftrightarrow>
     source_generation new < source_generation old \<or> style_generation new < style_generation old
     \<or> viewport_generation new < viewport_generation old
     \<or> resource_generation new < resource_generation old"
  by (simp add: generation_regressed_def generations_def)

lemma generations_eq_iff:
  "generations r = generations r' \<longleftrightarrow>
     source_generation r = source_generation r' \<and> style_generation r = style_generation r'
     \<and> viewport_generation r = viewport_generation r'
     \<and> resource_generation r = resource_generation r'"
  by (simp add: generations_def)

lemma generation_regressed_refl [simp]: "\<not> generation_regressed r r"
  by (simp add: generation_regressed_iff)

text \<open>The order of revisions: no generation is lower.\<close>

definition revision_le :: "RenderRevision \<Rightarrow> RenderRevision \<Rightarrow> bool" where
  "revision_le old new \<longleftrightarrow> rev_context_id new = rev_context_id old
     \<and> rev_document_id new = rev_document_id old \<and> \<not> generation_regressed new old"

lemma revision_le_refl [simp]: "revision_le r r"
  by (simp add: revision_le_def)

lemma revision_le_trans: "revision_le a b \<Longrightarrow> revision_le b c \<Longrightarrow> revision_le a c"
  by (auto simp: revision_le_def generation_regressed_iff not_less)

lemma revision_le_antisym: "revision_le a b \<Longrightarrow> revision_le b a \<Longrightarrow> a = b"
  by (cases a; cases b) (auto simp: revision_le_def generation_regressed_iff not_less)

lemma validate_successor_of_Ok [result_simps]:
  "RenderRevision_validate_successor_of new old = Ok u \<longleftrightarrow>
     0 \<notin> set (generations new) \<and> 0 \<notin> set (generations old)
     \<and> revision_le old new \<and> generations new \<noteq> generations old"
  by (auto simp: RenderRevision_validate_successor_of_def result_simps revision_le_def)

subsection \<open>Running string totals\<close>

lemma string_bytes_simps [simp]:
  "string_bytes [] = 0" "string_bytes (s # ss) = length s + string_bytes ss"
  "string_bytes (ss @ ts) = string_bytes ss + string_bytes ts"
  by (simp_all add: string_bytes_def)

lemma add_string_bytes_Ok [result_simps]:
  "add_string_bytes t v f = Ok t' \<longleftrightarrow>
     string_ok v \<and> t' = t + length v \<and> t' \<le> RENDER_MAX_TOTAL_STRING_BYTES"
  by (auto simp: add_string_bytes_def string_ok_def result_simps usize_max_def size_limits not_less)

lemma add_kind_bytes_Ok [result_simps]:
  "add_kind_bytes t k = Ok t' \<longleftrightarrow>
     string_ok (kind_string k) \<and> t' = t + length (kind_string k)
     \<and> t' \<le> RENDER_MAX_TOTAL_STRING_BYTES"
  by (cases k) (simp_all add: result_simps)

lemma validate_style_Ok [result_simps]:
  "validate_style i st p = Ok st' \<longleftrightarrow>
     string_ok (style_name p) \<and> string_ok (style_value p) \<and> style_name p \<notin> snd st
     \<and> st' = (fst st + length (style_name p) + length (style_value p), insert (style_name p) (snd st))
     \<and> fst st' \<le> RENDER_MAX_TOTAL_STRING_BYTES"
  by (cases st) (auto simp: result_simps)

lemma style_strings_simps [simp]:
  "style_strings [] = []"
  "style_strings (p # ps) = style_name p # style_value p # style_strings ps"
  by (simp_all add: style_strings_def)

lemma validate_styles_Ok:
  "fst st \<le> RENDER_MAX_TOTAL_STRING_BYTES \<Longrightarrow>
   try_fold (validate_style i) st ps = Ok st' \<longleftrightarrow>
     (\<forall>s\<in>set (style_strings ps). string_ok s)
     \<and> distinct (map style_name ps) \<and> set (map style_name ps) \<inter> snd st = {}
     \<and> st' = (fst st + string_bytes (style_strings ps), set (map style_name ps) \<union> snd st)
     \<and> fst st' \<le> RENDER_MAX_TOTAL_STRING_BYTES"
proof (induction ps arbitrary: st)
  case Nil
  then show ?case by (cases st) auto
next
  case (Cons p ps)
  let ?st = "(fst st + length (style_name p) + length (style_value p), insert (style_name p) (snd st))"
  have step: "try_fold (validate_style i) st (p # ps) = Ok st' \<longleftrightarrow>
      string_ok (style_name p) \<and> string_ok (style_value p) \<and> style_name p \<notin> snd st
      \<and> fst ?st \<le> RENDER_MAX_TOTAL_STRING_BYTES
      \<and> try_fold (validate_style i) ?st ps = Ok st'"
    by (simp only: try_fold.simps and_then_eq_Ok validate_style_Ok) auto
  show ?case
  proof (cases "fst ?st \<le> RENDER_MAX_TOTAL_STRING_BYTES")
    case True
    show ?thesis unfolding step Cons.IH [OF True] by (auto simp: add.assoc)
  next
    case False
    then show ?thesis unfolding step by auto
  qed
qed

subsection \<open>Seen-sets\<close>

lemma validate_node_resource_Ok [result_simps]:
  "validate_node_resource rids seen r = Ok seen' \<longleftrightarrow>
     r \<notin> seen \<and> r \<in> rids \<and> seen' = insert r seen"
  by (auto simp: validate_node_resource_def)

lemma validate_node_resources_Ok:
  "try_fold (validate_node_resource rids) seen rs = Ok seen' \<longleftrightarrow>
     distinct rs \<and> set rs \<inter> seen = {} \<and> set rs \<subseteq> rids \<and> seen' = set rs \<union> seen"
  by (induction rs arbitrary: seen) (auto simp: result_simps)

lemma validate_semantic_Ok [result_simps]:
  "t \<le> RENDER_MAX_TOTAL_STRING_BYTES \<Longrightarrow>
   validate_semantic t sids s = Ok ts \<longleftrightarrow>
     semantic_ok s \<and> sem_id s \<notin> sids \<and> (\<forall>x\<in>set (semantic_strings (Some s)). string_ok x)
     \<and> ts = (t + string_bytes (semantic_strings (Some s)), insert (sem_id s) sids)
     \<and> fst ts \<le> RENDER_MAX_TOTAL_STRING_BYTES"
  by (cases "sem_value s")
     (auto simp: validate_semantic_def semantic_ok_def semantic_strings_def result_simps
       distinct_card card_distinct not_less)

subsection \<open>The node loop\<close>

lemma semantic_ids_simps [simp]:
  "semantic_ids [] = []"
  "semantic_ids (n # ns) =
     (case node_semantic n of None \<Rightarrow> semantic_ids ns | Some s \<Rightarrow> sem_id s # semantic_ids ns)"
  by (simp_all add: semantic_ids_def map_filter_simps split: option.split)

lemma validate_node_Ok [result_simps]:
  "validate_node rids (t, m, sids) n = Ok st \<longleftrightarrow>
     node_ok rids n \<and> \<not> bt_contains_key m (node_id n)
     \<and> set (semantic_ids [n]) \<inter> sids = {}
     \<and> st = (t + string_bytes (node_strings n), bt_insert (node_id n) n m,
             set (semantic_ids [n]) \<union> sids)
     \<and> fst st \<le> RENDER_MAX_TOTAL_STRING_BYTES"
proof -
  have tot: "fst st \<le> RENDER_MAX_TOTAL_STRING_BYTES \<Longrightarrow>
      t + length (kind_string (node_kind n)) \<le> RENDER_MAX_TOTAL_STRING_BYTES"
    if "fst st = t + string_bytes (node_strings n)"
    using that by (simp add: node_strings_def)
  show ?thesis
    by (cases "node_semantic n"; cases st)
       (auto simp: result_simps validate_styles_Ok validate_node_resources_Ok node_ok_def not_less
         node_strings_def semantic_strings_def [of None])
qed

lemma validate_nodes_Ok:
  assumes "bt_ok m"
  shows "try_fold (validate_node rids) (t, m, sids) ns = Ok st \<longleftrightarrow>
     (\<forall>n\<in>set ns. node_ok rids n) \<and> distinct (map node_id ns)
     \<and> (\<forall>n\<in>set ns. \<not> bt_contains_key m (node_id n))
     \<and> distinct (semantic_ids ns) \<and> set (semantic_ids ns) \<inter> sids = {}
     \<and> st = (t + sum_list (map (string_bytes \<circ> node_strings) ns),
             fold (\<lambda>n. bt_insert (node_id n) n) ns m, set (semantic_ids ns) \<union> sids)
     \<and> (ns \<noteq> [] \<longrightarrow> fst st \<le> RENDER_MAX_TOTAL_STRING_BYTES)"
  using assms
proof (induction ns arbitrary: t m sids)
  case Nil
  then show ?case by auto
next
  case (Cons n ns)
  let ?m = "bt_insert (node_id n) n m"
  have "bt_contains_key ?m k \<longleftrightarrow> k = node_id n \<or> bt_contains_key m k" for k
    using Cons.prems by (auto simp: bt_contains_key_def bt_get_insert)
  then have key: "(\<forall>x\<in>set ns. \<not> bt_contains_key ?m (node_id x)) \<longleftrightarrow>
      node_id n \<notin> node_id ` set ns \<and> (\<forall>x\<in>set ns. \<not> bt_contains_key m (node_id x))"
    by (auto simp: image_iff)
  have "bt_ok ?m" using Cons.prems by simp
  note IH = Cons.IH [OF this, of "t + string_bytes (node_strings n)" "set (semantic_ids [n]) \<union> sids"]
  have sem: "distinct (semantic_ids (n # ns)) \<and> set (semantic_ids (n # ns)) \<inter> sids = {} \<longleftrightarrow>
      set (semantic_ids [n]) \<inter> sids = {} \<and> distinct (semantic_ids ns)
      \<and> set (semantic_ids ns) \<inter> (set (semantic_ids [n]) \<union> sids) = {}"
    by (auto split: option.splits)
  have set: "set (semantic_ids (n # ns)) \<union> sids =
      set (semantic_ids ns) \<union> (set (semantic_ids [n]) \<union> sids)"
    by (auto split: option.splits)
  have "try_fold (validate_node rids) (t, m, sids) (n # ns) = Ok st \<longleftrightarrow>
      node_ok rids n \<and> \<not> bt_contains_key m (node_id n) \<and> set (semantic_ids [n]) \<inter> sids = {}
      \<and> t + string_bytes (node_strings n) \<le> RENDER_MAX_TOTAL_STRING_BYTES
      \<and> try_fold (validate_node rids)
          (t + string_bytes (node_strings n), ?m, set (semantic_ids [n]) \<union> sids) ns = Ok st"
    by (simp only: try_fold.simps and_then_eq_Ok validate_node_Ok) auto
  also have "\<dots> \<longleftrightarrow> (\<forall>n\<in>set (n # ns). node_ok rids n) \<and> distinct (map node_id (n # ns))
     \<and> (\<forall>n\<in>set (n # ns). \<not> bt_contains_key m (node_id n))
     \<and> (distinct (semantic_ids (n # ns)) \<and> set (semantic_ids (n # ns)) \<inter> sids = {})
     \<and> st = (t + sum_list (map (string_bytes \<circ> node_strings) (n # ns)),
             fold (\<lambda>n. bt_insert (node_id n) n) (n # ns) m, set (semantic_ids (n # ns)) \<union> sids)
     \<and> (n # ns \<noteq> [] \<longrightarrow> fst st \<le> RENDER_MAX_TOTAL_STRING_BYTES)"
    unfolding IH sem set key by (auto simp: add.assoc)
  finally show ?case by (simp only: conj_assoc)
qed

lemma fold_bt_insert_collect:
  "fold (\<lambda>n. bt_insert (f n) n) ns [] = bt_collect (map (\<lambda>n. (f n, n)) ns)"
proof -
  have "fold (\<lambda>n. bt_insert (f n) n) ns m =
      fold (\<lambda>kv m. bt_insert (fst kv) (snd kv) m) (map (\<lambda>n. (f n, n)) ns) m" for m
    by (induction ns arbitrary: m) simp_all
  then show ?thesis by (simp add: bt_collect_def)
qed

subsection \<open>The other loops\<close>

lemma validate_resource_Ok [result_simps]:
  "validate_resource (t, b, ids) r = Ok st \<longleftrightarrow>
     resource_ok r \<and> res_id r \<notin> ids
     \<and> st = (t + length (res_mime r), b + length (res_bytes r), insert (res_id r) ids)
     \<and> fst st \<le> RENDER_MAX_TOTAL_STRING_BYTES \<and> fst (snd st) \<le> RENDER_MAX_TOTAL_RESOURCE_BYTES"
  by (cases st)
     (auto simp: result_simps resource_ok_def usize_max_def size_limits not_less)

lemma validate_resources_Ok:
  "try_fold validate_resource (t, b, ids) rs = Ok st \<longleftrightarrow>
     (\<forall>r\<in>set rs. resource_ok r) \<and> distinct (map res_id rs) \<and> set (map res_id rs) \<inter> ids = {}
     \<and> st = (t + string_bytes (map res_mime rs), b + sum_list (map (length \<circ> res_bytes) rs),
             set (map res_id rs) \<union> ids)
     \<and> (rs \<noteq> [] \<longrightarrow> fst st \<le> RENDER_MAX_TOTAL_STRING_BYTES
          \<and> fst (snd st) \<le> RENDER_MAX_TOTAL_RESOURCE_BYTES)"
proof (induction rs arbitrary: t b ids)
  case Nil
  then show ?case by auto
next
  case (Cons r rs)
  have step: "try_fold validate_resource (t, b, ids) (r # rs) = Ok st \<longleftrightarrow>
      resource_ok r \<and> res_id r \<notin> ids
      \<and> t + length (res_mime r) \<le> RENDER_MAX_TOTAL_STRING_BYTES
      \<and> b + length (res_bytes r) \<le> RENDER_MAX_TOTAL_RESOURCE_BYTES
      \<and> try_fold validate_resource
          (t + length (res_mime r), b + length (res_bytes r), insert (res_id r) ids) rs = Ok st"
    by (simp only: try_fold.simps and_then_eq_Ok validate_resource_Ok) auto
  show ?case unfolding step Cons.IH by (auto simp: add.assoc comp_def)
qed

lemma validate_scroll_intent_Ok [result_simps]:
  "validate_scroll_intent m seen i = Ok seen' \<longleftrightarrow>
     intent_scroll_node_id i \<notin> seen \<and> bt_contains_key m (intent_node_id i)
     \<and> point_ok (intent_point (intent_kind i)) \<and> seen' = insert (intent_scroll_node_id i) seen"
  by (auto simp: validate_scroll_intent_def result_simps)

lemma validate_scroll_intents_Ok:
  "try_fold (validate_scroll_intent m) seen is = Ok seen' \<longleftrightarrow>
     distinct (map intent_scroll_node_id is) \<and> set (map intent_scroll_node_id is) \<inter> seen = {}
     \<and> (\<forall>i\<in>set is. bt_contains_key m (intent_node_id i)
          \<and> point_ok (intent_point (intent_kind i)))
     \<and> seen' = set (map intent_scroll_node_id is) \<union> seen"
  by (induction "is" arbitrary: seen) (auto simp: result_simps)

lemma validate_parent_Ok:
  assumes "distinct (map node_id ns)" and "node_depth n \<le> RENDER_MAX_TREE_DEPTH"
  shows "validate_parent (bt_collect (map (\<lambda>n. (node_id n, n)) ns)) n = Ok u \<longleftrightarrow> parent_ok ns n"
proof (cases "node_parent_id n")
  case None
  then show ?thesis by (simp add: validate_parent_def parent_ok_def)
next
  case (Some p)
  have "unat (node_depth n) \<le> 256"
    using assms(2) by (simp add: size_limits word_le_nat_alt)
  then have "node_depth n = saturating_add_u16 d 1 \<longleftrightarrow> unat (node_depth n) = Suc (unat d)" for d
    by (auto simp: word_unat_eq_iff unat_saturating_add_u16)
  with Some show ?thesis
    by (auto simp: validate_parent_def parent_ok_def result_simps bt_get_collect_self [OF assms(1)])
qed

lemma validate_state_iff:
  "validate_state ns rs is = Ok u \<longleftrightarrow> wf_render_state ns rs is"
proof -
  let ?rids = "set (map res_id rs)"
  let ?m = "bt_collect (map (\<lambda>n. (node_id n, n)) ns)"
  have key: "bt_contains_key ?m k \<longleftrightarrow> k \<in> node_id ` set ns" if "distinct (map node_id ns)" for k
  proof -
    have "set ?m = set (map (\<lambda>n. (node_id n, n)) ns)"
      using that by (intro set_bt_collect) (simp add: comp_def)
    then show ?thesis by (auto simp: bt_contains_key_def bt_get_None image_image)
  qed
  have parents: "(\<forall>n\<in>set ns. validate_parent ?m n = Ok ()) \<longleftrightarrow> (\<forall>n\<in>set ns. parent_ok ns n)"
    if "distinct (map node_id ns)" "\<forall>n\<in>set ns. node_ok ?rids n"
    using that by (auto simp: validate_parent_Ok node_ok_def)
  show ?thesis
    unfolding validate_state_def wf_render_state_def
    by (simp add: result_simps validate_resources_Ok validate_nodes_Ok fold_bt_insert_collect
        validate_scroll_intents_Ok not_less)
       (use key parents in \<open>auto simp: intent_ok_def bt_contains_key_def [of "[]"]\<close>)
qed

subsection \<open>Well-formedness does not depend on the order of the lists\<close>

lemma mset_semantic_ids:
  "mset (semantic_ids ns) =
     image_mset sem_id (image_mset the (filter_mset (\<lambda>x. x \<noteq> None) (image_mset node_semantic (mset ns))))"
  by (induction ns) (auto split: option.splits)

lemma distinct_mset_cong: "mset xs = mset ys \<Longrightarrow> distinct (map f xs) \<longleftrightarrow> distinct (map f ys)"
  by (rule mset_eq_imp_distinct_iff) simp

lemma sum_list_mset_cong:
  "mset xs = mset ys \<Longrightarrow> sum_list (map f xs) = (sum_list (map f ys) :: nat)"
  by (metis mset_map sum_mset_sum_list)

lemma string_bytes_map: "string_bytes (map f xs) = sum_list (map (length \<circ> f) xs)"
  by (simp add: string_bytes_def)

lemma wf_render_state_mset:
  assumes "mset ns = mset ns'" and "mset rs = mset rs'" and "mset is = mset is'"
  shows "wf_render_state ns rs is \<longleftrightarrow> wf_render_state ns' rs' is'"
proof -
  have sets: "set ns = set ns'" "set rs = set rs'" "set is = set is'"
    using assms by (metis set_mset_mset)+
  have lens: "length ns = length ns'" "length rs = length rs'" "length is = length is'"
    using assms by (metis size_mset)+
  have sem: "distinct (semantic_ids ns) \<longleftrightarrow> distinct (semantic_ids ns')"
    by (rule mset_eq_imp_distinct_iff) (simp add: mset_semantic_ids assms)
  have par: "parent_ok ns = parent_ok ns'" "intent_ok ns = intent_ok ns'"
    by (simp_all add: parent_ok_def intent_ok_def sets fun_eq_iff split: option.split)
  show ?thesis
    unfolding wf_render_state_def string_bytes_map set_map sets lens sem par
      distinct_mset_cong [OF assms(1)] distinct_mset_cong [OF assms(2)]
      distinct_mset_cong [OF assms(3)] sum_list_mset_cong [OF assms(1)]
      sum_list_mset_cong [OF assms(2)] ..
qed

end
