(* ===== verification/Render_Replica.thy ===== *)
theory Render_Replica
  imports Render_Source
begin

section \<open>Snapshots, mutation batches and the replica\<close>

text \<open>
  The behaviour half of \<open>vixen-api/src/render/source.rs\<close>. BrowserCore publishes full
  snapshots and, between two snapshots, the batch \<open>RenderMutationBatch::between\<close>
  computes; \<open>RenderReplica\<close> is the renderer-side state both are applied to. The
  operations take the replica and return it updated with their result.
\<close>

subsection \<open>Full snapshots\<close>

record FullRenderSnapshot =
  snap_version :: u16
  snap_revision :: RenderRevision
  snap_viewport :: RenderViewport
  snap_nodes :: "RenderNode list"
  snap_resources :: "RenderResource list"
  snap_scroll_intents :: "RenderScrollIntent list"

definition FullRenderSnapshot_new :: "RenderRevision \<Rightarrow> RenderViewport \<Rightarrow> FullRenderSnapshot" where
  "FullRenderSnapshot_new r v =
     \<lparr>snap_version = RENDER_PROTOCOL_VERSION, snap_revision = r, snap_viewport = v,
      snap_nodes = [], snap_resources = [], snap_scroll_intents = []\<rparr>"

definition FullRenderSnapshot_validate :: "FullRenderSnapshot \<Rightarrow> unit render_result" where
  "FullRenderSnapshot_validate s =
     and_then (validate_version (snap_version s)) (\<lambda>_.
     and_then (RenderRevision_validate (snap_revision s)) (\<lambda>_.
     and_then (RenderViewport_validate (snap_viewport s)) (\<lambda>_.
     validate_state (snap_nodes s) (snap_resources s) (snap_scroll_intents s))))"

definition nodes_by_id :: "RenderNode list \<Rightarrow> (RenderNodeId, RenderNode) btree" where
  "nodes_by_id ns = bt_collect (map (\<lambda>n. (node_id n, n)) ns)"

definition resources_by_id :: "RenderResource list \<Rightarrow> (RenderResourceId, RenderResource) btree" where
  "resources_by_id rs = bt_collect (map (\<lambda>r. (res_id r, r)) rs)"

definition intents_by_id ::
    "RenderScrollIntent list \<Rightarrow> (RenderScrollNodeId, RenderScrollIntent) btree" where
  "intents_by_id is = bt_collect (map (\<lambda>i. (intent_scroll_node_id i, i)) is)"

text \<open>The derived \<open>PartialEq\<close> of scroll intents compares their points as floats.\<close>

fun RenderScrollIntentKind_eq :: "RenderScrollIntentKind \<Rightarrow> RenderScrollIntentKind \<Rightarrow> bool" where
  "RenderScrollIntentKind_eq (IntentBy p) (IntentBy q) = RenderPoint_eq p q"
| "RenderScrollIntentKind_eq (IntentTo p) (IntentTo q) = RenderPoint_eq p q"
| "RenderScrollIntentKind_eq (IntentRestore p) (IntentRestore q) = RenderPoint_eq p q"
| "RenderScrollIntentKind_eq _ _ = False"

definition RenderScrollIntent_eq :: "RenderScrollIntent \<Rightarrow> RenderScrollIntent \<Rightarrow> bool" where
  "RenderScrollIntent_eq i j \<longleftrightarrow>
     intent_scroll_node_id i = intent_scroll_node_id j \<and> intent_node_id i = intent_node_id j
     \<and> RenderScrollIntentKind_eq (intent_kind i) (intent_kind j)"

subsection \<open>Mutation batches\<close>

datatype RenderMutation =
  SetViewport RenderViewport
| UpsertNode RenderNode
| RemoveNode RenderNodeId
| UpsertResource RenderResource
| RemoveResource RenderResourceId
| SetScrollIntent RenderScrollIntent
| RemoveScrollIntent RenderScrollNodeId

record RenderMutationBatch =
  batch_version :: u16
  batch_base_revision :: RenderRevision
  batch_target_revision :: RenderRevision
  batch_mutations :: "RenderMutation list"

definition RenderMutationBatch_validate :: "RenderMutationBatch \<Rightarrow> unit render_result" where
  "RenderMutationBatch_validate b =
     and_then (validate_version (batch_version b)) (\<lambda>_.
     and_then (RenderRevision_validate_successor_of (batch_target_revision b)
       (batch_base_revision b)) (\<lambda>_.
     if RENDER_MAX_MUTATIONS < length (batch_mutations b)
     then Err (limit_error ''mutation'' (length (batch_mutations b)) RENDER_MAX_MUTATIONS)
     else Ok ()))"

text \<open>The keys to remove and the entries to write, in key order.\<close>

definition removed_keys :: "('k, 'v) btree \<Rightarrow> ('k, 'v) btree \<Rightarrow> 'k list" where
  "removed_keys base target = filter (\<lambda>k. \<not> bt_contains_key target k) (bt_keys base)"

definition changed_values ::
    "('v \<Rightarrow> 'v \<Rightarrow> bool) \<Rightarrow> ('k, 'v) btree \<Rightarrow> ('k, 'v) btree \<Rightarrow> 'v list" where
  "changed_values eq base target =
     map snd (filter (\<lambda>kv. \<not> option_eq_by eq (bt_get base (fst kv)) (Some (snd kv))) target)"

definition between_mutations ::
    "FullRenderSnapshot \<Rightarrow> FullRenderSnapshot \<Rightarrow> RenderMutation list" where
  "between_mutations base target =
     (let base_nodes = nodes_by_id (snap_nodes base);
          target_nodes = nodes_by_id (snap_nodes target);
          base_resources = resources_by_id (snap_resources base);
          target_resources = resources_by_id (snap_resources target);
          base_scroll = intents_by_id (snap_scroll_intents base);
          target_scroll = intents_by_id (snap_scroll_intents target)
      in (if \<not> RenderViewport_eq (snap_viewport base) (snap_viewport target)
             \<or> viewport_generation (snap_revision base) \<noteq> viewport_generation (snap_revision target)
          then [SetViewport (snap_viewport target)] else [])
         @ map RemoveNode (removed_keys base_nodes target_nodes)
         @ map UpsertNode (changed_values (=) base_nodes target_nodes)
         @ map RemoveResource (removed_keys base_resources target_resources)
         @ map UpsertResource (changed_values (=) base_resources target_resources)
         @ map RemoveScrollIntent (removed_keys base_scroll target_scroll)
         @ map SetScrollIntent (changed_values RenderScrollIntent_eq base_scroll target_scroll))"

definition RenderMutationBatch_between ::
    "FullRenderSnapshot \<Rightarrow> FullRenderSnapshot \<Rightarrow> RenderMutationBatch render_result" where
  "RenderMutationBatch_between base target =
     and_then (FullRenderSnapshot_validate base) (\<lambda>_.
     and_then (FullRenderSnapshot_validate target) (\<lambda>_.
     and_then (RenderRevision_validate_successor_of (snap_revision target) (snap_revision base)) (\<lambda>_.
     let batch = \<lparr>batch_version = RENDER_PROTOCOL_VERSION,
                  batch_base_revision = snap_revision base,
                  batch_target_revision = snap_revision target,
                  batch_mutations = between_mutations base target\<rparr>
     in and_then (RenderMutationBatch_validate batch) (\<lambda>_. Ok batch))))"

subsection \<open>Resync requests\<close>

datatype RenderResyncReason = MissingState | MissedBaseRevision | RendererReset

record RenderResyncRequest =
  resync_version :: u16
  resync_context_id :: BrowsingContextId
  resync_document_id :: DocumentId
  resync_current_revision :: "RenderRevision option"
  resync_rejected_base_revision :: "RenderRevision option"
  resync_reason :: RenderResyncReason

definition RenderResyncRequest_renderer_reset ::
    "BrowsingContextId \<Rightarrow> DocumentId \<Rightarrow> RenderResyncRequest" where
  "RenderResyncRequest_renderer_reset c d =
     \<lparr>resync_version = RENDER_PROTOCOL_VERSION, resync_context_id = c, resync_document_id = d,
      resync_current_revision = None, resync_rejected_base_revision = None,
      resync_reason = RendererReset\<rparr>"

datatype ApplyRenderBatchOutcome =
  Applied RenderRevision | ResyncRequired RenderResyncRequest

subsection \<open>The replica\<close>

record RenderReplica =
  rep_revision :: "RenderRevision option"
  rep_viewport :: "RenderViewport option"
  rep_nodes :: "(RenderNodeId, RenderNode) btree"
  rep_resources :: "(RenderResourceId, RenderResource) btree"
  rep_scroll_intents :: "(RenderScrollNodeId, RenderScrollIntent) btree"

definition RenderReplica_default :: RenderReplica where
  "RenderReplica_default = \<lparr>rep_revision = None, rep_viewport = None, rep_nodes = [],
     rep_resources = [], rep_scroll_intents = []\<rparr>"

definition RenderReplica_node_count :: "RenderReplica \<Rightarrow> usize" where
  "RenderReplica_node_count r = bt_len (rep_nodes r)"

definition RenderReplica_resource_count :: "RenderReplica \<Rightarrow> usize" where
  "RenderReplica_resource_count r = bt_len (rep_resources r)"

definition RenderReplica_contains_node :: "RenderReplica \<Rightarrow> RenderNodeId \<Rightarrow> bool" where
  "RenderReplica_contains_node r i = bt_contains_key (rep_nodes r) i"

definition RenderReplica_node_text_utf16_len :: "RenderReplica \<Rightarrow> RenderNodeId \<Rightarrow> usize option" where
  "RenderReplica_node_text_utf16_len r i =
     (case bt_get (rep_nodes r) i of
        None \<Rightarrow> None
      | Some node \<Rightarrow>
          (case node_kind node of
             Text t \<Rightarrow> Some (utf16_len t)
           | PseudoBefore t \<Rightarrow> Some (utf16_len t)
           | PseudoAfter t \<Rightarrow> Some (utf16_len t)
           | Element _ \<Rightarrow> None))"

definition RenderReplica_contains_semantic_node :: "RenderReplica \<Rightarrow> SemanticNodeId \<Rightarrow> bool" where
  "RenderReplica_contains_semantic_node r sid =
     list_ex (\<lambda>node. case node_semantic node of None \<Rightarrow> False | Some s \<Rightarrow> sem_id s = sid)
       (bt_values (rep_nodes r))"

definition RenderReplica_semantic_node ::
    "RenderReplica \<Rightarrow> SemanticNodeId \<Rightarrow> RenderSemanticNode option" where
  "RenderReplica_semantic_node r sid =
     find_map (\<lambda>node. case node_semantic node of None \<Rightarrow> None
         | Some s \<Rightarrow> if sem_id s = sid then Some s else None)
       (bt_values (rep_nodes r))"

definition RenderReplica_semantic_value_utf16_len ::
    "RenderReplica \<Rightarrow> SemanticNodeId \<Rightarrow> usize option" where
  "RenderReplica_semantic_value_utf16_len r sid =
     map_option (\<lambda>s. utf16_len (case sem_value s of None \<Rightarrow> '''' | Some v \<Rightarrow> v))
       (RenderReplica_semantic_node r sid)"

definition RenderReplica_node_has_semantic_node ::
    "RenderReplica \<Rightarrow> RenderNodeId \<Rightarrow> SemanticNodeId \<Rightarrow> bool" where
  "RenderReplica_node_has_semantic_node r i sid =
     (case bt_get (rep_nodes r) i of
        None \<Rightarrow> False
      | Some node \<Rightarrow> (case node_semantic node of None \<Rightarrow> False | Some s \<Rightarrow> sem_id s = sid))"

text \<open>The loop \<open>for _ in 0..=RENDER_MAX_TREE_DEPTH\<close> of the two searches for a nearest
  ancestor; the number of iterations left is the second argument.\<close>

fun nearest_loop ::
    "(RenderNode \<Rightarrow> bool) \<Rightarrow> nat \<Rightarrow> (RenderNodeId, RenderNode) btree \<Rightarrow> RenderNodeId option
     \<Rightarrow> RenderNodeId option" where
  "nearest_loop p 0 nodes current = None"
| "nearest_loop p (Suc k) nodes None = None"
| "nearest_loop p (Suc k) nodes (Some i) =
     (case bt_get nodes i of
        None \<Rightarrow> None
      | Some node \<Rightarrow> if p node then Some i else nearest_loop p k nodes (node_parent_id node))"

definition RenderReplica_nearest_semantic_node_id ::
    "RenderReplica \<Rightarrow> RenderNodeId \<Rightarrow> RenderNodeId option" where
  "RenderReplica_nearest_semantic_node_id r i =
     nearest_loop (\<lambda>node. node_semantic node \<noteq> None) (Suc (unat RENDER_MAX_TREE_DEPTH))
       (rep_nodes r) (Some i)"

primrec is_element :: "RenderNodeKind \<Rightarrow> bool" where
  "is_element (Element _) = True"
| "is_element (Text _) = False"
| "is_element (PseudoBefore _) = False"
| "is_element (PseudoAfter _) = False"

definition RenderReplica_nearest_element_node_id ::
    "RenderReplica \<Rightarrow> RenderNodeId \<Rightarrow> RenderNodeId option" where
  "RenderReplica_nearest_element_node_id r i =
     nearest_loop (\<lambda>node. is_element (node_kind node)) (Suc (unat RENDER_MAX_TREE_DEPTH))
       (rep_nodes r) (Some i)"

definition same_document :: "RenderRevision \<Rightarrow> RenderRevision \<Rightarrow> bool" where
  "same_document a b \<longleftrightarrow>
     rev_context_id a = rev_context_id b \<and> rev_document_id a = rev_document_id b"

text \<open>The checks of \<open>accept_full_snapshot\<close> against the current revision, with the
  early return: \<open>Ok True\<close> when the snapshot repeats the current state.\<close>

definition check_snapshot_against_current ::
    "RenderReplica \<Rightarrow> FullRenderSnapshot \<Rightarrow> bool render_result" where
  "check_snapshot_against_current self s =
     (case rep_revision self of
        None \<Rightarrow> Ok False
      | Some current \<Rightarrow>
          if same_document current (snap_revision s) then
            if generation_regressed (snap_revision s) current
            then Err (RenderProtocolError_new code_STALE
              ''full render snapshot regressed the current revision'')
            else if current = snap_revision s then
              if option_eq_by RenderViewport_eq (rep_viewport self) (Some (snap_viewport s))
                 \<and> rep_nodes self = nodes_by_id (snap_nodes s)
                 \<and> rep_resources self = resources_by_id (snap_resources s)
                 \<and> bt_eq_by RenderScrollIntent_eq (rep_scroll_intents self)
                     (intents_by_id (snap_scroll_intents s))
              then Ok True
              else Err (RenderProtocolError_new code_REVISION
                ''equal render revision carried different snapshot state'')
            else if viewport_generation current = viewport_generation (snap_revision s)
                    \<and> \<not> option_eq_by RenderViewport_eq (rep_viewport self) (Some (snap_viewport s))
            then Err (RenderProtocolError_new code_REVISION
              ''full render snapshot changed viewport without advancing its generation'')
            else Ok False
          else Ok False)"

definition RenderReplica_accept_full_snapshot ::
    "RenderReplica \<Rightarrow> FullRenderSnapshot \<Rightarrow> RenderReplica \<times> unit render_result" where
  "RenderReplica_accept_full_snapshot self s =
     try_in self (FullRenderSnapshot_validate s) (\<lambda>_.
     try_in self (check_snapshot_against_current self s) (\<lambda>unchanged.
     if unchanged then (self, Ok ())
     else (self\<lparr>rep_revision := Some (snap_revision s),
                rep_viewport := Some (snap_viewport s),
                rep_nodes := nodes_by_id (snap_nodes s),
                rep_resources := resources_by_id (snap_resources s),
                rep_scroll_intents := intents_by_id (snap_scroll_intents s)\<rparr>, Ok ())))"

text \<open>The copies a batch works on, and one iteration of the loop over its mutations.\<close>

record BatchWork =
  work_nodes :: "(RenderNodeId, RenderNode) btree"
  work_resources :: "(RenderResourceId, RenderResource) btree"
  work_scroll_intents :: "(RenderScrollNodeId, RenderScrollIntent) btree"
  work_viewport :: "RenderViewport option"
  work_viewport_mutations :: usize

primrec apply_mutation :: "BatchWork \<Rightarrow> RenderMutation \<Rightarrow> BatchWork render_result" where
  "apply_mutation w (SetViewport next_viewport) =
     and_then (RenderViewport_validate next_viewport) (\<lambda>_.
     let w = w\<lparr>work_viewport := Some next_viewport,
               work_viewport_mutations := work_viewport_mutations w + 1\<rparr>
     in if 1 < work_viewport_mutations w
        then Err (RenderProtocolError_new code_INVALID_GRAPH
          ''render mutation batch repeats the viewport'')
        else Ok w)"
| "apply_mutation w (UpsertNode node) =
     Ok (w\<lparr>work_nodes := bt_insert (node_id node) node (work_nodes w)\<rparr>)"
| "apply_mutation w (RemoveNode i) =
     (if bt_get (work_nodes w) i = None then Err (unknown_id_error ''render node'' i)
      else Ok (w\<lparr>work_nodes := bt_remove i (work_nodes w)\<rparr>))"
| "apply_mutation w (UpsertResource resource) =
     Ok (w\<lparr>work_resources := bt_insert (res_id resource) resource (work_resources w)\<rparr>)"
| "apply_mutation w (RemoveResource i) =
     (if bt_get (work_resources w) i = None then Err (unknown_id_error ''render resource'' i)
      else Ok (w\<lparr>work_resources := bt_remove i (work_resources w)\<rparr>))"
| "apply_mutation w (SetScrollIntent intent) =
     Ok (w\<lparr>work_scroll_intents :=
             bt_insert (intent_scroll_node_id intent) intent (work_scroll_intents w)\<rparr>)"
| "apply_mutation w (RemoveScrollIntent i) =
     (if bt_get (work_scroll_intents w) i = None
      then Err (unknown_id_error ''render scroll node'' i)
      else Ok (w\<lparr>work_scroll_intents := bt_remove i (work_scroll_intents w)\<rparr>))"

definition RenderReplica_apply_batch ::
    "RenderReplica \<Rightarrow> RenderMutationBatch
     \<Rightarrow> RenderReplica \<times> ApplyRenderBatchOutcome render_result" where
  "RenderReplica_apply_batch self batch =
     try_in self (RenderMutationBatch_validate batch) (\<lambda>_.
     if rep_revision self \<noteq> Some (batch_base_revision batch) then
       (self, Ok (ResyncRequired
          \<lparr>resync_version = RENDER_PROTOCOL_VERSION,
           resync_context_id = rev_context_id (batch_target_revision batch),
           resync_document_id = rev_document_id (batch_target_revision batch),
           resync_current_revision = rep_revision self,
           resync_rejected_base_revision = Some (batch_base_revision batch),
           resync_reason = (if rep_revision self \<noteq> None then MissedBaseRevision else MissingState)\<rparr>))
     else
       try_in self (try_fold apply_mutation
           \<lparr>work_nodes = rep_nodes self, work_resources = rep_resources self,
            work_scroll_intents = rep_scroll_intents self, work_viewport = rep_viewport self,
            work_viewport_mutations = 0\<rparr>
           (batch_mutations batch)) (\<lambda>w.
       if (viewport_generation (batch_target_revision batch)
             \<noteq> viewport_generation (batch_base_revision batch)) \<noteq> (work_viewport_mutations w = 1)
       then (self, Err (RenderProtocolError_new code_REVISION
         ''viewport generation and viewport mutation must advance together''))
       else
         try_in self (validate_state (bt_values (work_nodes w)) (bt_values (work_resources w))
             (bt_values (work_scroll_intents w))) (\<lambda>_.
         (self\<lparr>rep_revision := Some (batch_target_revision batch),
               rep_viewport := work_viewport w,
               rep_nodes := work_nodes w,
               rep_resources := work_resources w,
               rep_scroll_intents := work_scroll_intents w\<rparr>,
          Ok (Applied (batch_target_revision batch))))))"

end
