(* ===== verification/Render_Replication.thy ===== *)
theory Render_Replication
  imports Render_Replica
begin

section \<open>Correctness of replication\<close>

text \<open>
  What the snapshot and batch protocol of \<open>Render_Replica\<close> guarantees: the replica is
  well formed in every reachable state, failed operations leave it alone, its revision
  never goes back, applying the batch computed between two snapshots takes a replica of
  the first to a replica of the second, and the bounded ancestor searches are exact.
\<close>

subsection \<open>The invariant of the replica\<close>

definition replica_inv :: "RenderReplica \<Rightarrow> bool" where
  "replica_inv r \<longleftrightarrow>
     bt_ok (rep_nodes r) \<and> keyed_by node_id (rep_nodes r)
     \<and> bt_ok (rep_resources r) \<and> keyed_by res_id (rep_resources r)
     \<and> bt_ok (rep_scroll_intents r) \<and> keyed_by intent_scroll_node_id (rep_scroll_intents r)
     \<and> wf_render_state (bt_values (rep_nodes r)) (bt_values (rep_resources r))
         (bt_values (rep_scroll_intents r))
     \<and> (case rep_revision r of
          None \<Rightarrow> r = RenderReplica_default
        | Some cur \<Rightarrow> 0 \<notin> set (generations cur)
            \<and> (\<exists>v. rep_viewport r = Some v \<and> viewport_ok v))"

definition work_inv :: "BatchWork \<Rightarrow> bool" where
  "work_inv w \<longleftrightarrow>
     bt_ok (work_nodes w) \<and> keyed_by node_id (work_nodes w)
     \<and> bt_ok (work_resources w) \<and> keyed_by res_id (work_resources w)
     \<and> bt_ok (work_scroll_intents w) \<and> keyed_by intent_scroll_node_id (work_scroll_intents w)
     \<and> (\<exists>v. work_viewport w = Some v \<and> viewport_ok v)"

inductive replica_step :: "RenderReplica \<Rightarrow> RenderReplica \<Rightarrow> bool" where
  snapshot: "replica_step r (fst (RenderReplica_accept_full_snapshot r s))"
| batch: "replica_step r (fst (RenderReplica_apply_batch r b))"

inductive replica_reachable :: "RenderReplica \<Rightarrow> bool" where
  start: "replica_reachable RenderReplica_default"
| step: "replica_reachable r \<Longrightarrow> replica_step r r' \<Longrightarrow> replica_reachable r'"

inductive_cases replica_stepE: "replica_step r r'"

lemma wf_render_state_Nil [simp]: "wf_render_state [] [] []"
  by (simp add: wf_render_state_def)

lemma replica_inv_default [simp]: "replica_inv RenderReplica_default"
  by (simp add: replica_inv_def RenderReplica_default_def bt_values_def)

lemma FullRenderSnapshot_validate_Ok [result_simps]:
  "FullRenderSnapshot_validate s = Ok u \<longleftrightarrow>
     snap_version s = RENDER_PROTOCOL_VERSION \<and> 0 \<notin> set (generations (snap_revision s))
     \<and> viewport_ok (snap_viewport s)
     \<and> wf_render_state (snap_nodes s) (snap_resources s) (snap_scroll_intents s)"
  by (auto simp: FullRenderSnapshot_validate_def result_simps validate_state_iff)

lemma RenderMutationBatch_validate_Ok [result_simps]:
  "RenderMutationBatch_validate b = Ok u \<longleftrightarrow>
     batch_version b = RENDER_PROTOCOL_VERSION
     \<and> 0 \<notin> set (generations (batch_target_revision b))
     \<and> 0 \<notin> set (generations (batch_base_revision b))
     \<and> revision_le (batch_base_revision b) (batch_target_revision b)
     \<and> generations (batch_target_revision b) \<noteq> generations (batch_base_revision b)
     \<and> length (batch_mutations b) \<le> RENDER_MAX_MUTATIONS"
  by (auto simp: RenderMutationBatch_validate_def result_simps not_less)

text \<open>The maps collected from a well-formed snapshot hold its entries.\<close>

lemma wf_distinct:
  assumes "wf_render_state ns rs is"
  shows "distinct (map node_id ns)" "distinct (map res_id rs)"
    "distinct (map intent_scroll_node_id is)"
  using assms by (simp_all add: wf_render_state_def)

lemma wf_collected:
  assumes "wf_render_state ns rs is"
  shows "wf_render_state (bt_values (nodes_by_id ns)) (bt_values (resources_by_id rs))
    (bt_values (intents_by_id is))"
proof -
  have "wf_render_state (bt_values (nodes_by_id ns)) (bt_values (resources_by_id rs))
      (bt_values (intents_by_id is)) \<longleftrightarrow> wf_render_state ns rs is"
    unfolding nodes_by_id_def resources_by_id_def intents_by_id_def
    by (intro wf_render_state_mset values_collect_self wf_distinct [OF assms])
  with assms show ?thesis by simp
qed

lemma collected_ok [simp]:
  "bt_ok (nodes_by_id ns)" "bt_ok (resources_by_id rs)" "bt_ok (intents_by_id is)"
  "keyed_by node_id (nodes_by_id ns)" "keyed_by res_id (resources_by_id rs)"
  "keyed_by intent_scroll_node_id (intents_by_id is)"
  by (simp_all add: nodes_by_id_def resources_by_id_def intents_by_id_def)

lemma accept_full_snapshot_cases:
  "RenderReplica_accept_full_snapshot r s = (r', res) \<Longrightarrow>
     (r' = r \<and> (res = Ok () \<longrightarrow> rep_revision r = Some (snap_revision s)))
     \<or> (res = Ok () \<and> FullRenderSnapshot_validate s = Ok ()
        \<and> check_snapshot_against_current r s = Ok False
        \<and> r' = \<lparr>rep_revision = Some (snap_revision s), rep_viewport = Some (snap_viewport s),
                rep_nodes = nodes_by_id (snap_nodes s),
                rep_resources = resources_by_id (snap_resources s),
                rep_scroll_intents = intents_by_id (snap_scroll_intents s)\<rparr>)"
  unfolding RenderReplica_accept_full_snapshot_def
  by (cases "FullRenderSnapshot_validate s"; cases "check_snapshot_against_current r s")
     (auto simp: check_snapshot_against_current_def split: if_splits option.splits)

lemma accept_full_snapshot_inv:
  assumes "replica_inv r" and "RenderReplica_accept_full_snapshot r s = (r', res)"
  shows "replica_inv r'"
  using accept_full_snapshot_cases [OF assms(2)] assms(1)
  by (auto simp: replica_inv_def result_simps wf_collected)

lemma apply_mutation_inv: "work_inv w \<Longrightarrow> apply_mutation w m = Ok w' \<Longrightarrow> work_inv w'"
  by (cases m) (auto simp: work_inv_def result_simps Let_def split: if_splits)

lemma apply_mutations_inv:
  "try_fold apply_mutation w ms = Ok w' \<Longrightarrow> work_inv w \<Longrightarrow> work_inv w'"
  by (erule try_fold_invariant) (auto intro: apply_mutation_inv)

abbreviation initial_work :: "RenderReplica \<Rightarrow> BatchWork" where
  "initial_work r \<equiv> \<lparr>work_nodes = rep_nodes r, work_resources = rep_resources r,
     work_scroll_intents = rep_scroll_intents r, work_viewport = rep_viewport r,
     work_viewport_mutations = 0\<rparr>"

lemma apply_batch_cases:
  "RenderReplica_apply_batch r b = (r', res) \<Longrightarrow>
     (r' = r \<and> (\<forall>t. res \<noteq> Ok (Applied t)))
     \<or> (\<exists>w. res = Ok (Applied (batch_target_revision b))
        \<and> RenderMutationBatch_validate b = Ok ()
        \<and> rep_revision r = Some (batch_base_revision b)
        \<and> try_fold apply_mutation (initial_work r) (batch_mutations b) = Ok w
        \<and> (viewport_generation (batch_target_revision b)
             \<noteq> viewport_generation (batch_base_revision b)) = (work_viewport_mutations w = 1)
        \<and> validate_state (bt_values (work_nodes w)) (bt_values (work_resources w))
             (bt_values (work_scroll_intents w)) = Ok ()
        \<and> r' = \<lparr>rep_revision = Some (batch_target_revision b), rep_viewport = work_viewport w,
                rep_nodes = work_nodes w, rep_resources = work_resources w,
                rep_scroll_intents = work_scroll_intents w\<rparr>)"
  unfolding RenderReplica_apply_batch_def try_in_eq
  by (auto simp: try_in_eq split: if_splits)

lemma apply_batch_inv:
  assumes "replica_inv r" and "RenderReplica_apply_batch r b = (r', res)"
  shows "replica_inv r'"
  using apply_batch_cases [OF assms(2)]
proof (elim disjE conjE exE)
  fix w
  assume base: "rep_revision r = Some (batch_base_revision b)"
    and valid: "RenderMutationBatch_validate b = Ok ()"
    and run: "try_fold apply_mutation (initial_work r) (batch_mutations b) = Ok w"
    and state: "validate_state (bt_values (work_nodes w)) (bt_values (work_resources w))
      (bt_values (work_scroll_intents w)) = Ok ()"
    and r': "r' = \<lparr>rep_revision = Some (batch_target_revision b), rep_viewport = work_viewport w,
      rep_nodes = work_nodes w, rep_resources = work_resources w,
      rep_scroll_intents = work_scroll_intents w\<rparr>"
  from assms(1) base have "work_inv (initial_work r)"
    by (simp add: replica_inv_def work_inv_def)
  with run have "work_inv w" by (rule apply_mutations_inv)
  with state valid show "replica_inv r'"
    by (simp add: r' replica_inv_def work_inv_def validate_state_iff result_simps)
qed (use assms(1) in simp)

lemma replica_step_inv: "replica_step r r' \<Longrightarrow> replica_inv r \<Longrightarrow> replica_inv r'"
  by (metis accept_full_snapshot_inv apply_batch_inv prod.collapse replica_stepE)

lemma reachable_replica_inv: "replica_reachable r \<Longrightarrow> replica_inv r"
  by (induction rule: replica_reachable.induct) (auto intro: replica_step_inv)

subsection \<open>Revisions only advance\<close>

lemma accept_full_snapshot_revision:
  assumes "RenderReplica_accept_full_snapshot r s = (r', res)" and "rep_revision r = Some cur"
  shows "\<exists>cur'. rep_revision r' = Some cur' \<and> (same_document cur cur' \<longrightarrow> revision_le cur cur')"
  using accept_full_snapshot_cases [OF assms(1)] assms(2)
  by (auto simp: check_snapshot_against_current_def revision_le_def same_document_def
      split: if_splits)

lemma apply_batch_revision:
  assumes "RenderReplica_apply_batch r b = (r', res)" and "rep_revision r = Some cur"
  shows "\<exists>cur'. rep_revision r' = Some cur' \<and> same_document cur cur' \<and> revision_le cur cur'"
  using apply_batch_cases [OF assms(1)] assms(2)
  by (auto simp: result_simps same_document_def revision_le_def)

lemma replica_step_revision:
  "replica_step r r' \<Longrightarrow> rep_revision r = Some cur \<Longrightarrow>
     \<exists>cur'. rep_revision r' = Some cur' \<and> (same_document cur cur' \<longrightarrow> revision_le cur cur')"
  by (elim replica_stepE)
     (use accept_full_snapshot_revision [OF prod.collapse [symmetric]]
        apply_batch_revision [OF prod.collapse [symmetric]] in blast)+

subsection \<open>One kind of entry in a batch\<close>

text \<open>
  Nodes, resources and scroll intents are diffed and replayed in the same way. The locale
  states what one kind of entry promises: where its map sits in the working copy, and
  what its two mutations do to it. Its lemma \<open>diff_block\<close> says that replaying the
  difference of two maps on a copy that agrees with the first makes it agree with the
  second, for any notion of equal entries that the difference was computed with.
\<close>

locale keyed_mutations =
  fixes get_map :: "BatchWork \<Rightarrow> ('k::linorder, 'v) btree"
    and put_map :: "('k, 'v) btree \<Rightarrow> BatchWork \<Rightarrow> BatchWork"
    and key :: "'v \<Rightarrow> 'k"
    and remove_of :: "'k \<Rightarrow> RenderMutation"
    and upsert_of :: "'v \<Rightarrow> RenderMutation"
  assumes get_put: "get_map (put_map m w) = m"
    and put_put: "put_map m' (put_map m w) = put_map m' w"
    and put_get: "put_map (get_map w) w = w"
    and apply_remove: "bt_get (get_map w) k \<noteq> None \<Longrightarrow>
      apply_mutation w (remove_of k) = Ok (put_map (bt_remove k (get_map w)) w)"
    and apply_upsert:
      "apply_mutation w (upsert_of v) = Ok (put_map (bt_insert (key v) v (get_map w)) w)"
begin

lemma try_fold_removes:
  "distinct ks \<Longrightarrow> (\<forall>k\<in>set ks. bt_get (get_map w) k \<noteq> None) \<Longrightarrow>
   try_fold apply_mutation w (map remove_of ks) = Ok (put_map (fold bt_remove ks (get_map w)) w)"
proof (induction ks arbitrary: w)
  case Nil
  then show ?case by (simp add: put_get)
next
  case (Cons k ks)
  let ?w = "put_map (bt_remove k (get_map w)) w"
  have "\<forall>k'\<in>set ks. bt_get (get_map ?w) k' \<noteq> None"
    using Cons.prems by (auto simp: get_put bt_get_remove)
  with Cons.prems Cons.IH [of ?w] show ?case
    by (simp add: apply_remove get_put put_put)
qed

lemma try_fold_upserts:
  "try_fold apply_mutation w (map upsert_of vs) =
     Ok (put_map (fold (\<lambda>v. bt_insert (key v) v) vs (get_map w)) w)"
  by (induction vs arbitrary: w) (simp_all add: put_get put_put get_put apply_upsert)

lemma diff_block:
  assumes ok: "bt_ok (get_map w)" "bt_ok base" "bt_ok target"
    and keyed: "keyed_by key target"
    and same: "bt_eq_by eq (get_map w) base"
    and trans: "\<And>a b c. eq a b \<Longrightarrow> eq b c \<Longrightarrow> eq a c"
    and refl: "\<And>k v. bt_get target k = Some v \<Longrightarrow> eq v v"
  shows "\<exists>m. try_fold apply_mutation w
        (map remove_of (removed_keys base target) @ map upsert_of (changed_values eq base target))
          = Ok (put_map m w)
      \<and> bt_ok m \<and> bt_eq_by eq m target"
proof -
  let ?rem = "removed_keys base target" and ?chg = "changed_values eq base target"
  let ?m1 = "fold bt_remove ?rem (get_map w)"
  let ?m = "fold (\<lambda>v. bt_insert (key v) v) ?chg ?m1"
  have rel: "rel_option eq (bt_get (get_map w) k) (bt_get base k)" for k
    using same bt_eq_by_get [OF ok(1,2)] by blast
  have dist: "distinct ?rem"
    using bt_ok_distinct [OF ok(2)] by (simp add: removed_keys_def bt_keys_def)
  have in_rem: "k \<in> set ?rem \<longleftrightarrow> bt_get base k \<noteq> None \<and> bt_get target k = None" for k
    by (auto simp: removed_keys_def bt_keys_def bt_contains_key_def bt_get_None)
  have present: "\<forall>k\<in>set ?rem. bt_get (get_map w) k \<noteq> None"
    using in_rem rel by (metis option.rel_sel)
  have chg: "v \<in> set ?chg \<longleftrightarrow> (\<exists>k. bt_get target k = Some v
      \<and> \<not> option_eq_by eq (bt_get base k) (Some v))" for v
    by (auto simp: changed_values_def bt_get_eq_Some [OF ok(3)] image_iff)
  have keys: "map key ?chg = map fst (filter (\<lambda>kv. \<not> option_eq_by eq (bt_get base (fst kv))
      (Some (snd kv))) target)"
    using keyed by (simp add: changed_values_def keyed_by_def)
  have dist_chg: "distinct (map key ?chg)"
    unfolding keys using bt_ok_distinct [OF ok(3)] by (simp add: distinct_map_filter)
  have ok1: "bt_ok ?m1" by (rule btm.invar_fold_remove) (rule ok)
  have "rel_option eq (bt_get ?m k) (bt_get target k)" for k
  proof (cases "find (\<lambda>v. key v = k) ?chg")
    case (Some v)
    then have "v \<in> set ?chg" "key v = k" by (auto simp: find_Some_iff)
    then have "bt_get target k = Some v"
      using chg keyed by (metis keyed_by_get)
    then show ?thesis
      using Some refl by (simp add: bt_get_fold_insert_self [OF ok1 dist_chg])
  next
    case None
    then have none: "bt_get target k = Some v \<Longrightarrow> option_eq_by eq (bt_get base k) (Some v)" for v
      using chg keyed by (auto simp: find_None_iff dest: keyed_by_get)
    have "bt_get ?m k = (if k \<in> set ?rem then None else bt_get (get_map w) k)"
      using None by (simp add: bt_get_fold_insert_self [OF ok1 dist_chg] btm.get_fold_remove ok)
    with none rel [of k] show ?thesis
      by (cases "bt_get target k"; cases "bt_get base k"; cases "bt_get (get_map w) k")
         (auto simp: in_rem intro: trans)
  qed
  then have "bt_eq_by eq ?m target"
    using bt_eq_by_get [of ?m target eq] ok1 ok(3) by simp
  moreover have "try_fold apply_mutation w (map remove_of ?rem @ map upsert_of ?chg) = Ok (put_map ?m w)"
    by (simp add: try_fold_append try_fold_removes [OF dist present] try_fold_upserts get_put put_put)
  ultimately show ?thesis using ok1 by (intro exI [of _ ?m]) simp
qed

end

interpretation node_block: keyed_mutations work_nodes "\<lambda>m w. w\<lparr>work_nodes := m\<rparr>" node_id
    RemoveNode UpsertNode
  by unfold_locales auto

interpretation resource_block: keyed_mutations work_resources "\<lambda>m w. w\<lparr>work_resources := m\<rparr>" res_id
    RemoveResource UpsertResource
  by unfold_locales auto

interpretation intent_block: keyed_mutations work_scroll_intents
    "\<lambda>m w. w\<lparr>work_scroll_intents := m\<rparr>" intent_scroll_node_id RemoveScrollIntent SetScrollIntent
  by unfold_locales auto

subsection \<open>Batches carry one snapshot to the next\<close>

text \<open>
  A replica mirrors a snapshot when it holds its revision, viewport, nodes and resources,
  and scroll intents that are equal as the program compares them (the two zeros of a
  coordinate are not told apart, since the difference of two snapshots skips intents that
  compare equal).
\<close>

definition mirrors :: "RenderReplica \<Rightarrow> FullRenderSnapshot \<Rightarrow> bool" where
  "mirrors r s \<longleftrightarrow>
     rep_revision r = Some (snap_revision s) \<and> rep_viewport r = Some (snap_viewport s)
     \<and> rep_nodes r = nodes_by_id (snap_nodes s)
     \<and> rep_resources r = resources_by_id (snap_resources s)
     \<and> bt_ok (rep_scroll_intents r)
     \<and> bt_eq_by RenderScrollIntent_eq (rep_scroll_intents r) (intents_by_id (snap_scroll_intents s))"

text \<open>The viewport of a document may only change together with its generation.\<close>

definition viewport_advances :: "FullRenderSnapshot \<Rightarrow> FullRenderSnapshot \<Rightarrow> bool" where
  "viewport_advances base target \<longleftrightarrow>
     viewport_generation (snap_revision base) = viewport_generation (snap_revision target)
       \<longrightarrow> snap_viewport base = snap_viewport target"

lemma RenderScrollIntentKind_eq_trans:
  "RenderScrollIntentKind_eq a b \<Longrightarrow> RenderScrollIntentKind_eq b c \<Longrightarrow> RenderScrollIntentKind_eq a c"
  by (cases a; cases b; cases c) (auto simp: RenderPoint_eq_def intro: f64_eq_trans)

lemma RenderScrollIntent_eq_trans:
  "RenderScrollIntent_eq a b \<Longrightarrow> RenderScrollIntent_eq b c \<Longrightarrow> RenderScrollIntent_eq a c"
  by (auto simp: RenderScrollIntent_eq_def intro: RenderScrollIntentKind_eq_trans)

lemma RenderScrollIntent_eq_refl:
  "point_ok (intent_point (intent_kind i)) \<Longrightarrow> RenderScrollIntent_eq i i"
  by (cases "intent_kind i") (simp_all add: RenderScrollIntent_eq_def RenderPoint_eq_refl)

lemma point_ok_cong: "RenderPoint_eq p q \<Longrightarrow> point_ok q \<Longrightarrow> point_ok p"
proof -
  assume eq: "RenderPoint_eq p q" and ok: "point_ok q"
  have mag: "f64_magnitude a = f64_magnitude b" if "f64_eq a b" for a b
    using that by (auto simp: f64_eq_def f64_key_def split: if_splits)
  have "f64_magnitude (pt_x p) = f64_magnitude (pt_x q)"
    and "f64_magnitude (pt_y p) = f64_magnitude (pt_y q)"
    using eq mag by (auto simp: RenderPoint_eq_def)
  with ok show ?thesis by (simp add: point_ok_def f64_is_finite_def f64_abs_def)
qed

lemma intent_ok_cong: "RenderScrollIntent_eq i j \<Longrightarrow> intent_ok ns j \<Longrightarrow> intent_ok ns i"
  by (cases "intent_kind i"; cases "intent_kind j")
     (auto simp: RenderScrollIntent_eq_def intent_ok_def intro: point_ok_cong)

text \<open>Replacing scroll intents by equal ones keeps a state well formed.\<close>

lemma wf_render_state_intents_cong:
  assumes "list_all2 RenderScrollIntent_eq is js" and "wf_render_state ns rs js"
  shows "wf_render_state ns rs is"
proof -
  have ids: "map intent_scroll_node_id is = map intent_scroll_node_id js"
    using assms(1) by (induction rule: list_all2_induct) (simp_all add: RenderScrollIntent_eq_def)
  have ok: "\<forall>i\<in>set is. intent_ok ns i"
  proof
    fix i assume "i \<in> set is"
    then obtain j where "j \<in> set js" "RenderScrollIntent_eq i j"
      using assms(1) by (metis in_set_conv_nth list_all2_conv_all_nth)
    then show "intent_ok ns i"
      using assms(2) intent_ok_cong by (auto simp: wf_render_state_def)
  qed
  have "length is = length js" using assms(1) by (rule list_all2_lengthD)
  with assms(2) ids ok show ?thesis unfolding wf_render_state_def by presburger
qed

lemma values_eq_by:
  "bt_eq_by eq m m' \<Longrightarrow> list_all2 eq (bt_values m) (bt_values m')"
  unfolding bt_eq_by_def bt_values_def
  by (auto simp: list_all2_map1 list_all2_map2 elim: list_all2_mono)

lemma accepted_snapshot_mirrored:
  assumes "FullRenderSnapshot_validate s = Ok ()" and "bt_eq_by RenderScrollIntent_eq is
    (intents_by_id (snap_scroll_intents s))"
  shows "validate_state (bt_values (nodes_by_id (snap_nodes s)))
    (bt_values (resources_by_id (snap_resources s))) (bt_values is) = Ok ()"
  unfolding validate_state_iff
  by (rule wf_render_state_intents_cong [OF values_eq_by [OF assms(2)]])
     (use assms(1) in \<open>simp add: result_simps wf_collected\<close>)

lemma intents_by_id_refl:
  assumes "FullRenderSnapshot_validate s = Ok ()"
    and "bt_get (intents_by_id (snap_scroll_intents s)) k = Some i"
  shows "RenderScrollIntent_eq i i"
proof -
  have wf: "wf_render_state (snap_nodes s) (snap_resources s) (snap_scroll_intents s)"
    using assms(1) by (simp add: result_simps)
  then have "i \<in> set (snap_scroll_intents s)"
    using assms(2) bt_get_collect_self [OF wf_distinct(3) [OF wf]] by (simp add: intents_by_id_def)
  with wf show ?thesis
    by (auto simp: wf_render_state_def intent_ok_def intro: RenderScrollIntent_eq_refl)
qed

text \<open>The mutations of a batch in order, on the working copy of a replica of the base.\<close>

lemma replay_between:
  assumes mir: "mirrors r base"
    and valid: "FullRenderSnapshot_validate base = Ok ()" "FullRenderSnapshot_validate target = Ok ()"
  defines "changed \<equiv> \<not> RenderViewport_eq (snap_viewport base) (snap_viewport target)
     \<or> viewport_generation (snap_revision base) \<noteq> viewport_generation (snap_revision target)"
  shows "\<exists>is. try_fold apply_mutation (initial_work r) (between_mutations base target) =
      Ok \<lparr>work_nodes = nodes_by_id (snap_nodes target),
          work_resources = resources_by_id (snap_resources target),
          work_scroll_intents = is,
          work_viewport = Some (if changed then snap_viewport target else snap_viewport base),
          work_viewport_mutations = (if changed then 1 else 0)\<rparr>
    \<and> bt_ok is \<and> bt_eq_by RenderScrollIntent_eq is (intents_by_id (snap_scroll_intents target))"
proof -
  let ?w0 = "initial_work r"
  let ?w1 = "?w0\<lparr>work_viewport := Some (if changed then snap_viewport target else snap_viewport base),
      work_viewport_mutations := (if changed then 1 else 0)\<rparr>"
  let ?w2 = "?w1\<lparr>work_nodes := nodes_by_id (snap_nodes target)\<rparr>"
  let ?w3 = "?w2\<lparr>work_resources := resources_by_id (snap_resources target)\<rparr>"
  have vp: "try_fold apply_mutation ?w0 (if changed then [SetViewport (snap_viewport target)] else [])
      = Ok ?w1"
    using mir valid by (simp add: mirrors_def result_simps)
  have nodes: "try_fold apply_mutation ?w1
      (map RemoveNode (removed_keys (nodes_by_id (snap_nodes base)) (nodes_by_id (snap_nodes target)))
       @ map UpsertNode (changed_values (=) (nodes_by_id (snap_nodes base))
          (nodes_by_id (snap_nodes target)))) = Ok ?w2"
    using node_block.diff_block [of ?w1 "nodes_by_id (snap_nodes base)"
        "nodes_by_id (snap_nodes target)" "(=)"] mir
    by (auto simp: bt_eq_by_eq mirrors_def)
  have resources: "try_fold apply_mutation ?w2
      (map RemoveResource (removed_keys (resources_by_id (snap_resources base))
          (resources_by_id (snap_resources target)))
       @ map UpsertResource (changed_values (=) (resources_by_id (snap_resources base))
          (resources_by_id (snap_resources target)))) = Ok ?w3"
    using resource_block.diff_block [of ?w2 "resources_by_id (snap_resources base)"
        "resources_by_id (snap_resources target)" "(=)"] mir
    by (auto simp: bt_eq_by_eq mirrors_def)
  obtain "is" where "is": "try_fold apply_mutation ?w3
      (map RemoveScrollIntent (removed_keys (intents_by_id (snap_scroll_intents base))
          (intents_by_id (snap_scroll_intents target)))
       @ map SetScrollIntent (changed_values RenderScrollIntent_eq
          (intents_by_id (snap_scroll_intents base)) (intents_by_id (snap_scroll_intents target))))
      = Ok (?w3\<lparr>work_scroll_intents := is\<rparr>)"
      "bt_ok is" "bt_eq_by RenderScrollIntent_eq is (intents_by_id (snap_scroll_intents target))"
    using intent_block.diff_block [of ?w3 "intents_by_id (snap_scroll_intents base)"
        "intents_by_id (snap_scroll_intents target)" RenderScrollIntent_eq]
      mir intents_by_id_refl [OF valid(2)] RenderScrollIntent_eq_trans
    by (auto simp: mirrors_def)
  have "try_fold apply_mutation ?w0 (between_mutations base target) =
      Ok (?w3\<lparr>work_scroll_intents := is\<rparr>)"
    unfolding between_mutations_def Let_def changed_def [symmetric]
    using try_fold_block [OF vp try_fold_block [OF nodes try_fold_block [OF resources "is"(1)]]]
    by (simp only: append_assoc)
  with "is"(2,3) show ?thesis by auto
qed

lemma between_Ok:
  "RenderMutationBatch_between base target = Ok b \<longleftrightarrow>
     FullRenderSnapshot_validate base = Ok () \<and> FullRenderSnapshot_validate target = Ok ()
     \<and> revision_le (snap_revision base) (snap_revision target)
     \<and> generations (snap_revision target) \<noteq> generations (snap_revision base)
     \<and> length (between_mutations base target) \<le> RENDER_MAX_MUTATIONS
     \<and> b = \<lparr>batch_version = RENDER_PROTOCOL_VERSION, batch_base_revision = snap_revision base,
            batch_target_revision = snap_revision target,
            batch_mutations = between_mutations base target\<rparr>"
  by (auto simp: RenderMutationBatch_between_def result_simps Let_def)

lemma apply_between:
  assumes mir: "mirrors r base" and btw: "RenderMutationBatch_between base target = Ok b"
  shows "if viewport_advances base target
    then \<exists>r'. RenderReplica_apply_batch r b = (r', Ok (Applied (snap_revision target)))
           \<and> mirrors r' target
    else \<exists>e. RenderReplica_apply_batch r b = (r, Err e) \<and> err_code e = code_REVISION"
proof -
  from btw have valid: "FullRenderSnapshot_validate base = Ok ()"
      "FullRenderSnapshot_validate target = Ok ()"
    and b: "b = \<lparr>batch_version = RENDER_PROTOCOL_VERSION, batch_base_revision = snap_revision base,
        batch_target_revision = snap_revision target,
        batch_mutations = between_mutations base target\<rparr>"
    by (simp_all add: between_Ok)
  from btw have bval: "RenderMutationBatch_validate b = Ok ()"
    by (auto simp: RenderMutationBatch_between_def result_simps Let_def)
  have eq: "RenderViewport_eq (snap_viewport base) (snap_viewport target) \<longleftrightarrow>
      snap_viewport base = snap_viewport target"
    using valid RenderViewport_eq_imp_eq RenderViewport_eq_refl by (auto simp: result_simps)
  from replay_between [OF mir valid] obtain "is" where
    run: "try_fold apply_mutation (initial_work r) (between_mutations base target) =
      Ok \<lparr>work_nodes = nodes_by_id (snap_nodes target),
          work_resources = resources_by_id (snap_resources target),
          work_scroll_intents = is,
          work_viewport = Some (if snap_viewport base \<noteq> snap_viewport target
            \<or> viewport_generation (snap_revision base) \<noteq> viewport_generation (snap_revision target)
            then snap_viewport target else snap_viewport base),
          work_viewport_mutations = (if snap_viewport base \<noteq> snap_viewport target
            \<or> viewport_generation (snap_revision base) \<noteq> viewport_generation (snap_revision target)
            then 1 else 0)\<rparr>"
    and "is": "bt_ok is" "bt_eq_by RenderScrollIntent_eq is (intents_by_id (snap_scroll_intents target))"
    unfolding eq by blast
  note state = accepted_snapshot_mirrored [OF valid(2) "is"(2)]
  have base: "rep_revision r = Some (snap_revision base)" using mir by (simp add: mirrors_def)
  show ?thesis
    using bval run state "is" base
    by (auto simp: b RenderReplica_apply_batch_def viewport_advances_def mirrors_def
        RenderProtocolError_new_def)
qed

lemma accept_mirrors:
  assumes "FullRenderSnapshot_validate s = Ok ()"
  shows "\<exists>r. RenderReplica_accept_full_snapshot RenderReplica_default s = (r, Ok ()) \<and> mirrors r s"
proof -
  have "bt_eq_by RenderScrollIntent_eq (intents_by_id (snap_scroll_intents s))
      (intents_by_id (snap_scroll_intents s))"
    by (auto simp: bt_eq_by_get option.rel_refl_strong intents_by_id_refl [OF assms]
        intro!: option.rel_refl_strong dest: sym)
  then show ?thesis
    using assms by (simp add: RenderReplica_accept_full_snapshot_def mirrors_def
        check_snapshot_against_current_def RenderReplica_default_def)
qed

subsection \<open>Runs of batches\<close>

text \<open>Sending each snapshot of a sequence as a batch against its predecessor.\<close>

fun send_batches ::
    "RenderReplica \<Rightarrow> FullRenderSnapshot \<Rightarrow> FullRenderSnapshot list \<Rightarrow> RenderReplica render_result" where
  "send_batches r base [] = Ok r"
| "send_batches r base (s # ss) =
     and_then (RenderMutationBatch_between base s) (\<lambda>b.
     case RenderReplica_apply_batch r b of
       (r', Ok (Applied _)) \<Rightarrow> send_batches r' s ss
     | (r', Ok (ResyncRequired q)) \<Rightarrow> Err (RenderProtocolError_new code_STALE ''resync'')
     | (r', Err e) \<Rightarrow> Err e)"

fun successors_ok :: "FullRenderSnapshot \<Rightarrow> FullRenderSnapshot list \<Rightarrow> bool" where
  "successors_ok base [] \<longleftrightarrow> True"
| "successors_ok base (s # ss) \<longleftrightarrow>
     is_ok (RenderMutationBatch_between base s) \<and> viewport_advances base s \<and> successors_ok s ss"

lemma send_batches_mirrors:
  "mirrors r base \<Longrightarrow> successors_ok base ss \<Longrightarrow>
     \<exists>r'. send_batches r base ss = Ok r' \<and> mirrors r' (last (base # ss))"
proof (induction ss arbitrary: r base)
  case Nil
  then show ?case by simp
next
  case (Cons s ss)
  then obtain b where b: "RenderMutationBatch_between base s = Ok b"
    by (auto simp: is_ok_iff)
  from apply_between [OF Cons.prems(1) b] Cons.prems(2) obtain r1
    where r1: "RenderReplica_apply_batch r b = (r1, Ok (Applied (snap_revision s)))" "mirrors r1 s"
    by auto
  from Cons.IH [OF r1(2)] Cons.prems(2) obtain r'
    where "send_batches r1 s ss = Ok r'" "mirrors r' (last (s # ss))" by auto
  with b r1(1) show ?case by simp
qed

subsection \<open>The render tree\<close>

text \<open>The nearest node on the parent chain that satisfies a predicate, without a bound on
  the number of steps.\<close>

inductive nearest :: "(RenderNode \<Rightarrow> bool) \<Rightarrow> (RenderNodeId, RenderNode) btree
    \<Rightarrow> RenderNodeId \<Rightarrow> RenderNodeId \<Rightarrow> bool" for p nodes where
  here: "bt_get nodes i = Some n \<Longrightarrow> p n \<Longrightarrow> nearest p nodes i i"
| up: "bt_get nodes i = Some n \<Longrightarrow> \<not> p n \<Longrightarrow> node_parent_id n = Some q \<Longrightarrow> nearest p nodes q e
    \<Longrightarrow> nearest p nodes i e"

fun ancestor :: "nat \<Rightarrow> (RenderNodeId, RenderNode) btree \<Rightarrow> RenderNodeId \<Rightarrow> RenderNodeId option" where
  "ancestor 0 nodes i = Some i"
| "ancestor (Suc k) nodes i =
     Option.bind (bt_get nodes i) (\<lambda>n. Option.bind (node_parent_id n) (ancestor k nodes))"

lemma replica_parent:
  assumes "replica_inv r" and "bt_get (rep_nodes r) i = Some n" and "node_parent_id n = Some q"
  shows "\<exists>m. bt_get (rep_nodes r) q = Some m \<and> unat (node_depth n) = Suc (unat (node_depth m))"
proof -
  have ok: "bt_ok (rep_nodes r)" and key: "keyed_by node_id (rep_nodes r)"
    using assms(1) by (simp_all add: replica_inv_def)
  have "n \<in> set (bt_values (rep_nodes r))"
    using assms(2) ok by (force simp: bt_get_eq_Some bt_values_def)
  then have "parent_ok (bt_values (rep_nodes r)) n"
    using assms(1) by (simp add: replica_inv_def wf_render_state_def)
  then obtain m where m: "m \<in> set (bt_values (rep_nodes r))" "node_id m = q"
      "unat (node_depth n) = Suc (unat (node_depth m))"
    using assms(3) by (auto simp: parent_ok_def)
  then have "bt_get (rep_nodes r) q = Some m"
    using ok key by (auto simp: bt_get_eq_Some bt_values_def keyed_by_def)
  with m(3) show ?thesis by blast
qed

lemma replica_node_ok:
  assumes "replica_inv r" and "bt_get (rep_nodes r) i = Some n"
  shows "unat (node_depth n) \<le> unat RENDER_MAX_TREE_DEPTH"
    and "node_parent_id n = None \<Longrightarrow> node_depth n = 0"
proof -
  have "n \<in> set (bt_values (rep_nodes r))"
    using assms by (force simp: replica_inv_def bt_get_eq_Some bt_values_def)
  then have "node_ok (set (map res_id (bt_values (rep_resources r)))) n"
    and "parent_ok (bt_values (rep_nodes r)) n"
    using assms(1) unfolding replica_inv_def wf_render_state_def by blast+
  then show "unat (node_depth n) \<le> unat RENDER_MAX_TREE_DEPTH"
    and "node_parent_id n = None \<Longrightarrow> node_depth n = 0"
    by (simp_all add: node_ok_def parent_ok_def word_le_nat_alt)
qed

lemma nearest_loop_sound:
  "nearest_loop p k nodes (Some i) = Some e \<Longrightarrow> nearest p nodes i e"
proof (induction k arbitrary: i)
  case 0
  then show ?case by simp
next
  case (Suc k)
  then obtain n where n: "bt_get nodes i = Some n" by (auto split: option.splits)
  show ?case
  proof (cases "p n")
    case True
    with n Suc.prems show ?thesis by (auto intro: nearest.here)
  next
    case False
    with n Suc.prems have run: "nearest_loop p k nodes (node_parent_id n) = Some e" by simp
    then obtain q where "node_parent_id n = Some q"
      by (cases "node_parent_id n"; cases k) auto
    with n False run Suc.IH show ?thesis by (auto intro: nearest.up)
  qed
qed

lemma nearest_loop_complete:
  assumes "replica_inv r" and "nearest p (rep_nodes r) i e"
    and "bt_get (rep_nodes r) i = Some n" and "unat (node_depth n) < k"
  shows "nearest_loop p k (rep_nodes r) (Some i) = Some e"
  using assms(2-4)
proof (induction arbitrary: n k rule: nearest.induct)
  case (here i n')
  then show ?case by (cases k) auto
next
  case (up i n' q e)
  then have nn: "n' = n" by simp
  with up obtain m where m: "bt_get (rep_nodes r) q = Some m"
      "unat (node_depth n) = Suc (unat (node_depth m))"
    using replica_parent [OF assms(1)] by blast
  obtain k' where k': "k = Suc k'" using up.prems(2) by (cases k) auto
  with up.prems m have "unat (node_depth m) < k'" by simp
  with m up.IH have "nearest_loop p k' (rep_nodes r) (Some q) = Some e" by blast
  with up.hyps nn k' up.prems show ?case by simp
qed

lemma nearest_loop_iff:
  assumes "replica_inv r"
  shows "nearest_loop p (Suc (unat RENDER_MAX_TREE_DEPTH)) (rep_nodes r) (Some i) = Some e
    \<longleftrightarrow> nearest p (rep_nodes r) i e"
proof
  assume "nearest p (rep_nodes r) i e"
  moreover then obtain n where "bt_get (rep_nodes r) i = Some n"
    by (auto elim: nearest.cases)
  ultimately show "nearest_loop p (Suc (unat RENDER_MAX_TREE_DEPTH)) (rep_nodes r) (Some i) = Some e"
    using replica_node_ok(1) [OF assms] by (intro nearest_loop_complete [OF assms]) (auto simp: less_Suc_eq_le)
qed (rule nearest_loop_sound)

lemma ancestor_root:
  assumes "replica_inv r" and "bt_get (rep_nodes r) i = Some n"
  shows "\<exists>root m. ancestor (unat (node_depth n)) (rep_nodes r) i = Some root
    \<and> bt_get (rep_nodes r) root = Some m \<and> node_parent_id m = None"
  using assms(2)
proof (induction "unat (node_depth n)" arbitrary: i n)
  case 0
  have "node_parent_id n = None"
  proof (rule ccontr)
    assume "node_parent_id n \<noteq> None"
    then obtain q where "node_parent_id n = Some q" by auto
    with replica_parent [OF assms(1) 0(2)] 0(1) show False by auto
  qed
  with 0 show ?case by auto
next
  case (Suc d)
  then have "node_depth n \<noteq> 0" by auto
  then obtain q where q: "node_parent_id n = Some q"
    using replica_node_ok(2) [OF assms(1) Suc.prems] by auto
  then obtain m where "bt_get (rep_nodes r) q = Some m" "d = unat (node_depth m)"
    using replica_parent [OF assms(1) Suc.prems q] Suc.hyps(2) by auto
  with Suc.hyps(1) [OF this(2,1)] Suc.hyps(2) Suc.prems q show ?case
    by (simp flip: Suc.hyps(2))
qed

end
