(* ===== verification/Render_Examples.thy ===== *)
theory Render_Examples
  imports Render_Replication
begin

section \<open>Concrete renderer states\<close>

text \<open>
  Two snapshots of one document, the second a successor of the first that edits a text
  node, adds a node and a scroll intent, drops a resource and resizes the viewport. The
  properties of the renderer protocol are applied to them.
\<close>

definition ex_revision1 :: RenderRevision where
  "ex_revision1 = \<lparr>rev_context_id = Ident 7, rev_document_id = Ident 9, source_generation = 1,
     style_generation = 1, viewport_generation = 1, resource_generation = 1\<rparr>"

definition ex_revision2 :: RenderRevision where
  "ex_revision2 = \<lparr>rev_context_id = Ident 7, rev_document_id = Ident 9, source_generation = 2,
     style_generation = 1, viewport_generation = 2, resource_generation = 2\<rparr>"

text \<open>The scales \<open>1.0\<close> and \<open>2.0\<close> by their bit patterns.\<close>

definition ex_viewport1 :: RenderViewport where
  "ex_viewport1 = \<lparr>vp_width = 800, vp_height = 600, vp_device_scale = 0x3FF0000000000000,
     vp_page_zoom = 0x3FF0000000000000\<rparr>"

definition ex_viewport2 :: RenderViewport where
  "ex_viewport2 = \<lparr>vp_width = 1024, vp_height = 768, vp_device_scale = 0x4000000000000000,
     vp_page_zoom = 0x3FF0000000000000\<rparr>"

definition ex_semantic :: RenderSemanticNode where
  "ex_semantic = \<lparr>sem_id = Ident 5, sem_role = ''textbox'', sem_name = ''q'',
     sem_value = Some ''abc'', sem_action_generation = 3,
     sem_actions = [KindFocus, KindSetSelection]\<rparr>"

definition ex_root :: RenderNode where
  "ex_root = \<lparr>node_id = Ident 1, node_parent_id = None, node_sibling_index = 0, node_depth = 0,
     node_kind = Element ''body'',
     node_styles = [\<lparr>style_name = ''display'', style_value = ''block''\<rparr>],
     node_resource_ids = [], node_semantic = Some ex_semantic\<rparr>"

definition ex_text :: "string \<Rightarrow> RenderNode" where
  "ex_text t = \<lparr>node_id = Ident 2, node_parent_id = Some (Ident 1), node_sibling_index = 0,
     node_depth = 1, node_kind = Text t, node_styles = [], node_resource_ids = [],
     node_semantic = None\<rparr>"

definition ex_image :: RenderNode where
  "ex_image = \<lparr>node_id = Ident 3, node_parent_id = Some (Ident 1), node_sibling_index = 1,
     node_depth = 1, node_kind = Element ''img'', node_styles = [],
     node_resource_ids = [Ident 11], node_semantic = None\<rparr>"

definition ex_resource :: "u64 \<Rightarrow> RenderResource" where
  "ex_resource i = \<lparr>res_id = Ident i, res_kind = Image, res_mime = ''image/png'',
     res_bytes = [137, 80]\<rparr>"

definition ex_intent :: RenderScrollIntent where
  "ex_intent = \<lparr>intent_scroll_node_id = Ident 1, intent_node_id = Ident 1,
     intent_kind = IntentTo \<lparr>pt_x = 0, pt_y = 0x3FF0000000000000\<rparr>\<rparr>"

definition ex_snapshot1 :: FullRenderSnapshot where
  "ex_snapshot1 = \<lparr>snap_version = 1, snap_revision = ex_revision1, snap_viewport = ex_viewport1,
     snap_nodes = [ex_root, ex_text ''hi''], snap_resources = [ex_resource 10],
     snap_scroll_intents = []\<rparr>"

definition ex_snapshot2 :: FullRenderSnapshot where
  "ex_snapshot2 = \<lparr>snap_version = 1, snap_revision = ex_revision2, snap_viewport = ex_viewport2,
     snap_nodes = [ex_image, ex_root, ex_text ''hello''], snap_resources = [ex_resource 11],
     snap_scroll_intents = [ex_intent]\<rparr>"

definition ex_replica1 :: RenderReplica where
  "ex_replica1 = fst (RenderReplica_accept_full_snapshot RenderReplica_default ex_snapshot1)"

lemmas ex_defs = ex_revision1_def ex_revision2_def ex_viewport1_def ex_viewport2_def
  ex_semantic_def ex_root_def ex_text_def ex_image_def ex_resource_def ex_intent_def
  ex_snapshot1_def ex_snapshot2_def

lemmas wf_eval = wf_render_state_def resource_ok_def node_ok_def semantic_ok_def parent_ok_def
  intent_ok_def string_ok_def string_bytes_def node_strings_def style_strings_def
  semantic_strings_def semantic_ids_def map_filter_simps size_limits

lemmas geometry_eval = point_ok_def size_ok_def rect_ok_def viewport_ok_def f64_lt_def f64_le_def
  f64_eq_def f64_key_def f64_is_nan_def f64_is_finite_def f64_magnitude_def f64_negative_def
  f64_abs_def size_limits

lemma ex_viewports_ok: "viewport_ok ex_viewport1" "viewport_ok ex_viewport2"
  by (simp_all add: ex_viewport1_def ex_viewport2_def geometry_eval)

lemma ex_snapshots_valid:
  "FullRenderSnapshot_validate ex_snapshot1 = Ok ()"
  "FullRenderSnapshot_validate ex_snapshot2 = Ok ()"
proof -
  have "wf_render_state (snap_nodes ex_snapshot1) (snap_resources ex_snapshot1)
      (snap_scroll_intents ex_snapshot1)"
    by (simp add: ex_defs wf_eval)
  then show "FullRenderSnapshot_validate ex_snapshot1 = Ok ()"
    using ex_viewports_ok
    by (simp add: FullRenderSnapshot_validate_Ok ex_snapshot1_def ex_revision1_def generations_def
        RENDER_PROTOCOL_VERSION_def)
  have "point_ok (intent_point (intent_kind ex_intent))"
    by (simp add: ex_intent_def geometry_eval)
  then have "wf_render_state (snap_nodes ex_snapshot2) (snap_resources ex_snapshot2)
      (snap_scroll_intents ex_snapshot2)"
    by (simp add: ex_defs wf_eval)
  then show "FullRenderSnapshot_validate ex_snapshot2 = Ok ()"
    using ex_viewports_ok
    by (simp add: FullRenderSnapshot_validate_Ok ex_snapshot2_def ex_revision2_def generations_def
        RENDER_PROTOCOL_VERSION_def)
qed

lemma ex_viewport_advances: "viewport_advances ex_snapshot1 ex_snapshot2"
  by (simp add: viewport_advances_def ex_snapshot1_def ex_snapshot2_def ex_revision1_def
      ex_revision2_def)

lemma ex_between_ok: "\<exists>b. RenderMutationBatch_between ex_snapshot1 ex_snapshot2 = Ok b"
proof -
  have "length (between_mutations ex_snapshot1 ex_snapshot2) \<le> RENDER_MAX_MUTATIONS"
    by (simp add: between_mutations_def Let_def nodes_by_id_def resources_by_id_def
        intents_by_id_def bt_collect_def removed_keys_def changed_values_def bt_keys_def
        bt_contains_key_def bt_get_def ex_defs size_limits)
  then show ?thesis
    using ex_snapshots_valid
    by (simp add: between_Ok ex_snapshot1_def ex_snapshot2_def ex_revision1_def ex_revision2_def
        revision_le_def generation_regressed_iff generations_def)
qed

lemma ex_replica1: "replica_reachable ex_replica1" "mirrors ex_replica1 ex_snapshot1"
proof -
  show "replica_reachable ex_replica1"
    unfolding ex_replica1_def
    by (rule replica_reachable.step [OF replica_reachable.start replica_step.snapshot])
  show "mirrors ex_replica1 ex_snapshot1"
    using accept_mirrors [OF ex_snapshots_valid(1)] by (auto simp: ex_replica1_def)
qed

lemma ex_replica1_nodes:
  "rep_nodes ex_replica1 = [(Ident 1, ex_root), (Ident 2, ex_text ''hi'')]"
  using ex_replica1(2)
  by (simp add: mirrors_def ex_snapshot1_def nodes_by_id_def bt_collect_def)
     (simp add: ex_root_def ex_text_def)

end
