(* ===== verification/Replica_Properties.thy ===== *)
theory Replica_Properties
  imports Render_Examples
begin

section \<open>Properties of the renderer source protocol\<close>

text \<open>The results of \<open>Render_Source\<close> and \<open>Render_Replication\<close> as statements about
  the source, each with an instance on the states of \<open>Render_Examples\<close>.\<close>

text \<open>The document a replica is on.\<close>

definition rep_document :: "RenderReplica \<Rightarrow> (BrowsingContextId \<times> DocumentId) option" where
  "rep_document r = map_option (\<lambda>v. (rev_context_id v, rev_document_id v)) (rep_revision r)"

text \<open>C2: applying the batch computed between two snapshots of a document to a replica of
  the first gives a replica of the second, and reports the target revision; when the
  viewport changed although its generation did not advance, the batch is rejected with
  the revision error and the replica is left as it was.\<close>

theorem batch_between_snapshots_replays:
  assumes "mirrors r base" and "RenderMutationBatch_between base target = Ok b"
  shows "if viewport_advances base target
    then \<exists>r'. RenderReplica_apply_batch r b = (r', Ok (Applied (snap_revision target)))
           \<and> mirrors r' target
    else \<exists>e. RenderReplica_apply_batch r b = (r, Err e) \<and> err_code e = code_REVISION"
  using assms by (rule apply_between)

theorem batch_between_snapshots_replays_witness:
  "\<exists>b r'. RenderMutationBatch_between ex_snapshot1 ex_snapshot2 = Ok b
     \<and> RenderReplica_apply_batch ex_replica1 b = (r', Ok (Applied ex_revision2))
     \<and> mirrors r' ex_snapshot2"
proof -
  obtain b where b: "RenderMutationBatch_between ex_snapshot1 ex_snapshot2 = Ok b"
    using ex_between_ok by blast
  have "snap_revision ex_snapshot2 = ex_revision2" by (simp add: ex_snapshot2_def)
  with batch_between_snapshots_replays [OF ex_replica1(2) b] b ex_viewport_advances
  show ?thesis by simp
qed

text \<open>From a valid first snapshot, any sequence of successors sent as batches against
  their predecessors is applied in full, and the replica ends as a replica of the last
  snapshot: the incremental protocol loses nothing against sending snapshots.\<close>

theorem incremental_replication_converges:
  assumes "FullRenderSnapshot_validate s0 = Ok ()" and "successors_ok s0 ss"
  shows "\<exists>r0 r'. RenderReplica_accept_full_snapshot RenderReplica_default s0 = (r0, Ok ())
    \<and> send_batches r0 s0 ss = Ok r' \<and> mirrors r' (last (s0 # ss))"
  using accept_mirrors [OF assms(1)] send_batches_mirrors [OF _ assms(2)] by blast

theorem incremental_replication_converges_witness:
  "\<exists>r0 r'. RenderReplica_accept_full_snapshot RenderReplica_default ex_snapshot1 = (r0, Ok ())
    \<and> send_batches r0 ex_snapshot1 [ex_snapshot2] = Ok r' \<and> mirrors r' ex_snapshot2"
proof -
  have "successors_ok ex_snapshot1 [ex_snapshot2]"
    using ex_between_ok ex_viewport_advances by (auto simp: is_ok_iff)
  from incremental_replication_converges [OF ex_snapshots_valid(1) this] show ?thesis by simp
qed

text \<open>C8: every replica reached from the empty one by snapshots and batches, accepted or
  rejected, holds a state that passes validation, under a valid revision and viewport.\<close>

theorem reachable_replica_well_formed:
  assumes "replica_reachable r"
  shows "replica_inv r"
  using assms by (rule reachable_replica_inv)

theorem reachable_replica_well_formed_witness: "replica_inv ex_replica1"
  using ex_replica1(1) by (rule reachable_replica_well_formed)

text \<open>Snapshots and batches are atomic. A batch that is not applied (an error or a resync
  request) leaves the replica unchanged, an applied one moves it from exactly its base to
  exactly its target revision; a rejected snapshot leaves the replica unchanged, an
  accepted one leaves it at the revision of the snapshot.\<close>

theorem replica_operations_atomic:
  "(case RenderReplica_apply_batch r b of
      (r', Ok (Applied t)) \<Rightarrow> t = batch_target_revision b
        \<and> rep_revision r = Some (batch_base_revision b) \<and> rep_revision r' = Some t
    | (r', Ok (ResyncRequired q)) \<Rightarrow> r' = r
    | (r', Err e) \<Rightarrow> r' = r)
   \<and> (case RenderReplica_accept_full_snapshot r s of
      (r', Ok u) \<Rightarrow> rep_revision r' = Some (snap_revision s)
    | (r', Err e) \<Rightarrow> r' = r)"
proof -
  obtain r1 res1 where 1: "RenderReplica_apply_batch r b = (r1, res1)" by fastforce
  obtain r2 res2 where 2: "RenderReplica_accept_full_snapshot r s = (r2, res2)" by fastforce
  show ?thesis
    using apply_batch_cases [OF 1] accept_full_snapshot_cases [OF 2]
    by (auto simp: 1 2 split: result.splits ApplyRenderBatchOutcome.splits)
qed

text \<open>While the replica stays on one document, its revision never goes back: after any
  number of steps no generation is lower than before.\<close>

theorem replica_revision_monotone:
  assumes "(\<lambda>x y. replica_step x y \<and> rep_document y = rep_document x)\<^sup>*\<^sup>* r r'"
    and "rep_revision r = Some cur"
  shows "\<exists>cur'. rep_revision r' = Some cur' \<and> revision_le cur cur'"
  using assms(1)
proof (induction rule: rtranclp_induct)
  case base
  then show ?case using assms(2) by simp
next
  case (step y z)
  then obtain c where c: "rep_revision y = Some c" "revision_le cur c" by blast
  with step replica_step_revision obtain c'
    where c': "rep_revision z = Some c'" "same_document c c' \<longrightarrow> revision_le c c'"
    by blast
  with c step have "revision_le c c'" by (auto simp: rep_document_def same_document_def)
  with c c' show ?case by (auto intro: revision_le_trans)
qed

theorem replica_revision_monotone_witness:
  "\<exists>cur'. rep_revision (fst (RenderReplica_accept_full_snapshot ex_replica1 ex_snapshot2)) = Some cur'
     \<and> revision_le ex_revision1 cur'"
proof -
  let ?r = "fst (RenderReplica_accept_full_snapshot ex_replica1 ex_snapshot2)"
  have rev1: "rep_revision ex_replica1 = Some ex_revision1"
    using ex_replica1(2) by (simp add: mirrors_def ex_snapshot1_def)
  have "RenderReplica_accept_full_snapshot ex_replica1 ex_snapshot2 = (?r, snd
      (RenderReplica_accept_full_snapshot ex_replica1 ex_snapshot2))" by simp
  from accept_full_snapshot_cases [OF this]
  have "rep_document ?r = rep_document ex_replica1"
    using rev1 by (auto simp: rep_document_def ex_snapshot2_def ex_revision1_def ex_revision2_def)
  then have "(\<lambda>x y. replica_step x y \<and> rep_document y = rep_document x)\<^sup>*\<^sup>* ex_replica1 ?r"
    by (intro r_into_rtranclp conjI replica_step.snapshot)
  from replica_revision_monotone [OF this rev1] show ?thesis .
qed

text \<open>The two bounded ancestor searches are exact. In every reachable replica they return a
  node exactly when it is the first element (respectively the first node with semantic
  meaning) on the unbounded parent chain; the bound of 257 iterations cuts nothing off.\<close>

theorem nearest_searches_exact:
  assumes "replica_reachable r"
  shows "(RenderReplica_nearest_element_node_id r i = Some e \<longleftrightarrow>
      nearest (\<lambda>n. is_element (node_kind n)) (rep_nodes r) i e)
    \<and> (RenderReplica_nearest_semantic_node_id r i = Some e \<longleftrightarrow>
      nearest (\<lambda>n. node_semantic n \<noteq> None) (rep_nodes r) i e)"
  unfolding RenderReplica_nearest_element_node_id_def RenderReplica_nearest_semantic_node_id_def
  using reachable_replica_inv [OF assms] by (intro conjI nearest_loop_iff)

theorem nearest_searches_exact_witness:
  "RenderReplica_nearest_element_node_id ex_replica1 (Ident 2) = Some (Ident 1)"
proof -
  have "nearest (\<lambda>n. is_element (node_kind n)) (rep_nodes ex_replica1) (Ident 2) (Ident 1)"
    unfolding ex_replica1_nodes
    by (rule nearest.up [where n = "ex_text ''hi''" and q = "Ident 1"])
       (auto simp: bt_get_def ex_text_def ex_root_def
         intro!: nearest.here [where n = ex_root, unfolded ex_root_def])
  then show ?thesis using nearest_searches_exact [OF ex_replica1(1)] by blast
qed

text \<open>C28: the nodes of every reachable replica form a forest: following the parent links of a
  node for as many steps as its depth, at most 256, ends in a root.\<close>

theorem render_tree_rooted:
  assumes "replica_reachable r" and "bt_get (rep_nodes r) i = Some n"
  shows "unat (node_depth n) \<le> 256
    \<and> (\<exists>root m. ancestor (unat (node_depth n)) (rep_nodes r) i = Some root
         \<and> bt_get (rep_nodes r) root = Some m \<and> node_parent_id m = None)"
  using ancestor_root [OF reachable_replica_inv [OF assms(1)] assms(2)]
    replica_node_ok(1) [OF reachable_replica_inv [OF assms(1)] assms(2)]
  by (simp add: RENDER_MAX_TREE_DEPTH_def)

theorem render_tree_rooted_witness:
  "\<exists>root m. ancestor 1 (rep_nodes ex_replica1) (Ident 2) = Some root
     \<and> bt_get (rep_nodes ex_replica1) root = Some m \<and> node_parent_id m = None"
proof -
  have "bt_get (rep_nodes ex_replica1) (Ident 2) = Some (ex_text ''hi'')"
    by (simp add: ex_replica1_nodes bt_get_def)
  from render_tree_rooted [OF ex_replica1(1) this] show ?thesis by (simp add: ex_text_def)
qed

text \<open>C26: \<open>validate_state\<close>, with its running totals, seen-sets and early returns, accepts
  exactly the states of the declarative predicate: bounded, duplicate-free, with every
  reference resolved, every parent one level up and every total within its limit.\<close>

theorem validate_state_exact:
  "validate_state nodes resources intents = Ok () \<longleftrightarrow> wf_render_state nodes resources intents"
  by (rule validate_state_iff)

end
