(* ===== verification/Render_Commit.thy ===== *)
theory Render_Commit
  imports Render_Replica
begin

section \<open>Renderer commits\<close>

text \<open>
  The data of \<open>vixen-api/src/render/commit.rs\<close> and the validation of one commit against
  the renderer source it claims to render. The acceptance state is in
  \<open>Commit_State\<close>.
\<close>

subsection \<open>Commit contents\<close>

record RenderGeometryEntry =
  geo_node_id :: RenderNodeId
  geo_fragment_id :: RenderFragmentId
  geo_border_box :: RenderRect
  geo_padding_box :: RenderRect
  geo_content_box :: RenderRect
  geo_clip :: "RenderRect option"
  geo_scroll_node_id :: "RenderScrollNodeId option"
  geo_paint_order :: u32

definition RenderGeometryEntry_validate :: "RenderGeometryEntry \<Rightarrow> unit render_result" where
  "RenderGeometryEntry_validate g =
     and_then (RenderRect_validate (geo_border_box g) ''geometry border box'') (\<lambda>_.
     and_then (RenderRect_validate (geo_padding_box g) ''geometry padding box'') (\<lambda>_.
     and_then (RenderRect_validate (geo_content_box g) ''geometry content box'') (\<lambda>_.
     case geo_clip g of None \<Rightarrow> Ok ()
     | Some clip \<Rightarrow> RenderRect_validate clip ''geometry clip'')))"

record RenderScrollState =
  ss_scroll_node_id :: RenderScrollNodeId
  ss_node_id :: RenderNodeId
  ss_offset :: RenderPoint
  ss_max_offset :: RenderPoint
  ss_viewport :: RenderRect
  ss_content_size :: RenderSize

definition RenderScrollState_validate :: "RenderScrollState \<Rightarrow> unit render_result" where
  "RenderScrollState_validate s =
     and_then (RenderPoint_validate (ss_offset s) ''scroll offset'') (\<lambda>_.
     and_then (RenderPoint_validate (ss_max_offset s) ''scroll maximum offset'') (\<lambda>_.
     and_then (RenderRect_validate (ss_viewport s) ''scroll viewport'') (\<lambda>_.
     and_then (RenderSize_validate (ss_content_size s) ''scroll content size'') (\<lambda>_.
     if f64_lt (pt_x (ss_offset s)) f64_zero
        \<or> f64_lt (pt_y (ss_offset s)) f64_zero
        \<or> f64_lt (pt_x (ss_max_offset s)) f64_zero
        \<or> f64_lt (pt_y (ss_max_offset s)) f64_zero
        \<or> f64_lt (pt_x (ss_max_offset s)) (pt_x (ss_offset s))
        \<or> f64_lt (pt_y (ss_max_offset s)) (pt_y (ss_offset s))
     then Err (RenderProtocolError_new code_INVALID_GEOMETRY
       ''scroll offset must be within its non-negative maximum'')
     else Ok ()))))"

record RenderSemanticBounds =
  sb_semantic_node_id :: SemanticNodeId
  sb_node_id :: RenderNodeId
  sb_rects :: "RenderRect list"

record RenderCommit =
  commit_version :: u16
  commit_id :: RenderCommitId
  commit_revision :: RenderRevision
  commit_viewport :: RenderViewport
  commit_geometry_index :: "RenderGeometryEntry list"
  commit_hit_test_handle :: RenderHitTestHandle
  commit_text_query_handle :: RenderTextQueryHandle
  commit_scroll_snapshot :: "RenderScrollState list"
  commit_semantic_bounds :: "RenderSemanticBounds list"
  commit_truncations :: "RenderTruncationDiagnostic list"

subsection \<open>Validation\<close>

definition validate_truncations ::
    "RenderTruncationDiagnostic list \<Rightarrow> bool \<Rightarrow> unit render_result" where
  "validate_truncations truncations allow_truncation =
     (if RENDER_MAX_TRUNCATION_DIAGNOSTICS < length truncations
      then Err (limit_error ''truncation diagnostic'' (length truncations)
        RENDER_MAX_TRUNCATION_DIAGNOSTICS)
      else case find (\<lambda>t. tr_required t \<or> \<not> allow_truncation) truncations of
        Some t \<Rightarrow> Err (RenderProtocolError_new code_TRUNCATED_REQUIRED
          (''disallowed '' @ RenderLimitDomain_debug (tr_domain t) @ '' truncation omitted '' @
           show_word (tr_omitted t) @ '' entries at limit '' @ show_word (tr_limit t)))
      | None \<Rightarrow> Ok ())"

text \<open>One iteration of each of the three loops of \<open>RenderCommit::validate\<close>.\<close>

definition validate_commit_scroll ::
    "RenderReplica \<Rightarrow> RenderScrollNodeId set \<Rightarrow> RenderScrollState
     \<Rightarrow> RenderScrollNodeId set render_result" where
  "validate_commit_scroll source scroll_ids scroll =
     and_then (RenderScrollState_validate scroll) (\<lambda>_.
     if \<not> RenderReplica_contains_node source (ss_node_id scroll)
     then Err (unknown_id_error ''scroll render node'' (ss_node_id scroll))
     else if ss_scroll_node_id scroll \<in> scroll_ids
     then Err (duplicate_id_error ''render scroll node'' (ss_scroll_node_id scroll))
     else Ok (insert (ss_scroll_node_id scroll) scroll_ids))"

definition validate_commit_geometry ::
    "RenderReplica \<Rightarrow> RenderScrollNodeId set \<Rightarrow> RenderFragmentId set \<Rightarrow> RenderGeometryEntry
     \<Rightarrow> RenderFragmentId set render_result" where
  "validate_commit_geometry source scroll_ids fragment_ids geometry =
     and_then (RenderGeometryEntry_validate geometry) (\<lambda>_.
     if \<not> RenderReplica_contains_node source (geo_node_id geometry)
     then Err (unknown_id_error ''geometry render node'' (geo_node_id geometry))
     else if geo_fragment_id geometry \<in> fragment_ids
     then Err (duplicate_id_error ''render fragment'' (geo_fragment_id geometry))
     else case geo_scroll_node_id geometry of
         Some sid \<Rightarrow>
           if sid \<notin> scroll_ids then Err (unknown_id_error ''geometry scroll node'' sid)
           else Ok (insert (geo_fragment_id geometry) fragment_ids)
       | None \<Rightarrow> Ok (insert (geo_fragment_id geometry) fragment_ids))"

fun validate_commit_bounds ::
    "RenderReplica \<Rightarrow> SemanticNodeId set \<times> usize \<Rightarrow> RenderSemanticBounds
     \<Rightarrow> (SemanticNodeId set \<times> usize) render_result" where
  "validate_commit_bounds source (ids, semantic_rects) bounds =
     (if sb_semantic_node_id bounds \<in> ids
      then Err (duplicate_id_error ''semantic bounds'' (sb_semantic_node_id bounds))
      else if \<not> RenderReplica_node_has_semantic_node source (sb_node_id bounds)
             (sb_semantic_node_id bounds)
      then Err (unknown_id_error ''semantic bounds node'' (sb_semantic_node_id bounds))
      else
        and_then (ok_or (checked_add_usize semantic_rects (length (sb_rects bounds)))
          (limit_error ''semantic rectangle'' usize_max RENDER_MAX_GEOMETRY_ENTRIES)) (\<lambda>rects.
        if RENDER_MAX_GEOMETRY_ENTRIES < rects
        then Err (limit_error ''semantic rectangle'' rects RENDER_MAX_GEOMETRY_ENTRIES)
        else
          and_then (try_for (\<lambda>rect. RenderRect_validate rect ''semantic bounds'')
            (sb_rects bounds)) (\<lambda>_.
          Ok (insert (sb_semantic_node_id bounds) ids, rects))))"

definition RenderCommit_validate :: "RenderCommit \<Rightarrow> RenderReplica \<Rightarrow> unit render_result" where
  "RenderCommit_validate c source =
     and_then (validate_version (commit_version c)) (\<lambda>_.
     and_then (RenderRevision_validate (commit_revision c)) (\<lambda>_.
     if rep_revision source \<noteq> Some (commit_revision c)
     then Err (RenderProtocolError_new code_STALE
       ''render commit does not match the current source revision'')
     else
       and_then (RenderViewport_validate (commit_viewport c)) (\<lambda>_.
       if \<not> option_eq_by RenderViewport_eq (rep_viewport source) (Some (commit_viewport c))
       then Err (RenderProtocolError_new code_STALE
         ''render commit viewport does not match BrowserCore's source viewport'')
       else if RENDER_MAX_GEOMETRY_ENTRIES < length (commit_geometry_index c)
       then Err (limit_error ''geometry entry'' (length (commit_geometry_index c))
         RENDER_MAX_GEOMETRY_ENTRIES)
       else if RENDER_MAX_SCROLL_ENTRIES < length (commit_scroll_snapshot c)
       then Err (limit_error ''scroll entry'' (length (commit_scroll_snapshot c))
         RENDER_MAX_SCROLL_ENTRIES)
       else if RENDER_MAX_SEMANTIC_BOUNDS < length (commit_semantic_bounds c)
       then Err (limit_error ''semantic bounds'' (length (commit_semantic_bounds c))
         RENDER_MAX_SEMANTIC_BOUNDS)
       else
         and_then (validate_truncations (commit_truncations c) False) (\<lambda>_.
         and_then (try_fold (validate_commit_scroll source) {} (commit_scroll_snapshot c)) (\<lambda>scroll_ids.
         and_then (try_fold (validate_commit_geometry source scroll_ids) {}
           (commit_geometry_index c)) (\<lambda>_.
         and_then (try_fold (validate_commit_bounds source) ({}, 0) (commit_semantic_bounds c)) (\<lambda>_.
         Ok ())))))))"

section \<open>What a valid commit satisfies\<close>

definition geometry_ok :: "RenderGeometryEntry \<Rightarrow> bool" where
  "geometry_ok g \<longleftrightarrow> rect_ok (geo_border_box g) \<and> rect_ok (geo_padding_box g)
     \<and> rect_ok (geo_content_box g) \<and> (\<forall>c\<in>set_option (geo_clip g). rect_ok c)"

definition scroll_state_ok :: "RenderScrollState \<Rightarrow> bool" where
  "scroll_state_ok s \<longleftrightarrow>
     point_ok (ss_offset s) \<and> point_ok (ss_max_offset s) \<and> rect_ok (ss_viewport s)
     \<and> size_ok (ss_content_size s)
     \<and> f64_le f64_zero (pt_x (ss_offset s)) \<and> f64_le (pt_x (ss_offset s)) (pt_x (ss_max_offset s))
     \<and> f64_le f64_zero (pt_y (ss_offset s)) \<and> f64_le (pt_y (ss_offset s)) (pt_y (ss_max_offset s))"

definition wf_commit :: "RenderReplica \<Rightarrow> RenderCommit \<Rightarrow> bool" where
  "wf_commit source c \<longleftrightarrow>
     commit_version c = RENDER_PROTOCOL_VERSION
     \<and> 0 \<notin> set (generations (commit_revision c))
     \<and> rep_revision source = Some (commit_revision c)
     \<and> viewport_ok (commit_viewport c) \<and> rep_viewport source = Some (commit_viewport c)
     \<and> length (commit_geometry_index c) \<le> RENDER_MAX_GEOMETRY_ENTRIES
     \<and> length (commit_scroll_snapshot c) \<le> RENDER_MAX_SCROLL_ENTRIES
     \<and> length (commit_semantic_bounds c) \<le> RENDER_MAX_SEMANTIC_BOUNDS
     \<and> commit_truncations c = []
     \<and> distinct (map ss_scroll_node_id (commit_scroll_snapshot c))
     \<and> (\<forall>s\<in>set (commit_scroll_snapshot c). scroll_state_ok s
          \<and> RenderReplica_contains_node source (ss_node_id s))
     \<and> distinct (map geo_fragment_id (commit_geometry_index c))
     \<and> (\<forall>g\<in>set (commit_geometry_index c). geometry_ok g
          \<and> RenderReplica_contains_node source (geo_node_id g)
          \<and> set_option (geo_scroll_node_id g) \<subseteq> ss_scroll_node_id ` set (commit_scroll_snapshot c))
     \<and> distinct (map sb_semantic_node_id (commit_semantic_bounds c))
     \<and> (\<forall>b\<in>set (commit_semantic_bounds c). (\<forall>q\<in>set (sb_rects b). rect_ok q)
          \<and> RenderReplica_node_has_semantic_node source (sb_node_id b) (sb_semantic_node_id b))
     \<and> sum_list (map (length \<circ> sb_rects) (commit_semantic_bounds c)) \<le> RENDER_MAX_GEOMETRY_ENTRIES"

lemma RenderGeometryEntry_validate_Ok [result_simps]:
  "RenderGeometryEntry_validate g = Ok u \<longleftrightarrow> geometry_ok g"
  by (cases "geo_clip g")
     (auto simp: RenderGeometryEntry_validate_def geometry_ok_def result_simps)

lemma RenderScrollState_validate_Ok [result_simps]:
  "RenderScrollState_validate s = Ok u \<longleftrightarrow> scroll_state_ok s"
proof -
  have bound: "f64_le f64_zero b" if "f64_le f64_zero a" "f64_le a b" for a b
    using that by (auto simp: f64_le_def)
  show ?thesis
    by (auto simp: RenderScrollState_validate_def scroll_state_ok_def result_simps point_ok_def
        f64_le_iff_not_lt dest: bound [unfolded f64_le_iff_not_lt])
qed

lemma validate_truncations_Ok [result_simps]:
  "validate_truncations ts allow = Ok u \<longleftrightarrow>
     length ts \<le> RENDER_MAX_TRUNCATION_DIAGNOSTICS \<and> (\<forall>t\<in>set ts. allow \<and> \<not> tr_required t)"
  by (auto simp: validate_truncations_def result_simps find_None_iff not_less)

lemma validate_commit_scrolls_Ok:
  "try_fold (validate_commit_scroll source) ids ss = Ok ids' \<longleftrightarrow>
     (\<forall>s\<in>set ss. scroll_state_ok s \<and> RenderReplica_contains_node source (ss_node_id s))
     \<and> distinct (map ss_scroll_node_id ss) \<and> set (map ss_scroll_node_id ss) \<inter> ids = {}
     \<and> ids' = set (map ss_scroll_node_id ss) \<union> ids"
  by (induction ss arbitrary: ids) (auto simp: validate_commit_scroll_def result_simps)

lemma validate_commit_geometry_Ok [result_simps]:
  "validate_commit_geometry source sids ids g = Ok ids' \<longleftrightarrow>
     geometry_ok g \<and> RenderReplica_contains_node source (geo_node_id g)
     \<and> geo_fragment_id g \<notin> ids \<and> set_option (geo_scroll_node_id g) \<subseteq> sids
     \<and> ids' = insert (geo_fragment_id g) ids"
  by (cases "geo_scroll_node_id g") (auto simp: validate_commit_geometry_def result_simps)

lemma validate_commit_geometries_Ok:
  "try_fold (validate_commit_geometry source sids) ids gs = Ok ids' \<longleftrightarrow>
     (\<forall>g\<in>set gs. geometry_ok g \<and> RenderReplica_contains_node source (geo_node_id g)
        \<and> set_option (geo_scroll_node_id g) \<subseteq> sids)
     \<and> distinct (map geo_fragment_id gs) \<and> set (map geo_fragment_id gs) \<inter> ids = {}
     \<and> ids' = set (map geo_fragment_id gs) \<union> ids"
  by (induction gs arbitrary: ids) (auto simp: result_simps)

lemma validate_commit_bounds_Ok [result_simps]:
  "validate_commit_bounds source (ids, n) b = Ok st \<longleftrightarrow>
     sb_semantic_node_id b \<notin> ids
     \<and> RenderReplica_node_has_semantic_node source (sb_node_id b) (sb_semantic_node_id b)
     \<and> (\<forall>q\<in>set (sb_rects b). rect_ok q)
     \<and> st = (insert (sb_semantic_node_id b) ids, n + length (sb_rects b))
     \<and> snd st \<le> RENDER_MAX_GEOMETRY_ENTRIES"
  by (cases st) (auto simp: result_simps usize_max_def size_limits not_less)

lemma validate_commit_all_bounds_Ok:
  "try_fold (validate_commit_bounds source) (ids, n) bs = Ok st \<longleftrightarrow>
     (\<forall>b\<in>set bs. (\<forall>q\<in>set (sb_rects b). rect_ok q)
        \<and> RenderReplica_node_has_semantic_node source (sb_node_id b) (sb_semantic_node_id b))
     \<and> distinct (map sb_semantic_node_id bs) \<and> set (map sb_semantic_node_id bs) \<inter> ids = {}
     \<and> st = (set (map sb_semantic_node_id bs) \<union> ids, n + sum_list (map (length \<circ> sb_rects) bs))
     \<and> (bs \<noteq> [] \<longrightarrow> snd st \<le> RENDER_MAX_GEOMETRY_ENTRIES)"
proof (induction bs arbitrary: ids n)
  case Nil
  then show ?case by auto
next
  case (Cons b bs)
  have step: "try_fold (validate_commit_bounds source) (ids, n) (b # bs) = Ok st \<longleftrightarrow>
      sb_semantic_node_id b \<notin> ids
      \<and> RenderReplica_node_has_semantic_node source (sb_node_id b) (sb_semantic_node_id b)
      \<and> (\<forall>q\<in>set (sb_rects b). rect_ok q) \<and> n + length (sb_rects b) \<le> RENDER_MAX_GEOMETRY_ENTRIES
      \<and> try_fold (validate_commit_bounds source)
          (insert (sb_semantic_node_id b) ids, n + length (sb_rects b)) bs = Ok st"
    by (simp only: try_fold.simps and_then_eq_Ok validate_commit_bounds_Ok) auto
  show ?case unfolding step Cons.IH by (auto simp: add.assoc comp_def)
qed

lemma RenderViewport_eq_iff: "viewport_ok w \<Longrightarrow> RenderViewport_eq v w \<longleftrightarrow> v = w"
proof
  assume ok: "viewport_ok w" and "RenderViewport_eq v w"
  then have "RenderViewport_eq w v" by (auto simp: RenderViewport_eq_def intro: f64_eq_sym)
  with ok show "v = w" using RenderViewport_eq_imp_eq by metis
qed (simp add: RenderViewport_eq_refl)

lemma RenderCommit_validate_iff:
  "RenderCommit_validate c source = Ok u \<longleftrightarrow> wf_commit source c"
proof -
  have vp: "option_eq_by RenderViewport_eq m (Some v) \<longleftrightarrow> m = Some v" if "viewport_ok v" for m v
    using that by (cases m) (simp_all add: RenderViewport_eq_iff)
  have tr: "length ts \<le> RENDER_MAX_TRUNCATION_DIAGNOSTICS \<and> (\<forall>t\<in>set ts. False \<and> \<not> tr_required t)
      \<longleftrightarrow> ts = []" for ts :: "RenderTruncationDiagnostic list"
    by (auto simp: size_limits)
  show ?thesis
    unfolding RenderCommit_validate_def wf_commit_def
    by (simp only: and_then_eq_Ok if_Err_eq_Ok validate_version_Ok RenderRevision_validate_Ok
        RenderViewport_validate_Ok validate_truncations_Ok validate_commit_scrolls_Ok
        validate_commit_geometries_Ok validate_commit_all_bounds_Ok tr not_less)
       (auto simp: vp RenderViewport_eq_refl)
qed

end
