(* ===== verification/Commit_State.thy ===== *)
theory Commit_State
  imports Render_Commit "HOL-Library.FSet"
begin

section \<open>Acceptance, presentation, queries and replay protection\<close>

text \<open>
  \<open>RenderCommitState\<close> of \<open>vixen-api/src/render/commit.rs\<close>: which commit is accepted
  and which is on screen, the handles to release when one is superseded, and the checks
  that bind hit tests, text queries, scroll commands and semantic actions to the commit
  they were made against.
\<close>

subsection \<open>Exchanges\<close>

record RenderPresented =
  pres_version :: u16
  pres_context_id :: BrowsingContextId
  pres_document_id :: DocumentId
  pres_commit_id :: RenderCommitId
  pres_revision :: RenderRevision

record RenderHitTestQuery =
  hq_version :: u16
  hq_query_id :: RenderQueryId
  hq_context_id :: BrowsingContextId
  hq_document_id :: DocumentId
  hq_displayed_commit_id :: RenderCommitId
  hq_revision :: RenderRevision
  hq_handle :: RenderHitTestHandle
  hq_point :: RenderPoint

record RenderInputTarget =
  it_version :: u16
  it_query_id :: RenderQueryId
  it_context_id :: BrowsingContextId
  it_document_id :: DocumentId
  it_displayed_commit_id :: RenderCommitId
  it_revision :: RenderRevision
  it_handle :: RenderHitTestHandle
  it_node_id :: RenderNodeId
  it_fragment_id :: RenderFragmentId
  it_viewport_point :: RenderPoint
  it_local_point :: RenderPoint

datatype RenderTextAffinity = Upstream | Downstream

datatype RenderTextDirection = LeftToRight | RightToLeft

datatype RenderTextQueryKind =
  OffsetForPoint RenderPoint
| CaretForOffset u32 RenderTextAffinity
| RangeBoxes u32 u32

record RenderTextQuery =
  tq_query_id :: RenderQueryId
  tq_node_id :: RenderNodeId
  tq_kind :: RenderTextQueryKind

record RenderTextQueryBatch =
  tb_version :: u16
  tb_context_id :: BrowsingContextId
  tb_document_id :: DocumentId
  tb_commit_id :: RenderCommitId
  tb_revision :: RenderRevision
  tb_handle :: RenderTextQueryHandle
  tb_allow_truncation :: bool
  tb_queries :: "RenderTextQuery list"

record RenderTextBox =
  box_rect :: RenderRect
  box_direction :: RenderTextDirection

datatype RenderTextQueryValue =
  OffsetValue u32 RenderTextAffinity
| CaretValue RenderRect RenderTextAffinity
| RangeBoxesValue "RenderTextBox list"

record RenderTextQueryResult =
  qr_query_id :: RenderQueryId
  qr_value :: RenderTextQueryValue

record RenderTextQueryBatchResult =
  br_version :: u16
  br_context_id :: BrowsingContextId
  br_document_id :: DocumentId
  br_commit_id :: RenderCommitId
  br_revision :: RenderRevision
  br_results :: "RenderTextQueryResult list"
  br_truncations :: "RenderTruncationDiagnostic list"

datatype RenderScrollCommandKind =
  ScrollBy RenderPoint | ScrollTo RenderPoint | ScrollRestore RenderPoint

record RenderScrollCommand =
  sc_version :: u16
  sc_command_id :: RenderScrollCommandId
  sc_context_id :: BrowsingContextId
  sc_document_id :: DocumentId
  sc_displayed_commit_id :: RenderCommitId
  sc_revision :: RenderRevision
  sc_scroll_node_id :: RenderScrollNodeId
  sc_kind :: RenderScrollCommandKind

datatype RenderSemanticAction =
  Activate | Focus | SetValue string | SetSelection u32 u32 | Increase | Decrease | ScrollIntoView

primrec RenderSemanticAction_kind :: "RenderSemanticAction \<Rightarrow> RenderSemanticActionKind" where
  "RenderSemanticAction_kind Activate = KindActivate"
| "RenderSemanticAction_kind Focus = KindFocus"
| "RenderSemanticAction_kind (SetValue _) = KindSetValue"
| "RenderSemanticAction_kind (SetSelection _ _) = KindSetSelection"
| "RenderSemanticAction_kind Increase = KindIncrease"
| "RenderSemanticAction_kind Decrease = KindDecrease"
| "RenderSemanticAction_kind ScrollIntoView = KindScrollIntoView"

definition RenderSemanticAction_validate :: "RenderSemanticAction \<Rightarrow> unit render_result" where
  "RenderSemanticAction_validate a =
     (case a of
        SetValue v \<Rightarrow>
          if RENDER_MAX_SEMANTIC_VALUE_BYTES < length v
          then Err (limit_error ''semantic action value byte'' (length v)
            RENDER_MAX_SEMANTIC_VALUE_BYTES)
          else Ok ()
      | _ \<Rightarrow> Ok ())"

record RenderSemanticActionTarget =
  sa_version :: u16
  sa_request_id :: SemanticActionRequestId
  sa_context_id :: BrowsingContextId
  sa_document_id :: DocumentId
  sa_displayed_commit_id :: RenderCommitId
  sa_revision :: RenderRevision
  sa_semantic_node_id :: SemanticNodeId
  sa_action_generation :: u64
  sa_action :: RenderSemanticAction

record RenderHandleRelease =
  rel_version :: u16
  rel_commit_id :: RenderCommitId
  rel_hit_test_handle :: RenderHitTestHandle
  rel_text_query_handle :: RenderTextQueryHandle

subsection \<open>The state\<close>

record RenderCommitState =
  accepted :: "RenderCommit option"
  presented :: "RenderCommit option"
  seen_scroll_commands :: "RenderScrollCommandId fset"
  seen_semantic_actions :: "SemanticActionRequestId fset"

definition RenderCommitState_default :: RenderCommitState where
  "RenderCommitState_default = \<lparr>accepted = None, presented = None,
     seen_scroll_commands = {||}, seen_semantic_actions = {||}\<rparr>"

definition accepted_commit_id :: "RenderCommitState \<Rightarrow> RenderCommitId option" where
  "accepted_commit_id s = map_option commit_id (accepted s)"

definition presented_commit_id :: "RenderCommitState \<Rightarrow> RenderCommitId option" where
  "presented_commit_id s = map_option commit_id (presented s)"

definition validate_identity ::
    "RenderCommit \<Rightarrow> BrowsingContextId \<Rightarrow> DocumentId \<Rightarrow> RenderCommitId \<Rightarrow> RenderRevision \<Rightarrow> string
     \<Rightarrow> unit render_result" where
  "validate_identity commit ctx doc cid r exchange =
     (if ctx \<noteq> rev_context_id (commit_revision commit)
         \<or> doc \<noteq> rev_document_id (commit_revision commit)
         \<or> cid \<noteq> commit_id commit
         \<or> r \<noteq> commit_revision commit
      then Err (RenderProtocolError_new code_STALE
        (exchange @ '' does not match the required render commit''))
      else Ok ())"

definition validate_current_source ::
    "RenderReplica \<Rightarrow> RenderCommit \<Rightarrow> string \<Rightarrow> unit render_result" where
  "validate_current_source source commit exchange =
     (if rep_revision source \<noteq> Some (commit_revision commit)
      then Err (RenderProtocolError_new code_STALE
        (exchange @ '' no longer matches BrowserCore's source revision''))
      else Ok ())"

definition release_of :: "RenderCommit \<Rightarrow> RenderHandleRelease" where
  "release_of c = \<lparr>rel_version = RENDER_PROTOCOL_VERSION, rel_commit_id = commit_id c,
     rel_hit_test_handle = commit_hit_test_handle c,
     rel_text_query_handle = commit_text_query_handle c\<rparr>"

definition push_unique_release ::
    "RenderHandleRelease list \<Rightarrow> RenderCommit option \<Rightarrow> RenderHandleRelease list" where
  "push_unique_release releases commit =
     (case commit of
        None \<Rightarrow> releases
      | Some c \<Rightarrow>
          if list_ex (\<lambda>r. rel_commit_id r = commit_id c) releases then releases
          else releases @ [release_of c])"

definition require_accepted :: "RenderCommitState \<Rightarrow> RenderCommit render_result" where
  "require_accepted s = ok_or (accepted s)
     (RenderProtocolError_new code_STALE ''no render commit is accepted'')"

definition require_presented :: "RenderCommitState \<Rightarrow> RenderCommit render_result" where
  "require_presented s = ok_or (presented s)
     (RenderProtocolError_new code_STALE ''no render commit is presented'')"

definition replacing_document :: "RenderCommitState \<Rightarrow> RenderCommit \<Rightarrow> bool" where
  "replacing_document s commit \<longleftrightarrow>
     (case accepted s of
        None \<Rightarrow> False
      | Some a \<Rightarrow> rev_context_id (commit_revision a) \<noteq> rev_context_id (commit_revision commit)
          \<or> rev_document_id (commit_revision a) \<noteq> rev_document_id (commit_revision commit))"

definition RenderCommitState_accept_commit ::
    "RenderCommitState \<Rightarrow> RenderReplica \<Rightarrow> RenderCommit
     \<Rightarrow> RenderCommitState \<times> RenderHandleRelease list render_result" where
  "RenderCommitState_accept_commit self source commit =
     try_in self (RenderCommit_validate commit source) (\<lambda>_.
     if \<not> replacing_document self commit
        \<and> (case accepted self of None \<Rightarrow> False
           | Some a \<Rightarrow> ident_get (commit_id commit) \<le> ident_get (commit_id a))
     then (self, Err (RenderProtocolError_new code_STALE
       (''render commit '' @ ident_display (commit_id commit) @ '' is replayed or superseded'')))
     else if replacing_document self commit then
       (self\<lparr>presented := None, seen_scroll_commands := {||}, seen_semantic_actions := {||},
             accepted := Some commit\<rparr>,
        Ok (push_unique_release (push_unique_release [] (accepted self)) (presented self)))
     else if (case accepted self of None \<Rightarrow> False
              | Some a \<Rightarrow> (case presented self of None \<Rightarrow> True
                  | Some p \<Rightarrow> commit_id p \<noteq> commit_id a))
     then (self\<lparr>accepted := Some commit\<rparr>, Ok (push_unique_release [] (accepted self)))
     else (self\<lparr>accepted := Some commit\<rparr>, Ok []))"

definition RenderCommitState_accept_presented ::
    "RenderCommitState \<Rightarrow> RenderReplica \<Rightarrow> RenderPresented
     \<Rightarrow> RenderCommitState \<times> RenderHandleRelease list render_result" where
  "RenderCommitState_accept_presented self source p =
     try_in self (validate_version (pres_version p)) (\<lambda>_.
     try_in self (ok_or (accepted self) (RenderProtocolError_new code_STALE
       ''presentation arrived before an accepted render commit'')) (\<lambda>a.
     try_in self (validate_identity a (pres_context_id p) (pres_document_id p) (pres_commit_id p)
       (pres_revision p) ''presented acknowledgement'') (\<lambda>_.
     try_in self (validate_current_source source a ''presented acknowledgement'') (\<lambda>_.
     if (case presented self of None \<Rightarrow> False | Some c \<Rightarrow> commit_id c = commit_id a)
     then (self, Ok [])
     else (self\<lparr>presented := Some a, seen_scroll_commands := {||}, seen_semantic_actions := {||}\<rparr>,
           Ok (push_unique_release [] (presented self)))))))"

definition RenderCommitState_validate_hit_test_query ::
    "RenderCommitState \<Rightarrow> RenderReplica \<Rightarrow> RenderHitTestQuery \<Rightarrow> unit render_result" where
  "RenderCommitState_validate_hit_test_query self source q =
     and_then (validate_version (hq_version q)) (\<lambda>_.
     and_then (require_presented self) (\<lambda>commit.
     and_then (validate_identity commit (hq_context_id q) (hq_document_id q)
       (hq_displayed_commit_id q) (hq_revision q) ''hit-test query'') (\<lambda>_.
     and_then (validate_current_source source commit ''hit-test query'') (\<lambda>_.
     if hq_handle q \<noteq> commit_hit_test_handle commit
     then Err (RenderProtocolError_new code_STALE ''hit-test query used the wrong opaque handle'')
     else RenderPoint_validate (hq_point q) ''hit-test point''))))"

definition RenderCommitState_validate_input_target ::
    "RenderCommitState \<Rightarrow> RenderReplica \<Rightarrow> RenderHitTestQuery \<Rightarrow> RenderInputTarget
     \<Rightarrow> unit render_result" where
  "RenderCommitState_validate_input_target self source q t =
     and_then (RenderCommitState_validate_hit_test_query self source q) (\<lambda>_.
     and_then (validate_version (it_version t)) (\<lambda>_.
     and_then (require_presented self) (\<lambda>commit.
     and_then (validate_identity commit (it_context_id t) (it_document_id t)
       (it_displayed_commit_id t) (it_revision t) ''input target'') (\<lambda>_.
     and_then (validate_current_source source commit ''input target'') (\<lambda>_.
     if it_query_id t \<noteq> hq_query_id q \<or> \<not> RenderPoint_eq (it_viewport_point t) (hq_point q)
     then Err (RenderProtocolError_new code_STALE ''input target does not match its hit-test query'')
     else if it_handle t \<noteq> commit_hit_test_handle commit
     then Err (RenderProtocolError_new code_STALE
       ''input target used the wrong opaque hit-test handle'')
     else
       and_then (RenderPoint_validate (it_viewport_point t) ''input viewport point'') (\<lambda>_.
       and_then (RenderPoint_validate (it_local_point t) ''input local point'') (\<lambda>_.
       if \<not> list_ex (\<lambda>g. geo_node_id g = it_node_id t \<and> geo_fragment_id g = it_fragment_id t)
              (commit_geometry_index commit)
       then Err (unknown_id_error ''input node/fragment'' (it_fragment_id t))
       else Ok ())))))))"

text \<open>One iteration of the loop over the queries of a batch.\<close>

definition validate_one_text_query ::
    "RenderReplica \<Rightarrow> RenderQueryId set \<Rightarrow> RenderTextQuery \<Rightarrow> RenderQueryId set render_result" where
  "validate_one_text_query source query_ids query =
     (if tq_query_id query \<in> query_ids
      then Err (duplicate_id_error ''text query'' (tq_query_id query))
      else
        and_then (ok_or (RenderReplica_node_text_utf16_len source (tq_node_id query))
          (unknown_id_error ''text query text node'' (tq_node_id query))) (\<lambda>text_len.
        and_then (case tq_kind query of
            OffsetForPoint point \<Rightarrow> RenderPoint_validate point ''text query point''
          | CaretForOffset utf16_offset _ \<Rightarrow>
              if text_len < unat utf16_offset
              then Err (RenderProtocolError_new code_INVALID_GEOMETRY
                ''text caret offset exceeds the source text'')
              else Ok ()
          | RangeBoxes utf16_start utf16_end \<Rightarrow>
              if utf16_end < utf16_start \<or> text_len < unat utf16_end
              then Err (RenderProtocolError_new code_INVALID_GEOMETRY
                ''text query range is reversed or exceeds the source text'')
              else Ok ()) (\<lambda>_.
        Ok (insert (tq_query_id query) query_ids))))"

definition RenderCommitState_validate_text_query ::
    "RenderCommitState \<Rightarrow> RenderReplica \<Rightarrow> RenderTextQueryBatch \<Rightarrow> unit render_result" where
  "RenderCommitState_validate_text_query self source batch =
     and_then (validate_version (tb_version batch)) (\<lambda>_.
     and_then (require_accepted self) (\<lambda>commit.
     and_then (validate_identity commit (tb_context_id batch) (tb_document_id batch)
       (tb_commit_id batch) (tb_revision batch) ''text query batch'') (\<lambda>_.
     and_then (validate_current_source source commit ''text query batch'') (\<lambda>_.
     if tb_handle batch \<noteq> commit_text_query_handle commit
     then Err (RenderProtocolError_new code_STALE ''text query used the wrong opaque handle'')
     else if RENDER_MAX_TEXT_QUERIES < length (tb_queries batch)
     then Err (limit_error ''text query'' (length (tb_queries batch)) RENDER_MAX_TEXT_QUERIES)
     else
       and_then (try_fold (validate_one_text_query source) {} (tb_queries batch)) (\<lambda>_.
       Ok ())))))"

definition validate_text_query_identity ::
    "RenderTextQueryBatch \<Rightarrow> RenderTextQueryBatchResult \<Rightarrow> unit render_result" where
  "validate_text_query_identity request response =
     (if br_context_id response \<noteq> tb_context_id request
         \<or> br_document_id response \<noteq> tb_document_id request
         \<or> br_commit_id response \<noteq> tb_commit_id request
         \<or> br_revision response \<noteq> tb_revision request
      then Err (RenderProtocolError_new code_STALE
        ''text query response identity does not match its request'')
      else Ok ())"

text \<open>One iteration of the loop over the results of a response: the identifiers seen and the
  number of text boxes so far.\<close>

fun validate_one_text_result ::
    "RenderReplica \<Rightarrow> (RenderQueryId, RenderNodeId \<times> RenderTextQueryKind) btree
     \<Rightarrow> RenderQueryId set \<times> usize \<Rightarrow> RenderTextQueryResult
     \<Rightarrow> (RenderQueryId set \<times> usize) render_result" where
  "validate_one_text_result source expected (seen, text_boxes) result =
     (if qr_query_id result \<in> seen
      then Err (duplicate_id_error ''text query result'' (qr_query_id result))
      else
        and_then (ok_or (bt_get expected (qr_query_id result))
          (unknown_id_error ''text query result'' (qr_query_id result))) (\<lambda>ex.
        and_then (case (snd ex, qr_value result) of
            (OffsetForPoint _, OffsetValue utf16_offset _) \<Rightarrow>
              if unat utf16_offset
                 \<le> (case RenderReplica_node_text_utf16_len source (fst ex) of None \<Rightarrow> 0 | Some n \<Rightarrow> n)
              then Ok text_boxes
              else Err (RenderProtocolError_new code_INVALID_GEOMETRY
                ''text offset result exceeds the source text'')
          | (CaretForOffset _ _, CaretValue rect _) \<Rightarrow>
              and_then (RenderRect_validate rect ''text caret rectangle'') (\<lambda>_. Ok text_boxes)
          | (RangeBoxes _ _, RangeBoxesValue boxes) \<Rightarrow>
              and_then (ok_or (checked_add_usize text_boxes (length boxes))
                (limit_error ''text box'' usize_max RENDER_MAX_TEXT_BOXES)) (\<lambda>n.
              if RENDER_MAX_TEXT_BOXES < n
              then Err (limit_error ''text box'' n RENDER_MAX_TEXT_BOXES)
              else
                and_then (try_for (\<lambda>b. RenderRect_validate (box_rect b) ''text range box'') boxes)
                  (\<lambda>_. Ok n))
          | _ \<Rightarrow> Err (RenderProtocolError_new code_INVALID_GRAPH
              (''text query result '' @ ident_display (qr_query_id result) @
               '' has the wrong value kind''))) (\<lambda>n.
        Ok (insert (qr_query_id result) seen, n))))"

definition RenderCommitState_validate_text_query_result ::
    "RenderCommitState \<Rightarrow> RenderReplica \<Rightarrow> RenderTextQueryBatch \<Rightarrow> RenderTextQueryBatchResult
     \<Rightarrow> unit render_result" where
  "RenderCommitState_validate_text_query_result self source request response =
     and_then (validate_version (br_version response)) (\<lambda>_.
     and_then (RenderCommitState_validate_text_query self source request) (\<lambda>_.
     and_then (validate_text_query_identity request response) (\<lambda>_.
     and_then (validate_truncations (br_truncations response) (tb_allow_truncation request)) (\<lambda>_.
     if length (br_results response) \<noteq> length (tb_queries request)
     then Err (RenderProtocolError_new code_INVALID_GRAPH
       ''text query result count does not match the request'')
     else
       and_then (try_fold (validate_one_text_result source
           (bt_collect (map (\<lambda>q. (tq_query_id q, tq_node_id q, tq_kind q)) (tb_queries request))))
         ({}, 0) (br_results response)) (\<lambda>_.
       Ok ())))))"

definition validate_scroll_command_kind :: "RenderScrollCommandKind \<Rightarrow> unit render_result" where
  "validate_scroll_command_kind k =
     (let absolute = (\<lambda>offset.
        and_then (RenderPoint_validate offset ''scroll target'') (\<lambda>_.
        if f64_lt (pt_x offset) f64_zero \<or> f64_lt (pt_y offset) f64_zero
        then Err (RenderProtocolError_new code_INVALID_GEOMETRY
          ''absolute scroll target must be non-negative'')
        else Ok ()))
      in case k of
           ScrollBy delta \<Rightarrow> RenderPoint_validate delta ''scroll delta''
         | ScrollTo offset \<Rightarrow> absolute offset
         | ScrollRestore offset \<Rightarrow> absolute offset)"

definition RenderCommitState_consume_scroll_command ::
    "RenderCommitState \<Rightarrow> RenderReplica \<Rightarrow> RenderScrollCommand
     \<Rightarrow> RenderCommitState \<times> unit render_result" where
  "RenderCommitState_consume_scroll_command self source command =
     try_in self (validate_version (sc_version command)) (\<lambda>_.
     try_in self (require_presented self) (\<lambda>commit.
     try_in self (validate_identity commit (sc_context_id command) (sc_document_id command)
       (sc_displayed_commit_id command) (sc_revision command) ''scroll command'') (\<lambda>_.
     try_in self (validate_current_source source commit ''scroll command'') (\<lambda>_.
     if \<not> list_ex (\<lambda>s. ss_scroll_node_id s = sc_scroll_node_id command)
            (commit_scroll_snapshot commit)
     then (self, Err (unknown_id_error ''scroll command node'' (sc_scroll_node_id command)))
     else
       try_in self (validate_scroll_command_kind (sc_kind command)) (\<lambda>_.
       if sc_command_id command |\<in>| seen_scroll_commands self
       then (self, Err (RenderProtocolError_new code_REPLAYED_COMMAND
         (''scroll command '' @ ident_display (sc_command_id command) @ '' was replayed'')))
       else if RENDER_MAX_SEEN_SCROLL_COMMANDS \<le> fcard (seen_scroll_commands self)
       then (self, Err (limit_error ''scroll command replay ledger''
         (fcard (seen_scroll_commands self) + 1) RENDER_MAX_SEEN_SCROLL_COMMANDS))
       else (self\<lparr>seen_scroll_commands :=
               finsert (sc_command_id command) (seen_scroll_commands self)\<rparr>, Ok ()))))))"

definition RenderCommitState_consume_semantic_action ::
    "RenderCommitState \<Rightarrow> RenderReplica \<Rightarrow> RenderSemanticActionTarget
     \<Rightarrow> RenderCommitState \<times> unit render_result" where
  "RenderCommitState_consume_semantic_action self source t =
     try_in self (validate_version (sa_version t)) (\<lambda>_.
     try_in self (require_presented self) (\<lambda>commit.
     try_in self (validate_identity commit (sa_context_id t) (sa_document_id t)
       (sa_displayed_commit_id t) (sa_revision t) ''semantic action'') (\<lambda>_.
     try_in self (validate_current_source source commit ''semantic action'') (\<lambda>_.
     try_in self (RenderSemanticAction_validate (sa_action t)) (\<lambda>_.
     try_in self (ok_or (RenderReplica_semantic_node source (sa_semantic_node_id t))
       (unknown_id_error ''semantic action node'' (sa_semantic_node_id t))) (\<lambda>semantic.
     if \<not> list_ex (\<lambda>b. sb_semantic_node_id b = sa_semantic_node_id t) (commit_semantic_bounds commit)
     then (self, Err (unknown_id_error ''displayed semantic node'' (sa_semantic_node_id t)))
     else if sa_action_generation t \<noteq> sem_action_generation semantic
     then (self, Err (RenderProtocolError_new code_STALE
       ''semantic action generation is stale or forged''))
     else if RenderSemanticAction_kind (sa_action t) \<notin> set (sem_actions semantic)
     then (self, Err (RenderProtocolError_new code_UNADVERTISED_ACTION
       ''semantic action was not advertised by BrowserCore''))
     else
       try_in self (case sa_action t of
           SetSelection base_offset extent_offset \<Rightarrow>
             (let value_len = (case RenderReplica_semantic_value_utf16_len source
                                  (sa_semantic_node_id t) of None \<Rightarrow> 0 | Some n \<Rightarrow> n)
              in if value_len < unat base_offset \<or> value_len < unat extent_offset
                 then Err (RenderProtocolError_new code_INVALID_GEOMETRY
                   ''semantic selection exceeds the advertised value'')
                 else Ok ())
         | _ \<Rightarrow> Ok ()) (\<lambda>_.
       if sa_request_id t |\<in>| seen_semantic_actions self
       then (self, Err (RenderProtocolError_new code_REPLAYED_ACTION
         (''semantic action request '' @ ident_display (sa_request_id t) @ '' was replayed'')))
       else if RENDER_MAX_SEEN_SEMANTIC_ACTIONS \<le> fcard (seen_semantic_actions self)
       then (self, Err (limit_error ''semantic action replay ledger''
         (fcard (seen_semantic_actions self) + 1) RENDER_MAX_SEEN_SEMANTIC_ACTIONS))
       else (self\<lparr>seen_semantic_actions :=
               finsert (sa_request_id t) (seen_semantic_actions self)\<rparr>, Ok ()))))))))"

end
