(* ===== verification/Render_Broker_Protocol.thy ===== *)
theory Render_Broker_Protocol
  imports Commit_State
begin

section \<open>Broker requests, responses and asynchronous traffic\<close>

text \<open>
  \<open>vixen-api/src/render/broker.rs\<close>: what BrowserCore asks of a renderer, the answers, the
  asynchronous updates and submissions, and the checks made on them at the transport
  boundary, where neither the source nor the commit state is at hand.
\<close>

subsection \<open>Errors\<close>

definition stale_error :: "string \<Rightarrow> RenderProtocolError" where
  "stale_error message = RenderProtocolError_new code_STALE message"

definition broker_limit_error :: "string \<Rightarrow> usize \<Rightarrow> usize \<Rightarrow> RenderProtocolError" where
  "broker_limit_error description actual limit = RenderProtocolError_new code_LIMIT
     (description @ '' count '' @ show_nat actual @ '' exceeds limit '' @ show_nat limit)"

definition validate_revision_identity ::
    "u64 \<Rightarrow> u64 \<Rightarrow> RenderRevision \<Rightarrow> string \<Rightarrow> unit render_result" where
  "validate_revision_identity ctx doc revision description =
     (if ident_get (rev_context_id revision) \<noteq> ctx \<or> ident_get (rev_document_id revision) \<noteq> doc
      then Err (stale_error (description @ '' identity does not match its revision''))
      else Ok ())"

subsection \<open>Updates and submissions\<close>

record RenderCaptureRequest =
  cap_context_id :: BrowsingContextId
  cap_document_id :: DocumentId
  cap_displayed_commit_id :: u64
  cap_revision :: RenderRevision
  cap_viewport :: RenderViewport

definition RenderCaptureRequest_validate :: "RenderCaptureRequest \<Rightarrow> unit render_result" where
  "RenderCaptureRequest_validate c =
     and_then (RenderRevision_validate (cap_revision c)) (\<lambda>_.
     and_then (validate_revision_identity (ident_get (cap_context_id c))
       (ident_get (cap_document_id c)) (cap_revision c) ''capture request'') (\<lambda>_.
     if cap_displayed_commit_id c = 0
     then Err (RenderProtocolError_new code_UNKNOWN_ID ''capture request commit id must be nonzero'')
     else RenderViewport_validate (cap_viewport c)))"

datatype RenderBridgeUpdate =
  FullSnapshot FullRenderSnapshot
| MutationBatch RenderMutationBatch
| ReleaseHandles RenderHandleRelease

definition RenderBridgeUpdate_validate :: "RenderBridgeUpdate \<Rightarrow> unit render_result" where
  "RenderBridgeUpdate_validate u =
     (case u of
        FullSnapshot snapshot \<Rightarrow> FullRenderSnapshot_validate snapshot
      | MutationBatch batch \<Rightarrow> RenderMutationBatch_validate batch
      | ReleaseHandles release \<Rightarrow> validate_version (rel_version release))"

datatype RenderBridgeSubmission =
  SubmitCommit RenderCommit
| SubmitPresented RenderPresented
| SubmitResync RenderResyncRequest

definition validate_commit_for_revision :: "RenderCommit \<Rightarrow> RenderRevision \<Rightarrow> unit render_result" where
  "validate_commit_for_revision commit required_revision =
     and_then (validate_version (commit_version commit)) (\<lambda>_.
     if commit_revision commit \<noteq> required_revision
     then Err (stale_error ''renderer commit does not match the requested revision'')
     else
       and_then (RenderViewport_validate (commit_viewport commit)) (\<lambda>_.
       if RENDER_MAX_GEOMETRY_ENTRIES < length (commit_geometry_index commit)
       then Err (broker_limit_error ''geometry entry'' (length (commit_geometry_index commit))
         RENDER_MAX_GEOMETRY_ENTRIES)
       else if RENDER_MAX_SCROLL_ENTRIES < length (commit_scroll_snapshot commit)
       then Err (broker_limit_error ''scroll entry'' (length (commit_scroll_snapshot commit))
         RENDER_MAX_SCROLL_ENTRIES)
       else if RENDER_MAX_SEMANTIC_BOUNDS < length (commit_semantic_bounds commit)
       then Err (broker_limit_error ''semantic bounds'' (length (commit_semantic_bounds commit))
         RENDER_MAX_SEMANTIC_BOUNDS)
       else if RENDER_MAX_TRUNCATION_DIAGNOSTICS < length (commit_truncations commit)
       then Err (broker_limit_error ''truncation diagnostic'' (length (commit_truncations commit))
         RENDER_MAX_TRUNCATION_DIAGNOSTICS)
       else if list_ex tr_required (commit_truncations commit)
       then Err (RenderProtocolError_new code_TRUNCATED_REQUIRED
         ''renderer commit omitted required output'')
       else Ok ()))"

text \<open>The check of an optional revision of a resync request.\<close>

definition validate_resync_revision ::
    "RenderResyncRequest \<Rightarrow> RenderRevision option \<Rightarrow> string \<Rightarrow> unit render_result" where
  "validate_resync_revision request revision description =
     (case revision of
        None \<Rightarrow> Ok ()
      | Some r \<Rightarrow>
          and_then (RenderRevision_validate r) (\<lambda>_.
          validate_revision_identity (ident_get (resync_context_id request))
            (ident_get (resync_document_id request)) r description))"

definition RenderBridgeSubmission_validate_transport ::
    "RenderBridgeSubmission \<Rightarrow> unit render_result" where
  "RenderBridgeSubmission_validate_transport s =
     (case s of
        SubmitCommit commit \<Rightarrow> validate_commit_for_revision commit (commit_revision commit)
      | SubmitPresented p \<Rightarrow>
          and_then (validate_version (pres_version p)) (\<lambda>_.
          and_then (RenderRevision_validate (pres_revision p)) (\<lambda>_.
          validate_revision_identity (ident_get (pres_context_id p))
            (ident_get (pres_document_id p)) (pres_revision p) ''presentation''))
      | SubmitResync request \<Rightarrow>
          and_then (validate_version (resync_version request)) (\<lambda>_.
          and_then (validate_resync_revision request (resync_current_revision request)
            ''resync current revision'') (\<lambda>_.
          and_then (validate_resync_revision request (resync_rejected_base_revision request)
            ''resync rejected revision'') (\<lambda>_.
          Ok ()))))"

subsection \<open>Requests\<close>

datatype RenderBrokerRequestKind =
  EnsureLayout RenderRevision
| HitTestRequest RenderHitTestQuery
| TextQueryRequest RenderTextQueryBatch
| CaptureScene RenderCaptureRequest
| ResetRequest BrowsingContextId DocumentId

record RenderBrokerRequest =
  req_version :: u16
  req_request_id :: RenderRequestId
  req_kind :: RenderBrokerRequestKind

definition validate_request_query ::
    "RenderQueryId set \<Rightarrow> RenderTextQuery \<Rightarrow> RenderQueryId set render_result" where
  "validate_request_query query_ids query =
     (if tq_query_id query \<in> query_ids
      then Err (RenderProtocolError_new code_DUPLICATE_ID ''text-query request repeats a query id'')
      else
        and_then (case tq_kind query of
            OffsetForPoint point \<Rightarrow> RenderPoint_validate point ''text-query request point''
          | RangeBoxes utf16_start utf16_end \<Rightarrow>
              if utf16_end < utf16_start
              then Err (RenderProtocolError_new code_INVALID_GEOMETRY
                ''text-query request range is reversed'')
              else Ok ()
          | CaretForOffset _ _ \<Rightarrow> Ok ()) (\<lambda>_.
        Ok (insert (tq_query_id query) query_ids)))"

definition RenderBrokerRequest_validate :: "RenderBrokerRequest \<Rightarrow> unit render_result" where
  "RenderBrokerRequest_validate request =
     and_then (validate_version (req_version request)) (\<lambda>_.
     case req_kind request of
       EnsureLayout required_revision \<Rightarrow> RenderRevision_validate required_revision
     | HitTestRequest query \<Rightarrow>
         and_then (validate_version (hq_version query)) (\<lambda>_.
         and_then (RenderRevision_validate (hq_revision query)) (\<lambda>_.
         and_then (validate_revision_identity (ident_get (hq_context_id query))
           (ident_get (hq_document_id query)) (hq_revision query) ''hit-test request'') (\<lambda>_.
         RenderPoint_validate (hq_point query) ''hit-test request point'')))
     | TextQueryRequest batch \<Rightarrow>
         and_then (validate_version (tb_version batch)) (\<lambda>_.
         and_then (RenderRevision_validate (tb_revision batch)) (\<lambda>_.
         and_then (validate_revision_identity (ident_get (tb_context_id batch))
           (ident_get (tb_document_id batch)) (tb_revision batch) ''text-query request'') (\<lambda>_.
         if RENDER_MAX_TEXT_QUERIES < length (tb_queries batch)
         then Err (broker_limit_error ''text query'' (length (tb_queries batch))
           RENDER_MAX_TEXT_QUERIES)
         else
           and_then (try_fold validate_request_query {} (tb_queries batch)) (\<lambda>_.
           Ok ()))))
     | CaptureScene capture \<Rightarrow> RenderCaptureRequest_validate capture
     | ResetRequest ctx doc \<Rightarrow> Ok ())"

subsection \<open>Responses\<close>

datatype RenderBrokerCancellation = Navigation | Stop | ContextClosed | Shutdown | Deadline

datatype RenderBrokerResponseKind =
  CommitResponse RenderCommit
| HitTestResponse "RenderInputTarget option"
| TextQueryResponse RenderTextQueryBatchResult
| CapturePng "u8 list"
| ResetResponse
| Cancelled RenderBrokerCancellation
| Failed string string

record RenderBrokerResponse =
  resp_version :: u16
  resp_request_id :: RenderRequestId
  resp_kind :: RenderBrokerResponseKind

definition PNG_SIGNATURE :: "u8 list" where
  "PNG_SIGNATURE = [0x89, 0x50, 0x4E, 0x47, 0x0D, 0x0A, 0x1A, 0x0A]"

definition validate_capture_response :: "RenderCaptureRequest \<Rightarrow> u8 list \<Rightarrow> unit render_result" where
  "validate_capture_response capture png =
     (if length png < 24 \<or> RENDER_MAX_CAPTURE_BYTES < length png
      then Err (RenderProtocolError_new code_LIMIT
        ''renderer capture PNG size is outside its bounded range'')
      else if take 8 png \<noteq> PNG_SIGNATURE
      then Err (RenderProtocolError_new code_INVALID_GRAPH
        ''renderer capture response is not a PNG'')
      else Ok ())"

definition validate_hit_test_response ::
    "RenderHitTestQuery \<Rightarrow> RenderInputTarget \<Rightarrow> unit render_result" where
  "validate_hit_test_response query target =
     and_then (validate_version (it_version target)) (\<lambda>_.
     if it_query_id target \<noteq> hq_query_id query
        \<or> it_context_id target \<noteq> hq_context_id query
        \<or> it_document_id target \<noteq> hq_document_id query
        \<or> it_displayed_commit_id target \<noteq> hq_displayed_commit_id query
        \<or> it_revision target \<noteq> hq_revision query
        \<or> it_handle target \<noteq> hq_handle query
        \<or> \<not> RenderPoint_eq (it_viewport_point target) (hq_point query)
     then Err (stale_error ''renderer hit-test response does not match its request'')
     else
       and_then (RenderPoint_validate (it_viewport_point target) ''hit-test response point'') (\<lambda>_.
       RenderPoint_validate (it_local_point target) ''hit-test response local point''))"

fun validate_response_result ::
    "(RenderQueryId, RenderTextQueryKind) btree \<Rightarrow> RenderQueryId set \<times> usize
     \<Rightarrow> RenderTextQueryResult \<Rightarrow> (RenderQueryId set \<times> usize) render_result" where
  "validate_response_result expected (seen, text_boxes) result =
     (if qr_query_id result \<in> seen
      then Err (RenderProtocolError_new code_DUPLICATE_ID
        ''renderer text-query response repeats a query id'')
      else case bt_get expected (qr_query_id result) of
          None \<Rightarrow> Err (stale_error ''renderer text-query response contains an unknown query id'')
        | Some request_kind \<Rightarrow>
            and_then (case (request_kind, qr_value result) of
                (OffsetForPoint _, OffsetValue _ _) \<Rightarrow> Ok text_boxes
              | (CaretForOffset _ _, CaretValue rect _) \<Rightarrow>
                  and_then (RenderRect_validate rect ''text-query caret response'') (\<lambda>_.
                  Ok text_boxes)
              | (RangeBoxes _ _, RangeBoxesValue boxes) \<Rightarrow>
                  and_then (ok_or (checked_add_usize text_boxes (length boxes))
                    (broker_limit_error ''text box'' usize_max RENDER_MAX_TEXT_BOXES)) (\<lambda>n.
                  if RENDER_MAX_TEXT_BOXES < n
                  then Err (broker_limit_error ''text box'' n RENDER_MAX_TEXT_BOXES)
                  else
                    and_then (try_for (\<lambda>b. RenderRect_validate (box_rect b)
                      ''text-query range response'') boxes) (\<lambda>_.
                    Ok n))
              | _ \<Rightarrow> Err (RenderProtocolError_new code_INVALID_GRAPH
                  ''renderer text-query response value kind does not match its request'')) (\<lambda>n.
            Ok (insert (qr_query_id result) seen, n)))"

definition validate_text_query_response ::
    "RenderTextQueryBatch \<Rightarrow> RenderTextQueryBatchResult \<Rightarrow> unit render_result" where
  "validate_text_query_response request response =
     and_then (validate_version (br_version response)) (\<lambda>_.
     if br_context_id response \<noteq> tb_context_id request
        \<or> br_document_id response \<noteq> tb_document_id request
        \<or> br_commit_id response \<noteq> tb_commit_id request
        \<or> br_revision response \<noteq> tb_revision request
     then Err (stale_error ''renderer text-query response does not match its request'')
     else if RENDER_MAX_TRUNCATION_DIAGNOSTICS < length (br_truncations response)
     then Err (broker_limit_error ''truncation diagnostic'' (length (br_truncations response))
       RENDER_MAX_TRUNCATION_DIAGNOSTICS)
     else if \<not> tb_allow_truncation request
        \<and> list_ex (\<lambda>t. tr_required t \<or> 0 < tr_omitted t) (br_truncations response)
     then Err (RenderProtocolError_new code_TRUNCATED_REQUIRED
       ''renderer text-query response was truncated'')
     else if length (br_results response) \<noteq> length (tb_queries request)
     then Err (RenderProtocolError_new code_INVALID_GRAPH
       ''renderer text-query result count does not match its request'')
     else
       and_then (try_fold (validate_response_result
           (bt_collect (map (\<lambda>q. (tq_query_id q, tq_kind q)) (tb_queries request))))
         ({}, 0) (br_results response)) (\<lambda>_.
       Ok ()))"

definition matching_kind :: "RenderBrokerRequestKind \<Rightarrow> RenderBrokerResponseKind \<Rightarrow> bool" where
  "matching_kind request response \<longleftrightarrow>
     (case (request, response) of
        (EnsureLayout _, CommitResponse _) \<Rightarrow> True
      | (HitTestRequest _, HitTestResponse _) \<Rightarrow> True
      | (TextQueryRequest _, TextQueryResponse _) \<Rightarrow> True
      | (CaptureScene _, CapturePng _) \<Rightarrow> True
      | (ResetRequest _ _, ResetResponse) \<Rightarrow> True
      | (_, Cancelled _) \<Rightarrow> True
      | (_, Failed _ _) \<Rightarrow> True
      | _ \<Rightarrow> False)"

text \<open>The last match of \<open>validate_for\<close>; \<open>None\<close> is its \<open>unreachable!\<close> arm, a panic.\<close>

definition validate_response_kind ::
    "RenderBrokerRequestKind \<Rightarrow> RenderBrokerResponseKind \<Rightarrow> unit render_result option" where
  "validate_response_kind request response =
     (case (request, response) of
        (EnsureLayout required_revision, CommitResponse commit) \<Rightarrow>
          Some (validate_commit_for_revision commit required_revision)
      | (HitTestRequest query, HitTestResponse (Some target)) \<Rightarrow>
          Some (validate_hit_test_response query target)
      | (TextQueryRequest batch, TextQueryResponse result) \<Rightarrow>
          Some (validate_text_query_response batch result)
      | (CaptureScene capture, CapturePng png) \<Rightarrow> Some (validate_capture_response capture png)
      | (ResetRequest _ _, ResetResponse) \<Rightarrow> Some (Ok ())
      | (_, Cancelled _) \<Rightarrow> Some (Ok ())
      | (_, Failed _ _) \<Rightarrow> Some (Ok ())
      | (HitTestRequest _, HitTestResponse None) \<Rightarrow> Some (Ok ())
      | _ \<Rightarrow> None)"

definition RenderBrokerResponse_validate_for ::
    "RenderBrokerResponse \<Rightarrow> RenderBrokerRequest \<Rightarrow> unit render_result option" where
  "RenderBrokerResponse_validate_for response request =
     (case validate_version (resp_version response) of
        Err e \<Rightarrow> Some (Err e)
      | Ok _ \<Rightarrow>
          if resp_request_id response \<noteq> req_request_id request
          then Some (Err (RenderProtocolError_new code_STALE
            ''renderer broker response request id does not match''))
          else if \<not> matching_kind (req_kind request) (resp_kind response)
          then Some (Err (RenderProtocolError_new code_INVALID_GRAPH
            ''renderer broker response kind does not match its request''))
          else if (case resp_kind response of
              Failed code message \<Rightarrow> 256 < length code \<or> 4096 < length message | _ \<Rightarrow> False)
          then Some (Err (RenderProtocolError_new code_LIMIT
            ''renderer broker failure text exceeds its transport limit''))
          else validate_response_kind (req_kind request) (resp_kind response))"

section \<open>No response reaches the unreachable arm\<close>

lemma validate_response_kind_matching:
  "matching_kind k r \<Longrightarrow> \<exists>x. validate_response_kind k r = Some x"
  by (auto simp: matching_kind_def validate_response_kind_def
      split: RenderBrokerRequestKind.splits RenderBrokerResponseKind.splits option.splits)

lemma validate_for_total: "\<exists>x. RenderBrokerResponse_validate_for response request = Some x"
  by (auto simp: RenderBrokerResponse_validate_for_def validate_response_kind_matching
      split: result.splits)

end
