(* ===== verification/Renderer_Broker.thy ===== *)
theory Renderer_Broker
  imports Render_Broker_Protocol
begin

section \<open>The renderer broker\<close>

text \<open>
  \<open>vixen-ffi/src/renderer_broker.rs\<close>: the bounded channel between the browser thread and
  the renderer. Every critical section under the mutex is one operation of the model, so
  that the threads interleave between them: requesting threads register a request and then
  iterate their waiting loop, the renderer polls messages, responds and submits. What a
  thread holds outside the lock is part of the state: identifiers that are allocated but not
  yet registered, replies taken out of the pending map but not yet sent, and what each
  requester is doing. The one-place response channel of a request is its \<open>reply_slots\<close>
  entry; its sender is alive while the request is pending or its reply is in flight, its
  receiver until the requester has returned. Instants are nanoseconds.
\<close>

subsection \<open>Data\<close>

definition RENDER_BROKER_QUEUE_CAPACITY :: usize where [size_limits]:
  "RENDER_BROKER_QUEUE_CAPACITY = 64"
definition RENDER_BROKER_MAX_UPDATE_SOURCE_BYTES :: usize where [size_limits]:
  "RENDER_BROKER_MAX_UPDATE_SOURCE_BYTES = 524288"
definition VIXEN_MAX_OUTPUT_BYTES :: usize where [size_limits]:
  "VIXEN_MAX_OUTPUT_BYTES = 1048576"

type_synonym instant = nat
type_synonym duration = nat

text \<open>\<open>Instant::checked_add\<close>: seconds are a signed 64-bit number on the supported targets.\<close>

definition instant_max :: instant where
  "instant_max = 9223372036854775807999999999"

definition instant_checked_add :: "instant \<Rightarrow> duration \<Rightarrow> instant option" where
  "instant_checked_add t d = (if t + d \<le> instant_max then Some (t + d) else None)"

datatype RenderBrokerMessage =
  RequestMessage RenderBrokerRequest | UpdateMessage RenderBridgeUpdate

record RenderBrokerError =
  broker_code :: string
  broker_message :: string

definition RenderBrokerError_new :: "string \<Rightarrow> string \<Rightarrow> RenderBrokerError" where
  "RenderBrokerError_new code message = \<lparr>broker_code = code, broker_message = message\<rparr>"

type_synonym 'a broker_result = "('a, RenderBrokerError) result"

definition RenderBrokerError_display :: "RenderBrokerError \<Rightarrow> string" where
  "RenderBrokerError_display e = broker_code e @ '': '' @ broker_message e"

text \<open>The closure the source maps protocol errors with.\<close>

definition from_protocol_error :: "RenderProtocolError \<Rightarrow> RenderBrokerError" where
  "from_protocol_error e = RenderBrokerError_new (err_code e) (err_message e)"

record PendingRequest =
  pend_request :: RenderBrokerRequest
  pend_deadline :: instant

datatype QueuedMessage = QueuedRequest RenderRequestId | QueuedUpdate RenderBridgeUpdate

text \<open>A thread inside \<open>request_cancellable\<close>: waiting, leaving with a result while its
  receiver still exists, or returned.\<close>

datatype requester_phase =
  Waiting
| Leaving "RenderBrokerResponse broker_result"
| Returned "RenderBrokerResponse broker_result"

record requester =
  rq_request :: RenderBrokerRequest
  rq_deadline :: instant
  rq_phase :: requester_phase

record RenderBroker =
  next_request_id :: u64
  poisoned :: bool
  closed :: bool
  outbound :: "QueuedMessage list"
  pending :: "(RenderRequestId, PendingRequest) btree"
  submissions :: "RenderBridgeSubmission list"
  allocated :: "RenderRequestId list"
  in_flight :: "RenderRequestId \<rightharpoonup> RenderBrokerResponse"
  reply_slots :: "RenderRequestId \<rightharpoonup> RenderBrokerResponse"
  requesters :: "RenderRequestId \<rightharpoonup> requester"

definition RenderBroker_new :: RenderBroker where
  "RenderBroker_new = \<lparr>next_request_id = 1, poisoned = False, closed = False, outbound = [],
     pending = [], submissions = [], allocated = [], in_flight = (\<lambda>_. None),
     reply_slots = (\<lambda>_. None), requesters = (\<lambda>_. None)\<rparr>"

subsection \<open>Errors and the lock\<close>

definition closed_error :: RenderBrokerError where
  "closed_error = RenderBrokerError_new ''render.closed'' ''renderer broker is closed''"

definition unknown_request_error :: RenderBrokerError where
  "unknown_request_error = RenderBrokerError_new ''render.unknown-request''
     ''renderer response is stale, duplicate, or unknown''"

definition internal_error :: "string \<Rightarrow> RenderBrokerError" where
  "internal_error message = RenderBrokerError_new ''render.internal'' message"

text \<open>The lock can only be refused when a thread panicked while it held it.\<close>

definition lock_state :: "RenderBroker \<Rightarrow> unit broker_result" where
  "lock_state w =
     (if poisoned w then Err (internal_error ''renderer broker state is unavailable'') else Ok ())"

subsection \<open>Sizes of updates\<close>

definition resource_source_size :: "RenderResource \<Rightarrow> usize option" where
  "resource_source_size r = checked_add_usize (length (res_mime r)) (length (res_bytes r))"

definition node_source_size :: "RenderNode \<Rightarrow> usize option" where
  "node_source_size node =
     (let kind_size = (case node_kind node of
          Element local_name \<Rightarrow> length local_name
        | Text t \<Rightarrow> length t
        | PseudoBefore t \<Rightarrow> length t
        | PseudoAfter t \<Rightarrow> length t)
      in Option.bind (try_fold_option (\<lambda>size style.
             Option.bind (checked_add_usize size (length (style_name style))) (\<lambda>size.
             checked_add_usize size (length (style_value style)))) 0 (node_styles node)) (\<lambda>styles_size.
         Option.bind (case node_semantic node of
             None \<Rightarrow> Some 0
           | Some semantic \<Rightarrow>
               Option.bind (checked_add_usize (length (sem_role semantic)) (length (sem_name semantic)))
                 (\<lambda>size. checked_add_usize size
                    (case sem_value semantic of None \<Rightarrow> 0 | Some v \<Rightarrow> length v))) (\<lambda>semantic_size.
         Option.bind (checked_add_usize kind_size styles_size) (\<lambda>size.
         checked_add_usize size semantic_size))))"

definition mutation_source_size :: "RenderMutation \<Rightarrow> usize option" where
  "mutation_source_size m =
     (case m of
        UpsertNode node \<Rightarrow> node_source_size node
      | UpsertResource resource \<Rightarrow> resource_source_size resource
      | _ \<Rightarrow> Some 0)"

definition update_source_size :: "RenderBridgeUpdate \<Rightarrow> usize option" where
  "update_source_size u =
     (case u of
        FullSnapshot snapshot \<Rightarrow>
          Option.bind (try_fold_option (\<lambda>size node.
              Option.bind (node_source_size node) (checked_add_usize size)) 0 (snap_nodes snapshot)) (\<lambda>nodes.
          Option.bind (try_fold_option (\<lambda>size resource.
              Option.bind (resource_source_size resource) (checked_add_usize size)) 0
              (snap_resources snapshot)) (\<lambda>resources.
          checked_add_usize nodes resources))
      | MutationBatch batch \<Rightarrow>
          try_fold_option (\<lambda>size mutation.
            Option.bind (mutation_source_size mutation) (checked_add_usize size)) 0
            (batch_mutations batch)
      | ReleaseHandles _ \<Rightarrow> Some 0)"

text \<open>
  The JSON encoding of an update is made by \<open>serde_json\<close>: \<open>encode\<close> gives the length of
  its output, or \<open>None\<close> when it fails.
\<close>

definition validate_update ::
    "(RenderBridgeUpdate \<Rightarrow> usize option) \<Rightarrow> RenderBridgeUpdate \<Rightarrow> unit broker_result" where
  "validate_update encode update =
     and_then (map_err from_protocol_error (RenderBridgeUpdate_validate update)) (\<lambda>_.
     and_then (ok_or (update_source_size update) (RenderBrokerError_new ''render.payload-too-large''
       ''renderer update source size overflowed'')) (\<lambda>source_size.
     if RENDER_BROKER_MAX_UPDATE_SOURCE_BYTES < source_size
     then Err (RenderBrokerError_new ''render.payload-too-large''
       (''renderer update source is '' @ show_nat source_size @
        '' bytes; transport source limit is '' @ show_nat RENDER_BROKER_MAX_UPDATE_SOURCE_BYTES))
     else
       and_then (ok_or (encode update) (internal_error ''renderer update could not be encoded''))
         (\<lambda>encoded_size.
       if VIXEN_MAX_OUTPUT_BYTES < encoded_size
       then Err (RenderBrokerError_new ''render.payload-too-large''
         (''renderer update is '' @ show_nat encoded_size @ '' bytes; transport limit is '' @
          show_nat VIXEN_MAX_OUTPUT_BYTES))
       else Ok ())))"

subsection \<open>Requests\<close>

definition is_queued_update :: "QueuedMessage \<Rightarrow> bool" where
  "is_queued_update m \<longleftrightarrow> (case m of QueuedUpdate _ \<Rightarrow> True | QueuedRequest _ \<Rightarrow> False)"

definition ensure_update_capacity :: "RenderBroker \<Rightarrow> usize \<Rightarrow> unit broker_result" where
  "ensure_update_capacity w additional =
     (if RENDER_BROKER_QUEUE_CAPACITY
         < saturating_add_usize (length (filter is_queued_update (outbound w))) additional
      then Err (RenderBrokerError_new ''render.queue-full'' ''renderer update queue is full'')
      else Ok ())"

text \<open>Taking a request out of the queue and the pending map.\<close>

definition forget_request :: "RenderBroker \<Rightarrow> RenderRequestId \<Rightarrow> RenderBroker" where
  "forget_request w rid = w\<lparr>outbound := filter (\<lambda>m. m \<noteq> QueuedRequest rid) (outbound w),
     pending := bt_remove rid (pending w)\<rparr>"

definition remove_pending ::
    "RenderBroker \<Rightarrow> RenderRequestId \<Rightarrow> RenderBroker \<times> PendingRequest option broker_result" where
  "remove_pending w rid =
     try_in w (lock_state w) (\<lambda>_. (forget_request w rid, Ok (bt_get (pending w) rid)))"

text \<open>The first part of \<open>request_cancellable\<close>: the atomic counter.\<close>

definition allocate_request_id :: "RenderBroker \<Rightarrow> RenderBroker \<times> RenderRequestId broker_result" where
  "allocate_request_id w =
     (case checked_add_u64 (next_request_id w) 1 of
        None \<Rightarrow> (w, Err (RenderBrokerError_new ''render.id-exhausted'' ''request id exhausted''))
      | Some next \<Rightarrow>
          (case ident_new (next_request_id w) of
             None \<Rightarrow> (w\<lparr>next_request_id := next\<rparr>,
               Err (RenderBrokerError_new ''render.id-exhausted'' ''request id is zero''))
           | Some rid \<Rightarrow>
               (w\<lparr>next_request_id := next, allocated := rid # allocated w\<rparr>, Ok rid)))"

text \<open>The second part: validation, the deadline and the registration under the lock.\<close>

definition register_request ::
    "RenderBroker \<Rightarrow> RenderRequestId \<Rightarrow> RenderBrokerRequestKind \<Rightarrow> instant \<Rightarrow> duration
     \<Rightarrow> RenderBroker \<times> unit broker_result" where
  "register_request w0 request_id kind registered_at timeout =
     (let w = w0\<lparr>allocated := remove1 request_id (allocated w0)\<rparr>;
          request = \<lparr>req_version = RENDER_PROTOCOL_VERSION, req_request_id = request_id,
            req_kind = kind\<rparr>
      in try_in w (map_err from_protocol_error (RenderBrokerRequest_validate request)) (\<lambda>_.
         try_in w (ok_or (instant_checked_add registered_at timeout)
           (RenderBrokerError_new ''render.timeout''
             ''renderer request timeout exceeds the clock range'')) (\<lambda>deadline.
         try_in w (lock_state w) (\<lambda>_.
         if closed w then (w, Err closed_error)
         else if RENDER_BROKER_QUEUE_CAPACITY \<le> length (pending w)
         then (w, Err (RenderBrokerError_new ''render.queue-full''
           ''renderer in-flight request limit reached''))
         else (w\<lparr>pending := bt_insert request_id
                   \<lparr>pend_request = request, pend_deadline = deadline\<rparr> (pending w),
                 outbound := outbound w @ [QueuedRequest request_id],
                 requesters := (requesters w)(request_id \<mapsto>
                   \<lparr>rq_request = request, rq_deadline = deadline, rq_phase = Waiting\<rparr>)\<rparr>,
               Ok ())))))"

definition set_phase :: "RenderBroker \<Rightarrow> RenderRequestId \<Rightarrow> requester_phase \<Rightarrow> RenderBroker" where
  "set_phase w rid phase =
     w\<lparr>requesters := (requesters w)(rid := map_option (\<lambda>q. q\<lparr>rq_phase := phase\<rparr>) (requesters w rid))\<rparr>"

definition sender_alive :: "RenderBroker \<Rightarrow> RenderRequestId \<Rightarrow> bool" where
  "sender_alive w rid \<longleftrightarrow> bt_contains_key (pending w) rid \<or> in_flight w rid \<noteq> None"

definition receiver_alive :: "RenderBroker \<Rightarrow> RenderRequestId \<Rightarrow> bool" where
  "receiver_alive w rid \<longleftrightarrow>
     (case requesters w rid of
        None \<Rightarrow> False
      | Some q \<Rightarrow> (case rq_phase q of Returned _ \<Rightarrow> False | _ \<Rightarrow> True))"

text \<open>Leaving the loop after \<open>self.remove_pending(request_id)?\<close>.\<close>

definition leave_after_removal ::
    "RenderBroker \<Rightarrow> RenderRequestId \<Rightarrow> RenderBrokerResponse broker_result \<Rightarrow> RenderBroker" where
  "leave_after_removal w rid res =
     (case remove_pending w rid of
        (w', Ok _) \<Rightarrow> set_phase w' rid (Leaving res)
      | (w', Err e) \<Rightarrow> set_phase w' rid (Leaving (Err e)))"

text \<open>
  One iteration of the waiting loop, with the answer of the \<open>cancellation\<close> callback and
  the time read; a state that is still \<open>Waiting\<close> afterwards iterates again.
\<close>

definition requester_iteration ::
    "RenderBroker \<Rightarrow> RenderRequestId \<Rightarrow> RenderBrokerCancellation option \<Rightarrow> instant \<Rightarrow> RenderBroker" where
  "requester_iteration w request_id cancellation now =
     (case requesters w request_id of
        None \<Rightarrow> w
      | Some q \<Rightarrow>
          if rq_phase q \<noteq> Waiting then w
          else (case cancellation of
            Some reason \<Rightarrow> leave_after_removal w request_id
              (Ok \<lparr>resp_version = RENDER_PROTOCOL_VERSION, resp_request_id = request_id,
                   resp_kind = Cancelled reason\<rparr>)
          | None \<Rightarrow>
              if rq_deadline q \<le> now
              then leave_after_removal w request_id
                (Err (RenderBrokerError_new ''render.timeout'' ''renderer request deadline expired''))
              else (case reply_slots w request_id of
                  Some response \<Rightarrow>
                    set_phase (w\<lparr>reply_slots := (reply_slots w)(request_id := None)\<rparr>) request_id
                      (Leaving (Ok response))
                | None \<Rightarrow>
                    if sender_alive w request_id then w
                    else leave_after_removal w request_id (Err closed_error))))"

text \<open>The return of \<open>request_cancellable\<close>, which drops the receiver and what it holds.\<close>

definition requester_return :: "RenderBroker \<Rightarrow> RenderRequestId \<Rightarrow> RenderBroker" where
  "requester_return w rid =
     (case requesters w rid of
        None \<Rightarrow> w
      | Some q \<Rightarrow> (case rq_phase q of
            Leaving res \<Rightarrow>
              set_phase (w\<lparr>reply_slots := (reply_slots w)(rid := None)\<rparr>) rid (Returned res)
          | _ \<Rightarrow> w))"

subsection \<open>Updates and submissions\<close>

definition RenderBroker_publish_updates ::
    "(RenderBridgeUpdate \<Rightarrow> usize option) \<Rightarrow> RenderBroker \<Rightarrow> RenderBridgeUpdate list
     \<Rightarrow> RenderBroker \<times> unit broker_result" where
  "RenderBroker_publish_updates encode w updates =
     try_in w (try_for (validate_update encode) updates) (\<lambda>_.
     try_in w (lock_state w) (\<lambda>_.
     if closed w then (w, Err closed_error)
     else
       try_in w (ensure_update_capacity w (length updates)) (\<lambda>_.
       (w\<lparr>outbound := outbound w @ map QueuedUpdate updates\<rparr>, Ok ()))))"

definition RenderBroker_publish_update ::
    "(RenderBridgeUpdate \<Rightarrow> usize option) \<Rightarrow> RenderBroker \<Rightarrow> RenderBridgeUpdate
     \<Rightarrow> RenderBroker \<times> unit broker_result" where
  "RenderBroker_publish_update encode w update = RenderBroker_publish_updates encode w [update]"

text \<open>The inner loop of \<open>poll_message\<close>; \<open>clock i\<close> is the \<open>i\<close>-th reading of the time.\<close>

fun poll_drain ::
    "(nat \<Rightarrow> instant) \<Rightarrow> nat \<Rightarrow> (RenderRequestId, PendingRequest) btree \<Rightarrow> QueuedMessage list
     \<Rightarrow> QueuedMessage list \<times> RenderBrokerMessage option" where
  "poll_drain clock i pend [] = ([], None)"
| "poll_drain clock i pend (QueuedUpdate update # queue) = (queue, Some (UpdateMessage update))"
| "poll_drain clock i pend (QueuedRequest rid # queue) =
     (case bt_get pend rid of
        None \<Rightarrow> poll_drain clock i pend queue
      | Some p \<Rightarrow>
          if pend_deadline p \<le> clock i then poll_drain clock (Suc i) pend queue
          else (queue, Some (RequestMessage (pend_request p))))"

datatype poll_outcome = Polled "RenderBrokerMessage option broker_result" | PollWait

text \<open>One pass of the outer loop up to the wait on the condition variable.\<close>

definition poll_attempt ::
    "RenderBroker \<Rightarrow> (nat \<Rightarrow> instant) \<Rightarrow> instant \<Rightarrow> RenderBroker \<times> poll_outcome" where
  "poll_attempt w clock deadline =
     (case poll_drain clock 0 (pending w) (outbound w) of
        (queue, Some message) \<Rightarrow> (w\<lparr>outbound := queue\<rparr>, Polled (Ok (Some message)))
      | (queue, None) \<Rightarrow>
          (w\<lparr>outbound := queue\<rparr>,
           if closed w then Polled (Err closed_error)
           else if deadline \<le> clock (length (outbound w)) then Polled (Ok None)
           else PollWait))"

definition RenderBroker_poll_message ::
    "RenderBroker \<Rightarrow> instant \<Rightarrow> duration \<Rightarrow> (nat \<Rightarrow> instant) \<Rightarrow> RenderBroker \<times> poll_outcome" where
  "RenderBroker_poll_message w started_at timeout clock =
     (case instant_checked_add started_at timeout of
        None \<Rightarrow> (w, Polled (Err (RenderBrokerError_new ''render.timeout''
          ''renderer poll timeout exceeds the clock range'')))
      | Some deadline \<Rightarrow>
          (case lock_state w of
             Err e \<Rightarrow> (w, Polled (Err e))
           | Ok _ \<Rightarrow> poll_attempt w clock deadline))"

text \<open>Waking up from the condition variable.\<close>

definition poll_resume ::
    "RenderBroker \<Rightarrow> bool \<Rightarrow> (nat \<Rightarrow> instant) \<Rightarrow> instant \<Rightarrow> RenderBroker \<times> poll_outcome" where
  "poll_resume w timed_out clock deadline =
     (case lock_state w of
        Err e \<Rightarrow> (w, Polled (Err e))
      | Ok _ \<Rightarrow>
          if timed_out \<and> outbound w = [] then (w, Polled (Ok None))
          else poll_attempt w clock deadline)"

definition RenderBroker_submit ::
    "RenderBroker \<Rightarrow> RenderBridgeSubmission \<Rightarrow> RenderBroker \<times> unit broker_result" where
  "RenderBroker_submit w submission =
     try_in w (map_err from_protocol_error (RenderBridgeSubmission_validate_transport submission)) (\<lambda>_.
     try_in w (lock_state w) (\<lambda>_.
     if closed w then (w, Err closed_error)
     else if RENDER_BROKER_QUEUE_CAPACITY \<le> length (submissions w)
     then (w, Err (RenderBrokerError_new ''render.queue-full'' ''renderer submission queue is full''))
     else (w\<lparr>submissions := submissions w @ [submission]\<rparr>, Ok ())))"

definition RenderBroker_peek_submission ::
    "RenderBroker \<Rightarrow> RenderBridgeSubmission option broker_result" where
  "RenderBroker_peek_submission w =
     and_then (lock_state w) (\<lambda>_.
     if closed w then Err closed_error
     else Ok (case submissions w of [] \<Rightarrow> None | front # _ \<Rightarrow> Some front))"

fun same_submission_identity :: "RenderBridgeSubmission \<Rightarrow> RenderBridgeSubmission \<Rightarrow> bool" where
  "same_submission_identity (SubmitCommit left) (SubmitCommit right) \<longleftrightarrow>
     commit_id left = commit_id right \<and> commit_revision left = commit_revision right"
| "same_submission_identity (SubmitPresented left) (SubmitPresented right) \<longleftrightarrow> left = right"
| "same_submission_identity (SubmitResync left) (SubmitResync right) \<longleftrightarrow> left = right"
| "same_submission_identity _ _ \<longleftrightarrow> False"

definition RenderBroker_consume_submission_with_updates ::
    "(RenderBridgeUpdate \<Rightarrow> usize option) \<Rightarrow> RenderBroker \<Rightarrow> RenderBridgeSubmission
     \<Rightarrow> RenderBridgeUpdate list \<Rightarrow> RenderBroker \<times> unit broker_result" where
  "RenderBroker_consume_submission_with_updates encode w expected updates =
     try_in w (try_for (validate_update encode) updates) (\<lambda>_.
     try_in w (lock_state w) (\<lambda>_.
     if closed w then (w, Err closed_error)
     else if \<not> (case submissions w of [] \<Rightarrow> False
                | front # _ \<Rightarrow> same_submission_identity front expected)
     then (w, Err (RenderBrokerError_new ''render.stale''
       ''renderer submission queue changed before acceptance''))
     else
       try_in w (ensure_update_capacity w (length updates)) (\<lambda>_.
       (w\<lparr>submissions := tl (submissions w),
          outbound := outbound w @ map QueuedUpdate updates\<rparr>, Ok ()))))"

subsection \<open>Responses, cancellation and shutdown\<close>

text \<open>
  \<open>respond\<close> up to the send: the pending request is taken under the lock, then the
  response is checked against it and either it or a failure report is on its way. The
  verdict is what \<open>respond\<close> returns when the send succeeds. A panic in the check would
  drop the sender; \<open>validate_for_total\<close> shows that there is none.
\<close>

definition respond_take ::
    "RenderBroker \<Rightarrow> RenderBrokerResponse \<Rightarrow> instant \<Rightarrow> RenderBroker \<times> unit broker_result broker_result"
  where
  "respond_take w response now =
     (let rid = resp_request_id response in
      try_in w (lock_state w) (\<lambda>_.
      case bt_get (pending w) rid of
        None \<Rightarrow> (w, Err unknown_request_error)
      | Some p \<Rightarrow>
          if pend_deadline p \<le> now
          then (w, Err (RenderBrokerError_new ''render.stale''
            ''renderer response arrived after the request deadline''))
          else (case RenderBrokerResponse_validate_for response (pend_request p) of
              None \<Rightarrow> (forget_request w rid, Err (internal_error ''response kind was checked above''))
            | Some (Err e) \<Rightarrow>
                ((forget_request w rid)\<lparr>in_flight := (in_flight w)(rid \<mapsto>
                    \<lparr>resp_version = RENDER_PROTOCOL_VERSION, resp_request_id = rid,
                     resp_kind = Failed (err_code e) (err_message e)\<rparr>)\<rparr>,
                 Ok (Err (from_protocol_error e)))
            | Some (Ok _) \<Rightarrow>
                ((forget_request w rid)\<lparr>in_flight := (in_flight w)(rid \<mapsto> response)\<rparr>, Ok (Ok ())))))"

text \<open>\<open>SyncSender::send\<close> of a reply that was taken; the place is free (\<open>broker_inv\<close>).\<close>

definition send_reply :: "RenderBroker \<Rightarrow> RenderRequestId \<Rightarrow> RenderBroker \<times> unit broker_result" where
  "send_reply w rid =
     (case in_flight w rid of
        None \<Rightarrow> (w, Ok ())
      | Some response \<Rightarrow>
          let w' = w\<lparr>in_flight := (in_flight w)(rid := None)\<rparr>
          in if receiver_alive w rid
             then (w'\<lparr>reply_slots := (reply_slots w)(rid \<mapsto> response)\<rparr>, Ok ())
             else (w', Err (RenderBrokerError_new ''render.stale''
               ''renderer response arrived after requester cancellation'')))"

text \<open>\<open>respond\<close> without interruption.\<close>

definition RenderBroker_respond ::
    "RenderBroker \<Rightarrow> RenderBrokerResponse \<Rightarrow> instant \<Rightarrow> RenderBroker \<times> unit broker_result" where
  "RenderBroker_respond w response now =
     (case respond_take w response now of
        (w', Err e) \<Rightarrow> (w', Err e)
      | (w', Ok verdict) \<Rightarrow>
          let (w'', sent) = send_reply w' (resp_request_id response)
          in (w'', case verdict of Err e \<Rightarrow> Err e | Ok _ \<Rightarrow> sent))"

definition RenderBroker_cancel ::
    "RenderBroker \<Rightarrow> RenderRequestId \<Rightarrow> RenderBrokerCancellation \<Rightarrow> RenderBroker \<times> bool broker_result"
  where
  "RenderBroker_cancel w request_id reason =
     (case remove_pending w request_id of
        (w', Err e) \<Rightarrow> (w', Err e)
      | (w', Ok None) \<Rightarrow> (w', Ok False)
      | (w', Ok (Some p)) \<Rightarrow>
          (w'\<lparr>in_flight := (in_flight w')(request_id \<mapsto>
              \<lparr>resp_version = RENDER_PROTOCOL_VERSION, resp_request_id = request_id,
               resp_kind = Cancelled reason\<rparr>)\<rparr>, Ok True))"

definition RenderBroker_shutdown :: "RenderBroker \<Rightarrow> RenderBroker \<times> unit broker_result" where
  "RenderBroker_shutdown w =
     try_in w (lock_state w) (\<lambda>_.
     if closed w then (w, Ok ())
     else (w\<lparr>closed := True, outbound := [], submissions := [], pending := [],
             in_flight := (\<lambda>rid. if bt_contains_key (pending w) rid
               then Some \<lparr>resp_version = RENDER_PROTOCOL_VERSION, resp_request_id = rid,
                          resp_kind = Cancelled Shutdown\<rparr>
               else in_flight w rid)\<rparr>, Ok ()))"

end
