(* ===== verification/Broker_Runs.thy ===== *)
theory Broker_Runs
  imports Renderer_Broker "HOL-Library.Sublist"
begin

section \<open>Interleavings of the broker's threads\<close>

text \<open>
  Runs of the broker as sequences of events, one per critical section of some thread, with
  the log of what was published, delivered, submitted, consumed and answered. The lemmas
  show the invariant of the broker's state (bounded queues, every waiting requester with
  exactly one reply on its way, replies that fit their requests), that updates and
  submissions are neither reordered nor lost, and that a request is answered at most once.
\<close>

subsection \<open>Events and logs\<close>

datatype broker_event =
  Allocate
| Register RenderRequestId RenderBrokerRequestKind instant duration
| Iterate RenderRequestId "RenderBrokerCancellation option" instant
| Return RenderRequestId
| Publish "RenderBridgeUpdate list"
| Poll instant duration "nat \<Rightarrow> instant"
| Resume bool "nat \<Rightarrow> instant" instant
| Submit RenderBridgeSubmission
| Consume RenderBridgeSubmission "RenderBridgeUpdate list"
| Respond RenderBrokerResponse instant
| Send RenderRequestId
| Cancel RenderRequestId RenderBrokerCancellation
| Close

datatype broker_effect =
  Issued RenderRequestId
| Published RenderBridgeUpdate
| Delivered RenderBridgeUpdate
| Requested RenderBrokerRequest
| Submitted RenderBridgeSubmission
| Consumed RenderBridgeSubmission
| Answered RenderRequestId

primrec broker_step ::
    "(RenderBridgeUpdate \<Rightarrow> usize option) \<Rightarrow> RenderBroker \<Rightarrow> broker_event \<Rightarrow> RenderBroker" where
  "broker_step encode w Allocate = fst (allocate_request_id w)"
| "broker_step encode w (Register rid kind at timeout) =
     (if rid \<in> set (allocated w) then fst (register_request w rid kind at timeout) else w)"
| "broker_step encode w (Iterate rid cancellation now) = requester_iteration w rid cancellation now"
| "broker_step encode w (Return rid) = requester_return w rid"
| "broker_step encode w (Publish us) = fst (RenderBroker_publish_updates encode w us)"
| "broker_step encode w (Poll at timeout clock) = fst (RenderBroker_poll_message w at timeout clock)"
| "broker_step encode w (Resume timed_out clock deadline) = fst (poll_resume w timed_out clock deadline)"
| "broker_step encode w (Submit s) = fst (RenderBroker_submit w s)"
| "broker_step encode w (Consume s us) =
     fst (RenderBroker_consume_submission_with_updates encode w s us)"
| "broker_step encode w (Respond r now) = fst (respond_take w r now)"
| "broker_step encode w (Send rid) = fst (send_reply w rid)"
| "broker_step encode w (Cancel rid reason) = fst (RenderBroker_cancel w rid reason)"
| "broker_step encode w Close = fst (RenderBroker_shutdown w)"

definition polled_effects :: "poll_outcome \<Rightarrow> broker_effect list" where
  "polled_effects p =
     (case p of
        Polled (Ok (Some (UpdateMessage u))) \<Rightarrow> [Delivered u]
      | Polled (Ok (Some (RequestMessage q))) \<Rightarrow> [Requested q]
      | _ \<Rightarrow> [])"

primrec broker_effects ::
    "(RenderBridgeUpdate \<Rightarrow> usize option) \<Rightarrow> RenderBroker \<Rightarrow> broker_event \<Rightarrow> broker_effect list" where
  "broker_effects encode w Allocate =
     (case snd (allocate_request_id w) of Ok rid \<Rightarrow> [Issued rid] | Err e \<Rightarrow> [])"
| "broker_effects encode w (Register rid kind at timeout) = []"
| "broker_effects encode w (Iterate rid cancellation now) = []"
| "broker_effects encode w (Return rid) = []"
| "broker_effects encode w (Publish us) =
     (if is_ok (snd (RenderBroker_publish_updates encode w us)) then map Published us else [])"
| "broker_effects encode w (Poll at timeout clock) =
     polled_effects (snd (RenderBroker_poll_message w at timeout clock))"
| "broker_effects encode w (Resume timed_out clock deadline) =
     polled_effects (snd (poll_resume w timed_out clock deadline))"
| "broker_effects encode w (Submit s) =
     (if is_ok (snd (RenderBroker_submit w s)) then [Submitted s] else [])"
| "broker_effects encode w (Consume s us) =
     (if is_ok (snd (RenderBroker_consume_submission_with_updates encode w s us))
      then Consumed (hd (submissions w)) # map Published us else [])"
| "broker_effects encode w (Respond r now) =
     (if is_ok (snd (respond_take w r now)) then [Answered (resp_request_id r)] else [])"
| "broker_effects encode w (Send rid) = []"
| "broker_effects encode w (Cancel rid reason) =
     (if snd (RenderBroker_cancel w rid reason) = Ok True then [Answered rid] else [])"
| "broker_effects encode w Close =
     (if \<not> poisoned w \<and> \<not> closed w then map Answered (bt_keys (pending w)) else [])"

primrec broker_run ::
    "(RenderBridgeUpdate \<Rightarrow> usize option) \<Rightarrow> RenderBroker \<Rightarrow> broker_event list \<Rightarrow> RenderBroker" where
  "broker_run encode w [] = w"
| "broker_run encode w (e # es) = broker_run encode (broker_step encode w e) es"

primrec broker_log ::
    "(RenderBridgeUpdate \<Rightarrow> usize option) \<Rightarrow> RenderBroker \<Rightarrow> broker_event list \<Rightarrow> broker_effect list" where
  "broker_log encode w [] = []"
| "broker_log encode w (e # es) =
     broker_effects encode w e @ broker_log encode (broker_step encode w e) es"

definition published_in :: "broker_effect list \<Rightarrow> RenderBridgeUpdate list" where
  "published_in fs = concat (map (\<lambda>f. case f of Published u \<Rightarrow> [u] | _ \<Rightarrow> []) fs)"

definition delivered_in :: "broker_effect list \<Rightarrow> RenderBridgeUpdate list" where
  "delivered_in fs = concat (map (\<lambda>f. case f of Delivered u \<Rightarrow> [u] | _ \<Rightarrow> []) fs)"

definition submitted_in :: "broker_effect list \<Rightarrow> RenderBridgeSubmission list" where
  "submitted_in fs = concat (map (\<lambda>f. case f of Submitted s \<Rightarrow> [s] | _ \<Rightarrow> []) fs)"

definition consumed_in :: "broker_effect list \<Rightarrow> RenderBridgeSubmission list" where
  "consumed_in fs = concat (map (\<lambda>f. case f of Consumed s \<Rightarrow> [s] | _ \<Rightarrow> []) fs)"

definition answered_in :: "broker_effect list \<Rightarrow> RenderRequestId list" where
  "answered_in fs = concat (map (\<lambda>f. case f of Answered i \<Rightarrow> [i] | _ \<Rightarrow> []) fs)"

definition issued_in :: "broker_effect list \<Rightarrow> RenderRequestId list" where
  "issued_in fs = concat (map (\<lambda>f. case f of Issued i \<Rightarrow> [i] | _ \<Rightarrow> []) fs)"

inductive broker_reachable :: "(RenderBridgeUpdate \<Rightarrow> usize option) \<Rightarrow> RenderBroker \<Rightarrow> bool"
  for encode where
  start: "broker_reachable encode RenderBroker_new"
| step: "broker_reachable encode w \<Longrightarrow> broker_reachable encode (broker_step encode w e)"

subsection \<open>The invariant\<close>

definition queued_updates :: "QueuedMessage list \<Rightarrow> RenderBridgeUpdate list" where
  "queued_updates q = concat (map (\<lambda>m. case m of QueuedUpdate u \<Rightarrow> [u] | QueuedRequest _ \<Rightarrow> []) q)"

definition queued_requests :: "QueuedMessage list \<Rightarrow> RenderRequestId list" where
  "queued_requests q = concat (map (\<lambda>m. case m of QueuedRequest i \<Rightarrow> [i] | QueuedUpdate _ \<Rightarrow> []) q)"

text \<open>A reply that a request may be answered with.\<close>

definition answers :: "RenderBrokerResponse \<Rightarrow> RenderBrokerRequest \<Rightarrow> bool" where
  "answers r q \<longleftrightarrow> resp_request_id r = req_request_id q \<and> resp_version r = RENDER_PROTOCOL_VERSION
     \<and> matching_kind (req_kind q) (resp_kind r)
     \<and> (RenderBrokerResponse_validate_for r q = Some (Ok ())
        \<or> (case resp_kind r of Cancelled _ \<Rightarrow> True | Failed _ _ \<Rightarrow> True | _ \<Rightarrow> False))"

text \<open>The queues: bounded, duplicate-free, naming only pending requests, empty once closed.\<close>

definition queues_ok :: "RenderBroker \<Rightarrow> bool" where
  "queues_ok w \<longleftrightarrow>
     \<not> poisoned w \<and> bt_ok (pending w)
     \<and> length (pending w) \<le> RENDER_BROKER_QUEUE_CAPACITY
     \<and> length (queued_updates (outbound w)) \<le> RENDER_BROKER_QUEUE_CAPACITY
     \<and> length (submissions w) \<le> RENDER_BROKER_QUEUE_CAPACITY
     \<and> distinct (queued_requests (outbound w))
     \<and> set (queued_requests (outbound w)) \<subseteq> dom (bt_get (pending w))
     \<and> (closed w \<longrightarrow> pending w = [] \<and> outbound w = [] \<and> submissions w = [])"

text \<open>One request: when it is pending, its requester waits for it and no reply exists; a reply
  in flight or in the slot exists only once and fits the request; a waiting requester has
  its request pending or a reply on its way; a requester only leaves with a fitting reply.\<close>

definition request_ok ::
    "RenderRequestId \<Rightarrow> PendingRequest option \<Rightarrow> RenderBrokerResponse option
     \<Rightarrow> RenderBrokerResponse option \<Rightarrow> requester option \<Rightarrow> bool" where
  "request_ok i pend flight slot rq \<longleftrightarrow>
     (case pend of None \<Rightarrow> True
      | Some p \<Rightarrow> flight = None \<and> slot = None
          \<and> rq = Some \<lparr>rq_request = pend_request p, rq_deadline = pend_deadline p, rq_phase = Waiting\<rparr>)
     \<and> (case flight of None \<Rightarrow> True
        | Some r \<Rightarrow> slot = None \<and> (case rq of None \<Rightarrow> False | Some q \<Rightarrow> answers r (rq_request q)))
     \<and> (case slot of None \<Rightarrow> True
        | Some r \<Rightarrow> (case rq of None \<Rightarrow> False
            | Some q \<Rightarrow> answers r (rq_request q) \<and> (\<forall>res. rq_phase q \<noteq> Returned res)))
     \<and> (case rq of None \<Rightarrow> True
        | Some q \<Rightarrow> req_request_id (rq_request q) = i
            \<and> (case rq_phase q of
                 Waiting \<Rightarrow> pend \<noteq> None \<or> flight \<noteq> None \<or> slot \<noteq> None
               | Leaving res \<Rightarrow> (\<forall>r. res = Ok r \<longrightarrow> answers r (rq_request q))
               | Returned res \<Rightarrow> (\<forall>r. res = Ok r \<longrightarrow> answers r (rq_request q))))"

definition requesters_ok :: "RenderBroker \<Rightarrow> bool" where
  "requesters_ok w \<longleftrightarrow>
     (\<forall>i. request_ok i (bt_get (pending w) i) (in_flight w i) (reply_slots w i) (requesters w i))"

text \<open>Identifiers: allocated ones are fresh, and all are below the counter.\<close>

definition ids_ok :: "RenderBroker \<Rightarrow> bool" where
  "ids_ok w \<longleftrightarrow> next_request_id w \<noteq> 0 \<and> distinct (allocated w)
     \<and> (\<forall>i\<in>set (allocated w). requesters w i = None \<and> ident_get i < next_request_id w)
     \<and> (\<forall>i\<in>dom (requesters w). ident_get i < next_request_id w)"

definition broker_inv :: "RenderBroker \<Rightarrow> bool" where
  "broker_inv w \<longleftrightarrow> queues_ok w \<and> requesters_ok w \<and> ids_ok w"

section \<open>Lemmas on the queues\<close>

lemma queued_simps [simp]:
  "queued_updates [] = []" "queued_requests [] = []"
  "queued_updates (QueuedUpdate u # q) = u # queued_updates q"
  "queued_updates (QueuedRequest i # q) = queued_updates q"
  "queued_requests (QueuedUpdate u # q) = queued_requests q"
  "queued_requests (QueuedRequest i # q) = i # queued_requests q"
  "queued_updates (q @ q') = queued_updates q @ queued_updates q'"
  "queued_requests (q @ q') = queued_requests q @ queued_requests q'"
  "queued_updates (map QueuedUpdate us) = us"
  "queued_requests (map QueuedUpdate us) = []"
  by (simp_all add: queued_updates_def queued_requests_def comp_def)

lemma queued_remove [simp]:
  "queued_updates (filter (\<lambda>m. m \<noteq> QueuedRequest i) q) = queued_updates q"
  "queued_requests (filter (\<lambda>m. m \<noteq> QueuedRequest i) q) = filter (\<lambda>j. j \<noteq> i) (queued_requests q)"
proof (induction q)
  case (Cons m q)
  { case 1 then show ?case using Cons(1) by (cases m) simp_all }
  { case 2 then show ?case using Cons(2) by (cases m) simp_all }
qed simp_all

lemma count_queued_updates: "length (filter is_queued_update q) = length (queued_updates q)"
proof (induction q)
  case (Cons m q)
  then show ?case by (cases m) (simp_all add: is_queued_update_def)
qed simp

lemma poll_drain_queue:
  "poll_drain clock i pend q = (q', m) \<Longrightarrow>
     queued_updates q = (case m of Some (UpdateMessage u) \<Rightarrow> [u] | _ \<Rightarrow> []) @ queued_updates q'
     \<and> suffix q' q \<and> (m = None \<longrightarrow> q' = [])"
  by (induction clock i pend q rule: poll_drain.induct)
     (auto split: option.splits if_splits simp: suffix_Cons)

lemma queued_suffix:
  assumes "suffix q' q"
  shows "set (queued_requests q') \<subseteq> set (queued_requests q)"
    "distinct (queued_requests q) \<Longrightarrow> distinct (queued_requests q')"
    "length (queued_updates q') \<le> length (queued_updates q)"
  using assms by (auto simp: suffix_def)

lemma length_bt_insert: "length (bt_insert k v m) \<le> Suc (length m)"
  by (induction m) auto

lemma length_bt_remove: "length (bt_remove k m) \<le> length m"
  by (simp add: bt_remove_def)

section \<open>The invariant holds in every interleaving\<close>

lemma lock_state_ok: "queues_ok w \<Longrightarrow> lock_state w = Ok ()"
  by (simp add: lock_state_def queues_ok_def)

lemma queues_ok_forget: "queues_ok w \<Longrightarrow> queues_ok (forget_request w i)"
proof -
  assume q: "queues_ok w"
  have "length (bt_remove i (pending w)) \<le> RENDER_BROKER_QUEUE_CAPACITY"
    using q length_bt_remove [of i "pending w"] by (simp add: queues_ok_def)
  with q show ?thesis
    by (auto simp: queues_ok_def forget_request_def bt_get_remove) (simp add: bt_remove_def)
qed

lemma remove_pending_eq:
  "queues_ok w \<Longrightarrow> remove_pending w i = (forget_request w i, Ok (bt_get (pending w) i))"
  by (simp add: remove_pending_def lock_state_ok)

lemma queues_ok_outbound:
  "queues_ok w \<Longrightarrow> suffix q (outbound w) \<Longrightarrow> queues_ok (w\<lparr>outbound := q\<rparr>)"
  using queued_suffix [of q "outbound w"] by (auto simp: queues_ok_def)

text \<open>The three parts of the invariant only read some of the fields.\<close>

lemma queues_ok_cong [simp]:
  "queues_ok (w\<lparr>in_flight := f\<rparr>) = queues_ok w" "queues_ok (w\<lparr>reply_slots := f\<rparr>) = queues_ok w"
  "queues_ok (w\<lparr>requesters := g\<rparr>) = queues_ok w" "queues_ok (w\<lparr>allocated := a\<rparr>) = queues_ok w"
  "queues_ok (w\<lparr>next_request_id := n\<rparr>) = queues_ok w"
  by (simp_all add: queues_ok_def)

lemma requesters_ok_cong [simp]:
  "requesters_ok (w\<lparr>outbound := q\<rparr>) = requesters_ok w"
  "requesters_ok (w\<lparr>submissions := ss\<rparr>) = requesters_ok w"
  "requesters_ok (w\<lparr>allocated := a\<rparr>) = requesters_ok w"
  "requesters_ok (w\<lparr>next_request_id := n\<rparr>) = requesters_ok w"
  by (simp_all add: requesters_ok_def)

lemma ids_ok_cong [simp]:
  "ids_ok (w\<lparr>outbound := q\<rparr>) = ids_ok w" "ids_ok (w\<lparr>submissions := ss\<rparr>) = ids_ok w"
  "ids_ok (w\<lparr>in_flight := f\<rparr>) = ids_ok w" "ids_ok (w\<lparr>reply_slots := f\<rparr>) = ids_ok w"
  "ids_ok (w\<lparr>pending := m\<rparr>) = ids_ok w" "ids_ok (w\<lparr>closed := c\<rparr>) = ids_ok w"
  by (simp_all add: ids_ok_def)

lemma forget_request_cong [simp]:
  "ids_ok (forget_request w i) = ids_ok w"
  "in_flight (forget_request w i) = in_flight w" "reply_slots (forget_request w i) = reply_slots w"
  "requesters (forget_request w i) = requesters w"
  "bt_get (pending (forget_request w i)) j = (if j = i then None else bt_get (pending w) j)"
  by (simp_all add: forget_request_def bt_get_remove)

lemma set_phase_cong [simp]:
  "queues_ok (set_phase w i ph) = queues_ok w"
  "in_flight (set_phase w i ph) = in_flight w" "reply_slots (set_phase w i ph) = reply_slots w"
  "pending (set_phase w i ph) = pending w"
  "requesters (set_phase w i ph) j =
     (if j = i then map_option (\<lambda>q. q\<lparr>rq_phase := ph\<rparr>) (requesters w i) else requesters w j)"
  by (simp_all add: set_phase_def)

lemma ids_ok_set_phase [simp]: "ids_ok (set_phase w i ph) = ids_ok w"
proof -
  have "(set_phase w i ph) \<noteq> w \<Longrightarrow> True" by simp
  have "dom (requesters (set_phase w i ph)) = dom (requesters w)"
    by (auto simp: set_phase_def dom_def)
  moreover have "requesters (set_phase w i ph) j = None \<longleftrightarrow> requesters w j = None" for j by simp
  ultimately show ?thesis
    by (simp add: ids_ok_def del: set_phase_cong) (simp add: set_phase_def)
qed

text \<open>An operation on one request keeps all the others.\<close>

lemma requesters_okI:
  assumes "requesters_ok w"
    and "\<And>j. j \<noteq> i \<Longrightarrow> bt_get (pending w') j = bt_get (pending w) j \<and> in_flight w' j = in_flight w j
      \<and> reply_slots w' j = reply_slots w j \<and> requesters w' j = requesters w j"
    and "request_ok i (bt_get (pending w) i) (in_flight w i) (reply_slots w i) (requesters w i) \<Longrightarrow>
      request_ok i (bt_get (pending w') i) (in_flight w' i) (reply_slots w' i) (requesters w' i)"
  shows "requesters_ok w'"
  unfolding requesters_ok_def
proof
  fix j
  show "request_ok j (bt_get (pending w') j) (in_flight w' j) (reply_slots w' j) (requesters w' j)"
    using assms unfolding requesters_ok_def by (cases "j = i") metis+
qed

lemma requesters_okD:
  "requesters_ok w \<Longrightarrow>
     request_ok i (bt_get (pending w) i) (in_flight w i) (reply_slots w i) (requesters w i)"
  by (simp add: requesters_ok_def)

lemma allocate_inv: "broker_inv w \<Longrightarrow> broker_inv (fst (allocate_request_id w))"
proof -
  assume inv: "broker_inv w"
  then have ids: "ids_ok w" by (simp add: broker_inv_def)
  show ?thesis
  proof (cases "checked_add_u64 (next_request_id w) 1")
    case (Some n)
    have "unat n = unat (next_request_id w) + 1" using checked_add_u64_unat [OF Some] by simp
    then have less: "next_request_id w < n" "n \<noteq> 0" by (auto simp: word_less_nat_alt)
    have "requesters w (Ident (next_request_id w)) = None" "Ident (next_request_id w) \<notin> set (allocated w)"
      using ids by (force simp: ids_ok_def)+
    with ids less have
      "ids_ok (w\<lparr>next_request_id := n, allocated := Ident (next_request_id w) # allocated w\<rparr>)"
      by (auto simp: ids_ok_def intro: order.strict_trans)
    moreover have "next_request_id w \<noteq> 0" using ids by (simp add: ids_ok_def)
    ultimately show ?thesis
      using inv by (simp add: allocate_request_id_def Some broker_inv_def ident_new_def)
  qed (use inv in \<open>simp add: allocate_request_id_def\<close>)
qed

lemma register_request_cases:
  obtains (error) "fst (register_request w i k at t) = w\<lparr>allocated := remove1 i (allocated w)\<rparr>"
  | (registered) d where "\<not> closed w" "length (pending w) < RENDER_BROKER_QUEUE_CAPACITY"
      "fst (register_request w i k at t) = w\<lparr>allocated := remove1 i (allocated w),
        pending := bt_insert i \<lparr>pend_request = \<lparr>req_version = RENDER_PROTOCOL_VERSION,
            req_request_id = i, req_kind = k\<rparr>, pend_deadline = d\<rparr> (pending w),
        outbound := outbound w @ [QueuedRequest i],
        requesters := (requesters w)(i \<mapsto> \<lparr>rq_request = \<lparr>req_version = RENDER_PROTOCOL_VERSION,
            req_request_id = i, req_kind = k\<rparr>, rq_deadline = d, rq_phase = Waiting\<rparr>)\<rparr>"
proof -
  let ?req = "\<lparr>req_version = RENDER_PROTOCOL_VERSION, req_request_id = i, req_kind = k\<rparr>"
  show ?thesis
  proof (cases "(\<exists>d. RenderBrokerRequest_validate ?req = Ok () \<and> instant_checked_add at t = Some d)
      \<and> \<not> poisoned w \<and> \<not> closed w \<and> length (pending w) < RENDER_BROKER_QUEUE_CAPACITY")
    case True
    then obtain d where d: "RenderBrokerRequest_validate ?req = Ok ()" "instant_checked_add at t = Some d"
      by blast
    show ?thesis
      by (rule registered [of d]) (use True d in \<open>simp_all add: register_request_def lock_state_def Let_def\<close>)
  next
    case False
    show ?thesis
      by (rule error)
         (use False in \<open>cases "RenderBrokerRequest_validate ?req"; cases "instant_checked_add at t";
           auto simp: register_request_def Let_def lock_state_def not_less\<close>)
  qed
qed

lemma register_inv:
  assumes inv: "broker_inv w" and rid: "i \<in> set (allocated w)"
  shows "broker_inv (fst (register_request w i k at t))"
proof -
  have fresh: "requesters w i = None" and less: "ident_get i < next_request_id w"
    and q: "queues_ok w" and r: "requesters_ok w" and ids: "ids_ok w"
    using inv rid by (auto simp: broker_inv_def ids_ok_def)
  have none: "bt_get (pending w) i = None" "in_flight w i = None" "reply_slots w i = None"
    using requesters_okD [OF r, of i] fresh by (auto simp: request_ok_def split: option.splits)
  have ids': "ids_ok (w\<lparr>allocated := remove1 i (allocated w)\<rparr>)"
    using ids by (auto simp: ids_ok_def dest: notin_set_remove1 in_set_remove1)
  show ?thesis
  proof (rule register_request_cases [of w i k at t])
    assume "fst (register_request w i k at t) = w\<lparr>allocated := remove1 i (allocated w)\<rparr>"
    with q r ids' show ?thesis by (simp add: broker_inv_def)
  next
    fix d
    assume registered: "\<not> closed w" "length (pending w) < RENDER_BROKER_QUEUE_CAPACITY"
      "fst (register_request w i k at t) = w\<lparr>allocated := remove1 i (allocated w),
        pending := bt_insert i \<lparr>pend_request = \<lparr>req_version = RENDER_PROTOCOL_VERSION,
            req_request_id = i, req_kind = k\<rparr>, pend_deadline = d\<rparr> (pending w),
        outbound := outbound w @ [QueuedRequest i],
        requesters := (requesters w)(i \<mapsto> \<lparr>rq_request = \<lparr>req_version = RENDER_PROTOCOL_VERSION,
            req_request_id = i, req_kind = k\<rparr>, rq_deadline = d, rq_phase = Waiting\<rparr>)\<rparr>"
    let ?w = "fst (register_request w i k at t)"
    have "i \<notin> set (queued_requests (outbound w))" using q none by (auto simp: queues_ok_def)
    moreover have "length (bt_insert i v (pending w)) \<le> RENDER_BROKER_QUEUE_CAPACITY" for v
      using registered(2) length_bt_insert [of i v "pending w"] by simp
    ultimately have "queues_ok ?w"
      using q registered by (auto simp: queues_ok_def bt_get_insert)
    moreover have "requesters_ok ?w"
      by (rule requesters_okI [OF r, of i])
         (use none registered q in \<open>auto simp: request_ok_def bt_get_insert queues_ok_def\<close>)
    moreover have "ids_ok ?w"
      using ids ids' less registered by (auto simp: ids_ok_def)
    ultimately show ?thesis by (simp add: broker_inv_def)
  qed
qed

lemma leave_inv:
  assumes inv: "broker_inv w"
    and res: "\<And>q r. requesters w i = Some q \<Longrightarrow> res = Ok r \<Longrightarrow> answers r (rq_request q)"
  shows "broker_inv (leave_after_removal w i res)"
proof -
  have q: "queues_ok w" and r: "requesters_ok w" and ids: "ids_ok w"
    using inv by (simp_all add: broker_inv_def)
  have w': "leave_after_removal w i res = set_phase (forget_request w i) i (Leaving res)"
    by (simp add: leave_after_removal_def remove_pending_eq [OF q])
  have "requesters_ok (set_phase (forget_request w i) i (Leaving res))"
    by (rule requesters_okI [OF r, of i])
       (use res in \<open>auto simp: request_ok_def split: option.splits\<close>)
  then show ?thesis using q ids by (simp add: w' broker_inv_def queues_ok_forget)
qed

lemma answers_cancelled:
  "answers \<lparr>resp_version = RENDER_PROTOCOL_VERSION, resp_request_id = req_request_id q,
     resp_kind = Cancelled c\<rparr> q"
  by (simp add: answers_def matching_kind_def split: RenderBrokerRequestKind.splits)

lemma answers_failed:
  "answers \<lparr>resp_version = RENDER_PROTOCOL_VERSION, resp_request_id = req_request_id q,
     resp_kind = Failed c m\<rparr> q"
  by (simp add: answers_def matching_kind_def split: RenderBrokerRequestKind.splits)

lemma answers_validated:
  "RenderBrokerResponse_validate_for r q = Some (Ok ()) \<Longrightarrow> answers r q"
  by (auto simp: answers_def RenderBrokerResponse_validate_for_def validate_version_def
      split: result.splits if_splits)

lemma requester_id:
  "broker_inv w \<Longrightarrow> requesters w i = Some q \<Longrightarrow> req_request_id (rq_request q) = i"
  using requesters_okD [of w i] by (auto simp: broker_inv_def request_ok_def)

lemma iteration_inv: "broker_inv w \<Longrightarrow> broker_inv (requester_iteration w i c now)"
proof (cases "requesters w i")
  case (Some q)
  assume inv: "broker_inv w"
  then have qs: "queues_ok w" and r: "requesters_ok w" and ids: "ids_ok w"
    by (simp_all add: broker_inv_def)
  have id: "req_request_id (rq_request q) = i" using inv Some by (rule requester_id)
  have reply: "broker_inv (set_phase (w\<lparr>reply_slots := (reply_slots w)(i := None)\<rparr>) i (Leaving (Ok x)))"
    if "reply_slots w i = Some x" for x
  proof -
    have "requesters_ok (set_phase (w\<lparr>reply_slots := (reply_slots w)(i := None)\<rparr>) i (Leaving (Ok x)))"
      by (rule requesters_okI [OF r, of i])
         (use that Some in \<open>auto simp: request_ok_def split: option.splits\<close>)
    with qs ids show ?thesis by (simp add: broker_inv_def)
  qed
  have leave: "broker_inv (leave_after_removal w i res)"
    if "\<And>x. res = Ok x \<Longrightarrow> answers x (rq_request q)" for res
    by (rule leave_inv [OF inv]) (use that Some in auto)
  have errors: "broker_inv (leave_after_removal w i (Err e))" for e by (rule leave) simp
  have cancels: "broker_inv (leave_after_removal w i (Ok \<lparr>resp_version = RENDER_PROTOCOL_VERSION,
      resp_request_id = i, resp_kind = Cancelled x\<rparr>))" for x
    by (rule leave) (use answers_cancelled [of "rq_request q"] id in simp)
  show ?thesis
    by (simp add: requester_iteration_def Some inv reply errors cancels split: option.split)
qed (simp add: requester_iteration_def)

lemma return_inv: "broker_inv w \<Longrightarrow> broker_inv (requester_return w i)"
proof -
  assume inv: "broker_inv w"
  then have qs: "queues_ok w" and r: "requesters_ok w" and ids: "ids_ok w"
    by (simp_all add: broker_inv_def)
  show ?thesis
  proof (cases "\<exists>q res. requesters w i = Some q \<and> rq_phase q = Leaving res")
    case True
    then obtain q res where q: "requesters w i = Some q" "rq_phase q = Leaving res" by blast
    have "requesters_ok (set_phase (w\<lparr>reply_slots := (reply_slots w)(i := None)\<rparr>) i (Returned res))"
      by (rule requesters_okI [OF r, of i])
         (use q in \<open>auto simp: request_ok_def split: option.splits\<close>)
    with qs ids q show ?thesis by (simp add: requester_return_def broker_inv_def)
  qed (use inv in \<open>auto simp: requester_return_def split: option.splits requester_phase.splits\<close>)
qed

lemma capacity_Ok:
  "ensure_update_capacity w n = Ok u \<Longrightarrow>
     length (queued_updates (outbound w)) + n \<le> RENDER_BROKER_QUEUE_CAPACITY"
  by (auto simp: ensure_update_capacity_def count_queued_updates saturating_add_usize_def
      usize_max_def size_limits min_def split: if_splits)

lemma publish_cases:
  "RenderBroker_publish_updates encode w us = (w', r) \<Longrightarrow>
     (w' = w \<and> (\<exists>e. r = Err e))
     \<or> (r = Ok () \<and> \<not> closed w \<and> length (queued_updates (outbound w)) + length us \<le> RENDER_BROKER_QUEUE_CAPACITY
        \<and> (\<forall>u\<in>set us. validate_update encode u = Ok ())
        \<and> w' = w\<lparr>outbound := outbound w @ map QueuedUpdate us\<rparr>)"
  unfolding RenderBroker_publish_updates_def
  by (auto simp: try_in_eq try_for_eq_Ok split: if_splits dest: capacity_Ok)

lemma consume_cases:
  "RenderBroker_consume_submission_with_updates encode w s us = (w', r) \<Longrightarrow>
     (w' = w \<and> (\<exists>e. r = Err e))
     \<or> (r = Ok () \<and> \<not> closed w \<and> length (queued_updates (outbound w)) + length us \<le> RENDER_BROKER_QUEUE_CAPACITY
        \<and> (\<forall>u\<in>set us. validate_update encode u = Ok ())
        \<and> (\<exists>front rest. submissions w = front # rest \<and> same_submission_identity front s
             \<and> w' = w\<lparr>submissions := rest, outbound := outbound w @ map QueuedUpdate us\<rparr>))"
  unfolding RenderBroker_consume_submission_with_updates_def
  by (auto simp: try_in_eq try_for_eq_Ok split: if_splits list.splits dest: capacity_Ok)

lemma submit_cases:
  "RenderBroker_submit w s = (w', r) \<Longrightarrow>
     (w' = w \<and> (\<exists>e. r = Err e))
     \<or> (r = Ok () \<and> \<not> closed w \<and> length (submissions w) < RENDER_BROKER_QUEUE_CAPACITY
        \<and> w' = w\<lparr>submissions := submissions w @ [s]\<rparr>)"
  unfolding RenderBroker_submit_def
  by (auto simp: try_in_eq split: if_splits)

lemma poll_attempt_cases:
  obtains q where "suffix q (outbound w)" "fst (poll_attempt w clock deadline) = w\<lparr>outbound := q\<rparr>"
    "queued_updates (outbound w) = delivered_in (polled_effects (snd (poll_attempt w clock deadline)))
       @ queued_updates q"
proof (cases "poll_drain clock 0 (pending w) (outbound w)")
  case (Pair q m)
  show ?thesis
  proof (rule that [of q])
    show "suffix q (outbound w)" using poll_drain_queue [OF Pair] by simp
    show "fst (poll_attempt w clock deadline) = w\<lparr>outbound := q\<rparr>"
      by (simp add: poll_attempt_def Pair split: option.split)
    show "queued_updates (outbound w) =
        delivered_in (polled_effects (snd (poll_attempt w clock deadline))) @ queued_updates q"
      using poll_drain_queue [OF Pair]
      by (auto simp: poll_attempt_def Pair polled_effects_def delivered_in_def
          split: option.splits RenderBrokerMessage.splits)
  qed
qed

lemma poll_attempt_inv: "broker_inv w \<Longrightarrow> broker_inv (fst (poll_attempt w clock deadline))"
  by (rule poll_attempt_cases [of w clock deadline]) (simp add: broker_inv_def queues_ok_outbound)

lemma poll_inv:
  assumes "broker_inv w"
  shows "broker_inv (fst (RenderBroker_poll_message w at t clock))"
    and "broker_inv (fst (poll_resume w b clock deadline))"
  using assms poll_attempt_inv [OF assms]
  by (auto simp: RenderBroker_poll_message_def poll_resume_def split: option.split result.split)

lemma publish_inv:
  assumes inv: "broker_inv w"
  shows "broker_inv (fst (RenderBroker_publish_updates encode w us))"
proof (cases "RenderBroker_publish_updates encode w us")
  case (Pair w' r)
  with inv publish_cases [OF Pair] show ?thesis by (auto simp: broker_inv_def queues_ok_def)
qed

lemma consume_inv:
  assumes inv: "broker_inv w"
  shows "broker_inv (fst (RenderBroker_consume_submission_with_updates encode w s us))"
proof (cases "RenderBroker_consume_submission_with_updates encode w s us")
  case (Pair w' r)
  with inv consume_cases [OF Pair] show ?thesis by (auto simp: broker_inv_def queues_ok_def)
qed

lemma submit_inv:
  assumes inv: "broker_inv w"
  shows "broker_inv (fst (RenderBroker_submit w s))"
proof (cases "RenderBroker_submit w s")
  case (Pair w' r)
  with inv submit_cases [OF Pair] show ?thesis by (auto simp: broker_inv_def queues_ok_def)
qed

text \<open>Answering a pending request.\<close>

lemma answer_inv:
  assumes inv: "broker_inv w" and p: "bt_get (pending w) i = Some p" and r: "answers r (pend_request p)"
  shows "broker_inv ((forget_request w i)\<lparr>in_flight := (in_flight w)(i \<mapsto> r)\<rparr>)"
proof -
  have "requesters_ok w" using inv by (simp add: broker_inv_def)
  then have "requesters_ok ((forget_request w i)\<lparr>in_flight := (in_flight w)(i \<mapsto> r)\<rparr>)"
    by (rule requesters_okI [of _ i]) (use p r in \<open>auto simp: request_ok_def\<close>)
  with inv show ?thesis by (simp add: broker_inv_def queues_ok_forget)
qed

lemma pending_id:
  assumes "broker_inv w" and "bt_get (pending w) i = Some p"
  shows "req_request_id (pend_request p) = i"
  using assms requesters_okD [of w i] by (auto simp: broker_inv_def request_ok_def)

lemma respond_take_cases:
  assumes inv: "broker_inv w"
  obtains (rejected) e where "respond_take w r now = (w, Err e)"
  | (taken) p x v where "bt_get (pending w) (resp_request_id r) = Some p" "now < pend_deadline p"
      "answers x (pend_request p)"
      "respond_take w r now = ((forget_request w (resp_request_id r))
         \<lparr>in_flight := (in_flight w)(resp_request_id r \<mapsto> x)\<rparr>, Ok v)"
proof (cases "bt_get (pending w) (resp_request_id r)")
  case None
  then show ?thesis using inv rejected
    by (simp add: respond_take_def lock_state_ok broker_inv_def)
next
  case (Some p)
  have lock: "lock_state w = Ok ()" using inv by (simp add: broker_inv_def lock_state_ok)
  have id: "req_request_id (pend_request p) = resp_request_id r" using inv Some by (rule pending_id)
  obtain x where x: "RenderBrokerResponse_validate_for r (pend_request p) = Some x"
    using validate_for_total by blast
  show ?thesis
  proof (cases "now < pend_deadline p")
    case True
    show ?thesis
    proof (cases x)
      case (Ok u)
      with x have "answers r (pend_request p)" by (simp add: answers_validated)
      then show ?thesis
        by (rule taken [OF Some True]) (use True Some lock x Ok in \<open>simp add: respond_take_def Let_def\<close>)
    next
      case (Err e)
      have "answers \<lparr>resp_version = RENDER_PROTOCOL_VERSION, resp_request_id = resp_request_id r,
          resp_kind = Failed (err_code e) (err_message e)\<rparr> (pend_request p)"
        using answers_failed [of "pend_request p"] id by simp
      then show ?thesis
        by (rule taken [OF Some True]) (use True Some lock x Err in \<open>simp add: respond_take_def Let_def\<close>)
    qed
  next
    case False
    then show ?thesis using rejected Some lock by (simp add: respond_take_def)
  qed
qed

lemma respond_inv: "broker_inv w \<Longrightarrow> broker_inv (fst (respond_take w r now))"
  by (rule respond_take_cases [of w r now]) (auto intro: answer_inv)

lemma send_inv:
  assumes inv: "broker_inv w"
  shows "broker_inv (fst (send_reply w i))"
proof (cases "in_flight w i")
  case (Some r)
  have rs: "requesters_ok w" using inv by (simp add: broker_inv_def)
  have "requesters_ok (w\<lparr>in_flight := (in_flight w)(i := None), reply_slots := (reply_slots w)(i \<mapsto> r)\<rparr>)"
    if "receiver_alive w i"
    by (rule requesters_okI [OF rs, of i])
       (use Some that in \<open>auto simp: request_ok_def receiver_alive_def
          split: option.splits requester_phase.splits\<close>)
  moreover have "requesters_ok (w\<lparr>in_flight := (in_flight w)(i := None)\<rparr>)"
    if "\<not> receiver_alive w i"
    by (rule requesters_okI [OF rs, of i])
       (use Some that in \<open>auto simp: request_ok_def receiver_alive_def
          split: option.splits requester_phase.splits\<close>)
  ultimately show ?thesis using inv Some by (simp add: send_reply_def broker_inv_def Let_def)
qed (use inv in \<open>simp add: send_reply_def\<close>)

lemma cancel_eq:
  assumes "broker_inv w"
  shows "RenderBroker_cancel w i c =
    (case bt_get (pending w) i of
       None \<Rightarrow> (forget_request w i, Ok False)
     | Some p \<Rightarrow> ((forget_request w i)\<lparr>in_flight := (in_flight w)(i \<mapsto>
         \<lparr>resp_version = RENDER_PROTOCOL_VERSION, resp_request_id = i, resp_kind = Cancelled c\<rparr>)\<rparr>,
         Ok True))"
  using assms by (simp add: RenderBroker_cancel_def remove_pending_eq broker_inv_def split: option.split)

lemma forget_absent: "broker_inv w \<Longrightarrow> bt_get (pending w) i = None \<Longrightarrow> broker_inv (forget_request w i)"
proof -
  assume inv: "broker_inv w" and none: "bt_get (pending w) i = None"
  then have "requesters_ok w" by (simp add: broker_inv_def)
  then have "requesters_ok (forget_request w i)"
    by (rule requesters_okI [of _ i]) (simp_all add: none)
  with inv show ?thesis by (simp add: broker_inv_def queues_ok_forget)
qed

lemma cancel_inv: "broker_inv w \<Longrightarrow> broker_inv (fst (RenderBroker_cancel w i c))"
proof (cases "bt_get (pending w) i")
  case (Some p)
  assume inv: "broker_inv w"
  show ?thesis
    using answer_inv [OF inv Some answers_cancelled] pending_id [OF inv Some]
    by (simp add: cancel_eq [OF inv] Some)
qed (simp add: cancel_eq forget_absent)

lemma shutdown_inv:
  assumes inv: "broker_inv w"
  shows "broker_inv (fst (RenderBroker_shutdown w))"
proof (cases "closed w")
  case False
  have lock: "lock_state w = Ok ()" using inv by (simp add: broker_inv_def lock_state_ok)
  let ?w = "fst (RenderBroker_shutdown w)"
  have "request_ok i (bt_get (pending ?w) i) (in_flight ?w i) (reply_slots ?w i) (requesters ?w i)" for i
    using inv requesters_okD [of w i] pending_id [OF inv, of i]
      answers_cancelled [of "rq_request (the (requesters w i))" Shutdown]
    by (cases "bt_get (pending w) i")
       (auto simp: RenderBroker_shutdown_def lock False request_ok_def bt_contains_key_def
         broker_inv_def)
  then have "requesters_ok ?w" by (simp add: requesters_ok_def)
  with inv show ?thesis
    by (simp add: broker_inv_def RenderBroker_shutdown_def lock False)
       (simp add: queues_ok_def)
qed (use inv in \<open>simp add: RenderBroker_shutdown_def broker_inv_def lock_state_ok\<close>)

lemma broker_inv_new: "broker_inv RenderBroker_new"
  by (simp add: broker_inv_def queues_ok_def requesters_ok_def request_ok_def ids_ok_def
      RenderBroker_new_def)

lemma broker_step_inv: "broker_inv w \<Longrightarrow> broker_inv (broker_step encode w e)"
  by (cases e)
     (simp_all add: allocate_inv register_inv iteration_inv return_inv publish_inv poll_inv submit_inv
       consume_inv respond_inv send_inv cancel_inv shutdown_inv)

lemma reachable_broker_inv: "broker_reachable encode w \<Longrightarrow> broker_inv w"
  by (induction rule: broker_reachable.induct) (simp_all add: broker_inv_new broker_step_inv)

end
