(* ===== verification/Broker_Traffic.thy ===== *)
theory Broker_Traffic
  imports Broker_Runs
begin

section \<open>What passes through the broker\<close>

text \<open>
  Updates and submissions pass through the broker in order and without loss until it is
  shut down (locale \<open>fifo_channel\<close>, interpreted for both queues); a request is answered
  at most once; request identifiers are never reused.
\<close>

subsection \<open>A channel that keeps order\<close>

locale fifo_channel =
  fixes step :: "'s \<Rightarrow> 'e \<Rightarrow> 's"
    and inv :: "'s \<Rightarrow> bool"
    and is_open :: "'s \<Rightarrow> bool"
    and queue :: "'s \<Rightarrow> 'x list"
    and put :: "'s \<Rightarrow> 'e \<Rightarrow> 'x list"
    and got :: "'s \<Rightarrow> 'e \<Rightarrow> 'x list"
  assumes inv_step: "inv s \<Longrightarrow> inv (step s e)"
    and transfers: "inv s \<Longrightarrow> is_open (step s e) \<Longrightarrow> queue s @ put s e = got s e @ queue (step s e)"
    and closing: "inv s \<Longrightarrow> \<not> is_open (step s e) \<Longrightarrow> put s e = [] \<and> got s e = []"
    and stays_closed: "inv s \<Longrightarrow> \<not> is_open s \<Longrightarrow> \<not> is_open (step s e)"
begin

lemma closed_run:
  "inv s \<Longrightarrow> \<not> is_open s \<Longrightarrow>
     run_out step put s es = [] \<and> run_out step got s es = [] \<and> \<not> is_open (foldl step s es)"
proof (induction es arbitrary: s)
  case (Cons e es)
  have "\<not> is_open (step s e)" using stays_closed Cons.prems by blast
  with Cons.IH [OF inv_step] closing Cons.prems show ?case by simp
qed simp

lemma in_order:
  "inv s \<Longrightarrow>
     prefix (run_out step got s es) (queue s @ run_out step put s es)
     \<and> (is_open (foldl step s es) \<longrightarrow>
          queue s @ run_out step put s es = run_out step got s es @ queue (foldl step s es))"
proof (induction es arbitrary: s)
  case (Cons e es)
  show ?case
  proof (cases "is_open (step s e)")
    case True
    note IH = Cons.IH [OF inv_step [OF Cons.prems]]
    have eq: "queue s @ run_out step put s (e # es) =
        got s e @ queue (step s e) @ run_out step put (step s e) es"
      using transfers [OF Cons.prems True] by (metis append.assoc run_out.simps(2))
    show ?thesis unfolding eq using IH [of e] by simp
  next
    case False
    then show ?thesis
      using closing [OF Cons.prems False] closed_run [OF inv_step [OF Cons.prems] False, of es] by simp
  qed
qed simp

end

subsection \<open>What each event does to the queues\<close>

lemma log_simps [simp]:
  "published_in (map Published us) = us" "delivered_in (map Published us) = []"
  "submitted_in (map Published us) = []" "consumed_in (map Published us) = []"
  "answered_in (map Published us) = []" "answered_in (map Answered is) = is"
  "published_in (map Answered is) = []" "delivered_in (map Answered is) = []"
  "submitted_in (map Answered is) = []" "consumed_in (map Answered is) = []"
  "published_in [] = []" "delivered_in [] = []" "submitted_in [] = []" "consumed_in [] = []"
  "answered_in [] = []" "issued_in [] = []"
  by (simp_all add: published_in_def delivered_in_def submitted_in_def consumed_in_def
      answered_in_def issued_in_def comp_def)

lemma log_Cons [simp]:
  "published_in (f # fs) = (case f of Published u \<Rightarrow> [u] | _ \<Rightarrow> []) @ published_in fs"
  "delivered_in (f # fs) = (case f of Delivered u \<Rightarrow> [u] | _ \<Rightarrow> []) @ delivered_in fs"
  "submitted_in (f # fs) = (case f of Submitted u \<Rightarrow> [u] | _ \<Rightarrow> []) @ submitted_in fs"
  "consumed_in (f # fs) = (case f of Consumed u \<Rightarrow> [u] | _ \<Rightarrow> []) @ consumed_in fs"
  "answered_in (f # fs) = (case f of Answered u \<Rightarrow> [u] | _ \<Rightarrow> []) @ answered_in fs"
  "issued_in (f # fs) = (case f of Issued u \<Rightarrow> [u] | _ \<Rightarrow> []) @ issued_in fs"
  by (simp_all add: published_in_def delivered_in_def submitted_in_def consumed_in_def
      answered_in_def issued_in_def)

lemma log_append [simp]:
  "published_in (fs @ gs) = published_in fs @ published_in gs"
  "delivered_in (fs @ gs) = delivered_in fs @ delivered_in gs"
  "submitted_in (fs @ gs) = submitted_in fs @ submitted_in gs"
  "consumed_in (fs @ gs) = consumed_in fs @ consumed_in gs"
  "answered_in (fs @ gs) = answered_in fs @ answered_in gs"
  "issued_in (fs @ gs) = issued_in fs @ issued_in gs"
  by (simp_all add: published_in_def delivered_in_def submitted_in_def consumed_in_def
      answered_in_def issued_in_def)

lemma polled_effects_simps [simp]:
  "published_in (polled_effects p) = []" "submitted_in (polled_effects p) = []"
  "consumed_in (polled_effects p) = []" "answered_in (polled_effects p) = []"
  "issued_in (polled_effects p) = []"
  by (simp_all add: polled_effects_def split: poll_outcome.split result.split option.split
      RenderBrokerMessage.split)

text \<open>The fields that the operations on requesters leave alone.\<close>

lemma frame_simps [simp]:
  "closed (forget_request w i) = closed w" "submissions (forget_request w i) = submissions w"
  "queued_updates (outbound (forget_request w i)) = queued_updates (outbound w)"
  "closed (set_phase w i ph) = closed w" "submissions (set_phase w i ph) = submissions w"
  "outbound (set_phase w i ph) = outbound w"
  by (simp_all add: forget_request_def set_phase_def)

lemma leave_frame:
  assumes "queues_ok w"
  shows "closed (leave_after_removal w i res) = closed w"
    "submissions (leave_after_removal w i res) = submissions w"
    "queued_updates (outbound (leave_after_removal w i res)) = queued_updates (outbound w)"
    "requesters (leave_after_removal w i res) j = None \<longleftrightarrow> requesters w j = None"
    "bt_get (pending (leave_after_removal w i res)) j = (if j = i then None else bt_get (pending w) j)"
  using assms by (simp_all add: leave_after_removal_def remove_pending_eq)

lemma iteration_frame:
  assumes "queues_ok w"
  shows "closed (requester_iteration w i c now) = closed w"
    "submissions (requester_iteration w i c now) = submissions w"
    "queued_updates (outbound (requester_iteration w i c now)) = queued_updates (outbound w)"
    "requesters (requester_iteration w i c now) j = None \<longleftrightarrow> requesters w j = None"
    "bt_get (pending (requester_iteration w i c now)) j \<noteq> None \<Longrightarrow> bt_get (pending w) j \<noteq> None"
  using assms
  by (auto simp: requester_iteration_def leave_frame split: option.splits if_splits)

lemma return_frame:
  "closed (requester_return w i) = closed w" "submissions (requester_return w i) = submissions w"
  "outbound (requester_return w i) = outbound w" "pending (requester_return w i) = pending w"
  "requesters (requester_return w i) j = None \<longleftrightarrow> requesters w j = None"
  by (simp_all add: requester_return_def split: option.split requester_phase.split)

lemma allocate_frame:
  "closed (fst (allocate_request_id w)) = closed w"
  "submissions (fst (allocate_request_id w)) = submissions w"
  "outbound (fst (allocate_request_id w)) = outbound w"
  "pending (fst (allocate_request_id w)) = pending w"
  "requesters (fst (allocate_request_id w)) = requesters w"
  by (simp_all add: allocate_request_id_def split: option.split)

lemma register_frame:
  "closed (fst (register_request w i k at t)) = closed w"
  "submissions (fst (register_request w i k at t)) = submissions w"
  "queued_updates (outbound (fst (register_request w i k at t))) = queued_updates (outbound w)"
  "requesters w j \<noteq> None \<Longrightarrow> requesters (fst (register_request w i k at t)) j \<noteq> None"
  by (rule register_request_cases [of w i k at t]; simp)+

lemma send_frame:
  "closed (fst (send_reply w i)) = closed w" "submissions (fst (send_reply w i)) = submissions w"
  "outbound (fst (send_reply w i)) = outbound w" "pending (fst (send_reply w i)) = pending w"
  "requesters (fst (send_reply w i)) = requesters w"
  by (simp_all add: send_reply_def Let_def split: option.split)

text \<open>A poll only takes messages from the front of the queue.\<close>

definition polls :: "RenderBroker \<Rightarrow> RenderBroker \<times> poll_outcome \<Rightarrow> bool" where
  "polls w p \<longleftrightarrow>
     (\<exists>q. suffix q (outbound w) \<and> fst p = w\<lparr>outbound := q\<rparr>
        \<and> queued_updates (outbound w) = delivered_in (polled_effects (snd p)) @ queued_updates q)"

lemma polls_nothing: "polled_effects p = [] \<Longrightarrow> polls w (w, p)"
  unfolding polls_def by (rule exI [of _ "outbound w"]) simp

lemma polls_attempt: "polls w (poll_attempt w clock d)"
  by (rule poll_attempt_cases [of w clock d]) (auto simp: polls_def)

lemma polls_message: "polls w (RenderBroker_poll_message w at t clock)"
  by (auto simp: RenderBroker_poll_message_def polls_attempt polled_effects_def
      intro: polls_nothing split: option.split result.split)

lemma polls_resume: "polls w (poll_resume w b clock d)"
  by (auto simp: poll_resume_def polls_attempt polled_effects_def
      intro: polls_nothing split: result.split)

text \<open>One event other than the shutdown: whether the broker is closed does not change, nothing
  enters a closed broker, and both queues keep their order.\<close>

definition keeps_queues ::
    "(RenderBridgeUpdate \<Rightarrow> usize option) \<Rightarrow> RenderBroker \<Rightarrow> broker_event \<Rightarrow> bool" where
  "keeps_queues encode w e \<longleftrightarrow>
     (let w' = broker_step encode w e; fs = broker_effects encode w e
      in closed w' = closed w
         \<and> (closed w \<longrightarrow> published_in fs = [] \<and> submitted_in fs = [])
         \<and> queued_updates (outbound w) @ published_in fs = delivered_in fs @ queued_updates (outbound w')
         \<and> submissions w @ submitted_in fs = consumed_in fs @ submissions w')"

lemma keeps_queues_step:
  assumes inv: "broker_inv w" and "e \<noteq> Close"
  shows "keeps_queues encode w e"
proof -
  have q: "queues_ok w" using inv by (simp add: broker_inv_def)
  show ?thesis
  proof (cases e)
    case (Publish us)
    then show ?thesis
      using publish_cases [of encode w us]
      by (cases "RenderBroker_publish_updates encode w us") (auto simp: keeps_queues_def Let_def)
  next
    case (Consume s us)
    then show ?thesis
      using consume_cases [of encode w s us]
      by (cases "RenderBroker_consume_submission_with_updates encode w s us")
         (auto simp: keeps_queues_def Let_def)
  next
    case (Submit s)
    then show ?thesis
      using submit_cases [of w s] by (cases "RenderBroker_submit w s") (auto simp: keeps_queues_def Let_def)
  next
    case (Poll at t clock)
    then show ?thesis
      using polls_message [of w at t clock] by (auto simp: polls_def keeps_queues_def Let_def)
  next
    case (Resume b clock d)
    then show ?thesis
      using polls_resume [of w b clock d] by (auto simp: polls_def keeps_queues_def Let_def)
  next
    case (Respond r now)
    then show ?thesis
      by (auto intro: respond_take_cases [OF inv, of r now] simp: keeps_queues_def Let_def)
  next
    case Allocate
    then show ?thesis by (simp add: allocate_frame keeps_queues_def split: result.split)
  qed (use assms q in \<open>simp_all add: register_frame iteration_frame return_frame send_frame
      keeps_queues_def cancel_eq [OF inv] split: option.split\<close>)
qed

lemma shutdown_step:
  assumes "broker_inv w"
  shows "closed (broker_step encode w Close)"
    "broker_step encode w Close = (if closed w then w else w\<lparr>closed := True, outbound := [],
       submissions := [], pending := [], in_flight := (\<lambda>i. if bt_contains_key (pending w) i
         then Some \<lparr>resp_version = RENDER_PROTOCOL_VERSION, resp_request_id = i,
                    resp_kind = Cancelled Shutdown\<rparr>
         else in_flight w i)\<rparr>)"
  using assms by (simp_all add: RenderBroker_shutdown_def lock_state_ok broker_inv_def)

lemma closing_step:
  assumes inv: "broker_inv w" and cl: "closed (broker_step encode w e)"
  shows "published_in (broker_effects encode w e) = [] \<and> delivered_in (broker_effects encode w e) = []
    \<and> submitted_in (broker_effects encode w e) = [] \<and> consumed_in (broker_effects encode w e) = []"
proof (cases "e = Close")
  case False
  from keeps_queues_step [OF inv False, of encode] inv cl show ?thesis
    by (auto simp: keeps_queues_def Let_def broker_inv_def queues_ok_def)
qed simp

lemma stays_closed_step:
  "broker_inv w \<Longrightarrow> closed w \<Longrightarrow> closed (broker_step encode w e)"
  using keeps_queues_step [of w e encode] shutdown_step(1) [of w encode]
  by (cases "e = Close") (auto simp: keeps_queues_def Let_def)

interpretation updates: fifo_channel "broker_step encode" broker_inv "\<lambda>w. \<not> closed w"
  "\<lambda>w. queued_updates (outbound w)" "\<lambda>w e. published_in (broker_effects encode w e)"
  "\<lambda>w e. delivered_in (broker_effects encode w e)" for encode
proof
  fix w e
  assume inv: "broker_inv w"
  show "broker_inv (broker_step encode w e)" using inv by (rule broker_step_inv)
  show "queued_updates (outbound w) @ published_in (broker_effects encode w e) =
      delivered_in (broker_effects encode w e) @ queued_updates (outbound (broker_step encode w e))"
    if "\<not> closed (broker_step encode w e)"
    using that keeps_queues_step [OF inv, of e encode] shutdown_step(1) [OF inv, of encode]
    by (cases "e = Close") (auto simp: keeps_queues_def Let_def)
  show "published_in (broker_effects encode w e) = [] \<and> delivered_in (broker_effects encode w e) = []"
    if "\<not> \<not> closed (broker_step encode w e)"
    using that closing_step [OF inv, of encode e] by simp
  show "\<not> \<not> closed (broker_step encode w e)" if "\<not> \<not> closed w"
    using that stays_closed_step [OF inv] by simp
qed

interpretation submits: fifo_channel "broker_step encode" broker_inv "\<lambda>w. \<not> closed w"
  submissions "\<lambda>w e. submitted_in (broker_effects encode w e)"
  "\<lambda>w e. consumed_in (broker_effects encode w e)" for encode
proof
  fix w e
  assume inv: "broker_inv w"
  show "broker_inv (broker_step encode w e)" using inv by (rule broker_step_inv)
  show "submissions w @ submitted_in (broker_effects encode w e) =
      consumed_in (broker_effects encode w e) @ submissions (broker_step encode w e)"
    if "\<not> closed (broker_step encode w e)"
    using that keeps_queues_step [OF inv, of e encode] shutdown_step(1) [OF inv, of encode]
    by (cases "e = Close") (auto simp: keeps_queues_def Let_def)
  show "submitted_in (broker_effects encode w e) = [] \<and> consumed_in (broker_effects encode w e) = []"
    if "\<not> \<not> closed (broker_step encode w e)"
    using that closing_step [OF inv, of encode e] by simp
  show "\<not> \<not> closed (broker_step encode w e)" if "\<not> \<not> closed w"
    using that stays_closed_step [OF inv] by simp
qed

lemma broker_run_foldl: "broker_run encode w es = foldl (broker_step encode) w es"
  by (induction es arbitrary: w) simp_all

lemma broker_log_out:
  "published_in (broker_log encode w es) =
     run_out (broker_step encode) (\<lambda>w e. published_in (broker_effects encode w e)) w es"
  "delivered_in (broker_log encode w es) =
     run_out (broker_step encode) (\<lambda>w e. delivered_in (broker_effects encode w e)) w es"
  "submitted_in (broker_log encode w es) =
     run_out (broker_step encode) (\<lambda>w e. submitted_in (broker_effects encode w e)) w es"
  "consumed_in (broker_log encode w es) =
     run_out (broker_step encode) (\<lambda>w e. consumed_in (broker_effects encode w e)) w es"
  by (induction es arbitrary: w) simp_all

subsection \<open>Requests are answered at most once\<close>

lemma answered_step:
  assumes inv: "broker_inv w"
  shows "distinct (answered_in (broker_effects encode w e))
    \<and> (\<forall>i\<in>set (answered_in (broker_effects encode w e)).
         bt_get (pending w) i \<noteq> None \<and> bt_get (pending (broker_step encode w e)) i = None)"
proof (cases e)
  case (Respond r now)
  then show ?thesis by (auto intro: respond_take_cases [OF inv, of r now])
next
  case Close
  have "distinct (bt_keys (pending w))"
    using inv by (simp add: broker_inv_def queues_ok_def bt_keys_def bt_ok_distinct)
  then show ?thesis
    using shutdown_step(2) [OF inv, of encode]
    by (auto simp: Close bt_contains_key_iff [symmetric] bt_contains_key_def)
next
  case Allocate
  then show ?thesis by (simp split: result.split)
qed (auto simp: cancel_eq [OF inv] split: option.splits)

text \<open>Requesters are never forgotten, and a request only becomes pending when it is new.\<close>

lemma requesters_step:
  assumes inv: "broker_inv w"
  shows "(requesters w i \<noteq> None \<longrightarrow> requesters (broker_step encode w e) i \<noteq> None)
    \<and> (bt_get (pending (broker_step encode w e)) i \<noteq> None \<longrightarrow>
         bt_get (pending w) i \<noteq> None \<or> requesters w i = None)"
proof -
  have q: "queues_ok w" using inv by (simp add: broker_inv_def)
  show ?thesis
  proof (cases e)
    case (Register j k at t)
    then show ?thesis
    proof (cases "j \<in> set (allocated w)")
      case True
      with inv have "requesters w j = None" "bt_ok (pending w)"
        by (auto simp: broker_inv_def ids_ok_def queues_ok_def)
      then show ?thesis
        by - (rule register_request_cases [of w j k at t]; simp add: Register True bt_get_insert)
    qed simp
  next
    case (Publish us)
    then show ?thesis
      using publish_cases [of encode w us] by (cases "RenderBroker_publish_updates encode w us") auto
  next
    case (Consume s us)
    then show ?thesis
      using consume_cases [of encode w s us]
      by (cases "RenderBroker_consume_submission_with_updates encode w s us") auto
  next
    case (Submit s)
    then show ?thesis using submit_cases [of w s] by (cases "RenderBroker_submit w s") auto
  next
    case (Poll at t clock)
    then show ?thesis using polls_message [of w at t clock] by (auto simp: polls_def)
  next
    case (Resume b clock d)
    then show ?thesis using polls_resume [of w b clock d] by (auto simp: polls_def)
  next
    case (Respond r now)
    show ?thesis
      by (rule respond_take_cases [OF inv, of r now]) (simp_all add: Respond)
  next
    case Close
    then show ?thesis using shutdown_step(2) [OF inv, of encode] by auto
  next
    case (Iterate j c now)
    then show ?thesis using iteration_frame(4,5) [OF q, of j c now i] by auto
  qed (simp_all add: allocate_frame return_frame send_frame cancel_eq [OF inv] split: option.split)
qed

lemma pending_has_requester:
  "broker_inv w \<Longrightarrow> bt_get (pending w) i \<noteq> None \<Longrightarrow> requesters w i \<noteq> None"
  using requesters_okD [of w i] by (auto simp: broker_inv_def request_ok_def)

definition may_be_answered :: "RenderBroker \<Rightarrow> RenderRequestId set" where
  "may_be_answered w = {i. bt_get (pending w) i \<noteq> None \<or> requesters w i = None}"

lemma may_be_answered_step:
  assumes inv: "broker_inv w"
  shows "may_be_answered (broker_step encode w e) \<subseteq> may_be_answered w"
    and "set (answered_in (broker_effects encode w e)) \<subseteq> may_be_answered w"
    and "set (answered_in (broker_effects encode w e)) \<inter> may_be_answered (broker_step encode w e) = {}"
proof -
  show "may_be_answered (broker_step encode w e) \<subseteq> may_be_answered w"
  proof
    fix i
    assume "i \<in> may_be_answered (broker_step encode w e)"
    with requesters_step [OF inv, of i encode e] show "i \<in> may_be_answered w"
      by (auto simp: may_be_answered_def)
  qed
  show "set (answered_in (broker_effects encode w e)) \<subseteq> may_be_answered w"
    using answered_step [OF inv, of encode e] unfolding may_be_answered_def by blast
  have "i \<notin> may_be_answered (broker_step encode w e)"
    if "i \<in> set (answered_in (broker_effects encode w e))" for i
  proof -
    have "bt_get (pending w) i \<noteq> None" "bt_get (pending (broker_step encode w e)) i = None"
      using that answered_step [OF inv, of encode e] by blast+
    moreover from this have "requesters (broker_step encode w e) i \<noteq> None"
      using pending_has_requester [OF inv] requesters_step [OF inv, of i encode e] by blast
    ultimately show ?thesis by (simp add: may_be_answered_def)
  qed
  then show "set (answered_in (broker_effects encode w e)) \<inter> may_be_answered (broker_step encode w e) = {}"
    by blast
qed

lemma answered_once:
  "broker_inv w \<Longrightarrow>
     distinct (answered_in (broker_log encode w es))
     \<and> set (answered_in (broker_log encode w es)) \<subseteq> may_be_answered w"
proof (induction es arbitrary: w)
  case (Cons e es)
  note steps = may_be_answered_step [OF Cons.prems, of encode e]
  note IH = Cons.IH [OF broker_step_inv [OF Cons.prems], of encode e]
  have "set (answered_in (broker_effects encode w e))
      \<inter> set (answered_in (broker_log encode (broker_step encode w e) es)) = {}"
    using IH steps(3) by blast
  moreover have "set (answered_in (broker_log encode (broker_step encode w e) es)) \<subseteq> may_be_answered w"
    using IH steps(1) by blast
  moreover have "distinct (answered_in (broker_effects encode w e))"
    using answered_step [OF Cons.prems] by blast
  ultimately show ?case using IH steps(2) by simp
qed simp

subsection \<open>Identifiers are never reused\<close>

lemma next_id_step:
  assumes inv: "broker_inv w"
  shows "next_request_id w \<le> next_request_id (broker_step encode w e)
    \<and> (issued_in (broker_effects encode w e) = []
       \<or> issued_in (broker_effects encode w e) = [Ident (next_request_id w)]
         \<and> next_request_id w < next_request_id (broker_step encode w e))"
proof (cases e)
  case Allocate
  have "next_request_id w \<noteq> 0" using inv by (simp add: broker_inv_def ids_ok_def)
  moreover have "next_request_id w < n" if "checked_add_u64 (next_request_id w) 1 = Some n" for n
    using checked_add_u64_unat [OF that] by (simp add: word_less_nat_alt)
  ultimately show ?thesis
    by (auto simp: Allocate allocate_request_id_def ident_new_def split: option.split)
next
  case (Register j k at t)
  show ?thesis by (rule register_request_cases [of w j k at t]) (simp_all add: Register)
next
  case (Iterate j c now)
  have "queues_ok w" using inv by (simp add: broker_inv_def)
  then show ?thesis
    by (simp add: Iterate requester_iteration_def leave_after_removal_def remove_pending_eq
        set_phase_def forget_request_def split: option.split)
next
  case (Return j)
  then show ?thesis
    by (simp add: requester_return_def set_phase_def split: option.split requester_phase.split)
next
  case (Publish us)
  then show ?thesis
    using publish_cases [of encode w us] by (cases "RenderBroker_publish_updates encode w us")
      (auto simp: issued_in_def comp_def)
next
  case (Consume s us)
  then show ?thesis
    using consume_cases [of encode w s us]
    by (cases "RenderBroker_consume_submission_with_updates encode w s us")
       (auto simp: issued_in_def comp_def)
next
  case (Submit s)
  then show ?thesis using submit_cases [of w s] by (cases "RenderBroker_submit w s") auto
next
  case (Poll at t clock)
  then show ?thesis using polls_message [of w at t clock] by (auto simp: polls_def)
next
  case (Resume b clock d)
  then show ?thesis using polls_resume [of w b clock d] by (auto simp: polls_def)
next
  case (Respond r now)
  show ?thesis
    by (rule respond_take_cases [OF inv, of r now]) (simp_all add: Respond forget_request_def)
next
  case Close
  then show ?thesis
    using shutdown_step(2) [OF inv, of encode] by (auto simp: issued_in_def comp_def)
qed (simp_all add: send_reply_def Let_def cancel_eq [OF inv] forget_request_def split: option.split)

lemma issued_increase:
  "broker_inv w \<Longrightarrow>
     sorted_wrt (<) (issued_in (broker_log encode w es))
     \<and> (\<forall>i\<in>set (issued_in (broker_log encode w es)). next_request_id w \<le> ident_get i)"
proof (induction es arbitrary: w)
  case (Cons e es)
  note IH = Cons.IH [OF broker_step_inv [OF Cons.prems], of encode e]
  from next_id_step [OF Cons.prems, of encode e] IH show ?case
    by (auto simp: less_ident_iff intro: order.trans) (meson order.strict_trans2)
qed simp

end
