(* ===== verification/Commit_Protocol.thy ===== *)
theory Commit_Protocol
  imports Commit_State
begin

section \<open>What the commit state keeps over a run\<close>

text \<open>
  Sequences of the four operations that change a \<open>RenderCommitState\<close>, with what each of
  them lets out: accepted commits, released handles, executed scroll commands and semantic
  actions. The lemmas show the invariant of the state, that handles are conserved
  (accepted = released + live), that commit identifiers grow within a document and that no
  command or action is executed twice against one displayed commit.
\<close>

subsection \<open>Events, effects and runs\<close>

datatype commit_event =
  AcceptCommit RenderReplica RenderCommit
| AcceptPresented RenderReplica RenderPresented
| ConsumeScroll RenderReplica RenderScrollCommand
| ConsumeAction RenderReplica RenderSemanticActionTarget

datatype commit_effect =
  Accepted RenderCommit
| Released RenderHandleRelease
| Scrolled RenderCommitId RenderScrollCommandId
| Acted RenderCommitId SemanticActionRequestId

primrec commit_step :: "RenderCommitState \<Rightarrow> commit_event \<Rightarrow> RenderCommitState" where
  "commit_step s (AcceptCommit src c) = fst (RenderCommitState_accept_commit s src c)"
| "commit_step s (AcceptPresented src p) = fst (RenderCommitState_accept_presented s src p)"
| "commit_step s (ConsumeScroll src c) = fst (RenderCommitState_consume_scroll_command s src c)"
| "commit_step s (ConsumeAction src t) = fst (RenderCommitState_consume_semantic_action s src t)"

definition released_effects :: "RenderHandleRelease list render_result \<Rightarrow> commit_effect list" where
  "released_effects r = (case r of Ok rs \<Rightarrow> map Released rs | Err e \<Rightarrow> [])"

primrec commit_effects :: "RenderCommitState \<Rightarrow> commit_event \<Rightarrow> commit_effect list" where
  "commit_effects s (AcceptCommit src c) =
     (let r = snd (RenderCommitState_accept_commit s src c)
      in (if is_ok r then [Accepted c] else []) @ released_effects r)"
| "commit_effects s (AcceptPresented src p) =
     released_effects (snd (RenderCommitState_accept_presented s src p))"
| "commit_effects s (ConsumeScroll src c) =
     (if is_ok (snd (RenderCommitState_consume_scroll_command s src c))
      then [Scrolled (sc_displayed_commit_id c) (sc_command_id c)] else [])"
| "commit_effects s (ConsumeAction src t) =
     (if is_ok (snd (RenderCommitState_consume_semantic_action s src t))
      then [Acted (sa_displayed_commit_id t) (sa_request_id t)] else [])"

definition commit_run :: "RenderCommitState \<Rightarrow> commit_event list \<Rightarrow> RenderCommitState" where
  "commit_run s es = foldl commit_step s es"

primrec commit_log :: "RenderCommitState \<Rightarrow> commit_event list \<Rightarrow> commit_effect list" where
  "commit_log s [] = []"
| "commit_log s (e # es) = commit_effects s e @ commit_log (commit_step s e) es"

primrec accepted_in :: "commit_effect list \<Rightarrow> RenderCommit list" where
  "accepted_in [] = []"
| "accepted_in (f # fs) = (case f of Accepted c \<Rightarrow> [c] | _ \<Rightarrow> []) @ accepted_in fs"

primrec released_in :: "commit_effect list \<Rightarrow> RenderHandleRelease list" where
  "released_in [] = []"
| "released_in (f # fs) = (case f of Released r \<Rightarrow> [r] | _ \<Rightarrow> []) @ released_in fs"

primrec scrolled_in :: "commit_effect list \<Rightarrow> (RenderCommitId \<times> RenderScrollCommandId) list" where
  "scrolled_in [] = []"
| "scrolled_in (f # fs) = (case f of Scrolled c k \<Rightarrow> [(c, k)] | _ \<Rightarrow> []) @ scrolled_in fs"

primrec acted_in :: "commit_effect list \<Rightarrow> (RenderCommitId \<times> SemanticActionRequestId) list" where
  "acted_in [] = []"
| "acted_in (f # fs) = (case f of Acted c k \<Rightarrow> [(c, k)] | _ \<Rightarrow> []) @ acted_in fs"

text \<open>The handles the renderer has to keep: those of the accepted and of the presented commit.\<close>

definition live_handles :: "RenderCommitState \<Rightarrow> RenderHandleRelease list" where
  "live_handles s = push_unique_release (push_unique_release [] (accepted s)) (presented s)"

definition commit_document :: "RenderCommit \<Rightarrow> BrowsingContextId \<times> DocumentId" where
  "commit_document c =
     (rev_context_id (commit_revision c), rev_document_id (commit_revision c))"

text \<open>A run within the life of one document only accepts commits of that document.\<close>

primrec in_document :: "BrowsingContextId \<times> DocumentId \<Rightarrow> commit_event \<Rightarrow> bool" where
  "in_document d (AcceptCommit src c) \<longleftrightarrow> commit_document c = d"
| "in_document d (AcceptPresented src p) \<longleftrightarrow> True"
| "in_document d (ConsumeScroll src c) \<longleftrightarrow> True"
| "in_document d (ConsumeAction src t) \<longleftrightarrow> True"

definition commit_inv :: "RenderCommitState \<Rightarrow> bool" where
  "commit_inv s \<longleftrightarrow>
     (case presented s of
        None \<Rightarrow> seen_scroll_commands s = {||} \<and> seen_semantic_actions s = {||}
      | Some p \<Rightarrow> (case accepted s of
          None \<Rightarrow> False
        | Some a \<Rightarrow> commit_document p = commit_document a \<and> commit_id p \<le> commit_id a
            \<and> (commit_id p = commit_id a \<longrightarrow> p = a)))
     \<and> fcard (seen_scroll_commands s) \<le> RENDER_MAX_SEEN_SCROLL_COMMANDS
     \<and> fcard (seen_semantic_actions s) \<le> RENDER_MAX_SEEN_SEMANTIC_ACTIONS"

inductive commit_reachable :: "RenderCommitState \<Rightarrow> bool" where
  start: "commit_reachable RenderCommitState_default"
| step: "commit_reachable s \<Longrightarrow> commit_reachable (commit_step s e)"

section \<open>When each operation succeeds\<close>

lemma replacing_document_iff:
  "replacing_document s c \<longleftrightarrow> (\<exists>a. accepted s = Some a \<and> commit_document a \<noteq> commit_document c)"
  by (auto simp: replacing_document_def commit_document_def split: option.splits)

lemma validate_identity_Ok [result_simps]:
  "validate_identity c ctx doc cid r x = Ok u \<longleftrightarrow>
     (ctx, doc) = commit_document c \<and> cid = commit_id c \<and> r = commit_revision c"
  by (auto simp: validate_identity_def commit_document_def)

lemma validate_current_source_Ok [result_simps]:
  "validate_current_source src c x = Ok u \<longleftrightarrow> rep_revision src = Some (commit_revision c)"
  by (auto simp: validate_current_source_def)

lemma require_Ok [result_simps]:
  "require_accepted s = Ok c \<longleftrightarrow> accepted s = Some c"
  "require_presented s = Ok c \<longleftrightarrow> presented s = Some c"
  by (simp_all add: require_accepted_def require_presented_def result_simps)

text \<open>An operation that fails leaves the state as it was.\<close>

lemma accept_commit_Err:
  "snd (RenderCommitState_accept_commit s src c) = Err e \<Longrightarrow>
     fst (RenderCommitState_accept_commit s src c) = s"
  by (cases "RenderCommit_validate c src")
     (auto simp: RenderCommitState_accept_commit_def split: if_splits)

lemma accept_presented_Err:
  assumes "snd (RenderCommitState_accept_presented s src p) = Err e"
  shows "fst (RenderCommitState_accept_presented s src p) = s"
proof (cases "RenderCommitState_accept_presented s src p")
  case (Pair s' r)
  with assms have "RenderCommitState_accept_presented s src p = (s', Err e)" by simp
  then have "s' = s"
    unfolding RenderCommitState_accept_presented_def
    by (auto simp: try_in_eq_Err split: if_splits)
  with Pair show ?thesis by simp
qed

lemma consume_scroll_Err:
  assumes "snd (RenderCommitState_consume_scroll_command s src c) = Err e"
  shows "fst (RenderCommitState_consume_scroll_command s src c) = s"
proof (cases "RenderCommitState_consume_scroll_command s src c")
  case (Pair s' r)
  with assms have "RenderCommitState_consume_scroll_command s src c = (s', Err e)" by simp
  then have "s' = s"
    unfolding RenderCommitState_consume_scroll_command_def
    by (auto simp: try_in_eq_Err split: if_splits)
  with Pair show ?thesis by simp
qed

lemma consume_action_Err:
  assumes "snd (RenderCommitState_consume_semantic_action s src t) = Err e"
  shows "fst (RenderCommitState_consume_semantic_action s src t) = s"
proof (cases "RenderCommitState_consume_semantic_action s src t")
  case (Pair s' r)
  with assms have "RenderCommitState_consume_semantic_action s src t = (s', Err e)" by simp
  then have "s' = s"
    unfolding RenderCommitState_consume_semantic_action_def
    by (auto simp: try_in_eq_Err split: if_splits)
  with Pair show ?thesis by simp
qed

lemma accept_commit_Ok:
  "RenderCommitState_accept_commit s src c = (s', Ok rs) \<longleftrightarrow>
     wf_commit src c
     \<and> (\<forall>a. accepted s = Some a \<longrightarrow> commit_document a = commit_document c \<longrightarrow>
          commit_id a < commit_id c)
     \<and> (if replacing_document s c
        then s' = \<lparr>accepted = Some c, presented = None, seen_scroll_commands = {||},
               seen_semantic_actions = {||}\<rparr> \<and> rs = live_handles s
        else s' = s\<lparr>accepted := Some c\<rparr>
          \<and> rs = (case accepted s of None \<Rightarrow> []
                | Some a \<Rightarrow> if map_option commit_id (presented s) = Some (commit_id a) then []
                    else [release_of a]))"
  unfolding RenderCommitState_accept_commit_def try_in_eq_Ok RenderCommit_validate_iff
  by (cases "accepted s"; cases "presented s")
     (auto simp: replacing_document_iff live_handles_def push_unique_release_def
       less_ident_iff not_le split: if_splits)

lemma accept_presented_Ok:
  "RenderCommitState_accept_presented s src p = (s', Ok rs) \<longleftrightarrow>
     (\<exists>a. accepted s = Some a \<and> pres_version p = RENDER_PROTOCOL_VERSION
       \<and> (pres_context_id p, pres_document_id p) = commit_document a
       \<and> pres_commit_id p = commit_id a \<and> pres_revision p = commit_revision a
       \<and> rep_revision src = Some (commit_revision a)
       \<and> (if map_option commit_id (presented s) = Some (commit_id a) then s' = s \<and> rs = []
          else s' = s\<lparr>presented := Some a, seen_scroll_commands := {||},
                     seen_semantic_actions := {||}\<rparr>
             \<and> rs = (case presented s of None \<Rightarrow> [] | Some q \<Rightarrow> [release_of q])))"
  unfolding RenderCommitState_accept_presented_def
  by (cases "presented s")
     (auto simp: try_in_eq_Ok result_simps push_unique_release_def split: if_splits)

definition scroll_kind_ok :: "RenderScrollCommandKind \<Rightarrow> bool" where
  "scroll_kind_ok k \<longleftrightarrow>
     (case k of
        ScrollBy delta \<Rightarrow> point_ok delta
      | ScrollTo q \<Rightarrow> point_ok q \<and> f64_le f64_zero (pt_x q) \<and> f64_le f64_zero (pt_y q)
      | ScrollRestore q \<Rightarrow> point_ok q \<and> f64_le f64_zero (pt_x q) \<and> f64_le f64_zero (pt_y q))"

lemma validate_scroll_command_kind_Ok [result_simps]:
  "validate_scroll_command_kind k = Ok u \<longleftrightarrow> scroll_kind_ok k"
  by (cases k)
     (auto simp: validate_scroll_command_kind_def scroll_kind_ok_def result_simps point_ok_def
       f64_le_iff_not_lt)

lemma consume_scroll_Ok:
  "RenderCommitState_consume_scroll_command s src c = (s', Ok u) \<longleftrightarrow>
     (\<exists>p. presented s = Some p \<and> sc_version c = RENDER_PROTOCOL_VERSION
       \<and> (sc_context_id c, sc_document_id c) = commit_document p
       \<and> sc_displayed_commit_id c = commit_id p \<and> sc_revision c = commit_revision p
       \<and> rep_revision src = Some (commit_revision p)
       \<and> sc_scroll_node_id c \<in> ss_scroll_node_id ` set (commit_scroll_snapshot p)
       \<and> scroll_kind_ok (sc_kind c)
       \<and> sc_command_id c |\<notin>| seen_scroll_commands s
       \<and> fcard (seen_scroll_commands s) < RENDER_MAX_SEEN_SCROLL_COMMANDS
       \<and> s' = s\<lparr>seen_scroll_commands :=
                  finsert (sc_command_id c) (seen_scroll_commands s)\<rparr>)"
proof -
  have ite: "(if b then (s, Err e) else p) = (s', Ok u) \<longleftrightarrow> \<not> b \<and> p = (s', Ok u)"
    for b e and p :: "RenderCommitState \<times> unit render_result" by simp
  show ?thesis
    unfolding RenderCommitState_consume_scroll_command_def
    by (simp only: try_in_eq_Ok ite result_simps list_ex_eq_image) auto
qed

definition selection_ok :: "RenderReplica \<Rightarrow> RenderSemanticActionTarget \<Rightarrow> bool" where
  "selection_ok src t \<longleftrightarrow>
     (case sa_action t of
        SetValue v \<Rightarrow> length v \<le> RENDER_MAX_SEMANTIC_VALUE_BYTES
      | SetSelection b e \<Rightarrow>
          (let n = (case RenderReplica_semantic_value_utf16_len src (sa_semantic_node_id t) of
                      None \<Rightarrow> 0 | Some n \<Rightarrow> n)
           in unat b \<le> n \<and> unat e \<le> n)
      | _ \<Rightarrow> True)"

lemma consume_action_Ok:
  "RenderCommitState_consume_semantic_action s src t = (s', Ok u) \<longleftrightarrow>
     (\<exists>p m. presented s = Some p \<and> sa_version t = RENDER_PROTOCOL_VERSION
       \<and> (sa_context_id t, sa_document_id t) = commit_document p
       \<and> sa_displayed_commit_id t = commit_id p \<and> sa_revision t = commit_revision p
       \<and> rep_revision src = Some (commit_revision p)
       \<and> RenderReplica_semantic_node src (sa_semantic_node_id t) = Some m
       \<and> sa_semantic_node_id t \<in> sb_semantic_node_id ` set (commit_semantic_bounds p)
       \<and> sa_action_generation t = sem_action_generation m
       \<and> RenderSemanticAction_kind (sa_action t) \<in> set (sem_actions m)
       \<and> selection_ok src t
       \<and> sa_request_id t |\<notin>| seen_semantic_actions s
       \<and> fcard (seen_semantic_actions s) < RENDER_MAX_SEEN_SEMANTIC_ACTIONS
       \<and> s' = s\<lparr>seen_semantic_actions :=
                  finsert (sa_request_id t) (seen_semantic_actions s)\<rparr>)"
proof -
  have ite: "(if b then (s, Err e) else p) = (s', Ok u) \<longleftrightarrow> \<not> b \<and> p = (s', Ok u)"
    for b e and p :: "RenderCommitState \<times> unit render_result" by simp
  show ?thesis
    unfolding RenderCommitState_consume_semantic_action_def RenderSemanticAction_validate_def
    by (cases "sa_action t")
       (simp_all only: try_in_eq_Ok ite result_simps selection_ok_def list_ex_eq_image
         RenderSemanticAction.case Let_def,
        auto simp: result_simps not_less)
qed

lemmas commit_op_Err = accept_commit_Err accept_presented_Err consume_scroll_Err consume_action_Err

lemma commit_step_cases:
  obtains (unchanged) "commit_step s e = s" "commit_effects s e = []"
  | (accept) src c rs where "e = AcceptCommit src c"
      "RenderCommitState_accept_commit s src c = (commit_step s e, Ok rs)"
      "commit_effects s e = Accepted c # map Released rs"
  | (present) src p rs where "e = AcceptPresented src p"
      "RenderCommitState_accept_presented s src p = (commit_step s e, Ok rs)"
      "commit_effects s e = map Released rs"
  | (scroll) src c where "e = ConsumeScroll src c"
      "RenderCommitState_consume_scroll_command s src c = (commit_step s e, Ok ())"
      "commit_effects s e = [Scrolled (sc_displayed_commit_id c) (sc_command_id c)]"
  | (act) src t where "e = ConsumeAction src t"
      "RenderCommitState_consume_semantic_action s src t = (commit_step s e, Ok ())"
      "commit_effects s e = [Acted (sa_displayed_commit_id t) (sa_request_id t)]"
proof (cases e)
  case (AcceptCommit src c)
  then show ?thesis using accept_commit_Err [of s src c] unchanged accept
    by (cases "RenderCommitState_accept_commit s src c"; cases "snd (RenderCommitState_accept_commit s src c)")
       (auto simp: released_effects_def)
next
  case (AcceptPresented src p)
  then show ?thesis using accept_presented_Err [of s src p] unchanged present
    by (cases "RenderCommitState_accept_presented s src p"; cases "snd (RenderCommitState_accept_presented s src p)")
       (auto simp: released_effects_def)
next
  case (ConsumeScroll src c)
  then show ?thesis using consume_scroll_Err [of s src c] unchanged scroll
    by (cases "RenderCommitState_consume_scroll_command s src c"; cases "snd (RenderCommitState_consume_scroll_command s src c)")
       auto
next
  case (ConsumeAction src t)
  then show ?thesis using consume_action_Err [of s src t] unchanged act
    by (cases "RenderCommitState_consume_semantic_action s src t"; cases "snd (RenderCommitState_consume_semantic_action s src t)")
       auto
qed

declare commit_step.simps [simp del] commit_effects.simps [simp del]

section \<open>The invariant\<close>

lemma fcard_fempty [simp]: "fcard {||} = 0"
  by (simp add: fcard.rep_eq)

lemma commit_inv_default: "commit_inv RenderCommitState_default"
  by (simp add: commit_inv_def RenderCommitState_default_def size_limits)

lemma commit_step_inv:
  assumes inv: "commit_inv s"
  shows "commit_inv (commit_step s e)"
proof (cases s e rule: commit_step_cases)
  case unchanged
  with inv show ?thesis by simp
next
  case (accept src c rs)
  with inv show ?thesis
    by (auto simp: accept_commit_Ok commit_inv_def replacing_document_iff
        split: option.splits if_splits)
next
  case (present src p rs)
  with inv show ?thesis
    by (auto simp: accept_presented_Ok commit_inv_def split: option.splits if_splits)
next
  case (scroll src c)
  with inv show ?thesis
    by (auto simp: consume_scroll_Ok commit_inv_def fcard_finsert_disjoint split: option.splits)
next
  case (act src t)
  with inv show ?thesis
    by (auto simp: consume_action_Ok commit_inv_def fcard_finsert_disjoint split: option.splits)
qed

lemma reachable_commit_inv: "commit_reachable s \<Longrightarrow> commit_inv s"
  by (induction rule: commit_reachable.induct) (simp_all add: commit_inv_default commit_step_inv)

section \<open>Conservation of handles\<close>

lemma released_in_map [simp]: "released_in (map Released rs) = rs" "accepted_in (map Released rs) = []"
  "scrolled_in (map Released rs) = []" "acted_in (map Released rs) = []"
  by (induction rs) simp_all

lemma effects_append [simp]:
  "accepted_in (fs @ gs) = accepted_in fs @ accepted_in gs"
  "released_in (fs @ gs) = released_in fs @ released_in gs"
  "scrolled_in (fs @ gs) = scrolled_in fs @ scrolled_in gs"
  "acted_in (fs @ gs) = acted_in fs @ acted_in gs"
  by (induction fs) simp_all

lemma live_handles_simps:
  "live_handles s =
     (case accepted s of None \<Rightarrow> [] | Some a \<Rightarrow> [release_of a]) @
     (case presented s of None \<Rightarrow> []
      | Some p \<Rightarrow> if map_option commit_id (accepted s) = Some (commit_id p) then [] else [release_of p])"
  by (auto simp: live_handles_def push_unique_release_def release_of_def split: option.splits)

lemma commit_step_conserves:
  assumes inv: "commit_inv s"
  shows "mset (map release_of (accepted_in (commit_effects s e))) + mset (live_handles s) =
    mset (released_in (commit_effects s e)) + mset (live_handles (commit_step s e))"
proof (cases s e rule: commit_step_cases)
  case (accept src c rs)
  with inv show ?thesis
    by (auto simp: accept_commit_Ok commit_inv_def live_handles_simps replacing_document_iff
        split: option.splits if_splits)
next
  case (present src p rs)
  with inv show ?thesis
    by (auto simp: accept_presented_Ok commit_inv_def live_handles_simps
        split: option.splits if_splits)
qed (auto simp: consume_scroll_Ok consume_action_Ok live_handles_simps)

lemma commit_run_simps [simp]:
  "commit_run s [] = s" "commit_run s (e # es) = commit_run (commit_step s e) es"
  by (simp_all add: commit_run_def)

lemma conservation_trans:
  fixes a :: "'a multiset"
  assumes "a + l = r + l'" and "a' + l' = r' + l''"
  shows "(a + a') + l = (r + r') + l''"
proof -
  have "(a + a') + l = a' + (a + l)" by (simp add: ac_simps)
  also have "\<dots> = r + (a' + l')" using assms(1) by (simp add: ac_simps)
  also have "\<dots> = (r + r') + l''" using assms(2) by (simp add: ac_simps)
  finally show ?thesis .
qed

lemma commit_run_conserves:
  "commit_inv s \<Longrightarrow>
     mset (map release_of (accepted_in (commit_log s es))) + mset (live_handles s) =
     mset (released_in (commit_log s es)) + mset (live_handles (commit_run s es))"
proof (induction es arbitrary: s)
  case Nil
  then show ?case by simp
next
  case (Cons e es)
  from conservation_trans [OF commit_step_conserves [OF Cons.prems, of e]
      Cons.IH [OF commit_step_inv [OF Cons.prems]]]
  show ?case by simp
qed

section \<open>Commit identifiers grow within a document\<close>

definition within :: "BrowsingContextId \<times> DocumentId \<Rightarrow> RenderCommitState \<Rightarrow> bool" where
  "within d s \<longleftrightarrow> commit_inv s \<and> (\<forall>a. accepted s = Some a \<longrightarrow> commit_document a = d)"

lemma within_step: "within d s \<Longrightarrow> in_document d e \<Longrightarrow> within d (commit_step s e)"
proof (cases s e rule: commit_step_cases)
  case (accept src c rs)
  assume "within d s" "in_document d e"
  with accept commit_step_inv [of s e] show ?thesis
    by (auto simp: within_def accept_commit_Ok replacing_document_iff split: if_splits)
next
  case (present src p rs)
  assume "within d s" "in_document d e"
  with present commit_step_inv [of s e] show ?thesis
    by (auto simp: within_def accept_presented_Ok split: if_splits)
qed (auto simp: within_def commit_step_inv consume_scroll_Ok consume_action_Ok
    dest: commit_step_inv [of s e])

lemma accepted_ids_grow:
  "within d s \<Longrightarrow> \<forall>e\<in>set es. in_document d e \<Longrightarrow>
     sorted_wrt (<) (map commit_id (accepted_in (commit_log s es)))
     \<and> (\<forall>a\<in>set_option (accepted s). \<forall>c\<in>set (accepted_in (commit_log s es)).
          commit_id a < commit_id c)"
proof (induction es arbitrary: s)
  case Nil
  then show ?case by simp
next
  case (Cons e es)
  note IH = Cons.IH [OF within_step [OF Cons.prems(1)]]
  show ?case
  proof (cases s e rule: commit_step_cases)
    case (accept src c rs)
    with Cons.prems have "accepted (commit_step s e) = Some c"
      "\<forall>a\<in>set_option (accepted s). commit_id a < commit_id c"
      by (auto simp: within_def accept_commit_Ok replacing_document_iff split: if_splits)
    moreover have "\<forall>c'\<in>set (accepted_in (commit_log (commit_step s e) es)). commit_id c < commit_id c'"
      using IH [of e] Cons.prems(2) calculation(1) by auto
    ultimately show ?thesis using accept IH [of e] Cons.prems(2) by (auto dest: order.strict_trans)
  next
    case (present src p rs)
    then have "accepted (commit_step s e) = accepted s"
      by (auto simp: accept_presented_Ok split: if_splits)
    with present IH [of e] Cons.prems(2) show ?thesis by auto
  qed (use IH [of e] Cons.prems(2) in \<open>auto simp: consume_scroll_Ok consume_action_Ok\<close>)
qed

section \<open>Replay protection\<close>

text \<open>
  What a state with a replay ledger promises: something is executed only against what is
  shown and only when its key is not in the ledger, which then receives it; and the ledger
  is only reset when something later is shown.
\<close>

locale replay_guard =
  fixes step :: "'s \<Rightarrow> 'e \<Rightarrow> 's"
    and inv :: "'s \<Rightarrow> bool"
    and legal :: "'e \<Rightarrow> bool"
    and shown :: "'s \<Rightarrow> 'c::linorder option"
    and ledger :: "'s \<Rightarrow> 'k fset"
    and executed :: "'s \<Rightarrow> 'e \<Rightarrow> ('c \<times> 'k) list"
  assumes inv_step: "inv s \<Longrightarrow> legal e \<Longrightarrow> inv (step s e)"
    and executes: "inv s \<Longrightarrow> legal e \<Longrightarrow> executed s e \<noteq> [] \<Longrightarrow>
      \<exists>c k. executed s e = [(c, k)] \<and> shown s = Some c \<and> k |\<notin>| ledger s
        \<and> shown (step s e) = Some c \<and> ledger (step s e) = finsert k (ledger s)"
    and quiet: "inv s \<Longrightarrow> legal e \<Longrightarrow> executed s e = [] \<Longrightarrow>
      (shown (step s e) = shown s \<and> ledger (step s e) = ledger s)
      \<or> (\<exists>c. shown (step s e) = Some c \<and> (\<forall>b. shown s = Some b \<longrightarrow> b < c))"
begin

lemma executed_once:
  assumes "inv s" and "\<forall>e\<in>set es. legal e"
  shows "distinct (run_out step executed s es)
    \<and> (\<forall>(c, k)\<in>set (run_out step executed s es). \<forall>b. shown s = Some b \<longrightarrow>
         b < c \<or> b = c \<and> k |\<notin>| ledger s)"
  using assms
proof (induction es arbitrary: s)
  case Nil
  then show ?case by simp
next
  case (Cons e es)
  have e: "legal e" and es: "\<forall>e\<in>set es. legal e" using Cons.prems(2) by auto
  note IH = Cons.IH [OF inv_step [OF Cons.prems(1) e] es]
  show ?case
  proof (cases "executed s e = []")
    case True
    from quiet [OF Cons.prems(1) e True] IH True show ?thesis
      by (auto dest: order.strict_trans split: prod.splits) fastforce+
  next
    case False
    from executes [OF Cons.prems(1) e False] obtain c k where ck: "executed s e = [(c, k)]"
      "shown s = Some c" "k |\<notin>| ledger s" "shown (step s e) = Some c"
      "ledger (step s e) = finsert k (ledger s)" by blast
    with IH show ?thesis by auto
  qed
qed

end

lemma scrolled_log:
  "scrolled_in (commit_log s es) = run_out commit_step (\<lambda>s e. scrolled_in (commit_effects s e)) s es"
  by (induction es arbitrary: s) simp_all

lemma acted_log:
  "acted_in (commit_log s es) = run_out commit_step (\<lambda>s e. acted_in (commit_effects s e)) s es"
  by (induction es arbitrary: s) simp_all

interpretation scrolls: replay_guard commit_step "within d" "in_document d" presented_commit_id
  seen_scroll_commands "\<lambda>s e. scrolled_in (commit_effects s e)" for d
proof
  fix s e
  assume s: "within d s" and e: "in_document d e"
  show "within d (commit_step s e)" using s e by (rule within_step)
  show "\<exists>c k. scrolled_in (commit_effects s e) = [(c, k)] \<and> presented_commit_id s = Some c
      \<and> k |\<notin>| seen_scroll_commands s \<and> presented_commit_id (commit_step s e) = Some c
      \<and> seen_scroll_commands (commit_step s e) = finsert k (seen_scroll_commands s)"
    if "scrolled_in (commit_effects s e) \<noteq> []"
    using that
    by (cases s e rule: commit_step_cases) (auto simp: consume_scroll_Ok presented_commit_id_def)
  show "(presented_commit_id (commit_step s e) = presented_commit_id s
        \<and> seen_scroll_commands (commit_step s e) = seen_scroll_commands s)
      \<or> (\<exists>c. presented_commit_id (commit_step s e) = Some c
        \<and> (\<forall>b. presented_commit_id s = Some b \<longrightarrow> b < c))"
    if "scrolled_in (commit_effects s e) = []"
    using that s e
    by (cases s e rule: commit_step_cases)
       (auto simp: accept_commit_Ok accept_presented_Ok consume_action_Ok presented_commit_id_def
         within_def commit_inv_def replacing_document_iff split: if_splits option.splits)
qed

interpretation actions: replay_guard commit_step "within d" "in_document d" presented_commit_id
  seen_semantic_actions "\<lambda>s e. acted_in (commit_effects s e)" for d
proof
  fix s e
  assume s: "within d s" and e: "in_document d e"
  show "within d (commit_step s e)" using s e by (rule within_step)
  show "\<exists>c k. acted_in (commit_effects s e) = [(c, k)] \<and> presented_commit_id s = Some c
      \<and> k |\<notin>| seen_semantic_actions s \<and> presented_commit_id (commit_step s e) = Some c
      \<and> seen_semantic_actions (commit_step s e) = finsert k (seen_semantic_actions s)"
    if "acted_in (commit_effects s e) \<noteq> []"
    using that
    by (cases s e rule: commit_step_cases) (auto simp: consume_action_Ok presented_commit_id_def)
  show "(presented_commit_id (commit_step s e) = presented_commit_id s
        \<and> seen_semantic_actions (commit_step s e) = seen_semantic_actions s)
      \<or> (\<exists>c. presented_commit_id (commit_step s e) = Some c
        \<and> (\<forall>b. presented_commit_id s = Some b \<longrightarrow> b < c))"
    if "acted_in (commit_effects s e) = []"
    using that s e
    by (cases s e rule: commit_step_cases)
       (auto simp: accept_commit_Ok accept_presented_Ok consume_scroll_Ok presented_commit_id_def
         within_def commit_inv_def replacing_document_iff split: if_splits option.splits)
qed

lemma within_default: "within d RenderCommitState_default"
  by (simp add: within_def commit_inv_default) (simp add: RenderCommitState_default_def)

end
