(* ===== verification/Commit_Queries.thy ===== *)
theory Commit_Queries
  imports Commit_Protocol
begin

section \<open>Hit tests, input targets and text queries\<close>

text \<open>
  Exactly which queries and answers \<open>RenderCommitState\<close> lets through: hit tests and input
  targets only against the presented commit, text queries only against the accepted one, and
  a text answer only when it answers every query of its request once, with the right kind of
  value.
\<close>

definition hit_test_ok :: "RenderCommitState \<Rightarrow> RenderReplica \<Rightarrow> RenderHitTestQuery \<Rightarrow> bool" where
  "hit_test_ok s src q \<longleftrightarrow>
     (\<exists>p. presented s = Some p \<and> hq_version q = RENDER_PROTOCOL_VERSION
       \<and> (hq_context_id q, hq_document_id q) = commit_document p
       \<and> hq_displayed_commit_id q = commit_id p \<and> hq_revision q = commit_revision p
       \<and> rep_revision src = Some (commit_revision p)
       \<and> hq_handle q = commit_hit_test_handle p \<and> point_ok (hq_point q))"

definition text_query_ok :: "RenderReplica \<Rightarrow> RenderTextQuery \<Rightarrow> bool" where
  "text_query_ok src q \<longleftrightarrow>
     (case RenderReplica_node_text_utf16_len src (tq_node_id q) of
        None \<Rightarrow> False
      | Some n \<Rightarrow> (case tq_kind q of
            OffsetForPoint point \<Rightarrow> point_ok point
          | CaretForOffset k _ \<Rightarrow> unat k \<le> n
          | RangeBoxes b e \<Rightarrow> b \<le> e \<and> unat e \<le> n))"

definition text_answer_ok ::
    "RenderReplica \<Rightarrow> RenderNodeId \<Rightarrow> RenderTextQueryKind \<Rightarrow> RenderTextQueryValue \<Rightarrow> bool" where
  "text_answer_ok src n k v \<longleftrightarrow>
     (case (k, v) of
        (OffsetForPoint _, OffsetValue i _) \<Rightarrow>
          unat i \<le> (case RenderReplica_node_text_utf16_len src n of None \<Rightarrow> 0 | Some m \<Rightarrow> m)
      | (CaretForOffset _ _, CaretValue rect _) \<Rightarrow> rect_ok rect
      | (RangeBoxes _ _, RangeBoxesValue boxes) \<Rightarrow> (\<forall>b\<in>set boxes. rect_ok (box_rect b))
      | _ \<Rightarrow> False)"

definition answer_boxes :: "RenderTextQueryResult \<Rightarrow> nat" where
  "answer_boxes r = (case qr_value r of RangeBoxesValue boxes \<Rightarrow> length boxes | _ \<Rightarrow> 0)"

lemma validate_hit_test_query_Ok:
  "RenderCommitState_validate_hit_test_query s src q = Ok u \<longleftrightarrow> hit_test_ok s src q"
  unfolding RenderCommitState_validate_hit_test_query_def hit_test_ok_def
  by (simp only: result_simps) auto

lemma validate_input_target_Ok:
  "RenderCommitState_validate_input_target s src q t = Ok u \<longleftrightarrow>
     hit_test_ok s src q
     \<and> (\<exists>p. presented s = Some p \<and> it_version t = RENDER_PROTOCOL_VERSION
       \<and> (it_context_id t, it_document_id t) = commit_document p
       \<and> it_displayed_commit_id t = commit_id p \<and> it_revision t = commit_revision p
       \<and> it_query_id t = hq_query_id q \<and> RenderPoint_eq (it_viewport_point t) (hq_point q)
       \<and> it_handle t = commit_hit_test_handle p
       \<and> point_ok (it_viewport_point t) \<and> point_ok (it_local_point t)
       \<and> (\<exists>g\<in>set (commit_geometry_index p).
            geo_node_id g = it_node_id t \<and> geo_fragment_id g = it_fragment_id t))"
proof -
  have nested: "(if b then Err e else if b' then Err e' else r) = Ok u \<longleftrightarrow> \<not> b \<and> \<not> b' \<and> r = Ok u"
    for b b' e e' and r :: "unit render_result" by simp
  show ?thesis
    unfolding RenderCommitState_validate_input_target_def
    by (simp only: and_then_eq_Ok validate_hit_test_query_Ok nested result_simps list_ex_iff)
       (auto simp: hit_test_ok_def)
qed

subsection \<open>Text queries\<close>

lemma validate_one_text_query_Ok [result_simps]:
  "validate_one_text_query src ids q = Ok ids' \<longleftrightarrow>
     tq_query_id q \<notin> ids \<and> text_query_ok src q \<and> ids' = insert (tq_query_id q) ids"
  by (cases "tq_kind q"; cases "RenderReplica_node_text_utf16_len src (tq_node_id q)")
     (auto simp: validate_one_text_query_def text_query_ok_def result_simps not_less)

lemma validate_text_queries_Ok:
  "try_fold (validate_one_text_query src) ids qs = Ok ids' \<longleftrightarrow>
     (\<forall>q\<in>set qs. text_query_ok src q) \<and> distinct (map tq_query_id qs)
     \<and> set (map tq_query_id qs) \<inter> ids = {} \<and> ids' = set (map tq_query_id qs) \<union> ids"
  by (induction qs arbitrary: ids) (auto simp: result_simps)

lemma validate_text_query_Ok:
  "RenderCommitState_validate_text_query s src b = Ok u \<longleftrightarrow>
     (\<exists>a. accepted s = Some a \<and> tb_version b = RENDER_PROTOCOL_VERSION
       \<and> (tb_context_id b, tb_document_id b) = commit_document a
       \<and> tb_commit_id b = commit_id a \<and> tb_revision b = commit_revision a
       \<and> rep_revision src = Some (commit_revision a)
       \<and> tb_handle b = commit_text_query_handle a
       \<and> length (tb_queries b) \<le> RENDER_MAX_TEXT_QUERIES
       \<and> (\<forall>q\<in>set (tb_queries b). text_query_ok src q)
       \<and> distinct (map tq_query_id (tb_queries b)))"
  unfolding RenderCommitState_validate_text_query_def
  by (simp only: result_simps validate_text_queries_Ok not_less) auto

subsection \<open>Text query results\<close>

lemma validate_one_text_result_Ok [result_simps]:
  "validate_one_text_result src expected (seen, n) r = Ok st \<longleftrightarrow>
     qr_query_id r \<notin> seen
     \<and> (\<exists>m k. bt_get expected (qr_query_id r) = Some (m, k) \<and> text_answer_ok src m k (qr_value r))
     \<and> st = (insert (qr_query_id r) seen, n + answer_boxes r)
     \<and> (answer_boxes r = 0 \<or> snd st \<le> RENDER_MAX_TEXT_BOXES)"
  if "n \<le> RENDER_MAX_TEXT_BOXES"
proof (cases "bt_get expected (qr_query_id r)")
  case (Some e)
  obtain m k where e: "e = (m, k)" by (cases e)
  from that show ?thesis
    unfolding validate_one_text_result.simps Some e
    by (cases k; cases "qr_value r")
       (auto simp: text_answer_ok_def answer_boxes_def result_simps usize_max_def size_limits)
qed (auto simp: result_simps)

lemma validate_text_results_Ok:
  "n \<le> RENDER_MAX_TEXT_BOXES \<Longrightarrow>
   try_fold (validate_one_text_result src expected) (seen, n) rs = Ok st \<longleftrightarrow>
     distinct (map qr_query_id rs) \<and> set (map qr_query_id rs) \<inter> seen = {}
     \<and> (\<forall>r\<in>set rs. \<exists>m k. bt_get expected (qr_query_id r) = Some (m, k)
          \<and> text_answer_ok src m k (qr_value r))
     \<and> st = (set (map qr_query_id rs) \<union> seen, n + sum_list (map answer_boxes rs))
     \<and> snd st \<le> RENDER_MAX_TEXT_BOXES"
proof (induction rs arbitrary: seen n)
  case Nil
  then show ?case by auto
next
  case (Cons r rs)
  have step: "try_fold (validate_one_text_result src expected) (seen, n) (r # rs) = Ok st \<longleftrightarrow>
      qr_query_id r \<notin> seen
      \<and> (\<exists>m k. bt_get expected (qr_query_id r) = Some (m, k) \<and> text_answer_ok src m k (qr_value r))
      \<and> n + answer_boxes r \<le> RENDER_MAX_TEXT_BOXES
      \<and> try_fold (validate_one_text_result src expected)
          (insert (qr_query_id r) seen, n + answer_boxes r) rs = Ok st"
    using Cons.prems
    by (simp only: try_fold.simps and_then_eq_Ok validate_one_text_result_Ok [OF Cons.prems]) auto
  show ?case
  proof (cases "n + answer_boxes r \<le> RENDER_MAX_TEXT_BOXES")
    case True
    show ?thesis unfolding step Cons.IH [OF True] using True by (auto simp: add.assoc)
  qed (unfold step, auto)
qed

lemma mset_eq_iff_covered:
  assumes "distinct ys"
  shows "mset xs = mset ys \<longleftrightarrow> length xs = length ys \<and> distinct xs \<and> set xs \<subseteq> set ys"
proof
  assume "mset xs = mset ys"
  with assms show "length xs = length ys \<and> distinct xs \<and> set xs \<subseteq> set ys"
    using mset_eq_imp_distinct_iff mset_eq_length mset_eq_setD by blast
next
  assume *: "length xs = length ys \<and> distinct xs \<and> set xs \<subseteq> set ys"
  with assms have "card (set xs) = card (set ys)" by (simp add: distinct_card)
  with * have "set xs = set ys" by (simp add: card_subset_eq)
  with * assms show "mset xs = mset ys" by (simp add: set_eq_iff_mset_eq_distinct)
qed

definition expected_answers ::
    "RenderTextQueryBatch \<Rightarrow> (RenderQueryId, RenderNodeId \<times> RenderTextQueryKind) btree" where
  "expected_answers b =
     bt_collect (map (\<lambda>q. (tq_query_id q, tq_node_id q, tq_kind q)) (tb_queries b))"

lemma expected_answers_get:
  assumes "distinct (map tq_query_id (tb_queries b))"
  shows "bt_get (expected_answers b) i = Some (m, k) \<longleftrightarrow>
    (\<exists>q\<in>set (tb_queries b). tq_query_id q = i \<and> tq_node_id q = m \<and> tq_kind q = k)"
  using assms
  by (auto simp: bt_get_collect_distinct expected_answers_def map_of_eq_Some_iff comp_def)

lemma expected_answer_fits:
  assumes distinct: "distinct (map tq_query_id (tb_queries b))"
  shows "(\<exists>m k. bt_get (expected_answers b) i = Some (m, k) \<and> text_answer_ok src m k v) \<longleftrightarrow>
    i \<in> set (map tq_query_id (tb_queries b))
    \<and> (\<forall>q\<in>set (tb_queries b). i = tq_query_id q \<longrightarrow> text_answer_ok src (tq_node_id q) (tq_kind q) v)"
proof -
  have one: "q = q'" if "q \<in> set (tb_queries b)" "q' \<in> set (tb_queries b)"
    "tq_query_id q = tq_query_id q'" for q q'
    using distinct that by (auto simp: distinct_map inj_on_def)
  have "(\<exists>m k. bt_get (expected_answers b) i = Some (m, k) \<and> text_answer_ok src m k v) \<longleftrightarrow>
      (\<exists>q\<in>set (tb_queries b). i = tq_query_id q \<and> text_answer_ok src (tq_node_id q) (tq_kind q) v)"
    unfolding expected_answers_get [OF distinct] by blast
  also have "\<dots> \<longleftrightarrow> i \<in> set (map tq_query_id (tb_queries b))
    \<and> (\<forall>q\<in>set (tb_queries b). i = tq_query_id q \<longrightarrow> text_answer_ok src (tq_node_id q) (tq_kind q) v)"
    by (auto dest: one)
  finally show ?thesis .
qed

text \<open>An answer is accepted exactly when its results are, one for one, fitting answers to the
  queries of the request.\<close>

lemma validate_text_query_result_Ok:
  "RenderCommitState_validate_text_query_result s src b r = Ok u \<longleftrightarrow>
     br_version r = RENDER_PROTOCOL_VERSION
     \<and> RenderCommitState_validate_text_query s src b = Ok ()
     \<and> br_context_id r = tb_context_id b \<and> br_document_id r = tb_document_id b
     \<and> br_commit_id r = tb_commit_id b \<and> br_revision r = tb_revision b
     \<and> length (br_truncations r) \<le> RENDER_MAX_TRUNCATION_DIAGNOSTICS
     \<and> (\<forall>t\<in>set (br_truncations r). tb_allow_truncation b \<and> \<not> tr_required t)
     \<and> mset (map qr_query_id (br_results r)) = mset (map tq_query_id (tb_queries b))
     \<and> (\<forall>x\<in>set (br_results r). \<forall>q\<in>set (tb_queries b). qr_query_id x = tq_query_id q \<longrightarrow>
          text_answer_ok src (tq_node_id q) (tq_kind q) (qr_value x))
     \<and> sum_list (map answer_boxes (br_results r)) \<le> RENDER_MAX_TEXT_BOXES"
  (is "?lhs \<longleftrightarrow> ?rhs")
proof -
  have unfolded: "?lhs \<longleftrightarrow>
      br_version r = RENDER_PROTOCOL_VERSION
      \<and> RenderCommitState_validate_text_query s src b = Ok ()
      \<and> br_context_id r = tb_context_id b \<and> br_document_id r = tb_document_id b
      \<and> br_commit_id r = tb_commit_id b \<and> br_revision r = tb_revision b
      \<and> length (br_truncations r) \<le> RENDER_MAX_TRUNCATION_DIAGNOSTICS
      \<and> (\<forall>t\<in>set (br_truncations r). tb_allow_truncation b \<and> \<not> tr_required t)
      \<and> length (br_results r) = length (tb_queries b)
      \<and> distinct (map qr_query_id (br_results r))
      \<and> (\<forall>x\<in>set (br_results r). \<exists>m k. bt_get (expected_answers b) (qr_query_id x) = Some (m, k)
           \<and> text_answer_ok src m k (qr_value x))
      \<and> sum_list (map answer_boxes (br_results r)) \<le> RENDER_MAX_TEXT_BOXES"
    unfolding RenderCommitState_validate_text_query_result_def expected_answers_def
    by (simp only: and_then_eq_Ok if_Err_eq_Ok validate_version_Ok validate_truncations_Ok
        validate_text_results_Ok [OF le0])
       (auto simp: validate_text_query_identity_def)
  show ?thesis
  proof (cases "RenderCommitState_validate_text_query s src b = Ok ()")
    case True
    then have distinct: "distinct (map tq_query_id (tb_queries b))"
      by (auto simp: validate_text_query_Ok)
    show ?thesis
      unfolding unfolded mset_eq_iff_covered [OF distinct] expected_answer_fits [OF distinct]
      by (auto simp: image_subset_iff)
  qed (unfold unfolded, simp)
qed

end
