(* ===== verification/Broker_Checks.thy ===== *)
theory Broker_Checks
  imports Broker_Traffic Commit_Queries
begin

section \<open>What the transport checks decide\<close>

text \<open>
  The size accounting of \<open>update_source_size\<close> and friends is exact; every update that
  reaches the renderer passed \<open>validate_update\<close>; and the checks at the transport
  boundary reject nothing that the commit state would accept.
\<close>

subsection \<open>Sizes\<close>

definition capped :: "nat \<Rightarrow> usize option" where
  "capped n = (if n \<le> usize_max then Some n else None)"

definition resource_bytes :: "RenderResource \<Rightarrow> nat" where
  "resource_bytes r = length (res_mime r) + length (res_bytes r)"

definition mutation_bytes :: "RenderMutation \<Rightarrow> nat" where
  "mutation_bytes m = (case m of UpsertNode n \<Rightarrow> string_bytes (node_strings n)
     | UpsertResource r \<Rightarrow> resource_bytes r | _ \<Rightarrow> 0)"

text \<open>The bytes of every string and resource an update carries.\<close>

definition update_bytes :: "RenderBridgeUpdate \<Rightarrow> nat" where
  "update_bytes u =
     (case u of
        FullSnapshot s \<Rightarrow> sum_list (map (string_bytes \<circ> node_strings) (snap_nodes s))
          + sum_list (map resource_bytes (snap_resources s))
      | MutationBatch b \<Rightarrow> sum_list (map mutation_bytes (batch_mutations b))
      | ReleaseHandles _ \<Rightarrow> 0)"

lemma capped_simps:
  "checked_add_usize a b = capped (a + b)"
  "Option.bind (capped a) (\<lambda>x. capped (x + b)) = capped (a + b)"
  "Option.bind (capped a) (checked_add_usize b) = capped (b + a)"
  "Option.bind (capped a) (\<lambda>x. Option.bind (capped b) (\<lambda>y. capped (x + y))) = capped (a + b)"
  by (auto simp: checked_add_usize_def capped_def split: Option.bind_split)

lemma try_fold_capped:
  assumes "\<And>s x. g s x = capped (s + f x)"
  shows "a \<le> usize_max \<Longrightarrow> try_fold_option g a xs = capped (a + sum_list (map f xs))"
proof (induction xs arbitrary: a)
  case Nil
  then show ?case by (simp add: capped_def)
next
  case (Cons x xs)
  show ?case
  proof (cases "a + f x \<le> usize_max")
    case True
    then show ?thesis using Cons.IH [OF True] by (simp add: assms capped_def add.assoc)
  next
    case False
    then show ?thesis by (simp add: assms capped_def)
  qed
qed

lemma resource_source_size_eq: "resource_source_size r = capped (resource_bytes r)"
  by (simp add: resource_source_size_def resource_bytes_def capped_simps)

lemma node_source_size_eq: "node_source_size n = capped (string_bytes (node_strings n))"
proof -
  have styles: "try_fold_option (\<lambda>size style.
      Option.bind (checked_add_usize size (length (style_name style))) (\<lambda>size.
      checked_add_usize size (length (style_value style)))) 0 (node_styles n)
      = capped (0 + sum_list (map (\<lambda>p. length (style_name p) + length (style_value p)) (node_styles n)))"
    by (rule try_fold_capped) (simp_all add: capped_simps add.assoc usize_max_def)
  have styles_bytes: "sum_list (map (\<lambda>p. length (style_name p) + length (style_value p)) ps) =
      string_bytes (style_strings ps)" for ps
    by (induction ps) (simp_all add: string_bytes_def style_strings_def)
  have semantic: "(case node_semantic n of None \<Rightarrow> Some 0
      | Some semantic \<Rightarrow>
          Option.bind (checked_add_usize (length (sem_role semantic)) (length (sem_name semantic)))
            (\<lambda>size. checked_add_usize size (case sem_value semantic of None \<Rightarrow> 0 | Some v \<Rightarrow> length v)))
      = capped (string_bytes (semantic_strings (node_semantic n)))"
    by (auto simp: semantic_strings_def string_bytes_def capped_simps capped_def usize_max_def
        split: option.split Option.bind_split)
  have kind: "(case node_kind n of Element s \<Rightarrow> length s | Text t \<Rightarrow> length t | PseudoBefore t \<Rightarrow> length t
      | PseudoAfter t \<Rightarrow> length t) = length (kind_string (node_kind n))"
    by (cases "node_kind n") simp_all
  show ?thesis
    unfolding node_source_size_def Let_def styles semantic kind styles_bytes
    by (auto simp: capped_def checked_add_usize_def node_strings_def string_bytes_def
        split: Option.bind_split)
qed

lemma mutation_source_size_eq: "mutation_source_size m = capped (mutation_bytes m)"
  by (simp add: mutation_source_size_def mutation_bytes_def node_source_size_eq
      resource_source_size_eq capped_def usize_max_def split: RenderMutation.split)

lemma update_source_size_eq: "update_source_size u = capped (update_bytes u)"
proof (cases u)
  case (FullSnapshot s)
  have nodes: "try_fold_option (\<lambda>size node. Option.bind (node_source_size node) (checked_add_usize size)) 0
      (snap_nodes s) = capped (0 + sum_list (map (string_bytes \<circ> node_strings) (snap_nodes s)))"
    by (rule try_fold_capped) (simp_all add: node_source_size_eq capped_simps usize_max_def)
  have resources: "try_fold_option (\<lambda>size r. Option.bind (resource_source_size r) (checked_add_usize size)) 0
      (snap_resources s) = capped (0 + sum_list (map resource_bytes (snap_resources s)))"
    by (rule try_fold_capped) (simp_all add: resource_source_size_eq capped_simps usize_max_def)
  show ?thesis
    unfolding FullSnapshot update_source_size_def update_bytes_def RenderBridgeUpdate.case nodes resources
    by (simp add: capped_simps)
next
  case (MutationBatch b)
  have "try_fold_option (\<lambda>size m. Option.bind (mutation_source_size m) (checked_add_usize size)) 0
      (batch_mutations b) = capped (0 + sum_list (map mutation_bytes (batch_mutations b)))"
    by (rule try_fold_capped) (simp_all add: mutation_source_size_eq capped_simps usize_max_def)
  then show ?thesis by (simp add: MutationBatch update_source_size_def update_bytes_def)
qed (simp add: update_source_size_def update_bytes_def capped_def usize_max_def)

lemma validate_update_Ok:
  "validate_update encode u = Ok x \<longleftrightarrow>
     RenderBridgeUpdate_validate u = Ok () \<and> update_bytes u \<le> RENDER_BROKER_MAX_UPDATE_SOURCE_BYTES
     \<and> (\<exists>n. encode u = Some n \<and> n \<le> VIXEN_MAX_OUTPUT_BYTES)"
  unfolding validate_update_def update_source_size_eq
  by (auto simp: result_simps capped_def usize_max_def size_limits not_less)

subsection \<open>Every update that passes was validated\<close>

lemma published_valid:
  assumes inv: "broker_inv w"
  shows "\<forall>u\<in>set (published_in (broker_effects encode w e)). validate_update encode u = Ok ()"
proof (cases e)
  case (Publish us)
  then show ?thesis
    using publish_cases [of encode w us] by (cases "RenderBroker_publish_updates encode w us") auto
next
  case (Consume s us)
  then show ?thesis
    using consume_cases [of encode w s us]
    by (cases "RenderBroker_consume_submission_with_updates encode w s us") auto
qed (simp_all split: result.split)

lemma published_log_valid:
  "broker_inv w \<Longrightarrow> u \<in> set (published_in (broker_log encode w es)) \<Longrightarrow> validate_update encode u = Ok ()"
proof (induction es arbitrary: w)
  case (Cons e es)
  then show ?case
    using published_valid [OF Cons.prems(1), of encode e]
      Cons.IH [OF broker_step_inv [OF Cons.prems(1), of encode e]] by auto
qed simp

subsection \<open>The transport rejects nothing the core would accept\<close>

text \<open>What BrowserCore checks of a response against its source and commit state.\<close>

definition core_accepts ::
    "RenderCommitState \<Rightarrow> RenderReplica \<Rightarrow> RenderBrokerRequestKind \<Rightarrow> RenderBrokerResponseKind \<Rightarrow> bool" where
  "core_accepts s src q r \<longleftrightarrow>
     (case (q, r) of
        (EnsureLayout v, CommitResponse c) \<Rightarrow>
          commit_revision c = v \<and> RenderCommit_validate c src = Ok ()
      | (HitTestRequest h, HitTestResponse (Some t)) \<Rightarrow>
          RenderCommitState_validate_input_target s src h t = Ok ()
      | (TextQueryRequest b, TextQueryResponse x) \<Rightarrow>
          RenderCommitState_validate_text_query_result s src b x = Ok ()
      | _ \<Rightarrow> False)"

lemma transport_commit:
  "RenderCommit_validate c src = Ok () \<Longrightarrow> validate_commit_for_revision c (commit_revision c) = Ok ()"
  unfolding RenderCommit_validate_iff wf_commit_def validate_commit_for_revision_def
  by (simp only: result_simps) (auto simp: size_limits)

lemma transport_hit_test:
  "RenderCommitState_validate_input_target s src q t = Ok () \<Longrightarrow> validate_hit_test_response q t = Ok ()"
  unfolding validate_input_target_Ok hit_test_ok_def validate_hit_test_response_def
  by (simp only: result_simps commit_document_def) auto

lemma transport_results:
  assumes "n \<le> RENDER_MAX_TEXT_BOXES"
    and "try_fold (validate_one_text_result src expected) (seen, n) rs = Ok st"
    and "\<And>i m k. bt_get expected i = Some (m, k) \<Longrightarrow> bt_get expected' i = Some k"
  shows "is_ok (try_fold (validate_response_result expected') (seen, n) rs)"
  using assms(1,2)
proof (induction rs arbitrary: seen n)
  case (Cons r rs)
  from Cons.prems obtain st' where st': "validate_one_text_result src expected (seen, n) r = Ok st'"
    "try_fold (validate_one_text_result src expected) st' rs = Ok st"
    by (auto simp: and_then_eq_Ok simp del: validate_one_text_result.simps)
  from st'(1) obtain m k where mk: "bt_get expected (qr_query_id r) = Some (m, k)"
    "text_answer_ok src m k (qr_value r)" "qr_query_id r \<notin> seen"
    "st' = (insert (qr_query_id r) seen, n + answer_boxes r)"
    and boxes: "n + answer_boxes r \<le> RENDER_MAX_TEXT_BOXES"
    using Cons.prems(1)
    by (auto simp: validate_one_text_result_Ok [OF Cons.prems(1)] simp del: validate_one_text_result.simps)
  have "validate_response_result expected' (seen, n) r = Ok st'"
    using mk boxes assms(3) [OF mk(1)]
    by (cases k; cases "qr_value r")
       (auto simp: text_answer_ok_def answer_boxes_def result_simps usize_max_def size_limits)
  with Cons.IH [OF boxes] st'(2) mk(4) show ?case by simp
qed simp

lemma transport_text_query:
  assumes "RenderCommitState_validate_text_query_result s src b r = Ok ()"
  shows "validate_text_query_response b r = Ok ()"
proof -
  let ?expected = "bt_collect (map (\<lambda>q. (tq_query_id q, tq_kind q)) (tb_queries b))"
  have ok: "br_version r = RENDER_PROTOCOL_VERSION"
    "br_context_id r = tb_context_id b" "br_document_id r = tb_document_id b"
    "br_commit_id r = tb_commit_id b" "br_revision r = tb_revision b"
    "length (br_truncations r) \<le> RENDER_MAX_TRUNCATION_DIAGNOSTICS"
    "\<forall>t\<in>set (br_truncations r). tb_allow_truncation b \<and> \<not> tr_required t"
    "RenderCommitState_validate_text_query s src b = Ok ()"
    and ids: "mset (map qr_query_id (br_results r)) = mset (map tq_query_id (tb_queries b))"
    using assms by (auto simp: validate_text_query_result_Ok)
  have len: "length (br_results r) = length (tb_queries b)"
    using mset_eq_length [OF ids] by simp
  from assms obtain st where fold:
    "try_fold (validate_one_text_result src (expected_answers b)) ({}, 0) (br_results r) = Ok st"
    unfolding RenderCommitState_validate_text_query_result_def expected_answers_def
    by (auto simp: and_then_eq_Ok split: if_splits)
  have distinct: "distinct (map tq_query_id (tb_queries b))"
    using ok(8) by (auto simp: validate_text_query_Ok)
  have expected: "bt_get ?expected i = Some k" if "bt_get (expected_answers b) i = Some (m, k)" for i m k
    using that distinct
    by (auto simp: expected_answers_get bt_get_collect_distinct comp_def map_of_eq_Some_iff)
  have "is_ok (try_fold (validate_response_result ?expected) ({}, 0) (br_results r))"
    by (rule transport_results [OF le0 fold expected])
  then obtain x where "try_fold (validate_response_result ?expected) ({}, 0) (br_results r) = Ok x"
    by (auto simp: is_ok_iff)
  moreover have "tb_allow_truncation b \<or> br_truncations r = []"
    using ok(7) by (cases "br_truncations r") auto
  ultimately show ?thesis
    using ok(1-6) len by (auto simp: validate_text_query_response_def validate_version_def)
qed

lemma transport_accepts:
  assumes "core_accepts s src (req_kind q) (resp_kind r)"
    and "resp_version r = RENDER_PROTOCOL_VERSION" and "resp_request_id r = req_request_id q"
  shows "RenderBrokerResponse_validate_for r q = Some (Ok ())"
  using assms transport_commit transport_hit_test transport_text_query
  by (auto simp: core_accepts_def RenderBrokerResponse_validate_for_def validate_version_def
      matching_kind_def validate_response_kind_def
      split: RenderBrokerRequestKind.splits RenderBrokerResponseKind.splits option.splits)

end
