(* ===== verification/Commit_Properties.thy ===== *)
theory Commit_Properties
  imports Commit_Queries Render_Examples
begin

section \<open>Properties of commits, presentation and input\<close>

text \<open>The results on \<open>RenderCommitState\<close> as statements about the source, with a run of
  concrete commits, presentations and commands they are applied to.\<close>

definition ex_rect :: RenderRect where
  "ex_rect = \<lparr>rc_x = 0, rc_y = 0, rc_width = 0x3FF0000000000000,
     rc_height = 0x3FF0000000000000\<rparr>"

definition ex_commit :: "u64 \<Rightarrow> RenderCommit" where
  "ex_commit i = \<lparr>commit_version = 1, commit_id = Ident i, commit_revision = ex_revision1,
     commit_viewport = ex_viewport1,
     commit_geometry_index = [\<lparr>geo_node_id = Ident 2, geo_fragment_id = Ident 4,
       geo_border_box = ex_rect, geo_padding_box = ex_rect, geo_content_box = ex_rect,
       geo_clip = None, geo_scroll_node_id = Some (Ident 6), geo_paint_order = 0\<rparr>],
     commit_hit_test_handle = RenderHitTestHandle (Ident (100 + i)),
     commit_text_query_handle = RenderTextQueryHandle (Ident (200 + i)),
     commit_scroll_snapshot = [\<lparr>ss_scroll_node_id = Ident 6, ss_node_id = Ident 1,
       ss_offset = \<lparr>pt_x = 0, pt_y = 0\<rparr>, ss_max_offset = \<lparr>pt_x = 0, pt_y = 0\<rparr>,
       ss_viewport = ex_rect,
       ss_content_size = \<lparr>sz_width = 0x3FF0000000000000, sz_height = 0x3FF0000000000000\<rparr>\<rparr>],
     commit_semantic_bounds = [\<lparr>sb_semantic_node_id = Ident 5, sb_node_id = Ident 1,
       sb_rects = [ex_rect]\<rparr>],
     commit_truncations = []\<rparr>"

definition ex_presented :: "u64 \<Rightarrow> RenderPresented" where
  "ex_presented i = \<lparr>pres_version = 1, pres_context_id = Ident 7, pres_document_id = Ident 9,
     pres_commit_id = Ident i, pres_revision = ex_revision1\<rparr>"

definition ex_scroll :: RenderScrollCommand where
  "ex_scroll = \<lparr>sc_version = 1, sc_command_id = Ident 41, sc_context_id = Ident 7,
     sc_document_id = Ident 9, sc_displayed_commit_id = Ident 1, sc_revision = ex_revision1,
     sc_scroll_node_id = Ident 6, sc_kind = ScrollBy \<lparr>pt_x = 0, pt_y = 0\<rparr>\<rparr>"

definition ex_action :: RenderSemanticActionTarget where
  "ex_action = \<lparr>sa_version = 1, sa_request_id = Ident 51, sa_context_id = Ident 7,
     sa_document_id = Ident 9, sa_displayed_commit_id = Ident 1, sa_revision = ex_revision1,
     sa_semantic_node_id = Ident 5, sa_action_generation = 3, sa_action = SetSelection 0 3\<rparr>"

definition ex_hit :: RenderHitTestQuery where
  "ex_hit = \<lparr>hq_version = 1, hq_query_id = Ident 61, hq_context_id = Ident 7,
     hq_document_id = Ident 9, hq_displayed_commit_id = Ident 1, hq_revision = ex_revision1,
     hq_handle = RenderHitTestHandle (Ident 101), hq_point = \<lparr>pt_x = 0, pt_y = 0\<rparr>\<rparr>"

definition ex_target :: RenderInputTarget where
  "ex_target = \<lparr>it_version = 1, it_query_id = Ident 61, it_context_id = Ident 7,
     it_document_id = Ident 9, it_displayed_commit_id = Ident 1, it_revision = ex_revision1,
     it_handle = RenderHitTestHandle (Ident 101), it_node_id = Ident 2, it_fragment_id = Ident 4,
     it_viewport_point = \<lparr>pt_x = 0, pt_y = 0\<rparr>, it_local_point = \<lparr>pt_x = 0, pt_y = 0\<rparr>\<rparr>"

text \<open>Two commits, the first presented, scrolled and acted upon, each command also replayed.\<close>

definition ex_present_run :: "commit_event list" where
  "ex_present_run = [AcceptCommit ex_replica1 (ex_commit 1),
     AcceptPresented ex_replica1 (ex_presented 1)]"

definition ex_run :: "commit_event list" where
  "ex_run = ex_present_run @ [ConsumeScroll ex_replica1 ex_scroll, ConsumeScroll ex_replica1 ex_scroll,
     ConsumeAction ex_replica1 ex_action, ConsumeAction ex_replica1 ex_action,
     AcceptCommit ex_replica1 (ex_commit 2), AcceptPresented ex_replica1 (ex_presented 2)]"

definition ex_document :: "BrowsingContextId \<times> DocumentId" where
  "ex_document = (Ident 7, Ident 9)"

text \<open>The answer of a renderer to a batch of text queries that is accepted.\<close>

definition text_response_ok ::
    "RenderCommitState \<Rightarrow> RenderReplica \<Rightarrow> RenderTextQueryBatch \<Rightarrow> RenderTextQueryBatchResult \<Rightarrow> bool"
  where
  "text_response_ok s src b r \<longleftrightarrow>
     br_version r = RENDER_PROTOCOL_VERSION
     \<and> RenderCommitState_validate_text_query s src b = Ok ()
     \<and> br_context_id r = tb_context_id b \<and> br_document_id r = tb_document_id b
     \<and> br_commit_id r = tb_commit_id b \<and> br_revision r = tb_revision b
     \<and> length (br_truncations r) \<le> RENDER_MAX_TRUNCATION_DIAGNOSTICS
     \<and> (\<forall>t\<in>set (br_truncations r). tb_allow_truncation b \<and> \<not> tr_required t)
     \<and> mset (map qr_query_id (br_results r)) = mset (map tq_query_id (tb_queries b))
     \<and> (\<forall>x\<in>set (br_results r). \<forall>q\<in>set (tb_queries b). qr_query_id x = tq_query_id q \<longrightarrow>
          text_answer_ok src (tq_node_id q) (tq_kind q) (qr_value x))
     \<and> sum_list (map answer_boxes (br_results r)) \<le> RENDER_MAX_TEXT_BOXES"

subsection \<open>The concrete run\<close>

lemma ex_replica1_source:
  "rep_revision ex_replica1 = Some ex_revision1" "rep_viewport ex_replica1 = Some ex_viewport1"
  using ex_replica1(2) by (simp_all add: mirrors_def ex_snapshot1_def)

lemma ex_replica1_semantic: "RenderReplica_semantic_node ex_replica1 (Ident 5) = Some ex_semantic"
  by (simp add: RenderReplica_semantic_node_def ex_replica1_nodes bt_values_def ex_root_def
      ex_semantic_def)

lemma ex_commit_wf: "wf_commit ex_replica1 (ex_commit i)"
proof -
  have r: "rect_ok ex_rect" by (simp add: ex_rect_def geometry_eval)
  have n: "RenderReplica_contains_node ex_replica1 (Ident 1)"
    "RenderReplica_contains_node ex_replica1 (Ident 2)"
    "RenderReplica_node_has_semantic_node ex_replica1 (Ident 1) (Ident 5)"
    by (simp_all add: RenderReplica_contains_node_def RenderReplica_node_has_semantic_node_def
        bt_contains_key_def ex_replica1_nodes bt_get_def ex_root_def ex_semantic_def)
  have g: "0 \<notin> set (generations ex_revision1)" by (simp add: ex_revision1_def generations_def)
  from r n g ex_replica1_source ex_viewports_ok(1) show ?thesis
    by (simp add: wf_commit_def ex_commit_def geometry_ok_def scroll_state_ok_def)
       (simp add: geometry_eval RENDER_PROTOCOL_VERSION_def)
qed

lemma ex_commit_sel [simp]:
  "commit_id (ex_commit i) = Ident i" "commit_document (ex_commit i) = ex_document"
  "commit_revision (ex_commit i) = ex_revision1"
  by (simp_all add: ex_commit_def commit_document_def ex_document_def ex_revision1_def)

lemma ex_accept:
  "accepted s = None \<Longrightarrow>
     RenderCommitState_accept_commit s ex_replica1 (ex_commit i) =
       (s\<lparr>accepted := Some (ex_commit i)\<rparr>, Ok [])"
  "accepted s = Some (ex_commit j) \<Longrightarrow> presented s = Some (ex_commit j) \<Longrightarrow> j < i \<Longrightarrow>
     RenderCommitState_accept_commit s ex_replica1 (ex_commit i) =
       (s\<lparr>accepted := Some (ex_commit i)\<rparr>, Ok [])"
  by (simp_all add: accept_commit_Ok ex_commit_wf replacing_document_iff)

lemma ex_present:
  "accepted s = Some (ex_commit i) \<Longrightarrow> presented s = None \<Longrightarrow>
     RenderCommitState_accept_presented s ex_replica1 (ex_presented i) =
       (s\<lparr>presented := Some (ex_commit i), seen_scroll_commands := {||},
          seen_semantic_actions := {||}\<rparr>, Ok [])"
  "accepted s = Some (ex_commit i) \<Longrightarrow> presented s = Some (ex_commit j) \<Longrightarrow> j \<noteq> i \<Longrightarrow>
     RenderCommitState_accept_presented s ex_replica1 (ex_presented i) =
       (s\<lparr>presented := Some (ex_commit i), seen_scroll_commands := {||},
          seen_semantic_actions := {||}\<rparr>, Ok [release_of (ex_commit j)])"
  by (simp_all add: accept_presented_Ok ex_presented_def ex_document_def ex_replica1_source
      RENDER_PROTOCOL_VERSION_def)

lemma ex_scroll_step:
  assumes "presented s = Some (ex_commit 1)" and "seen_scroll_commands s = {||}"
  shows "RenderCommitState_consume_scroll_command s ex_replica1 ex_scroll =
    (s\<lparr>seen_scroll_commands := {|Ident 41|}\<rparr>, Ok ())"
proof -
  have "scroll_kind_ok (sc_kind ex_scroll)"
    by (simp add: ex_scroll_def scroll_kind_ok_def geometry_eval)
  with assms show ?thesis
    by (simp add: consume_scroll_Ok RENDER_PROTOCOL_VERSION_def ex_replica1_source
        ex_document_def size_limits)
       (simp add: ex_scroll_def ex_commit_def)
qed

lemma scroll_replayed:
  assumes "sc_command_id c |\<in>| seen_scroll_commands s"
  shows "fst (RenderCommitState_consume_scroll_command s src c) = s
    \<and> \<not> is_ok (snd (RenderCommitState_consume_scroll_command s src c))"
proof (cases "snd (RenderCommitState_consume_scroll_command s src c)")
  case (Ok u)
  then have "RenderCommitState_consume_scroll_command s src c =
      (fst (RenderCommitState_consume_scroll_command s src c), Ok u)" by (simp add: prod_eq_iff)
  with assms show ?thesis by (auto simp: consume_scroll_Ok)
qed (simp add: consume_scroll_Err)

lemma ex_action_step:
  assumes "presented s = Some (ex_commit 1)" and "seen_semantic_actions s = {||}"
  shows "RenderCommitState_consume_semantic_action s ex_replica1 ex_action =
    (s\<lparr>seen_semantic_actions := {|Ident 51|}\<rparr>, Ok ())"
proof -
  have "selection_ok ex_replica1 ex_action"
    by (simp add: selection_ok_def ex_action_def RenderReplica_semantic_value_utf16_len_def
        ex_replica1_semantic ex_semantic_def utf16_len_def utf16_units_def)
  with assms show ?thesis
    by (simp add: consume_action_Ok RENDER_PROTOCOL_VERSION_def ex_replica1_source
        ex_document_def size_limits)
       (simp add: ex_action_def ex_commit_def ex_replica1_semantic ex_semantic_def)
qed

lemma action_replayed:
  assumes "sa_request_id t |\<in>| seen_semantic_actions s"
  shows "fst (RenderCommitState_consume_semantic_action s src t) = s
    \<and> \<not> is_ok (snd (RenderCommitState_consume_semantic_action s src t))"
proof (cases "snd (RenderCommitState_consume_semantic_action s src t)")
  case (Ok u)
  then have "RenderCommitState_consume_semantic_action s src t =
      (fst (RenderCommitState_consume_semantic_action s src t), Ok u)" by (simp add: prod_eq_iff)
  with assms show ?thesis by (auto simp: consume_action_Ok)
qed (simp add: consume_action_Err)

lemma ex_ids [simp]: "sc_command_id ex_scroll = Ident 41" "sa_request_id ex_action = Ident 51"
  "sc_displayed_commit_id ex_scroll = Ident 1" "sa_displayed_commit_id ex_action = Ident 1"
  by (simp_all add: ex_scroll_def ex_action_def)

lemmas ex_steps = commit_step.simps commit_effects.simps released_effects_def
  ex_accept ex_present ex_scroll_step ex_action_step scroll_replayed action_replayed
  RenderCommitState_default_def

lemma ex_presented_state:
  "commit_run RenderCommitState_default ex_present_run =
     \<lparr>accepted = Some (ex_commit 1), presented = Some (ex_commit 1),
      seen_scroll_commands = {||}, seen_semantic_actions = {||}\<rparr>"
  by (simp add: ex_present_run_def ex_steps)

lemma ex_run_log:
  "commit_log RenderCommitState_default ex_run =
     [Accepted (ex_commit 1), Scrolled (Ident 1) (Ident 41), Acted (Ident 1) (Ident 51),
      Accepted (ex_commit 2), Released (release_of (ex_commit 1))]"
  by (simp add: ex_run_def ex_present_run_def ex_steps)

lemma ex_run_in_document: "\<forall>e\<in>set ex_run. in_document ex_document e"
  by (simp add: ex_run_def ex_present_run_def)

lemma reachable_run: "commit_reachable s \<Longrightarrow> commit_reachable (commit_run s es)"
  by (induction es arbitrary: s) (simp_all add: commit_reachable.step)

lemma presented_after:
  "RenderCommitState_accept_presented s src p = (s', Ok rs) \<Longrightarrow>
     map_option commit_id (presented s') = Some (pres_commit_id p)"
  unfolding accept_presented_Ok by (elim exE conjE) (simp split: if_splits)

lemma release_of_commit_id [simp]: "rel_commit_id (release_of c) = commit_id c"
  by (simp add: release_of_def)

subsection \<open>The properties\<close>

text \<open>C3: handles are conserved. Over any sequence of commits, presentations, scroll commands
  and semantic actions, successful or not, the handles of the commits that were accepted are
  exactly those returned for release together with those of the accepted and the presented
  commit: nothing leaks, and nothing is released twice or too early.\<close>

theorem commit_handles_conserved:
  "mset (map release_of (accepted_in (commit_log RenderCommitState_default es))) =
     mset (released_in (commit_log RenderCommitState_default es))
     + mset (live_handles (commit_run RenderCommitState_default es))"
  using commit_run_conserves [OF commit_inv_default, of es]
  by (simp add: live_handles_def RenderCommitState_default_def push_unique_release_def)

text \<open>Within the life of a document no handle is released twice and no handle that is
  still accepted or presented is released.\<close>

theorem commit_handles_released_once:
  assumes "\<forall>e\<in>set es. in_document d e"
  shows "distinct (map rel_commit_id (released_in (commit_log RenderCommitState_default es)
    @ live_handles (commit_run RenderCommitState_default es)))"
proof -
  let ?log = "commit_log RenderCommitState_default es"
  let ?live = "live_handles (commit_run RenderCommitState_default es)"
  have "mset (map release_of (accepted_in ?log)) = mset (released_in ?log @ ?live)"
    using commit_run_conserves [OF commit_inv_default, of es]
    by (simp add: live_handles_def RenderCommitState_default_def push_unique_release_def)
  then have "image_mset rel_commit_id (mset (map release_of (accepted_in ?log))) =
      image_mset rel_commit_id (mset (released_in ?log @ ?live))" by (rule arg_cong)
  then have "mset (map commit_id (accepted_in ?log)) =
      mset (map rel_commit_id (released_in ?log @ ?live))"
    by (simp add: multiset.map_comp comp_def)
  moreover have "distinct (map commit_id (accepted_in ?log))"
    using accepted_ids_grow [OF within_default assms] strict_sorted_iff by blast
  ultimately show ?thesis using mset_eq_imp_distinct_iff by blast
qed

theorem commit_handles_released_once_witness:
  "distinct (map rel_commit_id (released_in (commit_log RenderCommitState_default ex_run)
     @ live_handles (commit_run RenderCommitState_default ex_run)))
   \<and> released_in (commit_log RenderCommitState_default ex_run) = [release_of (ex_commit 1)]"
  using commit_handles_released_once [OF ex_run_in_document] by (simp add: ex_run_log)

text \<open>Within the life of a document the identifiers of the accepted commits strictly
  increase, so a replayed or superseded commit is never accepted.\<close>

theorem accepted_commit_ids_increase:
  assumes "\<forall>e\<in>set es. in_document d e"
  shows "sorted_wrt (<) (map commit_id (accepted_in (commit_log RenderCommitState_default es)))"
  using accepted_ids_grow [OF within_default assms] by blast

theorem accepted_commit_ids_increase_witness:
  "sorted_wrt (<) (map commit_id (accepted_in (commit_log RenderCommitState_default ex_run)))
   \<and> map commit_id (accepted_in (commit_log RenderCommitState_default ex_run)) = [Ident 1, Ident 2]"
  using accepted_commit_ids_increase [OF ex_run_in_document] by (simp add: ex_run_log)

text \<open>C5: within the life of a document every scroll command and every semantic action is
  executed at most once against a displayed commit, whatever is replayed, and however often
  the replay ledgers are reset by a new presentation.\<close>

theorem commands_execute_once:
  assumes "\<forall>e\<in>set es. in_document d e"
  shows "distinct (scrolled_in (commit_log RenderCommitState_default es))
    \<and> distinct (acted_in (commit_log RenderCommitState_default es))"
  using scrolls.executed_once [OF within_default assms] actions.executed_once [OF within_default assms]
  by (simp add: scrolled_log acted_log)

theorem commands_execute_once_witness:
  "distinct (scrolled_in (commit_log RenderCommitState_default ex_run))
   \<and> scrolled_in (commit_log RenderCommitState_default ex_run) = [(Ident 1, Ident 41)]
   \<and> acted_in (commit_log RenderCommitState_default ex_run) = [(Ident 1, Ident 51)]"
  using commands_execute_once [OF ex_run_in_document] by (simp add: ex_run_log)

text \<open>In every reachable commit state the presented commit is of the document of the
  accepted one and not later than it, and is the same commit when the identifiers agree; the
  replay ledgers hold at most 1024 entries and are empty while nothing is presented.\<close>

theorem reachable_commit_state_invariant:
  assumes "commit_reachable s"
  shows "commit_inv s"
  using assms by (rule reachable_commit_inv)

theorem reachable_commit_state_invariant_witness:
  "commit_inv (commit_run RenderCommitState_default ex_run)"
  by (rule reachable_commit_state_invariant [OF reachable_run [OF commit_reachable.start]])

text \<open>The four operations are atomic: each either succeeds or leaves the state exactly as
  it was.\<close>

theorem commit_operations_atomic:
  "(case RenderCommitState_accept_commit s src c of (s', Ok rs) \<Rightarrow> accepted s' = Some c
      | (s', Err e) \<Rightarrow> s' = s)
   \<and> (case RenderCommitState_accept_presented s src p of
        (s', Ok rs) \<Rightarrow> map_option commit_id (presented s') = Some (pres_commit_id p)
      | (s', Err e) \<Rightarrow> s' = s)
   \<and> (case RenderCommitState_consume_scroll_command s src k of
        (s', Ok u) \<Rightarrow> s' = s\<lparr>seen_scroll_commands := finsert (sc_command_id k) (seen_scroll_commands s)\<rparr>
      | (s', Err e) \<Rightarrow> s' = s)
   \<and> (case RenderCommitState_consume_semantic_action s src t of
        (s', Ok u) \<Rightarrow> s' = s\<lparr>seen_semantic_actions := finsert (sa_request_id t) (seen_semantic_actions s)\<rparr>
      | (s', Err e) \<Rightarrow> s' = s)"
proof (intro conjI)
  show "case RenderCommitState_accept_commit s src c of (s', Ok rs) \<Rightarrow> accepted s' = Some c
      | (s', Err e) \<Rightarrow> s' = s"
    using accept_commit_Err [of s src c]
    by (auto split: prod.splits result.splits simp: accept_commit_Ok if_splits)
  show "case RenderCommitState_accept_presented s src p of
      (s', Ok rs) \<Rightarrow> map_option commit_id (presented s') = Some (pres_commit_id p)
      | (s', Err e) \<Rightarrow> s' = s"
    using accept_presented_Err [of s src p] presented_after [of s src p]
    by (auto split: prod.splits result.splits simp del: map_option_eq_Some)
  show "case RenderCommitState_consume_scroll_command s src k of
      (s', Ok u) \<Rightarrow> s' = s\<lparr>seen_scroll_commands := finsert (sc_command_id k) (seen_scroll_commands s)\<rparr>
      | (s', Err e) \<Rightarrow> s' = s"
    using consume_scroll_Err [of s src k]
    by (auto split: prod.splits result.splits simp: consume_scroll_Ok)
  show "case RenderCommitState_consume_semantic_action s src t of
      (s', Ok u) \<Rightarrow> s' = s\<lparr>seen_semantic_actions := finsert (sa_request_id t) (seen_semantic_actions s)\<rparr>
      | (s', Err e) \<Rightarrow> s' = s"
    using consume_action_Err [of s src t]
    by (auto split: prod.splits result.splits simp: consume_action_Ok)
qed

text \<open>An input target is only accepted for the presented commit at the current source
  revision, and names exactly one fragment of its geometry and, while the source is the one
  the commit was validated against, a node of the source.\<close>

theorem input_targets_resolve:
  assumes "RenderCommitState_validate_input_target s src q t = Ok ()"
    and "presented s = Some p" and "wf_commit src p"
  shows "rep_revision src = Some (it_revision t) \<and> it_displayed_commit_id t = commit_id p
    \<and> RenderReplica_contains_node src (it_node_id t)
    \<and> (\<exists>!g. g \<in> set (commit_geometry_index p) \<and> geo_fragment_id g = it_fragment_id t)"
proof -
  from assms(1,2) obtain g where g: "g \<in> set (commit_geometry_index p)"
    "geo_node_id g = it_node_id t" "geo_fragment_id g = it_fragment_id t"
    and ids: "rep_revision src = Some (it_revision t)" "it_displayed_commit_id t = commit_id p"
    by (auto simp: validate_input_target_Ok hit_test_ok_def)
  from assms(3) have "distinct (map geo_fragment_id (commit_geometry_index p))"
    "\<forall>g\<in>set (commit_geometry_index p). RenderReplica_contains_node src (geo_node_id g)"
    by (auto simp: wf_commit_def)
  with g ids show ?thesis by (auto simp: distinct_map inj_on_def)
qed

lemma ex_target_ok:
  "RenderCommitState_validate_input_target (commit_run RenderCommitState_default ex_present_run)
     ex_replica1 ex_hit ex_target = Ok ()"
  by (simp add: validate_input_target_Ok hit_test_ok_def ex_presented_state ex_replica1_source
      RENDER_PROTOCOL_VERSION_def ex_document_def)
     (simp add: ex_hit_def ex_target_def ex_commit_def RenderPoint_eq_def geometry_eval)

theorem input_targets_resolve_witness:
  "RenderReplica_contains_node ex_replica1 (it_node_id ex_target)
   \<and> (\<exists>!g. g \<in> set (commit_geometry_index (ex_commit 1)) \<and> geo_fragment_id g = it_fragment_id ex_target)"
  using input_targets_resolve [OF ex_target_ok _ ex_commit_wf [of 1]]
  by (simp add: ex_presented_state)

text \<open>A semantic action is only executed when the browser core advertises its kind on that
  semantic node at that action generation, the node is displayed by the presented commit,
  the source is still the one displayed, and the request was not executed before; executing
  it records the request.\<close>

theorem semantic_actions_authorised:
  assumes "RenderCommitState_consume_semantic_action s src t = (s', Ok ())"
  shows "\<exists>p m. presented s = Some p \<and> rep_revision src = Some (commit_revision p)
    \<and> RenderReplica_semantic_node src (sa_semantic_node_id t) = Some m
    \<and> sa_semantic_node_id t \<in> sb_semantic_node_id ` set (commit_semantic_bounds p)
    \<and> sem_action_generation m = sa_action_generation t
    \<and> RenderSemanticAction_kind (sa_action t) \<in> set (sem_actions m)
    \<and> sa_request_id t |\<notin>| seen_semantic_actions s \<and> sa_request_id t |\<in>| seen_semantic_actions s'"
  using assms by (auto simp: consume_action_Ok)

theorem semantic_actions_authorised_witness:
  "\<exists>m. RenderReplica_semantic_node ex_replica1 (Ident 5) = Some m
     \<and> RenderSemanticAction_kind (sa_action ex_action) \<in> set (sem_actions m)"
proof -
  have "RenderCommitState_consume_semantic_action
      (commit_run RenderCommitState_default ex_present_run) ex_replica1 ex_action =
      ((commit_run RenderCommitState_default ex_present_run)\<lparr>seen_semantic_actions := {|Ident 51|}\<rparr>,
       Ok ())"
    by (rule ex_action_step) (simp_all add: ex_presented_state)
  from semantic_actions_authorised [OF this] show ?thesis by (auto simp: ex_action_def)
qed

text \<open>The answer to a batch of text queries is accepted exactly when it is bound to the
  accepted commit and its results answer every query once, in any order, each with a value
  of the kind asked for and within the text of its node, with at most 4096 boxes in all.\<close>

theorem text_answers_exact:
  "RenderCommitState_validate_text_query_result s src b r = Ok () \<longleftrightarrow> text_response_ok s src b r"
  unfolding text_response_ok_def by (rule validate_text_query_result_Ok)

text \<open>C27: \<open>RenderCommit::validate\<close> accepts exactly the commits that describe the current
  source: same revision and viewport, no truncation, finite bounded geometry, duplicate-free
  fragments, scroll nodes and semantic bounds, and every reference resolved.\<close>

theorem commit_validation_exact:
  "RenderCommit_validate c src = Ok () \<longleftrightarrow> wf_commit src c"
  by (rule RenderCommit_validate_iff)

end
