(* ===== verification/Broker_Properties.thy ===== *)
theory Broker_Properties
  imports Broker_Checks Commit_Properties
begin

section \<open>Properties of the renderer broker\<close>

text \<open>The results on the broker as statements about every interleaving of its threads, with a
  concrete session they are applied to: a request is registered and answered, an update is
  published and delivered.\<close>

definition ex_encode :: "RenderBridgeUpdate \<Rightarrow> usize option" where
  "ex_encode u = Some 100"

definition ex_update :: RenderBridgeUpdate where
  "ex_update = ReleaseHandles (release_of (ex_commit 1))"

definition ex_reply :: RenderBrokerResponse where
  "ex_reply = \<lparr>resp_version = 1, resp_request_id = Ident 1, resp_kind = ResetResponse\<rparr>"

definition ex_opening :: "broker_event list" where
  "ex_opening = [Allocate, Register (Ident 1) (ResetRequest (Ident 7) (Ident 9)) 0 1000,
     Publish [ex_update]]"

definition ex_session :: "broker_event list" where
  "ex_session = ex_opening @ [Poll 1 0 (\<lambda>_. 1), Poll 1 0 (\<lambda>_. 1), Respond ex_reply 2, Send (Ident 1),
     Iterate (Ident 1) None 3, Return (Ident 1)]"

subsection \<open>The concrete session\<close>

lemma reachable_broker_run: "broker_reachable encode w \<Longrightarrow> broker_reachable encode (broker_run encode w es)"
  by (induction es arbitrary: w) (simp_all add: broker_reachable.step)

lemma ex_update_valid: "validate_update ex_encode ex_update = Ok ()"
  by (simp add: validate_update_Ok RenderBridgeUpdate_validate_def ex_update_def update_bytes_def
      ex_encode_def release_of_def validate_version_def size_limits)

definition ex_request :: RenderBrokerRequest where
  "ex_request = \<lparr>req_version = 1, req_request_id = Ident 1,
     req_kind = ResetRequest (Ident 7) (Ident 9)\<rparr>"

lemma ex_opened:
  "broker_run ex_encode RenderBroker_new ex_opening =
     \<lparr>next_request_id = 2, poisoned = False, closed = False,
      outbound = [QueuedRequest (Ident 1), QueuedUpdate ex_update],
      pending = [(Ident 1, \<lparr>pend_request = ex_request, pend_deadline = 1000\<rparr>)], submissions = [],
      allocated = [], in_flight = (\<lambda>_. None), reply_slots = (\<lambda>_. None),
      requesters = [Ident 1 \<mapsto> \<lparr>rq_request = ex_request, rq_deadline = 1000, rq_phase = Waiting\<rparr>]\<rparr>"
  by (simp add: ex_opening_def RenderBroker_new_def allocate_request_id_def checked_add_u64_def
      usize_max_def ident_new_def register_request_def RenderBrokerRequest_validate_def
      validate_version_def instant_checked_add_def instant_max_def lock_state_def size_limits
      RENDER_PROTOCOL_VERSION_def RenderBroker_publish_updates_def try_for_def ex_update_valid
      ensure_update_capacity_def saturating_add_usize_def is_queued_update_def ex_request_def
      Let_def)

lemma ex_opening_log:
  "broker_log ex_encode RenderBroker_new ex_opening = [Issued (Ident 1), Published ex_update]"
  by (simp add: ex_opening_def RenderBroker_new_def allocate_request_id_def checked_add_u64_def
      usize_max_def ident_new_def register_request_def RenderBrokerRequest_validate_def
      validate_version_def instant_checked_add_def instant_max_def lock_state_def size_limits
      RENDER_PROTOCOL_VERSION_def RenderBroker_publish_updates_def try_for_def ex_update_valid
      ensure_update_capacity_def saturating_add_usize_def is_queued_update_def Let_def)

lemma broker_run_append: "broker_run encode w (es @ fs) = broker_run encode (broker_run encode w es) fs"
  by (induction es arbitrary: w) simp_all

lemma broker_log_append:
  "broker_log encode w (es @ fs) = broker_log encode w es @ broker_log encode (broker_run encode w es) fs"
  by (induction es arbitrary: w) simp_all

lemmas ex_eval = ex_opened RenderBroker_poll_message_def poll_attempt_def instant_checked_add_def
  instant_max_def lock_state_def bt_get_def respond_take_def ex_reply_def ex_request_def Let_def
  RenderBrokerResponse_validate_for_def validate_version_def RENDER_PROTOCOL_VERSION_def
  matching_kind_def validate_response_kind_def forget_request_def bt_remove_def send_reply_def
  receiver_alive_def requester_iteration_def set_phase_def requester_return_def polled_effects_def

lemma ex_session_end:
  "requesters (broker_run ex_encode RenderBroker_new ex_session) (Ident 1) =
     Some \<lparr>rq_request = ex_request, rq_deadline = 1000, rq_phase = Returned (Ok ex_reply)\<rparr>"
  by (simp add: ex_session_def broker_run_append ex_eval)

lemma ex_session_log:
  "broker_log ex_encode RenderBroker_new ex_session =
     [Issued (Ident 1), Published ex_update, Requested ex_request, Delivered ex_update,
      Answered (Ident 1)]"
  by (simp add: ex_session_def broker_log_append ex_opening_log ex_eval)

subsection \<open>The properties\<close>

lemma length_outbound: "length q = length (queued_updates q) + length (queued_requests q)"
proof (induction q)
  case (Cons m q)
  then show ?case by (cases m) simp_all
qed simp

text \<open>In every interleaving the broker's queues stay bounded: at most 64 requests, 64 updates
  and 64 submissions, so at most 128 outbound messages; a request is queued at most once and
  only while it is pending, and a closed broker holds nothing.\<close>

theorem broker_queues_bounded:
  assumes "broker_reachable encode w"
  shows "length (pending w) \<le> 64 \<and> length (submissions w) \<le> 64 \<and> length (outbound w) \<le> 128
    \<and> distinct (queued_requests (outbound w))
    \<and> set (queued_requests (outbound w)) \<subseteq> set (bt_keys (pending w))
    \<and> (if closed w then pending w = [] \<and> outbound w = [] \<and> submissions w = [] else True)"
proof -
  have q: "queues_ok w" using reachable_broker_inv [OF assms] by (simp add: broker_inv_def)
  have keys: "dom (bt_get (pending w)) = set (bt_keys (pending w))"
    by (auto simp: bt_contains_key_iff [symmetric] bt_contains_key_def)
  have "length (queued_requests (outbound w)) \<le> length (pending w)"
    using q card_mono [OF finite_set, of "set (queued_requests (outbound w))" "bt_keys (pending w)"]
      card_length [of "bt_keys (pending w)"]
    by (simp add: queues_ok_def keys distinct_card) (simp add: bt_keys_def)
  with q show ?thesis
    by (auto simp: queues_ok_def keys size_limits length_outbound [of "outbound w"])
qed

theorem broker_queues_bounded_witness:
  "length (pending (broker_run ex_encode RenderBroker_new ex_opening)) \<le> 64
   \<and> queued_requests (outbound (broker_run ex_encode RenderBroker_new ex_opening)) = [Ident 1]"
  using broker_queues_bounded [OF reachable_broker_run [OF broker_reachable.start],
      of ex_encode ex_opening]
  by (simp add: ex_opened)

text \<open>C4: no request is lost. A requester that is still waiting has exactly one of: its request
  pending, its reply in flight, its reply in its channel; so its channel is never found
  disconnected, and a reply never waits for a full channel.\<close>

theorem waiting_requests_have_one_reply:
  assumes "broker_reachable encode w" and "requesters w i = Some q" and "rq_phase q = Waiting"
  shows "of_bool (bt_contains_key (pending w) i) + of_bool (in_flight w i \<noteq> None)
    + of_bool (reply_slots w i \<noteq> None) = (1::nat)"
  using requesters_okD [of w i] reachable_broker_inv [OF assms(1)] assms(2,3)
  by (auto simp: broker_inv_def request_ok_def bt_contains_key_def split: option.splits)

theorem waiting_requests_have_one_reply_witness:
  "of_bool (bt_contains_key (pending (broker_run ex_encode RenderBroker_new ex_opening)) (Ident 1))
   + of_bool (in_flight (broker_run ex_encode RenderBroker_new ex_opening) (Ident 1) \<noteq> None)
   + of_bool (reply_slots (broker_run ex_encode RenderBroker_new ex_opening) (Ident 1) \<noteq> None) = (1::nat)"
  by (rule waiting_requests_have_one_reply [OF reachable_broker_run [OF broker_reachable.start]])
     (simp add: ex_opened, simp)

text \<open>A request that returns a response returns one that was made for it: same identifier and
  version, the kind of the request, and either validated against the request or a
  cancellation or failure report.\<close>

theorem replies_fit_requests:
  assumes "broker_reachable encode w" and "requesters w i = Some q"
    and "rq_phase q = Returned (Ok r)"
  shows "req_request_id (rq_request q) = i \<and> answers r (rq_request q)"
  using requesters_okD [of w i] reachable_broker_inv [OF assms(1)] assms(2,3)
  by (auto simp: broker_inv_def request_ok_def)

theorem replies_fit_requests_witness: "answers ex_reply ex_request"
  using replies_fit_requests [OF reachable_broker_run [OF broker_reachable.start] ex_session_end]
  by simp

text \<open>C7: each request is answered at most once, by a response, a cancellation or the shutdown,
  however the threads interleave.\<close>

theorem requests_answered_at_most_once:
  "distinct (answered_in (broker_log encode RenderBroker_new es))"
  using answered_once [OF broker_inv_new] by blast

text \<open>A reply in its slot stays there and its requester keeps waiting, whatever the other threads do, until the requester looks.\<close>

definition reply_waits :: "RenderBroker \<Rightarrow> RenderRequestId \<Rightarrow> RenderBrokerResponse \<Rightarrow> requester \<Rightarrow> bool" where
  "reply_waits w i r q \<longleftrightarrow> reply_slots w i = Some r \<and> requesters w i = Some q \<and> rq_phase q = Waiting"

lemma leave_other:
  "j \<noteq> i \<Longrightarrow> reply_waits (leave_after_removal w j res) i r q = reply_waits w i r q"
  by (cases "lock_state w") (simp_all add: reply_waits_def leave_after_removal_def remove_pending_def set_phase_def)

lemma poll_keeps_reply:
  "reply_waits (fst (poll_attempt w clock deadline)) i r q = reply_waits w i r q"
  by (rule poll_attempt_cases [of w clock deadline]) (simp add: reply_waits_def)

lemma step_keeps_reply:
  assumes "broker_inv w" and "reply_waits w i r q" and "\<And>c t. e \<noteq> Iterate i c t"
  shows "reply_waits (broker_step encode w e) i r q"
proof (cases e)
  case Allocate
  with assms show ?thesis
    by (simp add: allocate_request_id_def reply_waits_def split: option.split)
next
  case (Register j k at t)
  have "j \<noteq> i" if "j \<in> set (allocated w)"
    using that assms(1,2) by (auto simp: broker_inv_def ids_ok_def reply_waits_def)
  then show ?thesis
    using assms(2) by (auto simp: Register reply_waits_def intro: register_request_cases [of w j k at t])
next
  case (Iterate j c t)
  then have "j \<noteq> i" using assms(3) by blast
  then show ?thesis
    using assms(2) leave_other [of j i]
    by (simp add: Iterate requester_iteration_def split: option.split) (simp add: reply_waits_def set_phase_def)
next
  case (Return j)
  with assms(2) show ?thesis
    by (cases "j = i") (auto simp: requester_return_def reply_waits_def set_phase_def split: option.splits requester_phase.splits)
next
  case (Publish us)
  with assms(2) publish_cases [of encode w us] show ?thesis
    by (cases "RenderBroker_publish_updates encode w us") (auto simp: reply_waits_def)
next
  case (Poll at t clock)
  with assms(2) poll_keeps_reply show ?thesis
    by (auto simp: RenderBroker_poll_message_def split: option.split result.split)
next
  case (Resume b clock d)
  with assms(2) poll_keeps_reply show ?thesis by (auto simp: poll_resume_def split: result.split)
next
  case (Submit x)
  with assms(2) submit_cases [of w x] show ?thesis
    by (cases "RenderBroker_submit w x") (auto simp: reply_waits_def)
next
  case (Consume x us)
  with assms(2) consume_cases [of encode w x us] show ?thesis
    by (cases "RenderBroker_consume_submission_with_updates encode w x us") (auto simp: reply_waits_def)
next
  case (Respond x now)
  with assms(2) show ?thesis by (auto simp: reply_waits_def intro: respond_take_cases [OF assms(1), of x now])
next
  case (Send j)
  have "in_flight w i = None"
    using requesters_okD [of w i] assms(1,2) by (auto simp: broker_inv_def request_ok_def reply_waits_def split: option.splits)
  with assms(2) show ?thesis
    by (auto simp: Send send_reply_def reply_waits_def Let_def split: option.split)
next
  case (Cancel j reason)
  with assms(2) show ?thesis
    by (cases "lock_state w") (auto simp: RenderBroker_cancel_def remove_pending_def reply_waits_def split: option.split)
next
  case Close
  with assms(2) show ?thesis
    by (cases "lock_state w") (auto simp: RenderBroker_shutdown_def reply_waits_def)
qed

lemma run_keeps_reply:
  assumes "broker_inv w" and "reply_waits w i r q" and "\<And>c t. Iterate i c t \<notin> set es"
  shows "reply_waits (broker_run encode w es) i r q \<and> broker_inv (broker_run encode w es)"
  using assms
proof (induction es arbitrary: w)
  case (Cons e es)
  have "reply_waits (broker_step encode w e) i r q"
    using Cons.prems by (intro step_keeps_reply) auto
  moreover have "broker_inv (broker_step encode w e)" using Cons.prems(1) by (rule broker_step_inv)
  ultimately show ?case using Cons.IH [of "broker_step encode w e"] Cons.prems(3) by simp
qed simp

text \<open>What the requester returns when it looks at its reply: it looks for a cancellation first, then at the
  deadline and only then into its channel.\<close>

lemma look_returns:
  assumes "broker_inv w" and "reply_waits w i r q"
  shows "map_option rq_phase (requesters (broker_run encode w [Iterate i c now, Return i]) i) = Some (Returned (case c of
      Some reason \<Rightarrow> Ok \<lparr>resp_version = RENDER_PROTOCOL_VERSION, resp_request_id = i, resp_kind = Cancelled reason\<rparr>
    | None \<Rightarrow> if now < rq_deadline q then Ok r
        else Err (RenderBrokerError_new ''render.timeout'' ''renderer request deadline expired'')))"
proof -
  have "lock_state w = Ok ()" using assms(1) by (simp add: broker_inv_def lock_state_ok)
  with assms(2) show ?thesis
    by (simp add: reply_waits_def requester_iteration_def requester_return_def leave_after_removal_def remove_pending_def
        set_phase_def split: option.split)
qed

text \<open>C9: a valid response to a pending request before its deadline is accepted and waits for the requester. Whatever
  the other threads do meanwhile, a requester that next looks before its deadline and is not cancelled returns exactly
  that response. A look that finds a cancellation returns the cancellation, and one after the deadline returns the timeout, although
  the response was accepted: the loop tests for both before it looks into the channel.\<close>

theorem response_reaches_requester:
  assumes "broker_reachable encode w" and "bt_get (pending w) (resp_request_id r) = Some p"
    and "now < pend_deadline p"
    and "RenderBrokerResponse_validate_for r (pend_request p) = Some (Ok ())"
    and "\<And>c t. Iterate (resp_request_id r) c t \<notin> set es"
  shows "\<exists>w'. RenderBroker_respond w r now = (w', Ok ())
    \<and> map_option rq_phase (requesters (broker_run encode w'
          (es @ [Iterate (resp_request_id r) cancellation now', Return (resp_request_id r)])) (resp_request_id r)) =
        Some (Returned (case cancellation of
            Some reason \<Rightarrow> Ok \<lparr>resp_version = RENDER_PROTOCOL_VERSION, resp_request_id = resp_request_id r, resp_kind = Cancelled reason\<rparr>
          | None \<Rightarrow> if now' < pend_deadline p then Ok r
              else Err (RenderBrokerError_new ''render.timeout'' ''renderer request deadline expired'')))"
proof -
  let ?i = "resp_request_id r"
  let ?q = "\<lparr>rq_request = pend_request p, rq_deadline = pend_deadline p, rq_phase = Waiting\<rparr>"
  have inv: "broker_inv w" using assms(1) by (rule reachable_broker_inv)
  have rq: "requesters w ?i = Some ?q"
    using requesters_okD [of w ?i] inv assms(2) by (simp add: broker_inv_def request_ok_def)
  define w' where "w' = broker_run encode w [Respond r now, Send ?i]"
  have "lock_state w = Ok ()" using inv by (simp add: broker_inv_def lock_state_ok)
  then have w': "RenderBroker_respond w r now = (w', Ok ())" and waits: "reply_waits w' ?i r ?q"
    using assms(2-4) rq
    by (simp_all add: w'_def RenderBroker_respond_def respond_take_def Let_def send_reply_def receiver_alive_def
        reply_waits_def)
  have "broker_inv w'" unfolding w'_def by (simp only: broker_run.simps) (intro broker_step_inv inv)
  note run = run_keeps_reply [OF this waits assms(5), of encode]
  from w' look_returns [OF conjunct2 [OF run] conjunct1 [OF run], of encode cancellation now'] show ?thesis
    by (simp only: broker_run_append requester.simps) blast
qed

theorem response_reaches_requester_witness:
  "\<exists>w'. RenderBroker_respond (broker_run ex_encode RenderBroker_new ex_opening) ex_reply 2 = (w', Ok ())
    \<and> map_option rq_phase (requesters (broker_run ex_encode w' [Poll 1 0 (\<lambda>_. 1), Close, Iterate (Ident 1) None 3, Return (Ident 1)])
         (Ident 1)) = Some (Returned (Ok ex_reply))"
proof -
  have id: "resp_request_id ex_reply = Ident 1" by (simp add: ex_reply_def)
  have valid: "RenderBrokerResponse_validate_for ex_reply ex_request = Some (Ok ())"
    by (simp add: ex_eval)
  show ?thesis
    using response_reaches_requester [OF reachable_broker_run [OF broker_reachable.start],
        of ex_encode ex_opening ex_reply "\<lparr>pend_request = ex_request, pend_deadline = 1000\<rparr>" 2 "[Poll 1 0 (\<lambda>_. 1), Close]" None 3] valid
    by (simp add: ex_opened id bt_get_def del: broker_run.simps)
qed

text \<open>C6: updates and submissions pass in order and without loss: until the broker is shut down,
  what was published is what was delivered followed by what is still queued, and what was
  delivered is a prefix of what was published in any case; likewise for submissions.\<close>

theorem traffic_in_order:
  "(let log = broker_log encode RenderBroker_new es; w = broker_run encode RenderBroker_new es
    in prefix (delivered_in log) (published_in log) \<and> prefix (consumed_in log) (submitted_in log)
       \<and> (if closed w then True
          else published_in log = delivered_in log @ queued_updates (outbound w)
            \<and> submitted_in log = consumed_in log @ submissions w))"
  using updates.in_order [OF broker_inv_new, of encode es]
    submits.in_order [OF broker_inv_new, of encode es]
  by (simp add: Let_def broker_log_out broker_run_foldl) (simp add: RenderBroker_new_def)

text \<open>Shutting down releases every waiting requester: nothing stays queued or pending, and
  each requester whose request was pending finds a shutdown cancellation.\<close>

theorem shutdown_releases_requesters:
  assumes "broker_reachable encode w" and "\<not> closed w" and "bt_get (pending w) i = Some p"
    and "now < pend_deadline p"
  shows "pending (broker_step encode w Close) = [] \<and> outbound (broker_step encode w Close) = []
    \<and> submissions (broker_step encode w Close) = []
    \<and> map_option rq_phase (requesters (broker_run encode w [Close, Send i, Iterate i None now]) i) =
        Some (Leaving (Ok \<lparr>resp_version = RENDER_PROTOCOL_VERSION, resp_request_id = i,
          resp_kind = Cancelled Shutdown\<rparr>))"
proof -
  have inv: "broker_inv w" using assms(1) by (rule reachable_broker_inv)
  have rq: "requesters w i = Some \<lparr>rq_request = pend_request p, rq_deadline = pend_deadline p,
      rq_phase = Waiting\<rparr>"
    using requesters_okD [of w i] inv assms(3) by (simp add: broker_inv_def request_ok_def)
  then show ?thesis
    using assms(2-4) lock_state_ok [of w] inv
    by (simp add: RenderBroker_shutdown_def broker_inv_def send_reply_def receiver_alive_def
        requester_iteration_def set_phase_def bt_contains_key_def Let_def)
qed

theorem shutdown_releases_requesters_witness:
  "map_option rq_phase (requesters (broker_run ex_encode (broker_run ex_encode RenderBroker_new ex_opening)
     [Close, Send (Ident 1), Iterate (Ident 1) None 3]) (Ident 1)) =
   Some (Leaving (Ok \<lparr>resp_version = RENDER_PROTOCOL_VERSION, resp_request_id = Ident 1,
     resp_kind = Cancelled Shutdown\<rparr>))"
  using shutdown_releases_requesters [OF reachable_broker_run [OF broker_reachable.start],
      of ex_encode ex_opening "Ident 1" "\<lparr>pend_request = ex_request, pend_deadline = 1000\<rparr>" 3]
  by (simp add: ex_opened bt_get_def)

text \<open>Every update the renderer receives passed the checks of \<open>validate_update\<close>: it is a
  valid message of the protocol, carries at most 512 KiB of strings and resources, and its
  encoding has at most 1 MiB.\<close>

theorem delivered_updates_validated:
  assumes "u \<in> set (delivered_in (broker_log encode RenderBroker_new es))"
  shows "RenderBridgeUpdate_validate u = Ok () \<and> update_bytes u \<le> 524288
    \<and> (\<exists>n. encode u = Some n \<and> n \<le> 1048576)"
proof -
  have "prefix (delivered_in (broker_log encode RenderBroker_new es))
      (published_in (broker_log encode RenderBroker_new es))"
    using updates.in_order [OF broker_inv_new, of encode es]
    by (simp add: broker_log_out) (simp add: RenderBroker_new_def)
  with assms have "u \<in> set (published_in (broker_log encode RenderBroker_new es))"
    by (auto simp: prefix_def)
  from published_log_valid [OF broker_inv_new this] show ?thesis
    by (simp add: validate_update_Ok size_limits)
qed

theorem delivered_updates_validated_witness:
  "RenderBridgeUpdate_validate ex_update = Ok () \<and> update_bytes ex_update \<le> 524288"
  using delivered_updates_validated [of ex_update ex_encode ex_session] by (simp add: ex_session_log)

text \<open>The size accounting is exact: \<open>update_source_size\<close> returns the number of bytes of all
  strings and resources of the update, and \<open>None\<close> exactly when that number does not fit a
  \<open>usize\<close>.\<close>

theorem update_size_exact:
  "update_source_size u = (if update_bytes u \<le> usize_max then Some (update_bytes u) else None)"
  by (simp add: update_source_size_eq capped_def)

text \<open>The transport boundary rejects nothing the core would accept: a commit, input target or
  text answer that BrowserCore accepts against its source and commit state also passes
  \<open>validate_for\<close> for the request it answers.\<close>

theorem transport_accepts_what_core_accepts:
  assumes "core_accepts s src (req_kind q) (resp_kind r)"
    and "resp_version r = RENDER_PROTOCOL_VERSION" and "resp_request_id r = req_request_id q"
  shows "RenderBrokerResponse_validate_for r q = Some (Ok ())"
  using assms by (rule transport_accepts)

theorem transport_accepts_what_core_accepts_witness:
  "RenderBrokerResponse_validate_for
     \<lparr>resp_version = 1, resp_request_id = Ident 1, resp_kind = HitTestResponse (Some ex_target)\<rparr>
     \<lparr>req_version = 1, req_request_id = Ident 1, req_kind = HitTestRequest ex_hit\<rparr> = Some (Ok ())"
proof (rule transport_accepts_what_core_accepts)
  show "core_accepts (commit_run RenderCommitState_default ex_present_run) ex_replica1
     (req_kind \<lparr>req_version = 1, req_request_id = Ident 1, req_kind = HitTestRequest ex_hit\<rparr>)
     (resp_kind \<lparr>resp_version = 1, resp_request_id = Ident 1,
       resp_kind = HitTestResponse (Some ex_target)\<rparr>)"
    using ex_target_ok by (simp add: core_accepts_def)
qed (simp_all add: RENDER_PROTOCOL_VERSION_def)

text \<open>The check of a response never panics: its \<open>unreachable!\<close> arm is not reached, and a
  response that passes is of the kind its request asked for and carries its identifier.\<close>

theorem response_check_total:
  "case RenderBrokerResponse_validate_for r q of
     None \<Rightarrow> False
   | Some (Ok u) \<Rightarrow> matching_kind (req_kind q) (resp_kind r) \<and> resp_request_id r = req_request_id q
   | Some (Err e) \<Rightarrow> True"
  using validate_for_total [of r q] answers_validated [of r q]
  by (auto simp: answers_def split: result.split)

text \<open>Request identifiers are issued in strictly increasing order, so none is reused.\<close>

theorem request_ids_increase:
  "sorted_wrt (<) (issued_in (broker_log encode RenderBroker_new es))"
  using issued_increase [OF broker_inv_new] by blast

end
