(* ===== verification/Renderer_View.thy ===== *)
theory Renderer_View
  imports Replica_Properties Broker_Properties
begin

section \<open>The renderer's view of the source\<close>

text \<open>
  The two halves of the protocol put together: the browser core publishes a snapshot and then one
  batch per successor through the broker, and the renderer applies what it polls to a replica. The
  lemmas relate the replica after any prefix of the stream to the snapshots; the property of the
  whole path is in \<open>Spec2Isabelle\<close>.
\<close>

text \<open>What the core publishes for a document: the first snapshot, then \<open>RenderMutationBatch::between\<close>
  consecutive ones.\<close>

fun batch_updates :: "FullRenderSnapshot \<Rightarrow> FullRenderSnapshot list \<Rightarrow> RenderBridgeUpdate list" where
  "batch_updates base [] = []"
| "batch_updates base (s # ss) =
     (case RenderMutationBatch_between base s of
        Ok b \<Rightarrow> MutationBatch b # batch_updates s ss
      | Err e \<Rightarrow> [])"

definition source_updates :: "FullRenderSnapshot \<Rightarrow> FullRenderSnapshot list \<Rightarrow> RenderBridgeUpdate list" where
  "source_updates s ss = FullSnapshot s # batch_updates s ss"

text \<open>Handle releases travel in the same stream and do not concern the source.\<close>

definition is_source_update :: "RenderBridgeUpdate \<Rightarrow> bool" where
  "is_source_update u \<longleftrightarrow> (case u of ReleaseHandles _ \<Rightarrow> False | _ \<Rightarrow> True)"

definition follow :: "RenderReplica \<Rightarrow> RenderBridgeUpdate \<Rightarrow> RenderReplica" where
  "follow r u =
     (case u of
        FullSnapshot s \<Rightarrow> fst (RenderReplica_accept_full_snapshot r s)
      | MutationBatch b \<Rightarrow> fst (RenderReplica_apply_batch r b)
      | ReleaseHandles _ \<Rightarrow> r)"

definition renderer_view :: "RenderBridgeUpdate list \<Rightarrow> RenderReplica" where
  "renderer_view us = foldl follow RenderReplica_default us"

lemma renderer_view_Nil [simp]: "renderer_view [] = RenderReplica_default"
  by (simp add: renderer_view_def)

lemma follow_filter: "foldl follow r us = foldl follow r (filter is_source_update us)"
  by (induction us arbitrary: r) (auto simp: follow_def is_source_update_def split: RenderBridgeUpdate.splits)

lemma batch_updates_length: "successors_ok s ss \<Longrightarrow> length (batch_updates s ss) = length ss"
  by (induction ss arbitrary: s) (auto simp: is_ok_iff)

lemma follow_batches:
  assumes "mirrors r s" and "successors_ok s ss" and "k \<le> length ss"
  shows "mirrors (foldl follow r (take k (batch_updates s ss))) ((s # ss) ! k)"
  using assms
proof (induction ss arbitrary: r s k)
  case (Cons t ss)
  show ?case
  proof (cases k)
    case (Suc j)
    from Cons.prems(2) obtain b where b: "RenderMutationBatch_between s t = Ok b"
      by (auto simp: is_ok_iff)
    from apply_between [OF Cons.prems(1) b] Cons.prems(2) obtain r'
      where r': "RenderReplica_apply_batch r b = (r', Ok (Applied (snap_revision t)))" "mirrors r' t"
      by auto
    with Cons.IH [of r' t j] Cons.prems Suc b show ?thesis by (simp add: follow_def)
  qed (use Cons.prems in simp)
qed simp

lemma view_of_prefix:
  assumes "FullRenderSnapshot_validate s = Ok ()" and "successors_ok s ss"
    and "prefix us (source_updates s ss)" and "us \<noteq> []"
  shows "mirrors (renderer_view us) ((s # ss) ! (length us - 1))"
proof -
  from assms(3,4) obtain vs where us: "us = FullSnapshot s # vs" and vs: "prefix vs (batch_updates s ss)"
    by (cases us) (auto simp: source_updates_def)
  from vs have "vs = take (length vs) (batch_updates s ss)" "length vs \<le> length ss"
    using prefix_length_le [OF vs] by (auto simp: prefix_def batch_updates_length [OF assms(2)])
  moreover from accept_mirrors [OF assms(1)] obtain r
    where "RenderReplica_accept_full_snapshot RenderReplica_default s = (r, Ok ())" "mirrors r s"
    by blast
  ultimately show ?thesis
    using follow_batches [of r s ss "length vs"] assms(2)
    by (simp add: us renderer_view_def follow_def)
qed

lemma prefix_filter: "prefix xs ys \<Longrightarrow> prefix (filter p xs) (filter p ys)"
  by (auto simp: prefix_def)

end
