(* ===== verification/Rust_Str.thy ===== *)
theory Rust_Str
  imports Prelude
begin

section \<open>String functions of the standard library\<close>

text \<open>
  What the engine uses of \<open>str\<close>, on UTF-8 bytes: \<open>trim\<close> strips the characters with the
  Unicode property \<open>White_Space\<close>, given here by their encodings, and
  \<open>to_ascii_lowercase\<close> changes only the bytes of the letters \<open>A\<close> to \<open>Z\<close>.
\<close>

definition byte :: "char \<Rightarrow> nat" where
  "byte c = of_char c"

definition to_ascii_lowercase_char :: "char \<Rightarrow> char" where
  "to_ascii_lowercase_char c =
     (if 65 \<le> byte c \<and> byte c \<le> 90 then char_of (byte c + 32) else c)"

definition to_ascii_lowercase :: "string \<Rightarrow> string" where
  "to_ascii_lowercase s = map to_ascii_lowercase_char s"

text \<open>The white space characters: one byte, U+0085 and U+00A0, U+1680, U+2000 to U+200A, U+2028,
  U+2029, U+202F, U+205F and U+3000.\<close>

definition white_space :: "string list" where
  "white_space = map (map char_of)
     ([[9], [10], [11], [12], [13], [32], [194, 133], [194, 160], [225, 154, 128]]
      @ map (\<lambda>b. [226, 128, b]) [128..<139]
      @ [[226, 128, 168], [226, 128, 169], [226, 128, 175], [226, 129, 159], [227, 128, 128::nat]])"

definition strip_one :: "string list \<Rightarrow> string \<Rightarrow> string option" where
  "strip_one ps s =
     find_map (\<lambda>p. if take (length p) s = p then Some (drop (length p) s) else None) ps"

text \<open>Every pattern is non-empty, so the length of the string bounds the repetitions.\<close>

primrec strip_all :: "nat \<Rightarrow> string list \<Rightarrow> string \<Rightarrow> string" where
  "strip_all 0 ps s = s"
| "strip_all (Suc n) ps s =
     (case strip_one ps s of None \<Rightarrow> s | Some t \<Rightarrow> strip_all n ps t)"

definition str_trim_start :: "string \<Rightarrow> string" where
  "str_trim_start s = strip_all (length s) white_space s"

definition str_trim_end :: "string \<Rightarrow> string" where
  "str_trim_end s = rev (strip_all (length s) (map rev white_space) (rev s))"

definition str_trim :: "string \<Rightarrow> string" where
  "str_trim s = str_trim_end (str_trim_start s)"

lemma to_ascii_lowercase_idem: "to_ascii_lowercase (to_ascii_lowercase s) = to_ascii_lowercase s"
  by (simp add: to_ascii_lowercase_def to_ascii_lowercase_char_def byte_def)

lemma strip_one_shorter:
  assumes "strip_one ps s = Some t" and "[] \<notin> set ps"
  shows "length t < length s"
proof -
  from find_map_eq_Some [OF assms(1) [unfolded strip_one_def]] obtain p where
    p: "p \<in> set ps" "take (length p) s = p" "t = drop (length p) s"
    by (auto split: if_splits)
  from p(1) assms(2) have "p \<noteq> []" by auto
  moreover from p(2) have "length p \<le> length s" by (metis length_take min.cobounded1)
  ultimately show ?thesis using p(3) by (cases p) auto
qed

text \<open>The bound is enough: nothing strippable is left.\<close>

lemma strip_all_done:
  "length s \<le> n \<Longrightarrow> [] \<notin> set ps \<Longrightarrow> strip_one ps (strip_all n ps s) = None"
proof (induction n arbitrary: s)
  case 0
  show ?case
  proof (cases "strip_one ps []")
    case (Some t)
    with 0 strip_one_shorter [OF Some] show ?thesis by simp
  qed (use 0 in simp)
next
  case (Suc n)
  then show ?case
    by (cases "strip_one ps s") (use strip_one_shorter [of ps s] Suc in fastforce)+
qed

lemma white_space_nonempty: "[] \<notin> set white_space"
  by (auto simp: white_space_def)

text \<open>No white space character begins or ends with a printable ASCII byte, so a string that does
  is left alone.\<close>

definition printable :: "char \<Rightarrow> bool" where
  "printable c \<longleftrightarrow> 32 < byte c \<and> byte c < 127"

lemma white_space_edges: "p \<in> set white_space \<Longrightarrow> \<not> printable (hd p) \<and> \<not> printable (last p)"
  by (auto simp: white_space_def printable_def byte_def)

lemma strip_one_none:
  assumes "\<And>p. p \<in> set ps \<Longrightarrow> p \<noteq> [] \<and> \<not> printable (hd p)" and "printable (hd s)" and "s \<noteq> []"
  shows "strip_one ps s = None"
proof -
  have "take (length p) s \<noteq> p" if "p \<in> set ps" for p
  proof
    assume take: "take (length p) s = p"
    from assms(1) [OF that] obtain c q where p: "p = c # q" by (cases p) auto
    with take assms(3) have "hd s = c" by (cases s) auto
    with assms(1) [OF that] assms(2) p show False by simp
  qed
  then show ?thesis by (auto simp: strip_one_def find_map_eq_None)
qed

lemma strip_all_none: "strip_one ps s = None \<Longrightarrow> strip_all n ps s = s"
  by (cases n) simp_all

lemma str_trim_printable:
  assumes "s \<noteq> []" and "printable (hd s)" and "printable (last s)"
  shows "str_trim s = s"
proof -
  have "strip_one white_space s = None"
    by (rule strip_one_none) (use assms white_space_edges white_space_nonempty in auto)
  moreover have "strip_one (map rev white_space) (rev s) = None"
  proof (rule strip_one_none)
    fix p
    assume "p \<in> set (map rev white_space)"
    then obtain q where "q \<in> set white_space" "p = rev q" by auto
    with white_space_edges white_space_nonempty show "p \<noteq> [] \<and> \<not> printable (hd p)"
      by (auto simp: hd_rev)
  qed (use assms in \<open>simp_all add: hd_rev\<close>)
  ultimately show ?thesis
    by (simp add: str_trim_def str_trim_start_def str_trim_end_def strip_all_none)
qed

subsection \<open>Splitting\<close>

text \<open>\<open>str::split\<close> with a slice of ASCII characters as its pattern: the pieces between the
  separators, empty ones included. An ASCII byte is never part of a longer UTF-8 sequence, so
  splitting at bytes splits at characters.\<close>

primrec str_split :: "char list \<Rightarrow> string \<Rightarrow> string list" where
  "str_split seps [] = [[]]"
| "str_split seps (c # s) =
     (if c \<in> set seps then [] # str_split seps s
      else (c # hd (str_split seps s)) # tl (str_split seps s))"

text \<open>\<open>str::eq_ignore_ascii_case\<close>.\<close>

definition eq_ignore_ascii_case :: "string \<Rightarrow> string \<Rightarrow> bool" where
  "eq_ignore_ascii_case a b \<longleftrightarrow> to_ascii_lowercase a = to_ascii_lowercase b"

lemma str_split_nonempty [simp]: "str_split seps s \<noteq> []"
  by (cases s) simp_all

lemma str_split_free:
  "set s \<inter> set seps = {} \<Longrightarrow> str_split seps s = [s]"
  by (induction s) auto

lemma str_split_append:
  "c \<in> set seps \<Longrightarrow> str_split seps (s @ c # t) = str_split seps s @ str_split seps t"
  by (induction s) auto

lemma str_split_pieces_free: "list_all (\<lambda>t. set t \<inter> set seps = {}) (str_split seps s)"
proof (induction s)
  case (Cons c s)
  then show ?case by (cases "str_split seps s") auto
qed simp

text \<open>\<open>str::split_once\<close> at an ASCII character, \<open>starts_with\<close> and \<open>ends_with\<close> with one.\<close>

primrec split_once :: "char \<Rightarrow> string \<Rightarrow> (string \<times> string) option" where
  "split_once d [] = None"
| "split_once d (c # s) =
     (if c = d then Some ([], s) else map_option (\<lambda>(a, b). (c # a, b)) (split_once d s))"

definition starts_with_char :: "char \<Rightarrow> string \<Rightarrow> bool" where
  "starts_with_char c s \<longleftrightarrow> s \<noteq> [] \<and> hd s = c"

definition ends_with_char :: "char \<Rightarrow> string \<Rightarrow> bool" where
  "ends_with_char c s \<longleftrightarrow> s \<noteq> [] \<and> last s = c"

text \<open>\<open>str::strip_suffix\<close> and \<open>str::starts_with\<close> with a string.\<close>

definition str_starts_with :: "string \<Rightarrow> string \<Rightarrow> bool" where
  "str_starts_with s p \<longleftrightarrow> take (length p) s = p"

definition strip_suffix :: "string \<Rightarrow> string \<Rightarrow> string option" where
  "strip_suffix s p =
     (if length p \<le> length s \<and> drop (length s - length p) s = p
      then Some (take (length s - length p) s) else None)"

definition trim_end_char :: "char \<Rightarrow> string \<Rightarrow> string" where
  "trim_end_char c s = rev (dropWhile (\<lambda>x. x = c) (rev s))"

text \<open>\<open>Vec<String>::join\<close>.\<close>

primrec str_join :: "string \<Rightarrow> string list \<Rightarrow> string" where
  "str_join sep [] = []"
| "str_join sep (p # ps) = (if ps = [] then p else p @ sep @ str_join sep ps)"

lemma split_once_Some: "split_once d s = Some (a, b) \<Longrightarrow> s = a @ d # b \<and> d \<notin> set a"
  by (induction s arbitrary: a) (auto split: if_splits)

lemma split_once_None: "split_once d s = None \<longleftrightarrow> d \<notin> set s"
  by (induction s) auto

lemma split_once_append: "d \<notin> set a \<Longrightarrow> split_once d (a @ d # b) = Some (a, b)"
  by (induction a) auto

lemma strip_suffix_Some: "strip_suffix s p = Some r \<longleftrightarrow> s = r @ p"
  by (auto simp: strip_suffix_def) (metis append_take_drop_id)

lemma str_starts_with_iff: "str_starts_with s p \<longleftrightarrow> (\<exists>r. s = p @ r)"
  by (auto simp: str_starts_with_def) (metis append_take_drop_id)

subsection \<open>Characters and numbers\<close>

text \<open>\<open>str::chars\<close>: the groups of bytes of the characters, and the code point of one.\<close>

definition continuation_byte :: "char \<Rightarrow> bool" where
  "continuation_byte c \<longleftrightarrow> 128 \<le> byte c \<and> byte c < 192"

function str_chars :: "string \<Rightarrow> string list" where
  "str_chars [] = []"
| "str_chars (c # s) =
     (c # takeWhile continuation_byte s) # str_chars (dropWhile continuation_byte s)"
  by pat_completeness auto
termination by (relation "measure length") (auto simp: le_imp_less_Suc length_dropWhile_le)

definition code_point :: "string \<Rightarrow> nat" where
  "code_point bs =
     (if length bs \<le> 1 then byte (hd bs)
      else foldl (\<lambda>n b. n * 64 + byte b mod 64) (byte (hd bs) mod 2 ^ (7 - length bs)) (tl bs))"

text \<open>\<open>str::split\<close> with a predicate on characters.\<close>

primrec split_chars :: "(string \<Rightarrow> bool) \<Rightarrow> string list \<Rightarrow> string list" where
  "split_chars p [] = [[]]"
| "split_chars p (c # cs) =
     (if p c then [] # split_chars p cs
      else (c @ hd (split_chars p cs)) # tl (split_chars p cs))"

definition is_ascii_digit :: "char \<Rightarrow> bool" where
  "is_ascii_digit c \<longleftrightarrow> 48 \<le> byte c \<and> byte c \<le> 57"

definition to_ascii_uppercase_char :: "char \<Rightarrow> char" where
  "to_ascii_uppercase_char c =
     (if 97 \<le> byte c \<and> byte c \<le> 122 then char_of (byte c - 32) else c)"

definition decimal :: "string \<Rightarrow> int" where
  "decimal ds = foldl (\<lambda>n c. 10 * n + (int (byte c) - 48)) 0 ds"

definition i64_min :: int where "i64_min = - 9223372036854775808"
definition i64_max :: int where "i64_max = 9223372036854775807"

text \<open>\<open>str::parse::<i64>\<close>, \<open>None\<close> for an error: an optional sign, then digits, in range.\<close>

definition parse_i64 :: "string \<Rightarrow> int option" where
  "parse_i64 s =
     (let sign = (if starts_with_char (CHR ''-'') s then -1 else 1);
          ds = (if starts_with_char (CHR ''-'') s \<or> starts_with_char (CHR ''+'') s then tl s else s);
          n = sign * decimal ds
      in if ds \<noteq> [] \<and> list_all is_ascii_digit ds \<and> i64_min \<le> n \<and> n \<le> i64_max
         then Some n else None)"

text \<open>\<open>str::parse::<u64>\<close>: an optional plus sign, then digits, in range.\<close>

definition parse_u64 :: "string \<Rightarrow> u64 option" where
  "parse_u64 s =
     (let ds = (if starts_with_char (CHR ''+'') s then tl s else s); n = decimal ds
      in if ds \<noteq> [] \<and> list_all is_ascii_digit ds \<and> n < 2 ^ 64 then Some (of_int n) else None)"

text \<open>Decimal output is read back.\<close>

lemma show_nat_digits: "list_all is_ascii_digit (show_nat n) \<and> show_nat n \<noteq> []"
proof (induction n rule: show_nat.induct)
  case (1 n)
  have "is_ascii_digit (char_of (48 + d))" if "d < 10" for d :: nat
    using that by (simp add: is_ascii_digit_def byte_def)
  with 1 show ?case by (simp add: show_nat.simps [of n])
qed

lemma decimal_show_nat: "decimal (show_nat n) = int n"
proof (induction n rule: show_nat.induct)
  case (1 n)
  show ?case
  proof (cases "n < 10")
    case True
    then show ?thesis by (simp add: show_nat.simps [of n] decimal_def byte_def)
  next
    case False
    then have "decimal (show_nat n) = 10 * decimal (show_nat (n div 10)) + int (n mod 10)"
      by (simp add: show_nat.simps [of n] decimal_def byte_def)
    with 1 False show ?thesis
      by (metis div_mult_mod_eq mult.commute of_nat_add of_nat_mult of_nat_numeral)
  qed
qed

lemma show_nat_inj: "show_nat a = show_nat b \<Longrightarrow> a = b"
  using decimal_show_nat by (metis of_nat_eq_iff)

text \<open>\<open>str::trim_matches\<close> with an ASCII character, \<open>strip_prefix\<close> of a slice.\<close>

definition trim_matches_char :: "char \<Rightarrow> string \<Rightarrow> string" where
  "trim_matches_char c s = trim_end_char c (dropWhile (\<lambda>x. x = c) s)"

definition strip_prefix :: "string \<Rightarrow> string \<Rightarrow> string option" where
  "strip_prefix s p = (if str_starts_with s p then Some (drop (length p) s) else None)"

lemma strip_prefix_Some: "strip_prefix s p = Some r \<longleftrightarrow> s = p @ r"
  by (auto simp: strip_prefix_def str_starts_with_iff)

subsection \<open>Valid UTF-8\<close>

text \<open>What \<open>String::from_utf8\<close> accepts. For the first two bytes of a longer sequence, the number of
  continuation bytes that must follow.\<close>

definition utf8_rest :: "nat \<Rightarrow> nat \<Rightarrow> nat option" where
  "utf8_rest a b =
     (if 194 \<le> a \<and> a \<le> 223 \<and> 128 \<le> b \<and> b \<le> 191 then Some 0
      else if a = 224 \<and> 160 \<le> b \<and> b \<le> 191 \<or> 225 \<le> a \<and> a \<le> 236 \<and> 128 \<le> b \<and> b \<le> 191
           \<or> a = 237 \<and> 128 \<le> b \<and> b \<le> 159 \<or> 238 \<le> a \<and> a \<le> 239 \<and> 128 \<le> b \<and> b \<le> 191 then Some 1
      else if a = 240 \<and> 144 \<le> b \<and> b \<le> 191 \<or> 241 \<le> a \<and> a \<le> 243 \<and> 128 \<le> b \<and> b \<le> 191
           \<or> a = 244 \<and> 128 \<le> b \<and> b \<le> 143 then Some 2
      else None)"

function utf8_valid :: "string \<Rightarrow> bool" where
  "utf8_valid [] = True"
| "utf8_valid (a # s) =
     (if byte a < 128 then utf8_valid s
      else (case s of
          [] \<Rightarrow> False
        | b # t \<Rightarrow> (case utf8_rest (byte a) (byte b) of
              None \<Rightarrow> False
            | Some n \<Rightarrow> n \<le> length t \<and> list_all continuation_byte (take n t) \<and> utf8_valid (drop n t))))"
  by pat_completeness auto
termination by (relation "measure length") auto

end
