(* ===== verification/Session_History.thy ===== *)
theory Session_History
  imports Rust_Str
begin

section \<open>Session history\<close>

text \<open>
  \<open>vixen-engine/src/history.rs\<close>: the stack of session-history entries with its cursor. A
  \<open>Vec\<close> holds at most \<open>isize::MAX\<close> elements, so the casts of \<open>go\<close> to \<open>i64\<close> are
  exact and the sum of an index and an \<open>i32\<close> does not overflow.
\<close>

datatype ScrollRestoration = Auto | Manual

definition ScrollRestoration_parse :: "string \<Rightarrow> ScrollRestoration option" where
  "ScrollRestoration_parse s =
     (let k = to_ascii_lowercase (str_trim s)
      in if k = ''auto'' then Some Auto else if k = ''manual'' then Some Manual else None)"

primrec ScrollRestoration_to_keyword :: "ScrollRestoration \<Rightarrow> string" where
  "ScrollRestoration_to_keyword Auto = ''auto''"
| "ScrollRestoration_to_keyword Manual = ''manual''"

type_synonym f32 = "32 word"

record HistoryElementScroll =
  hes_node_id :: usize
  hes_element_id :: "string option"
  hes_tag :: string
  hes_offset :: "f32 \<times> f32"

record HistoryScrollState =
  root_offset :: "f32 \<times> f32"
  element_offsets :: "HistoryElementScroll list"

record HistoryEntry =
  entry_url :: string
  entry_state :: "u8 list option"
  entry_scroll_restoration :: ScrollRestoration
  entry_scroll_state :: "HistoryScrollState option"
  entry_title :: "string option"

definition HistoryEntry_new :: "string \<Rightarrow> u8 list option \<Rightarrow> HistoryEntry" where
  "HistoryEntry_new url st = \<lparr>entry_url = url, entry_state = st, entry_scroll_restoration = Auto,
     entry_scroll_state = None, entry_title = None\<rparr>"

definition HistoryEntry_push_state :: "string \<Rightarrow> u8 list \<Rightarrow> HistoryEntry" where
  "HistoryEntry_push_state url st = \<lparr>entry_url = url, entry_state = Some st,
     entry_scroll_restoration = Auto, entry_scroll_state = None, entry_title = None\<rparr>"

definition HistoryEntry_navigation :: "string \<Rightarrow> HistoryEntry" where
  "HistoryEntry_navigation url = \<lparr>entry_url = url, entry_state = None,
     entry_scroll_restoration = Auto, entry_scroll_state = None, entry_title = None\<rparr>"

record SessionHistory =
  entries :: "HistoryEntry list"
  cursor :: usize

definition SessionHistory_new :: "HistoryEntry \<Rightarrow> SessionHistory" where
  "SessionHistory_new initial = \<lparr>entries = [initial], cursor = 0\<rparr>"

definition SessionHistory_length :: "SessionHistory \<Rightarrow> usize" where
  "SessionHistory_length h = length (entries h)"

definition SessionHistory_index :: "SessionHistory \<Rightarrow> usize" where
  "SessionHistory_index h = cursor h"

definition can_go_back :: "SessionHistory \<Rightarrow> bool" where
  "can_go_back h \<longleftrightarrow> 0 < cursor h"

definition can_go_forward :: "SessionHistory \<Rightarrow> bool" where
  "can_go_forward h \<longleftrightarrow> cursor h + 1 < length (entries h)"

text \<open>\<open>slice::get\<close>.\<close>

definition get_at :: "'a list \<Rightarrow> usize \<Rightarrow> 'a option" where
  "get_at xs i = (if i < length xs then Some (xs ! i) else None)"

definition SessionHistory_current :: "SessionHistory \<Rightarrow> HistoryEntry option" where
  "SessionHistory_current h = get_at (entries h) (cursor h)"

definition SessionHistory_url :: "SessionHistory \<Rightarrow> string option" where
  "SessionHistory_url h = map_option entry_url (SessionHistory_current h)"

definition SessionHistory_state :: "SessionHistory \<Rightarrow> u8 list option" where
  "SessionHistory_state h = Option.bind (SessionHistory_current h) entry_state"

definition SessionHistory_scroll_restoration :: "SessionHistory \<Rightarrow> ScrollRestoration" where
  "SessionHistory_scroll_restoration h =
     (case SessionHistory_current h of None \<Rightarrow> Auto | Some e \<Rightarrow> entry_scroll_restoration e)"

text \<open>\<open>if let Some(entry) = self.entries.get_mut(self.cursor)\<close> with an update of the entry.\<close>

definition update_current :: "(HistoryEntry \<Rightarrow> HistoryEntry) \<Rightarrow> SessionHistory \<Rightarrow> SessionHistory" where
  "update_current f h =
     (if cursor h < length (entries h)
      then h\<lparr>entries := (entries h)[cursor h := f (entries h ! cursor h)]\<rparr> else h)"

definition SessionHistory_set_scroll_restoration ::
    "SessionHistory \<Rightarrow> ScrollRestoration \<Rightarrow> SessionHistory" where
  "SessionHistory_set_scroll_restoration h v =
     update_current (\<lambda>e. e\<lparr>entry_scroll_restoration := v\<rparr>) h"

definition SessionHistory_set_current_scroll_state ::
    "SessionHistory \<Rightarrow> HistoryScrollState \<Rightarrow> SessionHistory" where
  "SessionHistory_set_current_scroll_state h st =
     update_current (\<lambda>e. e\<lparr>entry_scroll_state := Some st\<rparr>) h"

definition restoration_scroll_state :: "SessionHistory \<Rightarrow> HistoryScrollState option" where
  "restoration_scroll_state h =
     (case SessionHistory_current h of
        None \<Rightarrow> None
      | Some e \<Rightarrow> if entry_scroll_restoration e = Auto then entry_scroll_state e else None)"

definition SessionHistory_push :: "SessionHistory \<Rightarrow> HistoryEntry \<Rightarrow> SessionHistory \<times> usize" where
  "SessionHistory_push h entry =
     (let es = take (cursor h + 1) (entries h) @ [entry]
      in (\<lparr>entries = es, cursor = length es - 1\<rparr>, length es - 1))"

definition SessionHistory_replace :: "SessionHistory \<Rightarrow> HistoryEntry \<Rightarrow> SessionHistory" where
  "SessionHistory_replace h entry = update_current (\<lambda>_. entry) h"

definition SessionHistory_back :: "SessionHistory \<Rightarrow> SessionHistory \<times> HistoryEntry option" where
  "SessionHistory_back h =
     (if cursor h = 0 then (h, None)
      else let h' = h\<lparr>cursor := cursor h - 1\<rparr> in (h', SessionHistory_current h'))"

definition SessionHistory_forward :: "SessionHistory \<Rightarrow> SessionHistory \<times> HistoryEntry option" where
  "SessionHistory_forward h =
     (if length (entries h) \<le> cursor h + 1 then (h, None)
      else let h' = h\<lparr>cursor := cursor h + 1\<rparr> in (h', SessionHistory_current h'))"

definition SessionHistory_go :: "SessionHistory \<Rightarrow> 32 word \<Rightarrow> SessionHistory \<times> HistoryEntry option" where
  "SessionHistory_go h delta =
     (if delta = 0 then (h, SessionHistory_current h)
      else
        let target = int (cursor h) + sint delta
        in if target < 0 \<or> int (length (entries h)) \<le> target then (h, None)
           else let h' = h\<lparr>cursor := nat target\<rparr> in (h', SessionHistory_current h'))"

definition SessionHistory_with_entries :: "HistoryEntry list \<Rightarrow> usize \<Rightarrow> SessionHistory option" where
  "SessionHistory_with_entries es c =
     (if es = [] then None else Some \<lparr>entries = es, cursor = min c (length es - 1)\<rparr>)"

section \<open>The cursor invariant and what the stack means\<close>

text \<open>Every way a history is made or changed.\<close>

inductive history_reachable :: "SessionHistory \<Rightarrow> bool" where
  new: "history_reachable (SessionHistory_new e)"
| restored: "SessionHistory_with_entries es c = Some h \<Longrightarrow> history_reachable h"
| push: "history_reachable h \<Longrightarrow> history_reachable (fst (SessionHistory_push h e))"
| replace: "history_reachable h \<Longrightarrow> history_reachable (SessionHistory_replace h e)"
| backward: "history_reachable h \<Longrightarrow> history_reachable (fst (SessionHistory_back h))"
| forward: "history_reachable h \<Longrightarrow> history_reachable (fst (SessionHistory_forward h))"
| go: "history_reachable h \<Longrightarrow> history_reachable (fst (SessionHistory_go h d))"
| restoration: "history_reachable h \<Longrightarrow> history_reachable (SessionHistory_set_scroll_restoration h v)"
| scrolled: "history_reachable h \<Longrightarrow> history_reachable (SessionHistory_set_current_scroll_state h st)"

definition history_ok :: "SessionHistory \<Rightarrow> bool" where
  "history_ok h \<longleftrightarrow> cursor h < length (entries h)"

lemma update_current_ok [simp]: "history_ok (update_current f h) = history_ok h"
  by (simp add: history_ok_def update_current_def)

lemma history_ops_ok:
  "history_ok h \<Longrightarrow> history_ok (fst (SessionHistory_push h e))"
  "history_ok h \<Longrightarrow> history_ok (fst (SessionHistory_back h))"
  "history_ok h \<Longrightarrow> history_ok (fst (SessionHistory_forward h))"
  "history_ok h \<Longrightarrow> history_ok (fst (SessionHistory_go h d))"
  by (auto simp: history_ok_def SessionHistory_push_def SessionHistory_back_def
      SessionHistory_forward_def SessionHistory_go_def Let_def)

lemma reachable_history_ok: "history_reachable h \<Longrightarrow> history_ok h"
proof (induction rule: history_reachable.induct)
  case (restored es c h)
  then show ?case
    by (cases es) (auto simp: SessionHistory_with_entries_def history_ok_def)
qed (simp_all add: history_ops_ok SessionHistory_replace_def SessionHistory_set_scroll_restoration_def
    SessionHistory_set_current_scroll_state_def,
    simp add: SessionHistory_new_def history_ok_def)

text \<open>The abstract history: the entries behind the current one, nearest first, the current
  entry, and the entries ahead of it.\<close>

type_synonym zipper = "HistoryEntry list \<times> HistoryEntry \<times> HistoryEntry list"

definition history_zipper :: "SessionHistory \<Rightarrow> zipper" where
  "history_zipper h = (rev (take (cursor h) (entries h)), entries h ! cursor h,
     drop (Suc (cursor h)) (entries h))"

fun zip_back :: "zipper \<Rightarrow> zipper" where
  "zip_back (b # bs, c, fs) = (bs, b, c # fs)"
| "zip_back ([], c, fs) = ([], c, fs)"

fun zip_forward :: "zipper \<Rightarrow> zipper" where
  "zip_forward (bs, c, f # fs) = (c # bs, f, fs)"
| "zip_forward (bs, c, []) = (bs, c, [])"

fun zip_push :: "HistoryEntry \<Rightarrow> zipper \<Rightarrow> zipper" where
  "zip_push e (bs, c, fs) = (c # bs, e, [])"

fun zip_update :: "(HistoryEntry \<Rightarrow> HistoryEntry) \<Rightarrow> zipper \<Rightarrow> zipper" where
  "zip_update f (bs, c, fs) = (bs, f c, fs)"

fun zip_current :: "zipper \<Rightarrow> HistoryEntry" where
  "zip_current (bs, c, fs) = c"

lemma current_zipper:
  "history_ok h \<Longrightarrow> SessionHistory_current h = Some (zip_current (history_zipper h))"
  by (simp add: SessionHistory_current_def get_at_def history_ok_def history_zipper_def)

lemma push_zipper:
  "history_ok h \<Longrightarrow> history_zipper (fst (SessionHistory_push h e)) = zip_push e (history_zipper h)"
  by (simp add: history_zipper_def SessionHistory_push_def Let_def history_ok_def take_Suc_conv_app_nth
      nth_append)

lemma update_zipper:
  "history_ok h \<Longrightarrow> history_zipper (update_current f h) = zip_update f (history_zipper h)"
  by (simp add: history_zipper_def update_current_def history_ok_def)

lemma back_zipper:
  assumes "history_ok h"
  shows "history_zipper (fst (SessionHistory_back h)) = zip_back (history_zipper h)"
proof (cases "cursor h")
  case (Suc n)
  with assms have "take (Suc n) (entries h) = take n (entries h) @ [entries h ! n]"
    "drop (Suc n) (entries h) = entries h ! Suc n # drop (Suc (Suc n)) (entries h)"
    by (simp_all add: history_ok_def take_Suc_conv_app_nth Cons_nth_drop_Suc)
  with Suc show ?thesis by (simp add: history_zipper_def SessionHistory_back_def Let_def)
qed (simp add: history_zipper_def SessionHistory_back_def)

lemma forward_zipper:
  assumes "history_ok h"
  shows "history_zipper (fst (SessionHistory_forward h)) = zip_forward (history_zipper h)"
proof (cases "Suc (cursor h) < length (entries h)")
  case True
  with assms have "take (Suc (cursor h)) (entries h) = take (cursor h) (entries h) @ [entries h ! cursor h]"
    "drop (Suc (cursor h)) (entries h) =
       entries h ! Suc (cursor h) # drop (Suc (Suc (cursor h))) (entries h)"
    by (simp_all add: history_ok_def take_Suc_conv_app_nth Cons_nth_drop_Suc)
  with True show ?thesis by (simp add: history_zipper_def SessionHistory_forward_def Let_def)
qed (simp add: history_zipper_def SessionHistory_forward_def)

section \<open>The interface of a history\<close>

text \<open>What the navigation layer relies on: operations that act on the abstract history as their
  names say.\<close>

locale history_stack =
  fixes ok :: "'h \<Rightarrow> bool"
    and abs :: "'h \<Rightarrow> zipper"
    and push :: "'h \<Rightarrow> HistoryEntry \<Rightarrow> 'h"
    and update :: "(HistoryEntry \<Rightarrow> HistoryEntry) \<Rightarrow> 'h \<Rightarrow> 'h"
    and backward :: "'h \<Rightarrow> 'h"
    and forward :: "'h \<Rightarrow> 'h"
  assumes keeps_ok: "ok h \<Longrightarrow> ok (push h e)" "ok h \<Longrightarrow> ok (update f h)" "ok h \<Longrightarrow> ok (backward h)"
      "ok h \<Longrightarrow> ok (forward h)"
    and abs_push: "ok h \<Longrightarrow> abs (push h e) = zip_push e (abs h)"
    and abs_update: "ok h \<Longrightarrow> abs (update f h) = zip_update f (abs h)"
    and abs_backward: "ok h \<Longrightarrow> abs (backward h) = zip_back (abs h)"
    and abs_forward: "ok h \<Longrightarrow> abs (forward h) = zip_forward (abs h)"
begin

lemma backward_after_push:
  "ok h \<Longrightarrow> abs h = (bs, c, fs) \<Longrightarrow> abs (backward (push h e)) = (bs, c, [e])"
  by (simp add: abs_backward abs_push keeps_ok)

lemma forward_after_backward:
  "ok h \<Longrightarrow> abs h = (b # bs, c, fs) \<Longrightarrow> abs (forward (backward h)) = abs h"
  by (simp add: abs_backward abs_forward keeps_ok)

lemma backward_after_forward:
  "ok h \<Longrightarrow> abs h = (bs, c, f # fs) \<Longrightarrow> abs (backward (forward h)) = abs h"
  by (simp add: abs_backward abs_forward keeps_ok)

lemma forward_branch_dropped:
  "ok h \<Longrightarrow> abs (forward (push h e)) = abs (push h e)"
  by (cases "abs h") (simp add: abs_forward abs_push keeps_ok)

end

interpretation session: history_stack history_ok history_zipper "\<lambda>h e. fst (SessionHistory_push h e)"
  update_current "\<lambda>h. fst (SessionHistory_back h)" "\<lambda>h. fst (SessionHistory_forward h)"
  by unfold_locales
     (simp_all add: history_ops_ok push_zipper update_zipper back_zipper forward_zipper)

lemma zipper_inj:
  assumes "history_ok h" and "history_ok h'" and "history_zipper h = history_zipper h'"
  shows "h = h'"
proof -
  have parts: "entries g = take (cursor g) (entries g) @ entries g ! cursor g # drop (Suc (cursor g)) (entries g)"
    and len: "length (take (cursor g) (entries g)) = cursor g" if "history_ok g" for g
    using that by (simp_all add: history_ok_def id_take_nth_drop)
  from assms(3) have eq: "take (cursor h) (entries h) = take (cursor h') (entries h')"
    "entries h ! cursor h = entries h' ! cursor h'"
    "drop (Suc (cursor h)) (entries h) = drop (Suc (cursor h')) (entries h')"
    by (simp_all add: history_zipper_def)
  have "cursor h = cursor h'" using len [OF assms(1)] len [OF assms(2)] eq(1) by simp
  moreover have "entries h = entries h'" using parts [OF assms(1)] parts [OF assms(2)] eq by metis
  ultimately show ?thesis by simp
qed

section \<open>Moving by several entries\<close>

lemma iterate_forward:
  "cursor h + n < length (entries h) \<Longrightarrow>
     ((\<lambda>h. fst (SessionHistory_forward h)) ^^ n) h = h\<lparr>cursor := cursor h + n\<rparr>"
  by (induction n) (simp_all add: SessionHistory_forward_def Let_def)

lemma iterate_backward:
  "n \<le> cursor h \<Longrightarrow> ((\<lambda>h. fst (SessionHistory_back h)) ^^ n) h = h\<lparr>cursor := cursor h - n\<rparr>"
  by (induction n) (auto simp: SessionHistory_back_def Let_def)

definition go_target :: "SessionHistory \<Rightarrow> 32 word \<Rightarrow> int" where
  "go_target h d = int (cursor h) + sint d"

lemma go_in_range:
  assumes "history_ok h" and "0 \<le> go_target h d" and "go_target h d < int (length (entries h))"
  shows "fst (SessionHistory_go h d) =
    (if 0 \<le> sint d then ((\<lambda>h. fst (SessionHistory_forward h)) ^^ nat (sint d)) h
     else ((\<lambda>h. fst (SessionHistory_back h)) ^^ nat (- sint d)) h)"
proof -
  have zero: "d = 0 \<longleftrightarrow> sint d = 0" by (simp add: signed_eq_0_iff)
  show ?thesis
  proof (cases "0 \<le> sint d")
    case True
    then have "cursor h + nat (sint d) < length (entries h)" using assms by (simp add: go_target_def)
    from iterate_forward [OF this] True assms show ?thesis
      by (auto simp: SessionHistory_go_def go_target_def Let_def zero nat_add_distrib)
  next
    case False
    then have "nat (- sint d) \<le> cursor h" using assms by (simp add: go_target_def)
    moreover have "nat (int (cursor h) + sint d) = cursor h - nat (- sint d)" using False by simp
    ultimately show ?thesis using iterate_backward False assms
      by (auto simp: SessionHistory_go_def go_target_def Let_def zero)
  qed
qed

lemma go_out_of_range:
  assumes "d \<noteq> 0" and "go_target h d < 0 \<or> int (length (entries h)) \<le> go_target h d"
  shows "SessionHistory_go h d = (h, None)"
  using assms by (auto simp: SessionHistory_go_def go_target_def Let_def)

section \<open>Properties\<close>

definition ex_history :: SessionHistory where
  "ex_history = fst (SessionHistory_back (fst (SessionHistory_push
     (SessionHistory_new (HistoryEntry_navigation ''https://a/''))
     (HistoryEntry_push_state ''https://a/1'' [1]))))"

lemma ex_history_reachable: "history_reachable ex_history"
  unfolding ex_history_def by (intro history_reachable.intros)

lemma ex_history_eq: "ex_history = \<lparr>entries = [HistoryEntry_navigation ''https://a/'',
    HistoryEntry_push_state ''https://a/1'' [1]], cursor = 0\<rparr>"
  by (simp add: ex_history_def SessionHistory_new_def SessionHistory_push_def SessionHistory_back_def
      Let_def)

text \<open>However a history is made and changed, it has at least one entry and its cursor points
  at one, so there always is a current entry.\<close>

theorem history_always_has_current:
  assumes "history_reachable h"
  shows "0 < SessionHistory_length h \<and> SessionHistory_index h < SessionHistory_length h
    \<and> SessionHistory_current h = Some (entries h ! cursor h)"
  using reachable_history_ok [OF assms]
  by (auto simp: history_ok_def SessionHistory_length_def SessionHistory_index_def
      SessionHistory_current_def get_at_def)

theorem history_always_has_current_witness:
  "SessionHistory_current ex_history = Some (HistoryEntry_navigation ''https://a/'')"
  using history_always_has_current [OF ex_history_reachable] by (simp add: ex_history_eq)

text \<open>C29: the stack with its cursor implements the abstract history of entries behind, current
  entry and entries ahead: pushing drops what was ahead, replacing changes only the current
  entry, back and forward move one entry across, and stop at the ends.\<close>

theorem history_refines_zipper:
  assumes "history_reachable h"
  shows "history_zipper (fst (SessionHistory_push h e)) = zip_push e (history_zipper h)
    \<and> history_zipper (SessionHistory_replace h e) = zip_update (\<lambda>_. e) (history_zipper h)
    \<and> history_zipper (fst (SessionHistory_back h)) = zip_back (history_zipper h)
    \<and> history_zipper (fst (SessionHistory_forward h)) = zip_forward (history_zipper h)
    \<and> SessionHistory_current h = Some (zip_current (history_zipper h))"
  using reachable_history_ok [OF assms] session.abs_push session.abs_update session.abs_backward
    session.abs_forward current_zipper
  by (simp add: SessionHistory_replace_def)

theorem history_refines_zipper_witness:
  "history_zipper (fst (SessionHistory_push ex_history (HistoryEntry_navigation ''https://b/''))) =
     ([HistoryEntry_navigation ''https://a/''], HistoryEntry_navigation ''https://b/'', [])"
proof -
  have "history_zipper (fst (SessionHistory_push ex_history (HistoryEntry_navigation ''https://b/''))) =
      zip_push (HistoryEntry_navigation ''https://b/'') (history_zipper ex_history)"
    using history_refines_zipper [OF ex_history_reachable] by blast
  then show ?thesis by (simp add: ex_history_eq history_zipper_def)
qed

text \<open>Traversals are inverse to each other: back then forward, and forward then back, return
  to the very same history when there is an entry to go to; going back after a push returns
  to the entry that was current, with only the pushed entry ahead.\<close>

theorem history_traversal_inverse:
  assumes "history_reachable h"
  shows "(if can_go_back h then fst (SessionHistory_forward (fst (SessionHistory_back h))) = h else True)
    \<and> (if can_go_forward h then fst (SessionHistory_back (fst (SessionHistory_forward h))) = h else True)
    \<and> history_zipper (fst (SessionHistory_back (fst (SessionHistory_push h e)))) =
        (fst (history_zipper h), zip_current (history_zipper h), [e])"
proof -
  have ok: "history_ok h" using assms by (rule reachable_history_ok)
  obtain bs c fs where z: "history_zipper h = (bs, c, fs)" by (cases "history_zipper h")
  have "bs \<noteq> []" if "can_go_back h"
    using that z ok by (auto simp: can_go_back_def history_zipper_def history_ok_def)
  then have "fst (SessionHistory_forward (fst (SessionHistory_back h))) = h" if "can_go_back h"
    using that z session.forward_after_backward [OF ok] zipper_inj history_ops_ok(2,3) ok
    by (metis list.exhaust)
  moreover have "fs \<noteq> []" if "can_go_forward h"
    using that z by (auto simp: can_go_forward_def history_zipper_def)
  then have "fst (SessionHistory_back (fst (SessionHistory_forward h))) = h" if "can_go_forward h"
    using that z session.backward_after_forward [OF ok] zipper_inj history_ops_ok(2,3) ok
    by (metis list.exhaust)
  ultimately show ?thesis using session.backward_after_push [OF ok z] by (simp add: z)
qed

theorem history_traversal_inverse_witness:
  "can_go_forward ex_history
   \<and> fst (SessionHistory_back (fst (SessionHistory_forward ex_history))) = ex_history"
proof -
  have "can_go_forward ex_history" by (simp add: can_go_forward_def ex_history_eq)
  with history_traversal_inverse [OF ex_history_reachable] show ?thesis by simp
qed

text \<open>\<open>go(delta)\<close> is \<open>|delta|\<close> single steps when the target exists, and otherwise leaves
  the history unchanged and returns nothing.\<close>

theorem history_go_is_iteration:
  assumes "history_reachable h"
  shows "if 0 \<le> go_target h d \<and> go_target h d < int (length (entries h))
    then fst (SessionHistory_go h d) =
      (if 0 \<le> sint d then ((\<lambda>h. fst (SessionHistory_forward h)) ^^ nat (sint d)) h
       else ((\<lambda>h. fst (SessionHistory_back h)) ^^ nat (- sint d)) h)
    else SessionHistory_go h d = (h, None)"
proof -
  have ok: "history_ok h" using assms by (rule reachable_history_ok)
  have "d \<noteq> 0" if "go_target h d < 0 \<or> int (length (entries h)) \<le> go_target h d"
    using that ok by (auto simp: go_target_def history_ok_def)
  with go_in_range [OF ok, of d] go_out_of_range [of d h] show ?thesis by (auto simp: not_le not_less)
qed

theorem history_go_is_iteration_witness:
  "fst (SessionHistory_go ex_history 1) = fst (SessionHistory_forward ex_history)
   \<and> SessionHistory_go ex_history (- 1) = (ex_history, None)"
  using history_go_is_iteration [OF ex_history_reachable, of 1]
    history_go_is_iteration [OF ex_history_reachable, of "- 1"]
  by (simp add: go_target_def ex_history_eq)

text \<open>A scroll restoration keyword survives being written and parsed.\<close>

theorem scroll_restoration_roundtrip:
  "ScrollRestoration_parse (ScrollRestoration_to_keyword k) = Some k"
proof -
  have "str_trim (ScrollRestoration_to_keyword k) = ScrollRestoration_to_keyword k"
    by (rule str_trim_printable) (cases k; simp add: printable_def byte_def)+
  then show ?thesis
    by (cases k) (simp_all add: ScrollRestoration_parse_def to_ascii_lowercase_def
        to_ascii_lowercase_char_def byte_def)
qed

end
