(* ===== verification/Rust_Vec.thy ===== *)
theory Rust_Vec
  imports Prelude
begin

section \<open>Vectors\<close>

text \<open>
  What the engine uses of \<open>Vec\<close> and its iterators beyond lists: \<open>position\<close>, \<open>remove\<close>,
  \<open>swap_remove\<close> and \<open>min_by_key\<close>, with the lemmas that relate them to filtering, updating in place
  and the multiset of elements.
\<close>

text \<open>\<open>Iterator::position\<close>.\<close>

primrec position :: "('x \<Rightarrow> bool) \<Rightarrow> 'x list \<Rightarrow> usize option" where
  "position p [] = None"
| "position p (x # xs) = (if p x then Some 0 else map_option Suc (position p xs))"

definition vec_remove :: "'x list \<Rightarrow> usize \<Rightarrow> 'x list" where
  "vec_remove xs i = take i xs @ drop (Suc i) xs"

text \<open>\<open>Vec::swap_remove\<close> puts the last element in the place of the removed one.\<close>

definition swap_remove :: "'x list \<Rightarrow> usize \<Rightarrow> 'x list" where
  "swap_remove xs i =
     (if Suc i = length xs then butlast xs else (butlast xs)[i := last xs])"

text \<open>The index \<open>iter().enumerate().min_by_key\<close> finds: the first of the least.\<close>

primrec min_index_by :: "('x \<Rightarrow> 'k::linorder) \<Rightarrow> 'x list \<Rightarrow> usize option" where
  "min_index_by key [] = None"
| "min_index_by key (x # xs) =
     (case min_index_by key xs of
        None \<Rightarrow> Some 0
      | Some i \<Rightarrow> if key x \<le> key (xs ! i) then Some 0 else Some (Suc i))"

subsection \<open>Positions\<close>

lemma position_eq_None: "position p xs = None \<longleftrightarrow> (\<forall>x\<in>set xs. \<not> p x)"
  by (induction xs) auto

lemma position_update:
  "distinct xs \<Longrightarrow> position (\<lambda>t. t = x) xs = Some i \<Longrightarrow>
     xs[i := y] = map (\<lambda>t. if t = x then y else t) xs"
proof (induction xs arbitrary: i)
  case (Cons a xs)
  then show ?case by (auto split: if_splits simp: map_idI intro!: map_idI [symmetric])
qed simp

lemma position_remove:
  "distinct xs \<Longrightarrow> position (\<lambda>t. t = x) xs = Some i \<Longrightarrow> vec_remove xs i = filter (\<lambda>t. t \<noteq> x) xs"
proof (induction xs arbitrary: i)
  case (Cons a xs)
  then show ?case by (auto split: if_splits simp: vec_remove_def intro!: filter_True [symmetric])
qed simp

lemma position_SomeD: "position (\<lambda>t. t = x) xs = Some i \<Longrightarrow> x \<in> set xs"
  by (induction xs arbitrary: i) (auto split: if_splits)

lemma position_NoneD: "position (\<lambda>t. t = x) xs = None \<Longrightarrow> x \<notin> set xs"
  by (auto simp: position_eq_None)

lemma filter_absent: "x \<notin> set xs \<Longrightarrow> filter (\<lambda>t. t \<noteq> x) xs = xs"
  by (induction xs) auto

lemma position_Some:
  "position p xs = Some i \<Longrightarrow> i < length xs \<and> p (xs ! i) \<and> (\<forall>j<i. \<not> p (xs ! j))"
proof (induction xs arbitrary: i)
  case (Cons x xs)
  then show ?case by (auto split: if_splits simp: nth_Cons split: nat.splits)
qed simp

subsection \<open>Removing the least element\<close>

lemma min_index_by_None [simp]: "min_index_by key xs = None \<longleftrightarrow> xs = []"
  by (cases xs) (auto split: option.splits)

lemma min_index_by_Some:
  "min_index_by key xs = Some i \<Longrightarrow> i < length xs \<and> (\<forall>x\<in>set xs. key (xs ! i) \<le> key x)"
  by (induction xs arbitrary: i) (fastforce split: option.splits if_splits)+

lemma mset_swap_remove:
  assumes "i < length xs"
  shows "add_mset (xs ! i) (mset (swap_remove xs i)) = mset xs"
proof -
  have xs: "xs = butlast xs @ [last xs]" using assms by (metis append_butlast_last_id list.size(3) not_less0)
  show ?thesis
  proof (cases "Suc i = length xs")
    case True
    then have "xs ! i = last xs" using assms by (metis diff_Suc_1 last_conv_nth length_0_conv nat.simps(3))
    with True xs show ?thesis
      by (metis mset_append swap_remove_def union_mset_add_mset_right add.right_neutral mset.simps)
  next
    case False
    then have i: "i < length (butlast xs)" using assms by simp
    then have nth: "xs ! i = butlast xs ! i" by (simp add: nth_butlast)
    have "mset (swap_remove xs i) = add_mset (last xs) (mset (butlast xs) - {#butlast xs ! i#})"
      using False i by (simp add: swap_remove_def mset_update)
    moreover have "butlast xs ! i \<in># mset (butlast xs)" using i by simp
    moreover have "mset xs = add_mset (last xs) (mset (butlast xs))"
      using xs by (metis mset_append union_mset_add_mset_right add.right_neutral mset.simps)
    ultimately show ?thesis by (simp add: nth)
  qed
qed

lemma length_swap_remove: "i < length xs \<Longrightarrow> length (swap_remove xs i) = length xs - 1"
  by (simp add: swap_remove_def)

end
