(* ===== verification/Guarded_Refinement.thy ===== *)
theory Guarded_Refinement
  imports Prelude
begin

section \<open>An interface: operations that act on an abstraction or leave the state alone\<close>

text \<open>
  Several components are a value with operations that are either refused, and then change nothing,
  or act on an abstraction of the value. \<open>guarded_refinement\<close> states this contract once: \<open>step\<close>
  is the code, \<open>abs\<close> the abstraction, \<open>legal\<close> the calls that are not refused and \<open>spec\<close> their
  effect. Its lemmas are about sequences of calls. \<open>Token_List\<close> and \<open>Abort_Signal\<close> interpret it.
\<close>

locale guarded_refinement =
  fixes wf :: "'s \<Rightarrow> bool"
    and step :: "'s \<Rightarrow> 'op \<Rightarrow> 's"
    and abs :: "'s \<Rightarrow> 'a"
    and legal :: "'op \<Rightarrow> bool"
    and spec :: "'a \<Rightarrow> 'op \<Rightarrow> 'a"
  assumes step_wf: "wf s \<Longrightarrow> wf (step s op)"
    and step_legal: "wf s \<Longrightarrow> legal op \<Longrightarrow> abs (step s op) = spec (abs s) op"
    and step_refused: "wf s \<Longrightarrow> \<not> legal op \<Longrightarrow> step s op = s"
begin

lemma run_wf: "wf s \<Longrightarrow> wf (foldl step s ops)"
  by (induction ops arbitrary: s) (simp_all add: step_wf)

lemma run_abs: "wf s \<Longrightarrow> abs (foldl step s ops) = foldl spec (abs s) (filter legal ops)"
  by (induction ops arbitrary: s) (simp_all add: step_wf step_legal step_refused)

lemma run_refused: "wf s \<Longrightarrow> foldl step s ops = foldl step s (filter legal ops)"
  by (induction ops arbitrary: s) (simp_all add: step_wf step_refused)

text \<open>A property of the abstraction that no call can undo holds from the first state on.\<close>

lemma run_stable:
  assumes "wf s" and "P (abs s)" and "\<And>a op. P a \<Longrightarrow> P (spec a op)"
  shows "P (abs (foldl step s ops))"
proof -
  have "P (foldl spec a ops')" if "P a" for a ops'
    using that by (induction ops' arbitrary: a) (simp_all add: assms(3))
  with assms show ?thesis by (simp add: run_abs)
qed

end

end
