(* ===== verification/Token_List.thy ===== *)
theory Token_List
  imports Rust_Str Rust_Vec Guarded_Refinement
begin

section \<open>DOMTokenList\<close>

text \<open>
  \<open>vixen-engine/src/class_list.rs\<close>: the value behind \<open>classList\<close> and \<open>relList\<close>, an ordered
  list of distinct tokens with its parser, its serialiser and the mutating calls, each of which
  validates all its tokens before it changes anything. A method with \<open>&mut self\<close> returns the new
  value and its result. The lemmas show that every list reached by calls holds distinct valid
  tokens, that it survives being written to the attribute and parsed again, and that the calls act
  on the set of tokens as their names say.
\<close>

subsection \<open>Parser, serialiser and validator\<close>

definition ASCII_WHITESPACE :: "char list" where
  "ASCII_WHITESPACE = [CHR '' '', CHR 0x09, CHR 0x0A, CHR 0x0D, CHR 0x0C]"

datatype TokenListError = EmptyToken | WhitespaceInToken string

definition parse_token_set :: "string \<Rightarrow> string list" where
  "parse_token_set input =
     foldl (\<lambda>out token.
         if token = [] then out
         else if \<not> list_ex (\<lambda>t. t = token) out then out @ [token]
         else out)
       [] (str_split ASCII_WHITESPACE input)"

definition serialize_token_set :: "string list \<Rightarrow> string" where
  "serialize_token_set tokens =
     foldl (\<lambda>buf (i, t). (if 0 < i then buf @ '' '' else buf) @ t) [] (List.enumerate 0 tokens)"

definition validate_token :: "string \<Rightarrow> (unit, TokenListError) result" where
  "validate_token token =
     (if token = [] then Err EmptyToken
      else if list_ex (\<lambda>c. c \<in> set ASCII_WHITESPACE) token then Err (WhitespaceInToken token)
      else Ok ())"

subsection \<open>The list\<close>

record DomTokenList =
  tokens :: "string list"

definition DomTokenList_parse :: "string \<Rightarrow> DomTokenList" where
  "DomTokenList_parse attribute_value = \<lparr>tokens = parse_token_set attribute_value\<rparr>"

text \<open>\<open>if !seen.contains(&t) { seen.push(t) }\<close> for each token.\<close>

definition push_absent :: "string list \<Rightarrow> string list \<Rightarrow> string list" where
  "push_absent seen ts = foldl (\<lambda>seen t. if t \<notin> set seen then seen @ [t] else seen) seen ts"

definition DomTokenList_from_tokens :: "string list \<Rightarrow> DomTokenList" where
  "DomTokenList_from_tokens ts = \<lparr>tokens = push_absent [] ts\<rparr>"

definition DomTokenList_empty :: DomTokenList where
  "DomTokenList_empty = \<lparr>tokens = []\<rparr>"

definition DomTokenList_len :: "DomTokenList \<Rightarrow> usize" where
  "DomTokenList_len l = length (tokens l)"

definition DomTokenList_is_empty :: "DomTokenList \<Rightarrow> bool" where
  "DomTokenList_is_empty l \<longleftrightarrow> tokens l = []"

definition DomTokenList_item :: "DomTokenList \<Rightarrow> usize \<Rightarrow> string option" where
  "DomTokenList_item l index =
     (if index < length (tokens l) then Some (tokens l ! index) else None)"

definition DomTokenList_contains :: "DomTokenList \<Rightarrow> string \<Rightarrow> (bool, TokenListError) result" where
  "DomTokenList_contains l token =
     and_then (validate_token token) (\<lambda>_. Ok (list_ex (\<lambda>t. t = token) (tokens l)))"

text \<open>\<open>collect::<Result<Vec<_>, _>>()\<close> over the validated tokens: the first error stops it.\<close>

definition collect_valid :: "string list \<Rightarrow> (string list, TokenListError) result" where
  "collect_valid ts =
     try_fold (\<lambda>acc s. and_then (validate_token s) (\<lambda>_. Ok (acc @ [s]))) [] ts"

definition DomTokenList_add ::
    "DomTokenList \<Rightarrow> string list \<Rightarrow> DomTokenList \<times> (unit, TokenListError) result" where
  "DomTokenList_add l ts =
     try_in l (collect_valid ts) (\<lambda>collected.
       (l\<lparr>tokens := push_absent (tokens l) collected\<rparr>, Ok ()))"

definition DomTokenList_remove ::
    "DomTokenList \<Rightarrow> string list \<Rightarrow> DomTokenList \<times> (unit, TokenListError) result" where
  "DomTokenList_remove l ts =
     try_in l (collect_valid ts) (\<lambda>collected.
       (l\<lparr>tokens := filter (\<lambda>t. t \<notin> set collected) (tokens l)\<rparr>, Ok ()))"

definition DomTokenList_toggle ::
    "DomTokenList \<Rightarrow> string \<Rightarrow> bool option \<Rightarrow> DomTokenList \<times> (bool, TokenListError) result" where
  "DomTokenList_toggle l token force =
     try_in l (validate_token token) (\<lambda>_.
       let present = list_ex (\<lambda>t. t = token) (tokens l);
           after_add = (case force of None \<Rightarrow> \<not> present | Some True \<Rightarrow> True | Some False \<Rightarrow> False)
       in (if after_add \<and> \<not> present then l\<lparr>tokens := tokens l @ [token]\<rparr>
           else if \<not> after_add \<and> present then l\<lparr>tokens := filter (\<lambda>t. t \<noteq> token) (tokens l)\<rparr>
           else l,
           Ok after_add))"

definition DomTokenList_replace ::
    "DomTokenList \<Rightarrow> string \<Rightarrow> string \<Rightarrow> DomTokenList \<times> (bool, TokenListError) result" where
  "DomTokenList_replace l old new =
     try_in l (validate_token old) (\<lambda>_. try_in l (validate_token new) (\<lambda>_.
       case position (\<lambda>t. t = old) (tokens l) of
         None \<Rightarrow> (l, Ok False)
       | Some idx \<Rightarrow>
           if old = new then (l, Ok True)
           else (case position (\<lambda>t. t = new) (tokens l) of
               Some other \<Rightarrow> (l\<lparr>tokens := vec_remove (tokens l) idx\<rparr>, Ok True)
             | None \<Rightarrow> (l\<lparr>tokens := (tokens l)[idx := new]\<rparr>, Ok True))))"

definition DomTokenList_iter :: "DomTokenList \<Rightarrow> string list" where
  "DomTokenList_iter l = tokens l"

definition DomTokenList_serialize :: "DomTokenList \<Rightarrow> string" where
  "DomTokenList_serialize l = serialize_token_set (tokens l)"

definition DomTokenList_as_vec :: "DomTokenList \<Rightarrow> string list" where
  "DomTokenList_as_vec l = tokens l"

subsection \<open>Supported tokens\<close>

record SupportedTokens =
  supported_set :: "string list"

definition SupportedTokens_new :: "string list \<Rightarrow> SupportedTokens" where
  "SupportedTokens_new ts = \<lparr>supported_set = ts\<rparr>"

definition SupportedTokens_supports :: "SupportedTokens \<Rightarrow> string \<Rightarrow> bool" where
  "SupportedTokens_supports st token =
     list_ex (\<lambda>t. eq_ignore_ascii_case t (to_ascii_lowercase token)) (supported_set st)"

subsection \<open>What a call does\<close>

text \<open>A token is valid when it is not empty and holds no ASCII white space.\<close>

definition token_ok :: "string \<Rightarrow> bool" where
  "token_ok t \<longleftrightarrow> t \<noteq> [] \<and> set t \<inter> set ASCII_WHITESPACE = {}"

definition token_error :: "string \<Rightarrow> TokenListError" where
  "token_error t = (if t = [] then EmptyToken else WhitespaceInToken t)"

text \<open>The outcome of a call that validates its tokens in order before it acts.\<close>

definition validated :: "string list \<Rightarrow> 'r \<Rightarrow> ('r, TokenListError) result" where
  "validated ts r = (case find (\<lambda>t. \<not> token_ok t) ts of None \<Rightarrow> Ok r | Some t \<Rightarrow> Err (token_error t))"

definition first_occurrences :: "'x list \<Rightarrow> 'x list" where
  "first_occurrences xs = rev (remdups (rev xs))"

lemma first_occurrences_simps [simp]:
  "first_occurrences [] = []"
  "first_occurrences (xs @ [x]) =
     (if x \<in> set xs then first_occurrences xs else first_occurrences xs @ [x])"
  "set (first_occurrences xs) = set xs"
  "distinct (first_occurrences xs)"
  by (simp_all add: first_occurrences_def)

lemma first_occurrences_distinct: "distinct xs \<Longrightarrow> first_occurrences xs = xs"
  by (simp add: first_occurrences_def distinct_remdups_id)

lemma validate_token_eq: "validate_token t = (if token_ok t then Ok () else Err (token_error t))"
  by (auto simp: validate_token_def token_ok_def token_error_def list_ex_iff)

lemma collect_valid_eq: "collect_valid ts = validated ts ts"
proof -
  have "try_fold (\<lambda>acc s. and_then (validate_token s) (\<lambda>_. Ok (acc @ [s]))) acc ts
      = validated ts (acc @ ts)" for acc
    by (induction ts arbitrary: acc) (simp_all add: validated_def validate_token_eq cong: option.case_cong)
  then show ?thesis by (simp add: collect_valid_def)
qed

lemma push_absent_eq:
  assumes "distinct seen"
  shows "push_absent seen ts = first_occurrences (seen @ ts)"
proof (induction ts rule: rev_induct)
  case Nil
  then show ?case using assms by (simp add: push_absent_def first_occurrences_distinct)
next
  case (snoc t ts)
  have "push_absent seen (ts @ [t])
      = (if t \<notin> set (push_absent seen ts) then push_absent seen ts @ [t] else push_absent seen ts)"
    by (simp add: push_absent_def)
  also have "\<dots> = first_occurrences ((seen @ ts) @ [t])"
    by (simp only: snoc first_occurrences_simps(2,3) if_not_P if_P split: if_splits) simp
  finally show ?case by simp
qed

lemma parse_token_set_eq:
  "parse_token_set s = first_occurrences (filter (\<lambda>t. t \<noteq> []) (str_split ASCII_WHITESPACE s))"
proof -
  have "foldl (\<lambda>out token. if token = [] then out
          else if \<not> list_ex (\<lambda>t. t = token) out then out @ [token] else out) [] ts
      = first_occurrences (filter (\<lambda>t. t \<noteq> []) ts)" for ts
    by (induction ts rule: rev_induct) (auto simp: list_ex_iff)
  then show ?thesis by (simp add: parse_token_set_def)
qed

lemma parse_token_set_ok: "t \<in> set (parse_token_set s) \<Longrightarrow> token_ok t"
  using str_split_pieces_free [of ASCII_WHITESPACE s]
  by (auto simp: parse_token_set_eq token_ok_def list_all_iff)

subsection \<open>Serialisation\<close>

lemma serialize_snoc:
  "serialize_token_set (ts @ [t]) = (if ts = [] then t else serialize_token_set ts @ '' '' @ t)"
  by (auto simp: serialize_token_set_def enumerate_append_eq)

lemma serialize_single [simp]: "serialize_token_set [t] = t"
  using serialize_snoc [of "[]" t] by simp

lemma space_separates: "CHR '' '' \<in> set ASCII_WHITESPACE"
  by (simp add: ASCII_WHITESPACE_def)

lemma split_serialize:
  assumes "list_all token_ok ts" and "ts \<noteq> []"
  shows "str_split ASCII_WHITESPACE (serialize_token_set ts) = ts"
  using assms
proof (induction ts rule: rev_induct)
  case (snoc t ts)
  then have t: "str_split ASCII_WHITESPACE t = [t]"
    by (simp add: token_ok_def str_split_free)
  with snoc show ?case
    by (cases "ts = []") (simp_all add: serialize_snoc str_split_append space_separates)
qed simp

lemma parse_serialize:
  assumes "list_all token_ok ts" and "distinct ts"
  shows "parse_token_set (serialize_token_set ts) = ts"
proof (cases "ts = []")
  case True
  then show ?thesis by (simp add: serialize_token_set_def parse_token_set_eq)
next
  case False
  with assms have "filter (\<lambda>t. t \<noteq> []) ts = ts" by (auto simp: list_all_iff token_ok_def filter_id_conv)
  with assms False show ?thesis
    by (simp add: parse_token_set_eq split_serialize first_occurrences_distinct)
qed

subsection \<open>Sequences of calls\<close>

datatype token_call =
    Add "string list"
  | Remove "string list"
  | Toggle string "bool option"
  | Replace string string

primrec token_step :: "DomTokenList \<Rightarrow> token_call \<Rightarrow> DomTokenList" where
  "token_step l (Add ts) = fst (DomTokenList_add l ts)"
| "token_step l (Remove ts) = fst (DomTokenList_remove l ts)"
| "token_step l (Toggle t force) = fst (DomTokenList_toggle l t force)"
| "token_step l (Replace old new) = fst (DomTokenList_replace l old new)"

primrec call_tokens :: "token_call \<Rightarrow> string list" where
  "call_tokens (Add ts) = ts"
| "call_tokens (Remove ts) = ts"
| "call_tokens (Toggle t force) = [t]"
| "call_tokens (Replace old new) = [old, new]"

definition call_ok :: "token_call \<Rightarrow> bool" where
  "call_ok call \<longleftrightarrow> list_all token_ok (call_tokens call)"

text \<open>The effect of an accepted call on the set of tokens.\<close>

fun token_set_step :: "string set \<Rightarrow> token_call \<Rightarrow> string set" where
  "token_set_step S (Add ts) = S \<union> set ts"
| "token_set_step S (Remove ts) = S - set ts"
| "token_set_step S (Toggle t None) = (if t \<in> S then S - {t} else insert t S)"
| "token_set_step S (Toggle t (Some True)) = insert t S"
| "token_set_step S (Toggle t (Some False)) = S - {t}"
| "token_set_step S (Replace old new) = (if old \<in> S then insert new (S - {old}) else S)"

definition token_list_ok :: "DomTokenList \<Rightarrow> bool" where
  "token_list_ok l \<longleftrightarrow> distinct (tokens l) \<and> list_all token_ok (tokens l)"

text \<open>Closed forms of the four calls on a list of distinct tokens.\<close>

lemma validated_ok: "list_all token_ok ts \<Longrightarrow> validated ts r = Ok r"
  by (auto simp: validated_def list_all_iff find_None_iff split: option.splits)

lemma validated_bad: "\<not> list_all token_ok ts \<Longrightarrow> \<exists>e. validated ts r = Err e"
  by (auto simp: validated_def list_all_iff find_None_iff split: option.splits)

lemma DomTokenList_add_eq:
  assumes "distinct (tokens l)"
  shows "DomTokenList_add l ts =
    (if list_all token_ok ts then l\<lparr>tokens := first_occurrences (tokens l @ ts)\<rparr> else l,
     validated ts ())"
proof (cases "list_all token_ok ts")
  case True
  then show ?thesis
    by (simp add: DomTokenList_add_def collect_valid_eq validated_ok push_absent_eq assms)
next
  case False
  then show ?thesis
    by (auto simp: DomTokenList_add_def collect_valid_eq validated_def list_all_iff find_None_iff
        split: option.splits)
qed

lemma DomTokenList_remove_eq:
  "DomTokenList_remove l ts =
    (if list_all token_ok ts then l\<lparr>tokens := filter (\<lambda>t. t \<notin> set ts) (tokens l)\<rparr> else l,
     validated ts ())"
proof (cases "list_all token_ok ts")
  case True
  then show ?thesis by (simp add: DomTokenList_remove_def collect_valid_eq validated_ok)
next
  case False
  then show ?thesis
    by (auto simp: DomTokenList_remove_def collect_valid_eq validated_def list_all_iff find_None_iff
        split: option.splits)
qed

definition toggled :: "DomTokenList \<Rightarrow> string \<Rightarrow> bool option \<Rightarrow> bool" where
  "toggled l t force = (case force of None \<Rightarrow> t \<notin> set (tokens l) | Some b \<Rightarrow> b)"

lemma DomTokenList_toggle_eq:
  "DomTokenList_toggle l t force =
    (if \<not> token_ok t then l
     else if \<not> toggled l t force then l\<lparr>tokens := filter (\<lambda>u. u \<noteq> t) (tokens l)\<rparr>
     else if t \<in> set (tokens l) then l
     else l\<lparr>tokens := tokens l @ [t]\<rparr>,
     validated [t] (toggled l t force))"
  by (cases l) (auto simp: DomTokenList_toggle_def validate_token_eq validated_def toggled_def Let_def
      list_ex_iff filter_absent split: option.splits bool.splits)

lemma DomTokenList_replace_eq:
  assumes "distinct (tokens l)"
  shows "DomTokenList_replace l old new =
    (if \<not> list_all token_ok [old, new] \<or> old \<notin> set (tokens l) \<or> old = new then l
     else if new \<in> set (tokens l) then l\<lparr>tokens := filter (\<lambda>t. t \<noteq> old) (tokens l)\<rparr>
     else l\<lparr>tokens := map (\<lambda>t. if t = old then new else t) (tokens l)\<rparr>,
     validated [old, new] (old \<in> set (tokens l)))"
  using position_update [OF assms, of old _ new] position_remove [OF assms, of old]
  by (auto simp: DomTokenList_replace_def validate_token_eq validated_def split: option.splits
      dest: position_SomeD position_NoneD)

lemmas token_call_eqs =
  DomTokenList_add_eq DomTokenList_remove_eq DomTokenList_toggle_eq DomTokenList_replace_eq

subsection \<open>Reachable lists\<close>

text \<open>How a list is made: from an attribute value, empty, or from tokens the host has validated.\<close>

definition token_list_made :: "DomTokenList \<Rightarrow> bool" where
  "token_list_made l \<longleftrightarrow>
     (\<exists>v. l = DomTokenList_parse v) \<or> l = DomTokenList_empty
     \<or> (\<exists>ts. list_all token_ok ts \<and> l = DomTokenList_from_tokens ts)"

lemma token_list_made_ok: "token_list_made l \<Longrightarrow> token_list_ok l"
  by (auto simp: token_list_made_def token_list_ok_def DomTokenList_parse_def DomTokenList_empty_def
      DomTokenList_from_tokens_def push_absent_eq list_all_iff parse_token_set_ok)
    (simp_all add: parse_token_set_eq)

lemma call_ok_simps:
  "call_ok (Add ts) = list_all token_ok ts"
  "call_ok (Remove ts) = list_all token_ok ts"
  "call_ok (Toggle t force) = token_ok t"
  "call_ok (Replace old new) = list_all token_ok [old, new]"
  by (simp_all add: call_ok_def)

lemma token_step_ok: "token_list_ok l \<Longrightarrow> token_list_ok (token_step l call)"
  by (cases call)
    (auto simp: token_list_ok_def token_call_eqs list_all_iff distinct_map inj_on_def)

lemma token_step_refused: "token_list_ok l \<Longrightarrow> \<not> call_ok call \<Longrightarrow> token_step l call = l"
  by (cases call) (auto simp: token_list_ok_def token_call_eqs call_ok_simps)

lemma token_step_set:
  assumes "token_list_ok l" and "call_ok call"
  shows "set (tokens (token_step l call)) = token_set_step (set (tokens l)) call"
proof (cases call)
  case (Toggle t force)
  with assms show ?thesis
    by (cases "(set (tokens l), call)" rule: token_set_step.cases)
      (auto simp: DomTokenList_toggle_eq call_ok_simps toggled_def)
next
  case (Replace old new)
  with assms show ?thesis
    by (auto simp: token_list_ok_def DomTokenList_replace_eq call_ok_simps)
qed (use assms in \<open>auto simp: token_list_ok_def token_call_eqs call_ok_simps\<close>)

interpretation token_calls: guarded_refinement token_list_ok token_step
  "\<lambda>l. set (tokens l)" call_ok token_set_step
  by unfold_locales (simp_all add: token_step_ok token_step_set token_step_refused)

subsection \<open>Properties\<close>

text \<open>After any sequence of calls a token list holds distinct valid tokens, and they are the
  set that the accepted calls, and only those, make of the tokens it started with.\<close>

theorem token_calls_refine_set:
  assumes "token_list_made l"
  shows "token_list_ok (foldl token_step l calls)
    \<and> set (tokens (foldl token_step l calls))
      = foldl token_set_step (set (tokens l)) (filter call_ok calls)"
  using token_list_made_ok [OF assms] token_calls.run_wf token_calls.run_abs by blast

theorem token_calls_refine_set_witness:
  "token_list_ok (foldl token_step DomTokenList_empty [Add [''a'', ''b''], Toggle ''a'' None])
   \<and> set (tokens (foldl token_step DomTokenList_empty [Add [''a'', ''b''], Toggle ''a'' None]))
     = foldl token_set_step (set (tokens DomTokenList_empty))
         (filter call_ok [Add [''a'', ''b''], Toggle ''a'' None])"
  by (rule token_calls_refine_set) (simp add: token_list_made_def)

text \<open>A token list written to its attribute and parsed again is the same list, in the same
  order, whatever calls were made on it.\<close>

theorem token_list_roundtrip:
  assumes "token_list_made l"
  shows "DomTokenList_parse (DomTokenList_serialize (foldl token_step l calls))
    = foldl token_step l calls"
  using token_calls.run_wf [OF token_list_made_ok [OF assms], of calls]
  by (cases "foldl token_step l calls")
    (simp add: DomTokenList_parse_def DomTokenList_serialize_def token_list_ok_def parse_serialize)

theorem token_list_roundtrip_witness:
  "DomTokenList_parse (DomTokenList_serialize
       (foldl token_step (DomTokenList_parse ''b a b'') [Add [''c'', ''a'']]))
     = foldl token_step (DomTokenList_parse ''b a b'') [Add [''c'', ''a'']]"
  by (rule token_list_roundtrip) (auto simp: token_list_made_def)

text \<open>Each call validates all its tokens in order and reports the first invalid one without
  changing the list; otherwise \<open>add\<close> appends the new tokens in order, \<open>remove\<close> keeps the order of
  the others, \<open>toggle\<close> reports whether the token is present afterwards, and \<open>replace\<close> puts the new
  token in the place of the old one, or only drops the old one when the new one is there already.\<close>

theorem token_calls_exact:
  assumes "token_list_made l0" and "l = foldl token_step l0 calls"
  shows "DomTokenList_add l ts =
      (if list_all token_ok ts then l\<lparr>tokens := first_occurrences (tokens l @ ts)\<rparr> else l,
       validated ts ())
    \<and> DomTokenList_remove l ts =
      (if list_all token_ok ts then l\<lparr>tokens := filter (\<lambda>t. t \<notin> set ts) (tokens l)\<rparr> else l,
       validated ts ())
    \<and> DomTokenList_toggle l t force =
      (if \<not> token_ok t then l
       else if \<not> toggled l t force then l\<lparr>tokens := filter (\<lambda>u. u \<noteq> t) (tokens l)\<rparr>
       else if t \<in> set (tokens l) then l
       else l\<lparr>tokens := tokens l @ [t]\<rparr>,
       validated [t] (toggled l t force))
    \<and> DomTokenList_replace l old new =
      (if \<not> list_all token_ok [old, new] \<or> old \<notin> set (tokens l) \<or> old = new then l
       else if new \<in> set (tokens l) then l\<lparr>tokens := filter (\<lambda>t. t \<noteq> old) (tokens l)\<rparr>
       else l\<lparr>tokens := map (\<lambda>t. if t = old then new else t) (tokens l)\<rparr>,
       validated [old, new] (old \<in> set (tokens l)))"
proof -
  have "distinct (tokens l)"
    using token_calls.run_wf [OF token_list_made_ok [OF assms(1)], of calls] assms(2)
    by (simp add: token_list_ok_def)
  then show ?thesis
    by (intro conjI DomTokenList_add_eq DomTokenList_remove_eq DomTokenList_toggle_eq
        DomTokenList_replace_eq)
qed

theorem token_calls_exact_witness:
  "DomTokenList_replace (DomTokenList_parse ''a b'') ''a'' ''c''
     = (\<lparr>tokens = [''c'', ''b'']\<rparr>, Ok True)"
proof -
  have made: "token_list_made (DomTokenList_parse ''a b'')"
    by (auto simp: token_list_made_def)
  have parsed: "DomTokenList_parse ''a b'' = \<lparr>tokens = [''a'', ''b'']\<rparr>"
    by (simp add: DomTokenList_parse_def parse_token_set_def ASCII_WHITESPACE_def)
  note replace = token_calls_exact [OF made foldl_Nil [symmetric],
      THEN conjunct2, THEN conjunct2, THEN conjunct2, of "''a''" "''c''"]
  show ?thesis
    unfolding replace
    by (simp add: parsed validated_def token_ok_def ASCII_WHITESPACE_def)
qed

end
