(* ===== verification/Abort_Signal.thy ===== *)
theory Abort_Signal
  imports Guarded_Refinement
begin

section \<open>Abort controllers and signals\<close>

text \<open>
  \<open>vixen-engine/src/abort.rs\<close>: signals with their reason, the controller that may abort one, the
  snapshot composition \<open>abort_any\<close> and the timeout signal. The lemmas show that the first reason is
  the one that stays, and that a composition takes the reason of the first aborted signal.
\<close>

datatype AbortReason = AbortError | Custom string

definition AbortReason_name :: "AbortReason \<Rightarrow> string" where
  "AbortReason_name r = (case r of AbortError \<Rightarrow> ''AbortError'' | Custom s \<Rightarrow> s)"

record AbortSignal =
  aborted :: bool
  reason :: "AbortReason option"

definition AbortSignal_new :: AbortSignal where
  "AbortSignal_new = \<lparr>aborted = False, reason = None\<rparr>"

definition AbortSignal_aborted_with :: "AbortReason \<Rightarrow> AbortSignal" where
  "AbortSignal_aborted_with r = \<lparr>aborted = True, reason = Some r\<rparr>"

record AbortController =
  controller_signal :: AbortSignal

definition AbortController_new :: AbortController where
  "AbortController_new = \<lparr>controller_signal = AbortSignal_new\<rparr>"

text \<open>\<open>Option::unwrap_or\<close>.\<close>

definition unwrap_or :: "'x option \<Rightarrow> 'x \<Rightarrow> 'x" where
  "unwrap_or m d = (case m of Some x \<Rightarrow> x | None \<Rightarrow> d)"

definition AbortController_abort :: "AbortController \<Rightarrow> AbortReason option \<Rightarrow> AbortController" where
  "AbortController_abort c r =
     (if aborted (controller_signal c) then c
      else c\<lparr>controller_signal := AbortSignal_aborted_with (unwrap_or r AbortError)\<rparr>)"

primrec abort_any :: "AbortSignal list \<Rightarrow> AbortSignal" where
  "abort_any [] = AbortSignal_new"
| "abort_any (s # ss) =
     (if aborted s then AbortSignal_aborted_with (unwrap_or (reason s) AbortError)
      else abort_any ss)"

record TimeoutSignal =
  delay_ms :: u64
  timeout_signal :: AbortSignal

definition TimeoutSignal_new :: "u64 \<Rightarrow> TimeoutSignal" where
  "TimeoutSignal_new delay =
     (let signal = (if delay = 0 then AbortSignal_aborted_with (Custom ''timedout'')
                    else AbortSignal_new)
      in \<lparr>delay_ms = delay, timeout_signal = signal\<rparr>)"

definition TimeoutSignal_expire :: "TimeoutSignal \<Rightarrow> TimeoutSignal" where
  "TimeoutSignal_expire t =
     (if aborted (timeout_signal t) then t
      else t\<lparr>timeout_signal := AbortSignal_aborted_with (Custom ''timedout'')\<rparr>)"

subsection \<open>Sequences of aborts\<close>

text \<open>A signal is aborted exactly when it has a reason.\<close>

definition signal_ok :: "AbortSignal \<Rightarrow> bool" where
  "signal_ok s \<longleftrightarrow> (aborted s \<longleftrightarrow> reason s \<noteq> None)"

definition first_reason :: "AbortReason option \<Rightarrow> AbortReason option \<Rightarrow> AbortReason option" where
  "first_reason old r = (case old of Some x \<Rightarrow> Some x | None \<Rightarrow> Some (unwrap_or r AbortError))"

interpretation aborts: guarded_refinement "\<lambda>c. signal_ok (controller_signal c)"
  AbortController_abort "\<lambda>c. reason (controller_signal c)" "\<lambda>_. True" first_reason
  by unfold_locales
    (auto simp: signal_ok_def AbortController_abort_def AbortSignal_aborted_with_def
      first_reason_def split: option.splits)

interpretation timeouts: guarded_refinement "\<lambda>t. signal_ok (timeout_signal t)"
  "\<lambda>t _::unit. TimeoutSignal_expire t" "\<lambda>t. reason (timeout_signal t)" "\<lambda>_. True"
  "\<lambda>old _. first_reason old (Some (Custom ''timedout''))"
  by unfold_locales
    (auto simp: signal_ok_def TimeoutSignal_expire_def AbortSignal_aborted_with_def
      first_reason_def unwrap_or_def split: option.splits)

lemma foldl_first_reason: "foldl first_reason (Some x) rs = Some x"
  by (induction rs) (simp_all add: first_reason_def)

lemma new_controller_ok: "signal_ok (controller_signal AbortController_new)"
  by (simp add: signal_ok_def AbortController_new_def AbortSignal_new_def)

text \<open>The signal of a controller after a sequence of \<open>abort\<close> calls.\<close>

definition signal_after :: "AbortReason option list \<Rightarrow> AbortSignal" where
  "signal_after rs = controller_signal (foldl AbortController_abort AbortController_new rs)"

lemma signal_after_eq:
  "signal_after rs = (case rs of [] \<Rightarrow> AbortSignal_new
     | r # _ \<Rightarrow> AbortSignal_aborted_with (unwrap_or r AbortError))"
proof (cases rs)
  case (Cons r rs')
  have "reason (signal_after rs) = Some (unwrap_or r AbortError)"
    unfolding signal_after_def aborts.run_abs [OF new_controller_ok] Cons
    by (simp add: AbortController_new_def AbortSignal_new_def first_reason_def
        foldl_first_reason)
  moreover have "signal_ok (signal_after rs)"
    using aborts.run_wf [OF new_controller_ok, of rs] by (simp add: signal_after_def)
  ultimately show ?thesis
    using Cons by (cases "signal_after rs") (simp add: signal_ok_def AbortSignal_aborted_with_def)
qed (simp add: signal_after_def AbortController_new_def)

lemma abort_any_signals:
  "abort_any (map signal_after rss) = (case find (\<lambda>rs. rs \<noteq> []) rss of
      None \<Rightarrow> AbortSignal_new
    | Some rs \<Rightarrow> AbortSignal_aborted_with (unwrap_or (hd rs) AbortError))"
  by (induction rss)
    (auto simp: signal_after_eq AbortSignal_new_def AbortSignal_aborted_with_def unwrap_or_def
      split: list.splits)

text \<open>A timeout signal is aborted when its delay is zero or once it has expired, always with the
  same reason.\<close>

lemma timeout_after:
  "timeout_signal (foldl (\<lambda>t _::unit. TimeoutSignal_expire t) (TimeoutSignal_new delay) es)
     = (if delay = 0 \<or> es \<noteq> [] then AbortSignal_aborted_with (Custom ''timedout'')
        else AbortSignal_new)"
proof (induction es rule: rev_induct)
  case (snoc e es)
  then show ?case
    by (auto simp: TimeoutSignal_expire_def AbortSignal_new_def AbortSignal_aborted_with_def)
qed (simp add: TimeoutSignal_new_def)

text \<open>A controller's signal keeps the reason of the first \<open>abort\<close> call whatever follows, and
  the composition of the signals of several controllers is aborted exactly when one of them was,
  with the reason of the first such controller.\<close>

theorem first_abort_reason_wins:
  "controller_signal (foldl AbortController_abort AbortController_new (r # rs))
     = AbortSignal_aborted_with (unwrap_or r AbortError)
   \<and> abort_any (map (\<lambda>rs. controller_signal (foldl AbortController_abort AbortController_new rs)) rss)
     = (case find (\<lambda>rs. rs \<noteq> []) rss of
          None \<Rightarrow> AbortSignal_new
        | Some rs \<Rightarrow> AbortSignal_aborted_with (unwrap_or (hd rs) AbortError))"
  using signal_after_eq [of "r # rs"] abort_any_signals [of rss]
  by (simp add: signal_after_def [abs_def])

end
