(* ===== verification/Cookie_Date.thy ===== *)
theory Cookie_Date
  imports Rust_Str "HOL-Library.Signed_Division"
begin

section \<open>Cookie dates\<close>

text \<open>
  The date parser of \<open>vixen-net/src/cookie.rs\<close>, for the \<open>Expires\<close> attribute: the date is cut into
  tokens at delimiters, the tokens are tried as time, day, month and year in that order, and the
  civil date becomes seconds since 1970. Dates are \<open>i64\<close> computations on values of at most four
  digits, far from overflow, and are modelled by \<open>int\<close>; division truncates (\<open>sdiv\<close>). The
  conversion to \<open>OffsetDateTime\<close> is a parameter. The lemmas show that the conversion to seconds
  counts the days of the Gregorian calendar.
\<close>

definition is_date_delimiter :: "nat \<Rightarrow> bool" where
  "is_date_delimiter b \<longleftrightarrow>
     b = 9 \<or> (32 \<le> b \<and> b \<le> 47) \<or> (59 \<le> b \<and> b \<le> 64) \<or> (91 \<le> b \<and> b \<le> 96) \<or> (123 \<le> b \<and> b \<le> 126)"

text \<open>\<open>c as u8\<close> keeps the low byte of the code point.\<close>

definition tokenize_date :: "string \<Rightarrow> string list" where
  "tokenize_date s =
     filter (\<lambda>t. t \<noteq> []) (split_chars (\<lambda>c. is_date_delimiter (code_point c mod 256)) (str_chars s))"

definition parse_bounded :: "string \<Rightarrow> int \<Rightarrow> int \<Rightarrow> int option" where
  "parse_bounded s lo hi =
     (let digits = takeWhile is_ascii_digit s in
      if digits = [] then None
      else Option.bind (parse_i64 digits) (\<lambda>n. if lo \<le> n \<and> n \<le> hi then Some n else None))"

text \<open>The second iterator runs over what follows the first colon; its first item always exists.\<close>

definition parse_time_token :: "string \<Rightarrow> (int \<times> int \<times> int) option" where
  "parse_time_token token =
     Option.bind (parse_bounded (dropWhile (\<lambda>c. \<not> is_ascii_digit c) (hd (str_split '':'' token))) 0 23) (\<lambda>h.
     Option.bind (split_once (CHR '':'') token) (\<lambda>(_, rest).
     let fields = str_split '':'' rest in
     Option.bind (parse_bounded (hd fields) 0 59) (\<lambda>m.
     if length fields < 2 then None
     else Option.bind (parse_bounded (fields ! 1) 0 59) (\<lambda>sec. Some (h, m, sec)))))"

function first_1_2_digit_run :: "string \<Rightarrow> int \<Rightarrow> int \<Rightarrow> int option" where
  "first_1_2_digit_run [] lo hi = None"
| "first_1_2_digit_run (c # s) lo hi =
     (if is_ascii_digit c then
        (let run = takeWhile is_ascii_digit (c # s) in
         case (if length run \<le> 2 then parse_i64 run else None) of
           Some n \<Rightarrow> if lo \<le> n \<and> n \<le> hi then Some n
                     else first_1_2_digit_run (dropWhile is_ascii_digit s) lo hi
         | None \<Rightarrow> first_1_2_digit_run (dropWhile is_ascii_digit s) lo hi)
      else first_1_2_digit_run s lo hi)"
  by pat_completeness auto
termination
  by (relation "measure (\<lambda>(s, _, _). length s)") (auto simp: le_imp_less_Suc length_dropWhile_le)

definition month_of :: "string \<Rightarrow> int option" where
  "month_of token =
     map_of [(''JAN'', 1), (''FEB'', 2), (''MAR'', 3), (''APR'', 4), (''MAY'', 5), (''JUN'', 6),
             (''JUL'', 7), (''AUG'', 8), (''SEP'', 9), (''OCT'', 10), (''NOV'', 11), (''DEC'', 12)]
       (map to_ascii_uppercase_char (concat (take 3 (str_chars token))))"

function year_of :: "string \<Rightarrow> int option" where
  "year_of [] = None"
| "year_of (c # s) =
     (if is_ascii_digit c then
        (let run = takeWhile is_ascii_digit (c # s) in
         if 2 \<le> length run \<and> length run \<le> 4
         then Option.bind (parse_i64 run) (\<lambda>n.
           Some (if 100 \<le> n then n else if 70 \<le> n then 1900 + n else 2000 + n))
         else year_of (dropWhile is_ascii_digit s))
      else year_of s)"
  by pat_completeness auto
termination by (relation "measure length") (auto simp: le_imp_less_Suc length_dropWhile_le)

definition unix_seconds :: "int \<Rightarrow> int \<Rightarrow> int \<Rightarrow> int \<Rightarrow> int \<Rightarrow> int \<Rightarrow> int option" where
  "unix_seconds y0 m0 d h mi s =
     (if \<not> (1 \<le> m0 \<and> m0 \<le> 12) \<or> \<not> (1 \<le> d \<and> d \<le> 31) then None
      else
        let (y, m) = (if m0 \<le> 2 then (y0 - 1, m0 + 12) else (y0, m0));
            era = (if 0 \<le> y then y else y - 399) sdiv 400;
            yoe = y - era * 400;
            doy = (153 * (m - 3) + 2) sdiv 5 + d - 1;
            doe = yoe * 365 + yoe sdiv 4 - yoe sdiv 100 + doy;
            days = era * 146097 + doe - 719468
        in if \<not> (- 100000000 \<le> days \<and> days \<le> 100000000) then None
           else Some (days * 86400 + h * 3600 + mi * 60 + s))"

record DateScan =
  found_time :: bool
  found_day :: bool
  found_month :: bool
  found_year :: bool
  hms :: "int \<times> int \<times> int"
  day :: int
  month :: int
  year :: int

definition DateScan_start :: DateScan where
  "DateScan_start = \<lparr>found_time = False, found_day = False, found_month = False, found_year = False,
     hms = (0, 0, 0), day = 0, month = 0, year = 0\<rparr>"

text \<open>One iteration over the tokens; each \<open>continue\<close> ends it.\<close>

definition scan_date_token :: "DateScan \<Rightarrow> string \<Rightarrow> DateScan" where
  "scan_date_token st token =
     (case (if found_time st then None else parse_time_token token) of
        Some t \<Rightarrow> st\<lparr>hms := t, found_time := True\<rparr>
      | None \<Rightarrow>
     (case (if found_day st then None else first_1_2_digit_run token 1 31) of
        Some d \<Rightarrow> st\<lparr>day := d, found_day := True\<rparr>
      | None \<Rightarrow>
     (case (if found_month st then None else month_of token) of
        Some m \<Rightarrow> st\<lparr>month := m, found_month := True\<rparr>
      | None \<Rightarrow>
     (case (if found_year st then None else year_of token) of
        Some y \<Rightarrow> st\<lparr>year := y, found_year := True\<rparr>
      | None \<Rightarrow> st))))"

definition parse_cookie_date :: "(int \<Rightarrow> 't option) \<Rightarrow> string \<Rightarrow> 't option" where
  "parse_cookie_date from_unix s =
     (let st = foldl scan_date_token DateScan_start (tokenize_date s);
          (hour, minute, second) = hms st
      in if \<not> (found_day st \<and> found_month st \<and> found_year st) then None
         else Option.bind (unix_seconds (year st) (month st) (day st) hour minute second) from_unix)"

subsection \<open>The calendar\<close>

definition leap_year :: "int \<Rightarrow> bool" where
  "leap_year y \<longleftrightarrow> 4 dvd y \<and> (\<not> 100 dvd y \<or> 400 dvd y)"

definition month_length :: "int \<Rightarrow> int \<Rightarrow> int" where
  "month_length y m =
     (if m = 2 then (if leap_year y then 29 else 28) else if m \<in> {4, 6, 9, 11} then 30 else 31)"

definition next_date :: "int \<times> int \<times> int \<Rightarrow> int \<times> int \<times> int" where
  "next_date = (\<lambda>(y, m, d).
     if d < month_length y m then (y, m, d + 1)
     else if m < 12 then (y, m + 1, 1) else (y + 1, 1, 1))"

definition civil_date :: "int \<times> int \<times> int \<Rightarrow> bool" where
  "civil_date = (\<lambda>(y, m, d). 0 \<le> y \<and> 1 \<le> m \<and> m \<le> 12 \<and> 1 \<le> d \<and> d \<le> month_length y m)"

text \<open>The days before a year that begins in March, and before a month in it.\<close>

definition year_days :: "int \<Rightarrow> int" where
  "year_days y = 365 * y + y div 4 - y div 100 + y div 400"

definition month_days :: "int \<Rightarrow> int" where
  "month_days m = (153 * (m - 3) + 2) div 5"

definition day_number :: "int \<times> int \<times> int \<Rightarrow> int" where
  "day_number = (\<lambda>(y, m, d).
     (if m \<le> 2 then year_days (y - 1) + month_days (m + 12) else year_days y + month_days m)
     + d - 719469)"

lemma sdiv_nonneg: "0 \<le> (a::int) \<Longrightarrow> 0 < b \<Longrightarrow> a sdiv b = a div b"
  by (cases "a = 0") (simp_all add: signed_divide_int_def)

lemma era_floor: "(if 0 \<le> y then y else y - 399) sdiv 400 = y div (400::int)"
proof (cases "0 \<le> y")
  case False
  then have "(y - 399) sdiv 400 = - ((399 - y) div 400)"
    by (simp add: signed_divide_int_def sgn_if)
  also have "\<dots> = y div 400" using False by linarith
  finally show ?thesis using False by simp
qed (simp add: sdiv_nonneg)

lemma year_days_split:
  "(y div 400) * 146097 + ((y - y div 400 * 400) * 365 + (y - y div 400 * 400) div 4
     - (y - y div 400 * 400) div 100) = year_days (y::int)"
proof -
  let ?q = "y div 400" and ?r = "y mod 400"
  have y: "y = 400 * ?q + ?r" by simp
  have r: "y - ?q * 400 = ?r" using y by linarith
  have "y div 4 = 100 * ?q + ?r div 4"
    using div_mult_self1 [of 4 ?r "100 * ?q"] y by (simp add: algebra_simps)
  moreover have "y div 100 = 4 * ?q + ?r div 100"
    using div_mult_self1 [of 100 ?r "4 * ?q"] y by (simp add: algebra_simps)
  ultimately show ?thesis unfolding year_days_def r using y by linarith
qed

text \<open>The formula of the source is the day number.\<close>

lemma unix_seconds_eq:
  assumes "1 \<le> m" "m \<le> 12" "1 \<le> d" "d \<le> 31"
  shows "unix_seconds y m d h mi s =
    (if \<bar>day_number (y, m, d)\<bar> \<le> 100000000
     then Some (day_number (y, m, d) * 86400 + h * 3600 + mi * 60 + s) else None)"
proof -
  define y' m' where "y' = (if m \<le> 2 then y - 1 else y)" and "m' = (if m \<le> 2 then m + 12 else m)"
  have doy: "(153 * (m' - 3) + 2) sdiv 5 = month_days m'"
    using assms by (simp add: m'_def month_days_def sdiv_nonneg)
  have "0 \<le> y' - y' div 400 * 400" by (simp add: minus_div_mult_eq_mod)
  then have "(y' div 400) * 146097 + ((y' - y' div 400 * 400) * 365 + (y' - y' div 400 * 400) sdiv 4
     - (y' - y' div 400 * 400) sdiv 100 + (month_days m' + d - 1)) - 719468
     = year_days y' + month_days m' + d - 719469"
    using year_days_split [of y'] by (simp add: sdiv_nonneg)
  also have "\<dots> = day_number (y, m, d)" by (simp add: day_number_def y'_def m'_def)
  finally have days: "(y' div 400) * 146097 + ((y' - y' div 400 * 400) * 365
     + (y' - y' div 400 * 400) sdiv 4 - (y' - y' div 400 * 400) sdiv 100
     + (month_days m' + d - 1)) - 719468 = day_number (y, m, d)" .
  have "unix_seconds y m d h mi s =
    (let days = (y' div 400) * 146097 + ((y' - y' div 400 * 400) * 365
        + (y' - y' div 400 * 400) sdiv 4 - (y' - y' div 400 * 400) sdiv 100
        + (month_days m' + d - 1)) - 719468
     in if \<bar>days\<bar> \<le> 100000000 then Some (days * 86400 + h * 3600 + mi * 60 + s) else None)"
    using assms unfolding doy [symmetric]
    by (simp add: unix_seconds_def Let_def era_floor y'_def m'_def abs_le_iff algebra_simps)
  then show ?thesis unfolding days by (simp add: Let_def)
qed

lemma div_step:
  assumes "0 < (k::int)"
  shows "(y + 1) div k = y div k + (if k dvd y + 1 then 1 else 0)"
proof (cases "k dvd y + 1")
  case True
  then obtain q where "y + 1 = k * q" by (rule dvdE)
  moreover from this have "y div k = q - 1"
    using assms by (intro int_div_pos_eq [of _ _ _ "k - 1"]) (auto simp: algebra_simps)
  ultimately show ?thesis using assms True by simp
next
  case False
  have "y mod k + 1 \<noteq> k"
  proof
    assume "y mod k + 1 = k"
    then have "y + 1 = k * (y div k + 1)"
      using mult_div_mod_eq [of k y] by (simp only: distrib_left mult_1_right)
    with False show False by simp
  qed
  then have "y mod k + 1 < k" using pos_mod_bound [OF assms, of y] by linarith
  then have "(y + 1) div k = y div k"
    using assms by (intro int_div_pos_eq [of _ _ _ "y mod k + 1"]) auto
  with False show ?thesis by simp
qed

lemma year_days_step: "year_days (y + 1) = year_days y + 365 + (if leap_year (y + 1) then 1 else 0)"
proof -
  have "4 dvd y + 1" if "100 dvd y + 1"
    using that by (rule dvd_trans [rotated]) simp
  moreover have "100 dvd y + 1" if "400 dvd y + 1"
    using that by (rule dvd_trans [rotated]) simp
  ultimately show ?thesis
    unfolding year_days_def leap_year_def div_step [of 4 y, OF zero_less_numeral]
      div_step [of 100 y, OF zero_less_numeral] div_step [of 400 y, OF zero_less_numeral]
    by (cases "4 dvd y + 1"; cases "100 dvd y + 1"; cases "400 dvd y + 1";
        simp only: if_True if_False simp_thms; (simp (no_asm))?)
qed

lemma month_cases:
  assumes "1 \<le> (m::int)" "m \<le> 12"
  obtains "m = 1" | "m = 2" | "m = 3" | "m = 4" | "m = 5" | "m = 6" | "m = 7" | "m = 8" | "m = 9"
    | "m = 10" | "m = 11" | "m = 12"
proof -
  have "m \<in> {1..12}" using assms by simp
  also have "{1..12} = {1, 2, 3, 4, 5, 6, 7, 8, 9, 10, 11, 12::int}" by (rule set_eqI) (simp; presburger)
  finally show thesis using that by blast
qed

lemma next_date_civil: "civil_date x \<Longrightarrow> civil_date (next_date x)"
  by (cases x) (auto simp: civil_date_def next_date_def month_length_def)

lemma next_date_number: "civil_date x \<Longrightarrow> day_number (next_date x) = day_number x + 1"
proof (cases x)
  case (fields y m d)
  assume civil: "civil_date x"
  show ?thesis
  proof (cases "d < month_length y m")
    case True
    then show ?thesis by (simp add: fields next_date_def day_number_def)
  next
    case False
    with civil have d: "d = month_length y m" by (simp add: fields civil_date_def)
    from civil have "1 \<le> m" "m \<le> 12" by (simp_all add: fields civil_date_def)
    then show ?thesis
      by (cases rule: month_cases)
        (use d False year_days_step [of "y - 1"] in
          \<open>simp_all add: fields next_date_def day_number_def month_days_def month_length_def\<close>)
  qed
qed

text \<open>The \<open>n\<close>-th day after the first of January of the year 0.\<close>

definition nth_day :: "nat \<Rightarrow> int \<times> int \<times> int" where
  "nth_day n = (next_date ^^ n) (0, 1, 1)"

lemma nth_day: "civil_date (nth_day n) \<and> day_number (nth_day n) = int n - 719528"
proof (induction n)
  case 0
  then show ?case
    by (simp add: nth_day_def civil_date_def month_length_def day_number_def year_days_def month_days_def)
next
  case (Suc n)
  then show ?case
    using next_date_civil next_date_number by (simp add: nth_day_def)
qed

lemma civil_date_bounds: "civil_date (y, m, d) \<Longrightarrow> 1 \<le> m \<and> m \<le> 12 \<and> 1 \<le> d \<and> d \<le> 31"
  by (auto simp: civil_date_def month_length_def split: if_splits)

lemma unix_seconds_of_day:
  assumes "nth_day n = (y, m, d)" and "n \<le> 100000000"
  shows "unix_seconds y m d h mi s = Some ((int n - 719528) * 86400 + h * 3600 + mi * 60 + s)"
proof -
  from nth_day [of n] have "civil_date (y, m, d)" "day_number (y, m, d) = int n - 719528"
    by (simp_all add: assms(1))
  with civil_date_bounds [of y m d] assms(2) show ?thesis by (simp add: unix_seconds_eq)
qed

text \<open>Every civil date from the year 0 on is some day.\<close>

lemma previous_date:
  assumes "civil_date x" and "x \<noteq> (0, 1, 1)"
  shows "\<exists>w. civil_date w \<and> next_date w = x"
proof (cases x)
  case (fields y m d)
  have len: "28 \<le> month_length a b" for a b by (simp add: month_length_def)
  have "1 < d \<or> d = 1 \<and> 1 < m \<or> d = 1 \<and> m = 1 \<and> 0 < y"
    using assms by (simp add: fields civil_date_def) linarith
  then consider "1 < d" | "d = 1" "1 < m" | "d = 1" "m = 1" "0 < y" by blast
  then show ?thesis
  proof cases
    case 1
    then show ?thesis
      using assms by (intro exI [of _ "(y, m, d - 1)"]) (simp add: fields civil_date_def next_date_def)
  next
    case 2
    then show ?thesis
      using assms len [of y "m - 1"]
      by (intro exI [of _ "(y, m - 1, month_length y (m - 1))"]) (simp add: fields civil_date_def next_date_def)
  next
    case 3
    then show ?thesis
      by (intro exI [of _ "(y - 1, 12, 31)"]) (simp add: fields civil_date_def next_date_def month_length_def)
  qed
qed

lemma year_days_lower: "- 1 \<le> y \<Longrightarrow> - 366 \<le> year_days y"
proof (cases "y = - 1")
  case False
  assume "- 1 \<le> y"
  with False have "0 \<le> y" by simp
  moreover from this have "y div 100 \<le> y div 4" by (rule zdiv_mono2) simp_all
  ultimately show ?thesis by (simp add: year_days_def)
qed (simp add: year_days_def)

lemma day_number_lower: "civil_date x \<Longrightarrow> - 719528 \<le> day_number x"
proof (cases x)
  case (fields y m d)
  assume civil: "civil_date x"
  show ?thesis
  proof (cases "m \<le> 2")
    case True
    then have "m = 1 \<or> m = 2" using civil by (auto simp: fields civil_date_def)
    then have "306 \<le> month_days (m + 12)" by (auto simp: month_days_def)
    with True civil year_days_lower [of "y - 1"] show ?thesis
      by (simp add: fields civil_date_def day_number_def)
  next
    case False
    then have "0 \<le> month_days m" by (simp add: month_days_def)
    moreover have "0 \<le> year_days y"
    proof -
      have "0 \<le> y" using civil by (simp add: fields civil_date_def)
      moreover from this have "y div 100 \<le> y div 4" by (rule zdiv_mono2) simp_all
      moreover from \<open>0 \<le> y\<close> have "0 \<le> y div 400" by simp
      ultimately show ?thesis unfolding year_days_def by linarith
    qed
    ultimately show ?thesis using False civil by (simp add: fields civil_date_def day_number_def)
  qed
qed

lemma nth_day_of_number: "civil_date x \<Longrightarrow> day_number x = int n - 719528 \<Longrightarrow> nth_day n = x"
proof (induction n arbitrary: x)
  case 0
  show ?case
  proof (rule ccontr)
    assume "nth_day 0 \<noteq> x"
    then have "x \<noteq> (0, 1, 1)" by (simp add: nth_day_def)
    with previous_date [OF 0(1)] obtain w where "civil_date w" "next_date w = x" by blast
    with next_date_number [of w] day_number_lower [of w] 0(2) show False by simp
  qed
next
  case (Suc n)
  have "x \<noteq> (0, 1, 1)"
    using Suc.prems(2) by (auto simp: day_number_def year_days_def month_days_def)
  with previous_date [OF Suc.prems(1)] obtain w where w: "civil_date w" "next_date w = x" by blast
  with next_date_number [of w] Suc.prems(2) Suc.IH [of w] show ?case by (simp add: nth_day_def)
qed

text \<open>A day that the month does not have is taken as a day of the next month, and years before 1601
  are accepted; RFC 6265, section 5.1.1, fails in both cases.\<close>

lemma nonexistent_day_rolls_over: "unix_seconds 2023 2 31 h mi s = unix_seconds 2023 3 3 h mi s"
  by (simp add: unix_seconds_eq day_number_def year_days_def month_days_def)

lemma early_year_accepted: "unix_seconds 100 1 1 0 0 0 = Some (- 59011459200)"
  by (simp add: unix_seconds_eq day_number_def year_days_def month_days_def)

end
