(* ===== verification/Cookie_Site.thy ===== *)
theory Cookie_Site
  imports Rust_Str
begin

section \<open>Hosts, registrable domains and cookie domains\<close>

text \<open>
  \<open>vixen-net/src/site.rs\<close>. Host parsing and printing (the \<open>url\<close> crate) and the public suffix list
  (the \<open>psl\<close> crate) are third-party code: the record \<open>dns_lib\<close> holds the functions the source calls.
  The lemmas state what a cookie domain may be.
\<close>

datatype Host = Domain string | Ipv4 "32 word" | Ipv6 "128 word"

record dns_lib =
  host_parse :: "string \<Rightarrow> Host option"
  host_to_string :: "Host \<Rightarrow> string"
  psl_suffix_str :: "string \<Rightarrow> string option"
  psl_domain_str :: "string \<Rightarrow> string option"

text \<open>What the code reads of a parsed URL.\<close>

record Url =
  url_scheme :: string
  url_host :: "Host option"
  url_path :: string

datatype CookieDomain = HostOnly string | DomainWide string

definition CookieDomain_into_parts :: "CookieDomain \<Rightarrow> string \<times> bool" where
  "CookieDomain_into_parts cd =
     (case cd of HostOnly domain \<Rightarrow> (domain, True) | DomainWide domain \<Rightarrow> (domain, False))"

definition dns_name_for_psl :: "string \<Rightarrow> string option" where
  "dns_name_for_psl domain =
     (let d = trim_end_char (CHR ''.'') domain in if d \<noteq> [] then Some d else None)"

definition registrable_domain :: "dns_lib \<Rightarrow> string \<Rightarrow> string option" where
  "registrable_domain dns host =
     Option.bind (host_parse dns host) (\<lambda>h.
       case h of
         Domain domain \<Rightarrow>
           Option.bind (dns_name_for_psl domain) (\<lambda>d. map_option to_ascii_lowercase (psl_domain_str dns d))
       | _ \<Rightarrow> None)"

definition same_registrable_domain :: "dns_lib \<Rightarrow> string \<Rightarrow> string \<Rightarrow> bool" where
  "same_registrable_domain dns a b =
     (case registrable_domain dns a of None \<Rightarrow> False
      | Some a' \<Rightarrow> (case registrable_domain dns b of None \<Rightarrow> False
          | Some b' \<Rightarrow> eq_ignore_ascii_case a' b'))"

definition is_public_suffix :: "dns_lib \<Rightarrow> Host \<Rightarrow> bool" where
  "is_public_suffix dns host =
     (case host of
        Domain domain \<Rightarrow>
          (case dns_name_for_psl domain of None \<Rightarrow> False
           | Some d \<Rightarrow> (case psl_suffix_str dns d of None \<Rightarrow> False
               | Some suffix \<Rightarrow> eq_ignore_ascii_case suffix d))
      | _ \<Rightarrow> False)"

definition cookie_domain_matches_host :: "Host \<Rightarrow> bool \<Rightarrow> Host \<Rightarrow> bool" where
  "cookie_domain_matches_host request_host host_only domain =
     (if request_host = domain then True
      else if host_only then False
      else (case (request_host, domain) of
          (Domain host, Domain d) \<Rightarrow>
            (case strip_suffix host d of None \<Rightarrow> False | Some prefix \<Rightarrow> ends_with_char (CHR ''.'') prefix)
        | _ \<Rightarrow> False))"

definition cookie_domain :: "dns_lib \<Rightarrow> Host \<Rightarrow> string \<Rightarrow> CookieDomain option" where
  "cookie_domain dns request_host attribute =
     Option.bind (host_parse dns attribute) (\<lambda>a.
       if is_public_suffix dns a
       then (if request_host = a then Some (HostOnly (host_to_string dns request_host)) else None)
       else if \<not> cookie_domain_matches_host request_host False a then None
       else Some (DomainWide (host_to_string dns a)))"

definition cookie_domain_matches :: "dns_lib \<Rightarrow> Host \<Rightarrow> bool \<Rightarrow> string \<Rightarrow> bool" where
  "cookie_domain_matches dns request_host host_only domain =
     (case host_parse dns domain of None \<Rightarrow> False
      | Some d \<Rightarrow> cookie_domain_matches_host request_host host_only d)"

subsection \<open>Domain matching\<close>

text \<open>A host matches a domain when it is that domain or one of its subdomains.\<close>

definition subdomain :: "string \<Rightarrow> string \<Rightarrow> bool" where
  "subdomain host d \<longleftrightarrow> (\<exists>p. host = p @ CHR ''.'' # d)"

lemma matches_host_iff:
  "cookie_domain_matches_host h ho d \<longleftrightarrow>
     h = d \<or> (\<not> ho \<and> (\<exists>host dom. h = Domain host \<and> d = Domain dom \<and> subdomain host dom))"
proof -
  have "(\<exists>p. host = p @ d' \<and> ends_with_char (CHR ''.'') p) \<longleftrightarrow> subdomain host d'" for host d'
  proof
    assume "\<exists>p. host = p @ d' \<and> ends_with_char (CHR ''.'') p"
    then obtain p where "host = p @ d'" "p \<noteq> []" "last p = CHR ''.''" by (auto simp: ends_with_char_def)
    then have "host = butlast p @ CHR ''.'' # d'"
      using append_butlast_last_id [of p] by (metis append.assoc append_Cons append_Nil)
    then show "subdomain host d'" by (auto simp: subdomain_def)
  next
    assume "subdomain host d'"
    then obtain p where "host = (p @ ''.'') @ d'" by (auto simp: subdomain_def)
    then show "\<exists>p. host = p @ d' \<and> ends_with_char (CHR ''.'') p"
      by (intro exI [of _ "p @ ''.''"]) (simp add: ends_with_char_def)
  qed
  moreover have "(case strip_suffix host d' of None \<Rightarrow> False | Some p \<Rightarrow> ends_with_char (CHR ''.'') p)
      \<longleftrightarrow> (\<exists>p. host = p @ d' \<and> ends_with_char (CHR ''.'') p)" for host d'
    by (auto split: option.splits simp: strip_suffix_Some) (metis option.discI strip_suffix_Some)
  ultimately show ?thesis
    by (auto simp: cookie_domain_matches_host_def split: Host.splits)
qed

text \<open>A cookie domain given by an attribute is the host itself or a parent of it that is no public
  suffix.\<close>

lemma cookie_domain_cases:
  assumes "cookie_domain dns h attribute = Some cd"
  obtains (exact) "cd = HostOnly (host_to_string dns h)" "host_parse dns attribute = Some h"
      "is_public_suffix dns h"
  | (wide) a where "cd = DomainWide (host_to_string dns a)" "host_parse dns attribute = Some a"
      "\<not> is_public_suffix dns a" "cookie_domain_matches_host h False a"
proof -
  from assms obtain a where a: "host_parse dns attribute = Some a"
    by (cases "host_parse dns attribute") (simp_all add: cookie_domain_def)
  show thesis
  proof (cases "is_public_suffix dns a")
    case True
    with assms a have "h = a" "cd = HostOnly (host_to_string dns h)"
      by (simp_all add: cookie_domain_def split: if_splits)
    with True a show thesis by (intro exact) simp_all
  next
    case False
    with assms a have "cookie_domain_matches_host h False a" "cd = DomainWide (host_to_string dns a)"
      by (simp_all add: cookie_domain_def split: if_splits)
    with False a show thesis by (intro wide) simp_all
  qed
qed

end
