(* ===== verification/Cookie_Jar.thy ===== *)
theory Cookie_Jar
  imports Cookie_Date Cookie_Site Rust_Vec Ordered_Map
    "HOL-Library.Product_Lexorder" "HOL-Library.List_Lexorder" "HOL-Library.Char_ord"
begin

section \<open>The cookie jar\<close>

text \<open>
  \<open>vixen-net/src/cookie.rs\<close>: cookies, their snapshots, the jar with every operation, and the parser of
  \<open>Set-Cookie\<close>. Points in time are \<open>OffsetDateTime\<close> of the third-party \<open>time\<close> crate: a type \<open>'t\<close> with
  a linear order and the functions of the record \<open>time_lib\<close>. The clock of the jar is read several
  times during an operation; its readings are the function \<open>clock\<close>, the first being \<open>clock 0\<close>, and
  the \<open>i\<close>-th iteration of a loop reads \<open>clock (Suc i)\<close>. The insertion counter is a \<open>u64\<close> that wraps.
\<close>

subsection \<open>Data\<close>

record 't time_lib =
  from_unix_timestamp :: "int \<Rightarrow> 't option"
  unix_timestamp :: "'t \<Rightarrow> int"
  checked_add_seconds :: "'t \<Rightarrow> int \<Rightarrow> 't option"
  UNIX_EPOCH :: 't

definition MAX_COOKIES :: usize where
  "MAX_COOKIES = 512"

datatype SameSite = Strict | Lax | SameSite_None

definition SameSite_default :: SameSite where
  "SameSite_default = Lax"

record 't Cookie =
  ck_name :: string
  ck_value :: string
  ck_domain :: string
  ck_host_only :: bool
  ck_path :: string
  ck_expires :: "'t option"
  ck_created :: 't
  ck_last_access :: 't
  ck_secure :: bool
  ck_http_only :: bool
  ck_same_site :: SameSite
  ck_seq :: u64

record CookieSnapshot =
  sn_name :: string
  sn_value :: string
  sn_domain :: string
  sn_host_only :: bool
  sn_path :: string
  sn_expires_unix :: "int option"
  sn_secure :: bool
  sn_http_only :: bool
  sn_same_site :: SameSite
  sn_creation_unix :: int

type_synonym cookie_identity = "string \<times> string \<times> string"

record CookieJarDelta =
  upserts :: "CookieSnapshot list"
  removals :: "cookie_identity list"

datatype CookieError =
    Malformed
  | HttpOnlyFromScript
  | SecureRequiresHttps
  | SameSiteNoneRequiresSecure
  | DomainMismatch string string

record 't CookieJar =
  cookies :: "'t Cookie list"
  next_seq :: u64

datatype Method = Get | Head | Post | Put | Delete | Patch | Options

definition Method_is_safe :: "Method \<Rightarrow> bool" where
  "Method_is_safe m \<longleftrightarrow> m \<in> {Get, Head, Options}"

definition is_expired :: "'t::linorder Cookie \<Rightarrow> 't \<Rightarrow> bool" where
  "is_expired c now = (case ck_expires c of Some e \<Rightarrow> e \<le> now | None \<Rightarrow> False)"

subsection \<open>Paths\<close>

definition default_path :: "string \<Rightarrow> string" where
  "default_path uri_path =
     (if uri_path = [] \<or> \<not> starts_with_char (CHR ''/'') uri_path then ''/''
      else if CHR ''/'' \<notin> set (tl uri_path) then ''/''
      else rev (tl (dropWhile (\<lambda>c. c \<noteq> CHR ''/'') (rev uri_path))))"

definition path_match :: "string \<Rightarrow> string \<Rightarrow> bool" where
  "path_match request_path cookie_path =
     (if request_path = cookie_path then True
      else if str_starts_with request_path cookie_path
           \<and> (ends_with_char (CHR ''/'') cookie_path
              \<or> (length cookie_path < length request_path
                  \<and> request_path ! length cookie_path = CHR ''/''))
      then True
      else False)"

subsection \<open>Parsing Set-Cookie\<close>

record 't ParsedCookie =
  pc_name :: string
  pc_value :: string
  pc_domain :: string
  pc_host_only :: bool
  pc_path :: string
  pc_expires :: "'t option"
  pc_secure :: bool
  pc_http_only :: bool
  pc_same_site :: SameSite
  pc_created :: 't

definition strip_quotes :: "string \<Rightarrow> string" where
  "strip_quotes v0 =
     (let v = str_trim v0 in
      if 2 \<le> length v \<and> starts_with_char (CHR 0x22) v \<and> ends_with_char (CHR 0x22) v
      then butlast (tl v) else v)"

definition FAR_FUTURE_UNIX :: int where
  "FAR_FUTURE_UNIX = 253402300799"

definition clamp_max_age :: "'t time_lib \<Rightarrow> int \<Rightarrow> 't" where
  "clamp_max_age tm n =
     (let ts = (if 0 \<le> n then FAR_FUTURE_UNIX else - 1)
      in case from_unix_timestamp tm ts of Some t \<Rightarrow> t | None \<Rightarrow> UNIX_EPOCH tm)"

text \<open>The attributes collected by the loop over the segments after the first.\<close>

record 't Attributes =
  at_domain :: "string option"
  at_path :: "string option"
  at_expires :: "'t option"
  at_max_age :: "int option"
  at_secure :: bool
  at_http_only :: bool
  at_same_site :: "SameSite option"

definition Attributes_start :: "'t Attributes" where
  "Attributes_start = \<lparr>at_domain = None, at_path = None, at_expires = None, at_max_age = None,
     at_secure = False, at_http_only = False, at_same_site = None\<rparr>"

definition parse_attribute :: "'t time_lib \<Rightarrow> 't Attributes \<Rightarrow> string \<Rightarrow> 't Attributes" where
  "parse_attribute tm at seg0 =
     (let seg = str_trim seg0 in
      case split_once (CHR ''='') seg of
        Some (k, v) \<Rightarrow>
          (let key = to_ascii_lowercase (str_trim k); val = str_trim v in
           if key = ''domain'' then
             (if val \<noteq> [] \<and> \<not> ends_with_char (CHR ''.'') val
              then at\<lparr>at_domain := Some (if starts_with_char (CHR ''.'') val then tl val else val)\<rparr>
              else at)
           else if key = ''path'' then
             (if val \<noteq> [] then at\<lparr>at_path := Some val\<rparr> else at)
           else if key = ''max-age'' then
             (case parse_i64 val of Some n \<Rightarrow> at\<lparr>at_max_age := Some n\<rparr> | None \<Rightarrow> at)
           else if key = ''expires'' then
             (case parse_cookie_date (from_unix_timestamp tm) val of
                Some t \<Rightarrow> at\<lparr>at_expires := Some t\<rparr> | None \<Rightarrow> at)
           else if key = ''samesite'' then
             (let site = to_ascii_lowercase val in
              at\<lparr>at_same_site := Some (if site = ''strict'' then Strict else if site = ''lax'' then Lax
                 else if site = ''none'' then SameSite_None else Lax)\<rparr>)
           else at)
      | None \<Rightarrow>
          (let flag = to_ascii_lowercase seg in
           if flag = ''secure'' then at\<lparr>at_secure := True\<rparr>
           else if flag = ''httponly'' then at\<lparr>at_http_only := True\<rparr>
           else at))"

definition parse_set_cookie ::
    "dns_lib \<Rightarrow> 't time_lib \<Rightarrow> string \<Rightarrow> Url \<Rightarrow> 't \<Rightarrow> bool \<Rightarrow> ('t ParsedCookie, CookieError) result" where
  "parse_set_cookie dns tm header request_url now from_http_response =
     (let parts = str_split '';'' header in
      and_then (ok_or (split_once (CHR ''='') (str_trim (hd parts))) Malformed) (\<lambda>(name0, value0).
      let name = str_trim name0 in
      if name = [] then Err Malformed
      else
        let value = strip_quotes (str_trim value0);
            at = foldl (parse_attribute tm) Attributes_start (tl parts);
            expiry = (case at_max_age at of
                Some n \<Rightarrow> (case checked_add_seconds tm now n of
                    Some t \<Rightarrow> Some t | None \<Rightarrow> Some (clamp_max_age tm n))
              | None \<Rightarrow> at_expires at)
        in
        and_then (ok_or (url_host request_url) Malformed) (\<lambda>request_host.
        let request_host_string = host_to_string dns request_host;
            request_secure = (url_scheme request_url = ''https'')
        in
        and_then (case at_domain at of
            Some d \<Rightarrow> and_then (ok_or (cookie_domain dns request_host d)
                (DomainMismatch d request_host_string)) (\<lambda>cd. Ok (CookieDomain_into_parts cd))
          | None \<Rightarrow> Ok (request_host_string, True)) (\<lambda>(domain, host_only).
        let path = (case at_path at of
              Some p \<Rightarrow> if starts_with_char (CHR ''/'') p then p else default_path (url_path request_url)
            | None \<Rightarrow> default_path (url_path request_url))
        in
        if at_http_only at \<and> \<not> from_http_response then Err HttpOnlyFromScript
        else if at_secure at \<and> \<not> request_secure then Err SecureRequiresHttps
        else
          let same_site = (case at_same_site at of Some s \<Rightarrow> s | None \<Rightarrow> SameSite_default) in
          if same_site = SameSite_None \<and> \<not> at_secure at then Err SameSiteNoneRequiresSecure
          else Ok \<lparr>pc_name = name, pc_value = value, pc_domain = domain, pc_host_only = host_only,
                   pc_path = path, pc_expires = expiry, pc_secure = at_secure at,
                   pc_http_only = at_http_only at, pc_same_site = same_site, pc_created = now\<rparr>))))"

subsection \<open>The jar\<close>

definition CookieJar_new :: "'t CookieJar" where
  "CookieJar_new = \<lparr>cookies = [], next_seq = 0\<rparr>"

definition CookieJar_tick :: "'t CookieJar \<Rightarrow> 't CookieJar \<times> u64" where
  "CookieJar_tick jar = (jar\<lparr>next_seq := next_seq jar + 1\<rparr>, next_seq jar)"

definition CookieJar_len :: "'t CookieJar \<Rightarrow> usize" where
  "CookieJar_len jar = length (cookies jar)"

definition CookieJar_is_empty :: "'t CookieJar \<Rightarrow> bool" where
  "CookieJar_is_empty jar \<longleftrightarrow> cookies jar = []"

definition cookie_id :: "'t Cookie \<Rightarrow> cookie_identity" where
  "cookie_id c = (ck_name c, ck_domain c, ck_path c)"

text \<open>The loop \<open>while self.cookies.len() >= MAX_COOKIES\<close>.\<close>

lemma swap_remove_shrinks [termination_simp]:
  "min_index_by key xs = Some i \<Longrightarrow> length (swap_remove xs i) < length xs"
  using min_index_by_Some [of key xs i] by (auto simp: length_swap_remove)

fun evict_oldest :: "'t Cookie list \<Rightarrow> 't Cookie list" where
  "evict_oldest cs =
     (if MAX_COOKIES \<le> length cs
      then (case min_index_by ck_seq cs of
          Some idx \<Rightarrow> evict_oldest (swap_remove cs idx)
        | None \<Rightarrow> cs)
      else cs)"

declare evict_oldest.simps [simp del]

definition CookieJar_upsert ::
    "'t CookieJar \<Rightarrow> 't Cookie \<Rightarrow> 't \<Rightarrow> 't CookieJar \<times> (unit, CookieError) result" where
  "CookieJar_upsert jar cookie now =
     (case position (\<lambda>c. ck_name c = ck_name cookie \<and> ck_domain c = ck_domain cookie
             \<and> ck_path c = ck_path cookie) (cookies jar) of
        Some i \<Rightarrow>
          (let existing = cookies jar ! i in
           (jar\<lparr>cookies := (cookies jar)[i := cookie\<lparr>ck_created := ck_created existing,
                  ck_seq := ck_seq existing, ck_last_access := now\<rparr>]\<rparr>, Ok ()))
      | None \<Rightarrow>
          (let jar1 = jar\<lparr>cookies := evict_oldest (cookies jar)\<rparr>;
               (jar2, s) = CookieJar_tick jar1
           in (jar2\<lparr>cookies := cookies jar2 @ [cookie\<lparr>ck_seq := s, ck_last_access := now\<rparr>]\<rparr>, Ok ())))"

definition cookie_of_parsed :: "'t ParsedCookie \<Rightarrow> 't Cookie" where
  "cookie_of_parsed p = \<lparr>ck_name = pc_name p, ck_value = pc_value p, ck_domain = pc_domain p,
     ck_host_only = pc_host_only p, ck_path = pc_path p, ck_expires = pc_expires p,
     ck_created = pc_created p, ck_last_access = pc_created p, ck_secure = pc_secure p,
     ck_http_only = pc_http_only p, ck_same_site = pc_same_site p, ck_seq = 0\<rparr>"

definition CookieJar_set_cookie ::
    "dns_lib \<Rightarrow> 't time_lib \<Rightarrow> (nat \<Rightarrow> 't) \<Rightarrow> 't CookieJar \<Rightarrow> string \<Rightarrow> Url \<Rightarrow> bool
     \<Rightarrow> 't CookieJar \<times> (unit, CookieError) result" where
  "CookieJar_set_cookie dns tm clock jar header request_url from_http_response =
     try_in jar (parse_set_cookie dns tm header request_url (clock 0) from_http_response) (\<lambda>parsed.
       CookieJar_upsert jar (cookie_of_parsed parsed) (clock 1))"

definition CookieJar_purge_expired :: "'t::linorder CookieJar \<Rightarrow> 't \<Rightarrow> 't CookieJar \<times> usize" where
  "CookieJar_purge_expired jar now =
     (let kept = filter (\<lambda>c. \<not> is_expired c now) (cookies jar)
      in (jar\<lparr>cookies := kept\<rparr>, length (cookies jar) - length kept))"

subsection \<open>Sending and reading\<close>

definition sendable ::
    "dns_lib \<Rightarrow> 't::linorder \<Rightarrow> Host \<Rightarrow> Url \<Rightarrow> bool \<Rightarrow> Method \<Rightarrow> 't Cookie \<Rightarrow> bool" where
  "sendable dns now host url cross_site meth c =
     (if is_expired c now then False
      else if \<not> cookie_domain_matches dns host (ck_host_only c) (ck_domain c) then False
      else if \<not> path_match (url_path url) (ck_path c) then False
      else if ck_secure c \<and> url_scheme url \<noteq> ''https'' then False
      else if cross_site then
        (case ck_same_site c of
           Strict \<Rightarrow> False
         | Lax \<Rightarrow> Method_is_safe meth
         | SameSite_None \<Rightarrow> True)
      else True)"

definition cookie_order :: "'t Cookie \<Rightarrow> int \<times> u64" where
  "cookie_order c = (- int (length (ck_path c)), ck_seq c)"

definition cookie_pair :: "'t Cookie \<Rightarrow> string" where
  "cookie_pair c = ck_name c @ ''='' @ ck_value c"

definition CookieJar_cookies_for ::
    "dns_lib \<Rightarrow> 't::linorder \<Rightarrow> 't CookieJar \<Rightarrow> Url \<Rightarrow> bool \<Rightarrow> Method \<Rightarrow> 't CookieJar \<times> string" where
  "CookieJar_cookies_for dns now jar url cross_site meth =
     (case url_host url of
        None \<Rightarrow> (jar, [])
      | Some host \<Rightarrow>
          (let ok = sendable dns now host url cross_site meth;
               matching = sort_key cookie_order (filter ok (cookies jar))
           in (jar\<lparr>cookies := map (\<lambda>c. if ok c then c\<lparr>ck_last_access := now\<rparr> else c) (cookies jar)\<rparr>,
               str_join ''; '' (map cookie_pair matching))))"

definition readable :: "dns_lib \<Rightarrow> 't::linorder \<Rightarrow> Host \<Rightarrow> Url \<Rightarrow> 't Cookie \<Rightarrow> bool" where
  "readable dns now host url c =
     (if ck_http_only c then False
      else if is_expired c now then False
      else if \<not> cookie_domain_matches dns host (ck_host_only c) (ck_domain c) then False
      else if \<not> path_match (url_path url) (ck_path c) then False
      else if ck_secure c \<and> url_scheme url \<noteq> ''https'' then False
      else True)"

definition CookieJar_document_cookie_string ::
    "dns_lib \<Rightarrow> 't::linorder \<Rightarrow> 't CookieJar \<Rightarrow> Url \<Rightarrow> string" where
  "CookieJar_document_cookie_string dns now jar url =
     (case url_host url of
        None \<Rightarrow> []
      | Some host \<Rightarrow>
          str_join ''; '' (map cookie_pair
            (sort_key cookie_order (filter (readable dns now host url) (cookies jar)))))"

subsection \<open>Snapshots and deltas\<close>

definition cookie_of_snapshot :: "'t time_lib \<Rightarrow> CookieSnapshot \<Rightarrow> 't \<Rightarrow> 't Cookie" where
  "cookie_of_snapshot tm sn now =
     \<lparr>ck_name = sn_name sn, ck_value = sn_value sn, ck_domain = to_ascii_lowercase (sn_domain sn),
      ck_host_only = sn_host_only sn, ck_path = (if sn_path sn = [] then ''/'' else sn_path sn),
      ck_expires = Option.bind (sn_expires_unix sn) (from_unix_timestamp tm),
      ck_created = (case from_unix_timestamp tm (sn_creation_unix sn) of Some t \<Rightarrow> t | None \<Rightarrow> now),
      ck_last_access = now, ck_secure = sn_secure sn, ck_http_only = sn_http_only sn,
      ck_same_site = sn_same_site sn, ck_seq = 0\<rparr>"

definition cookie_from_snapshot ::
    "'t::linorder time_lib \<Rightarrow> CookieSnapshot \<Rightarrow> 't \<Rightarrow> 't Cookie option" where
  "cookie_from_snapshot tm sn now =
     (let cookie = cookie_of_snapshot tm sn now
      in if \<not> is_expired cookie now then Some cookie else None)"

text \<open>The two loops that store the cookies of a list of snapshots.\<close>

primrec upsert_snapshots ::
    "'t::linorder time_lib \<Rightarrow> 't \<Rightarrow> (nat \<Rightarrow> 't) \<Rightarrow> nat \<Rightarrow> 't CookieJar \<Rightarrow> CookieSnapshot list
     \<Rightarrow> 't CookieJar" where
  "upsert_snapshots tm now clock i jar [] = jar"
| "upsert_snapshots tm now clock i jar (sn # sns) =
     upsert_snapshots tm now clock (Suc i)
       (case cookie_from_snapshot tm sn now of
          Some c \<Rightarrow> fst (CookieJar_upsert jar c (clock (Suc i)))
        | None \<Rightarrow> jar) sns"

definition CookieJar_replace_with_snapshots ::
    "'t::linorder time_lib \<Rightarrow> (nat \<Rightarrow> 't) \<Rightarrow> 't CookieJar \<Rightarrow> CookieSnapshot list \<Rightarrow> 't CookieJar" where
  "CookieJar_replace_with_snapshots tm clock jar sns =
     upsert_snapshots tm (clock 0) clock 0 (jar\<lparr>cookies := [], next_seq := 0\<rparr>) sns"

definition CookieJar_from_snapshots ::
    "'t::linorder time_lib \<Rightarrow> (nat \<Rightarrow> 't) \<Rightarrow> CookieSnapshot list \<Rightarrow> 't CookieJar" where
  "CookieJar_from_snapshots tm clock sns = CookieJar_replace_with_snapshots tm clock CookieJar_new sns"

definition snapshot_of :: "'t time_lib \<Rightarrow> 't Cookie \<Rightarrow> CookieSnapshot" where
  "snapshot_of tm c =
     \<lparr>sn_name = ck_name c, sn_value = ck_value c, sn_domain = ck_domain c,
      sn_host_only = ck_host_only c, sn_path = ck_path c,
      sn_expires_unix = map_option (unix_timestamp tm) (ck_expires c), sn_secure = ck_secure c,
      sn_http_only = ck_http_only c, sn_same_site = ck_same_site c,
      sn_creation_unix = unix_timestamp tm (ck_created c)\<rparr>"

definition CookieJar_snapshots :: "'t::linorder time_lib \<Rightarrow> 't \<Rightarrow> 't CookieJar \<Rightarrow> CookieSnapshot list" where
  "CookieJar_snapshots tm now jar =
     map (snapshot_of tm) (filter (\<lambda>c. \<not> is_expired c now) (cookies jar))"

definition snapshot_id :: "CookieSnapshot \<Rightarrow> cookie_identity" where
  "snapshot_id sn = (sn_name sn, sn_domain sn, sn_path sn)"

definition snapshots_by_identity ::
    "CookieSnapshot list \<Rightarrow> (cookie_identity, CookieSnapshot) btree" where
  "snapshots_by_identity sns = bt_collect (map (\<lambda>sn. (snapshot_id sn, sn)) sns)"

definition CookieJar_delta_from_snapshots ::
    "'t::linorder time_lib \<Rightarrow> 't \<Rightarrow> 't CookieJar \<Rightarrow> CookieSnapshot list \<Rightarrow> CookieJarDelta" where
  "CookieJar_delta_from_snapshots tm now jar baseline0 =
     (let baseline = snapshots_by_identity baseline0;
          current = snapshots_by_identity (CookieJar_snapshots tm now jar)
      in \<lparr>upserts = map snd (filter (\<lambda>(k, sn). bt_get baseline k \<noteq> Some sn) current),
          removals = filter (\<lambda>k. \<not> bt_contains_key current k) (bt_keys baseline)\<rparr>)"

definition CookieJar_apply_delta ::
    "'t::linorder time_lib \<Rightarrow> (nat \<Rightarrow> 't) \<Rightarrow> 't CookieJar \<Rightarrow> CookieJarDelta \<Rightarrow> 't CookieJar" where
  "CookieJar_apply_delta tm clock jar delta =
     (let kept = filter (\<lambda>c. cookie_id c \<notin> set (removals delta)) (cookies jar)
      in upsert_snapshots tm (clock 0) clock 0 (jar\<lparr>cookies := kept\<rparr>) (upserts delta))"

end
