(* ===== verification/Cookie_Runs.thy ===== *)
theory Cookie_Runs
  imports Cookie_Jar
begin

section \<open>The cookie jar over a session\<close>

text \<open>
  Sequences of the operations on a jar. The lemmas show its invariant (one cookie per identity, at most
  512 of them, insertion numbers that are distinct and below the counter) and that storing a cookie
  works on the cookies in order of age like a bounded queue: a known identity is replaced in its
  place, a new one goes to the end and the oldest one leaves when the jar is full.
\<close>

subsection \<open>Removing the oldest\<close>

text \<open>With distinct keys the sorted list is determined by the set of elements.\<close>

lemma sort_key_unique:
  assumes "distinct (map f xs)" and "sorted (map f ys)" and "mset ys = mset xs"
  shows "sort_key f xs = ys"
proof (rule map_sorted_distinct_set_unique)
  have set: "set ys = set xs" using assms(3) by (metis set_mset_mset)
  from assms(1) show "inj_on f (set (sort_key f xs) \<union> set ys)"
    by (simp add: set distinct_map)
  have "mset (map f ys) = mset (map f xs)" using assms(3) by simp
  then show "distinct (map f ys)" using assms(1) by (metis mset_eq_imp_distinct_iff)
  have "mset (map f (sort_key f xs)) = mset (map f xs)" by simp
  then show "distinct (map f (sort_key f xs))" using assms(1) by (metis mset_eq_imp_distinct_iff)
  show "set (sort_key f xs) = set ys" by (simp add: set)
qed (use assms in simp_all)

lemma sort_key_map_inv:
  assumes "\<And>x. x \<in> set xs \<Longrightarrow> f (g x) = f x" and "distinct (map f xs)"
  shows "sort_key f (map g xs) = map g (sort_key f xs)"
proof (rule sort_key_unique)
  have "map f (map g xs) = map f xs" "map f (map g (sort_key f xs)) = map f (sort_key f xs)"
    using assms(1) by simp_all
  with assms(2) show "distinct (map f (map g xs))" "sorted (map f (map g (sort_key f xs)))"
    by (simp_all only: sorted_sort_key)
qed simp

lemma sort_key_snoc_greatest:
  assumes "distinct (map f xs)" and "\<And>x. x \<in> set xs \<Longrightarrow> f x < f y"
  shows "sort_key f (xs @ [y]) = sort_key f xs @ [y]"
proof (rule sort_key_unique)
  have "f y \<notin> f ` set xs" using assms(2) by (metis imageE less_irrefl)
  with assms(1) show "distinct (map f (xs @ [y]))" by auto
qed (use assms(2) in \<open>auto simp: sorted_append less_imp_le\<close>)

lemma sort_remove_least:
  assumes "min_index_by f xs = Some i" and "distinct (map f xs)"
  shows "sort_key f (swap_remove xs i) = tl (sort_key f xs)" and "distinct (map f (swap_remove xs i))"
proof -
  have i: "i < length xs" "\<forall>x\<in>set xs. f (xs ! i) \<le> f x" using min_index_by_Some [OF assms(1)] by auto
  let ?m = "xs ! i" and ?ys = "sort_key f (swap_remove xs i)"
  have m: "mset xs = add_mset ?m (mset (swap_remove xs i))" using mset_swap_remove [OF i(1)] by simp
  have "mset (map f xs) = add_mset (f ?m) (mset (map f (swap_remove xs i)))" using m by simp
  then have "mset (map f xs) = mset (f ?m # map f (swap_remove xs i))" by simp
  then have "distinct (f ?m # map f (swap_remove xs i))"
    using assms(2) mset_eq_imp_distinct_iff by blast
  then show d: "distinct (map f (swap_remove xs i))" by simp
  have "set (swap_remove xs i) \<subseteq> set xs" using m by (metis set_mset_mset set_mset_add_mset_insert subset_insertI)
  with i(2) have "sorted (map f (?m # ?ys))" by auto
  then have "sort_key f xs = ?m # ?ys"
    using assms(2) m by (intro sort_key_unique) simp_all
  then show "?ys = tl (sort_key f xs)" by simp
qed

lemma evict_oldest_small: "length cs < MAX_COOKIES \<Longrightarrow> evict_oldest cs = cs"
  by (simp add: evict_oldest.simps)

lemma evict_oldest_spec:
  assumes "distinct (map ck_seq cs)"
  shows "sort_key ck_seq (evict_oldest cs) = drop (Suc (length cs) - MAX_COOKIES) (sort_key ck_seq cs)
    \<and> distinct (map ck_seq (evict_oldest cs))"
  using assms
proof (induction cs rule: evict_oldest.induct)
  case (1 cs)
  show ?case
  proof (cases "MAX_COOKIES \<le> length cs")
    case True
    then have "cs \<noteq> []" by (auto simp: MAX_COOKIES_def)
    then obtain i where i: "min_index_by ck_seq cs = Some i"
      by (metis min_index_by_None not_None_eq)
    note rest = sort_remove_least [OF i 1(2)]
    have "length (swap_remove cs i) = length cs - 1" "0 < length cs"
      using min_index_by_Some [OF i] by (auto simp: length_swap_remove)
    with 1(1) [OF True i rest(2)] True rest(1) show ?thesis
      by (simp add: evict_oldest.simps [of cs] i Suc_diff_le drop_Suc)
  qed (use 1(2) in \<open>simp add: evict_oldest_small\<close>)
qed

lemma evict_oldest_subset:
  "set (evict_oldest cs) \<subseteq> set cs \<and> length (evict_oldest cs) < MAX_COOKIES
    \<and> (distinct (map f cs) \<longrightarrow> distinct (map f (evict_oldest cs)))"
proof (induction cs rule: evict_oldest.induct)
  case (1 cs)
  show ?case
  proof (cases "MAX_COOKIES \<le> length cs")
    case True
    then have "cs \<noteq> []" by (auto simp: MAX_COOKIES_def)
    then obtain i where i: "min_index_by ck_seq cs = Some i"
      by (metis min_index_by_None not_None_eq)
    then have m: "mset cs = add_mset (cs ! i) (mset (swap_remove cs i))"
      using mset_swap_remove min_index_by_Some by (metis (no_types))
    then have "set (swap_remove cs i) \<subseteq> set cs"
      by (metis set_mset_mset set_mset_add_mset_insert subset_insertI)
    moreover have "mset (map f cs) = mset (f (cs ! i) # map f (swap_remove cs i))" using m by simp
    then have "distinct (map f cs) \<longrightarrow> distinct (map f (swap_remove cs i))"
      using mset_eq_imp_distinct_iff by (metis distinct.simps(2))
    ultimately show ?thesis
      using 1(1) [OF True i] True by (auto simp: evict_oldest.simps [of cs] i)
  qed (simp add: evict_oldest_small)
qed

subsection \<open>The invariant\<close>

definition jar_ok :: "'t CookieJar \<Rightarrow> bool" where
  "jar_ok jar \<longleftrightarrow> distinct (map cookie_id (cookies jar)) \<and> length (cookies jar) \<le> MAX_COOKIES"

text \<open>Insertion numbers are in use below the counter; \<open>n\<close> bounds the number of insertions so far.\<close>

definition seq_ok :: "nat \<Rightarrow> 't CookieJar \<Rightarrow> bool" where
  "seq_ok n jar \<longleftrightarrow> distinct (map ck_seq (cookies jar))
     \<and> (\<forall>c\<in>set (cookies jar). ck_seq c < next_seq jar) \<and> unat (next_seq jar) \<le> n"

definition by_age :: "'t CookieJar \<Rightarrow> 't Cookie list" where
  "by_age jar = sort_key ck_seq (cookies jar)"

lemma set_by_age [simp]: "set (by_age jar) = set (cookies jar)" "length (by_age jar) = length (cookies jar)"
  by (simp_all add: by_age_def)

definition replacing :: "'t Cookie \<Rightarrow> 't \<Rightarrow> 't Cookie \<Rightarrow> 't Cookie" where
  "replacing c now d = (if cookie_id d = cookie_id c
     then c\<lparr>ck_created := ck_created d, ck_seq := ck_seq d, ck_last_access := now\<rparr> else d)"

lemma cookie_id_eq:
  "(ck_name c = ck_name d \<and> ck_domain c = ck_domain d \<and> ck_path c = ck_path d)
     \<longleftrightarrow> cookie_id c = cookie_id d"
  by (simp add: cookie_id_def)

lemma replacing_sel [simp]:
  "cookie_id (replacing c now d) = cookie_id d" "ck_seq (replacing c now d) = ck_seq d"
  by (auto simp: replacing_def cookie_id_def)

lemma cookie_id_update [simp]:
  "cookie_id (c\<lparr>ck_seq := s\<rparr>) = cookie_id c" "cookie_id (c\<lparr>ck_last_access := t\<rparr>) = cookie_id c"
  by (simp_all add: cookie_id_def)

lemma update_by_identity:
  assumes "distinct (map cookie_id cs)" and "i < length cs" and "cookie_id (cs ! i) = cookie_id c"
  shows "cs[i := c\<lparr>ck_created := ck_created (cs ! i), ck_seq := ck_seq (cs ! i), ck_last_access := now\<rparr>]
    = map (replacing c now) cs"
proof (rule nth_equalityI)
  fix j
  assume j: "j < length (cs[i := c\<lparr>ck_created := ck_created (cs ! i), ck_seq := ck_seq (cs ! i),
    ck_last_access := now\<rparr>])"
  have "cookie_id (cs ! j) = cookie_id c \<longleftrightarrow> j = i"
    using assms j nth_eq_iff_index_eq [OF assms(1), of j i] by auto
  with j assms show "cs[i := c\<lparr>ck_created := ck_created (cs ! i), ck_seq := ck_seq (cs ! i),
      ck_last_access := now\<rparr>] ! j = map (replacing c now) cs ! j"
    by (auto simp: replacing_def nth_list_update)
qed simp

text \<open>Storing a cookie in a jar with distinct identities.\<close>

lemma upsert_eq:
  assumes "distinct (map cookie_id (cookies jar))"
  shows "CookieJar_upsert jar c now =
    (if cookie_id c \<in> cookie_id ` set (cookies jar)
     then jar\<lparr>cookies := map (replacing c now) (cookies jar)\<rparr>
     else \<lparr>cookies = evict_oldest (cookies jar) @ [c\<lparr>ck_seq := next_seq jar, ck_last_access := now\<rparr>],
           next_seq = next_seq jar + 1\<rparr>, Ok ())"
proof (cases "position (\<lambda>d. cookie_id d = cookie_id c) (cookies jar)")
  case None
  then have "cookie_id c \<notin> cookie_id ` set (cookies jar)" by (auto simp: position_eq_None)
  with None show ?thesis
    by (cases jar) (simp add: CookieJar_upsert_def cookie_id_eq CookieJar_tick_def)
next
  case (Some i)
  with position_Some [OF Some] update_by_identity [OF assms] show ?thesis
    by (auto simp: CookieJar_upsert_def cookie_id_eq Let_def image_iff) (metis nth_mem)
qed

lemma upsert_ok:
  assumes "jar_ok jar"
  shows "jar_ok (fst (CookieJar_upsert jar c now))"
proof -
  have "distinct (map cookie_id (cookies jar))" using assms by (simp add: jar_ok_def)
  then show ?thesis
    using assms evict_oldest_subset [of "cookies jar" cookie_id]
    by (auto simp: upsert_eq jar_ok_def comp_def image_iff)
qed

lemma upsert_seq_ok:
  assumes "jar_ok jar" and "seq_ok n jar" and "Suc n < 2 ^ 64"
  shows "seq_ok (Suc n) (fst (CookieJar_upsert jar c now))"
proof -
  have "distinct (map cookie_id (cookies jar))" using assms(1) by (simp add: jar_ok_def)
  note eq = upsert_eq [OF this, of c now]
  show ?thesis
  proof (cases "cookie_id c \<in> cookie_id ` set (cookies jar)")
    case True
    with assms(2) show ?thesis by (auto simp: eq seq_ok_def comp_def)
  next
    case False
    have s: "distinct (map ck_seq (cookies jar))" "unat (next_seq jar) \<le> n"
        "\<And>d. d \<in> set (cookies jar) \<Longrightarrow> ck_seq d < next_seq jar"
      using assms(2) by (auto simp: seq_ok_def)
    have up: "unat (next_seq jar + 1) = Suc (unat (next_seq jar))"
      using s(2) assms(3) by (simp add: unat_word_ariths)
    then have less: "x < next_seq jar + 1" if "x \<le> next_seq jar" for x
      using that by (simp add: word_less_nat_alt word_le_nat_alt)
    have old: "ck_seq d < next_seq jar" if "d \<in> set (evict_oldest (cookies jar))" for d
      using evict_oldest_subset [of "cookies jar" ck_seq] s(3) that by auto
    then have "next_seq jar \<notin> ck_seq ` set (evict_oldest (cookies jar))"
      by (metis imageE less_irrefl)
    moreover have "distinct (map ck_seq (evict_oldest (cookies jar)))"
      using evict_oldest_subset [of "cookies jar" ck_seq] s(1) by auto
    moreover have "ck_seq d < next_seq jar + 1" if "d \<in> set (evict_oldest (cookies jar))" for d
      using old [OF that] less by (simp add: less_imp_le)
    ultimately show ?thesis
      using s(2) False up less by (auto simp: eq seq_ok_def)
  qed
qed

lemma upsert_by_age:
  assumes "jar_ok jar" and "seq_ok n jar"
  shows "by_age (fst (CookieJar_upsert jar c now)) =
    (if cookie_id c \<in> cookie_id ` set (cookies jar)
     then map (replacing c now) (by_age jar)
     else drop (Suc (length (by_age jar)) - MAX_COOKIES) (by_age jar)
       @ [c\<lparr>ck_seq := next_seq jar, ck_last_access := now\<rparr>])"
proof -
  have d: "distinct (map cookie_id (cookies jar))" using assms(1) by (simp add: jar_ok_def)
  have s: "distinct (map ck_seq (cookies jar))" "\<And>d. d \<in> set (cookies jar) \<Longrightarrow> ck_seq d < next_seq jar"
    using assms(2) by (auto simp: seq_ok_def)
  have "sort_key ck_seq (evict_oldest (cookies jar) @ [c\<lparr>ck_seq := next_seq jar, ck_last_access := now\<rparr>])
      = drop (Suc (length (cookies jar)) - MAX_COOKIES) (sort_key ck_seq (cookies jar))
        @ [c\<lparr>ck_seq := next_seq jar, ck_last_access := now\<rparr>]"
    using evict_oldest_spec [OF s(1)] evict_oldest_subset [of "cookies jar" ck_seq] s(2)
    by (subst sort_key_snoc_greatest) auto
  then show ?thesis
    using s(1) by (simp add: by_age_def upsert_eq [OF d] sort_key_map_inv)
qed

subsection \<open>A bounded queue of identities\<close>

text \<open>What the users of the jar rely on: storing appends a new identity to the queue of identities by
  age, from which the oldest leave beyond the capacity. \<open>ok n\<close> says that \<open>n\<close> more items can be
  numbered.\<close>

locale bounded_queue =
  fixes ok :: "nat \<Rightarrow> 's \<Rightarrow> bool"
    and ids :: "'s \<Rightarrow> 'i list"
    and store :: "'s \<Rightarrow> 'x \<Rightarrow> 's"
    and ident :: "'x \<Rightarrow> 'i"
    and cap :: nat
  assumes cap_pos: "0 < cap"
    and ok_store: "ok (Suc n) s \<Longrightarrow> ok n (store s x)"
    and ids_store: "ok (Suc n) s \<Longrightarrow> ids (store s x) =
      (if ident x \<in> set (ids s) then ids s
       else drop (Suc (length (ids s)) - cap) (ids s) @ [ident x])"
begin

lemma stored_present: "ok (Suc n) s \<Longrightarrow> ident x \<in> set (ids (store s x))"
  by (simp add: ids_store [of n])

text \<open>One of the \<open>n\<close> youngest is one of the \<open>n + 1\<close> youngest after storing.\<close>

lemma young_after_store:
  assumes "ok (Suc k) s" and "i \<in> set (drop (length (ids s) - n) (ids s))" and "Suc n \<le> cap"
  shows "i \<in> set (drop (length (ids (store s x)) - Suc n) (ids (store s x)))"
proof (cases "ident x \<in> set (ids s)")
  case True
  have "set (drop (length (ids s) - n) (ids s)) \<subseteq> set (drop (length (ids s) - Suc n) (ids s))"
    by (rule set_drop_subset_set_drop) simp
  with True assms show ?thesis by (auto simp: ids_store [of k])
next
  case False
  let ?m = "Suc (length (ids s)) - cap"
  have "set (drop (length (ids s) - n) (ids s)) \<subseteq> set (drop (length (ids s) - ?m - n + ?m) (ids s))"
    by (rule set_drop_subset_set_drop) (use assms(3) in linarith)
  then show ?thesis
    using assms(1,2) False by (auto simp: ids_store [of k])
qed

lemma young_survive:
  assumes "ok (length xs + k) s" and "i \<in> set (drop (length (ids s) - n) (ids s))"
    and "n + length xs \<le> cap"
  shows "i \<in> set (ids (foldl store s xs))"
  using assms
proof (induction xs arbitrary: s n)
  case Nil
  then show ?case by (auto dest: in_set_dropD)
next
  case (Cons x xs)
  have "ok (Suc (length xs + k)) s" using Cons.prems(1) by simp
  from ok_store [OF this] young_after_store [OF this Cons.prems(2)] Cons.prems(3)
    Cons.IH [of "store s x" "Suc n"]
  show ?case by simp
qed

end

subsection \<open>Events\<close>

datatype 't jar_event =
    SetCookie "nat \<Rightarrow> 't" string Url bool
  | CookiesFor 't Url bool Method
  | Purge 't
  | Replace "nat \<Rightarrow> 't" "CookieSnapshot list"
  | ApplyDelta "nat \<Rightarrow> 't" CookieJarDelta

primrec jar_step ::
    "dns_lib \<Rightarrow> 't::linorder time_lib \<Rightarrow> 't CookieJar \<Rightarrow> 't jar_event \<Rightarrow> 't CookieJar" where
  "jar_step dns tm jar (SetCookie clock header url from_http) =
     fst (CookieJar_set_cookie dns tm clock jar header url from_http)"
| "jar_step dns tm jar (CookiesFor now url cross_site meth) =
     fst (CookieJar_cookies_for dns now jar url cross_site meth)"
| "jar_step dns tm jar (Purge now) = fst (CookieJar_purge_expired jar now)"
| "jar_step dns tm jar (Replace clock sns) = CookieJar_replace_with_snapshots tm clock jar sns"
| "jar_step dns tm jar (ApplyDelta clock delta) = CookieJar_apply_delta tm clock jar delta"

definition jar_run :: "dns_lib \<Rightarrow> 't::linorder time_lib \<Rightarrow> 't jar_event list \<Rightarrow> 't CookieJar" where
  "jar_run dns tm es = foldl (jar_step dns tm) CookieJar_new es"

text \<open>How many cookies an event may insert.\<close>

primrec offered :: "'t jar_event \<Rightarrow> nat" where
  "offered (SetCookie clock header url from_http) = 1"
| "offered (CookiesFor now url cross_site meth) = 0"
| "offered (Purge now) = 0"
| "offered (Replace clock sns) = length sns"
| "offered (ApplyDelta clock delta) = length (upserts delta)"

lemma seq_ok_mono: "seq_ok m jar \<Longrightarrow> m \<le> n \<Longrightarrow> seq_ok n jar"
  by (auto simp: seq_ok_def)

lemma filter_jar_ok:
  "jar_ok jar \<Longrightarrow> jar_ok (jar\<lparr>cookies := filter p (cookies jar)\<rparr>)"
  "seq_ok n jar \<Longrightarrow> seq_ok n (jar\<lparr>cookies := filter p (cookies jar)\<rparr>)"
  by (auto simp: jar_ok_def seq_ok_def distinct_map_filter intro: order_trans [OF length_filter_le])

lemma upsert_snapshots_ok:
  "jar_ok jar \<Longrightarrow> jar_ok (upsert_snapshots tm now clock i jar sns)"
  by (induction sns arbitrary: i jar) (auto intro: upsert_ok split: option.split)

lemma upsert_snapshots_seq_ok:
  "jar_ok jar \<Longrightarrow> seq_ok n jar \<Longrightarrow> n + length sns < 2 ^ 64 \<Longrightarrow>
     seq_ok (n + length sns) (upsert_snapshots tm now clock i jar sns)"
proof (induction sns arbitrary: i jar n)
  case (Cons sn sns)
  show ?case
  proof (cases "cookie_from_snapshot tm sn now")
    case None
    with Cons.IH [of jar "Suc n"] Cons.prems seq_ok_mono [of n jar "Suc n"] show ?thesis by simp
  next
    case (Some c)
    with Cons.IH [of "fst (CookieJar_upsert jar c (clock (Suc i)))" "Suc n"] Cons.prems
      upsert_ok [of jar] upsert_seq_ok [of jar n] show ?thesis by simp
  qed
qed simp

lemma jar_step_ok: "jar_ok jar \<Longrightarrow> jar_ok (jar_step dns tm jar e)"
proof (cases e)
  case (SetCookie clock header url from_http)
  assume "jar_ok jar"
  then show ?thesis
    by (cases "parse_set_cookie dns tm header url (clock 0) from_http")
      (simp_all add: SetCookie CookieJar_set_cookie_def upsert_ok)
next
  case (CookiesFor now url cross_site meth)
  have "map cookie_id (map (\<lambda>c. if p c then c\<lparr>ck_last_access := now\<rparr> else c) cs) = map cookie_id cs" for p cs
    by simp
  moreover assume "jar_ok jar"
  ultimately show ?thesis
    by (auto simp: CookiesFor CookieJar_cookies_for_def jar_ok_def Let_def comp_def
        if_distrib cong: if_cong split: option.split)
qed (auto simp: CookieJar_purge_expired_def CookieJar_replace_with_snapshots_def CookieJar_apply_delta_def
    Let_def filter_jar_ok jar_ok_def [of "_\<lparr>cookies := []\<rparr>"] intro!: upsert_snapshots_ok
    split: prod.splits, simp_all add: jar_ok_def)

lemma jar_step_seq_ok:
  assumes "jar_ok jar" and "seq_ok n jar" and "n + offered e < 2 ^ 64"
  shows "seq_ok (n + offered e) (jar_step dns tm jar e)"
proof (cases e)
  case (SetCookie clock header url from_http)
  with assms upsert_seq_ok [of jar n] seq_ok_mono [of n jar "Suc n"] show ?thesis
    by (cases "parse_set_cookie dns tm header url (clock 0) from_http")
      (simp_all add: CookieJar_set_cookie_def)
next
  case (CookiesFor now url cross_site meth)
  then show ?thesis
    using assms(2)
    by (auto simp: CookieJar_cookies_for_def seq_ok_def Let_def comp_def if_distrib
        cong: if_cong split: option.split)
next
  case (Purge now)
  with assms(2) show ?thesis by (simp add: CookieJar_purge_expired_def filter_jar_ok Let_def)
next
  case (Replace clock sns)
  have "jar_ok (jar\<lparr>cookies := [], next_seq := 0\<rparr>)" "seq_ok 0 (jar\<lparr>cookies := [], next_seq := 0\<rparr>)"
    by (simp_all add: jar_ok_def seq_ok_def)
  from upsert_snapshots_seq_ok [OF this, of sns tm "clock 0" clock 0] assms(3) Replace show ?thesis
    by (simp add: CookieJar_replace_with_snapshots_def seq_ok_mono)
next
  case (ApplyDelta clock delta)
  with upsert_snapshots_seq_ok [of "jar\<lparr>cookies := _\<rparr>" n "upserts delta"] assms show ?thesis
    by (simp add: CookieJar_apply_delta_def filter_jar_ok)
qed

lemma jar_run_ok:
  assumes "sum_list (map offered es) < 2 ^ 64"
  shows "jar_ok (jar_run dns tm es) \<and> seq_ok (sum_list (map offered es)) (jar_run dns tm es)"
  using assms
proof (induction es rule: rev_induct)
  case Nil
  then show ?case by (simp add: jar_run_def CookieJar_new_def jar_ok_def seq_ok_def)
next
  case (snoc e es)
  then have IH: "jar_ok (jar_run dns tm es)" "seq_ok (sum_list (map offered es)) (jar_run dns tm es)"
    by simp_all
  moreover have "jar_run dns tm (es @ [e]) = jar_step dns tm (jar_run dns tm es) e"
    by (simp add: jar_run_def)
  ultimately show ?case
    using snoc.prems jar_step_ok [OF IH(1)] jar_step_seq_ok [OF IH, of e] by simp
qed

subsection \<open>The jar is a bounded queue\<close>

definition jar_ready :: "nat \<Rightarrow> 't CookieJar \<Rightarrow> bool" where
  "jar_ready n jar \<longleftrightarrow> jar_ok jar \<and> n < 2 ^ 64 \<and> seq_ok (2 ^ 64 - 1 - n) jar"

definition ids_by_age :: "'t CookieJar \<Rightarrow> cookie_identity list" where
  "ids_by_age jar = map cookie_id (by_age jar)"

interpretation jar_queue: bounded_queue jar_ready ids_by_age
  "\<lambda>jar (c, now). fst (CookieJar_upsert jar c now)" "\<lambda>(c, now). cookie_id c" MAX_COOKIES
proof unfold_locales
  fix n and jar :: "'t CookieJar" and x :: "'t Cookie \<times> 't"
  assume ready: "jar_ready (Suc n) jar"
  then have "n < 18446744073709551615" by (simp add: jar_ready_def)
  then have "Suc (2 ^ 64 - 1 - Suc n) = 2 ^ 64 - 1 - n" by simp
  with ready show "jar_ready n (case x of (c, now) \<Rightarrow> fst (CookieJar_upsert jar c now))"
    using upsert_ok [of jar] upsert_seq_ok [of jar "2 ^ 64 - 1 - Suc n"]
    by (auto simp: jar_ready_def split: prod.split)
  show "ids_by_age (case x of (c, now) \<Rightarrow> fst (CookieJar_upsert jar c now)) =
      (if (case x of (c, now) \<Rightarrow> cookie_id c) \<in> set (ids_by_age jar) then ids_by_age jar
       else drop (Suc (length (ids_by_age jar)) - MAX_COOKIES) (ids_by_age jar)
         @ [case x of (c, now) \<Rightarrow> cookie_id c])"
    using ready
    by (cases x) (auto simp: jar_ready_def ids_by_age_def upsert_by_age [of jar "2 ^ 64 - 1 - Suc n"]
        comp_def drop_map)
qed (simp add: MAX_COOKIES_def)

end
