(* ===== verification/Cookie_Policy.thy ===== *)
theory Cookie_Policy
  imports Cookie_Runs
begin

section \<open>What the jar lets in and out\<close>

text \<open>
  The policy of the jar: which cookies \<open>set_cookie\<close> stores, that a stored cookie is sent back, which
  cookies a request or a script can observe, and how the changes of an isolated jar are merged.
\<close>

subsection \<open>Paths\<close>

lemma default_path_shape:
  assumes "starts_with_char (CHR ''/'') p"
  shows "default_path p = ''/'' \<or>
    (\<exists>a b. p = a @ CHR ''/'' # b \<and> default_path p = a \<and> starts_with_char (CHR ''/'') a)"
proof (cases "CHR ''/'' \<in> set (tl p)")
  case True
  from assms obtain q where p: "p = CHR ''/'' # q" by (cases p) (auto simp: starts_with_char_def)
  let ?d = "dropWhile (\<lambda>c. c \<noteq> CHR ''/'') (rev p)"
  have "?d = dropWhile (\<lambda>c. c \<noteq> CHR ''/'') (rev q) @ ''/''"
    using True by (simp add: p dropWhile_append1 [of "CHR ''/''"])
  moreover obtain r where "dropWhile (\<lambda>c. c \<noteq> CHR ''/'') (rev q) = CHR ''/'' # r"
  proof (cases "dropWhile (\<lambda>c. c \<noteq> CHR ''/'') (rev q)")
    case Nil
    with True show thesis by (auto simp: p dropWhile_eq_Nil_conv)
  next
    case (Cons a r)
    with that show thesis by (auto simp: dropWhile_eq_Cons_conv)
  qed
  ultimately have d: "?d = CHR ''/'' # r @ ''/''" by simp
  have "rev p = takeWhile (\<lambda>c. c \<noteq> CHR ''/'') (rev p) @ ?d" by simp
  then have "p = rev (tl ?d) @ CHR ''/'' # rev (takeWhile (\<lambda>c. c \<noteq> CHR ''/'') (rev p))"
    by (metis d append.assoc append_Cons append_Nil list.sel(3) rev.simps(2) rev_append rev_rev_ident)
  moreover have "default_path p = rev (tl ?d)"
    using assms True by (auto simp: default_path_def starts_with_char_def)
  ultimately show ?thesis by (auto simp: d starts_with_char_def)
qed (use assms in \<open>simp add: default_path_def\<close>)

lemma default_path_absolute: "starts_with_char (CHR ''/'') (default_path p)"
proof (cases "starts_with_char (CHR ''/'') p")
  case True
  from default_path_shape [OF this] show ?thesis by (auto simp: starts_with_char_def)
qed (simp add: default_path_def starts_with_char_def)

lemma path_match_iff:
  "path_match r c \<longleftrightarrow> r = c \<or> (\<exists>s. r = c @ s \<and> (ends_with_char (CHR ''/'') c \<or> starts_with_char (CHR ''/'') s))"
proof (cases "\<exists>s. r = c @ s")
  case True
  then obtain s where r: "r = c @ s" by blast
  then show ?thesis
    by (cases s) (auto simp: path_match_def str_starts_with_def starts_with_char_def nth_append)
next
  case False
  then have "\<not> str_starts_with r c" "r \<noteq> c" by (auto simp: str_starts_with_iff)
  with False show ?thesis by (simp add: path_match_def)
qed

text \<open>A request matches the default path of its own URL.\<close>

lemma default_path_matches:
  assumes "starts_with_char (CHR ''/'') p"
  shows "path_match p (default_path p)"
  using default_path_shape [OF assms]
proof
  assume "default_path p = ''/''"
  moreover obtain q where "p = ''/'' @ q" using assms by (cases p) (auto simp: starts_with_char_def)
  ultimately show ?thesis by (simp add: path_match_iff ends_with_char_def)
next
  assume "\<exists>a b. p = a @ CHR ''/'' # b \<and> default_path p = a \<and> starts_with_char (CHR ''/'') a"
  then show ?thesis by (auto simp: path_match_iff starts_with_char_def)
qed

subsection \<open>What is stored\<close>

text \<open>The domain a cookie may have: the host itself, or a parent of it that is no public suffix.\<close>

definition domain_allowed :: "dns_lib \<Rightarrow> Host \<Rightarrow> bool \<Rightarrow> string \<Rightarrow> bool" where
  "domain_allowed dns host host_only domain \<longleftrightarrow>
     (if host_only then domain = host_to_string dns host
      else \<exists>a d. domain = host_to_string dns a \<and> host_parse dns d = Some a
             \<and> \<not> is_public_suffix dns a \<and> cookie_domain_matches_host host False a)"

definition admissible :: "dns_lib \<Rightarrow> Url \<Rightarrow> bool \<Rightarrow> 't Cookie \<Rightarrow> bool" where
  "admissible dns url from_http c \<longleftrightarrow>
     (case url_host url of None \<Rightarrow> False
      | Some host \<Rightarrow> domain_allowed dns host (ck_host_only c) (ck_domain c))
     \<and> (ck_http_only c \<longrightarrow> from_http) \<and> (ck_secure c \<longrightarrow> url_scheme url = ''https'')
     \<and> (ck_same_site c = SameSite_None \<longrightarrow> ck_secure c)
     \<and> starts_with_char (CHR ''/'') (ck_path c) \<and> ck_name c \<noteq> []"

lemma parse_set_cookie_policy:
  assumes "parse_set_cookie dns tm header url now from_http = Ok p"
  shows "admissible dns url from_http (cookie_of_parsed p)"
proof -
  define at where "at = foldl (parse_attribute tm) Attributes_start (tl (str_split '';'' header))"
  from assms obtain name0 value0 host domain host_only
    where name: "str_trim name0 \<noteq> []" and host: "url_host url = Some host"
      and dom: "(case at_domain at of
            Some d \<Rightarrow> and_then (ok_or (cookie_domain dns host d)
                (DomainMismatch d (host_to_string dns host))) (\<lambda>cd. Ok (CookieDomain_into_parts cd))
          | None \<Rightarrow> Ok (host_to_string dns host, True)) = Ok (domain, host_only)"
      and gates: "at_http_only at \<longrightarrow> from_http" "at_secure at \<longrightarrow> url_scheme url = ''https''"
      and p: "pc_domain p = domain" "pc_host_only p = host_only" "pc_name p = str_trim name0"
        "pc_http_only p = at_http_only at" "pc_secure p = at_secure at"
        "pc_same_site p = SameSite_None \<longrightarrow> at_secure at"
        "pc_path p = (case at_path at of
              Some q \<Rightarrow> if starts_with_char (CHR ''/'') q then q else default_path (url_path url)
            | None \<Rightarrow> default_path (url_path url))"
    unfolding parse_set_cookie_def at_def [symmetric] Let_def
    by (auto simp: result_simps split: prod.splits if_splits)
  have path: "starts_with_char (CHR ''/'') (pc_path p)"
    using default_path_absolute by (auto simp: p split: option.splits)
  have domain: "domain_allowed dns host host_only domain"
  proof (cases "at_domain at")
    case (Some d)
    with dom obtain cd where cd: "cookie_domain dns host d = Some cd"
        "CookieDomain_into_parts cd = (domain, host_only)" by (auto simp: result_simps)
    from cd(1) show ?thesis
      by (cases rule: cookie_domain_cases)
        (use cd(2) in \<open>auto simp: CookieDomain_into_parts_def domain_allowed_def\<close>)
  qed (use dom in \<open>simp add: domain_allowed_def\<close>)
  show ?thesis
    using gates p name path domain host by (simp add: admissible_def cookie_of_parsed_def)
qed

text \<open>Every field but the times and the number of a stored cookie is the one that was parsed.\<close>

definition same_cookie :: "'t Cookie \<Rightarrow> 't Cookie \<Rightarrow> bool" where
  "same_cookie c d \<longleftrightarrow> cookie_id c = cookie_id d \<and> ck_value c = ck_value d
     \<and> ck_host_only c = ck_host_only d \<and> ck_expires c = ck_expires d \<and> ck_secure c = ck_secure d
     \<and> ck_http_only c = ck_http_only d \<and> ck_same_site c = ck_same_site d"

lemma upsert_stores:
  assumes "jar_ok jar"
  shows "\<exists>d \<in> set (cookies (fst (CookieJar_upsert jar c now))). same_cookie d c"
proof -
  have d: "distinct (map cookie_id (cookies jar))" using assms by (simp add: jar_ok_def)
  show ?thesis
  proof (cases "cookie_id c \<in> cookie_id ` set (cookies jar)")
    case True
    then obtain d where "d \<in> set (cookies jar)" "cookie_id d = cookie_id c" by auto
    moreover from this have "same_cookie (replacing c now d) c"
      by (simp add: replacing_def same_cookie_def cookie_id_def)
    ultimately show ?thesis using True by (auto simp: upsert_eq [OF d])
  next
    case False
    then show ?thesis by (simp add: upsert_eq [OF d] same_cookie_def)
  qed
qed

lemma same_cookie_sel:
  "same_cookie c d \<Longrightarrow> ck_name c = ck_name d \<and> ck_domain c = ck_domain d \<and> ck_path c = ck_path d
     \<and> cookie_pair c = cookie_pair d \<and> is_expired c now = is_expired d now
     \<and> sendable dns now host url cross meth c = sendable dns now host url cross meth d"
  by (auto simp: same_cookie_def cookie_id_def cookie_pair_def is_expired_def sendable_def)

lemma set_cookie_stores:
  assumes "jar_ok jar" and "CookieJar_set_cookie dns tm clock jar header url from_http = (jar', Ok ())"
  obtains p d where "parse_set_cookie dns tm header url (clock 0) from_http = Ok p"
    and "d \<in> set (cookies jar')" and "same_cookie d (cookie_of_parsed p)"
proof -
  from assms(2) obtain p where p: "parse_set_cookie dns tm header url (clock 0) from_http = Ok p"
      "CookieJar_upsert jar (cookie_of_parsed p) (clock 1) = (jar', Ok ())"
    by (auto simp: CookieJar_set_cookie_def result_simps)
  with upsert_stores [OF assms(1), of "cookie_of_parsed p" "clock 1"] that show thesis by auto
qed

lemma set_cookie_error:
  "CookieJar_set_cookie dns tm clock jar header url from_http = (jar', Err e) \<Longrightarrow>
     jar' = jar \<and> parse_set_cookie dns tm header url (clock 0) from_http = Err e"
  by (auto simp: CookieJar_set_cookie_def result_simps CookieJar_upsert_def Let_def split: option.splits prod.splits)

subsection \<open>What is sent\<close>

text \<open>The cookies of the header, in order.\<close>

definition sent_cookies ::
    "dns_lib \<Rightarrow> 't::linorder \<Rightarrow> 't CookieJar \<Rightarrow> Url \<Rightarrow> bool \<Rightarrow> Method \<Rightarrow> 't Cookie list" where
  "sent_cookies dns now jar url cross_site meth =
     (case url_host url of None \<Rightarrow> []
      | Some host \<Rightarrow> sort_key cookie_order (filter (sendable dns now host url cross_site meth) (cookies jar)))"

lemma header_of_sent:
  "snd (CookieJar_cookies_for dns now jar url cross_site meth) =
     str_join ''; '' (map cookie_pair (sent_cookies dns now jar url cross_site meth))"
  by (simp add: CookieJar_cookies_for_def sent_cookies_def Let_def split: option.split)

text \<open>Printing the host of a URL, or a host that was parsed, and parsing it again gives the host, as the
  \<open>url\<close> crate documents.\<close>

definition hosts_roundtrip :: "dns_lib \<Rightarrow> Url \<Rightarrow> bool" where
  "hosts_roundtrip dns url \<longleftrightarrow>
     (\<forall>h. url_host url = Some h \<or> (\<exists>s. host_parse dns s = Some h) \<longrightarrow>
        host_parse dns (host_to_string dns h) = Some h)"

lemma allowed_domain_matches:
  assumes "hosts_roundtrip dns url" and "url_host url = Some host" and "domain_allowed dns host ho domain"
  shows "cookie_domain_matches dns host ho domain"
proof (cases ho)
  case True
  then have "host_parse dns domain = Some host"
    using assms by (simp add: domain_allowed_def hosts_roundtrip_def)
  then show ?thesis by (simp add: cookie_domain_matches_def cookie_domain_matches_host_def)
next
  case False
  with assms(3) obtain a d where a: "domain = host_to_string dns a" "host_parse dns d = Some a"
      "cookie_domain_matches_host host False a" by (auto simp: domain_allowed_def)
  from assms(1) a(2) have "host_parse dns (host_to_string dns a) = Some a"
    unfolding hosts_roundtrip_def by blast
  with a False show ?thesis by (simp add: cookie_domain_matches_def)
qed

lemma stored_cookie_sent:
  assumes "jar_ok jar" and "CookieJar_set_cookie dns tm clock jar header url from_http = (jar', Ok ())"
    and "parse_set_cookie dns tm header url (clock 0) from_http = Ok p"
    and "hosts_roundtrip dns url" and "path_match (url_path url) (pc_path p)"
    and "\<not> is_expired (cookie_of_parsed p) now"
  shows "\<exists>d \<in> set (sent_cookies dns now jar' url False meth). cookie_pair d = pc_name p @ ''='' @ pc_value p"
proof -
  obtain d where d: "d \<in> set (cookies jar')" "same_cookie d (cookie_of_parsed p)"
    using set_cookie_stores [OF assms(1,2)] assms(3) by (metis result.inject(1))
  from parse_set_cookie_policy [OF assms(3)] obtain host where host: "url_host url = Some host"
    and secure: "pc_secure p \<longrightarrow> url_scheme url = ''https''"
    and domain: "domain_allowed dns host (pc_host_only p) (pc_domain p)"
    by (cases "url_host url") (simp_all add: admissible_def cookie_of_parsed_def)
  have "sendable dns now host url False meth (cookie_of_parsed p)"
    using assms(5,6) secure allowed_domain_matches [OF assms(4) host domain]
    by (simp add: sendable_def cookie_of_parsed_def is_expired_def)
  with d same_cookie_sel [OF d(2), where now = now and dns = dns and host = host and url = url
      and cross = False and meth = meth] host show ?thesis
    by (auto simp: sent_cookies_def cookie_pair_def cookie_of_parsed_def)
qed

subsection \<open>What can be observed\<close>

text \<open>The cookies a request may carry by its scheme, site and method.\<close>

definition may_travel :: "Url \<Rightarrow> bool \<Rightarrow> Method \<Rightarrow> 't Cookie \<Rightarrow> bool" where
  "may_travel url cross_site meth c \<longleftrightarrow>
     (ck_secure c \<longrightarrow> url_scheme url = ''https'')
     \<and> (cross_site \<longrightarrow> ck_same_site c \<noteq> Strict \<and> (ck_same_site c = Lax \<longrightarrow> Method_is_safe meth))"

lemma sendable_may_travel: "sendable dns now host url cross_site meth c \<Longrightarrow> may_travel url cross_site meth c"
  by (auto simp: sendable_def may_travel_def split: if_splits SameSite.splits)

lemma filter_through:
  assumes "\<And>x. p x \<Longrightarrow> q x" and "filter q xs = filter q ys"
  shows "filter p xs = filter p ys"
proof -
  have "filter p zs = filter p (filter q zs)" for zs
    using assms(1) by (induction zs) auto
  with assms(2) show ?thesis by metis
qed

lemma header_determined:
  assumes "filter (may_travel url cross_site meth) (cookies jar)
      = filter (may_travel url cross_site meth) (cookies jar')"
  shows "snd (CookieJar_cookies_for dns now jar url cross_site meth)
    = snd (CookieJar_cookies_for dns now jar' url cross_site meth)"
proof -
  have "filter (sendable dns now host url cross_site meth) (cookies jar)
      = filter (sendable dns now host url cross_site meth) (cookies jar')" for host
    using sendable_may_travel assms by (rule filter_through)
  then show ?thesis by (simp add: header_of_sent sent_cookies_def split: option.split)
qed

lemma document_cookie_determined:
  assumes "filter (\<lambda>c. \<not> ck_http_only c) (cookies jar) = filter (\<lambda>c. \<not> ck_http_only c) (cookies jar')"
  shows "CookieJar_document_cookie_string dns now jar url = CookieJar_document_cookie_string dns now jar' url"
proof -
  have "filter (readable dns now host url) (cookies jar) = filter (readable dns now host url) (cookies jar')" for host
    using _ assms by (rule filter_through) (simp add: readable_def split: if_splits)
  then show ?thesis by (simp add: CookieJar_document_cookie_string_def split: option.split)
qed

text \<open>A script cannot set an HttpOnly cookie, but it can replace one: RFC 6265, section 5.3, step 11.2,
  ignores such a write.\<close>

lemma script_replaces_http_only:
  assumes "jar_ok jar" and "d \<in> set (cookies jar)" and "ck_http_only d"
    and "parse_set_cookie dns tm header url (clock 0) False = Ok p"
    and "cookie_id (cookie_of_parsed p) = cookie_id d"
  shows "\<exists>jar'. CookieJar_set_cookie dns tm clock jar header url False = (jar', Ok ())
    \<and> (\<forall>c\<in>set (cookies jar'). cookie_id c = cookie_id d \<longrightarrow> \<not> ck_http_only c)"
proof -
  have dist: "distinct (map cookie_id (cookies jar))" using assms(1) by (simp add: jar_ok_def)
  have "\<not> ck_http_only (cookie_of_parsed p)"
    using parse_set_cookie_policy [OF assms(4)] by (simp add: admissible_def)
  moreover have "cookie_id (cookie_of_parsed p) \<in> cookie_id ` set (cookies jar)"
    using assms(2,5) by simp
  ultimately show ?thesis
    by (auto simp: CookieJar_set_cookie_def assms(4,5) upsert_eq [OF dist] replacing_def)
qed

end
