(* ===== verification/Cookie_Delta.thy ===== *)
theory Cookie_Delta
  imports Cookie_Policy
begin

section \<open>Merging the changes of an isolated jar\<close>

text \<open>
  A fetch works on a jar made from snapshots of the profile's jar; afterwards only what it changed is
  merged back. The lemmas say what the merged jar holds for each identity.
\<close>

definition jar_lookup :: "'t CookieJar \<Rightarrow> cookie_identity \<Rightarrow> 't Cookie option" where
  "jar_lookup jar = map_of (map (\<lambda>c. (cookie_id c, c)) (cookies jar))"

text \<open>The fields of a cookie that a snapshot determines.\<close>

definition cookie_data ::
    "'t Cookie \<Rightarrow> string \<times> bool \<times> 't option \<times> bool \<times> bool \<times> SameSite" where
  "cookie_data c = (ck_value c, ck_host_only c, ck_expires c, ck_secure c, ck_http_only c, ck_same_site c)"

definition data_at :: "'t CookieJar \<Rightarrow> cookie_identity \<Rightarrow> (string \<times> bool \<times> 't option \<times> bool \<times> bool \<times> SameSite) option" where
  "data_at jar k = map_option cookie_data (jar_lookup jar k)"

lemma map_of_ids: "map_of (map (\<lambda>c. (f c, c)) cs) k = find (\<lambda>c. f c = k) cs"
  by (induction cs) auto

lemma data_at_find: "data_at jar k = map_option cookie_data (find (\<lambda>c. cookie_id c = k) (cookies jar))"
  by (simp add: data_at_def jar_lookup_def map_of_ids)

lemma cookie_data_update [simp]:
  "cookie_data (c\<lparr>ck_seq := n\<rparr>) = cookie_data c" "cookie_data (c\<lparr>ck_last_access := t\<rparr>) = cookie_data c"
  "cookie_data (replacing c t d) = (if cookie_id d = cookie_id c then cookie_data c else cookie_data d)"
  by (simp_all add: cookie_data_def replacing_def)

lemma find_replacing:
  "map_option cookie_data (find (\<lambda>d. cookie_id d = k) (map (replacing c now) cs)) =
     (if k = cookie_id c \<and> k \<in> cookie_id ` set cs then Some (cookie_data c)
      else map_option cookie_data (find (\<lambda>d. cookie_id d = k) cs))"
  by (induction cs) auto

lemma find_absent: "k \<notin> f ` set cs \<Longrightarrow> find (\<lambda>c. f c = k) cs = None"
  by (auto simp: find_None_iff)

lemma find_appended:
  "map_option cookie_data (find (\<lambda>d. cookie_id d = k) (cs @ [c\<lparr>ck_seq := s, ck_last_access := t\<rparr>])) =
     (if k = cookie_id c \<and> k \<notin> cookie_id ` set cs then Some (cookie_data c)
      else map_option cookie_data (find (\<lambda>d. cookie_id d = k) cs))"
  by (induction cs) auto

lemma upsert_data_at:
  assumes "jar_ok jar" and "length (cookies jar) < MAX_COOKIES"
  shows "data_at (fst (CookieJar_upsert jar c now)) k =
    (if k = cookie_id c then Some (cookie_data c) else data_at jar k)"
proof -
  have d: "distinct (map cookie_id (cookies jar))" using assms(1) by (simp add: jar_ok_def)
  show ?thesis
    by (simp add: upsert_eq [OF d] data_at_find find_replacing find_appended evict_oldest_small assms(2)
        del: map_option_eq_Some)
qed

lemma upsert_length:
  assumes "jar_ok jar"
  shows "length (cookies (fst (CookieJar_upsert jar c now))) \<le> Suc (length (cookies jar))"
proof -
  have d: "distinct (map cookie_id (cookies jar))" using assms by (simp add: jar_ok_def)
  have "length (evict_oldest (cookies jar)) \<le> length (cookies jar)"
    using evict_oldest_subset [of "cookies jar" cookie_id] d evict_oldest_small [of "cookies jar"]
    by (cases "length (cookies jar) < MAX_COOKIES") auto
  then show ?thesis by (simp add: upsert_eq [OF d])
qed

subsection \<open>Storing snapshots\<close>

definition normalised :: "CookieSnapshot \<Rightarrow> bool" where
  "normalised sn \<longleftrightarrow> to_ascii_lowercase (sn_domain sn) = sn_domain sn \<and> sn_path sn \<noteq> []"

lemma cookie_of_snapshot_id: "normalised sn \<Longrightarrow> cookie_id (cookie_of_snapshot tm sn now) = snapshot_id sn"
  by (simp add: normalised_def cookie_of_snapshot_def cookie_id_def snapshot_id_def)

definition snapshot_data ::
    "'t::linorder time_lib \<Rightarrow> 't \<Rightarrow> CookieSnapshot \<Rightarrow> (string \<times> bool \<times> 't option \<times> bool \<times> bool \<times> SameSite) option" where
  "snapshot_data tm now sn = map_option cookie_data (cookie_from_snapshot tm sn now)"

lemma upsert_snapshots_data_at:
  assumes "jar_ok jar" and "length (cookies jar) + length sns \<le> MAX_COOKIES"
    and "distinct (map snapshot_id sns)" and "\<And>sn. sn \<in> set sns \<Longrightarrow> normalised sn"
  shows "data_at (upsert_snapshots tm now clock i jar sns) k =
    (case find (\<lambda>sn. snapshot_id sn = k) sns of
       None \<Rightarrow> data_at jar k
     | Some sn \<Rightarrow> (case snapshot_data tm now sn of Some d \<Rightarrow> Some d | None \<Rightarrow> data_at jar k))"
  using assms
proof (induction sns arbitrary: i jar)
  case (Cons sn sns)
  have rest: "find (\<lambda>sn. snapshot_id sn = k) sns = None" if "snapshot_id sn = k"
    using Cons.prems(3) that by (intro find_absent) simp
  show ?case
  proof (cases "cookie_from_snapshot tm sn now")
    case None
    with Cons.IH [of jar] Cons.prems rest show ?thesis by (simp add: snapshot_data_def)
  next
    case (Some c)
    then have c: "cookie_id c = snapshot_id sn"
      using Cons.prems(4) [of sn]
      by (auto simp: cookie_from_snapshot_def Let_def cookie_of_snapshot_id split: if_splits)
    let ?jar = "fst (CookieJar_upsert jar c (clock (Suc i)))"
    have "jar_ok ?jar" "length (cookies ?jar) + length sns \<le> MAX_COOKIES"
      using upsert_ok [OF Cons.prems(1)] upsert_length [OF Cons.prems(1), of c "clock (Suc i)"] Cons.prems(2)
      by auto
    with Cons.IH [of ?jar] Cons.prems upsert_data_at [OF Cons.prems(1), of c "clock (Suc i)" k] rest Some c
    show ?thesis by (auto simp: snapshot_data_def split: option.split)
  qed
qed simp

subsection \<open>The delta\<close>

lemma snapshot_id_of: "snapshot_id (snapshot_of tm c) = cookie_id c"
  by (simp add: snapshot_id_def snapshot_of_def cookie_id_def)

lemma worker_snapshots:
  assumes "jar_ok worker"
  shows "distinct (map snapshot_id (CookieJar_snapshots tm now worker))"
    "length (CookieJar_snapshots tm now worker) \<le> length (cookies worker)"
  using assms
  by (simp_all add: CookieJar_snapshots_def jar_ok_def comp_def snapshot_id_of distinct_map_filter)

lemma find_map_snd:
  assumes "bt_ok m" and "keyed_by f m"
  shows "find (\<lambda>v. f v = k) (map snd (filter (\<lambda>(k, v). P k v) m)) =
    (case bt_get m k of Some v \<Rightarrow> if P k v then Some v else None | None \<Rightarrow> None)"
  using assms
proof (induction m)
  case (Cons e m)
  obtain k' v where e: "e = (k', v)" by (cases e)
  have f: "f v = k'" and keyed: "keyed_by f m" and ok: "bt_ok m" and above: "\<forall>x\<in>set m. k' < fst x"
    using Cons.prems by (auto simp: e keyed_by_def bt_ok_Cons)
  have "bt_get m k' = None" using above by (force simp: bt_get_None)
  with Cons.IH [OF ok keyed] f show ?case
    by (auto simp: e bt_get_Cons split: option.splits)
qed simp

lemma data_at_kept:
  "data_at (jar\<lparr>cookies := filter (\<lambda>c. cookie_id c \<notin> G) (cookies jar)\<rparr>) k =
     (if k \<in> G then None else data_at jar k)"
proof -
  have "find (\<lambda>c. cookie_id c = k) (filter (\<lambda>c. cookie_id c \<notin> G) cs) =
      (if k \<in> G then None else find (\<lambda>c. cookie_id c = k) cs)" for cs :: "'a Cookie list"
    by (induction cs) auto
  then show ?thesis by (simp add: data_at_find)
qed

text \<open>The changed snapshots of a worker: distinct identities, no more than its cookies.\<close>

definition changed_snapshots ::
    "(cookie_identity, CookieSnapshot) btree \<Rightarrow> (cookie_identity, CookieSnapshot) btree \<Rightarrow> CookieSnapshot list" where
  "changed_snapshots base cur = map snd (filter (\<lambda>(k, sn). bt_get base k \<noteq> Some sn) cur)"

lemma changed_snapshots_facts:
  fixes tm :: "'t::linorder time_lib" and now :: 't and worker :: "'t CookieJar"
  assumes "jar_ok worker"
  defines "cur \<equiv> snapshots_by_identity (CookieJar_snapshots tm now worker)"
  shows "distinct (map snapshot_id (changed_snapshots base cur))"
    and "length (changed_snapshots base cur) \<le> length (cookies worker)"
    and "set (changed_snapshots base cur) \<subseteq> snapshot_of tm ` set (cookies worker)"
proof -
  let ?sns = "CookieJar_snapshots tm now worker"
  have keyed: "keyed_by snapshot_id cur" and ok: "bt_ok cur"
    by (simp_all add: cur_def snapshots_by_identity_def)
  have mset: "mset cur = mset (map (\<lambda>sn. (snapshot_id sn, sn)) ?sns)"
    using worker_snapshots(1) [OF assms(1)]
    by (simp add: cur_def snapshots_by_identity_def mset_bt_collect comp_def)
  have "length cur = length ?sns" using mset_eq_length [OF mset] by simp
  then show "length (changed_snapshots base cur) \<le> length (cookies worker)"
    using worker_snapshots(2) [OF assms(1), of tm now]
    by (auto simp: changed_snapshots_def intro: order_trans [OF length_filter_le])
  have "map snapshot_id (map snd cur) = map fst cur"
    using map_values_keyed [OF keyed] by (simp add: bt_values_def)
  then have "distinct (map snapshot_id (map snd cur))" using bt_ok_distinct [OF ok] by (simp only:)
  then show "distinct (map snapshot_id (changed_snapshots base cur))"
    by (simp add: changed_snapshots_def distinct_map_filter comp_def)
  have "set cur = (\<lambda>sn. (snapshot_id sn, sn)) ` set ?sns" using mset_eq_setD [OF mset] by simp
  then show "set (changed_snapshots base cur) \<subseteq> snapshot_of tm ` set (cookies worker)"
    by (auto simp: changed_snapshots_def CookieJar_snapshots_def)
qed

text \<open>What the merged jar holds: what the worker changed is taken from it unless it has expired, what
  the worker removed is gone, and everything else is as it was in the jar.\<close>

lemma apply_delta_data_at:
  assumes "jar_ok jar" and "jar_ok worker" and "length (cookies jar) + length (cookies worker) \<le> MAX_COOKIES"
    and norm: "\<And>c. c \<in> set (cookies worker) \<Longrightarrow> normalised (snapshot_of tm c)"
  shows "data_at (CookieJar_apply_delta tm clock jar (CookieJar_delta_from_snapshots tm now worker baseline)) k =
    (case bt_get (snapshots_by_identity (CookieJar_snapshots tm now worker)) k of
       Some sn \<Rightarrow>
         if bt_get (snapshots_by_identity baseline) k = Some sn then data_at jar k
         else (case snapshot_data tm (clock 0) sn of Some d \<Rightarrow> Some d | None \<Rightarrow> data_at jar k)
     | None \<Rightarrow>
         if bt_get (snapshots_by_identity baseline) k \<noteq> None then None else data_at jar k)"
proof -
  let ?cur = "snapshots_by_identity (CookieJar_snapshots tm now worker)"
  let ?base = "snapshots_by_identity baseline"
  let ?ups = "changed_snapshots ?base ?cur"
  let ?gone = "set (filter (\<lambda>k. \<not> bt_contains_key ?cur k) (bt_keys ?base))"
  let ?jar = "jar\<lparr>cookies := filter (\<lambda>c. cookie_id c \<notin> ?gone) (cookies jar)\<rparr>"
  note facts = changed_snapshots_facts [OF assms(2), of ?base tm now]
  have "length (cookies ?jar) \<le> length (cookies jar)" by simp
  then have "length (cookies ?jar) + length ?ups \<le> MAX_COOKIES" using facts(2) assms(3) by linarith
  moreover have "normalised sn" if "sn \<in> set ?ups" for sn using that facts(3) norm by blast
  moreover have "jar_ok ?jar" using filter_jar_ok(1) [OF assms(1)] .
  ultimately have merged: "data_at (upsert_snapshots tm (clock 0) clock 0 ?jar ?ups) k =
    (case find (\<lambda>sn. snapshot_id sn = k) ?ups of
       None \<Rightarrow> data_at ?jar k
     | Some sn \<Rightarrow> (case snapshot_data tm (clock 0) sn of Some d \<Rightarrow> Some d | None \<Rightarrow> data_at ?jar k))"
    using facts(1) by (intro upsert_snapshots_data_at)
  have found: "find (\<lambda>sn. snapshot_id sn = k) ?ups =
      (case bt_get ?cur k of Some sn \<Rightarrow> if bt_get ?base k \<noteq> Some sn then Some sn else None | None \<Rightarrow> None)"
    unfolding changed_snapshots_def
    by (rule find_map_snd) (simp_all add: snapshots_by_identity_def)
  have gone: "k \<in> ?gone \<longleftrightarrow> bt_get ?cur k = None \<and> bt_get ?base k \<noteq> None"
    by (auto simp: bt_contains_key_def bt_keys_def bt_get_None [of ?base])
  have delta: "CookieJar_apply_delta tm clock jar (CookieJar_delta_from_snapshots tm now worker baseline)
      = upsert_snapshots tm (clock 0) clock 0 ?jar ?ups"
    by (simp add: CookieJar_apply_delta_def CookieJar_delta_from_snapshots_def Let_def changed_snapshots_def)
  show ?thesis
    unfolding delta merged found data_at_kept gone
    by (cases "bt_get ?cur k") (simp_all split: option.split)
qed

end
