(* ===== verification/Cookie_Date_Roundtrip.thy ===== *)
theory Cookie_Date_Roundtrip
  imports Cookie_Date
begin

section \<open>Dates in the preferred format\<close>

text \<open>
  The format HTTP servers send, \<open>Sun, 06 Nov 1994 08:49:37 GMT\<close>, and that \<open>parse_cookie_date\<close> reads
  every such date as the second it denotes.
\<close>

definition digits2 :: "int \<Rightarrow> string" where
  "digits2 n = map char_of [48 + nat n div 10, 48 + nat n mod 10]"

definition month_name :: "int \<Rightarrow> string" where
  "month_name m = [''Jan'', ''Feb'', ''Mar'', ''Apr'', ''May'', ''Jun'', ''Jul'', ''Aug'', ''Sep'', ''Oct'',
     ''Nov'', ''Dec''] ! nat (m - 1)"

definition weekdays :: "string list" where
  "weekdays = [''Mon'', ''Tue'', ''Wed'', ''Thu'', ''Fri'', ''Sat'', ''Sun'']"

definition time_of_day :: "int \<Rightarrow> int \<Rightarrow> int \<Rightarrow> string" where
  "time_of_day h mi s = digits2 h @ '':'' @ digits2 mi @ '':'' @ digits2 s"

definition imf_fixdate :: "string \<Rightarrow> int \<times> int \<times> int \<Rightarrow> int \<times> int \<times> int \<Rightarrow> string" where
  "imf_fixdate wk date time = (case date of (y, m, d) \<Rightarrow> case time of (h, mi, s) \<Rightarrow>
     wk @ '', '' @ digits2 d @ '' '' @ month_name m @ '' '' @ digits2 (y div 100) @ digits2 (y mod 100)
     @ '' '' @ time_of_day h mi s @ '' GMT'')"

subsection \<open>Digits\<close>

lemma byte_char_of [simp]: "n < 256 \<Longrightarrow> byte (char_of n) = n"
  by (simp add: byte_def of_char_of)

lemma digits2_facts:
  assumes "0 \<le> n" "n < 100"
  shows "list_all is_ascii_digit (digits2 n)" "decimal (digits2 n) = n" "length (digits2 n) = 2"
    "takeWhile is_ascii_digit (digits2 n) = digits2 n" "digits2 n \<noteq> []"
proof -
  have "nat n div 10 < 10" "nat n mod 10 < 10" using assms by auto
  then show "list_all is_ascii_digit (digits2 n)"
    by (simp add: digits2_def is_ascii_digit_def)
  show "decimal (digits2 n) = n"
    using \<open>nat n div 10 < 10\<close> \<open>nat n mod 10 < 10\<close> assms(1)
    by (simp add: digits2_def decimal_def of_nat_div of_nat_mod)
  from \<open>list_all is_ascii_digit (digits2 n)\<close>
  show "takeWhile is_ascii_digit (digits2 n) = digits2 n"
    by (simp add: takeWhile_eq_all_conv list_all_iff)
qed (simp_all add: digits2_def)

lemma digit_not_sign:
  "list_all is_ascii_digit ds \<Longrightarrow> \<not> starts_with_char (CHR ''-'') ds \<and> \<not> starts_with_char (CHR ''+'') ds"
  by (cases ds) (auto simp: starts_with_char_def is_ascii_digit_def byte_def)

lemma parse_i64_digits:
  assumes "list_all is_ascii_digit ds" "ds \<noteq> []" "i64_min \<le> decimal ds" "decimal ds \<le> i64_max"
  shows "parse_i64 ds = Some (decimal ds)"
  using digit_not_sign [OF assms(1)] assms by (simp add: parse_i64_def Let_def)

lemma parse_i64_digits2: "0 \<le> n \<Longrightarrow> n < 100 \<Longrightarrow> parse_i64 (digits2 n) = Some n"
  by (simp add: parse_i64_digits digits2_facts i64_min_def i64_max_def)

lemma decimal_append: "decimal (xs @ ys) = decimal xs * 10 ^ length ys + decimal ys"
proof (induction ys rule: rev_induct)
  case Nil
  then show ?case by (simp add: decimal_def)
next
  case (snoc y ys)
  have "decimal (zs @ [y]) = 10 * decimal zs + (int (byte y) - 48)" for zs
    by (simp add: decimal_def)
  from this [of "xs @ ys"] this [of ys] snoc show ?case by (simp add: algebra_simps)
qed

lemma parse_bounded_digits2:
  assumes "0 \<le> n" "n < 100" "rest = [] \<or> \<not> is_ascii_digit (hd rest)"
  shows "parse_bounded (digits2 n @ rest) lo hi = (if lo \<le> n \<and> n \<le> hi then Some n else None)"
proof -
  have "takeWhile is_ascii_digit (digits2 n @ rest) = digits2 n"
    using digits2_facts(1) [OF assms(1,2)] assms(3)
    by (cases rest) (auto simp: list_all_iff takeWhile_append2)
  then show ?thesis by (simp add: parse_bounded_def digits2_facts assms parse_i64_digits2 Let_def)
qed

subsection \<open>Tokens\<close>

definition ascii :: "string \<Rightarrow> bool" where
  "ascii s \<longleftrightarrow> list_all (\<lambda>c. byte c < 128) s"

definition delimiter :: "char \<Rightarrow> bool" where
  "delimiter c \<longleftrightarrow> is_date_delimiter (byte c)"

lemma str_chars_ascii: "ascii s \<Longrightarrow> str_chars s = map (\<lambda>c. [c]) s"
proof (induction s)
  case (Cons c s)
  then have "takeWhile continuation_byte s = []" "dropWhile continuation_byte s = s"
    by (cases s; simp add: ascii_def continuation_byte_def)+
  with Cons show ?case by (simp add: ascii_def)
qed simp

lemma split_chars_nonempty [simp]: "split_chars p cs \<noteq> []"
  by (cases cs) simp_all

lemma split_chars_append:
  "p c \<Longrightarrow> split_chars p (xs @ c # ys) = split_chars p xs @ split_chars p ys"
  by (induction xs) auto

lemma split_chars_free: "list_all (\<lambda>c. \<not> p c) xs \<Longrightarrow> split_chars p xs = [concat xs]"
  by (induction xs) auto

lemma code_point_ascii: "byte c < 128 \<Longrightarrow> code_point [c] mod 256 = byte c"
  by (simp add: code_point_def)

lemma tokenize_delimited:
  assumes "ascii s" "delimiter c" "byte c < 128" "ascii t"
  shows "tokenize_date (s @ c # t) = tokenize_date s @ tokenize_date t"
proof -
  have "ascii (s @ c # t)" using assms by (simp add: ascii_def)
  with assms show ?thesis
    by (simp add: tokenize_date_def str_chars_ascii split_chars_append code_point_ascii delimiter_def)
qed

lemma tokenize_word:
  assumes "ascii s" "list_all (\<lambda>c. \<not> delimiter c) s"
  shows "tokenize_date s = (if s = [] then [] else [s])"
proof -
  have "list_all (\<lambda>c. \<not> is_date_delimiter (code_point c mod 256)) (map (\<lambda>c. [c]) s)"
    using assms by (auto simp: list_all_iff ascii_def delimiter_def code_point_ascii)
  then show ?thesis
    using assms(1) by (simp add: tokenize_date_def str_chars_ascii split_chars_free)
qed

lemma digit_ascii: "is_ascii_digit c \<Longrightarrow> byte c < 128 \<and> \<not> delimiter c"
  by (auto simp: is_ascii_digit_def delimiter_def is_date_delimiter_def)

lemma digits2_word:
  assumes "0 \<le> n" "n < 100"
  shows "ascii (digits2 n)" "list_all (\<lambda>c. \<not> delimiter c) (digits2 n)"
  using digits2_facts(1) [OF assms] by (auto simp: ascii_def list_all_iff dest: digit_ascii)

lemma ascii_simps:
  "ascii (s @ t) \<longleftrightarrow> ascii s \<and> ascii t" "ascii (c # s) \<longleftrightarrow> byte c < 128 \<and> ascii s" "ascii []"
  by (simp_all add: ascii_def)

definition word :: "string \<Rightarrow> bool" where
  "word w \<longleftrightarrow> w \<noteq> [] \<and> ascii w \<and> list_all (\<lambda>c. \<not> delimiter c) w"

lemma tokenize_step:
  assumes "word w" "ascii t"
  shows "tokenize_date (w @ '' '' @ t) = w # tokenize_date t"
  using assms tokenize_delimited [of w "CHR '' ''" t] tokenize_word [of w]
  by (simp add: word_def delimiter_def is_date_delimiter_def byte_def)

lemma tokenize_comma:
  assumes "word w" "ascii t"
  shows "tokenize_date (w @ '', '' @ t) = w # tokenize_date t"
  using assms tokenize_delimited [of w "CHR '',''" "CHR '' '' # t"] tokenize_word [of w]
    tokenize_delimited [of "[]" "CHR '' ''" t] tokenize_word [of "[]"]
  by (simp add: word_def delimiter_def is_date_delimiter_def byte_def ascii_simps)

lemma word_digits2: "0 \<le> n \<Longrightarrow> n < 100 \<Longrightarrow> word (digits2 n)"
  by (simp add: word_def digits2_facts digits2_word)

lemma word_append: "word v \<Longrightarrow> word w \<Longrightarrow> word (v @ w)"
  by (simp add: word_def ascii_simps)

lemma word_literals:
  "wk \<in> set weekdays \<Longrightarrow> word wk"
  "1 \<le> m \<Longrightarrow> m \<le> 12 \<Longrightarrow> word (month_name m)"
  "word ''GMT''" "word '':''"
proof -
  show "word (month_name m)" if "1 \<le> m" "m \<le> 12"
    using that
    by (cases rule: month_cases)
      (simp_all add: month_name_def word_def ascii_def delimiter_def is_date_delimiter_def byte_def)
qed (auto simp: weekdays_def word_def ascii_def delimiter_def is_date_delimiter_def byte_def)

subsection \<open>Scanning the tokens\<close>

lemma hd_str_split_subset: "set (hd (str_split seps s)) \<subseteq> set s"
  by (induction s) auto

lemma no_digits:
  assumes "list_all (\<lambda>c. \<not> is_ascii_digit c) w"
  shows "parse_time_token w = None" "first_1_2_digit_run w lo hi = None" "year_of w = None"
proof -
  have none: "dropWhile (\<lambda>c. \<not> is_ascii_digit c) (hd (str_split '':'' w)) = []"
    using assms hd_str_split_subset [of "'':''" w] by (auto simp: dropWhile_eq_Nil_conv list_all_iff)
  show "parse_time_token w = None"
    unfolding parse_time_token_def none by (simp add: parse_bounded_def)
  show "first_1_2_digit_run w lo hi = None" "year_of w = None"
    using assms by (induction w) auto
qed

lemma no_colon: "CHR '':'' \<notin> set w \<Longrightarrow> parse_time_token w = None"
  using split_once_None [of "CHR '':''" w] by (simp add: parse_time_token_def bind_eq_None_conv)

lemma digits_no_colon: "list_all is_ascii_digit ds \<Longrightarrow> CHR '':'' \<notin> set ds"
  by (auto simp: list_all_iff is_ascii_digit_def byte_def)

lemma day_token:
  assumes "1 \<le> d" "d \<le> 31"
  shows "first_1_2_digit_run (digits2 d) 1 31 = Some d" "parse_time_token (digits2 d) = None"
proof -
  have n: "0 \<le> d" "d < 100" using assms by auto
  obtain a b where ab: "digits2 d = [a, b]" by (simp add: digits2_def)
  show "first_1_2_digit_run (digits2 d) 1 31 = Some d"
    using digits2_facts(1) [OF n] parse_i64_digits2 [OF n] assms
    by (simp add: ab Let_def)
  show "parse_time_token (digits2 d) = None"
    by (rule no_colon [OF digits_no_colon [OF digits2_facts(1) [OF n]]])
qed

lemma year_token:
  assumes "1000 \<le> y" "y \<le> 9999"
  shows "year_of (digits2 (y div 100) @ digits2 (y mod 100)) = Some y"
    "parse_time_token (digits2 (y div 100) @ digits2 (y mod 100)) = None"
proof -
  let ?ds = "digits2 (y div 100) @ digits2 (y mod 100)"
  have n: "0 \<le> y div 100" "y div 100 < 100" "0 \<le> y mod 100" "y mod 100 < 100" using assms by auto
  have digits: "list_all is_ascii_digit ?ds" using n by (simp add: digits2_facts)
  have dec: "decimal ?ds = y"
    using n by (simp add: decimal_append digits2_facts)
  have "parse_i64 ?ds = Some y"
    using parse_i64_digits [OF digits] assms n
    by (simp only: dec) (simp add: digits2_facts i64_min_def i64_max_def)
  moreover obtain a b c d where "?ds = [a, b, c, d]" by (simp add: digits2_def)
  ultimately show "year_of ?ds = Some y"
    using digits assms by (simp add: Let_def)
  show "parse_time_token ?ds = None" by (rule no_colon [OF digits_no_colon [OF digits]])
qed

lemma time_token:
  assumes "0 \<le> h" "h \<le> 23" "0 \<le> mi" "mi \<le> 59" "0 \<le> s" "s \<le> 59"
  shows "parse_time_token (time_of_day h mi s) = Some (h, mi, s)"
proof -
  have n: "0 \<le> h" "h < 100" "0 \<le> mi" "mi < 100" "0 \<le> s" "s < 100" using assms by auto
  have colon: "\<not> is_ascii_digit (CHR '':'')" by (simp add: is_ascii_digit_def byte_def)
  have free: "set (digits2 k) \<inter> set '':'' = {}" "CHR '':'' \<notin> set (digits2 k)" if "0 \<le> k" "k < 100" for k
    using digits_no_colon [OF digits2_facts(1) [OF that]] by auto
  have split: "str_split '':'' (digits2 mi @ CHR '':'' # digits2 s) = [digits2 mi, digits2 s]"
    using n by (simp add: str_split_append str_split_free free)
  have "str_split '':'' (time_of_day h mi s) = [digits2 h, digits2 mi, digits2 s]"
    using n by (simp add: time_of_day_def str_split_append str_split_free free)
  moreover have "split_once (CHR '':'') (time_of_day h mi s) =
      Some (digits2 h, digits2 mi @ CHR '':'' # digits2 s)"
    using n free by (simp add: time_of_day_def split_once_append)
  moreover have "dropWhile (\<lambda>c. \<not> is_ascii_digit c) (digits2 h) = digits2 h"
    using digits2_facts(1) [of h] n by (cases "digits2 h") auto
  moreover have "parse_bounded (digits2 k) 0 b = Some k" if "0 \<le> k" "k \<le> b" "b < 100" for k b
    using parse_bounded_digits2 [of k "[]" 0 b] that by simp
  ultimately show ?thesis using assms by (simp add: parse_time_token_def split)
qed

lemma weekday_table:
  "list_all (\<lambda>wk. list_all (\<lambda>c. \<not> is_ascii_digit c) wk \<and> month_of wk = None) weekdays"
  by code_simp

lemma month_table:
  "list_all (\<lambda>m. list_all (\<lambda>c. \<not> is_ascii_digit c) (month_name m) \<and> month_of (month_name m) = Some m)
     [1..12]"
  by code_simp

lemma word_tokens:
  "wk \<in> set weekdays \<Longrightarrow> list_all (\<lambda>c. \<not> is_ascii_digit c) wk \<and> month_of wk = None"
  using weekday_table by (simp add: list_all_iff)

lemma month_token:
  assumes "1 \<le> m" "m \<le> 12"
  shows "list_all (\<lambda>c. \<not> is_ascii_digit c) (month_name m) \<and> month_of (month_name m) = Some m"
  using month_table assms by (simp add: list_all_iff del: upto_rec_numeral)

subsection \<open>The round trip\<close>

lemma six_tokens:
  assumes "word a" "word b" "word c" "word d" "word e" "word f"
  shows "tokenize_date (a @ '', '' @ b @ '' '' @ c @ '' '' @ d @ '' '' @ e @ '' '' @ f) = [a, b, c, d, e, f]"
proof -
  have ascii: "ascii a" "ascii b" "ascii c" "ascii d" "ascii e" "ascii f" "ascii '' ''"
    using assms by (simp_all add: word_def ascii_def byte_def)
  have "tokenize_date f = [f]" using assms(6) by (simp add: word_def tokenize_word)
  then show ?thesis
    by (simp only: tokenize_comma tokenize_step assms ascii ascii_simps(1) simp_thms)
qed

lemma imf_tokens:
  assumes "wk \<in> set weekdays" "civil_date (y, m, d)" "1000 \<le> y" "y \<le> 9999"
    and "0 \<le> h" "h \<le> 23" "0 \<le> mi" "mi \<le> 59" "0 \<le> s" "s \<le> 59"
  shows "tokenize_date (imf_fixdate wk (y, m, d) (h, mi, s)) =
    [wk, digits2 d, month_name m, digits2 (y div 100) @ digits2 (y mod 100), time_of_day h mi s, ''GMT'']"
proof -
  have m: "1 \<le> m" "m \<le> 12" and d: "0 \<le> d" "d < 100"
    using civil_date_bounds [OF assms(2)] by auto
  have words: "word wk" "word (digits2 d)" "word (month_name m)"
      "word (digits2 (y div 100) @ digits2 (y mod 100))" "word (time_of_day h mi s)" "word ''GMT''"
    using assms m d
    by (simp_all add: word_literals word_digits2 word_append time_of_day_def
        word_append [of "'':''", simplified append_Cons append_Nil])
  show ?thesis
    using six_tokens [OF words] by (simp add: imf_fixdate_def)
qed

lemma scan_tokens:
  assumes "wk \<in> set weekdays" "1 \<le> m" "m \<le> 12" "1 \<le> d" "d \<le> 31" "1000 \<le> y" "y \<le> 9999"
    and "0 \<le> h" "h \<le> 23" "0 \<le> mi" "mi \<le> 59" "0 \<le> s" "s \<le> 59"
  shows "foldl scan_date_token DateScan_start [wk, digits2 d, month_name m,
      digits2 (y div 100) @ digits2 (y mod 100), time_of_day h mi s, ''GMT''] =
    \<lparr>found_time = True, found_day = True, found_month = True, found_year = True,
     hms = (h, mi, s), day = d, month = m, year = y\<rparr>"
  using assms word_tokens [OF assms(1)] month_token [OF assms(2,3)]
  by (simp add: scan_date_token_def DateScan_start_def no_digits day_token year_token time_token)

lemma day_number_range:
  assumes "civil_date (y, m, d)" "y \<le> 9999"
  shows "\<bar>day_number (y, m, d)\<bar> \<le> 100000000"
proof -
  have b: "0 \<le> y" "1 \<le> m" "m \<le> 12" "1 \<le> d" "d \<le> 31"
    using assms civil_date_bounds [OF assms(1)] by (auto simp: civil_date_def)
  have y: "\<bar>year_days k\<bar> \<le> 4000000" if "- 1 \<le> k" "k \<le> 9999" for k
    using that by (simp add: year_days_def abs_le_iff) linarith
  have m: "\<bar>month_days k\<bar> \<le> 400" if "3 \<le> k" "k \<le> 14" for k
    using that by (simp add: month_days_def abs_le_iff)
  show ?thesis
  proof (cases "m \<le> 2")
    case True
    with y [of "y - 1"] m [of "m + 12"] b assms(2) show ?thesis by (simp add: day_number_def)
  next
    case False
    with y [of y] m [of m] b assms(2) show ?thesis by (simp add: day_number_def)
  qed
qed

text \<open>Every date a server writes in the preferred format is read as the second it denotes.\<close>

lemma parse_imf_fixdate:
  assumes "nth_day n = (y, m, d)" "1000 \<le> y" "y \<le> 9999" and "wk \<in> set weekdays"
    and "0 \<le> h" "h \<le> 23" "0 \<le> mi" "mi \<le> 59" "0 \<le> s" "s \<le> 59"
  shows "parse_cookie_date from_unix (imf_fixdate wk (y, m, d) (h, mi, s)) =
    from_unix ((int n - 719528) * 86400 + h * 3600 + mi * 60 + s)"
proof -
  have civil: "civil_date (y, m, d)" and days: "day_number (y, m, d) = int n - 719528"
    using nth_day [of n] by (simp_all add: assms(1))
  have b: "1 \<le> m" "m \<le> 12" "1 \<le> d" "d \<le> 31" using civil_date_bounds [OF civil] by auto
  show ?thesis
    using imf_tokens [OF assms(4) civil assms(2,3,5-10)] scan_tokens [OF assms(4) b assms(2,3,5-10)]
      day_number_range [OF civil assms(3)] days b
    by (simp add: parse_cookie_date_def unix_seconds_eq)
qed

end
