(* ===== verification/Cookie_Properties.thy ===== *)
theory Cookie_Properties
  imports Cookie_Delta Cookie_Date_Roundtrip
begin

section \<open>Properties of the cookie jar\<close>

text \<open>
  The results on the jar as statements about every session, applied to a small world: time is counted
  in seconds, every name is a domain, and \<open>com\<close> is the only public suffix.
\<close>

definition ex_dns :: dns_lib where
  "ex_dns = \<lparr>host_parse = (\<lambda>s. Some (Domain s)),
     host_to_string = (\<lambda>h. case h of Domain s \<Rightarrow> s | _ \<Rightarrow> []),
     psl_suffix_str = (\<lambda>s. Some ''com''), psl_domain_str = (\<lambda>s. Some s)\<rparr>"

definition ex_time :: "int time_lib" where
  "ex_time = \<lparr>from_unix_timestamp = Some, unix_timestamp = (\<lambda>t. t),
     checked_add_seconds = (\<lambda>t n. Some (t + n)), UNIX_EPOCH = 0\<rparr>"

definition ex_url :: Url where
  "ex_url = \<lparr>url_scheme = ''https'', url_host = Some (Domain ''a.com''), url_path = ''/x/y''\<rparr>"

definition ex_set :: "int jar_event" where
  "ex_set = SetCookie (\<lambda>_. 5) ''id=7'' ex_url True"

definition ex_parsed :: "int ParsedCookie" where
  "ex_parsed = \<lparr>pc_name = ''id'', pc_value = ''7'', pc_domain = ''a.com'', pc_host_only = True,
     pc_path = ''/x'', pc_expires = None, pc_secure = False, pc_http_only = False, pc_same_site = Lax,
     pc_created = 5\<rparr>"

lemma ex_trim: "str_trim ''id=7'' = ''id=7''" "str_trim ''id'' = ''id''" "str_trim ''7'' = ''7''"
  by (simp_all add: str_trim_printable printable_def byte_def)

lemma ex_parse: "parse_set_cookie ex_dns ex_time ''id=7'' ex_url 5 from_http = Ok ex_parsed"
proof -
  have "str_split '';'' ''id=7'' = [''id=7'']" by simp
  moreover have "default_path ''/x/y'' = ''/x''"
    by (simp add: default_path_def starts_with_char_def)
  moreover have "strip_quotes ''7'' = ''7''" by (simp add: strip_quotes_def ex_trim)
  ultimately show ?thesis
    by (simp add: parse_set_cookie_def ex_trim Let_def Attributes_start_def ex_url_def ex_dns_def
        ex_parsed_def SameSite_default_def)
qed

lemma ex_jar: "jar_run ex_dns ex_time [ex_set] =
  \<lparr>cookies = [(cookie_of_parsed ex_parsed)\<lparr>ck_seq := 0, ck_last_access := 5\<rparr>], next_seq = 1\<rparr>"
  by (simp add: jar_run_def ex_set_def CookieJar_set_cookie_def ex_parse CookieJar_new_def
      CookieJar_upsert_def CookieJar_tick_def evict_oldest_small MAX_COOKIES_def)

definition ex_snapshot :: CookieSnapshot where
  "ex_snapshot = \<lparr>sn_name = ''id'', sn_value = ''7'', sn_domain = ''a.com'', sn_host_only = True,
     sn_path = ''/x'', sn_expires_unix = None, sn_secure = False, sn_http_only = False,
     sn_same_site = Lax, sn_creation_unix = 5\<rparr>"

lemma ex_snapshots: "CookieJar_snapshots ex_time 6 (jar_run ex_dns ex_time [ex_set]) = [ex_snapshot]"
  unfolding CookieJar_snapshots_def ex_jar
  by (simp add: is_expired_def cookie_of_parsed_def ex_parsed_def snapshot_of_def ex_snapshot_def
      ex_time_def)

lemma ex_snapshot_id: "snapshot_id ex_snapshot = (''id'', ''a.com'', ''/x'')"
  by (simp add: snapshot_id_def ex_snapshot_def)

lemma ex_snapshot_data:
  "snapshot_data ex_time 6 ex_snapshot = Some (''7'', True, None, False, False, Lax)"
  by (simp add: snapshot_data_def cookie_from_snapshot_def cookie_of_snapshot_def cookie_data_def
      ex_snapshot_def is_expired_def ex_time_def)

subsection \<open>The properties\<close>

text \<open>C14: in every session that offers fewer than \<open>2 ^ 64\<close> cookies, the jar holds at most 512 cookies, one
  for each name, domain and path, with distinct insertion numbers below the counter.\<close>

theorem cookie_jar_invariant:
  assumes "sum_list (map offered es) < 2 ^ 64"
  shows "length (cookies (jar_run dns tm es)) \<le> 512
    \<and> distinct (map cookie_id (cookies (jar_run dns tm es)))
    \<and> distinct (map ck_seq (cookies (jar_run dns tm es)))
    \<and> list_all (\<lambda>c. ck_seq c < next_seq (jar_run dns tm es)) (cookies (jar_run dns tm es))"
  using jar_run_ok [OF assms, of dns tm]
  by (simp add: jar_ok_def seq_ok_def MAX_COOKIES_def list_all_iff)

theorem cookie_jar_invariant_witness:
  "length (cookies (jar_run ex_dns ex_time [ex_set])) \<le> 512
    \<and> distinct (map cookie_id (cookies (jar_run ex_dns ex_time [ex_set])))
    \<and> distinct (map ck_seq (cookies (jar_run ex_dns ex_time [ex_set])))
    \<and> list_all (\<lambda>c. ck_seq c < next_seq (jar_run ex_dns ex_time [ex_set]))
        (cookies (jar_run ex_dns ex_time [ex_set]))"
  by (rule cookie_jar_invariant) (simp add: ex_set_def)

text \<open>Eviction is first in, first out. Storing a cookie in the jar of any such session either replaces
  the cookie with the same name, domain and path in its place in the order of insertion, keeping its
  creation time, or appends the new cookie and drops the oldest ones beyond 512.\<close>

theorem cookie_eviction_fifo:
  assumes "sum_list (map offered es) < 2 ^ 64" and "jar = jar_run dns tm es"
  shows "sort_key ck_seq (cookies (fst (CookieJar_upsert jar c now))) =
    (if cookie_id c \<in> cookie_id ` set (cookies jar)
     then map (\<lambda>d. if cookie_id d = cookie_id c
         then c\<lparr>ck_created := ck_created d, ck_seq := ck_seq d, ck_last_access := now\<rparr> else d)
       (sort_key ck_seq (cookies jar))
     else drop (Suc (length (cookies jar)) - 512) (sort_key ck_seq (cookies jar))
       @ [c\<lparr>ck_seq := next_seq jar, ck_last_access := now\<rparr>])"
proof -
  have "jar_ok jar" "seq_ok (sum_list (map offered es)) jar"
    using jar_run_ok [OF assms(1), of dns tm] by (simp_all add: assms(2))
  from upsert_by_age [OF this, of c now] show ?thesis
    by (simp add: by_age_def MAX_COOKIES_def replacing_def [abs_def] cong: map_cong)
qed

theorem cookie_eviction_fifo_witness:
  "sort_key ck_seq (cookies (fst (CookieJar_upsert (jar_run ex_dns ex_time [ex_set])
      ((cookie_of_parsed ex_parsed)\<lparr>ck_value := ''8''\<rparr>) 6))) =
     [(cookie_of_parsed ex_parsed)\<lparr>ck_value := ''8'', ck_seq := 0, ck_last_access := 6\<rparr>]"
proof -
  have "sum_list (map offered [ex_set]) < 2 ^ 64" by (simp add: ex_set_def)
  from cookie_eviction_fifo [OF this refl, of ex_dns ex_time "(cookie_of_parsed ex_parsed)\<lparr>ck_value := ''8''\<rparr>" 6]
  show ?thesis
    by (simp add: ex_jar cookie_id_def cookie_of_parsed_def ex_parsed_def)
qed

text \<open>The cookies inserted most recently stay. In a session with room for \<open>length xs\<close> more insertion
  numbers, each of the \<open>n\<close> youngest cookies is still there after storing \<open>length xs\<close> further cookies,
  as long as \<open>n + length xs \<le> 512\<close>.\<close>

theorem recent_cookies_survive:
  assumes "sum_list (map offered es) + length xs < 2 ^ 64" and "jar = jar_run dns tm es"
    and "i \<in> set (drop (length (cookies jar) - n) (map cookie_id (sort_key ck_seq (cookies jar))))"
    and "n + length xs \<le> 512"
  shows "i \<in> cookie_id ` set (cookies (foldl (\<lambda>jar (c, now). fst (CookieJar_upsert jar c now)) jar xs))"
proof -
  have ok: "jar_ok jar" "seq_ok (sum_list (map offered es)) jar"
    using jar_run_ok [of es dns tm] assms(1) by (simp_all add: assms(2))
  have "jar_ready (length xs + 0) jar"
    using ok assms(1) by (auto simp: jar_ready_def intro: seq_ok_mono)
  from jar_queue.young_survive [OF this, of i n] assms(3,4) show ?thesis
    by (simp add: ids_by_age_def by_age_def MAX_COOKIES_def)
qed

theorem recent_cookies_survive_witness:
  "(''id'', ''a.com'', ''/x'') \<in> cookie_id ` set (cookies (foldl
     (\<lambda>jar (c, now). fst (CookieJar_upsert jar c now)) (jar_run ex_dns ex_time [ex_set])
     [((cookie_of_parsed ex_parsed)\<lparr>ck_name := ''q''\<rparr>, 9)]))"
  by (rule recent_cookies_survive [where es = "[ex_set]" and dns = ex_dns and tm = ex_time and n = 1])
    (simp_all add: ex_set_def ex_jar [unfolded ex_set_def] cookie_id_def cookie_of_parsed_def ex_parsed_def)

text \<open>C11: what \<open>set_cookie\<close> lets in. A rejected cookie leaves the jar as it was. An accepted one is stored
  with the parsed fields, and it is admissible: HttpOnly only from a response, Secure only from an
  https URL, \<open>SameSite=None\<close> only with Secure, and a domain that is the host itself or a parent domain
  of the host that is no public suffix.\<close>

theorem set_cookie_policy:
  assumes "sum_list (map offered es) < 2 ^ 64" and "jar = jar_run dns tm es"
  shows "case CookieJar_set_cookie dns tm clock jar header url from_http of
      (jar', Err e) \<Rightarrow> jar' = jar \<and> parse_set_cookie dns tm header url (clock 0) from_http = Err e
    | (jar', Ok _) \<Rightarrow> (\<exists>p c. parse_set_cookie dns tm header url (clock 0) from_http = Ok p
        \<and> c \<in> set (cookies jar') \<and> same_cookie c (cookie_of_parsed p)
        \<and> admissible dns url from_http c)"
proof -
  have ok: "jar_ok jar" using jar_run_ok [OF assms(1), of dns tm] by (simp add: assms(2))
  have adm: "admissible dns url from_http c \<longleftrightarrow> admissible dns url from_http d" if "same_cookie c d" for c d :: "'a Cookie"
    using that by (simp add: same_cookie_def admissible_def cookie_id_def cong: option.case_cong)
  obtain jar' r where run: "CookieJar_set_cookie dns tm clock jar header url from_http = (jar', r)" by force
  show ?thesis
  proof (cases r)
    case (Ok u)
    with run have "CookieJar_set_cookie dns tm clock jar header url from_http = (jar', Ok ())" by simp
    from set_cookie_stores [OF ok this] obtain p c
      where "parse_set_cookie dns tm header url (clock 0) from_http = Ok p"
        "c \<in> set (cookies jar')" "same_cookie c (cookie_of_parsed p)" by auto
    with adm parse_set_cookie_policy show ?thesis by (fastforce simp: run Ok)
  next
    case (Err e)
    with set_cookie_error run show ?thesis by (fastforce simp: run Err)
  qed
qed

theorem set_cookie_policy_witness:
  "\<exists>c \<in> set (cookies (jar_run ex_dns ex_time [ex_set])). admissible ex_dns ex_url True c"
proof -
  have "sum_list (map offered ([] :: int jar_event list)) < 2 ^ 64" by simp
  from set_cookie_policy [OF this refl, where dns = ex_dns and tm = ex_time and clock = "\<lambda>_. 5"
      and header = "''id=7''" and url = ex_url and from_http = True]
  show ?thesis
    by (auto simp: jar_run_def ex_set_def split: prod.splits result.splits)
      (auto simp: CookieJar_set_cookie_def ex_parse CookieJar_upsert_def Let_def split: option.splits prod.splits)
qed

text \<open>C12: a cookie that was set is sent. After \<open>set_cookie\<close> succeeds, a same-site request to the same
  URL carries the cookie's name and value, unless it has expired or its path does not match.\<close>

theorem set_cookie_then_sent:
  assumes "sum_list (map offered es) < 2 ^ 64" and "(jar :: 't::linorder CookieJar) = jar_run dns tm es"
    and "CookieJar_set_cookie dns tm clock jar header url from_http = (jar', Ok ())"
    and "parse_set_cookie dns tm header url (clock 0) from_http = Ok p"
    and "hosts_roundtrip dns url" and "path_match (url_path url) (pc_path p)"
    and "\<not> is_expired (cookie_of_parsed p) now"
  shows "\<exists>cs (d :: 't Cookie) ds. snd (CookieJar_cookies_for dns now jar' url False meth) =
      str_join ''; '' (map cookie_pair (cs @ d # ds))
    \<and> cookie_pair d = pc_name p @ ''='' @ pc_value p"
proof -
  have ok: "jar_ok jar" using jar_run_ok [OF assms(1), of dns tm] by (simp add: assms(2))
  from stored_cookie_sent [OF ok assms(3-7), of meth] obtain d
    where d: "d \<in> set (sent_cookies dns now jar' url False meth)"
      "cookie_pair d = pc_name p @ ''='' @ pc_value p" by blast
  from split_list [OF d(1)] obtain cs ds where "sent_cookies dns now jar' url False meth = cs @ d # ds"
    by blast
  then have "snd (CookieJar_cookies_for dns now jar' url False meth)
      = str_join ''; '' (map cookie_pair (cs @ d # ds))" by (simp only: header_of_sent)
  with d(2) show ?thesis by blast
qed

theorem set_cookie_then_sent_witness:
  "\<exists>cs (d :: int Cookie) ds. snd (CookieJar_cookies_for ex_dns 6 (jar_run ex_dns ex_time [ex_set]) ex_url False Post) =
      str_join ''; '' (map cookie_pair (cs @ d # ds))
    \<and> cookie_pair d = ''id=7''"
proof -
  have "CookieJar_set_cookie ex_dns ex_time (\<lambda>_. 5) (jar_run ex_dns ex_time []) ''id=7'' ex_url True
      = (jar_run ex_dns ex_time [ex_set], Ok ())"
    by (simp add: jar_run_def ex_set_def CookieJar_set_cookie_def ex_parse CookieJar_upsert_def
        CookieJar_new_def CookieJar_tick_def)
  moreover have "hosts_roundtrip ex_dns ex_url"
    by (auto simp: hosts_roundtrip_def ex_dns_def ex_url_def split: Host.split)
  moreover have "path_match (url_path ex_url) (pc_path ex_parsed)"
    by (simp add: path_match_def ex_url_def ex_parsed_def str_starts_with_def)
  moreover have "\<not> is_expired (cookie_of_parsed ex_parsed) 6"
    by (simp add: is_expired_def cookie_of_parsed_def ex_parsed_def)
  ultimately have "\<exists>cs (d :: int Cookie) ds. snd (CookieJar_cookies_for ex_dns 6 (jar_run ex_dns ex_time [ex_set]) ex_url False Post) =
      str_join ''; '' (map cookie_pair (cs @ d # ds))
    \<and> cookie_pair d = pc_name ex_parsed @ ''='' @ pc_value ex_parsed"
    by (intro set_cookie_then_sent [where es = "[]" and clock = "\<lambda>_. 5" and p = ex_parsed])
      (simp_all, rule ex_parse)
  then show ?thesis by (simp add: ex_parsed_def)
qed

text \<open>C10: cookies stay where they belong. What a script reads is determined by the cookies that are not
  HttpOnly; the header of a request is determined by the cookies that may travel: on an insecure
  connection those that are not Secure, on a cross-site request those that are not \<open>SameSite=Strict\<close>
  and, unless the method is safe, not \<open>SameSite=Lax\<close>. Changing any other cookie changes nothing.\<close>

theorem cookies_confined:
  "(if filter (\<lambda>c. \<not> ck_http_only c) (cookies jar) = filter (\<lambda>c. \<not> ck_http_only c) (cookies jar')
    then CookieJar_document_cookie_string dns now jar url = CookieJar_document_cookie_string dns now jar' url
    else True)
   \<and> (if filter (may_travel url cross_site meth) (cookies jar)
        = filter (may_travel url cross_site meth) (cookies jar')
      then snd (CookieJar_cookies_for dns now jar url cross_site meth)
        = snd (CookieJar_cookies_for dns now jar' url cross_site meth)
      else True)"
  using document_cookie_determined [of jar jar' dns now url]
    header_determined [of url cross_site meth jar jar' dns now] by simp

text \<open>Merging an isolated jar back. For every name, domain and path, the merged jar holds what the
  worker changed, nothing where the worker removed the cookie, and what the profile's jar held
  otherwise, as long as both jars fit into one.\<close>

theorem worker_delta_merged:
  assumes "sum_list (map offered es) < 2 ^ 64" and "jar = jar_run dns tm es"
    and "sum_list (map offered fs) < 2 ^ 64" and "worker = jar_run dns tm fs"
    and "length (cookies jar) + length (cookies worker) \<le> 512"
    and "list_all (\<lambda>c. normalised (snapshot_of tm c)) (cookies worker)"
  shows "data_at (CookieJar_apply_delta tm clock jar (CookieJar_delta_from_snapshots tm now worker baseline)) k =
    (case bt_get (snapshots_by_identity (CookieJar_snapshots tm now worker)) k of
       Some sn \<Rightarrow>
         if bt_get (snapshots_by_identity baseline) k = Some sn then data_at jar k
         else (case snapshot_data tm (clock 0) sn of Some d \<Rightarrow> Some d | None \<Rightarrow> data_at jar k)
     | None \<Rightarrow>
         if bt_get (snapshots_by_identity baseline) k \<noteq> None then None else data_at jar k)"
proof (rule apply_delta_data_at)
  show "jar_ok jar" "jar_ok worker"
    using jar_run_ok [OF assms(1), of dns tm] jar_run_ok [OF assms(3), of dns tm]
    by (simp_all add: assms(2,4))
qed (use assms(5,6) in \<open>simp_all add: MAX_COOKIES_def list_all_iff\<close>)

theorem worker_delta_merged_witness:
  "data_at (CookieJar_apply_delta ex_time (\<lambda>_. 6) CookieJar_new
      (CookieJar_delta_from_snapshots ex_time 6 (jar_run ex_dns ex_time [ex_set]) []))
    (''id'', ''a.com'', ''/x'') = Some (''7'', True, None, False, False, Lax)"
proof -
  have "data_at (CookieJar_apply_delta ex_time (\<lambda>_. 6) (jar_run ex_dns ex_time [])
      (CookieJar_delta_from_snapshots ex_time 6 (jar_run ex_dns ex_time [ex_set]) []))
    (''id'', ''a.com'', ''/x'') =
    (case bt_get (snapshots_by_identity (CookieJar_snapshots ex_time 6 (jar_run ex_dns ex_time [ex_set])))
        (''id'', ''a.com'', ''/x'') of
       Some sn \<Rightarrow>
         if bt_get (snapshots_by_identity []) (''id'', ''a.com'', ''/x'') = Some sn
         then data_at (jar_run ex_dns ex_time []) (''id'', ''a.com'', ''/x'')
         else (case snapshot_data ex_time ((\<lambda>_. 6) 0) sn of Some d \<Rightarrow> Some d
           | None \<Rightarrow> data_at (jar_run ex_dns ex_time []) (''id'', ''a.com'', ''/x''))
     | None \<Rightarrow>
         if bt_get (snapshots_by_identity []) (''id'', ''a.com'', ''/x'') \<noteq> None then None
         else data_at (jar_run ex_dns ex_time []) (''id'', ''a.com'', ''/x''))"
  proof (rule worker_delta_merged [where es = "[]" and fs = "[ex_set]" and dns = ex_dns])
    show "list_all (\<lambda>c. normalised (snapshot_of ex_time c)) (cookies (jar_run ex_dns ex_time [ex_set]))"
      by (simp add: ex_jar normalised_def snapshot_of_def cookie_of_parsed_def ex_parsed_def
          to_ascii_lowercase_def to_ascii_lowercase_char_def byte_def)
    show "sum_list (map offered [ex_set]) < 2 ^ 64" by (simp add: ex_set_def)
  qed (simp_all add: ex_jar jar_run_def [of _ _ "[]"] CookieJar_new_def)
  moreover have "jar_run ex_dns ex_time [] = CookieJar_new" by (simp add: jar_run_def)
  ultimately show ?thesis
    by (simp add: ex_snapshots snapshots_by_identity_def bt_collect_def ex_snapshot_id bt_get_def
        ex_snapshot_data)
qed

text \<open>C13: dates in the format servers send are read exactly. The \<open>n\<close>-th day after the first of January of
  the year 0, in a year from 1000 to 9999, written as \<open>Sun, 06 Nov 1994 08:49:37 GMT\<close> with any weekday, is parsed as the
  second it denotes, where day 719528 is the first of January 1970. Earlier years are not covered: the parser reads a year below 100 as one
  of this or the last century, however many digits it is written with. The years 1000 to 1600 are covered, which RFC 6265 rejects.\<close>

theorem imf_fixdate_parsed:
  assumes "nth_day n = (y, m, d)" "1000 \<le> y" "y \<le> 9999" and "wk \<in> set weekdays"
    and "0 \<le> h" "h \<le> 23" "0 \<le> mi" "mi \<le> 59" "0 \<le> s" "s \<le> 59"
  shows "parse_cookie_date from_unix (imf_fixdate wk (y, m, d) (h, mi, s)) =
    from_unix ((int n - 719528) * 86400 + h * 3600 + mi * 60 + s)"
  using assms by (rule parse_imf_fixdate)

theorem imf_fixdate_parsed_witness:
  "parse_cookie_date Some (imf_fixdate ''Sat'' (1970, 1, 2) (8, 49, 37)) = Some 118177"
proof -
  have "nth_day 719529 = (1970, 1, 2)"
    by (rule nth_day_of_number)
      (simp_all add: civil_date_def month_length_def day_number_def year_days_def month_days_def)
  from imf_fixdate_parsed [OF this, of "''Sat''" 8 49 37 Some] show ?thesis by (simp add: weekdays_def)
qed

end
