(* ===== verification/Redb.thy ===== *)
theory Redb
  imports Ordered_Map "HOL-Library.List_Lexorder" "HOL-Library.Char_ord" "HOL-Library.Product_Lexorder"
begin

section \<open>The database below the store\<close>

text \<open>
  \<open>vixen-store\<close> keeps its tables in \<open>redb\<close>, a third-party embedded database with transactions: the
  record \<open>redb\<close> holds the functions the store calls, \<open>redb_laws\<close> what their documentation promises, over
  the tables a database, a write transaction and a read transaction hold (\<open>redb_view\<close>). Any call may
  fail. A write transaction starts from the tables of the database and changes them only when it commits;
  dropping it leaves the database as it was. After a failed commit nothing is assumed. Iteration is in
  the order of the keys.

  Code inside a write transaction is an \<open>action\<close>: it changes the transaction and returns a result. The
  rules for \<open>performs\<close> compute what an action does to the tables when it succeeds.
\<close>

type_synonym bytes = string
type_synonym key_values = "(bytes, bytes) btree"

datatype table = COOKIES | FETCH_CACHE | FETCH_CACHE_ALIASES | HISTORY | SESSION | WEB_STORAGE
  | DOWNLOADS | PERMISSIONS | HSTS

type_synonym tables = "table \<Rightarrow> key_values"
type_synonym 'e items = "(bytes \<times> bytes, 'e) result list"

record ('db, 'tx, 'rd, 'e) redb =
  db_create :: "('db, 'e) result"
  begin_write :: "'db \<Rightarrow> ('tx, 'e) result"
  tx_open_table :: "'tx \<Rightarrow> table \<Rightarrow> 'tx \<times> (unit, 'e) result"
  tx_get :: "'tx \<Rightarrow> table \<Rightarrow> bytes \<Rightarrow> (bytes option, 'e) result"
  tx_iter :: "'tx \<Rightarrow> table \<Rightarrow> ('e items, 'e) result"
  tx_insert :: "'tx \<Rightarrow> table \<Rightarrow> bytes \<Rightarrow> bytes \<Rightarrow> 'tx \<times> (unit, 'e) result"
  tx_remove :: "'tx \<Rightarrow> table \<Rightarrow> bytes \<Rightarrow> 'tx \<times> (unit, 'e) result"
  tx_commit :: "'tx \<Rightarrow> 'db \<times> (unit, 'e) result"
  tx_drop :: "'tx \<Rightarrow> 'db"
  begin_read :: "'db \<Rightarrow> ('rd, 'e) result"
  rd_open_table :: "'rd \<Rightarrow> table \<Rightarrow> (unit, 'e) result"
  rd_get :: "'rd \<Rightarrow> table \<Rightarrow> bytes \<Rightarrow> (bytes option, 'e) result"
  rd_iter :: "'rd \<Rightarrow> table \<Rightarrow> ('e items, 'e) result"

record ('db, 'tx, 'rd) redb_view =
  contents :: "'db \<Rightarrow> tables"
  base :: "'tx \<Rightarrow> tables"
  view :: "'tx \<Rightarrow> tables"
  seen :: "'rd \<Rightarrow> tables"

definition changes ::
    "('db, 'tx, 'rd) redb_view \<Rightarrow> (tables \<Rightarrow> tables) \<Rightarrow> 'tx \<Rightarrow> 'tx \<times> (unit, 'e) result \<Rightarrow> bool" where
  "changes vw f tx out \<longleftrightarrow> base vw (fst out) = base vw tx
     \<and> (snd out = Ok () \<longrightarrow> view vw (fst out) = f (view vw tx))"

definition iterates :: "key_values \<Rightarrow> ('e items, 'e) result \<Rightarrow> bool" where
  "iterates m out \<longleftrightarrow> (\<forall>items. out = Ok items \<longrightarrow> list_all is_ok items \<longrightarrow> items = map Ok m)"

definition redb_laws :: "('db, 'tx, 'rd, 'e) redb \<Rightarrow> ('db, 'tx, 'rd) redb_view \<Rightarrow> bool" where
  "redb_laws lib vw \<longleftrightarrow>
     (\<forall>db t. bt_ok (contents vw db t))
   \<and> (\<forall>db tx. begin_write lib db = Ok tx \<longrightarrow> base vw tx = contents vw db \<and> view vw tx = contents vw db)
   \<and> (\<forall>tx t. changes vw id tx (tx_open_table lib tx t))
   \<and> (\<forall>tx t k v. tx_get lib tx t k = Ok v \<longrightarrow> v = bt_get (view vw tx t) k)
   \<and> (\<forall>tx t. iterates (view vw tx t) (tx_iter lib tx t))
   \<and> (\<forall>tx t k v. changes vw (\<lambda>s. s(t := bt_insert k v (s t))) tx (tx_insert lib tx t k v))
   \<and> (\<forall>tx t k. changes vw (\<lambda>s. s(t := bt_remove k (s t))) tx (tx_remove lib tx t k))
   \<and> (\<forall>tx db. tx_commit lib tx = (db, Ok ()) \<longrightarrow> contents vw db = view vw tx)
   \<and> (\<forall>tx. contents vw (tx_drop lib tx) = base vw tx)
   \<and> (\<forall>db rd. begin_read lib db = Ok rd \<longrightarrow> seen vw rd = contents vw db)
   \<and> (\<forall>rd t k v. rd_get lib rd t k = Ok v \<longrightarrow> v = bt_get (seen vw rd t) k)
   \<and> (\<forall>rd t. iterates (seen vw rd t) (rd_iter lib rd t))"

lemma redb_lawsD:
  assumes "redb_laws lib vw"
  shows "bt_ok (contents vw db t)"
    and "begin_write lib db = Ok tx \<Longrightarrow> base vw tx = contents vw db \<and> view vw tx = contents vw db"
    and "changes vw id tx (tx_open_table lib tx t)"
    and "tx_get lib tx t k = Ok v' \<Longrightarrow> v' = bt_get (view vw tx t) k"
    and "iterates (view vw tx t) (tx_iter lib tx t)"
    and "changes vw (\<lambda>s. s(t := bt_insert k v (s t))) tx (tx_insert lib tx t k v)"
    and "changes vw (\<lambda>s. s(t := bt_remove k (s t))) tx (tx_remove lib tx t k)"
    and "tx_commit lib tx = (db, Ok ()) \<Longrightarrow> contents vw db = view vw tx"
    and "contents vw (tx_drop lib tx) = base vw tx"
    and "begin_read lib db = Ok rd \<Longrightarrow> seen vw rd = contents vw db"
    and "rd_get lib rd t k = Ok v' \<Longrightarrow> v' = bt_get (seen vw rd t) k"
    and "iterates (seen vw rd t) (rd_iter lib rd t)"
  using assms by (simp_all add: redb_laws_def)

section \<open>Store errors\<close>

text \<open>\<open>'e\<close> stands for the error values of \<open>redb\<close> and of the JSON library.\<close>

datatype 'e StoreError =
    Database 'e
  | Storage 'e
  | Transaction 'e
  | Table 'e
  | Commit 'e
  | DatabaseOpen 'e
  | Serde 'e
  | Utf8
  | InvalidWebStorageInput string string
  | InvalidDownloadInput string string
  | InvalidSessionInput string string
  | InvalidPermissionInput string string
  | InvalidSecurityStateInput string string
  | InvalidFetchCacheInput string string
  | MissingTable string

definition commit_failed :: "('a, 'e StoreError) result \<Rightarrow> bool" where
  "commit_failed r \<longleftrightarrow> (\<exists>e. r = Err (Commit e))"

section \<open>Actions in a write transaction\<close>

type_synonym ('tx, 'a, 'e) action = "'tx \<Rightarrow> 'tx \<times> ('a, 'e StoreError) result"

definition act_return :: "'a \<Rightarrow> ('tx, 'a, 'e) action" where
  "act_return a = (\<lambda>tx. (tx, Ok a))"

definition act_try :: "('a, 'e StoreError) result \<Rightarrow> ('tx, 'a, 'e) action" where
  "act_try r = (\<lambda>tx. (tx, r))"

text \<open>The \<open>?\<close> operator: the first error ends the action.\<close>

definition act_bind :: "('tx, 'a, 'e) action \<Rightarrow> ('a \<Rightarrow> ('tx, 'b, 'e) action) \<Rightarrow> ('tx, 'b, 'e) action" where
  "act_bind m k = (\<lambda>tx. case m tx of (tx', Ok a) \<Rightarrow> k a tx' | (tx', Err e) \<Rightarrow> (tx', Err e))"

definition open_table :: "('db, 'tx, 'rd, 'e) redb \<Rightarrow> table \<Rightarrow> ('tx, unit, 'e) action" where
  "open_table lib t = (\<lambda>tx. case tx_open_table lib tx t of (tx', r) \<Rightarrow> (tx', map_err Table r))"

definition table_get ::
    "('db, 'tx, 'rd, 'e) redb \<Rightarrow> table \<Rightarrow> bytes \<Rightarrow> ('tx, bytes option, 'e) action" where
  "table_get lib t k = (\<lambda>tx. (tx, map_err Storage (tx_get lib tx t k)))"

definition table_insert ::
    "('db, 'tx, 'rd, 'e) redb \<Rightarrow> table \<Rightarrow> bytes \<Rightarrow> bytes \<Rightarrow> ('tx, unit, 'e) action" where
  "table_insert lib t k v = (\<lambda>tx. case tx_insert lib tx t k v of (tx', r) \<Rightarrow> (tx', map_err Storage r))"

definition table_remove ::
    "('db, 'tx, 'rd, 'e) redb \<Rightarrow> table \<Rightarrow> bytes \<Rightarrow> ('tx, unit, 'e) action" where
  "table_remove lib t k = (\<lambda>tx. case tx_remove lib tx t k of (tx', r) \<Rightarrow> (tx', map_err Storage r))"

primrec remove_each ::
    "('db, 'tx, 'rd, 'e) redb \<Rightarrow> table \<Rightarrow> bytes list \<Rightarrow> ('tx, unit, 'e) action" where
  "remove_each lib t [] = act_return ()"
| "remove_each lib t (k # ks) = act_bind (table_remove lib t k) (\<lambda>_. remove_each lib t ks)"

text \<open>The loops \<open>for item in t.iter()?\<close> with \<open>let (k, v) = item?\<close>, in which each item may add one
  element to a vector or return with an error.\<close>

primrec each_item ::
    "(bytes \<times> bytes \<Rightarrow> ('y option, 'e StoreError) result) \<Rightarrow> 'e items \<Rightarrow> ('y list, 'e StoreError) result" where
  "each_item f [] = Ok []"
| "each_item f (item # items) =
     and_then (map_err Storage item) (\<lambda>kv.
     and_then (f kv) (\<lambda>y.
     and_then (each_item f items) (\<lambda>ys. Ok (case y of Some a \<Rightarrow> a # ys | None \<Rightarrow> ys))))"

definition table_each ::
    "('db, 'tx, 'rd, 'e) redb \<Rightarrow> table \<Rightarrow> (bytes \<times> bytes \<Rightarrow> ('y option, 'e StoreError) result)
     \<Rightarrow> ('tx, 'y list, 'e) action" where
  "table_each lib t f = (\<lambda>tx. (tx, and_then (map_err Storage (tx_iter lib tx t)) (each_item f)))"

text \<open>\<open>begin_write\<close>, the statements of the block, \<open>commit\<close>; an early return drops the transaction.\<close>

definition in_write ::
    "('db, 'tx, 'rd, 'e) redb \<Rightarrow> 'db \<Rightarrow> ('tx, unit, 'e) action \<Rightarrow> 'db \<times> (unit, 'e StoreError) result" where
  "in_write lib db body =
     try_in db (map_err Transaction (begin_write lib db)) (\<lambda>tx.
       case body tx of
         (tx', Err e) \<Rightarrow> (tx_drop lib tx', Err e)
       | (tx', Ok _) \<Rightarrow> (case tx_commit lib tx' of (db', r) \<Rightarrow> (db', map_err Commit r)))"

primrec table_name :: "table \<Rightarrow> string" where
  "table_name COOKIES = ''cookies''"
| "table_name FETCH_CACHE = ''fetch-cache''"
| "table_name FETCH_CACHE_ALIASES = ''fetch-cache-aliases''"
| "table_name HISTORY = ''history''"
| "table_name SESSION = ''session''"
| "table_name WEB_STORAGE = ''web-storage''"
| "table_name DOWNLOADS = ''downloads''"
| "table_name PERMISSIONS = ''permissions''"
| "table_name HSTS = ''hsts''"

text \<open>\<open>begin_read\<close> and \<open>open_table\<close>, then the reads.\<close>

definition in_read ::
    "('db, 'tx, 'rd, 'e) redb \<Rightarrow> 'db \<Rightarrow> table \<Rightarrow> ('rd \<Rightarrow> ('a, 'e StoreError) result)
     \<Rightarrow> ('a, 'e StoreError) result" where
  "in_read lib db t body =
     and_then (map_err Transaction (begin_read lib db)) (\<lambda>rd.
     and_then (map_err (\<lambda>_. MissingTable (table_name t)) (rd_open_table lib rd t)) (\<lambda>_. body rd))"

definition read_get ::
    "('db, 'tx, 'rd, 'e) redb \<Rightarrow> 'rd \<Rightarrow> table \<Rightarrow> bytes \<Rightarrow> (bytes option, 'e StoreError) result" where
  "read_get lib rd t k = map_err Storage (rd_get lib rd t k)"

definition read_each ::
    "('db, 'tx, 'rd, 'e) redb \<Rightarrow> 'rd \<Rightarrow> table \<Rightarrow> (bytes \<times> bytes \<Rightarrow> ('y option, 'e StoreError) result)
     \<Rightarrow> ('y list, 'e StoreError) result" where
  "read_each lib rd t f = and_then (map_err Storage (rd_iter lib rd t)) (each_item f)"

section \<open>What actions do\<close>

text \<open>\<open>performs vw m Q\<close>: the action \<open>m\<close> keeps the tables its transaction started from, and when it returns
  \<open>Ok a\<close> the tables before and after are related by \<open>Q\<close>.\<close>

definition performs ::
    "('db, 'tx, 'rd) redb_view \<Rightarrow> ('tx, 'a, 'e) action \<Rightarrow> (tables \<Rightarrow> 'a \<Rightarrow> tables \<Rightarrow> bool) \<Rightarrow> bool" where
  "performs vw m Q \<longleftrightarrow>
     (\<forall>tx tx' r. m tx = (tx', r) \<longrightarrow> base vw tx' = base vw tx
        \<and> (\<forall>a. r = Ok a \<longrightarrow> Q (view vw tx) a (view vw tx')))"

named_theorems performs_rules \<open>what the steps of a write transaction do\<close>

lemma performs_mono: "performs vw m Q \<Longrightarrow> (\<And>s a s'. Q s a s' \<Longrightarrow> R s a s') \<Longrightarrow> performs vw m R"
  by (auto simp: performs_def)

lemma performs_return [performs_rules]: "performs vw (act_return a) (\<lambda>s b s'. b = a \<and> s' = s)"
  by (simp add: performs_def act_return_def)

lemma performs_try [performs_rules]: "performs vw (act_try r) (\<lambda>s b s'. r = Ok b \<and> s' = s)"
  by (simp add: performs_def act_try_def)

lemma performs_bind [performs_rules]:
  assumes "performs vw m Q" and "\<And>a. performs vw (k a) (R a)"
  shows "performs vw (act_bind m k) (\<lambda>s b s'. \<exists>a u. Q s a u \<and> R a u b s')"
  unfolding performs_def
proof (intro allI impI)
  fix tx tx' r
  assume run: "act_bind m k tx = (tx', r)"
  obtain tx1 r1 where m: "m tx = (tx1, r1)" by force
  from assms(1) m have q: "base vw tx1 = base vw tx" "\<And>a. r1 = Ok a \<Longrightarrow> Q (view vw tx) a (view vw tx1)"
    by (auto simp: performs_def)
  show "base vw tx' = base vw tx \<and>
    (\<forall>b. r = Ok b \<longrightarrow> (\<exists>a u. Q (view vw tx) a u \<and> R a u b (view vw tx')))"
  proof (cases r1)
    case (Err e)
    with run m q show ?thesis by (auto simp: act_bind_def)
  next
    case (Ok a)
    with run m have "k a tx1 = (tx', r)" by (simp add: act_bind_def)
    with assms(2) [of a] have "base vw tx' = base vw tx1" "\<And>b. r = Ok b \<Longrightarrow> R a (view vw tx1) b (view vw tx')"
      by (auto simp: performs_def)
    with q Ok show ?thesis by auto
  qed
qed

lemma performs_if [performs_rules]:
  "performs vw m Q \<Longrightarrow> performs vw n R \<Longrightarrow>
     performs vw (if c then m else n) (\<lambda>s a s'. if c then Q s a s' else R s a s')"
  by (simp add: performs_def)

lemma performs_case_option [performs_rules]:
  assumes "performs vw m R" and "\<And>v. performs vw (f v) (Q v)"
  shows "performs vw (case x of None \<Rightarrow> m | Some v \<Rightarrow> f v)
    (\<lambda>s a s'. case x of None \<Rightarrow> R s a s' | Some v \<Rightarrow> Q v s a s')"
  using assms by (cases x) simp_all

lemma performs_changes:
  assumes "\<And>tx. changes vw f tx (step tx)"
  shows "performs vw (\<lambda>tx. case step tx of (tx', r) \<Rightarrow> (tx', map_err E r)) (\<lambda>s a s'. s' = f s)"
  unfolding performs_def
proof (intro allI impI)
  fix tx tx' r
  assume run: "(case step tx of (tx', r) \<Rightarrow> (tx', map_err E r)) = (tx', r)"
  with assms [of tx] show "base vw tx' = base vw tx \<and> (\<forall>a. r = Ok a \<longrightarrow> view vw tx' = f (view vw tx))"
    by (cases "step tx") (auto simp: changes_def result_simps)
qed

lemma performs_open_table [performs_rules]:
  "redb_laws lib vw \<Longrightarrow> performs vw (open_table lib t) (\<lambda>s a s'. s' = s)"
  unfolding open_table_def
  by (rule performs_mono, rule performs_changes [where f = id]) (simp_all add: redb_lawsD)

lemma performs_get [performs_rules]:
  "redb_laws lib vw \<Longrightarrow> performs vw (table_get lib t k) (\<lambda>s a s'. s' = s \<and> a = bt_get (s t) k)"
  by (auto simp: performs_def table_get_def result_simps dest: redb_lawsD(4))

lemma performs_insert [performs_rules]:
  "redb_laws lib vw \<Longrightarrow> performs vw (table_insert lib t k v) (\<lambda>s a s'. s' = s(t := bt_insert k v (s t)))"
  unfolding table_insert_def by (rule performs_changes) (rule redb_lawsD)

lemma performs_remove [performs_rules]:
  "redb_laws lib vw \<Longrightarrow> performs vw (table_remove lib t k) (\<lambda>s a s'. s' = s(t := bt_remove k (s t)))"
  unfolding table_remove_def by (rule performs_changes) (rule redb_lawsD)

definition bt_remove_keys :: "'k list \<Rightarrow> ('k, 'v) btree \<Rightarrow> ('k, 'v) btree" where
  "bt_remove_keys ks m = filter (\<lambda>e. fst e \<notin> set ks) m"

lemma performs_remove_each [performs_rules]:
  assumes "redb_laws lib vw"
  shows "performs vw (remove_each lib t ks) (\<lambda>s a s'. s' = s(t := bt_remove_keys ks (s t)))"
proof (induction ks)
  case Nil
  show ?case by (simp, rule performs_mono, rule performs_return) (auto simp: bt_remove_keys_def)
next
  case (Cons k ks)
  have "bt_remove_keys ks (bt_remove k m) = bt_remove_keys (k # ks) m" for m :: key_values
    by (auto simp: bt_remove_keys_def bt_remove_def intro: filter_cong)
  then show ?case
    by (simp, intro performs_mono [OF performs_bind [OF performs_remove [OF assms] Cons.IH]]) auto
qed

text \<open>A loop over the items of a table that succeeds has succeeded for each of them.\<close>

definition picks :: "(bytes \<times> bytes \<Rightarrow> ('y option, 'e StoreError) result) \<Rightarrow> key_values \<Rightarrow> 'y list \<Rightarrow> bool" where
  "picks f m ys \<longleftrightarrow> (\<forall>kv\<in>set m. is_ok (f kv))
     \<and> ys = List.map_filter (\<lambda>kv. case f kv of Ok y \<Rightarrow> y | Err _ \<Rightarrow> None) m"

lemma each_item_Ok: "each_item f (map Ok m) = Ok ys \<longleftrightarrow> picks f m ys"
proof (induction m arbitrary: ys)
  case Nil
  show ?case by (auto simp: picks_def)
next
  case (Cons kv m)
  then show ?case
    by (cases "f kv") (auto simp: picks_def result_simps split: option.splits)
qed

lemma each_item_ok: "each_item f items = Ok ys \<Longrightarrow> list_all is_ok items"
  by (induction items arbitrary: ys) (auto simp: result_simps)

lemma iterates_each:
  assumes "iterates m out" and "and_then (map_err Storage out) (each_item f) = Ok ys"
  shows "picks f m ys"
proof -
  from assms(2) obtain items where items: "out = Ok items" "each_item f items = Ok ys"
    by (auto simp: result_simps)
  with assms(1) each_item_ok have "items = map Ok m" by (auto simp: iterates_def)
  with items(2) show ?thesis by (simp add: each_item_Ok)
qed

lemma performs_each [performs_rules]:
  "redb_laws lib vw \<Longrightarrow> performs vw (table_each lib t f) (\<lambda>s ys s'. s' = s \<and> picks f (s t) ys)"
  by (auto simp: performs_def table_each_def dest: redb_lawsD(5) [THEN iterates_each])

text \<open>A write either takes effect as a whole or, unless its commit failed, not at all.\<close>

lemma in_write_effect:
  assumes "redb_laws lib vw" and "performs vw body Q" and "in_write lib db body = (db', r)"
  shows "(r = Ok () \<longrightarrow> Q (contents vw db) () (contents vw db'))
    \<and> (\<forall>e. r = Err e \<longrightarrow> \<not> commit_failed r \<longrightarrow> contents vw db' = contents vw db)"
proof (cases "begin_write lib db")
  case (Err e)
  with assms(3) have "db' = db" "r = Err (Transaction e)" by (simp_all add: in_write_def)
  then show ?thesis by simp
next
  case tx: (Ok tx)
  have start: "base vw tx = contents vw db" "view vw tx = contents vw db"
    using redb_lawsD(2) [OF assms(1) tx] by blast+
  obtain tx' out where body: "body tx = (tx', out)" by force
  have q: "base vw tx' = contents vw db" "\<forall>a. out = Ok a \<longrightarrow> Q (contents vw db) a (view vw tx')"
    using assms(2) [unfolded performs_def, rule_format, OF body] unfolding start by blast+
  show ?thesis
  proof (cases out)
    case (Err e)
    with assms(3) tx body have "db' = tx_drop lib tx'" "r = Err e" by (simp_all add: in_write_def)
    with redb_lawsD(9) [OF assms(1), of tx'] q(1) show ?thesis by simp
  next
    case (Ok u)
    obtain db2 r2 where commit: "tx_commit lib tx' = (db2, r2)" by force
    with assms(3) tx body Ok have "db' = db2" "r = map_err Commit r2" by (simp_all add: in_write_def)
    moreover have "contents vw db2 = view vw tx'" if "r2 = Ok ()"
      using redb_lawsD(8) [OF assms(1), of tx' db2] commit that by simp
    ultimately show ?thesis
      using q(2) Ok by (cases r2) (simp_all add: commit_failed_def)
  qed
qed

lemma in_read_Ok:
  assumes "redb_laws lib vw" and "in_read lib db t body = Ok a"
  obtains rd where "body rd = Ok a" and "seen vw rd = contents vw db"
  using assms(2) redb_lawsD(10) [OF assms(1)] by (auto simp: in_read_def result_simps)

lemma read_get_Ok:
  "redb_laws lib vw \<Longrightarrow> read_get lib rd t k = Ok v \<Longrightarrow> v = bt_get (seen vw rd t) k"
  by (auto simp: read_get_def result_simps dest: redb_lawsD(11))

lemma read_each_Ok:
  "redb_laws lib vw \<Longrightarrow> read_each lib rd t f = Ok ys \<Longrightarrow> picks f (seen vw rd t) ys"
  unfolding read_each_def by (rule iterates_each) (rule redb_lawsD(12))

end
