(* ===== verification/Profile_Records.thy ===== *)
theory Profile_Records
  imports Redb Rust_Str
begin

section \<open>Records of the persistent store\<close>

text \<open>
  \<open>vixen-store/src/lib.rs\<close>: the records of the store, their keys and their validation.
  Records are stored as JSON by a third-party library: a \<open>serde\<close> is its pair of functions for
  one type. \<open>i64\<close> timestamps are integers, which the store only compares.
\<close>

subsection \<open>Records\<close>

record ('a, 'e) serde =
  to_vec :: "'a \<Rightarrow> (bytes, 'e) result"
  from_slice :: "bytes \<Rightarrow> ('a, 'e) result"

record CookieRecord =
  cr_name :: string
  cr_value :: string
  cr_domain :: string
  cr_host_only :: bool
  cr_path :: string
  cr_expires_unix :: "int option"
  cr_secure :: bool
  cr_http_only :: bool
  cr_same_site :: u8
  cr_creation_unix :: int

record CacheEntry =
  ce_status :: u16
  ce_headers :: "(string \<times> string) list"
  ce_body :: bytes
  ce_fetched_unix :: int
  ce_vary_headers :: "(string \<times> string option) list"

record CacheRedirectHop =
  hop_to :: string
  hop_status :: u16

record CacheAlias =
  ca_hops :: "CacheRedirectHop list"
  ca_fetched_unix :: int

record FormControlSessionState =
  fc_key :: string
  fc_value :: string
  fc_checked :: "bool option"

record TabSessionState =
  ts_scroll_x :: u32
  ts_scroll_y :: u32
  ts_focused_element :: "string option"
  ts_form_controls :: "FormControlSessionState list"

record SessionRecord =
  sr_tabs :: "string list"
  sr_active_index :: usize
  sr_tab_states :: "TabSessionState list"

definition SessionRecord_default :: SessionRecord where
  "SessionRecord_default = \<lparr>sr_tabs = [], sr_active_index = 0, sr_tab_states = []\<rparr>"

datatype PermissionDecision = Granted | Denied

record PermissionRecord =
  pr_origin_key :: string
  pr_kind :: string
  pr_decision :: PermissionDecision
  pr_updated_unix :: int

record HstsRecord =
  hr_host :: string
  hr_include_subdomains :: bool
  hr_expires_unix :: int
  hr_received_unix :: int

datatype DownloadState = InProgress | Completed | Failed | Canceled

record DownloadRecord =
  dl_id :: u64
  dl_source_url :: "string option"
  dl_filename :: string
  dl_destination_path :: "string option"
  dl_mime :: string
  dl_received_bytes :: u64
  dl_total_bytes :: "u64 option"
  dl_state :: DownloadState
  dl_started_unix :: int
  dl_updated_unix :: int
  dl_error :: "string option"

record WebStorageRecord =
  ws_value :: string
  ws_sequence :: u64

record ClearDataSelection =
  sel_cookies :: bool
  sel_fetch_cache :: bool
  sel_history :: bool
  sel_session :: bool
  sel_web_storage :: bool
  sel_downloads :: bool
  sel_permissions :: bool
  sel_security_state :: bool

definition ClearDataSelection_all :: ClearDataSelection where
  "ClearDataSelection_all = \<lparr>sel_cookies = True, sel_fetch_cache = True, sel_history = True,
     sel_session = True, sel_web_storage = True, sel_downloads = True, sel_permissions = True,
     sel_security_state = True\<rparr>"

definition ClearDataSelection_browsing_data :: ClearDataSelection where
  "ClearDataSelection_browsing_data = \<lparr>sel_cookies = True, sel_fetch_cache = True, sel_history = True,
     sel_session = False, sel_web_storage = True, sel_downloads = True, sel_permissions = True,
     sel_security_state = True\<rparr>"

definition ClearDataSelection_is_empty :: "ClearDataSelection \<Rightarrow> bool" where
  "ClearDataSelection_is_empty sel \<longleftrightarrow>
     \<not> sel_cookies sel \<and> \<not> sel_fetch_cache sel \<and> \<not> sel_history sel \<and> \<not> sel_session sel
     \<and> \<not> sel_web_storage sel \<and> \<not> sel_downloads sel \<and> \<not> sel_permissions sel \<and> \<not> sel_security_state sel"

definition MAX_DOWNLOAD_RECORDS :: usize where "MAX_DOWNLOAD_RECORDS = 512"
definition MAX_FETCH_CACHE_RECORDS :: usize where "MAX_FETCH_CACHE_RECORDS = 512"
definition MAX_FETCH_CACHE_ALIASES :: usize where "MAX_FETCH_CACHE_ALIASES = 512"
definition MAX_FETCH_CACHE_REDIRECTS :: usize where "MAX_FETCH_CACHE_REDIRECTS = 20"
definition MAX_SESSION_TABS :: usize where "MAX_SESSION_TABS = 128"
definition MAX_SESSION_FORM_CONTROLS :: usize where "MAX_SESSION_FORM_CONTROLS = 512"
definition MAX_SESSION_URL_BYTES :: usize where "MAX_SESSION_URL_BYTES = 8192"
definition MAX_SESSION_FIELD_BYTES :: usize where "MAX_SESSION_FIELD_BYTES = 8192"
definition MAX_DOWNLOAD_FIELD_BYTES :: usize where "MAX_DOWNLOAD_FIELD_BYTES = 8192"
definition MAX_FETCH_CACHE_ALIAS_BYTES :: usize where "MAX_FETCH_CACHE_ALIAS_BYTES = 65536"

definition SESSION_KEY :: bytes where "SESSION_KEY = ''open-tabs''"
definition SESSION_RECORD_KEY :: bytes where "SESSION_RECORD_KEY = ''session-record-v1''"

subsection \<open>Keys and encodings\<close>

definition encode_record :: "('a, 'e) serde \<Rightarrow> 'a \<Rightarrow> (bytes, 'e StoreError) result" where
  "encode_record json x = map_err Serde (to_vec json x)"

definition decode_record :: "('a, 'e) serde \<Rightarrow> bytes \<Rightarrow> ('a, 'e StoreError) result" where
  "decode_record json b = map_err Serde (from_slice json b)"

abbreviation NUL :: char where "NUL \<equiv> CHR 0x00"

definition hsts_key :: "string \<Rightarrow> bytes" where
  "hsts_key host = to_ascii_lowercase host"

definition namespaced_key :: "string \<Rightarrow> string \<Rightarrow> bytes" where
  "namespaced_key origin_key name = origin_key @ NUL # name"

definition namespaced_prefix :: "string \<Rightarrow> bytes" where
  "namespaced_prefix origin_key = origin_key @ [NUL]"

definition FETCH_CACHE_VARIANT_MARKER :: bytes where
  "FETCH_CACHE_VARIANT_MARKER = NUL # ''v1'' @ [NUL]"

definition fetch_cache_variant_prefix :: "string \<Rightarrow> string \<Rightarrow> bytes" where
  "fetch_cache_variant_prefix origin_key url = namespaced_key origin_key url @ FETCH_CACHE_VARIANT_MARKER"

text \<open>\<open>Option\<close> orders \<open>None\<close> before \<open>Some\<close>; a pair is compared by its name first.\<close>

definition vary_key :: "string \<times> string option \<Rightarrow> string \<times> bool \<times> string" where
  "vary_key h = (fst h, snd h \<noteq> None, case snd h of None \<Rightarrow> [] | Some v \<Rightarrow> v)"

definition fetch_cache_variant_key ::
    "((string \<times> string option) list, 'e) serde \<Rightarrow> string \<Rightarrow> string \<Rightarrow> CacheEntry
     \<Rightarrow> (bytes, 'e StoreError) result" where
  "fetch_cache_variant_key json origin_key url entry =
     (let selector = sort_key vary_key (ce_vary_headers entry) in
      and_then (encode_record json selector) (\<lambda>sel. Ok (fetch_cache_variant_prefix origin_key url @ sel)))"

text \<open>\<open>u64::to_be_bytes\<close>.\<close>

definition to_be_bytes :: "u64 \<Rightarrow> bytes" where
  "to_be_bytes w = map (\<lambda>i. char_of (unat (drop_bit (8 * i) w) mod 256)) [7, 6, 5, 4, 3, 2, 1, 0]"

subsection \<open>Validation\<close>

definition validate_storage_input :: "string \<Rightarrow> string \<Rightarrow> bool \<Rightarrow> (unit, 'e StoreError) result" where
  "validate_storage_input field val allow_empty =
     (if \<not> allow_empty \<and> val = [] then Err (InvalidWebStorageInput field ''must be non-empty'')
      else if NUL \<in> set val then Err (InvalidWebStorageInput field ''must not contain NUL bytes'')
      else Ok ())"

definition validate_hop :: "usize \<Rightarrow> CacheRedirectHop \<Rightarrow> (usize, 'e StoreError) result" where
  "validate_hop total_bytes hop =
     (if hop_status hop \<notin> {301, 308} then
        Err (InvalidFetchCacheInput ''alias-status'' ''must be a permanent redirect'')
      else if hop_to hop = [] \<or> NUL \<in> set (hop_to hop) then
        Err (InvalidFetchCacheInput ''alias-target'' ''must be non-empty and contain no NUL bytes'')
      else and_then (ok_or (checked_add_usize total_bytes (length (hop_to hop)))
          (InvalidFetchCacheInput ''alias-target'' ''total target bytes overflow'')) (\<lambda>bytes_so_far.
        if MAX_FETCH_CACHE_ALIAS_BYTES < bytes_so_far then
          Err (InvalidFetchCacheInput ''alias-target'' ''total target bytes exceed 64 KiB'')
        else Ok bytes_so_far))"

definition validate_cache_alias :: "string \<Rightarrow> CacheAlias \<Rightarrow> (unit, 'e StoreError) result" where
  "validate_cache_alias url al =
     (if url = [] \<or> NUL \<in> set url then
        Err (InvalidFetchCacheInput ''alias-url'' ''must be non-empty and contain no NUL bytes'')
      else if ca_hops al = [] \<or> MAX_FETCH_CACHE_REDIRECTS < length (ca_hops al) then
        Err (InvalidFetchCacheInput ''alias-hops'' ''must contain between one and twenty redirects'')
      else and_then (try_fold validate_hop 0 (ca_hops al)) (\<lambda>_. Ok ()))"

definition validate_download_text :: "string \<Rightarrow> string \<Rightarrow> bool \<Rightarrow> (unit, 'e StoreError) result" where
  "validate_download_text field val allow_empty =
     (if \<not> allow_empty \<and> val = [] then Err (InvalidDownloadInput field ''must be non-empty'')
      else if MAX_DOWNLOAD_FIELD_BYTES < length val then
        Err (InvalidDownloadInput field ''exceeds maximum length'')
      else if NUL \<in> set val then Err (InvalidDownloadInput field ''must not contain NUL bytes'')
      else Ok ())"

definition validate_optional_text :: "string \<Rightarrow> string option \<Rightarrow> (unit, 'e StoreError) result" where
  "validate_optional_text field val =
     (case val of Some v \<Rightarrow> validate_download_text field v False | None \<Rightarrow> Ok ())"

definition validate_download_record :: "DownloadRecord \<Rightarrow> (unit, 'e StoreError) result" where
  "validate_download_record rec =
     and_then (validate_download_text ''filename'' (dl_filename rec) False) (\<lambda>_.
     and_then (validate_download_text ''mime'' (dl_mime rec) True) (\<lambda>_.
     and_then (validate_optional_text ''source_url'' (dl_source_url rec)) (\<lambda>_.
     and_then (validate_optional_text ''destination_path'' (dl_destination_path rec)) (\<lambda>_.
     and_then (validate_optional_text ''error'' (dl_error rec)) (\<lambda>_.
     if (case dl_total_bytes rec of Some limit \<Rightarrow> limit < dl_received_bytes rec | None \<Rightarrow> False) then
       Err (InvalidDownloadInput ''received_bytes'' ''must not exceed total_bytes'')
     else if dl_updated_unix rec < dl_started_unix rec then
       Err (InvalidDownloadInput ''updated_unix'' ''must be greater than or equal to started_unix'')
     else Ok ())))))"

definition validate_session_field :: "string \<Rightarrow> string \<Rightarrow> bool \<Rightarrow> (unit, 'e StoreError) result" where
  "validate_session_field field val allow_empty =
     (if \<not> allow_empty \<and> val = [] then Err (InvalidSessionInput field ''must be non-empty'')
      else if MAX_SESSION_FIELD_BYTES < length val then
        Err (InvalidSessionInput field ''exceeds maximum length'')
      else if NUL \<in> set val then Err (InvalidSessionInput field ''must not contain NUL bytes'')
      else Ok ())"

definition validate_session_url :: "string \<Rightarrow> (unit, 'e StoreError) result" where
  "validate_session_url val =
     (if val = [] then Err (InvalidSessionInput ''tabs'' ''must contain non-empty URLs'')
      else if MAX_SESSION_URL_BYTES < length val then
        Err (InvalidSessionInput ''tabs'' ''URL exceeds maximum length'')
      else if NUL \<in> set val then Err (InvalidSessionInput ''tabs'' ''URL must not contain NUL bytes'')
      else Ok ())"

definition validate_tab_session_state :: "TabSessionState \<Rightarrow> (unit, 'e StoreError) result" where
  "validate_tab_session_state st =
     and_then (case ts_focused_element st of
         Some el \<Rightarrow> validate_session_field ''focused_element'' el False | None \<Rightarrow> Ok ()) (\<lambda>_.
     if MAX_SESSION_FORM_CONTROLS < length (ts_form_controls st) then
       Err (InvalidSessionInput ''form_controls'' ''exceeds maximum form control count'')
     else try_for (\<lambda>control.
         and_then (validate_session_field ''form_controls'' (fc_key control) False) (\<lambda>_.
         validate_session_field ''form_controls'' (fc_value control) True)) (ts_form_controls st))"

definition validate_session_record :: "SessionRecord \<Rightarrow> (unit, 'e StoreError) result" where
  "validate_session_record rec =
     (if MAX_SESSION_TABS < length (sr_tabs rec) then
        Err (InvalidSessionInput ''tabs'' ''exceeds maximum tab count'')
      else if sr_tabs rec = [] then
        (if sr_active_index rec \<noteq> 0 then
           Err (InvalidSessionInput ''active_index'' ''must be zero for an empty session'')
         else if sr_tab_states rec \<noteq> [] then
           Err (InvalidSessionInput ''tab_states'' ''must be empty for an empty session'')
         else Ok ())
      else if length (sr_tabs rec) \<le> sr_active_index rec then
        Err (InvalidSessionInput ''active_index'' ''must reference an existing tab'')
      else if sr_tab_states rec \<noteq> [] \<and> length (sr_tab_states rec) \<noteq> length (sr_tabs rec) then
        Err (InvalidSessionInput ''tab_states'' ''must be empty or match the tab count'')
      else
        and_then (try_for validate_session_url (sr_tabs rec)) (\<lambda>_.
        try_for validate_tab_session_state (sr_tab_states rec)))"

definition validate_permission_text :: "string \<Rightarrow> string \<Rightarrow> (unit, 'e StoreError) result" where
  "validate_permission_text field val =
     (if val = [] then Err (InvalidPermissionInput field ''must be non-empty'')
      else if NUL \<in> set val then Err (InvalidPermissionInput field ''must not contain NUL bytes'')
      else Ok ())"

definition validate_permission_record :: "PermissionRecord \<Rightarrow> (unit, 'e StoreError) result" where
  "validate_permission_record rec =
     and_then (validate_permission_text ''origin_key'' (pr_origin_key rec)) (\<lambda>_.
     and_then (validate_permission_text ''kind'' (pr_kind rec)) (\<lambda>_. Ok ()))"

definition validate_hsts_host :: "string \<Rightarrow> (unit, 'e StoreError) result" where
  "validate_hsts_host host =
     (if host = [] then Err (InvalidSecurityStateInput ''host'' ''must be non-empty'')
      else if NUL \<in> set host then Err (InvalidSecurityStateInput ''host'' ''must not contain NUL bytes'')
      else Ok ())"

definition validate_hsts_record :: "HstsRecord \<Rightarrow> (unit, 'e StoreError) result" where
  "validate_hsts_record rec =
     and_then (validate_hsts_host (hr_host rec)) (\<lambda>_.
     if hr_expires_unix rec < hr_received_unix rec then
       Err (InvalidSecurityStateInput ''expires_unix'' ''must be greater than or equal to received_unix'')
     else Ok ())"

end
