(* ===== verification/Profile_Store.thy ===== *)
theory Profile_Store
  imports Profile_Records
begin

section \<open>The persistent store\<close>

text \<open>
  \<open>vixen-store/src/lib.rs\<close>: every operation of \<open>Store\<close> on its nine tables. A write is one transaction
  (\<open>in_write\<close>) and returns the database with its result; a read is one read transaction (\<open>in_read\<close>).
\<close>

definition Store_open :: "('db, 'tx, 'rd, 'e) redb \<Rightarrow> ('db, 'e StoreError) result" where
  "Store_open lib =
     and_then (map_err DatabaseOpen (db_create lib)) (\<lambda>db.
     case in_write lib db
         (act_bind (open_table lib COOKIES) (\<lambda>_.
          act_bind (open_table lib FETCH_CACHE) (\<lambda>_.
          act_bind (open_table lib FETCH_CACHE_ALIASES) (\<lambda>_.
          act_bind (open_table lib HISTORY) (\<lambda>_.
          act_bind (open_table lib SESSION) (\<lambda>_.
          act_bind (open_table lib WEB_STORAGE) (\<lambda>_.
          act_bind (open_table lib DOWNLOADS) (\<lambda>_.
          act_bind (open_table lib PERMISSIONS) (\<lambda>_.
          open_table lib HSTS))))))))) of
       (db', r) \<Rightarrow> and_then r (\<lambda>_. Ok db'))"

subsection \<open>Cookies\<close>

definition Store_put_cookie ::
    "('db, 'tx, 'rd, 'e) redb \<Rightarrow> (CookieRecord, 'e) serde \<Rightarrow> 'db \<Rightarrow> string \<Rightarrow> CookieRecord
     \<Rightarrow> 'db \<times> (unit, 'e StoreError) result" where
  "Store_put_cookie lib json db origin_key rec =
     (let key = namespaced_key origin_key (cr_name rec) in
      try_in db (encode_record json rec) (\<lambda>val.
      in_write lib db
        (act_bind (open_table lib COOKIES) (\<lambda>_. table_insert lib COOKIES key val))))"

definition Store_cookies_for ::
    "('db, 'tx, 'rd, 'e) redb \<Rightarrow> (CookieRecord, 'e) serde \<Rightarrow> 'db \<Rightarrow> string
     \<Rightarrow> (CookieRecord list, 'e StoreError) result" where
  "Store_cookies_for lib json db origin_key =
     in_read lib db COOKIES (\<lambda>rd.
       read_each lib rd COOKIES (\<lambda>(k, v).
         if \<not> str_starts_with k (namespaced_prefix origin_key) then Ok None
         else (case decode_record json v :: (_, 'e StoreError) result of
             Ok rec \<Rightarrow> Ok (Some rec) | Err _ \<Rightarrow> Ok None)))"

definition Store_delete_cookie ::
    "('db, 'tx, 'rd, 'e) redb \<Rightarrow> 'db \<Rightarrow> string \<Rightarrow> string \<Rightarrow> 'db \<times> (unit, 'e StoreError) result" where
  "Store_delete_cookie lib db origin_key name =
     (let key = namespaced_key origin_key name in
      in_write lib db
        (act_bind (open_table lib COOKIES) (\<lambda>_. table_remove lib COOKIES key)))"

text \<open>The block that collects the keys with a prefix and removes them.\<close>

definition clear_prefix :: "('db, 'tx, 'rd, 'e) redb \<Rightarrow> table \<Rightarrow> bytes \<Rightarrow> ('tx, unit, 'e) action" where
  "clear_prefix lib t pre =
     act_bind (open_table lib t) (\<lambda>_.
     act_bind (table_each lib t (\<lambda>(k, v). Ok (if str_starts_with k pre then Some k else None))) (\<lambda>keys.
     remove_each lib t keys))"

definition Store_clear_cookies ::
    "('db, 'tx, 'rd, 'e) redb \<Rightarrow> 'db \<Rightarrow> string \<Rightarrow> 'db \<times> (unit, 'e StoreError) result" where
  "Store_clear_cookies lib db origin_key =
     in_write lib db (clear_prefix lib COOKIES (namespaced_prefix origin_key))"

subsection \<open>Fetch cache\<close>

definition Store_put_cache ::
    "('db, 'tx, 'rd, 'e) redb \<Rightarrow> (CacheEntry, 'e) serde \<Rightarrow> ((string \<times> string option) list, 'e) serde
     \<Rightarrow> 'db \<Rightarrow> string \<Rightarrow> string \<Rightarrow> CacheEntry \<Rightarrow> 'db \<times> (unit, 'e StoreError) result" where
  "Store_put_cache lib json vjson db origin_key url entry =
     try_in db (fetch_cache_variant_key vjson origin_key url entry) (\<lambda>key.
     let legacy_key = namespaced_key origin_key url in
     try_in db (encode_record json entry) (\<lambda>val.
     in_write lib db
       (act_bind (open_table lib FETCH_CACHE) (\<lambda>_.
        act_bind (table_remove lib FETCH_CACHE legacy_key) (\<lambda>_.
        act_bind (table_insert lib FETCH_CACHE key val) (\<lambda>_.
        act_bind (table_each lib FETCH_CACHE (\<lambda>(k, v).
            and_then (decode_record json v) (\<lambda>e. Ok (Some (k, ce_fetched_unix e))))) (\<lambda>records.
        if MAX_FETCH_CACHE_RECORDS < length records then
          (let sorted_records = sort_key (\<lambda>(k, fetched). (fetched, k)) records;
               remove_count = length records - MAX_FETCH_CACHE_RECORDS
           in remove_each lib FETCH_CACHE (map fst (take remove_count sorted_records)))
        else act_return ())))))))"

definition Store_cache_variants ::
    "('db, 'tx, 'rd, 'e) redb \<Rightarrow> (CacheEntry, 'e) serde \<Rightarrow> 'db \<Rightarrow> string \<Rightarrow> string
     \<Rightarrow> (CacheEntry list, 'e StoreError) result" where
  "Store_cache_variants lib json db origin_key url =
     in_read lib db FETCH_CACHE (\<lambda>rd.
       let legacy_key = namespaced_key origin_key url;
           variant_prefix = fetch_cache_variant_prefix origin_key url
       in read_each lib rd FETCH_CACHE (\<lambda>(k, v).
         if k = legacy_key \<or> str_starts_with k variant_prefix
         then and_then (decode_record json v) (\<lambda>e. Ok (Some e)) else Ok None))"

text \<open>\<open>Iterator::max_by_key\<close>: the last of the greatest.\<close>

primrec max_by_key :: "('x \<Rightarrow> 'k::linorder) \<Rightarrow> 'x list \<Rightarrow> 'x option" where
  "max_by_key key [] = None"
| "max_by_key key (x # xs) =
     (case max_by_key key xs of
        None \<Rightarrow> Some x
      | Some y \<Rightarrow> if key y < key x then Some x else Some y)"

definition Store_get_cache ::
    "('db, 'tx, 'rd, 'e) redb \<Rightarrow> (CacheEntry, 'e) serde \<Rightarrow> 'db \<Rightarrow> string \<Rightarrow> string
     \<Rightarrow> (CacheEntry option, 'e StoreError) result" where
  "Store_get_cache lib json db origin_key url =
     and_then (Store_cache_variants lib json db origin_key url) (\<lambda>entries.
     Ok (max_by_key ce_fetched_unix entries))"

definition Store_put_cache_alias ::
    "('db, 'tx, 'rd, 'e) redb \<Rightarrow> (CacheAlias, 'e) serde \<Rightarrow> 'db \<Rightarrow> string \<Rightarrow> string \<Rightarrow> CacheAlias
     \<Rightarrow> 'db \<times> (unit, 'e StoreError) result" where
  "Store_put_cache_alias lib json db origin_key url al =
     try_in db (validate_cache_alias url al) (\<lambda>_.
     let key = namespaced_key origin_key url in
     try_in db (encode_record json al) (\<lambda>val.
     in_write lib db
       (act_bind (open_table lib FETCH_CACHE_ALIASES) (\<lambda>_.
        act_bind (table_insert lib FETCH_CACHE_ALIASES key val) (\<lambda>_.
        act_bind (table_each lib FETCH_CACHE_ALIASES (\<lambda>(k, v).
            and_then (decode_record json v) (\<lambda>a. Ok (Some (k, ca_fetched_unix a))))) (\<lambda>records.
        if MAX_FETCH_CACHE_ALIASES < length records then
          (let sorted_records = sort_key (\<lambda>(k, fetched). (fetched, k)) records;
               remove_count = length records - MAX_FETCH_CACHE_ALIASES
           in remove_each lib FETCH_CACHE_ALIASES (map fst (take remove_count sorted_records)))
        else act_return ()))))))"

definition Store_cache_alias ::
    "('db, 'tx, 'rd, 'e) redb \<Rightarrow> (CacheAlias, 'e) serde \<Rightarrow> 'db \<Rightarrow> string \<Rightarrow> string
     \<Rightarrow> (CacheAlias option, 'e StoreError) result" where
  "Store_cache_alias lib json db origin_key url =
     in_read lib db FETCH_CACHE_ALIASES (\<lambda>rd.
       let key = namespaced_key origin_key url in
       and_then (read_get lib rd FETCH_CACHE_ALIASES key) (\<lambda>found.
       case found of
         Some v \<Rightarrow> and_then (decode_record json v) (\<lambda>a. Ok (Some a))
       | None \<Rightarrow> Ok None))"

definition Store_delete_cache_alias ::
    "('db, 'tx, 'rd, 'e) redb \<Rightarrow> 'db \<Rightarrow> string \<Rightarrow> string \<Rightarrow> 'db \<times> (unit, 'e StoreError) result" where
  "Store_delete_cache_alias lib db origin_key url =
     (let key = namespaced_key origin_key url in
      in_write lib db
        (act_bind (open_table lib FETCH_CACHE_ALIASES) (\<lambda>_. table_remove lib FETCH_CACHE_ALIASES key)))"

subsection \<open>History\<close>

definition Store_record_visit ::
    "('db, 'tx, 'rd, 'e) redb \<Rightarrow> (int list, 'e) serde \<Rightarrow> 'db \<Rightarrow> string \<Rightarrow> string \<Rightarrow> int
     \<Rightarrow> 'db \<times> (unit, 'e StoreError) result" where
  "Store_record_visit lib json db origin_key url ts =
     (let key = namespaced_key origin_key url in
      in_write lib db
        (act_bind (open_table lib HISTORY) (\<lambda>_.
         act_bind (table_get lib HISTORY key) (\<lambda>found.
         act_bind (case found of
             Some v \<Rightarrow> act_try (and_then (decode_record json v) (\<lambda>visits. Ok (visits @ [ts])))
           | None \<Rightarrow> act_return [ts]) (\<lambda>visits.
         act_bind (act_try (encode_record json visits)) (\<lambda>val.
         table_insert lib HISTORY key val))))))"

definition Store_visits_for ::
    "('db, 'tx, 'rd, 'e) redb \<Rightarrow> (int list, 'e) serde \<Rightarrow> 'db \<Rightarrow> string \<Rightarrow> string
     \<Rightarrow> (int list, 'e StoreError) result" where
  "Store_visits_for lib json db origin_key url =
     in_read lib db HISTORY (\<lambda>rd.
       let key = namespaced_key origin_key url in
       and_then (read_get lib rd HISTORY key) (\<lambda>found.
       case found of Some v \<Rightarrow> decode_record json v | None \<Rightarrow> Ok []))"

subsection \<open>Session\<close>

definition Store_save_session_record ::
    "('db, 'tx, 'rd, 'e) redb \<Rightarrow> (string list, 'e) serde \<Rightarrow> (SessionRecord, 'e) serde \<Rightarrow> 'db
     \<Rightarrow> SessionRecord \<Rightarrow> 'db \<times> (unit, 'e StoreError) result" where
  "Store_save_session_record lib tjson json db rec =
     try_in db (validate_session_record rec) (\<lambda>_.
     try_in db (encode_record tjson (sr_tabs rec)) (\<lambda>val.
     try_in db (encode_record json rec) (\<lambda>record_val.
     in_write lib db
       (act_bind (open_table lib SESSION) (\<lambda>_.
        act_bind (table_insert lib SESSION SESSION_KEY val) (\<lambda>_.
        table_insert lib SESSION SESSION_RECORD_KEY record_val))))))"

definition Store_save_session ::
    "('db, 'tx, 'rd, 'e) redb \<Rightarrow> (string list, 'e) serde \<Rightarrow> (SessionRecord, 'e) serde \<Rightarrow> 'db
     \<Rightarrow> string list \<Rightarrow> 'db \<times> (unit, 'e StoreError) result" where
  "Store_save_session lib tjson json db tabs =
     Store_save_session_record lib tjson json db
       \<lparr>sr_tabs = tabs, sr_active_index = 0, sr_tab_states = []\<rparr>"

definition Store_load_session_record ::
    "('db, 'tx, 'rd, 'e) redb \<Rightarrow> (string list, 'e) serde \<Rightarrow> (SessionRecord, 'e) serde \<Rightarrow> 'db
     \<Rightarrow> (SessionRecord, 'e StoreError) result" where
  "Store_load_session_record lib tjson json db =
     in_read lib db SESSION (\<lambda>rd.
       and_then (read_get lib rd SESSION SESSION_RECORD_KEY) (\<lambda>found.
       case found of
         Some v \<Rightarrow>
           and_then (decode_record json v) (\<lambda>rec.
           and_then (validate_session_record rec) (\<lambda>_. Ok rec))
       | None \<Rightarrow>
           and_then (read_get lib rd SESSION SESSION_KEY) (\<lambda>found_tabs.
           case found_tabs of
             Some v \<Rightarrow>
               and_then (decode_record tjson v) (\<lambda>tabs.
               let rec = \<lparr>sr_tabs = tabs, sr_active_index = 0, sr_tab_states = []\<rparr> in
               and_then (validate_session_record rec) (\<lambda>_. Ok rec))
           | None \<Rightarrow> Ok SessionRecord_default)))"

definition Store_load_session ::
    "('db, 'tx, 'rd, 'e) redb \<Rightarrow> (string list, 'e) serde \<Rightarrow> (SessionRecord, 'e) serde \<Rightarrow> 'db
     \<Rightarrow> (string list, 'e StoreError) result" where
  "Store_load_session lib tjson json db =
     and_then (Store_load_session_record lib tjson json db) (\<lambda>rec. Ok (sr_tabs rec))"

subsection \<open>Downloads\<close>

definition Store_put_download ::
    "('db, 'tx, 'rd, 'e) redb \<Rightarrow> (DownloadRecord, 'e) serde \<Rightarrow> 'db \<Rightarrow> DownloadRecord
     \<Rightarrow> 'db \<times> (unit, 'e StoreError) result" where
  "Store_put_download lib json db rec =
     try_in db (validate_download_record rec) (\<lambda>_.
     let key = to_be_bytes (dl_id rec) in
     try_in db (encode_record json rec) (\<lambda>val.
     in_write lib db
       (act_bind (open_table lib DOWNLOADS) (\<lambda>_.
        act_bind (table_insert lib DOWNLOADS key val) (\<lambda>_.
        act_bind (table_each lib DOWNLOADS (\<lambda>(k, v).
            and_then (decode_record json v) (\<lambda>d. Ok (Some (k, dl_started_unix d, dl_id d))))) (\<lambda>records.
        if MAX_DOWNLOAD_RECORDS < length records then
          (let sorted_records = sort_key (\<lambda>(k, started, i). (started, i)) records;
               remove_count = length records - MAX_DOWNLOAD_RECORDS
           in remove_each lib DOWNLOADS (map fst (take remove_count sorted_records)))
        else act_return ()))))))"

text \<open>\<open>sort_by\<close> with the comparison of \<open>b\<close> with \<open>a\<close>: a stable sort, newest first.\<close>

definition sort_newest_first :: "DownloadRecord list \<Rightarrow> DownloadRecord list" where
  "sort_newest_first ds = sort_key (\<lambda>d. (- dl_started_unix d, - int (unat (dl_id d)))) ds"

definition Store_downloads ::
    "('db, 'tx, 'rd, 'e) redb \<Rightarrow> (DownloadRecord, 'e) serde \<Rightarrow> 'db
     \<Rightarrow> (DownloadRecord list, 'e StoreError) result" where
  "Store_downloads lib json db =
     in_read lib db DOWNLOADS (\<lambda>rd.
       and_then (read_each lib rd DOWNLOADS (\<lambda>(k, v).
         and_then (decode_record json v) (\<lambda>d. Ok (Some d)))) (\<lambda>out.
       Ok (sort_newest_first out)))"

text \<open>The block that collects every key of a table and removes them.\<close>

definition clear_table :: "('db, 'tx, 'rd, 'e) redb \<Rightarrow> table \<Rightarrow> ('tx, unit, 'e) action" where
  "clear_table lib t =
     act_bind (open_table lib t) (\<lambda>_.
     act_bind (table_each lib t (\<lambda>(k, v). Ok (Some k))) (\<lambda>keys.
     remove_each lib t keys))"

definition Store_clear_downloads ::
    "('db, 'tx, 'rd, 'e) redb \<Rightarrow> 'db \<Rightarrow> 'db \<times> (unit, 'e StoreError) result" where
  "Store_clear_downloads lib db = in_write lib db (clear_table lib DOWNLOADS)"

definition clear_if :: "('db, 'tx, 'rd, 'e) redb \<Rightarrow> bool \<Rightarrow> table \<Rightarrow> ('tx, unit, 'e) action" where
  "clear_if lib b t = (if b then clear_table lib t else act_return ())"

definition Store_clear_profile_data ::
    "('db, 'tx, 'rd, 'e) redb \<Rightarrow> 'db \<Rightarrow> ClearDataSelection \<Rightarrow> 'db \<times> (unit, 'e StoreError) result" where
  "Store_clear_profile_data lib db selection =
     (if ClearDataSelection_is_empty selection then (db, Ok ())
      else in_write lib db
        (act_bind (clear_if lib (sel_cookies selection) COOKIES) (\<lambda>_.
         act_bind (if sel_fetch_cache selection
           then act_bind (clear_table lib FETCH_CACHE) (\<lambda>_. clear_table lib FETCH_CACHE_ALIASES)
           else act_return ()) (\<lambda>_.
         act_bind (clear_if lib (sel_history selection) HISTORY) (\<lambda>_.
         act_bind (clear_if lib (sel_session selection) SESSION) (\<lambda>_.
         act_bind (clear_if lib (sel_web_storage selection) WEB_STORAGE) (\<lambda>_.
         act_bind (clear_if lib (sel_downloads selection) DOWNLOADS) (\<lambda>_.
         act_bind (clear_if lib (sel_permissions selection) PERMISSIONS) (\<lambda>_.
         clear_if lib (sel_security_state selection) HSTS)))))))))"

subsection \<open>Security state\<close>

definition Store_put_hsts ::
    "('db, 'tx, 'rd, 'e) redb \<Rightarrow> (HstsRecord, 'e) serde \<Rightarrow> 'db \<Rightarrow> HstsRecord
     \<Rightarrow> 'db \<times> (unit, 'e StoreError) result" where
  "Store_put_hsts lib json db rec =
     try_in db (validate_hsts_record rec) (\<lambda>_.
     let key = hsts_key (hr_host rec) in
     try_in db (encode_record json rec) (\<lambda>val.
     in_write lib db
       (act_bind (open_table lib HSTS) (\<lambda>_. table_insert lib HSTS key val))))"

definition Store_hsts ::
    "('db, 'tx, 'rd, 'e) redb \<Rightarrow> (HstsRecord, 'e) serde \<Rightarrow> 'db \<Rightarrow> string
     \<Rightarrow> (HstsRecord option, 'e StoreError) result" where
  "Store_hsts lib json db host =
     and_then (validate_hsts_host host) (\<lambda>_.
     in_read lib db HSTS (\<lambda>rd.
       let key = hsts_key host in
       and_then (read_get lib rd HSTS key) (\<lambda>found.
       case found of
         Some v \<Rightarrow> and_then (decode_record json v) (\<lambda>r. Ok (Some r))
       | None \<Rightarrow> Ok None)))"

definition Store_delete_hsts ::
    "('db, 'tx, 'rd, 'e) redb \<Rightarrow> 'db \<Rightarrow> string \<Rightarrow> 'db \<times> (unit, 'e StoreError) result" where
  "Store_delete_hsts lib db host =
     try_in db (validate_hsts_host host) (\<lambda>_.
     in_write lib db
       (act_bind (open_table lib HSTS) (\<lambda>_. table_remove lib HSTS (hsts_key host))))"

subsection \<open>Permissions\<close>

definition Store_put_permission ::
    "('db, 'tx, 'rd, 'e) redb \<Rightarrow> (PermissionRecord, 'e) serde \<Rightarrow> 'db \<Rightarrow> PermissionRecord
     \<Rightarrow> 'db \<times> (unit, 'e StoreError) result" where
  "Store_put_permission lib json db rec =
     try_in db (validate_permission_record rec) (\<lambda>_.
     let key = namespaced_key (pr_origin_key rec) (pr_kind rec) in
     try_in db (encode_record json rec) (\<lambda>val.
     in_write lib db
       (act_bind (open_table lib PERMISSIONS) (\<lambda>_. table_insert lib PERMISSIONS key val))))"

definition Store_permission ::
    "('db, 'tx, 'rd, 'e) redb \<Rightarrow> (PermissionRecord, 'e) serde \<Rightarrow> 'db \<Rightarrow> string \<Rightarrow> string
     \<Rightarrow> (PermissionRecord option, 'e StoreError) result" where
  "Store_permission lib json db origin_key kind =
     and_then (validate_permission_text ''origin_key'' origin_key) (\<lambda>_.
     and_then (validate_permission_text ''kind'' kind) (\<lambda>_.
     in_read lib db PERMISSIONS (\<lambda>rd.
       let key = namespaced_key origin_key kind in
       and_then (read_get lib rd PERMISSIONS key) (\<lambda>found.
       case found of
         Some v \<Rightarrow> and_then (decode_record json v) (\<lambda>r. Ok (Some r))
       | None \<Rightarrow> Ok None))))"

definition Store_permissions_for ::
    "('db, 'tx, 'rd, 'e) redb \<Rightarrow> (PermissionRecord, 'e) serde \<Rightarrow> 'db \<Rightarrow> string
     \<Rightarrow> (PermissionRecord list, 'e StoreError) result" where
  "Store_permissions_for lib json db origin_key =
     and_then (validate_permission_text ''origin_key'' origin_key) (\<lambda>_.
     let pre = namespaced_prefix origin_key in
     in_read lib db PERMISSIONS (\<lambda>rd.
       and_then (read_each lib rd PERMISSIONS (\<lambda>(k, v).
         if str_starts_with k pre then and_then (decode_record json v) (\<lambda>r. Ok (Some r)) else Ok None)) (\<lambda>out.
       Ok (sort_key pr_kind out))))"

definition Store_clear_permissions ::
    "('db, 'tx, 'rd, 'e) redb \<Rightarrow> 'db \<Rightarrow> string \<Rightarrow> 'db \<times> (unit, 'e StoreError) result" where
  "Store_clear_permissions lib db origin_key =
     try_in db (validate_permission_text ''origin_key'' origin_key) (\<lambda>_.
     in_write lib db (clear_prefix lib PERMISSIONS (namespaced_prefix origin_key)))"

subsection \<open>Web Storage\<close>

text \<open>The sequence number is a \<open>u64\<close>: \<open>max_sequence + 1\<close> wraps in a release build.\<close>

definition next_web_storage_sequence ::
    "('db, 'tx, 'rd, 'e) redb \<Rightarrow> (WebStorageRecord, 'e) serde \<Rightarrow> string \<Rightarrow> ('tx, u64, 'e) action" where
  "next_web_storage_sequence lib json partition_key =
     (let pre = namespaced_prefix partition_key in
      act_bind (table_each lib WEB_STORAGE (\<lambda>(k, v).
        if \<not> str_starts_with k pre then Ok None
        else and_then (decode_record json v) (\<lambda>r. Ok (Some (ws_sequence r))))) (\<lambda>sequences.
      act_return (fold max sequences 0 + 1)))"

definition Store_put_storage_item ::
    "('db, 'tx, 'rd, 'e) redb \<Rightarrow> (WebStorageRecord, 'e) serde \<Rightarrow> 'db \<Rightarrow> string \<Rightarrow> string \<Rightarrow> string
     \<Rightarrow> 'db \<times> (unit, 'e StoreError) result" where
  "Store_put_storage_item lib json db partition_key key val =
     try_in db (validate_storage_input ''partition'' partition_key False) (\<lambda>_.
     try_in db (validate_storage_input ''key'' key False) (\<lambda>_.
     try_in db (validate_storage_input ''value'' val True) (\<lambda>_.
     let db_key = namespaced_key partition_key key in
     in_write lib db
       (act_bind (open_table lib WEB_STORAGE) (\<lambda>_.
        act_bind (table_get lib WEB_STORAGE db_key) (\<lambda>found.
        act_bind (case found of
            Some v \<Rightarrow> act_try (and_then (decode_record json v) (\<lambda>r. Ok (ws_sequence r)))
          | None \<Rightarrow> next_web_storage_sequence lib json partition_key) (\<lambda>seq.
        act_bind (act_try (encode_record json \<lparr>ws_value = val, ws_sequence = seq\<rparr>)) (\<lambda>v.
        table_insert lib WEB_STORAGE db_key v))))))))"

definition Store_get_storage_item ::
    "('db, 'tx, 'rd, 'e) redb \<Rightarrow> (WebStorageRecord, 'e) serde \<Rightarrow> 'db \<Rightarrow> string \<Rightarrow> string
     \<Rightarrow> (string option, 'e StoreError) result" where
  "Store_get_storage_item lib json db partition_key key =
     and_then (validate_storage_input ''partition'' partition_key False) (\<lambda>_.
     and_then (validate_storage_input ''key'' key False) (\<lambda>_.
     in_read lib db WEB_STORAGE (\<lambda>rd.
       let db_key = namespaced_key partition_key key in
       and_then (read_get lib rd WEB_STORAGE db_key) (\<lambda>found.
       case found of
         Some v \<Rightarrow> and_then (decode_record json v) (\<lambda>r. Ok (Some (ws_value r)))
       | None \<Rightarrow> Ok None))))"

definition Store_remove_storage_item ::
    "('db, 'tx, 'rd, 'e) redb \<Rightarrow> 'db \<Rightarrow> string \<Rightarrow> string \<Rightarrow> 'db \<times> (unit, 'e StoreError) result" where
  "Store_remove_storage_item lib db partition_key key =
     try_in db (validate_storage_input ''partition'' partition_key False) (\<lambda>_.
     try_in db (validate_storage_input ''key'' key False) (\<lambda>_.
     let db_key = namespaced_key partition_key key in
     in_write lib db
       (act_bind (open_table lib WEB_STORAGE) (\<lambda>_. table_remove lib WEB_STORAGE db_key))))"

definition Store_clear_storage_partition ::
    "('db, 'tx, 'rd, 'e) redb \<Rightarrow> 'db \<Rightarrow> string \<Rightarrow> 'db \<times> (unit, 'e StoreError) result" where
  "Store_clear_storage_partition lib db partition_key =
     try_in db (validate_storage_input ''partition'' partition_key False) (\<lambda>_.
     in_write lib db (clear_prefix lib WEB_STORAGE (namespaced_prefix partition_key)))"

definition Store_storage_entries ::
    "('db, 'tx, 'rd, 'e) redb \<Rightarrow> (WebStorageRecord, 'e) serde \<Rightarrow> 'db \<Rightarrow> string
     \<Rightarrow> ((string \<times> string) list, 'e StoreError) result" where
  "Store_storage_entries lib json db partition_key =
     and_then (validate_storage_input ''partition'' partition_key False) (\<lambda>_.
     let pre = namespaced_prefix partition_key in
     in_read lib db WEB_STORAGE (\<lambda>rd.
       and_then (read_each lib rd WEB_STORAGE (\<lambda>(k, v).
         case strip_prefix k pre of
           None \<Rightarrow> Ok None
         | Some raw_key \<Rightarrow>
             and_then (decode_record json v) (\<lambda>rec.
             and_then (if utf8_valid raw_key then Ok raw_key else Err Utf8) (\<lambda>key.
             Ok (Some (ws_sequence rec, key, ws_value rec)))))) (\<lambda>out.
       Ok (map (\<lambda>(seq, key, val). (key, val)) (sort_key fst out)))))"

end
