(* ===== verification/Profile_Effects.thy ===== *)
theory Profile_Effects
  imports Profile_Store
begin

section \<open>What the operations do to the tables\<close>

text \<open>
  For every writing operation of \<open>Store\<close>, the change of the tables when it returns \<open>Ok\<close>; an operation that
  returns an error, other than that of a failed commit, changes nothing (\<open>writes\<close>). For every read, what
  it returns in terms of the tables. The proofs apply the rules of \<open>performs\<close> to the code.
\<close>

definition writes ::
    "('db, 'tx, 'rd) redb_view \<Rightarrow> 'db \<Rightarrow> 'db \<times> (unit, 'e StoreError) result
     \<Rightarrow> (tables \<Rightarrow> tables \<Rightarrow> bool) \<Rightarrow> bool" where
  "writes vw db out Q \<longleftrightarrow>
     (snd out = Ok () \<longrightarrow> Q (contents vw db) (contents vw (fst out)))
   \<and> (snd out \<noteq> Ok () \<longrightarrow> \<not> commit_failed (snd out) \<longrightarrow> contents vw (fst out) = contents vw db)"

lemma writes_in_write:
  assumes "redb_laws lib vw" and "performs vw body Q" and "\<And>s s'. Q s () s' \<Longrightarrow> R s s'"
  shows "writes vw db (in_write lib db body) R"
proof -
  obtain db' r where run: "in_write lib db body = (db', r)" by force
  from in_write_effect [OF assms(1,2) run] assms(3) show ?thesis
    by (cases r) (auto simp: writes_def run)
qed

lemma writes_try_in: "(\<And>x. r = Ok x \<Longrightarrow> writes vw db (k x) Q) \<Longrightarrow> writes vw db (try_in db r k) Q"
  by (cases r) (auto simp: writes_def)

lemma encode_record_Ok [result_simps]: "encode_record json x = Ok b \<longleftrightarrow> to_vec json x = Ok b"
  by (simp add: encode_record_def result_simps)

lemma decode_record_Ok [result_simps]: "decode_record json b = Ok x \<longleftrightarrow> from_slice json b = Ok x"
  by (simp add: decode_record_def result_simps)

text \<open>Replacing one table.\<close>

definition replaces :: "table \<Rightarrow> (key_values \<Rightarrow> key_values \<Rightarrow> bool) \<Rightarrow> tables \<Rightarrow> tables \<Rightarrow> bool" where
  "replaces t R s s' \<longleftrightarrow> R (s t) (s' t) \<and> (\<forall>u. u \<noteq> t \<longrightarrow> s' u = s u)"

lemma replacesI: "s' = s(t := m) \<Longrightarrow> R (s t) m \<Longrightarrow> replaces t R s s'"
  by (simp add: replaces_def)

lemma put_cookie_effect:
  assumes "redb_laws lib vw"
  shows "writes vw db (Store_put_cookie lib json db origin rec)
    (replaces COOKIES (\<lambda>m m'. \<exists>b. to_vec json rec = Ok b
       \<and> m' = bt_insert (namespaced_key origin (cr_name rec)) b m))"
  unfolding Store_put_cookie_def Let_def
  by (intro writes_try_in, rule writes_in_write [OF assms], (rule performs_rules assms)+)
    (auto simp: result_simps intro: replacesI)

lemma delete_cookie_effect:
  assumes "redb_laws lib vw"
  shows "writes vw db (Store_delete_cookie lib db origin name)
    (replaces COOKIES (\<lambda>m m'. m' = bt_remove (namespaced_key origin name) m))"
  unfolding Store_delete_cookie_def Let_def
  by (rule writes_in_write [OF assms], (rule performs_rules assms)+) (auto intro: replacesI)

text \<open>Removing what a prefix or a whole table holds.\<close>

definition without_prefix :: "bytes \<Rightarrow> key_values \<Rightarrow> key_values" where
  "without_prefix pre m = filter (\<lambda>e. \<not> str_starts_with (fst e) pre) m"

lemma picks_keys:
  "picks (\<lambda>(k, v). Ok (if P k then Some k else None)) m ks \<Longrightarrow>
     bt_remove_keys ks m = filter (\<lambda>e. \<not> P (fst e)) m"
  by (auto simp: picks_def bt_remove_keys_def List.map_filter_def comp_def split_beta
      intro!: filter_cong split: if_splits)

lemma performs_clear_prefix [performs_rules]:
  assumes "redb_laws lib vw"
  shows "performs vw (clear_prefix lib t pre) (\<lambda>s a s'. s' = s(t := without_prefix pre (s t)))"
  unfolding clear_prefix_def
  by (rule performs_mono, (rule performs_rules assms)+) (auto simp: without_prefix_def dest: picks_keys)

lemma performs_clear_table [performs_rules]:
  assumes "redb_laws lib vw"
  shows "performs vw (clear_table lib t) (\<lambda>s a s'. s' = s(t := []))"
  unfolding clear_table_def
  by (rule performs_mono, (rule performs_rules assms)+)
    (auto simp: picks_keys [where P = "\<lambda>_. True", simplified])

lemma clear_cookies_effect:
  assumes "redb_laws lib vw"
  shows "writes vw db (Store_clear_cookies lib db origin)
    (replaces COOKIES (\<lambda>m m'. m' = without_prefix (namespaced_prefix origin) m))"
  unfolding Store_clear_cookies_def
  by (rule writes_in_write [OF assms], (rule performs_rules assms)+) (auto intro: replacesI)

subsection \<open>Bounded tables\<close>

text \<open>The keys removed from a table with more than \<open>n\<close> records: the first in the order of \<open>rank\<close>.\<close>

definition evicted :: "(bytes \<times> 'r \<Rightarrow> 'o::linorder) \<Rightarrow> usize \<Rightarrow> (bytes \<times> 'r) list \<Rightarrow> bytes list" where
  "evicted rank n records = map fst (take (length records - n) (sort_key rank records))"

lemma no_eviction: "\<not> n < length records \<Longrightarrow> bt_remove_keys (evicted rank n records) m = m"
  by (simp add: evicted_def bt_remove_keys_def)

definition read_records :: "('a, 'e) serde \<Rightarrow> ('a \<Rightarrow> 'r) \<Rightarrow> key_values \<Rightarrow> (bytes \<times> 'r) list \<Rightarrow> bool" where
  "read_records json f m records \<longleftrightarrow>
     list_all2 (\<lambda>kv r. fst r = fst kv \<and> (\<exists>x. from_slice json (snd kv) = Ok x \<and> snd r = f x)) m records"

lemma picks_records:
  "picks (\<lambda>(k, v). and_then (decode_record json v) (\<lambda>x. Ok (Some (k, f x)))) m records \<Longrightarrow>
     read_records json f m records"
proof (induction m arbitrary: records)
  case Nil
  then show ?case by (simp add: picks_def read_records_def)
next
  case (Cons kv m)
  let ?f = "\<lambda>(k, v). and_then (decode_record json v) (\<lambda>x. Ok (Some (k, f x)))"
  from Cons.prems have "is_ok (?f kv)" by (simp add: picks_def)
  then obtain x where x: "from_slice json (snd kv) = Ok x" "?f kv = Ok (Some (fst kv, f x))"
    by (auto simp: is_ok_iff result_simps split_beta)
  with Cons.prems obtain rs where "records = (fst kv, f x) # rs" "picks ?f m rs"
    by (simp add: picks_def)
  with Cons.IH x(1) show ?case by (simp add: read_records_def)
qed

lemma performs_evict:
  assumes "redb_laws lib vw"
  shows "performs vw
      (act_bind (table_each lib t (\<lambda>(k, v). and_then (decode_record json v) (\<lambda>x. Ok (Some (k, f x)))))
        (\<lambda>records. if n < length records
           then remove_each lib t (map fst (take (length records - n) (sort_key rank records)))
           else act_return ()))
    (\<lambda>s a s'. \<exists>records. read_records json f (s t) records
       \<and> s' = s(t := bt_remove_keys (evicted rank n records) (s t)))"
  by (rule performs_mono, (rule performs_rules assms)+)
    (auto dest!: picks_records simp: evicted_def [symmetric] split: if_splits,
      metis fun_upd_triv no_eviction)

lemma put_cache_effect:
  assumes "redb_laws lib vw"
  shows "writes vw db (Store_put_cache lib json vjson db origin url entry)
    (replaces FETCH_CACHE (\<lambda>m m'. \<exists>key b records. fetch_cache_variant_key vjson origin url entry = Ok key
       \<and> to_vec json entry = Ok b
       \<and> read_records json ce_fetched_unix (bt_insert key b (bt_remove (namespaced_key origin url) m)) records
       \<and> m' = bt_remove_keys (evicted (\<lambda>(k, fetched). (fetched, k)) MAX_FETCH_CACHE_RECORDS records)
           (bt_insert key b (bt_remove (namespaced_key origin url) m))))"
  unfolding Store_put_cache_def Let_def
  by (intro writes_try_in, rule writes_in_write [OF assms], (rule performs_evict performs_rules assms)+)
    (auto simp: result_simps intro!: replacesI)

lemma put_cache_alias_effect:
  assumes "redb_laws (lib :: ('db, 'tx, 'rd, 'e) redb) vw"
  shows "writes vw db (Store_put_cache_alias lib json db origin url al)
    (replaces FETCH_CACHE_ALIASES (\<lambda>m m'. \<exists>b records.
       validate_cache_alias url al = (Ok () :: (unit, 'e StoreError) result) \<and> to_vec json al = Ok b
       \<and> read_records json ca_fetched_unix (bt_insert (namespaced_key origin url) b m) records
       \<and> m' = bt_remove_keys (evicted (\<lambda>(k, fetched). (fetched, k)) MAX_FETCH_CACHE_ALIASES records)
           (bt_insert (namespaced_key origin url) b m)))"
  unfolding Store_put_cache_alias_def Let_def
  by (intro writes_try_in, rule writes_in_write [OF assms], (rule performs_evict performs_rules assms)+)
    (auto simp: result_simps intro!: replacesI)

lemma put_download_effect:
  assumes "redb_laws (lib :: ('db, 'tx, 'rd, 'e) redb) vw"
  shows "writes vw db (Store_put_download lib json db rec)
    (replaces DOWNLOADS (\<lambda>m m'. \<exists>b records.
       validate_download_record rec = (Ok () :: (unit, 'e StoreError) result) \<and> to_vec json rec = Ok b
       \<and> read_records json (\<lambda>d. (dl_started_unix d, dl_id d)) (bt_insert (to_be_bytes (dl_id rec)) b m) records
       \<and> m' = bt_remove_keys (evicted (\<lambda>(k, started, i). (started, i)) MAX_DOWNLOAD_RECORDS records)
           (bt_insert (to_be_bytes (dl_id rec)) b m)))"
  unfolding Store_put_download_def Let_def
  by (intro writes_try_in, rule writes_in_write [OF assms], (rule performs_evict performs_rules assms)+)
    (auto simp: result_simps intro!: replacesI)

lemma delete_cache_alias_effect:
  assumes "redb_laws lib vw"
  shows "writes vw db (Store_delete_cache_alias lib db origin url)
    (replaces FETCH_CACHE_ALIASES (\<lambda>m m'. m' = bt_remove (namespaced_key origin url) m))"
  unfolding Store_delete_cache_alias_def Let_def
  by (rule writes_in_write [OF assms], (rule performs_rules assms)+) (auto intro: replacesI)

subsection \<open>The other tables\<close>

lemma record_visit_effect:
  assumes "redb_laws lib vw"
  shows "writes vw db (Store_record_visit lib json db origin url ts)
    (replaces HISTORY (\<lambda>m m'. \<exists>visits b.
       (case bt_get m (namespaced_key origin url) of
          None \<Rightarrow> visits = [] | Some v \<Rightarrow> from_slice json v = Ok visits)
       \<and> to_vec json (visits @ [ts]) = Ok b \<and> m' = bt_insert (namespaced_key origin url) b m))"
  unfolding Store_record_visit_def Let_def
  by (rule writes_in_write [OF assms], (rule performs_rules assms)+)
    (fastforce simp: result_simps replaces_def split: option.splits)

lemma save_session_record_effect:
  assumes "redb_laws (lib :: ('db, 'tx, 'rd, 'e) redb) vw"
  shows "writes vw db (Store_save_session_record lib tjson json db rec)
    (replaces SESSION (\<lambda>m m'. \<exists>b rb. validate_session_record rec = (Ok () :: (unit, 'e StoreError) result)
       \<and> to_vec tjson (sr_tabs rec) = Ok b \<and> to_vec json rec = Ok rb
       \<and> m' = bt_insert SESSION_RECORD_KEY rb (bt_insert SESSION_KEY b m)))"
  unfolding Store_save_session_record_def
  by (intro writes_try_in, rule writes_in_write [OF assms], (rule performs_rules assms)+)
    (auto simp: result_simps replaces_def)

lemma clear_downloads_effect:
  assumes "redb_laws lib vw"
  shows "writes vw db (Store_clear_downloads lib db) (replaces DOWNLOADS (\<lambda>m m'. m' = []))"
  unfolding Store_clear_downloads_def
  by (rule writes_in_write [OF assms], (rule performs_rules assms)+) (auto intro: replacesI)

primrec selected :: "ClearDataSelection \<Rightarrow> table \<Rightarrow> bool" where
  "selected sel COOKIES = sel_cookies sel"
| "selected sel FETCH_CACHE = sel_fetch_cache sel"
| "selected sel FETCH_CACHE_ALIASES = sel_fetch_cache sel"
| "selected sel HISTORY = sel_history sel"
| "selected sel SESSION = sel_session sel"
| "selected sel WEB_STORAGE = sel_web_storage sel"
| "selected sel DOWNLOADS = sel_downloads sel"
| "selected sel PERMISSIONS = sel_permissions sel"
| "selected sel HSTS = sel_security_state sel"

lemma all_tables:
  "(\<forall>t. P t) \<longleftrightarrow> P COOKIES \<and> P FETCH_CACHE \<and> P FETCH_CACHE_ALIASES \<and> P HISTORY \<and> P SESSION
     \<and> P WEB_STORAGE \<and> P DOWNLOADS \<and> P PERMISSIONS \<and> P HSTS"
  by (metis table.exhaust)

lemma clear_profile_data_effect:
  assumes "redb_laws lib vw"
  shows "writes vw db (Store_clear_profile_data lib db sel)
    (\<lambda>s s'. s' = (\<lambda>t. if selected sel t then [] else s t))"
proof (cases "ClearDataSelection_is_empty sel")
  case True
  then have "\<not> selected sel t" for t by (cases t) (simp_all add: ClearDataSelection_is_empty_def)
  with True show ?thesis by (simp add: Store_clear_profile_data_def writes_def)
next
  case False
  have clear: "performs vw (clear_if lib b t) (\<lambda>s a s'. s' = (\<lambda>u. if b \<and> u = t then [] else s u))" for b t
    unfolding clear_if_def by (rule performs_mono, (rule performs_rules assms)+) (auto split: if_splits)
  have caches: "performs vw (if b then act_bind (clear_table lib FETCH_CACHE)
        (\<lambda>_. clear_table lib FETCH_CACHE_ALIASES) else act_return ())
      (\<lambda>s a s'. s' = (\<lambda>u. if b \<and> u \<in> {FETCH_CACHE, FETCH_CACHE_ALIASES} then [] else s u))" for b
    by (rule performs_mono, (rule performs_rules assms)+) (auto split: if_splits)
  show ?thesis
    unfolding Store_clear_profile_data_def
    by (simp only: False if_False, rule writes_in_write [OF assms], (rule clear caches performs_rules assms)+)
      (clarsimp simp: fun_eq_iff all_tables)
qed

lemma put_hsts_effect:
  assumes "redb_laws (lib :: ('db, 'tx, 'rd, 'e) redb) vw"
  shows "writes vw db (Store_put_hsts lib json db rec)
    (replaces HSTS (\<lambda>m m'. \<exists>b. validate_hsts_record rec = (Ok () :: (unit, 'e StoreError) result)
       \<and> to_vec json rec = Ok b \<and> m' = bt_insert (hsts_key (hr_host rec)) b m))"
  unfolding Store_put_hsts_def Let_def
  by (intro writes_try_in, rule writes_in_write [OF assms], (rule performs_rules assms)+)
    (auto simp: result_simps intro: replacesI)

lemma delete_hsts_effect:
  assumes "redb_laws lib vw"
  shows "writes vw db (Store_delete_hsts lib db host)
    (replaces HSTS (\<lambda>m m'. m' = bt_remove (hsts_key host) m))"
  unfolding Store_delete_hsts_def
  by (intro writes_try_in, rule writes_in_write [OF assms], (rule performs_rules assms)+)
    (auto intro: replacesI)

lemma validate_permission_text_Ok [result_simps]:
  "validate_permission_text field val = Ok u \<longleftrightarrow> val \<noteq> [] \<and> NUL \<notin> set val"
  by (auto simp: validate_permission_text_def)

lemma put_permission_effect:
  assumes "redb_laws (lib :: ('db, 'tx, 'rd, 'e) redb) vw"
  shows "writes vw db (Store_put_permission lib json db rec)
    (replaces PERMISSIONS (\<lambda>m m'. \<exists>b. validate_permission_record rec = (Ok () :: (unit, 'e StoreError) result)
       \<and> to_vec json rec = Ok b \<and> m' = bt_insert (namespaced_key (pr_origin_key rec) (pr_kind rec)) b m))"
  unfolding Store_put_permission_def Let_def
  by (intro writes_try_in, rule writes_in_write [OF assms], (rule performs_rules assms)+)
    (auto simp: result_simps intro: replacesI)

lemma clear_permissions_effect:
  assumes "redb_laws lib vw"
  shows "writes vw db (Store_clear_permissions lib db origin)
    (replaces PERMISSIONS (\<lambda>m m'. NUL \<notin> set origin \<and> m' = without_prefix (namespaced_prefix origin) m))"
  unfolding Store_clear_permissions_def
  by (intro writes_try_in, rule writes_in_write [OF assms], (rule performs_rules assms)+)
    (auto simp: result_simps intro: replacesI)

lemma validate_storage_input_Ok [result_simps]:
  "validate_storage_input field val allow_empty = Ok u \<longleftrightarrow> (allow_empty \<or> val \<noteq> []) \<and> NUL \<notin> set val"
  by (auto simp: validate_storage_input_def)

text \<open>The number a new item of a partition gets.\<close>

definition next_sequence :: "(WebStorageRecord, 'e) serde \<Rightarrow> key_values \<Rightarrow> string \<Rightarrow> u64 \<Rightarrow> bool" where
  "next_sequence json m pkey seq \<longleftrightarrow>
     (\<exists>sequences. picks (\<lambda>(k, v). if \<not> str_starts_with k (namespaced_prefix pkey) then Ok None
        else and_then (decode_record json v) (\<lambda>r. Ok (Some (ws_sequence r)))) m sequences
      \<and> seq = fold max sequences 0 + 1)"

lemma performs_next_sequence:
  assumes "redb_laws lib vw"
  shows "performs vw (next_web_storage_sequence lib json pkey)
    (\<lambda>s seq s'. s' = s \<and> next_sequence json (s WEB_STORAGE) pkey seq)"
  unfolding next_web_storage_sequence_def Let_def next_sequence_def
  by (rule performs_mono, (rule performs_rules assms)+) auto

lemma put_storage_item_effect:
  assumes "redb_laws lib vw"
  shows "writes vw db (Store_put_storage_item lib json db pkey key val)
    (replaces WEB_STORAGE (\<lambda>m m'. \<exists>seq b. pkey \<noteq> [] \<and> NUL \<notin> set pkey \<and> key \<noteq> [] \<and> NUL \<notin> set key
       \<and> (case bt_get m (namespaced_key pkey key) of
            None \<Rightarrow> next_sequence json m pkey seq
          | Some v \<Rightarrow> \<exists>r. from_slice json v = Ok r \<and> ws_sequence r = seq)
       \<and> to_vec json \<lparr>ws_value = val, ws_sequence = seq\<rparr> = Ok b
       \<and> m' = bt_insert (namespaced_key pkey key) b m))"
  unfolding Store_put_storage_item_def Let_def
  by (intro writes_try_in, rule writes_in_write [OF assms],
      (rule performs_next_sequence performs_rules assms)+)
    (fastforce simp: result_simps replaces_def split: option.splits)

lemma remove_storage_item_effect:
  assumes "redb_laws lib vw"
  shows "writes vw db (Store_remove_storage_item lib db pkey key)
    (replaces WEB_STORAGE (\<lambda>m m'. NUL \<notin> set pkey \<and> m' = bt_remove (namespaced_key pkey key) m))"
  unfolding Store_remove_storage_item_def Let_def
  by (intro writes_try_in, rule writes_in_write [OF assms], (rule performs_rules assms)+)
    (auto simp: result_simps intro: replacesI)

lemma clear_storage_partition_effect:
  assumes "redb_laws lib vw"
  shows "writes vw db (Store_clear_storage_partition lib db pkey)
    (replaces WEB_STORAGE (\<lambda>m m'. NUL \<notin> set pkey \<and> m' = without_prefix (namespaced_prefix pkey) m))"
  unfolding Store_clear_storage_partition_def
  by (intro writes_try_in, rule writes_in_write [OF assms], (rule performs_rules assms)+)
    (auto simp: result_simps intro: replacesI)

end
