(* ===== verification/Profile_Spec.thy ===== *)
theory Profile_Spec
  imports Profile_Effects
begin

section \<open>What a profile promises\<close>

text \<open>
  The abstract view of the store: maps from an origin and a name to a record, visits in order, the
  session, downloads newest first, and for each partition of Web Storage its items in the order of their
  insertion. \<open>profile_of\<close> reads it off the tables; \<open>profile_step\<close> is the effect of an operation that
  succeeded. The operations are collected in \<open>store_op\<close>.
\<close>

record 'e codecs =
  cookie_json :: "(CookieRecord, 'e) serde"
  entry_json :: "(CacheEntry, 'e) serde"
  vary_json :: "((string \<times> string option) list, 'e) serde"
  alias_json :: "(CacheAlias, 'e) serde"
  visits_json :: "(int list, 'e) serde"
  tabs_json :: "(string list, 'e) serde"
  session_json :: "(SessionRecord, 'e) serde"
  download_json :: "(DownloadRecord, 'e) serde"
  hsts_json :: "(HstsRecord, 'e) serde"
  permission_json :: "(PermissionRecord, 'e) serde"
  storage_json :: "(WebStorageRecord, 'e) serde"

text \<open>What is written can be read.\<close>

definition serde_ok :: "('a, 'e) serde \<Rightarrow> bool" where
  "serde_ok json \<longleftrightarrow> (\<forall>x b. to_vec json x = Ok b \<longrightarrow> from_slice json b = Ok x)"

definition codecs_ok :: "'e codecs \<Rightarrow> bool" where
  "codecs_ok js \<longleftrightarrow> serde_ok (cookie_json js) \<and> serde_ok (entry_json js) \<and> serde_ok (alias_json js)
     \<and> serde_ok (visits_json js) \<and> serde_ok (session_json js) \<and> serde_ok (download_json js)
     \<and> serde_ok (hsts_json js) \<and> serde_ok (permission_json js) \<and> serde_ok (storage_json js)"

subsection \<open>Operations\<close>

datatype store_op =
    PutCookie string CookieRecord
  | DeleteCookie string string
  | ClearCookies string
  | PutCache string string CacheEntry
  | PutAlias string string CacheAlias
  | DeleteAlias string string
  | RecordVisit string string int
  | SaveSession SessionRecord
  | PutDownload DownloadRecord
  | ClearDownloads
  | ClearProfile ClearDataSelection
  | PutHsts HstsRecord
  | DeleteHsts string
  | PutPermission PermissionRecord
  | ClearPermissions string
  | PutItem string string string
  | RemoveItem string string
  | ClearPartition string

primrec store_step ::
    "('db, 'tx, 'rd, 'e) redb \<Rightarrow> 'e codecs \<Rightarrow> 'db \<Rightarrow> store_op \<Rightarrow> 'db \<times> (unit, 'e StoreError) result" where
  "store_step lib js db (PutCookie origin rec) = Store_put_cookie lib (cookie_json js) db origin rec"
| "store_step lib js db (DeleteCookie origin name) = Store_delete_cookie lib db origin name"
| "store_step lib js db (ClearCookies origin) = Store_clear_cookies lib db origin"
| "store_step lib js db (PutCache origin url entry) =
     Store_put_cache lib (entry_json js) (vary_json js) db origin url entry"
| "store_step lib js db (PutAlias origin url al) = Store_put_cache_alias lib (alias_json js) db origin url al"
| "store_step lib js db (DeleteAlias origin url) = Store_delete_cache_alias lib db origin url"
| "store_step lib js db (RecordVisit origin url ts) = Store_record_visit lib (visits_json js) db origin url ts"
| "store_step lib js db (SaveSession rec) =
     Store_save_session_record lib (tabs_json js) (session_json js) db rec"
| "store_step lib js db (PutDownload rec) = Store_put_download lib (download_json js) db rec"
| "store_step lib js db ClearDownloads = Store_clear_downloads lib db"
| "store_step lib js db (ClearProfile sel) = Store_clear_profile_data lib db sel"
| "store_step lib js db (PutHsts rec) = Store_put_hsts lib (hsts_json js) db rec"
| "store_step lib js db (DeleteHsts host) = Store_delete_hsts lib db host"
| "store_step lib js db (PutPermission rec) = Store_put_permission lib (permission_json js) db rec"
| "store_step lib js db (ClearPermissions origin) = Store_clear_permissions lib db origin"
| "store_step lib js db (PutItem pkey key val) = Store_put_storage_item lib (storage_json js) db pkey key val"
| "store_step lib js db (RemoveItem pkey key) = Store_remove_storage_item lib db pkey key"
| "store_step lib js db (ClearPartition pkey) = Store_clear_storage_partition lib db pkey"

text \<open>Origin keys are partition keys of origins, which contain no NUL; the operations on cookies, the
  cache and the history do not check it. Strings are valid UTF-8.\<close>

definition op_ok :: "store_op \<Rightarrow> bool" where
  "op_ok op =
     (case op of
        PutCookie origin _ \<Rightarrow> NUL \<notin> set origin
      | DeleteCookie origin _ \<Rightarrow> NUL \<notin> set origin
      | ClearCookies origin \<Rightarrow> NUL \<notin> set origin
      | RecordVisit origin _ _ \<Rightarrow> NUL \<notin> set origin
      | PutItem _ key _ \<Rightarrow> utf8_valid key
      | _ \<Rightarrow> True)"

definition is_put_item :: "store_op \<Rightarrow> bool" where
  "is_put_item op = (case op of PutItem _ _ _ \<Rightarrow> True | _ \<Rightarrow> False)"

subsection \<open>The profile\<close>

record profile =
  pf_cookies :: "string \<Rightarrow> string \<Rightarrow> CookieRecord option"
  pf_visits :: "string \<Rightarrow> string \<Rightarrow> int list"
  pf_session :: SessionRecord
  pf_downloads :: "DownloadRecord list"
  pf_hsts :: "string \<Rightarrow> HstsRecord option"
  pf_permissions :: "string \<Rightarrow> string \<Rightarrow> PermissionRecord option"
  pf_storage :: "string \<Rightarrow> (string \<times> string) list"

definition empty_profile :: profile where
  "empty_profile = \<lparr>pf_cookies = \<lambda>_ _. None, pf_visits = \<lambda>_ _. [], pf_session = SessionRecord_default,
     pf_downloads = [], pf_hsts = \<lambda>_. None, pf_permissions = \<lambda>_ _. None, pf_storage = \<lambda>_. []\<rparr>"

text \<open>Setting an item of an ordered map: in place, or at the end.\<close>

definition set_item :: "'k \<Rightarrow> 'v \<Rightarrow> ('k \<times> 'v) list \<Rightarrow> ('k \<times> 'v) list" where
  "set_item k v xs =
     (if k \<in> fst ` set xs then map (\<lambda>(k', v'). (k', if k' = k then v else v')) xs else xs @ [(k, v)])"

definition at2 :: "('a \<Rightarrow> 'b \<Rightarrow> 'c) \<Rightarrow> 'a \<Rightarrow> 'b \<Rightarrow> 'c \<Rightarrow> 'a \<Rightarrow> 'b \<Rightarrow> 'c" where
  "at2 f a b c = f(a := (f a)(b := c))"

primrec profile_step :: "profile \<Rightarrow> store_op \<Rightarrow> profile" where
  "profile_step P (PutCookie origin rec) =
     P\<lparr>pf_cookies := at2 (pf_cookies P) origin (cr_name rec) (Some rec)\<rparr>"
| "profile_step P (DeleteCookie origin name) = P\<lparr>pf_cookies := at2 (pf_cookies P) origin name None\<rparr>"
| "profile_step P (ClearCookies origin) = P\<lparr>pf_cookies := (pf_cookies P)(origin := \<lambda>_. None)\<rparr>"
| "profile_step P (PutCache origin url entry) = P"
| "profile_step P (PutAlias origin url al) = P"
| "profile_step P (DeleteAlias origin url) = P"
| "profile_step P (RecordVisit origin url ts) =
     P\<lparr>pf_visits := at2 (pf_visits P) origin url (pf_visits P origin url @ [ts])\<rparr>"
| "profile_step P (SaveSession rec) = P\<lparr>pf_session := rec\<rparr>"
| "profile_step P (PutDownload rec) =
     P\<lparr>pf_downloads := take MAX_DOWNLOAD_RECORDS
        (sort_newest_first (rec # filter (\<lambda>d. dl_id d \<noteq> dl_id rec) (pf_downloads P)))\<rparr>"
| "profile_step P ClearDownloads = P\<lparr>pf_downloads := []\<rparr>"
| "profile_step P (ClearProfile sel) =
     \<lparr>pf_cookies = (if sel_cookies sel then pf_cookies empty_profile else pf_cookies P),
      pf_visits = (if sel_history sel then pf_visits empty_profile else pf_visits P),
      pf_session = (if sel_session sel then pf_session empty_profile else pf_session P),
      pf_downloads = (if sel_downloads sel then pf_downloads empty_profile else pf_downloads P),
      pf_hsts = (if sel_security_state sel then pf_hsts empty_profile else pf_hsts P),
      pf_permissions = (if sel_permissions sel then pf_permissions empty_profile else pf_permissions P),
      pf_storage = (if sel_web_storage sel then pf_storage empty_profile else pf_storage P)\<rparr>"
| "profile_step P (PutHsts rec) = P\<lparr>pf_hsts := (pf_hsts P)(to_ascii_lowercase (hr_host rec) := Some rec)\<rparr>"
| "profile_step P (DeleteHsts host) = P\<lparr>pf_hsts := (pf_hsts P)(to_ascii_lowercase host := None)\<rparr>"
| "profile_step P (PutPermission rec) =
     P\<lparr>pf_permissions := at2 (pf_permissions P) (pr_origin_key rec) (pr_kind rec) (Some rec)\<rparr>"
| "profile_step P (ClearPermissions origin) =
     P\<lparr>pf_permissions := (pf_permissions P)(origin := \<lambda>_. None)\<rparr>"
| "profile_step P (PutItem pkey key val) =
     P\<lparr>pf_storage := (pf_storage P)(pkey := set_item key val (pf_storage P pkey))\<rparr>"
| "profile_step P (RemoveItem pkey key) =
     P\<lparr>pf_storage := (pf_storage P)(pkey := filter (\<lambda>e. fst e \<noteq> key) (pf_storage P pkey))\<rparr>"
| "profile_step P (ClearPartition pkey) = P\<lparr>pf_storage := (pf_storage P)(pkey := [])\<rparr>"

subsection \<open>Reading it off the tables\<close>

definition stored :: "('a, 'e) serde \<Rightarrow> key_values \<Rightarrow> bytes \<Rightarrow> 'a option" where
  "stored json m k =
     (case bt_get m k of
        None \<Rightarrow> None
      | Some b \<Rightarrow> (case from_slice json b of Ok x \<Rightarrow> Some x | Err _ \<Rightarrow> None))"

definition stored_at :: "('a, 'e) serde \<Rightarrow> key_values \<Rightarrow> string \<Rightarrow> string \<Rightarrow> 'a option" where
  "stored_at json m origin name =
     (if NUL \<in> set origin then None else stored json m (namespaced_key origin name))"

definition storage_item :: "(WebStorageRecord, 'e) serde \<Rightarrow> string \<Rightarrow> bytes \<times> bytes \<Rightarrow> (u64 \<times> string \<times> string) option" where
  "storage_item json pkey kv =
     (case strip_prefix (fst kv) (namespaced_prefix pkey) of
        None \<Rightarrow> None
      | Some raw \<Rightarrow> (case from_slice json (snd kv) of
            Ok r \<Rightarrow> Some (ws_sequence r, raw, ws_value r) | Err _ \<Rightarrow> None))"

definition storage_items :: "(WebStorageRecord, 'e) serde \<Rightarrow> key_values \<Rightarrow> string \<Rightarrow> (u64 \<times> string \<times> string) list" where
  "storage_items json m pkey = List.map_filter (storage_item json pkey) m"

definition storage_list :: "(WebStorageRecord, 'e) serde \<Rightarrow> key_values \<Rightarrow> string \<Rightarrow> (string \<times> string) list" where
  "storage_list json m pkey =
     (if NUL \<in> set pkey then [] else map snd (sort_key fst (storage_items json m pkey)))"

definition download_values :: "(DownloadRecord, 'e) serde \<Rightarrow> key_values \<Rightarrow> DownloadRecord list" where
  "download_values json m = List.map_filter (\<lambda>(k, b).
     case from_slice json b of Ok d \<Rightarrow> Some d | Err _ \<Rightarrow> None) m"

definition session_value :: "(string list, 'e) serde \<Rightarrow> (SessionRecord, 'e) serde \<Rightarrow> key_values \<Rightarrow> SessionRecord" where
  "session_value tjson json m =
     (case stored json m SESSION_RECORD_KEY of
        Some rec \<Rightarrow> rec
      | None \<Rightarrow> (case stored tjson m SESSION_KEY of
          Some tabs \<Rightarrow> \<lparr>sr_tabs = tabs, sr_active_index = 0, sr_tab_states = []\<rparr>
        | None \<Rightarrow> SessionRecord_default))"

definition profile_of :: "'e codecs \<Rightarrow> tables \<Rightarrow> profile" where
  "profile_of js s =
     \<lparr>pf_cookies = stored_at (cookie_json js) (s COOKIES),
      pf_visits = (\<lambda>origin url. case stored_at (visits_json js) (s HISTORY) origin url of
          None \<Rightarrow> [] | Some visits \<Rightarrow> visits),
      pf_session = session_value (tabs_json js) (session_json js) (s SESSION),
      pf_downloads = sort_newest_first (download_values (download_json js) (s DOWNLOADS)),
      pf_hsts = stored (hsts_json js) (s HSTS),
      pf_permissions = stored_at (permission_json js) (s PERMISSIONS),
      pf_storage = storage_list (storage_json js) (s WEB_STORAGE)\<rparr>"

text \<open>What the tables keep to: downloads are stored under their number, and the items of a partition
  have different sequence numbers, at most \<open>n\<close>.\<close>

definition downloads_ok :: "(DownloadRecord, 'e) serde \<Rightarrow> key_values \<Rightarrow> bool" where
  "downloads_ok json m \<longleftrightarrow> (\<forall>k d. stored json m k = Some d \<longrightarrow> k = to_be_bytes (dl_id d))"

definition storage_ok :: "(WebStorageRecord, 'e) serde \<Rightarrow> key_values \<Rightarrow> nat \<Rightarrow> bool" where
  "storage_ok json m n \<longleftrightarrow>
     (\<forall>p k r. stored_at json m p k = Some r \<longrightarrow> unat (ws_sequence r) \<le> n \<and> utf8_valid k
        \<and> (\<forall>k' r'. stored_at json m p k' = Some r' \<longrightarrow> ws_sequence r' = ws_sequence r \<longrightarrow> k' = k))"

definition tables_ok :: "'e codecs \<Rightarrow> tables \<Rightarrow> nat \<Rightarrow> bool" where
  "tables_ok js s n \<longleftrightarrow> downloads_ok (download_json js) (s DOWNLOADS) \<and> storage_ok (storage_json js) (s WEB_STORAGE) n"

end
