(* ===== verification/Profile_Refinement.thy ===== *)
theory Profile_Refinement
  imports Profile_Spec
begin

section \<open>The store refines the profile\<close>

text \<open>
  Each operation that succeeds changes the profile read off the tables as \<open>profile_step\<close> says and keeps
  \<open>tables_ok\<close>; each read that succeeds returns what the profile holds.
\<close>

subsection \<open>Keys\<close>

lemma namespaced_key_eq:
  "NUL \<notin> set p \<Longrightarrow> NUL \<notin> set q \<Longrightarrow> namespaced_key p n = namespaced_key q k \<longleftrightarrow> p = q \<and> n = k"
  unfolding namespaced_key_def
proof (induction p arbitrary: q)
  case Nil
  then show ?case by (cases q) auto
next
  case (Cons c p)
  then show ?case by (cases q) auto
qed

lemma namespaced_key_prefix:
  "NUL \<notin> set p \<Longrightarrow> NUL \<notin> set q \<Longrightarrow>
     str_starts_with (namespaced_key p n) (namespaced_prefix q) \<longleftrightarrow> p = q"
  using namespaced_key_eq [of p q n]
  by (auto simp: str_starts_with_iff namespaced_prefix_def namespaced_key_def)

lemma strip_namespaced: "strip_prefix k (namespaced_prefix p) = Some raw \<longleftrightarrow> k = namespaced_key p raw"
  by (auto simp: strip_prefix_Some namespaced_prefix_def namespaced_key_def)

subsection \<open>Stored records\<close>

named_theorems stored_simps \<open>what is stored after a change\<close>

lemma bt_get_without_prefix [stored_simps]:
  "bt_get (without_prefix pre m) k = (if str_starts_with k pre then None else bt_get m k)"
  by (induction m) (auto simp: without_prefix_def bt_get_def)

lemma bt_ok_filter: "bt_ok m \<Longrightarrow> bt_ok (filter P m)"
  by (induction m) (auto simp: bt_ok_Cons)

lemma stored_Nil [simp]: "stored json [] k = None" "stored_at json [] p n = None"
  by (simp_all add: stored_def stored_at_def)

lemma stored_insert [stored_simps]:
  "bt_ok m \<Longrightarrow> serde_ok json \<Longrightarrow> to_vec json x = Ok b \<Longrightarrow>
     stored json (bt_insert k b m) k' = (if k' = k then Some x else stored json m k')"
  by (simp add: stored_def bt_get_insert serde_ok_def)

lemma stored_remove [stored_simps]:
  "stored json (bt_remove k m) k' = (if k' = k then None else stored json m k')"
  by (simp add: stored_def bt_get_remove)

lemma stored_at_insert [stored_simps]:
  "bt_ok m \<Longrightarrow> serde_ok json \<Longrightarrow> to_vec json x = Ok b \<Longrightarrow> NUL \<notin> set p \<Longrightarrow>
     stored_at json (bt_insert (namespaced_key p n) b m) = at2 (stored_at json m) p n (Some x)"
  by (auto simp: fun_eq_iff stored_at_def at2_def stored_insert namespaced_key_eq)

lemma stored_at_remove [stored_simps]:
  "NUL \<notin> set p \<Longrightarrow>
     stored_at json (bt_remove (namespaced_key p n) m) = at2 (stored_at json m) p n None"
  by (auto simp: fun_eq_iff stored_at_def at2_def stored_remove namespaced_key_eq)

lemma stored_at_clear [stored_simps]:
  "NUL \<notin> set p \<Longrightarrow>
     stored_at json (without_prefix (namespaced_prefix p) m) = (stored_at json m)(p := \<lambda>_. None)"
  by (auto simp: fun_eq_iff stored_at_def stored_def bt_get_without_prefix namespaced_key_prefix)

lemma stored_at_NUL: "NUL \<in> set p \<Longrightarrow> (stored_at json m)(p := \<lambda>_. None) = stored_at json m"
  by (auto simp: fun_eq_iff stored_at_def)

subsection \<open>Web Storage\<close>

lemma in_map_filter: "y \<in> set (List.map_filter f xs) \<longleftrightarrow> (\<exists>x\<in>set xs. f x = Some y)"
  by (induction xs) (auto split: option.splits)

lemma storage_item_Some:
  "storage_item json p kv = Some (seq, k, v) \<longleftrightarrow>
     fst kv = namespaced_key p k \<and> from_slice json (snd kv) = Ok \<lparr>ws_value = v, ws_sequence = seq\<rparr>"
  by (auto simp: storage_item_def strip_namespaced split: option.splits result.splits)
    (metis option.distinct(1) strip_namespaced, metis option.inject strip_namespaced)

lemma set_storage_items:
  assumes "bt_ok m" and "NUL \<notin> set p"
  shows "(seq, k, v) \<in> set (storage_items json m p) \<longleftrightarrow>
    stored_at json m p k = Some \<lparr>ws_value = v, ws_sequence = seq\<rparr>"
proof -
  have "(seq, k, v) \<in> set (storage_items json m p) \<longleftrightarrow>
      (\<exists>b. bt_get m (namespaced_key p k) = Some b \<and> from_slice json b = Ok \<lparr>ws_value = v, ws_sequence = seq\<rparr>)"
    by (auto simp: storage_items_def in_map_filter storage_item_Some bt_get_eq_Some [OF assms(1)])
      (metis fst_conv snd_conv)
  with assms(2) show ?thesis
    by (auto simp: stored_at_def stored_def split: option.splits result.splits)
qed

lemma distinct_storage_items: "bt_ok m \<Longrightarrow> distinct (storage_items json m p)"
proof (induction m)
  case Nil
  then show ?case by (simp add: storage_items_def)
next
  case (Cons kv m)
  have "y \<notin> set (storage_items json m p)" if "storage_item json p kv = Some y" for y
  proof
    assume "y \<in> set (storage_items json m p)"
    with that have "fst kv \<in> fst ` set m"
      by (cases y) (force simp: storage_items_def in_map_filter storage_item_Some image_iff)
    with bt_ok_distinct [OF Cons.prems] show False by simp
  qed
  with Cons show ?case
    by (auto simp: storage_items_def bt_ok_Cons split: option.split)
qed

text \<open>The items of a partition in the order of their numbers.\<close>

definition lists_partition ::
    "(WebStorageRecord, 'e) serde \<Rightarrow> key_values \<Rightarrow> string \<Rightarrow> (u64 \<times> string \<times> string) list \<Rightarrow> bool" where
  "lists_partition json m p L \<longleftrightarrow> bt_ok L
     \<and> (\<forall>seq k v. (seq, k, v) \<in> set L \<longleftrightarrow> stored_at json m p k = Some \<lparr>ws_value = v, ws_sequence = seq\<rparr>)"

lemma storage_list_eq:
  assumes "bt_ok m" and "NUL \<notin> set p" and "lists_partition json m p L"
  shows "storage_list json m p = map snd L"
proof -
  from assms have L: "bt_ok L" "set L = set (storage_items json m p)"
    by (auto simp: lists_partition_def set_storage_items)
  then have "mset (storage_items json m p) = mset L"
    using distinct_storage_items [OF assms(1)] bt_ok_distinct [OF L(1)]
    by (metis distinct_map set_eq_iff_mset_eq_distinct)
  moreover have "inj_on fst (set (storage_items json m p))"
    using bt_ok_distinct [OF L(1)] L(2) by (simp add: distinct_map)
  moreover have "sorted (map fst L)" using L(1) by (simp add: bt_ok_def strict_sorted_iff)
  ultimately have "sort_key fst (storage_items json m p) = L" by (rule sort_key_inj_key_eq)
  with assms(2) show ?thesis by (simp add: storage_list_def)
qed

lemma partition_listed:
  assumes "bt_ok m" and "storage_ok json m n" and "NUL \<notin> set p"
  obtains L where "lists_partition json m p L" and "storage_list json m p = map snd L"
proof
  let ?items = "storage_items json m p" and ?L = "sort_key fst (storage_items json m p)"
  have "inj_on fst (set ?items)"
  proof (rule inj_onI)
    fix x y
    assume xy: "x \<in> set ?items" "y \<in> set ?items" "fst x = fst y"
    obtain seq k v where x: "x = (seq, k, v)" by (rule prod_cases3)
    moreover obtain k' v' where y: "y = (seq, k', v')" using xy(3) x by (metis fst_conv prod_cases3)
    moreover have *: "stored_at json m p k = Some \<lparr>ws_value = v, ws_sequence = seq\<rparr>"
        "stored_at json m p k' = Some \<lparr>ws_value = v', ws_sequence = seq\<rparr>"
      using xy x y by (simp_all add: set_storage_items [OF assms(1,3)])
    moreover from * assms(2) have "k' = k" unfolding storage_ok_def by fastforce
    ultimately show "x = y" by simp
  qed
  then have "distinct (map fst ?L)"
    using distinct_storage_items [OF assms(1)] by (simp add: distinct_map)
  then have "bt_ok ?L" by (simp add: bt_ok_def strict_sorted_iff)
  then show listed: "lists_partition json m p ?L"
    by (simp add: lists_partition_def set_storage_items [OF assms(1,3)])
  show "storage_list json m p = map snd ?L"
    by (rule storage_list_eq [OF assms(1,3) listed])
qed

lemma storage_list_cong:
  assumes "bt_ok m" and "bt_ok m'" and "storage_ok json m n"
    and "\<And>k. stored_at json m' q k = stored_at json m q k"
  shows "storage_list json m' q = storage_list json m q"
proof (cases "NUL \<in> set q")
  case True
  then show ?thesis by (simp add: storage_list_def)
next
  case False
  from partition_listed [OF assms(1,3) False] obtain L
    where L: "lists_partition json m q L" "storage_list json m q = map snd L" .
  moreover from L(1) assms(4) have "lists_partition json m' q L" by (simp add: lists_partition_def)
  ultimately show ?thesis using storage_list_eq [OF assms(2) False] by simp
qed

lemma storage_ok_mono: "storage_ok json m n \<Longrightarrow> n \<le> n' \<Longrightarrow> storage_ok json m n'"
  unfolding storage_ok_def by (meson le_trans)

lemma in_map_third:
  "(s, k, v) \<in> set (map (\<lambda>(s, k, v). (s, k, g k v)) L) \<longleftrightarrow> (\<exists>w. (s, k, w) \<in> set L \<and> v = g k w)"
  by force

text \<open>Writing an item that exists keeps its number.\<close>

lemma storage_overwrite:
  assumes "bt_ok m" and "bt_ok m'" and "storage_ok json m n" and "NUL \<notin> set p"
    and "stored_at json m' = at2 (stored_at json m) p k (Some \<lparr>ws_value = v, ws_sequence = seq\<rparr>)"
    and "stored_at json m p k = Some r" and "ws_sequence r = seq"
  shows "storage_ok json m' n
    \<and> storage_list json m' = (storage_list json m)(p := set_item k v (storage_list json m p))"
proof -
  have at: "stored_at json m' q k' = (if q = p \<and> k' = k then Some \<lparr>ws_value = v, ws_sequence = seq\<rparr>
      else stored_at json m q k')" for q k'
    using assms(5) by (simp add: at2_def)
  have "storage_ok json m' n"
    unfolding storage_ok_def at
    using assms(3,6,7) unfolding storage_ok_def by (auto split: if_splits)
  moreover from partition_listed [OF assms(1,3,4)] obtain L
    where L: "lists_partition json m p L" "storage_list json m p = map snd L" .
  let ?L = "map (\<lambda>(s, k', v'). (s, k', if k' = k then v else v')) L"
  have "lists_partition json m' p ?L"
  proof -
    have "map fst ?L = map fst L" by (simp add: comp_def split_beta)
    then have "bt_ok ?L" using L(1) unfolding lists_partition_def bt_ok_def by (simp only:)
    moreover have "(s, k', v') \<in> set ?L \<longleftrightarrow> stored_at json m' p k' = Some \<lparr>ws_value = v', ws_sequence = s\<rparr>" for s k' v'
      using L(1) assms(6,7) unfolding in_map_third at
      by (auto simp: lists_partition_def intro: exI [of _ "ws_value r"])
    ultimately show ?thesis unfolding lists_partition_def by blast
  qed
  then have "storage_list json m' p = map snd ?L" by (rule storage_list_eq [OF assms(2,4)])
  moreover have "k \<in> fst ` set (map snd L)"
  proof -
    have "(seq, k, ws_value r) \<in> set L" using L(1) assms(6,7) by (auto simp: lists_partition_def)
    then show ?thesis by (force simp: image_iff)
  qed
  ultimately have "storage_list json m' p = set_item k v (storage_list json m p)"
    using L(2) by (simp add: set_item_def split_beta)
  moreover have "storage_list json m' q = storage_list json m q" if "q \<noteq> p" for q
    by (rule storage_list_cong [OF assms(1-3)]) (use that in \<open>simp add: at\<close>)
  ultimately show ?thesis using \<open>storage_ok json m' n\<close> by auto
qed

text \<open>A new item gets a number above all others of its partition.\<close>

lemma storage_append:
  assumes "bt_ok m" and "bt_ok m'" and "storage_ok json m n" and "NUL \<notin> set p" and "utf8_valid k"
    and "stored_at json m' = at2 (stored_at json m) p k (Some \<lparr>ws_value = v, ws_sequence = seq\<rparr>)"
    and "stored_at json m p k = None" and "unat seq \<le> n'" and "n \<le> n'"
    and above: "\<And>k' r. stored_at json m p k' = Some r \<Longrightarrow> ws_sequence r < seq"
  shows "storage_ok json m' n'
    \<and> storage_list json m' = (storage_list json m)(p := set_item k v (storage_list json m p))"
proof -
  have at: "stored_at json m' q k' = (if q = p \<and> k' = k then Some \<lparr>ws_value = v, ws_sequence = seq\<rparr>
      else stored_at json m q k')" for q k'
    using assms(6) by (simp add: at2_def)
  have old: "storage_ok json m n'" using assms(3,9) by (rule storage_ok_mono)
  have ok: "storage_ok json m' n'"
    unfolding storage_ok_def
  proof (intro allI impI)
    fix q k1 r1
    assume r1: "stored_at json m' q k1 = Some r1"
    show "unat (ws_sequence r1) \<le> n' \<and> utf8_valid k1
      \<and> (\<forall>k2 r2. stored_at json m' q k2 = Some r2 \<longrightarrow> ws_sequence r2 = ws_sequence r1 \<longrightarrow> k2 = k1)"
    proof (cases "q = p \<and> k1 = k")
      case True
      with r1 have "ws_sequence r1 = seq" by (auto simp: at)
      with True assms(5,8) show ?thesis by (auto simp: at dest!: above split: if_splits)
    next
      case False
      with r1 have r: "stored_at json m q k1 = Some r1" by (auto simp: at split: if_splits)
      have "k2 = k1" if "stored_at json m' q k2 = Some r2" "ws_sequence r2 = ws_sequence r1" for k2 r2
      proof (cases "q = p \<and> k2 = k")
        case True
        with that(1) have "ws_sequence r2 = seq" by (auto simp: at)
        moreover from r True have "ws_sequence r1 < seq" using above by blast
        ultimately show ?thesis using that(2) by simp
      next
        case False
        with that(1) have "stored_at json m q k2 = Some r2" by (auto simp: at split: if_splits)
        with old r that(2) show ?thesis unfolding storage_ok_def by blast
      qed
      with old r show ?thesis unfolding storage_ok_def by blast
    qed
  qed
  from partition_listed [OF assms(1,3,4)] obtain L
    where L: "lists_partition json m p L" "storage_list json m p = map snd L" .
  have "fst e < seq" if "e \<in> set L" for e
  proof -
    obtain s' k' v' where "e = (s', k', v')" by (rule prod_cases3)
    with that L(1) above show ?thesis by (fastforce simp: lists_partition_def)
  qed
  with L(1) have "bt_ok (L @ [(seq, k, v)])"
    by (auto simp: lists_partition_def bt_ok_def sorted_wrt_append)
  moreover have "k \<notin> fst ` snd ` set L" using L(1) assms(7) by (auto simp: lists_partition_def)
  moreover from this have "(s, k', v') \<in> set (L @ [(seq, k, v)])
      \<longleftrightarrow> stored_at json m' p k' = Some \<lparr>ws_value = v', ws_sequence = s\<rparr>" for s k' v'
    using L(1) assms(7) by (auto simp: at lists_partition_def)
  ultimately have "storage_list json m' p = map snd (L @ [(seq, k, v)])"
    by (intro storage_list_eq [OF assms(2,4)]) (simp add: lists_partition_def)
  with L(2) \<open>k \<notin> fst ` snd ` set L\<close> have "storage_list json m' p = set_item k v (storage_list json m p)"
    by (simp add: set_item_def)
  moreover have "storage_list json m' q = storage_list json m q" if "q \<noteq> p" for q
    by (rule storage_list_cong [OF assms(1-3)]) (use that in \<open>simp add: at\<close>)
  ultimately show ?thesis using ok by auto
qed

lemma storage_restrict:
  assumes "bt_ok m" and "bt_ok m'" and "storage_ok json m n" and "NUL \<notin> set p"
    and at: "\<And>q k. stored_at json m' q k = (if q = p \<and> P k then None else stored_at json m q k)"
  shows "storage_ok json m' n
    \<and> storage_list json m' = (storage_list json m)(p := filter (\<lambda>e. \<not> P (fst e)) (storage_list json m p))"
proof -
  have ok: "storage_ok json m' n"
    using assms(3) unfolding storage_ok_def at by (auto split: if_splits)
  from partition_listed [OF assms(1,3,4)] obtain L
    where L: "lists_partition json m p L" "storage_list json m p = map snd L" .
  then have "lists_partition json m' p (filter (\<lambda>e. \<not> P (fst (snd e))) L)"
    by (auto simp: lists_partition_def at bt_ok_filter)
  then have "storage_list json m' p = filter (\<lambda>e. \<not> P (fst e)) (storage_list json m p)"
    by (simp add: storage_list_eq [OF assms(2,4)] L(2) filter_map comp_def)
  moreover have "storage_list json m' q = storage_list json m q" if "q \<noteq> p" for q
    by (rule storage_list_cong [OF assms(1-3)]) (use that in \<open>simp add: at\<close>)
  ultimately show ?thesis using ok by auto
qed

text \<open>The number of a new item.\<close>

lemma fold_max_ge: "x \<in> set xs \<or> x = a \<Longrightarrow> (x :: 'a::linorder) \<le> fold max xs a"
proof (induction xs arbitrary: a x)
  case (Cons y xs)
  have "max y a \<le> fold max xs (max y a)" by (rule Cons.IH) simp
  with Cons show ?case by (metis fold_simps(2) max.bounded_iff max.commute set_ConsD)
qed simp

lemma fold_max_in: "fold max xs a \<in> insert a (set (xs :: 'a::linorder list))"
proof (induction xs arbitrary: a)
  case (Cons y xs)
  from Cons [of "max y a"] show ?case by (auto simp: max_def split: if_splits)
qed simp

lemma result_option_Some: "(case r of Ok y \<Rightarrow> y | Err _ \<Rightarrow> None) = Some y \<longleftrightarrow> r = Ok (Some y)"
  by (cases r) simp_all

lemma picks_in: "picks f m ys \<Longrightarrow> y \<in> set ys \<longleftrightarrow> (\<exists>kv\<in>set m. f kv = Ok (Some y))"
  by (simp add: picks_def in_map_filter result_option_Some)

lemma stored_at_Some:
  "bt_ok m \<Longrightarrow> NUL \<notin> set p \<Longrightarrow>
     stored_at json m p k = Some x \<longleftrightarrow> (\<exists>b. (namespaced_key p k, b) \<in> set m \<and> from_slice json b = Ok x)"
  by (auto simp: stored_at_def stored_def bt_get_eq_Some [symmetric] split: option.splits result.splits)

lemma next_sequence_above:
  assumes "next_sequence json m p seq" and "bt_ok m" and "NUL \<notin> set p" and "storage_ok json m n" and "Suc n < 2 ^ 64"
  shows "unat seq \<le> Suc n \<and> (\<forall>k r. stored_at json m p k = Some r \<longrightarrow> ws_sequence r < seq)"
proof -
  let ?f = "\<lambda>(k, v). if \<not> str_starts_with k (namespaced_prefix p) then Ok None
        else and_then (decode_record json v) (\<lambda>r. Ok (Some (ws_sequence r)))"
  from assms(1) obtain xs where xs: "picks ?f m xs" "seq = fold max xs 0 + 1"
    by (auto simp: next_sequence_def)
  have mem: "x \<in> set xs \<longleftrightarrow> (\<exists>k r. stored_at json m p k = Some r \<and> ws_sequence r = x)" for x
    unfolding picks_in [OF xs(1)] stored_at_Some [OF assms(2,3)]
    by (auto simp: result_simps str_starts_with_iff namespaced_prefix_def namespaced_key_def split: if_splits)
      (blast, force simp: result_simps intro!: bexI)
  have "unat x \<le> n" if "x \<in> set xs" for x
    using that assms(4) by (auto simp: mem storage_ok_def)
  then have le: "unat (fold max xs 0) \<le> n"
    using fold_max_in [of xs 0] by auto
  then have seq: "unat seq = Suc (unat (fold max xs 0))"
    using xs(2) assms(5) by (simp add: unat_word_ariths)
  have "ws_sequence r < seq" if "stored_at json m p k = Some r" for k r
  proof -
    have "ws_sequence r \<le> fold max xs 0" using that mem by (intro fold_max_ge) blast
    with seq show ?thesis by (simp add: word_less_nat_alt word_le_nat_alt)
  qed
  with seq le show ?thesis by simp
qed

end
