(* ===== verification/Profile_Bounded.thy ===== *)
theory Profile_Bounded
  imports Profile_Refinement
begin

section \<open>Bounded tables\<close>

text \<open>
  The fetch cache, its aliases and the downloads are bounded: a write that makes a table too large
  removes the records that come first in an order by time. The table then holds the limit, and
  what was removed is older than what was kept. Downloads are a bounded list, newest first.
\<close>

subsection \<open>Eviction\<close>

lemma read_records_keys: "read_records json f m records \<Longrightarrow> map fst records = map fst m"
  unfolding read_records_def by (induction rule: list_all2_induct) auto

lemma length_filter_removed:
  assumes "distinct xs" and "distinct ys" and "set ys \<subseteq> set xs"
  shows "length (filter (\<lambda>x. x \<notin> set ys) xs) = length xs - length ys"
proof -
  have "set (filter (\<lambda>x. x \<notin> set ys) xs) = set xs - set ys" by auto
  then have "card (set (filter (\<lambda>x. x \<notin> set ys) xs)) = card (set xs) - card (set ys)"
    using assms(3) by (simp add: card_Diff_subset)
  with assms distinct_card [of "filter (\<lambda>x. x \<notin> set ys) xs"] show ?thesis by (simp add: distinct_card)
qed

lemma sorted_take_drop:
  assumes "sorted (map f xs)" and "x \<in> set (take n xs)" and "y \<in> set (drop n xs)"
  shows "f x \<le> f y"
proof -
  have "sorted (map f (take n xs) @ map f (drop n xs))"
    using assms(1) by (simp flip: map_append)
  with assms(2,3) show ?thesis by (simp add: sorted_append)
qed

text \<open>What is left of a table after the eviction.\<close>

lemma evicted_spec:
  assumes "bt_ok m" and "read_records json f m records"
    and m'_def: "m' = bt_remove_keys (evicted rank n records) m"
  shows "bt_ok m' \<and> set m' \<subseteq> set m \<and> length m' = min n (length m)
    \<and> (\<forall>r\<in>set records. \<forall>r'\<in>set records.
         fst r \<notin> fst ` set m' \<longrightarrow> fst r' \<in> fst ` set m' \<longrightarrow> rank r \<le> rank r')"
proof -
  let ?S = "sort_key rank records" and ?d = "length records - n"
  let ?E = "map fst (take ?d ?S)"
  have keys: "map fst records = map fst m" using assms(2) by (rule read_records_keys)
  then have dist: "distinct (map fst records)" using bt_ok_distinct [OF assms(1)] by simp
  then have distS: "distinct (map fst ?S)" by (simp add: distinct_map)
  have len: "length records = length m" using keys by (metis length_map)
  have m': "m' = filter (\<lambda>e. fst e \<notin> set ?E) m"
    by (simp add: m'_def bt_remove_keys_def evicted_def)
  have "map fst m' = filter (\<lambda>k. k \<notin> set ?E) (map fst m)"
    by (simp add: m' filter_map comp_def)
  moreover have "distinct ?E" using distS by (metis distinct_take take_map)
  moreover have "set ?E \<subseteq> set (map fst m)"
    using keys by (metis list.set_map set_sort set_take_subset image_mono)
  ultimately have "length (map fst m') = length (map fst m) - length ?E"
    using length_filter_removed bt_ok_distinct [OF assms(1)] by metis
  then have "length m' = min n (length m)" using len by simp
  moreover have "rank r \<le> rank r'"
    if r: "r \<in> set records" "r' \<in> set records" "fst r \<notin> fst ` set m'" "fst r' \<in> fst ` set m'" for r r'
  proof (rule sorted_take_drop [of rank ?S r ?d r'])
    have "fst r \<in> set (map fst m)" using r(1) keys by (metis image_eqI list.set_map)
    then obtain b where "(fst r, b) \<in> set m" by auto
    then have "(fst r, b) \<in> set m'" if "fst r \<notin> set ?E" using that unfolding m' by simp
    with r(3) have "fst r \<in> set ?E" by (metis fst_conv image_eqI)
    then obtain x where x: "x \<in> set (take ?d ?S)" "fst x = fst r" by auto
    then have "x \<in> set records" by (metis in_set_takeD set_sort)
    with x r(1) dist have "x = r" by (metis eq_key_imp_eq_value prod.collapse)
    with x(1) show "r \<in> set (take ?d ?S)" by simp
    from r(4) obtain e where "e \<in> set m'" "fst r' = fst e" by auto
    then have "fst r' \<notin> set ?E" unfolding m' by simp
    then have "r' \<notin> set (take ?d ?S)" by (metis image_eqI list.set_map)
    with r(2) show "r' \<in> set (drop ?d ?S)"
      by (metis UnE append_take_drop_id set_append set_sort)
  qed simp
  moreover have "bt_ok m'" "set m' \<subseteq> set m" using assms(1) by (auto simp: m' bt_ok_filter)
  ultimately show ?thesis by blast
qed

subsection \<open>Numbers as keys\<close>

lemma to_be_bytes_inj: "to_be_bytes a = to_be_bytes b \<Longrightarrow> a = b"
proof (rule bit_word_eqI)
  fix n
  assume eq: "to_be_bytes a = to_be_bytes b" and n: "n < LENGTH(64)"
  let ?i = "n div 8"
  have "\<forall>i\<in>set [7, 6, 5, 4, 3, 2, 1, 0]. char_of (unat (drop_bit (8 * i) a) mod 256)
      = (char_of (unat (drop_bit (8 * i) b) mod 256) :: char)"
    using eq by (simp only: to_be_bytes_def map_eq_conv)
  moreover have "?i < 8" using n by simp
  then have "?i \<in> set [7, 6, 5, 4, 3, 2, 1, 0]" by auto
  ultimately have "char_of (unat (drop_bit (8 * ?i) a) mod 256)
      = (char_of (unat (drop_bit (8 * ?i) b) mod 256) :: char)" by blast
  then have "unat (drop_bit (8 * ?i) a) mod 256 = unat (drop_bit (8 * ?i) b) mod 256"
    by (metis mod_mod_trivial of_char_of)
  then have "take_bit 8 (drop_bit (8 * ?i) a) = take_bit 8 (drop_bit (8 * ?i) b)"
    by (simp add: word_unat_eq_iff unsigned_take_bit_eq take_bit_eq_mod unat_mod)
  then have "bit (take_bit 8 (drop_bit (8 * ?i) a)) (n mod 8) = bit (take_bit 8 (drop_bit (8 * ?i) b)) (n mod 8)"
    by simp
  then show "bit a n \<longleftrightarrow> bit b n"
    by (simp add: bit_take_bit_iff bit_drop_bit_eq)
qed

subsection \<open>Downloads\<close>

definition download_order :: "DownloadRecord \<Rightarrow> int \<times> u64" where
  "download_order d = (dl_started_unix d, dl_id d)"

lemma sort_newest_first_rev:
  assumes "distinct (map dl_id ds)"
  shows "sort_newest_first ds = rev (sort_key download_order ds)"
  unfolding sort_newest_first_def
proof (rule sort_key_inj_key_eq)
  let ?neg = "\<lambda>d. (- dl_started_unix d, - int (unat (dl_id d)))"
  show "mset ds = mset (rev (sort_key download_order ds))" by simp
  show "inj_on ?neg (set ds)"
    using assms by (auto simp: distinct_map inj_on_def word_uint_eq_iff)
  have "sorted_wrt (\<lambda>x y. download_order x \<le> download_order y) (sort_key download_order ds)"
    using sorted_sort_key [of download_order ds] unfolding sorted_map .
  then have "sorted_wrt (\<lambda>x y. download_order y \<le> download_order x) (rev (sort_key download_order ds))"
    by (simp add: sorted_wrt_rev)
  then show "sorted (map ?neg (rev (sort_key download_order ds)))"
    unfolding sorted_map
    by (rule sorted_wrt_mono_rel [rotated]) (auto simp: download_order_def word_le_def word_less_def less_eq_prod_def)
qed

lemma sort_newest_first_mset:
  assumes "mset xs = mset ys" and "distinct (map dl_id xs)"
  shows "sort_newest_first xs = sort_newest_first ys"
  unfolding sort_newest_first_def
  by (rule sort_key_inj_key_eq)
    (use assms in \<open>auto simp: distinct_map inj_on_def word_uint_eq_iff\<close>)

lemma sort_key_map: "sort_key f (map h xs) = map h (sort_key (f \<circ> h) xs)"
proof -
  have "insort_key f (h x) (map h ys) = map h (insort_key (f \<circ> h) x ys)" for x ys
    by (induction ys) simp_all
  then show ?thesis by (induction xs) simp_all
qed

lemma filter_not_taken: "distinct xs \<Longrightarrow> filter (\<lambda>x. x \<notin> set (take n xs)) xs = drop n xs"
proof -
  assume "distinct xs"
  then have "distinct (take n xs @ drop n xs)" by simp
  then have "filter (\<lambda>x. x \<notin> set (take n xs)) (take n xs @ drop n xs) = drop n xs"
    unfolding filter_append distinct_append by (auto simp: filter_empty_conv intro!: filter_True)
  then show ?thesis by simp
qed

lemma download_values_Cons:
  "download_values json (kv # m) = (case from_slice json (snd kv) of Ok d \<Rightarrow> d # download_values json m
     | Err _ \<Rightarrow> download_values json m)"
  by (cases kv) (simp add: download_values_def split: result.split)

lemma stored_Some: "stored json m k = Some x \<longleftrightarrow> (\<exists>b. bt_get m k = Some b \<and> from_slice json b = Ok x)"
  by (auto simp: stored_def split: option.splits result.splits)

lemma result_to_option: "(case r of Ok x \<Rightarrow> Some x | Err _ \<Rightarrow> None) = Some y \<longleftrightarrow> r = Ok y"
  by (cases r) simp_all

lemma set_download_values:
  assumes "bt_ok m"
  shows "d \<in> set (download_values json m) \<longleftrightarrow> (\<exists>k. stored json m k = Some d)"
proof -
  have "d \<in> set (download_values json m) \<longleftrightarrow> (\<exists>(k, b)\<in>set m. from_slice json b = Ok d)"
    by (simp add: download_values_def in_map_filter split_beta result_to_option)
  also have "\<dots> \<longleftrightarrow> (\<exists>k. stored json m k = Some d)"
    by (auto simp: stored_Some bt_get_eq_Some [OF assms])
  finally show ?thesis .
qed

text \<open>Downloads stored under their number have different numbers.\<close>

lemma download_ids_distinct:
  "bt_ok m \<Longrightarrow> downloads_ok json m \<Longrightarrow> distinct (map dl_id (download_values json m))"
proof (induction m)
  case Nil
  then show ?case by (simp add: download_values_def)
next
  case (Cons kv m)
  then have ok: "bt_ok m" by (simp add: bt_ok_Cons)
  have key: "k = to_be_bytes (dl_id d)" if "(k, b) \<in> set (kv # m)" "from_slice json b = Ok d" for k b d
    using that Cons.prems unfolding downloads_ok_def stored_Some
    by (metis bt_get_eq_Some)
  have "downloads_ok json m"
    using key unfolding downloads_ok_def stored_Some by (auto simp: bt_get_eq_Some [OF ok])
  with Cons.IH ok have IH: "distinct (map dl_id (download_values json m))" by simp
  show ?case
  proof (cases "from_slice json (snd kv)")
    case (Ok d)
    have "dl_id x \<noteq> dl_id d" if "x \<in> set (download_values json m)" for x
    proof
      assume same: "dl_id x = dl_id d"
      from that obtain k b where kb: "(k, b) \<in> set m" "from_slice json b = Ok x"
        by (auto simp: set_download_values [OF ok] stored_Some bt_get_eq_Some [OF ok])
      then have "k = to_be_bytes (dl_id x)" by (intro key [of k b]) simp_all
      moreover have "fst kv = to_be_bytes (dl_id d)" using Ok by (intro key [of _ "snd kv"]) simp_all
      ultimately show False using Cons.prems(1) kb(1) same by (auto simp: bt_ok_Cons)
    qed
    then have "dl_id d \<notin> dl_id ` set (download_values json m)" by (metis imageE)
    with IH Ok show ?thesis by (simp add: download_values_Cons)
  next
    case (Err e)
    with IH show ?thesis by (simp add: download_values_Cons)
  qed
qed

lemma stored_subset:
  "bt_ok m \<Longrightarrow> bt_ok m' \<Longrightarrow> set m' \<subseteq> set m \<Longrightarrow> stored json m' k = Some x \<Longrightarrow> stored json m k = Some x"
  by (auto simp: stored_Some bt_get_eq_Some)

lemma records_of_downloads:
  assumes "read_records json f m records"
    and "\<And>k b d. (k, b) \<in> set m \<Longrightarrow> from_slice json b = Ok d \<Longrightarrow> k = to_be_bytes (dl_id d)"
  shows "records = map (\<lambda>d. (to_be_bytes (dl_id d), f d)) (download_values json m)"
  using assms
proof (induction m arbitrary: records)
  case Nil
  then show ?case by (simp add: read_records_def download_values_def)
next
  case (Cons kv m)
  from Cons.prems(1) obtain r rs x where r: "records = r # rs" "fst r = fst kv"
      "from_slice json (snd kv) = Ok x" "snd r = f x" "read_records json f m rs"
    by (auto simp: read_records_def list_all2_Cons1)
  have "fst kv = to_be_bytes (dl_id x)" using r(3) by (intro Cons.prems(2) [of _ "snd kv"]) simp_all
  moreover have "rs = map (\<lambda>d. (to_be_bytes (dl_id d), f d)) (download_values json m)"
    using r(5) by (rule Cons.IH) (use Cons.prems(2) in \<open>meson list.set_intros(2)\<close>)
  ultimately show ?case using r by (simp add: download_values_Cons prod_eq_iff)
qed

lemma download_values_filter:
  assumes "\<And>k b d. (k, b) \<in> set m \<Longrightarrow> from_slice json b = Ok d \<Longrightarrow> k = to_be_bytes (dl_id d)"
  shows "download_values json (filter (\<lambda>e. P (fst e)) m)
    = filter (\<lambda>d. P (to_be_bytes (dl_id d))) (download_values json m)"
  using assms
proof (induction m)
  case (Cons kv m)
  have "download_values json (filter (\<lambda>e. P (fst e)) m)
      = filter (\<lambda>d. P (to_be_bytes (dl_id d))) (download_values json m)"
    by (rule Cons.IH) (use Cons.prems in \<open>meson list.set_intros(2)\<close>)
  moreover have "fst kv = to_be_bytes (dl_id d)" if "from_slice json (snd kv) = Ok d" for d
    using that by (intro Cons.prems [of _ "snd kv"]) simp_all
  ultimately show ?case by (auto simp: download_values_Cons split: result.split)
qed (simp add: download_values_def)

text \<open>The newest records that remain of a table of downloads.\<close>

lemma evict_downloads:
  assumes "bt_ok m" and "downloads_ok json m"
    and "read_records json (\<lambda>d. (dl_started_unix d, dl_id d)) m records"
  shows "sort_newest_first (download_values json
      (bt_remove_keys (evicted (\<lambda>(k, started, i). (started, i)) n records) m))
    = take n (sort_newest_first (download_values json m))"
proof -
  let ?V = "download_values json m" and ?h = "\<lambda>d. (to_be_bytes (dl_id d), dl_started_unix d, dl_id d)"
  let ?S = "sort_key download_order ?V" and ?d = "length ?V - n"
  have key: "k = to_be_bytes (dl_id d)" if "(k, b) \<in> set m" "from_slice json b = Ok d" for k b d
    using that assms(2) unfolding downloads_ok_def stored_Some by (metis assms(1) bt_get_eq_Some)
  have ids: "distinct (map dl_id ?V)" by (rule download_ids_distinct [OF assms(1,2)])
  have records: "records = map ?h ?V" by (rule records_of_downloads [OF assms(3) key])
  have "(\<lambda>(k, started, i). (started, i)) \<circ> ?h = download_order" by (auto simp: download_order_def)
  then have E: "evicted (\<lambda>(k, started, i). (started, i)) n records
      = map (\<lambda>d. to_be_bytes (dl_id d)) (take ?d ?S)"
    by (simp add: evicted_def records sort_key_map take_map comp_def)
  have "set (take ?d ?S) \<subseteq> set ?V" by (metis set_sort set_take_subset)
  then have "dl_id d \<in> dl_id ` set (take ?d ?S) \<longleftrightarrow> d \<in> set (take ?d ?S)" if "d \<in> set ?V" for d
    using that ids inj_on_image_mem_iff [of dl_id "set ?V" d "set (take ?d ?S)"] by (simp add: distinct_map)
  then have "to_be_bytes (dl_id d) \<in> set (map (\<lambda>d. to_be_bytes (dl_id d)) (take ?d ?S))
      \<longleftrightarrow> d \<in> set (take ?d ?S)" if "d \<in> set ?V" for d
    using that to_be_bytes_inj by (auto simp: image_iff)
  then have "download_values json (bt_remove_keys (map (\<lambda>d. to_be_bytes (dl_id d)) (take ?d ?S)) m)
      = filter (\<lambda>d. d \<notin> set (take ?d ?S)) ?V"
    unfolding bt_remove_keys_def
    by (subst download_values_filter [OF key]) (simp_all cong: filter_cong)
  moreover have "distinct (map dl_id (filter P ?V))" for P
    using ids by (simp add: distinct_map_filter)
  ultimately have "sort_newest_first (download_values json
      (bt_remove_keys (evicted (\<lambda>(k, started, i). (started, i)) n records) m))
    = rev (sort_key download_order (filter (\<lambda>d. d \<notin> set (take ?d ?S)) ?V))"
    unfolding E by (simp add: sort_newest_first_rev)
  also have "\<dots> = rev (filter (\<lambda>d. d \<notin> set (take ?d ?S)) ?S)"
    by (simp only: filter_sort)
  also have "\<dots> = rev (drop ?d ?S)"
    using ids by (subst filter_not_taken) (simp_all add: distinct_map)
  also have "\<dots> = take n (rev ?S)" by (cases "n \<le> length ?V") (simp_all add: rev_drop)
  finally show ?thesis using ids by (simp add: sort_newest_first_rev)
qed

lemma download_put:
  assumes "bt_ok m" and "serde_ok json" and "downloads_ok json m" and "to_vec json rec = Ok b"
    and "read_records json (\<lambda>d. (dl_started_unix d, dl_id d)) (bt_insert (to_be_bytes (dl_id rec)) b m) records"
    and "m' = bt_remove_keys (evicted (\<lambda>(k, started, i). (started, i)) n records)
      (bt_insert (to_be_bytes (dl_id rec)) b m)"
  shows "downloads_ok json m' \<and> sort_newest_first (download_values json m')
    = take n (sort_newest_first
        (rec # filter (\<lambda>d. dl_id d \<noteq> dl_id rec) (sort_newest_first (download_values json m))))"
proof -
  let ?m1 = "bt_insert (to_be_bytes (dl_id rec)) b m"
  let ?kept = "filter (\<lambda>d. dl_id d \<noteq> dl_id rec) (sort_newest_first (download_values json m))"
  have m1: "bt_ok ?m1" using assms(1) by simp
  have at: "stored json ?m1 k = (if k = to_be_bytes (dl_id rec) then Some rec else stored json m k)" for k
    using assms(1,2,4) by (rule stored_insert)
  have ok1: "downloads_ok json ?m1" using assms(3) by (auto simp: downloads_ok_def at)
  have "bt_ok m'" "set m' \<subseteq> set ?m1" using m1 by (auto simp: assms(6) bt_remove_keys_def bt_ok_filter)
  then have "stored json ?m1 k = Some d" if "stored json m' k = Some d" for k d
    using that by (rule stored_subset [OF m1])
  with ok1 have ok': "downloads_ok json m'" by (simp add: downloads_ok_def)
  have ids: "distinct (map dl_id (download_values json m))" by (rule download_ids_distinct [OF assms(1,3)])
  have ids1: "distinct (map dl_id (download_values json ?m1))" by (rule download_ids_distinct [OF m1 ok1])
  have "d \<in> set (download_values json ?m1) \<longleftrightarrow>
      d = rec \<or> d \<in> set (download_values json m) \<and> dl_id d \<noteq> dl_id rec" for d
  proof -
    have key: "k = to_be_bytes (dl_id d)" if "stored json m k = Some d" for k
      using that assms(3) unfolding downloads_ok_def by blast
    have "(\<exists>k. stored json ?m1 k = Some d) \<longleftrightarrow>
        d = rec \<or> (\<exists>k. k \<noteq> to_be_bytes (dl_id rec) \<and> stored json m k = Some d)"
      unfolding at by auto
    also have "\<dots> \<longleftrightarrow> d = rec \<or> (\<exists>k. stored json m k = Some d) \<and> dl_id d \<noteq> dl_id rec"
      using key to_be_bytes_inj by metis
    finally show ?thesis by (simp only: set_download_values [OF m1] set_download_values [OF assms(1)])
  qed
  then have "set (download_values json ?m1) = set (rec # ?kept)"
    by (auto simp: sort_newest_first_def)
  moreover have "distinct (rec # ?kept)"
    using ids by (simp add: sort_newest_first_def distinct_map)
  ultimately have "mset (download_values json ?m1) = mset (rec # ?kept)"
    using ids1 by (metis distinct_map set_eq_iff_mset_eq_distinct)
  then have "sort_newest_first (download_values json ?m1) = sort_newest_first (rec # ?kept)"
    using ids1 by (rule sort_newest_first_mset)
  with evict_downloads [OF m1 ok1 assms(5), of n] ok' show ?thesis by (simp only: assms(6))
qed

end
