(* ===== verification/Profile_Simulation.thy ===== *)
theory Profile_Simulation
  imports Profile_Bounded
begin

section \<open>Runs of the store\<close>

text \<open>
  The simulation: a successful operation takes the profile of the tables to its \<open>profile_step\<close>, one that
  fails leaves it. By induction this holds along any sequence of operations in which no commit failed,
  with fewer than \<open>2 ^ 64 - 1\<close> writes to Web Storage.
\<close>

subsection \<open>Changing one table changes one part of the profile\<close>

named_theorems frame_rules \<open>the part of the profile a table holds\<close>

lemma frame_cookies [frame_rules]:
  "replaces COOKIES R s s' \<Longrightarrow> R (s COOKIES) (s' COOKIES) \<and> (tables_ok js s' n \<longleftrightarrow> tables_ok js s n)
     \<and> profile_of js s' = (profile_of js s)\<lparr>pf_cookies := stored_at (cookie_json js) (s' COOKIES)\<rparr>"
  by (simp add: replaces_def profile_of_def tables_ok_def)

lemma frame_caches [frame_rules]:
  "replaces FETCH_CACHE R s s' \<Longrightarrow> (tables_ok js s' n \<longleftrightarrow> tables_ok js s n) \<and> profile_of js s' = profile_of js s"
  "replaces FETCH_CACHE_ALIASES R s s' \<Longrightarrow>
     (tables_ok js s' n \<longleftrightarrow> tables_ok js s n) \<and> profile_of js s' = profile_of js s"
  by (simp_all add: replaces_def profile_of_def tables_ok_def)

lemma frame_history [frame_rules]:
  "replaces HISTORY R s s' \<Longrightarrow> R (s HISTORY) (s' HISTORY) \<and> (tables_ok js s' n \<longleftrightarrow> tables_ok js s n)
     \<and> profile_of js s' = (profile_of js s)\<lparr>pf_visits := (\<lambda>origin url.
         case stored_at (visits_json js) (s' HISTORY) origin url of None \<Rightarrow> [] | Some visits \<Rightarrow> visits)\<rparr>"
  by (simp add: replaces_def profile_of_def tables_ok_def)

lemma frame_session [frame_rules]:
  "replaces SESSION R s s' \<Longrightarrow> R (s SESSION) (s' SESSION) \<and> (tables_ok js s' n \<longleftrightarrow> tables_ok js s n)
     \<and> profile_of js s' =
         (profile_of js s)\<lparr>pf_session := session_value (tabs_json js) (session_json js) (s' SESSION)\<rparr>"
  by (simp add: replaces_def profile_of_def tables_ok_def)

lemma frame_downloads [frame_rules]:
  "replaces DOWNLOADS R s s' \<Longrightarrow> R (s DOWNLOADS) (s' DOWNLOADS)
     \<and> (tables_ok js s' n \<longleftrightarrow> downloads_ok (download_json js) (s' DOWNLOADS)
          \<and> storage_ok (storage_json js) (s WEB_STORAGE) n)
     \<and> profile_of js s' = (profile_of js s)\<lparr>pf_downloads :=
         sort_newest_first (download_values (download_json js) (s' DOWNLOADS))\<rparr>"
  by (simp add: replaces_def profile_of_def tables_ok_def)

lemma frame_hsts [frame_rules]:
  "replaces HSTS R s s' \<Longrightarrow> R (s HSTS) (s' HSTS) \<and> (tables_ok js s' n \<longleftrightarrow> tables_ok js s n)
     \<and> profile_of js s' = (profile_of js s)\<lparr>pf_hsts := stored (hsts_json js) (s' HSTS)\<rparr>"
  by (simp add: replaces_def profile_of_def tables_ok_def)

lemma frame_permissions [frame_rules]:
  "replaces PERMISSIONS R s s' \<Longrightarrow> R (s PERMISSIONS) (s' PERMISSIONS) \<and> (tables_ok js s' n \<longleftrightarrow> tables_ok js s n)
     \<and> profile_of js s' = (profile_of js s)\<lparr>pf_permissions := stored_at (permission_json js) (s' PERMISSIONS)\<rparr>"
  by (simp add: replaces_def profile_of_def tables_ok_def)

lemma frame_storage [frame_rules]:
  "replaces WEB_STORAGE R s s' \<Longrightarrow> R (s WEB_STORAGE) (s' WEB_STORAGE)
     \<and> (tables_ok js s' n \<longleftrightarrow> downloads_ok (download_json js) (s DOWNLOADS)
          \<and> storage_ok (storage_json js) (s' WEB_STORAGE) n)
     \<and> profile_of js s' = (profile_of js s)\<lparr>pf_storage := storage_list (storage_json js) (s' WEB_STORAGE)\<rparr>"
  by (simp add: replaces_def profile_of_def tables_ok_def)

subsection \<open>One operation\<close>

text \<open>What a successful operation establishes.\<close>

definition advances :: "'e codecs \<Rightarrow> nat \<Rightarrow> store_op \<Rightarrow> tables \<Rightarrow> tables \<Rightarrow> bool" where
  "advances js n op s s' \<longleftrightarrow>
     ((\<forall>t. bt_ok (s t)) \<and> (\<forall>t. bt_ok (s' t)) \<and> tables_ok js s n \<longrightarrow>
        tables_ok js s' (if is_put_item op then Suc n else n)
      \<and> profile_of js s' = profile_step (profile_of js s) op)"

lemma writes_mono: "writes vw db out Q \<Longrightarrow> (\<And>s s'. Q s s' \<Longrightarrow> R s s') \<Longrightarrow> writes vw db out R"
  by (auto simp: writes_def)

lemmas advances_simps = advances_def op_ok_def is_put_item_def codecs_ok_def

lemma advance_cookies:
  assumes "redb_laws lib vw" and "codecs_ok js" and "op_ok op"
  shows "op = PutCookie origin rec \<Longrightarrow> writes vw db (store_step lib js db op) (advances js n op)"
    and "op = DeleteCookie origin name \<Longrightarrow> writes vw db (store_step lib js db op) (advances js n op)"
    and "op = ClearCookies origin \<Longrightarrow> writes vw db (store_step lib js db op) (advances js n op)"
  using assms
  by (auto intro!: writes_mono [OF put_cookie_effect] writes_mono [OF delete_cookie_effect]
      writes_mono [OF clear_cookies_effect]
      simp: advances_simps stored_simps dest!: frame_cookies [where js = js and n = n])
    (simp_all add: profile_of_def)

lemma advance_caches:
  assumes "redb_laws lib vw"
  shows "op = PutCache origin url entry \<Longrightarrow> writes vw db (store_step lib js db op) (advances js n op)"
    and "op = PutAlias origin url al \<Longrightarrow> writes vw db (store_step lib js db op) (advances js n op)"
    and "op = DeleteAlias origin url \<Longrightarrow> writes vw db (store_step lib js db op) (advances js n op)"
  using assms
  by (auto intro!: writes_mono [OF put_cache_effect] writes_mono [OF put_cache_alias_effect]
      writes_mono [OF delete_cache_alias_effect]
      simp: advances_simps dest!: frame_caches [where js = js and n = n])

lemma advance_history:
  assumes "redb_laws lib vw" and "codecs_ok js" and "op_ok op" and "op = RecordVisit origin url ts"
  shows "writes vw db (store_step lib js db op) (advances js n op)"
proof -
  have "advances js n op s s'"
    if r: "replaces HISTORY (\<lambda>m m'. \<exists>visits b.
       (case bt_get m (namespaced_key origin url) of
          None \<Rightarrow> visits = [] | Some v \<Rightarrow> from_slice (visits_json js) v = Ok visits)
       \<and> to_vec (visits_json js) (visits @ [ts]) = Ok b \<and> m' = bt_insert (namespaced_key origin url) b m) s s'"
    for s s'
  proof -
    from frame_history [OF r, where js = js and n = n] obtain visits b where
      v: "case bt_get (s HISTORY) (namespaced_key origin url) of
          None \<Rightarrow> visits = [] | Some v \<Rightarrow> from_slice (visits_json js) v = Ok visits"
      and b: "to_vec (visits_json js) (visits @ [ts]) = Ok b"
        "s' HISTORY = bt_insert (namespaced_key origin url) b (s HISTORY)" by blast
    have "NUL \<notin> set origin" using assms(3,4) by (simp add: op_ok_def)
    moreover from this v have "(case stored_at (visits_json js) (s HISTORY) origin url of None \<Rightarrow> []
        | Some visits \<Rightarrow> visits) = visits"
      by (auto simp: stored_at_def stored_def split: option.splits)
    ultimately show ?thesis
      using assms(2,4) b frame_history [OF r, where js = js and n = n]
      by (auto simp: advances_simps stored_simps) (auto simp: profile_of_def fun_eq_iff at2_def)
  qed
  then show ?thesis
    unfolding assms(4) by (auto intro!: writes_mono [OF record_visit_effect] assms(1))
qed

lemma advance_session:
  assumes "redb_laws lib vw" and "codecs_ok js" and "op = SaveSession rec"
  shows "writes vw db (store_step lib js db op) (advances js n op)"
  using assms
  by (auto intro!: writes_mono [OF save_session_record_effect]
      simp: advances_simps stored_simps session_value_def dest!: frame_session [where js = js and n = n])

lemma advance_hsts:
  assumes "redb_laws lib vw" and "codecs_ok js"
  shows "op = PutHsts rec \<Longrightarrow> writes vw db (store_step lib js db op) (advances js n op)"
    and "op = DeleteHsts host \<Longrightarrow> writes vw db (store_step lib js db op) (advances js n op)"
  using assms
  by (auto intro!: writes_mono [OF put_hsts_effect] writes_mono [OF delete_hsts_effect]
      simp: advances_simps hsts_key_def dest!: frame_hsts [where js = js and n = n])
    (auto simp: profile_of_def fun_eq_iff stored_simps)

lemma advance_permissions:
  assumes "redb_laws lib vw" and "codecs_ok js"
  shows "op = PutPermission rec \<Longrightarrow> writes vw db (store_step lib js db op) (advances js n op)"
    and "op = ClearPermissions origin \<Longrightarrow> writes vw db (store_step lib js db op) (advances js n op)"
  using assms
  by (auto intro!: writes_mono [OF put_permission_effect] writes_mono [OF clear_permissions_effect]
      simp: advances_simps stored_simps validate_permission_record_def result_simps
      dest!: frame_permissions [where js = js and n = n])
    (simp_all add: profile_of_def)

lemma advance_downloads:
  assumes "redb_laws lib vw" and "codecs_ok js"
  shows "op = PutDownload rec \<Longrightarrow> writes vw db (store_step lib js db op) (advances js n op)"
    and "op = ClearDownloads \<Longrightarrow> writes vw db (store_step lib js db op) (advances js n op)"
proof -
  let ?json = "download_json js"
  assume op: "op = PutDownload rec"
  have "advances js n op s s'"
    if r: "replaces DOWNLOADS (\<lambda>m m'. \<exists>b records.
       validate_download_record rec = (Ok () :: (unit, 'd StoreError) result) \<and> to_vec ?json rec = Ok b
       \<and> read_records ?json (\<lambda>d. (dl_started_unix d, dl_id d)) (bt_insert (to_be_bytes (dl_id rec)) b m) records
       \<and> m' = bt_remove_keys (evicted (\<lambda>(k, started, i). (started, i)) MAX_DOWNLOAD_RECORDS records)
           (bt_insert (to_be_bytes (dl_id rec)) b m)) s s'" for s s'
    unfolding advances_def
  proof (intro impI, elim conjE)
    assume ok: "\<forall>t. bt_ok (s t)" "tables_ok js s n"
    from frame_downloads [OF r, where js = js and n = n] obtain b records
      where b: "to_vec ?json rec = Ok b"
        "read_records ?json (\<lambda>d. (dl_started_unix d, dl_id d))
          (bt_insert (to_be_bytes (dl_id rec)) b (s DOWNLOADS)) records"
        "s' DOWNLOADS = bt_remove_keys (evicted (\<lambda>(k, started, i). (started, i)) MAX_DOWNLOAD_RECORDS records)
           (bt_insert (to_be_bytes (dl_id rec)) b (s DOWNLOADS))" by blast
    have "bt_ok (s DOWNLOADS)" "serde_ok ?json" "downloads_ok ?json (s DOWNLOADS)"
      using ok assms(2) by (simp_all add: codecs_ok_def tables_ok_def)
    from download_put [OF this b] ok(2) frame_downloads [OF r, where js = js and n = n]
    show "tables_ok js s' (if is_put_item op then Suc n else n) \<and>
        profile_of js s' = profile_step (profile_of js s) op"
      by (simp add: op is_put_item_def tables_ok_def) (simp add: profile_of_def)
  qed
  then show "writes vw db (store_step lib js db op) (advances js n op)"
    unfolding op by (auto intro!: writes_mono [OF put_download_effect] assms(1))
next
  assume "op = ClearDownloads"
  with assms show "writes vw db (store_step lib js db op) (advances js n op)"
    by (auto intro!: writes_mono [OF clear_downloads_effect]
        simp: advances_simps tables_ok_def downloads_ok_def download_values_def sort_newest_first_def
        dest!: frame_downloads [where js = js and n = n])
qed

lemma advance_clear_profile:
  assumes "redb_laws lib vw" and "op = ClearProfile sel"
  shows "writes vw db (store_step lib js db op) (advances js n op)"
  unfolding assms(2)
  by (auto intro!: writes_mono [OF clear_profile_data_effect] assms(1)
      simp: advances_simps profile_of_def empty_profile_def tables_ok_def downloads_ok_def storage_ok_def
        fun_eq_iff download_values_def sort_newest_first_def session_value_def storage_list_def storage_items_def)

lemma put_item_tables:
  assumes "bt_ok m" and "bt_ok m'" and "serde_ok json" and "storage_ok json m n" and "Suc n < 2 ^ 64"
    and "NUL \<notin> set p" and "utf8_valid k"
    and "case bt_get m (namespaced_key p k) of None \<Rightarrow> next_sequence json m p seq
      | Some v \<Rightarrow> \<exists>r. from_slice json v = Ok r \<and> ws_sequence r = seq"
    and "to_vec json \<lparr>ws_value = val, ws_sequence = seq\<rparr> = Ok b"
    and "m' = bt_insert (namespaced_key p k) b m"
  shows "storage_ok json m' (Suc n)
    \<and> storage_list json m' = (storage_list json m)(p := set_item k val (storage_list json m p))"
proof -
  have at: "stored_at json m' = at2 (stored_at json m) p k (Some \<lparr>ws_value = val, ws_sequence = seq\<rparr>)"
    unfolding assms(10) using assms(1,3,9,6) by (rule stored_at_insert)
  show ?thesis
  proof (cases "bt_get m (namespaced_key p k)")
    case None
    with assms(6) have none: "stored_at json m p k = None" by (simp add: stored_at_def stored_def)
    from None assms(8) have "next_sequence json m p seq" by simp
    note above = next_sequence_above [OF this assms(1,6,4,5)]
    show ?thesis
      by (rule storage_append [OF assms(1,2,4,6,7) at none]) (use above in auto)
  next
    case (Some v)
    with assms(8) obtain r where r: "from_slice json v = Ok r" "ws_sequence r = seq" by auto
    with Some assms(6) have "stored_at json m p k = Some r" by (simp add: stored_at_def stored_def)
    from storage_overwrite [OF assms(1,2,4,6) at this r(2)] show ?thesis
      using storage_ok_mono [of json m' n "Suc n"] by simp
  qed
qed

lemma advance_put_item:
  assumes "redb_laws lib vw" and "codecs_ok js" and "op_ok op" and "Suc n < 2 ^ 64" and op: "op = PutItem p k v"
  shows "writes vw db (store_step lib js db op) (advances js n op)"
proof -
  let ?json = "storage_json js"
  have json: "serde_ok ?json" using assms(2) by (simp add: codecs_ok_def)
  have "advances js n op s s'"
    if r: "replaces WEB_STORAGE (\<lambda>m m'. \<exists>seq b. p \<noteq> [] \<and> NUL \<notin> set p \<and> k \<noteq> [] \<and> NUL \<notin> set k
       \<and> (case bt_get m (namespaced_key p k) of
            None \<Rightarrow> next_sequence ?json m p seq
          | Some v \<Rightarrow> \<exists>r. from_slice ?json v = Ok r \<and> ws_sequence r = seq)
       \<and> to_vec ?json \<lparr>ws_value = v, ws_sequence = seq\<rparr> = Ok b
       \<and> m' = bt_insert (namespaced_key p k) b m) s s'" for s s'
    unfolding advances_def
  proof (intro impI, elim conjE)
    assume ok: "\<forall>t. bt_ok (s t)" "\<forall>t. bt_ok (s' t)" "tables_ok js s n"
    note frame = frame_storage [OF r, where js = js and n = "Suc n"]
    then obtain seq b where put: "NUL \<notin> set p"
      "case bt_get (s WEB_STORAGE) (namespaced_key p k) of
          None \<Rightarrow> next_sequence ?json (s WEB_STORAGE) p seq
        | Some v \<Rightarrow> \<exists>r. from_slice ?json v = Ok r \<and> ws_sequence r = seq"
      "to_vec ?json \<lparr>ws_value = v, ws_sequence = seq\<rparr> = Ok b"
      "s' WEB_STORAGE = bt_insert (namespaced_key p k) b (s WEB_STORAGE)" by blast
    have "storage_ok ?json (s WEB_STORAGE) n" "utf8_valid k"
      using ok(3) assms(3) op by (simp_all add: tables_ok_def op_ok_def)
    from put_item_tables [OF _ _ json this(1) assms(4) put(1) this(2) put(2-4)] ok frame
    show "tables_ok js s' (if is_put_item op then Suc n else n) \<and>
        profile_of js s' = profile_step (profile_of js s) op"
      by (simp add: op is_put_item_def tables_ok_def) (simp add: profile_of_def)
  qed
  then show ?thesis
    unfolding op by (auto intro!: writes_mono [OF put_storage_item_effect] assms(1))
qed

text \<open>Removing some of the items of a partition.\<close>

lemma advances_restrict:
  assumes r: "replaces WEB_STORAGE (\<lambda>m m'. NUL \<notin> set p \<and> m' = f m) s s'"
    and at: "\<And>m q k. NUL \<notin> set p \<Longrightarrow> stored_at (storage_json js) (f m) q k
      = (if q = p \<and> P k then None else stored_at (storage_json js) m q k)"
    and op: "\<not> is_put_item op" "\<And>R. profile_step R op =
      R\<lparr>pf_storage := (pf_storage R)(p := filter (\<lambda>e. \<not> P (fst e)) (pf_storage R p))\<rparr>"
  shows "advances js n op s s'"
  unfolding advances_def
proof (intro impI, elim conjE)
  let ?json = "storage_json js"
  assume ok: "\<forall>t. bt_ok (s t)" "\<forall>t. bt_ok (s' t)" "tables_ok js s n"
  note frame = frame_storage [OF r, where js = js and n = n]
  then have f: "s' WEB_STORAGE = f (s WEB_STORAGE)" "NUL \<notin> set p" by simp_all
  have bt: "bt_ok (f (s WEB_STORAGE))" using ok(2) f(1) by metis
  have "storage_ok ?json (s' WEB_STORAGE) n \<and> storage_list ?json (s' WEB_STORAGE) =
      (storage_list ?json (s WEB_STORAGE))(p := filter (\<lambda>e. \<not> P (fst e)) (storage_list ?json (s WEB_STORAGE) p))"
    using ok by (intro storage_restrict) (simp_all add: f at bt tables_ok_def)
  moreover have "downloads_ok (download_json js) (s DOWNLOADS)" using ok(3) by (simp add: tables_ok_def)
  with frame have "tables_ok js s' n \<longleftrightarrow> storage_ok ?json (s' WEB_STORAGE) n" by blast
  moreover from frame have "profile_of js s' = (profile_of js s)\<lparr>pf_storage := storage_list ?json (s' WEB_STORAGE)\<rparr>"
    by simp
  ultimately show "tables_ok js s' (if is_put_item op then Suc n else n) \<and>
      profile_of js s' = profile_step (profile_of js s) op"
    using op by (simp add: profile_of_def)
qed

lemma advance_removals:
  assumes "redb_laws lib vw"
  shows "op = RemoveItem p k \<Longrightarrow> writes vw db (store_step lib js db op) (advances js n op)"
    and "op = ClearPartition p \<Longrightarrow> writes vw db (store_step lib js db op) (advances js n op)"
proof -
  show "writes vw db (store_step lib js db op) (advances js n op)" if op: "op = RemoveItem p k"
    unfolding op store_step.simps
    by (rule writes_mono [OF remove_storage_item_effect [OF assms]],
        erule advances_restrict [where P = "\<lambda>k'. k' = k"])
      (auto simp: stored_simps at2_def is_put_item_def)
  show "writes vw db (store_step lib js db op) (advances js n op)" if op: "op = ClearPartition p"
    unfolding op store_step.simps
    by (rule writes_mono [OF clear_storage_partition_effect [OF assms]],
        erule advances_restrict [where P = "\<lambda>_. True"])
      (auto simp: stored_simps is_put_item_def)
qed

lemma advance_step:
  assumes "redb_laws lib vw" and "codecs_ok js" and "op_ok op" and "Suc n < 2 ^ 64"
  shows "writes vw db (store_step lib js db op) (advances js n op)"
  using advance_cookies [OF assms(1-3)] advance_caches [OF assms(1)] advance_history [OF assms(1-3)]
    advance_session [OF assms(1,2)] advance_hsts [OF assms(1,2)] advance_permissions [OF assms(1,2)]
    advance_downloads [OF assms(1,2)] advance_clear_profile [OF assms(1)] advance_put_item [OF assms]
    advance_removals [OF assms(1)]
  by (cases op) blast+

subsection \<open>Runs\<close>

primrec store_run ::
    "('db, 'tx, 'rd, 'e) redb \<Rightarrow> 'e codecs \<Rightarrow> 'db \<Rightarrow> store_op list \<Rightarrow> 'db \<times> (unit, 'e StoreError) result list" where
  "store_run lib js db [] = (db, [])"
| "store_run lib js db (op # ops) =
     (case store_step lib js db op of (db', r) \<Rightarrow>
      case store_run lib js db' ops of (db'', rs) \<Rightarrow> (db'', r # rs))"

text \<open>The profile after a run: the operations that succeeded, in order.\<close>

fun profile_run :: "profile \<Rightarrow> store_op list \<Rightarrow> (unit, 'e StoreError) result list \<Rightarrow> profile" where
  "profile_run P (op # ops) (r # rs) = profile_run (if is_ok r then profile_step P op else P) ops rs"
| "profile_run P _ _ = P"

lemma store_run_refines:
  assumes "redb_laws lib vw" and "codecs_ok js"
  shows "tables_ok js (contents vw db) n \<Longrightarrow> list_all op_ok ops \<Longrightarrow>
    n + length (filter is_put_item ops) + 1 < 2 ^ 64 \<Longrightarrow> store_run lib js db ops = (db', rs) \<Longrightarrow>
    list_all (\<lambda>r. \<not> commit_failed r) rs \<Longrightarrow>
    tables_ok js (contents vw db') (n + length (filter is_put_item ops))
    \<and> profile_of js (contents vw db') = profile_run (profile_of js (contents vw db)) ops rs"
proof (induction ops arbitrary: db n rs)
  case Nil
  then show ?case by simp
next
  case (Cons op ops)
  obtain db1 r where step: "store_step lib js db op = (db1, r)" by force
  obtain rs' where run: "store_run lib js db1 ops = (db', rs')" and rs: "rs = r # rs'"
    using Cons.prems(4) step by (auto split: prod.splits)
  let ?n = "if is_put_item op then Suc n else n"
  have ok: "bt_ok (contents vw d t)" for d t using redb_lawsD(1) [OF assms(1)] .
  have "writes vw db (db1, r) (advances js n op)"
    using advance_step [OF assms, of op n db] Cons.prems(2,3) step by simp
  with Cons.prems(1,5) ok rs have next_ok: "tables_ok js (contents vw db1) ?n"
    "profile_of js (contents vw db1) = (if is_ok r then profile_step (profile_of js (contents vw db)) op
       else profile_of js (contents vw db))"
    by (cases r; auto simp: writes_def advances_def tables_ok_def intro: storage_ok_mono)+
  have "tables_ok js (contents vw db') (?n + length (filter is_put_item ops))
    \<and> profile_of js (contents vw db') = profile_run (profile_of js (contents vw db1)) ops rs'"
    by (rule Cons.IH [OF next_ok(1) _ _ run]) (use Cons.prems rs in auto)
  with next_ok(2) rs show ?case by (auto split: if_splits)
qed

end
