(* ===== verification/Profile_Reads.thy ===== *)
theory Profile_Reads
  imports Profile_Simulation
begin

section \<open>What reads return\<close>

text \<open>Each read that succeeds returns what the profile of the tables holds.\<close>

lemma decode_found:
  assumes "(case x of None \<Rightarrow> Ok None | Some v \<Rightarrow> and_then (decode_record json v) (\<lambda>r. Ok (Some (f r)))) = Ok y"
  shows "y = map_option f (case x of None \<Rightarrow> None | Some b \<Rightarrow> (case from_slice json b of Ok r \<Rightarrow> Some r | Err _ \<Rightarrow> None))"
  using assms by (cases x) (auto simp: result_simps)

lemma visits_for_Ok:
  assumes "redb_laws lib vw" and "Store_visits_for lib (visits_json js) db origin url = Ok visits" and "NUL \<notin> set origin"
  shows "visits = pf_visits (profile_of js (contents vw db)) origin url"
proof -
  from assms(2) [unfolded Store_visits_for_def] obtain rd where
    rd: "and_then (read_get lib rd HISTORY (namespaced_key origin url))
        (case_option (Ok []) (decode_record (visits_json js))) = Ok visits" "seen vw rd = contents vw db"
    by (elim in_read_Ok [OF assms(1)]) (simp add: Let_def)
  then show ?thesis
    using assms(3) by (auto simp: result_simps profile_of_def stored_at_def stored_def
        dest!: read_get_Ok [OF assms(1)] split: option.splits)
qed

lemma hsts_Ok:
  assumes "redb_laws lib vw" and "Store_hsts lib (hsts_json js) db host = Ok found"
  shows "found = pf_hsts (profile_of js (contents vw db)) (to_ascii_lowercase host)"
  using assms(2) unfolding Store_hsts_def
  by (auto simp: result_simps Let_def profile_of_def stored_def hsts_key_def
      elim!: in_read_Ok [OF assms(1)] dest!: read_get_Ok [OF assms(1)] split: option.splits)

lemma permission_Ok:
  assumes "redb_laws lib vw" and "Store_permission lib (permission_json js) db origin kind = Ok found"
  shows "found = pf_permissions (profile_of js (contents vw db)) origin kind"
  using assms(2) unfolding Store_permission_def
  by (auto simp: result_simps Let_def profile_of_def stored_at_def stored_def
      elim!: in_read_Ok [OF assms(1)] dest!: read_get_Ok [OF assms(1)] split: option.splits)

lemma load_session_record_Ok:
  assumes "redb_laws lib vw" and "Store_load_session_record lib (tabs_json js) (session_json js) db = Ok rec"
  shows "rec = pf_session (profile_of js (contents vw db))"
  using assms(2) unfolding Store_load_session_record_def
  by (auto simp: result_simps Let_def profile_of_def session_value_def stored_def
      elim!: in_read_Ok [OF assms(1)] dest!: read_get_Ok [OF assms(1)] split: option.splits)

text \<open>A loop that keeps what a partial function gives.\<close>

lemma picks_filter:
  assumes "picks f m ys" and "\<And>kv y. kv \<in> set m \<Longrightarrow> f kv = Ok y \<Longrightarrow> y = g kv"
  shows "ys = List.map_filter g m"
proof -
  have "(case f kv of Ok y \<Rightarrow> y | Err _ \<Rightarrow> None) = g kv" if "kv \<in> set m" for kv
    using assms that by (auto simp: picks_def is_ok_iff split: result.splits)
  with assms(1) have "ys = List.map_filter (\<lambda>kv. case f kv of Ok y \<Rightarrow> y | Err _ \<Rightarrow> None) m"
    by (simp add: picks_def)
  also have "\<dots> = List.map_filter g m"
    using \<open>\<And>kv. kv \<in> set m \<Longrightarrow> _ = g kv\<close> by (induction m) (auto split: option.splits)
  finally show ?thesis .
qed

lemma picks_all: "picks (\<lambda>(k, v). and_then (decode_record json v) (\<lambda>d. Ok (Some d))) m ds \<Longrightarrow>
    ds = List.map_filter (\<lambda>(k, b). case from_slice json b of Ok d \<Rightarrow> Some d | Err _ \<Rightarrow> None) m"
  by (erule picks_filter) (auto simp: result_simps)

lemma downloads_Ok:
  assumes "redb_laws lib vw" and "Store_downloads lib (download_json js) db = Ok ds"
  shows "ds = pf_downloads (profile_of js (contents vw db))"
  using assms(2) unfolding Store_downloads_def
  by (auto simp: result_simps profile_of_def download_values_def
      elim!: in_read_Ok [OF assms(1)] dest!: read_each_Ok [OF assms(1)] picks_all)

lemma storage_entries_Ok:
  assumes "redb_laws lib vw" and "Store_storage_entries lib (storage_json js) db pkey = Ok es"
  shows "es = pf_storage (profile_of js (contents vw db)) pkey"
proof -
  let ?f = "\<lambda>(k, v). case strip_prefix k (namespaced_prefix pkey) of None \<Rightarrow> Ok None
     | Some raw_key \<Rightarrow> and_then (decode_record (storage_json js) v) (\<lambda>rec.
         and_then (if utf8_valid raw_key then Ok raw_key else Err Utf8) (\<lambda>key.
         Ok (Some (ws_sequence rec, key, ws_value rec))))"
  from assms(2) obtain rd out where rd: "seen vw rd = contents vw db" "NUL \<notin> set pkey"
    and out: "read_each lib rd WEB_STORAGE ?f = Ok out"
      "es = map (\<lambda>(seq, key, val). (key, val)) (sort_key fst out)"
    unfolding Store_storage_entries_def
    by (auto simp: result_simps Let_def elim!: in_read_Ok [OF assms(1)])
  have "out = List.map_filter (storage_item (storage_json js) pkey) (contents vw db WEB_STORAGE)"
    using read_each_Ok [OF assms(1) out(1)] unfolding rd
    by (rule picks_filter) (auto simp: storage_item_def result_simps split: option.splits if_splits)
  with out(2) rd(2) show ?thesis
    by (simp add: profile_of_def storage_list_def storage_items_def split_beta)
qed

lemma partition_lookup:
  assumes "bt_ok m" and "storage_ok json m n" and "NUL \<notin> set p"
  shows "map_of (storage_list json m p) k = map_option ws_value (stored_at json m p k)"
proof -
  from partition_listed [OF assms] obtain L
    where L: "lists_partition json m p L" "storage_list json m p = map snd L" .
  have uniq: "s = s' \<and> v = v'" if "(s, k', v) \<in> set L" "(s', k', v') \<in> set L" for s s' k' v v'
    using that L(1) by (auto simp: lists_partition_def)
  have "inj_on (\<lambda>e. fst (snd e)) (set L)" by (rule inj_onI) (use uniq in force)
  moreover have "distinct L" using L(1) bt_ok_distinct [of L] by (simp add: lists_partition_def distinct_map)
  ultimately have "distinct (map fst (map snd L))" by (simp add: distinct_map comp_def)
  then have "map_of (map snd L) k = Some v \<longleftrightarrow> (\<exists>s. (s, k, v) \<in> set L)" for v
    by (force simp: map_of_eq_Some_iff)
  also have "(\<exists>s. (s, k, v) \<in> set L) \<longleftrightarrow> map_option ws_value (stored_at json m p k) = Some v" for v
    using L(1) by (auto simp: lists_partition_def) (metis WebStorageRecord.surjective old.unit.exhaust)
  finally show ?thesis using L(2) by (metis not_None_eq)
qed

lemma get_storage_item_Ok:
  assumes "redb_laws lib vw" and "tables_ok js (contents vw db) n"
    and "Store_get_storage_item lib (storage_json js) db pkey key = Ok found"
  shows "found = map_of (pf_storage (profile_of js (contents vw db)) pkey) key"
proof -
  have NUL: "NUL \<notin> set pkey"
    using assms(3) by (auto simp: Store_get_storage_item_def result_simps)
  have "found = map_option ws_value (stored_at (storage_json js) (contents vw db WEB_STORAGE) pkey key)"
    using assms(3) NUL unfolding Store_get_storage_item_def
    by (auto simp: result_simps Let_def stored_at_def stored_def
        elim!: in_read_Ok [OF assms(1)] dest!: read_get_Ok [OF assms(1)] split: option.splits)
  with partition_lookup [OF redb_lawsD(1) [OF assms(1)] _ NUL, of "storage_json js" db WEB_STORAGE n key] assms(2)
  show ?thesis by (simp add: profile_of_def tables_ok_def)
qed

text \<open>The records under an origin, by name.\<close>

definition record_under :: "('a, 'e) serde \<Rightarrow> string \<Rightarrow> bytes \<times> bytes \<Rightarrow> (string \<times> 'a) option" where
  "record_under json p kv =
     (case strip_prefix (fst kv) (namespaced_prefix p) of
        None \<Rightarrow> None
      | Some raw \<Rightarrow> (case from_slice json (snd kv) of Ok r \<Rightarrow> Some (raw, r) | Err _ \<Rightarrow> None))"

definition records_under :: "('a, 'e) serde \<Rightarrow> key_values \<Rightarrow> string \<Rightarrow> (string, 'a) btree" where
  "records_under json m p = List.map_filter (record_under json p) m"

lemma record_under_Some:
  "record_under json p kv = Some (n, r) \<longleftrightarrow> fst kv = namespaced_key p n \<and> from_slice json (snd kv) = Ok r"
  by (auto simp: record_under_def strip_namespaced split: option.splits result.splits)
    (metis option.distinct(1) strip_namespaced, metis option.inject strip_namespaced)

lemma namespaced_key_less: "namespaced_key p a < namespaced_key p b \<longleftrightarrow> a < b"
  unfolding namespaced_key_def by (induction p) simp_all

lemma bt_ok_records_under: "bt_ok m \<Longrightarrow> bt_ok (records_under json m p)"
proof (induction m)
  case Nil
  then show ?case by (simp add: records_under_def)
next
  case (Cons kv m)
  have "n < n'" if "record_under json p kv = Some (n, r)" "(n', r') \<in> set (records_under json m p)" for n r n' r'
    using that Cons.prems namespaced_key_less [of p n n']
    by (fastforce simp: records_under_def in_map_filter record_under_Some bt_ok_Cons)
  with Cons show ?case
    by (force simp: records_under_def bt_ok_Cons split: option.split)
qed

lemma map_of_records_under:
  assumes "bt_ok m" and "NUL \<notin> set p"
  shows "map_of (records_under json m p) = stored_at json m p"
proof
  fix n
  have "map_of (records_under json m p) n = Some r \<longleftrightarrow> stored_at json m p n = Some r" for r
    using bt_get_eq_Some [OF bt_ok_records_under [OF assms(1)], of json p n r]
    by (auto simp: bt_get_def records_under_def in_map_filter record_under_Some stored_at_Some [OF assms])
      (metis fst_conv snd_conv)
  then show "map_of (records_under json m p) n = stored_at json m p n" by (metis not_None_eq)
qed

definition listed_by_name :: "(string \<Rightarrow> 'a option) \<Rightarrow> 'a list" where
  "listed_by_name f = map (\<lambda>n. the (f n)) (sorted_list_of_set (dom f))"

lemma records_under_listed:
  assumes "bt_ok m" and "NUL \<notin> set p"
  shows "map snd (records_under json m p) = listed_by_name (stored_at json m p)"
proof -
  let ?Z = "records_under json m p"
  have Z: "bt_ok ?Z" using assms(1) by (rule bt_ok_records_under)
  have "sorted_list_of_set (dom (map_of ?Z)) = map fst ?Z"
    using Z unfolding dom_map_of_conv_image_fst
    by (metis bt_ok_def bt_ok_distinct list.set_map sorted_list_of_set.idem_if_sorted_distinct strict_sorted_iff)
  moreover have "map snd ?Z = map (\<lambda>n. the (map_of ?Z n)) (map fst ?Z)"
    using bt_ok_distinct [OF Z] by (auto intro!: map_cong)
  ultimately show ?thesis
    by (simp add: listed_by_name_def map_of_records_under [OF assms])
qed

lemma map_snd_map_filter: "map snd (List.map_filter f xs) = List.map_filter (\<lambda>x. map_option snd (f x)) xs"
  by (induction xs) (auto split: option.splits)

lemma read_under:
  assumes "redb_laws lib vw" and "read_each lib rd t f = Ok rs" and "seen vw rd = contents vw db" and "NUL \<notin> set p"
    and "\<And>kv y. f kv = Ok y \<Longrightarrow> y = map_option snd (record_under json p kv)"
  shows "rs = listed_by_name (stored_at json (contents vw db t) p)"
proof -
  have "picks f (contents vw db t) rs" using read_each_Ok [OF assms(1,2)] assms(3) by simp
  then have "rs = List.map_filter (\<lambda>kv. map_option snd (record_under json p kv)) (contents vw db t)"
    by (rule picks_filter) (rule assms(5))
  with records_under_listed [OF redb_lawsD(1) [OF assms(1)] assms(4), of json db t] show ?thesis
    by (simp add: records_under_def map_snd_map_filter)
qed

lemma cookies_for_Ok:
  assumes "redb_laws lib vw" and "Store_cookies_for lib (cookie_json js) db origin = Ok cs" and "NUL \<notin> set origin"
  shows "cs = listed_by_name (pf_cookies (profile_of js (contents vw db)) origin)"
proof -
  from assms(2) [unfolded Store_cookies_for_def] obtain rd
    where "read_each lib rd COOKIES (\<lambda>(k, v). if \<not> str_starts_with k (namespaced_prefix origin) then Ok None
        else case decode_record (cookie_json js) v of Ok rec \<Rightarrow> Ok (Some rec) | Err _ \<Rightarrow> Ok None) = Ok cs"
      and "seen vw rd = contents vw db"
    by (elim in_read_Ok [OF assms(1)])
  then have "cs = listed_by_name (stored_at (cookie_json js) (contents vw db COOKIES) origin)"
    by (rule read_under [OF assms(1) _ _ assms(3)])
      (auto simp: record_under_def strip_prefix_def decode_record_def split: result.splits if_splits)
  then show ?thesis by (simp add: profile_of_def)
qed

lemma permissions_for_Ok:
  assumes "redb_laws lib vw" and "Store_permissions_for lib (permission_json js) db origin = Ok ps"
  shows "ps = sort_key pr_kind (listed_by_name (pf_permissions (profile_of js (contents vw db)) origin))"
proof -
  from assms(2) obtain rd out where NUL: "NUL \<notin> set origin" and ps: "ps = sort_key pr_kind out"
    and out: "read_each lib rd PERMISSIONS (\<lambda>(k, v). if str_starts_with k (namespaced_prefix origin)
        then and_then (decode_record (permission_json js) v) (\<lambda>r. Ok (Some r)) else Ok None) = Ok out"
      "seen vw rd = contents vw db"
    by (auto simp: Store_permissions_for_def Let_def result_simps elim!: in_read_Ok [OF assms(1)])
  have "out = listed_by_name (stored_at (permission_json js) (contents vw db PERMISSIONS) origin)"
    by (rule read_under [OF assms(1) out NUL]) (auto simp: record_under_def strip_prefix_def result_simps split: if_splits)
  with ps show ?thesis by (simp add: profile_of_def)
qed

end
