(* ===== verification/Profile_Properties.thy ===== *)
theory Profile_Properties
  imports Profile_Reads
begin

section \<open>Properties of the persistent store\<close>

text \<open>The results about \<open>Store\<close>, and an in-memory database on which they are applied.\<close>

subsection \<open>Lemmas\<close>

lemma empty_tables: "tables_ok js (\<lambda>_. []) 0" "profile_of js (\<lambda>_. []) = empty_profile"
  by (auto simp: tables_ok_def downloads_ok_def storage_ok_def profile_of_def empty_profile_def fun_eq_iff
      session_value_def download_values_def sort_newest_first_def storage_list_def storage_items_def)

text \<open>A read returns this value, or an error.\<close>

definition returns :: "('a, 'e StoreError) result \<Rightarrow> 'a \<Rightarrow> bool" where
  "returns r x = (case r of Ok y \<Rightarrow> y = x | Err _ \<Rightarrow> True)"

lemma returnsI: "(\<And>y. r = Ok y \<Longrightarrow> y = x) \<Longrightarrow> returns r x"
  by (cases r) (simp_all add: returns_def)

lemma returns_same: "returns r x \<Longrightarrow> returns r' x \<Longrightarrow> r = Ok y \<Longrightarrow> r' = Ok y' \<Longrightarrow> y' = y"
  by (simp add: returns_def)

text \<open>Every read of the store.\<close>

definition reads_agree ::
    "('db, 'tx, 'rd, 'e) redb \<Rightarrow> 'e codecs \<Rightarrow> 'db \<Rightarrow> profile \<Rightarrow> string \<Rightarrow> string \<Rightarrow> bool" where
  "reads_agree lib js db P origin name \<longleftrightarrow>
     returns (Store_cookies_for lib (cookie_json js) db origin) (listed_by_name (pf_cookies P origin))
   \<and> returns (Store_visits_for lib (visits_json js) db origin name) (pf_visits P origin name)
   \<and> returns (Store_load_session_record lib (tabs_json js) (session_json js) db) (pf_session P)
   \<and> returns (Store_load_session lib (tabs_json js) (session_json js) db) (sr_tabs (pf_session P))
   \<and> returns (Store_downloads lib (download_json js) db) (pf_downloads P)
   \<and> returns (Store_hsts lib (hsts_json js) db name) (pf_hsts P (to_ascii_lowercase name))
   \<and> returns (Store_permission lib (permission_json js) db origin name) (pf_permissions P origin name)
   \<and> returns (Store_permissions_for lib (permission_json js) db origin)
       (sort_key pr_kind (listed_by_name (pf_permissions P origin)))
   \<and> returns (Store_get_storage_item lib (storage_json js) db origin name) (map_of (pf_storage P origin) name)
   \<and> returns (Store_storage_entries lib (storage_json js) db origin) (pf_storage P origin)"

lemma reads_profile:
  assumes "redb_laws lib vw" and "tables_ok js (contents vw db) n" and "NUL \<notin> set origin"
  shows "reads_agree lib js db (profile_of js (contents vw db)) origin name"
  unfolding reads_agree_def
  by (intro conjI returnsI cookies_for_Ok [OF assms(1) _ assms(3)] visits_for_Ok [OF assms(1) _ assms(3)]
      load_session_record_Ok [OF assms(1)] downloads_Ok [OF assms(1)] hsts_Ok [OF assms(1)]
      permission_Ok [OF assms(1)] permissions_for_Ok [OF assms(1)] get_storage_item_Ok [OF assms(1,2)]
      storage_entries_Ok [OF assms(1)])
    (auto simp: Store_load_session_def result_simps dest: load_session_record_Ok [OF assms(1)])

lemma store_step_writes:
  assumes "redb_laws lib vw"
  shows "\<exists>Q. writes vw db (store_step lib js db op) Q"
  by (cases op; simp only: store_step.simps; rule exI;
      rule put_cookie_effect delete_cookie_effect clear_cookies_effect put_cache_effect put_cache_alias_effect
        delete_cache_alias_effect record_visit_effect save_session_record_effect put_download_effect
        clear_downloads_effect clear_profile_data_effect put_hsts_effect delete_hsts_effect
        put_permission_effect clear_permissions_effect put_storage_item_effect remove_storage_item_effect
        clear_storage_partition_effect; rule assms)

text \<open>The operations that concern an origin or a partition.\<close>

definition touches :: "store_op \<Rightarrow> string \<Rightarrow> bool" where
  "touches op origin =
     (case op of
        PutCookie o' _ \<Rightarrow> o' = origin | DeleteCookie o' _ \<Rightarrow> o' = origin | ClearCookies o' \<Rightarrow> o' = origin
      | RecordVisit o' _ _ \<Rightarrow> o' = origin
      | PutPermission rec \<Rightarrow> pr_origin_key rec = origin | ClearPermissions o' \<Rightarrow> o' = origin
      | PutItem p _ _ \<Rightarrow> p = origin | RemoveItem p _ \<Rightarrow> p = origin | ClearPartition p \<Rightarrow> p = origin
      | ClearProfile _ \<Rightarrow> True
      | _ \<Rightarrow> False)"

lemma profile_step_untouched:
  "\<not> touches op origin \<Longrightarrow> pf_cookies (profile_step P op) origin = pf_cookies P origin
     \<and> pf_visits (profile_step P op) origin = pf_visits P origin
     \<and> pf_permissions (profile_step P op) origin = pf_permissions P origin
     \<and> pf_storage (profile_step P op) origin = pf_storage P origin"
  by (cases op) (simp_all add: touches_def at2_def)

lemma profile_run_untouched:
  "list_all (\<lambda>op. \<not> touches op origin) ops \<Longrightarrow> pf_cookies (profile_run P ops rs) origin = pf_cookies P origin
     \<and> pf_visits (profile_run P ops rs) origin = pf_visits P origin
     \<and> pf_permissions (profile_run P ops rs) origin = pf_permissions P origin
     \<and> pf_storage (profile_run P ops rs) origin = pf_storage P origin"
  by (induction P ops rs rule: profile_run.induct) (simp_all add: profile_step_untouched)

lemma evict_newest:
  assumes "bt_ok m" and "read_records json f m records"
    and "m' = bt_remove_keys (evicted (\<lambda>(k, fetched). (fetched, k)) n records) m"
    and "stored json m k = Some x" and "bt_get m' k = None" and "stored json m' k' = Some x'"
  shows "f x \<le> f x'"
proof -
  note spec = evicted_spec [OF assms(1-3)]
  have rec: "(k, f x) \<in> set records" if "stored json m k = Some x" for k x
  proof -
    from that obtain b where "(k, b) \<in> set m" "from_slice json b = Ok x"
      by (auto simp: stored_Some bt_get_eq_Some [OF assms(1)])
    with assms(2) show ?thesis
      unfolding read_records_def by (fastforce simp: in_set_conv_nth list_all2_conv_all_nth prod_eq_iff)
  qed
  have "stored json m k' = Some x'" using stored_subset [OF assms(1) _ _ assms(6)] spec by blast
  then have "(k', f x') \<in> set records" by (rule rec)
  moreover have "k' \<in> fst ` set m'" using assms(6) by (auto simp: stored_Some bt_get_None)
      (metis bt_get_None option.distinct(1))
  moreover have "k \<notin> fst ` set m'" using assms(5) by (simp add: bt_get_None)
  ultimately have "(case (k, f x) of (k, t) \<Rightarrow> (t, k)) \<le> (case (k', f x') of (k, t) \<Rightarrow> (t, k))"
    using spec rec [OF assms(4)] by (metis fst_conv)
  then show ?thesis by (auto simp: less_eq_prod_def)
qed

subsection \<open>A database in memory\<close>

text \<open>A table is read as empty when its list is not sorted by its keys, so that every table is.\<close>

definition sorted_table :: "key_values \<Rightarrow> key_values" where
  "sorted_table m = (if bt_ok m then m else [])"

definition memory_redb :: "(tables, tables \<times> tables, tables, unit) redb" where
  "memory_redb = \<lparr>db_create = Ok (\<lambda>_. []), begin_write = (\<lambda>db. Ok (db, db)),
     tx_open_table = (\<lambda>tx t. (tx, Ok ())),
     tx_get = (\<lambda>tx t k. Ok (bt_get (sorted_table (snd tx t)) k)),
     tx_iter = (\<lambda>tx t. Ok (map Ok (sorted_table (snd tx t)))),
     tx_insert = (\<lambda>tx t k v. ((fst tx, (snd tx)(t := bt_insert k v (sorted_table (snd tx t)))), Ok ())),
     tx_remove = (\<lambda>tx t k. ((fst tx, (snd tx)(t := bt_remove k (sorted_table (snd tx t)))), Ok ())),
     tx_commit = (\<lambda>tx. (snd tx, Ok ())), tx_drop = fst, begin_read = Ok,
     rd_open_table = (\<lambda>rd t. Ok ()), rd_get = (\<lambda>rd t k. Ok (bt_get (sorted_table (rd t)) k)),
     rd_iter = (\<lambda>rd t. Ok (map Ok (sorted_table (rd t))))\<rparr>"

definition memory_view :: "(tables, tables \<times> tables, tables) redb_view" where
  "memory_view = \<lparr>contents = (\<lambda>db t. sorted_table (db t)), base = (\<lambda>tx t. sorted_table (fst tx t)),
     view = (\<lambda>tx t. sorted_table (snd tx t)), seen = (\<lambda>rd t. sorted_table (rd t))\<rparr>"

lemma sorted_table_ok [simp]: "bt_ok (sorted_table m)" "bt_ok m \<Longrightarrow> sorted_table m = m"
  by (simp_all add: sorted_table_def)

lemma memory_redb_laws: "redb_laws memory_redb memory_view"
  by (simp add: redb_laws_def memory_redb_def memory_view_def changes_def iterates_def fun_eq_iff)

text \<open>A codec for finitely many records.\<close>

definition table_serde :: "('a \<times> bytes) list \<Rightarrow> ('a, unit) serde" where
  "table_serde tab = \<lparr>
     to_vec = (\<lambda>x. case map_of tab x of Some b \<Rightarrow> Ok b | None \<Rightarrow> Err ()),
     from_slice = (\<lambda>b. case map_of (map prod.swap tab) b of Some x \<Rightarrow> Ok x | None \<Rightarrow> Err ())\<rparr>"

lemma table_serde_ok:
  assumes "distinct (map snd tab)"
  shows "serde_ok (table_serde tab)"
  unfolding serde_ok_def
proof (intro allI impI)
  fix x b
  assume "to_vec (table_serde tab) x = Ok b"
  then have "(b, x) \<in> set (map prod.swap tab)"
    by (auto simp: table_serde_def split: option.splits dest!: map_of_SomeD)
  moreover have "distinct (map fst (map prod.swap tab))" using assms by (simp add: comp_def)
  ultimately have "map_of (map prod.swap tab) b = Some x" by (metis map_of_is_SomeI)
  then show "from_slice (table_serde tab) b = Ok x" by (simp add: table_serde_def)
qed

definition ex_codecs :: "unit codecs" where
  "ex_codecs = \<lparr>cookie_json = table_serde [], entry_json = table_serde [], vary_json = table_serde [],
     alias_json = table_serde [], visits_json = table_serde [([5], ''v1''), ([5, 9], ''v2'')],
     tabs_json = table_serde [], session_json = table_serde [], download_json = table_serde [],
     hsts_json = table_serde [], permission_json = table_serde [],
     storage_json = table_serde [(\<lparr>ws_value = ''x'', ws_sequence = 1\<rparr>, ''a''),
       (\<lparr>ws_value = ''y'', ws_sequence = 2\<rparr>, ''b''), (\<lparr>ws_value = ''z'', ws_sequence = 1\<rparr>, ''c'')]\<rparr>"

lemma ex_codecs_ok: "codecs_ok ex_codecs"
  by (simp add: codecs_ok_def ex_codecs_def table_serde_ok)

definition ex_ops :: "store_op list" where
  "ex_ops = [PutItem ''p'' ''m'' ''x'', PutItem ''p'' ''k'' ''y'', PutItem ''p'' ''m'' ''z'',
     PutItem [] ''m'' ''x'', RecordVisit ''o'' ''u'' 5, RecordVisit ''o'' ''u'' 9]"

lemmas store_eval = Store_put_storage_item_def Store_record_visit_def in_write_def
  memory_redb_def act_bind_def act_try_def act_return_def open_table_def table_get_def table_insert_def
  table_each_def next_web_storage_sequence_def validate_storage_input_def encode_record_def decode_record_def
  namespaced_key_def namespaced_prefix_def str_starts_with_def Let_def

definition ex_db :: tables where
  "ex_db = (\<lambda>_. [])(WEB_STORAGE := [(''p'' @ NUL # ''k'', ''b''), (''p'' @ NUL # ''m'', ''c'')],
     HISTORY := [(''o'' @ NUL # ''u'', ''v2'')])"

definition ex_results :: "(unit, unit StoreError) result list" where
  "ex_results = [Ok (), Ok (), Ok (),
     Err (InvalidWebStorageInput ''partition'' ''must be non-empty''), Ok (), Ok ()]"

lemma ex_store_run: "store_run memory_redb ex_codecs (\<lambda>_. []) ex_ops = (ex_db, ex_results)"
  by (simp add: ex_ops_def ex_db_def ex_results_def store_eval ex_codecs_def table_serde_def sorted_table_def
      bt_ok_def bt_get_def)

lemma ex_storage_entries:
  "Store_storage_entries memory_redb (storage_json ex_codecs) ex_db ''p'' = Ok [(''m'', ''z''), (''k'', ''y'')]"
  by (simp add: ex_db_def Store_storage_entries_def in_read_def read_each_def store_eval ex_codecs_def
      table_serde_def sorted_table_def bt_ok_def strip_prefix_def byte_def word_le_nat_alt)

lemma ex_ops_ok: "list_all op_ok ex_ops" "list_all (\<lambda>r. \<not> commit_failed r) ex_results"
    "length (filter is_put_item ex_ops) + 1 < 2 ^ 64"
  by (simp_all add: ex_ops_def ex_results_def op_ok_def is_put_item_def commit_failed_def byte_def)

lemma memory_contents_empty: "contents memory_view (\<lambda>_. []) = (\<lambda>_. [])"
  by (simp add: memory_view_def)

subsection \<open>Results\<close>

text \<open>C15: the store behaves like a profile. After any sequence of writes to a new database, in which
  database calls may fail at any point but no commit failed, every read of cookies, permissions, visits, the session, downloads, HSTS entries
  and Web Storage that succeeds returns what the
  successful writes put there, in their order: cookies and permissions of an origin by name, visits in
  order, the last session, at most 512 downloads with the newest first, HSTS entries without regard to
  case, and the items of a Web Storage partition in the order they were first set. Writes that failed
  leave no trace. The reads of the fetch cache are not among them.\<close>

theorem store_refines_profile:
  assumes "redb_laws lib vw" and "codecs_ok js" and "contents vw db = (\<lambda>_. [])"
    and "list_all op_ok ops" and "length (filter is_put_item ops) + 1 < 2 ^ 64"
    and "store_run lib js db ops = (db', rs)" and "list_all (\<lambda>r. \<not> commit_failed r) rs"
    and "NUL \<notin> set origin"
  shows "reads_agree lib js db' (profile_run empty_profile ops rs) origin name"
proof -
  have "tables_ok js (contents vw db') (0 + length (filter is_put_item ops))
      \<and> profile_of js (contents vw db') = profile_run (profile_of js (contents vw db)) ops rs"
    using assms(4-7) by (intro store_run_refines [OF assms(1,2)]) (simp_all add: assms(3) empty_tables)
  with reads_profile [OF assms(1) _ assms(8), of js db' "0 + length (filter is_put_item ops)" name] show ?thesis
    by (simp add: assms(3) empty_tables(2))
qed

theorem store_refines_profile_witness:
  "reads_agree memory_redb ex_codecs ex_db (profile_run empty_profile ex_ops ex_results) ''p'' ''m''
   \<and> Store_storage_entries memory_redb (storage_json ex_codecs) ex_db ''p'' = Ok [(''m'', ''z''), (''k'', ''y'')]"
  by (intro conjI ex_storage_entries store_refines_profile [OF memory_redb_laws ex_codecs_ok
      memory_contents_empty ex_ops_ok(1,3) ex_store_run ex_ops_ok(2)]) simp

text \<open>C16: partitions are isolated. Whatever is done to other origins and partitions, a read for an origin
  returns the same before and after.\<close>

theorem partitions_isolated:
  assumes "redb_laws lib vw" and "codecs_ok js" and "tables_ok js (contents vw db) n"
    and "list_all op_ok ops" and "n + length (filter is_put_item ops) + 1 < 2 ^ 64"
    and "store_run lib js db ops = (db', rs)" and "list_all (\<lambda>r. \<not> commit_failed r) rs"
    and "NUL \<notin> set origin" and "list_all (\<lambda>op. \<not> touches op origin) ops"
  shows "(if Store_cookies_for lib (cookie_json js) db origin = Ok cs
      then returns (Store_cookies_for lib (cookie_json js) db' origin) cs else True)
    \<and> (if Store_visits_for lib (visits_json js) db origin url = Ok ts
      then returns (Store_visits_for lib (visits_json js) db' origin url) ts else True)
    \<and> (if Store_permissions_for lib (permission_json js) db origin = Ok ps
      then returns (Store_permissions_for lib (permission_json js) db' origin) ps else True)
    \<and> (if Store_storage_entries lib (storage_json js) db origin = Ok es
      then returns (Store_storage_entries lib (storage_json js) db' origin) es else True)"
proof -
  note run = store_run_refines [OF assms(1-7)]
  from reads_profile [OF assms(1,3,8), of url]
  have before: "reads_agree lib js db (profile_of js (contents vw db)) origin url" .
  from reads_profile [OF assms(1) _ assms(8)] run
  have "reads_agree lib js db' (profile_run (profile_of js (contents vw db)) ops rs) origin url" by metis
  with before profile_run_untouched [OF assms(9), of "profile_of js (contents vw db)" rs] show ?thesis
    by (auto simp: reads_agree_def returns_def)
qed

theorem partitions_isolated_witness:
  "returns (Store_storage_entries memory_redb (storage_json ex_codecs) ex_db ''q'')
     ([] :: (string \<times> string) list)"
proof -
  have "tables_ok ex_codecs (contents memory_view (\<lambda>_. [])) 0"
    by (simp add: memory_contents_empty empty_tables)
  moreover have "Store_storage_entries memory_redb (storage_json ex_codecs) (\<lambda>_. []) ''q'' = Ok []"
    by (simp add: Store_storage_entries_def in_read_def read_each_def store_eval sorted_table_def)
  moreover have "list_all (\<lambda>op. \<not> touches op ''q'') ex_ops" by (simp add: ex_ops_def touches_def)
  ultimately show ?thesis
    using partitions_isolated [OF memory_redb_laws ex_codecs_ok _ ex_ops_ok(1) _ ex_store_run ex_ops_ok(2),
        where n = 0 and origin = "''q''" and es = "[]"] ex_ops_ok(3) by simp
qed

text \<open>C17: writes are atomic. An operation that returns an error leaves every table as it was, wherever in its
  transaction the error happened, unless it was the commit that failed.\<close>

theorem failed_write_changes_nothing:
  assumes "redb_laws lib vw" and "store_step lib js db op = (db', Err e)" and "\<And>x. e \<noteq> Commit x"
  shows "contents vw db' = contents vw db"
proof -
  from store_step_writes [OF assms(1)] obtain Q where "writes vw db (store_step lib js db op) Q" by blast
  with assms(2,3) show ?thesis by (auto simp: writes_def commit_failed_def)
qed

theorem failed_write_changes_nothing_witness:
  "\<exists>db e. store_step memory_redb ex_codecs ex_db (PutItem ''p'' ''m'' ''w'') = (db, Err e)
     \<and> contents memory_view db = contents memory_view ex_db"
proof -
  have step: "store_step memory_redb ex_codecs ex_db (PutItem ''p'' ''m'' ''w'') = (ex_db, Err (Serde ()))"
    by (simp add: store_eval ex_db_def ex_codecs_def table_serde_def sorted_table_def bt_ok_def bt_get_def)
  then have "contents memory_view ex_db = contents memory_view ex_db"
    by (rule failed_write_changes_nothing [OF memory_redb_laws]) simp
  with step show ?thesis by blast
qed

text \<open>The fetch cache is bounded and keeps the newest. After a successful write it holds at most 512
  records, each of them the new one or one it held before, and a record that was dropped for space is not
  newer than any that is kept.\<close>

theorem fetch_cache_keeps_newest:
  assumes "redb_laws lib vw" and "serde_ok json"
    and "Store_put_cache lib json vjson db origin url entry = (db', Ok ())"
    and "fetch_cache_variant_key vjson origin url entry = Ok key"
  shows "length (contents vw db' FETCH_CACHE) \<le> MAX_FETCH_CACHE_RECORDS
    \<and> (if k \<notin> {key, namespaced_key origin url} \<and> stored json (contents vw db FETCH_CACHE) k = Some old
          \<and> bt_get (contents vw db' FETCH_CACHE) k = None
          \<and> stored json (contents vw db' FETCH_CACHE) k' = Some kept
       then ce_fetched_unix old \<le> ce_fetched_unix kept else True)
    \<and> (if stored json (contents vw db' FETCH_CACHE) k' = Some kept
       then k' = key \<and> kept = entry \<or> stored json (contents vw db FETCH_CACHE) k' = Some kept else True)"
proof -
  let ?m = "contents vw db FETCH_CACHE" and ?m' = "contents vw db' FETCH_CACHE"
  from put_cache_effect [OF assms(1), of db json vjson origin url entry] assms(3,4) obtain b records
    where b: "to_vec json entry = Ok b"
      and rd: "read_records json ce_fetched_unix (bt_insert key b (bt_remove (namespaced_key origin url) ?m)) records"
      and m': "?m' = bt_remove_keys (evicted (\<lambda>(k, fetched). (fetched, k)) MAX_FETCH_CACHE_RECORDS records)
        (bt_insert key b (bt_remove (namespaced_key origin url) ?m))"
    by (auto simp: writes_def replaces_def)
  let ?m1 = "bt_insert key b (bt_remove (namespaced_key origin url) ?m)"
  have ok: "bt_ok ?m" "bt_ok ?m1" using redb_lawsD(1) [OF assms(1)] by simp_all
  have at: "stored json ?m1 k = (if k = key then Some entry
      else if k = namespaced_key origin url then None else stored json ?m k)" for k
    using ok(1) by (simp add: stored_insert [OF _ assms(2) b] stored_remove)
  note spec = evicted_spec [OF ok(2) rd m']
  have "length ?m' \<le> MAX_FETCH_CACHE_RECORDS" using spec by simp
  moreover have "ce_fetched_unix old \<le> ce_fetched_unix kept"
    if "k \<notin> {key, namespaced_key origin url}" "stored json ?m k = Some old" "bt_get ?m' k = None"
      "stored json ?m' k' = Some kept"
    by (rule evict_newest [OF ok(2) rd m' _ that(3,4)]) (use that in \<open>simp add: at\<close>)
  moreover have "k' = key \<and> kept = entry \<or> stored json ?m k' = Some kept" if "stored json ?m' k' = Some kept"
    using stored_subset [OF ok(2) _ _ that] spec by (auto simp: at split: if_splits)
  ultimately show ?thesis by simp
qed

definition ex_entry :: CacheEntry where
  "ex_entry = \<lparr>ce_status = 200, ce_headers = [], ce_body = ''body'', ce_fetched_unix = 7, ce_vary_headers = []\<rparr>"

theorem fetch_cache_keeps_newest_witness:
  "\<exists>db key. Store_put_cache memory_redb (table_serde [(ex_entry, ''e'')]) (table_serde [([], ''[]'')])
       (\<lambda>_. []) ''o'' ''u'' ex_entry = (db, Ok ())
     \<and> length (contents memory_view db FETCH_CACHE) \<le> MAX_FETCH_CACHE_RECORDS
     \<and> stored (table_serde [(ex_entry, ''e'')]) (contents memory_view db FETCH_CACHE) key = Some ex_entry"
proof -
  let ?json = "table_serde [(ex_entry, ''e'')]" and ?vjson = "table_serde [([], ''[]'')]"
  let ?key = "fetch_cache_variant_prefix ''o'' ''u'' @ ''[]''"
  have key: "fetch_cache_variant_key ?vjson ''o'' ''u'' ex_entry = Ok ?key"
    by (simp add: fetch_cache_variant_key_def ex_entry_def encode_record_def table_serde_def)
  obtain db where db: "Store_put_cache memory_redb ?json ?vjson (\<lambda>_. []) ''o'' ''u'' ex_entry = (db, Ok ())"
      "db = (\<lambda>_. [])(FETCH_CACHE := [(?key, ''e'')])"
    using key by (simp add: Store_put_cache_def store_eval table_remove_def table_serde_def bt_remove_def
        MAX_FETCH_CACHE_RECORDS_def)
  moreover have "serde_ok ?json" by (simp add: table_serde_ok)
  moreover from db(2) have "stored ?json (contents memory_view db FETCH_CACHE) ?key = Some ex_entry"
    by (simp add: memory_view_def sorted_table_def bt_ok_def stored_def bt_get_def table_serde_def)
  ultimately show ?thesis
    using fetch_cache_keeps_newest [OF memory_redb_laws _ db(1) key] by blast
qed

text \<open>Origin keys that contain NUL are not kept apart: the cookie \<open>c\<close> of the origin \<open>a NUL b\<close> has the key of a
  cookie of the origin \<open>a\<close>. The operations on cookies, the cache and the history do not reject them.\<close>

lemma nul_keys_collide:
  "namespaced_key (''a'' @ NUL # ''b'') ''c'' = namespaced_key ''a'' (''b'' @ NUL # ''c'')"
  by (simp add: namespaced_key_def)

end
