(* ===== verification/Url_Policy.thy ===== *)
theory Url_Policy
  imports Cookie_Site
begin

section \<open>Origins and the URL policy\<close>

text \<open>
  \<open>vixen-net/src/origin.rs\<close> and \<open>url_policy.rs\<close>. URLs are parsed by the third-party \<open>url\<close> crate; \<open>NetUrl\<close>
  adds to \<open>Url\<close> what these files read of one. IP addresses are words; their predicates are those of the
  standard library. \<open>to_lowercase\<close> of a domain is compared only with strings without the letter k, the
  only ASCII letter that is the lower case of a character outside ASCII, so that lowering ASCII letters
  gives the same answers.

  The blocked addresses are shown to be exactly those of a table of networks.
\<close>

unbundle bit_operations_syntax

subsection \<open>Origins\<close>

record NetUrl = Url +
  url_host_str :: "string option"
  url_port :: "u16 option"
  url_port_or_known_default :: "u16 option"
  url_as_str :: string

record Origin =
  og_scheme :: string
  og_host :: string
  og_port :: "u16 option"
  og_opaque :: bool

definition Origin_opaque :: Origin where
  "Origin_opaque = \<lparr>og_scheme = [], og_host = [], og_port = None, og_opaque = True\<rparr>"

definition Origin_from_url :: "NetUrl \<Rightarrow> Origin" where
  "Origin_from_url url =
     (let scheme = url_scheme url in
      case url_host_str url of
        Some host \<Rightarrow>
          if scheme = ''http'' \<or> scheme = ''https'' \<or> scheme = ''ws'' \<or> scheme = ''wss''
          then \<lparr>og_scheme = scheme, og_host = host, og_port = url_port_or_known_default url, og_opaque = False\<rparr>
          else Origin_opaque
      | None \<Rightarrow> Origin_opaque)"

definition Origin_is_opaque :: "Origin \<Rightarrow> bool" where
  "Origin_is_opaque og = og_opaque og"

definition Origin_partition_key :: "Origin \<Rightarrow> string" where
  "Origin_partition_key og =
     (if og_opaque og then ''opaque''
      else (case og_port og of
          Some p \<Rightarrow> og_scheme og @ ''://'' @ og_host og @ '':'' @ show_word p
        | None \<Rightarrow> og_scheme og @ ''://'' @ og_host og))"

definition Origin_is_secure :: "Origin \<Rightarrow> bool" where
  "Origin_is_secure og \<longleftrightarrow> og_scheme og = ''https'' \<or> og_scheme og = ''wss''"

subsection \<open>IP addresses\<close>

text \<open>\<open>Ipv4Addr\<close> is its 32 bits, most significant octet first.\<close>

definition octet :: "32 word \<Rightarrow> nat \<Rightarrow> nat" where
  "octet ip i = unat (drop_bit (8 * (3 - i)) ip AND 0xFF)"

definition ipv4_is_loopback :: "32 word \<Rightarrow> bool" where
  "ipv4_is_loopback ip \<longleftrightarrow> octet ip 0 = 127"

definition ipv4_is_private :: "32 word \<Rightarrow> bool" where
  "ipv4_is_private ip \<longleftrightarrow> octet ip 0 = 10 \<or> octet ip 0 = 172 \<and> 16 \<le> octet ip 1 \<and> octet ip 1 \<le> 31
     \<or> octet ip 0 = 192 \<and> octet ip 1 = 168"

definition ipv4_is_link_local :: "32 word \<Rightarrow> bool" where
  "ipv4_is_link_local ip \<longleftrightarrow> octet ip 0 = 169 \<and> octet ip 1 = 254"

definition ipv4_is_documentation :: "32 word \<Rightarrow> bool" where
  "ipv4_is_documentation ip \<longleftrightarrow> octet ip 0 = 192 \<and> octet ip 1 = 0 \<and> octet ip 2 = 2
     \<or> octet ip 0 = 198 \<and> octet ip 1 = 51 \<and> octet ip 2 = 100
     \<or> octet ip 0 = 203 \<and> octet ip 1 = 0 \<and> octet ip 2 = 113"

definition is_cgnat :: "32 word \<Rightarrow> bool" where
  "is_cgnat ip \<longleftrightarrow> octet ip 0 = 100 \<and> (of_nat (octet ip 1) :: u8) AND 0xC0 = 0x40"

definition is_private_ipv4 :: "32 word \<Rightarrow> bool" where
  "is_private_ipv4 ip \<longleftrightarrow> ipv4_is_loopback ip \<or> ipv4_is_private ip \<or> ipv4_is_link_local ip \<or> ip = 0
     \<or> ip = 0xFFFFFFFF \<or> ipv4_is_documentation ip \<or> is_cgnat ip"

definition segment0 :: "128 word \<Rightarrow> u16" where
  "segment0 ip = ucast (drop_bit 112 ip)"

text \<open>\<open>Ipv6Addr::to_ipv4_mapped\<close>: the last 32 bits of an address in \<open>::ffff:0:0/96\<close>.\<close>

definition to_ipv4_mapped :: "128 word \<Rightarrow> 32 word option" where
  "to_ipv4_mapped ip = (if drop_bit 32 ip = 0xFFFF then Some (ucast ip) else None)"

definition is_private_ipv6 :: "128 word \<Rightarrow> bool" where
  "is_private_ipv6 ip \<longleftrightarrow> ip = 1 \<or> ip = 0 \<or> segment0 ip AND 0xFE00 = 0xFC00 \<or> segment0 ip AND 0xFFC0 = 0xFE80
     \<or> (case to_ipv4_mapped ip of Some v4 \<Rightarrow> is_private_ipv4 v4 | None \<Rightarrow> False)"

subsection \<open>The policy\<close>

definition str_ends_with :: "string \<Rightarrow> string \<Rightarrow> bool" where
  "str_ends_with s p \<longleftrightarrow> strip_suffix s p \<noteq> None"

definition is_private_host :: "Host \<Rightarrow> bool" where
  "is_private_host host =
     (case host of
        Ipv4 ip \<Rightarrow> is_private_ipv4 ip
      | Ipv6 ip \<Rightarrow> is_private_ipv6 ip
      | Domain domain \<Rightarrow>
          (let lower = to_ascii_lowercase domain in
           lower = ''localhost'' \<or> lower = ''localhost.localdomain'' \<or> str_ends_with lower ''.local''
           \<or> str_ends_with lower ''.internal'' \<or> str_ends_with lower ''.onion'' \<or> str_ends_with lower ''.arpa''
           \<or> str_ends_with lower ''.test'' \<or> str_ends_with lower ''.example'' \<or> str_ends_with lower ''.invalid''))"

datatype UrlPolicyError = UnsupportedScheme string | BlockedHost string

definition validate_http_url :: "dns_lib \<Rightarrow> 'u Url_scheme \<Rightarrow> (unit, UrlPolicyError) result" where
  "validate_http_url dns url =
     (if url_scheme url \<noteq> ''http'' \<and> url_scheme url \<noteq> ''https'' then Err (UnsupportedScheme (url_scheme url))
      else (case url_host url of
          Some host \<Rightarrow> if is_private_host host then Err (BlockedHost (host_to_string dns host)) else Ok ()
        | None \<Rightarrow> Ok ()))"

subsection \<open>The networks that are blocked\<close>

text \<open>An address lies in a network when they agree on its leading bits.\<close>

definition in_network :: "'w::len word \<Rightarrow> 'w word \<times> nat \<Rightarrow> bool" where
  "in_network ip net \<longleftrightarrow> drop_bit (LENGTH('w) - snd net) ip = drop_bit (LENGTH('w) - snd net) (fst net)"

definition blocked_ipv4 :: "(32 word \<times> nat) list" where
  "blocked_ipv4 = [(0x7F000000, 8), (0x0A000000, 8), (0xAC100000, 12), (0xC0A80000, 16), (0xA9FE0000, 16),
     (0, 32), (0xFFFFFFFF, 32), (0xC0000200, 24), (0xC6336400, 24), (0xCB007100, 24), (0x64400000, 10)]"

definition blocked_ipv6 :: "(128 word \<times> nat) list" where
  "blocked_ipv6 = [(1, 128), (0, 128), (0xFC000000000000000000000000000000, 7), (0xFE800000000000000000000000000000, 10)]
     @ map (\<lambda>(net, len). (0xFFFF00000000 + ucast net, 96 + len)) blocked_ipv4"

lemma unat_drop_bit: "unat (drop_bit k x) = unat (x :: 'w::len word) div 2 ^ k"
proof -
  have "take_bit LENGTH('w) (unat x) = unat x" by (rule take_bit_nat_eq_self) (rule unsigned_less)
  then show ?thesis by (simp only: unsigned_drop_bit_eq) (simp only: drop_bit_eq_div)
qed

lemma octet_unat: "octet ip i = unat ip div 2 ^ (8 * (3 - i)) mod 256"
proof -
  have "drop_bit (8 * (3 - i)) ip AND 0xFF = take_bit 8 (drop_bit (8 * (3 - i)) ip)"
    by (simp add: take_bit_eq_mask mask_eq_exp_minus_1)
  then have "octet ip i = unat (take_bit 8 (drop_bit (8 * (3 - i)) ip))" by (simp only: octet_def)
  also have "\<dots> = unat (drop_bit (8 * (3 - i)) ip) mod 256"
    by (simp only: unsigned_take_bit_eq) (simp add: take_bit_eq_mod)
  finally show ?thesis by (simp only: unat_drop_bit)
qed

lemma in_network_unat:
  "in_network (ip :: 'w::len word) net \<longleftrightarrow>
     unat ip div 2 ^ (LENGTH('w) - snd net) = unat (fst net) div 2 ^ (LENGTH('w) - snd net)"
  by (simp only: in_network_def word_unat_eq_iff unat_drop_bit)

lemma base256: "(n :: nat) = (n div 16777216) * 16777216 + (n div 65536 mod 256) * 65536 + (n div 256 mod 256) * 256 + n mod 256"
proof -
  have "n = n div 256 * 256 + n mod 256" by simp
  moreover have "n div 256 = n div 65536 * 256 + n div 256 mod 256"
    using div_mult_mod_eq [of "n div 256" 256] by (simp add: div_mult2_eq [symmetric])
  moreover have "n div 65536 = n div 16777216 * 256 + n div 65536 mod 256"
    using div_mult_mod_eq [of "n div 65536" 256] by (simp add: div_mult2_eq [symmetric])
  ultimately show ?thesis by linarith
qed

lemma octets_of:
  obtains a b c d where "unat (ip :: 32 word) = a * 16777216 + b * 65536 + c * 256 + d"
    and "a < 256" "b < 256" "c < 256" "d < 256"
    and "octet ip 0 = a" "octet ip 1 = b" "octet ip 2 = c"
proof
  let ?n = "unat ip"
  have n: "?n < 4294967296" using unsigned_less [of ip] by simp
  show "?n = (?n div 16777216) * 16777216 + (?n div 65536 mod 256) * 65536 + (?n div 256 mod 256) * 256 + ?n mod 256"
    by (rule base256)
  show "?n div 16777216 < 256" using n by simp
  then show "octet ip 0 = ?n div 16777216" by (simp add: octet_unat)
  show "octet ip 1 = ?n div 65536 mod 256" "octet ip 2 = ?n div 256 mod 256" by (simp_all add: octet_unat)
qed simp_all

text \<open>Masking the leading bits compares what is left of the others.\<close>

lemma and_leading_mask:
  "(x :: 'w::len word) AND NOT (mask n) = y AND NOT (mask n) \<longleftrightarrow> drop_bit n x = drop_bit n y"
proof
  assume "x AND NOT (mask n) = y AND NOT (mask n)"
  then have "drop_bit n (x AND NOT (mask n)) = drop_bit n (y AND NOT (mask n))" by simp
  moreover have "drop_bit n (z AND NOT (mask n)) = drop_bit n z" for z :: "'w word"
    by (rule bit_word_eqI) (auto simp: bit_simps dest: bit_imp_le_length)
  ultimately show "drop_bit n x = drop_bit n y" by simp
next
  assume eq: "drop_bit n x = drop_bit n y"
  have "bit x i = bit y i" if "n \<le> i" for i
    using eq that by (metis bit_drop_bit_eq comp_def le_add_diff_inverse)
  then show "x AND NOT (mask n) = y AND NOT (mask n)"
    by (intro bit_word_eqI) (auto simp: bit_simps not_le)
qed

lemma cgnat_iff:
  assumes "b < 256"
  shows "(of_nat b :: u8) AND 0xC0 = 0x40 \<longleftrightarrow> b div 64 = 1"
proof -
  have masks: "(0xC0 :: u8) = NOT (mask 6)" "(0x40 :: u8) = 0x40 AND NOT (mask 6)" by code_simp+
  have "(of_nat b :: u8) AND 0xC0 = 0x40 \<longleftrightarrow> drop_bit 6 (of_nat b :: u8) = drop_bit 6 0x40"
    using and_leading_mask [of "of_nat b :: u8" 6 "0x40"] masks by metis
  also have "\<dots> \<longleftrightarrow> b div 64 = 1"
    using assms by (simp only: word_unat_eq_iff unat_drop_bit) (simp add: unat_of_nat)
  finally show ?thesis .
qed

lemma digit_eq:
  assumes "q < m" and "y < m"
  shows "a * m + q = x * m + y \<longleftrightarrow> a = x \<and> q = (y :: nat)"
proof
  assume "a * m + q = x * m + y"
  then have "(a * m + q) div m = (x * m + y) div m" "(a * m + q) mod m = (x * m + y) mod m" by simp_all
  with assms show "a = x \<and> q = y" by simp
qed simp

text \<open>Networks by the octets of the address.\<close>

lemma in_network_octets:
  "in_network (ip :: 32 word) (net, 8) \<longleftrightarrow> octet ip 0 = unat net div 16777216"
  "in_network (ip :: 32 word) (net, 10) \<longleftrightarrow> octet ip 0 * 4 + octet ip 1 div 64 = unat net div 4194304"
  "in_network (ip :: 32 word) (net, 12) \<longleftrightarrow> octet ip 0 * 16 + octet ip 1 div 16 = unat net div 1048576"
  "in_network (ip :: 32 word) (net, 16) \<longleftrightarrow> octet ip 0 * 256 + octet ip 1 = unat net div 65536"
  "in_network (ip :: 32 word) (net, 24) \<longleftrightarrow> (octet ip 0 * 256 + octet ip 1) * 256 + octet ip 2 = unat net div 256"
  "in_network (ip :: 32 word) (net, 32) \<longleftrightarrow> ip = net"
proof -
  obtain a b c d where n: "unat ip = a * 16777216 + b * 65536 + c * 256 + d"
    and lt: "a < 256" "b < 256" "c < 256" "d < 256"
    and oct: "octet ip 0 = a" "octet ip 1 = b" "octet ip 2 = c" by (rule octets_of)
  have div: "unat ip div 16777216 = a" "unat ip div 4194304 = a * 4 + b div 64"
    "unat ip div 1048576 = a * 16 + b div 16" "unat ip div 65536 = a * 256 + b"
    "unat ip div 256 = (a * 256 + b) * 256 + c"
    using lt unfolding n by simp_all
  show "in_network ip (net, 8) \<longleftrightarrow> octet ip 0 = unat net div 16777216"
    by (simp add: in_network_unat div(1) oct(1))
  show "in_network ip (net, 10) \<longleftrightarrow> octet ip 0 * 4 + octet ip 1 div 64 = unat net div 4194304"
    unfolding oct by (simp add: in_network_unat div(2))
  show "in_network ip (net, 12) \<longleftrightarrow> octet ip 0 * 16 + octet ip 1 div 16 = unat net div 1048576"
    unfolding oct by (simp add: in_network_unat div(3))
  show "in_network ip (net, 16) \<longleftrightarrow> octet ip 0 * 256 + octet ip 1 = unat net div 65536"
    unfolding oct by (simp add: in_network_unat div(4))
  show "in_network ip (net, 24) \<longleftrightarrow> (octet ip 0 * 256 + octet ip 1) * 256 + octet ip 2 = unat net div 256"
    unfolding oct by (simp add: in_network_unat div(5))
  show "in_network ip (net, 32) \<longleftrightarrow> ip = net" by (simp add: in_network_def)
qed

lemma octet_less: "octet ip i < 256"
  by (simp add: octet_unat)

lemma octets2_eq:
  "y < 256 \<Longrightarrow> octet ip 0 * 256 + octet ip 1 = x * 256 + y \<longleftrightarrow> octet ip 0 = x \<and> octet ip 1 = y"
  by (rule digit_eq [OF octet_less])

lemma octets3_eq:
  "y < 256 \<Longrightarrow> z < 256 \<Longrightarrow> (octet ip 0 * 256 + octet ip 1) * 256 + octet ip 2 = (x * 256 + y) * 256 + z
     \<longleftrightarrow> octet ip 0 = x \<and> octet ip 1 = y \<and> octet ip 2 = z"
  using digit_eq [OF octet_less [of ip 2], where y = z and a = "octet ip 0 * 256 + octet ip 1" and x = "x * 256 + y"]
    octets2_eq [of y ip x] by simp

lemma is_private_ipv4_iff: "is_private_ipv4 ip \<longleftrightarrow> list_ex (in_network ip) blocked_ipv4"
proof -
  have small: "octet ip 1 div 64 < 4" "octet ip 1 div 16 < 16" using octet_less [of ip 1] by simp_all
  have loop: "ipv4_is_loopback ip \<longleftrightarrow> in_network ip (0x7F000000, 8)"
    by (simp add: ipv4_is_loopback_def in_network_octets(1))
  have "in_network ip (0xAC100000, 12) \<longleftrightarrow> octet ip 0 = 172 \<and> octet ip 1 div 16 = 1"
    using digit_eq [OF small(2), of 1 "octet ip 0" 172] by (simp only: in_network_octets(3)) simp
  moreover have "octet ip 1 div 16 = 1 \<longleftrightarrow> 16 \<le> octet ip 1 \<and> octet ip 1 \<le> 31"
    using div_mult_mod_eq [of "octet ip 1" 16] mod_less_divisor [of 16 "octet ip 1"]
    by (intro iffI; linarith)
  moreover have "in_network ip (0xC0A80000, 16) \<longleftrightarrow> octet ip 0 = 192 \<and> octet ip 1 = 168"
    using octets2_eq [of 168 ip 192] by (simp only: in_network_octets(4)) simp
  ultimately have lan: "ipv4_is_private ip \<longleftrightarrow> in_network ip (0x0A000000, 8)
      \<or> in_network ip (0xAC100000, 12) \<or> in_network ip (0xC0A80000, 16)"
    by (simp add: ipv4_is_private_def in_network_octets(1))
  have link: "ipv4_is_link_local ip \<longleftrightarrow> in_network ip (0xA9FE0000, 16)"
    using octets2_eq [of 254 ip 169] by (simp only: ipv4_is_link_local_def in_network_octets(4)) simp
  have docs: "ipv4_is_documentation ip \<longleftrightarrow> in_network ip (0xC0000200, 24) \<or> in_network ip (0xC6336400, 24)
      \<or> in_network ip (0xCB007100, 24)"
    using octets3_eq [of 0 2 ip 192] octets3_eq [of 51 100 ip 198] octets3_eq [of 0 113 ip 203]
    by (simp only: ipv4_is_documentation_def in_network_octets(5)) simp
  have cgnat: "is_cgnat ip \<longleftrightarrow> in_network ip (0x64400000, 10)"
    using digit_eq [OF small(1), of 1 "octet ip 0" 100]
    by (simp only: is_cgnat_def in_network_octets(2) cgnat_iff [OF octet_less]) simp
  show ?thesis
    by (simp only: is_private_ipv4_def blocked_ipv4_def list_ex_iff list.set Set.bex_simps loop lan link docs cgnat
        in_network_octets(6) disj_assoc bex_simps simp_thms)
qed

lemma segment0_masks:
  "segment0 ip AND 0xFE00 = 0xFC00 \<longleftrightarrow> unat ip div 2 ^ 121 = 126"
  "segment0 ip AND 0xFFC0 = 0xFE80 \<longleftrightarrow> unat ip div 2 ^ 118 = 1018"
proof -
  have "unat ip < 2 ^ 128" using unsigned_less [of ip] by simp
  then have "unat ip div 2 ^ 112 < 65536" by (simp add: less_mult_imp_div_less)
  then have seg: "unat (segment0 ip) = unat ip div 2 ^ 112"
    by (simp add: segment0_def unsigned_ucast_eq unat_drop_bit take_bit_nat_eq_self)
  have drop: "unat (drop_bit k (segment0 ip)) = unat ip div 2 ^ (112 + k)" for k
    by (simp only: unat_drop_bit seg) (simp add: div_mult2_eq [symmetric] power_add)
  have "(0xFE00 :: u16) = NOT (mask 9)" "(0xFC00 :: u16) = 0xFC00 AND NOT (mask 9)" by code_simp+
  then have "segment0 ip AND 0xFE00 = 0xFC00 \<longleftrightarrow> drop_bit 9 (segment0 ip) = drop_bit 9 0xFC00"
    using and_leading_mask [of "segment0 ip" 9 "0xFC00"] by metis
  then show "segment0 ip AND 0xFE00 = 0xFC00 \<longleftrightarrow> unat ip div 2 ^ 121 = 126"
    by (simp only: word_unat_eq_iff drop) simp
  have "(0xFFC0 :: u16) = NOT (mask 6)" "(0xFE80 :: u16) = 0xFE80 AND NOT (mask 6)" by code_simp+
  then have "segment0 ip AND 0xFFC0 = 0xFE80 \<longleftrightarrow> drop_bit 6 (segment0 ip) = drop_bit 6 0xFE80"
    using and_leading_mask [of "segment0 ip" 6 "0xFE80"] by metis
  then show "segment0 ip AND 0xFFC0 = 0xFE80 \<longleftrightarrow> unat ip div 2 ^ 118 = 1018"
    by (simp only: word_unat_eq_iff drop) simp
qed

lemma mapped_network:
  assumes "len \<le> 32"
  shows "in_network ip (0xFFFF00000000 + ucast (net :: 32 word), 96 + len) \<longleftrightarrow>
    (case to_ipv4_mapped ip of Some v4 \<Rightarrow> in_network v4 (net, len) | None \<Rightarrow> False)"
proof -
  let ?N = "unat (ip :: 128 word)" and ?M = "unat net"
  have M: "?M < 2 ^ 32" using unsigned_less [of net] by simp
  then have base: "unat (0xFFFF00000000 + ucast net :: 128 word) = 65535 * 2 ^ 32 + ?M"
    by (simp add: unat_word_ariths unsigned_ucast_eq take_bit_nat_eq_self)
  have pow: "(2 :: nat) ^ 32 = 2 ^ (32 - len) * 2 ^ len" using assms by (simp flip: power_add)
  have split: "(h * 2 ^ 32 + l) div 2 ^ (32 - len) = h * 2 ^ len + l div 2 ^ (32 - len)" for h l :: nat
  proof -
    have "h * 2 ^ 32 + l = (h * 2 ^ len) * 2 ^ (32 - len) + l" by (subst pow) (simp only: ac_simps)
    then show ?thesis by (simp only:) simp
  qed
  have small: "l div 2 ^ (32 - len) < 2 ^ len" if "l < 2 ^ 32" for l :: nat
    using that by (subst (asm) pow) (simp only: less_mult_imp_div_less mult.commute)
  have lhs: "?N div 2 ^ (32 - len) = ?N div 2 ^ 32 * 2 ^ len + ?N mod 2 ^ 32 div 2 ^ (32 - len)"
    using split [of "?N div 2 ^ 32" "?N mod 2 ^ 32"] by (simp only: div_mult_mod_eq)
  have len: "LENGTH(128) - (96 + len) = 32 - len" by simp
  have "in_network ip (0xFFFF00000000 + ucast net, 96 + len) \<longleftrightarrow>
      ?N div 2 ^ 32 * 2 ^ len + ?N mod 2 ^ 32 div 2 ^ (32 - len) = 65535 * 2 ^ len + ?M div 2 ^ (32 - len)"
    unfolding in_network_unat snd_conv fst_conv base len by (simp only: split lhs)
  also have "\<dots> \<longleftrightarrow> ?N div 2 ^ 32 = 65535 \<and> ?N mod 2 ^ 32 div 2 ^ (32 - len) = ?M div 2 ^ (32 - len)"
    by (rule digit_eq; rule small) (simp, rule M)
  also have "?N div 2 ^ 32 = 65535 \<longleftrightarrow> drop_bit 32 ip = 0xFFFF"
    by (simp only: word_unat_eq_iff unat_drop_bit) simp
  also have "?N mod 2 ^ 32 = unat (ucast ip :: 32 word)"
    by (simp add: unsigned_ucast_eq take_bit_eq_mod)
  finally show ?thesis by (simp add: to_ipv4_mapped_def in_network_unat)
qed

lemma is_private_ipv6_iff: "is_private_ipv6 ip \<longleftrightarrow> list_ex (in_network ip) blocked_ipv6"
proof -
  have "(case to_ipv4_mapped ip of Some v4 \<Rightarrow> is_private_ipv4 v4 | None \<Rightarrow> False) \<longleftrightarrow>
      list_ex (\<lambda>(net, len). case to_ipv4_mapped ip of Some v4 \<Rightarrow> in_network v4 (net, len) | None \<Rightarrow> False) blocked_ipv4"
    by (cases "to_ipv4_mapped ip") (simp_all add: is_private_ipv4_iff list_ex_iff split_beta)
  also have "\<dots> \<longleftrightarrow> list_ex (\<lambda>(net, len). in_network ip (0xFFFF00000000 + ucast net, 96 + len)) blocked_ipv4"
    unfolding list_ex_iff
  proof (rule bex_cong)
    have "\<forall>n\<in>set blocked_ipv4. snd n \<le> 32" by (simp add: blocked_ipv4_def)
    then show "(case n of (net, len) \<Rightarrow> case to_ipv4_mapped ip of None \<Rightarrow> False | Some v4 \<Rightarrow> in_network v4 (net, len))
        \<longleftrightarrow> (case n of (net, len) \<Rightarrow> in_network ip (0xFFFF00000000 + ucast net, 96 + len))"
      if "n \<in> set blocked_ipv4" for n
      using that mapped_network [of "snd n" ip "fst n"] by (simp add: split_beta)
  qed simp
  finally have mapped: "(case to_ipv4_mapped ip of Some v4 \<Rightarrow> is_private_ipv4 v4 | None \<Rightarrow> False) \<longleftrightarrow> \<dots>" .
  have "ip = 1 \<longleftrightarrow> unat ip = 1" "ip = 0 \<longleftrightarrow> unat ip = 0" by (simp_all add: word_unat_eq_iff)
  with mapped show ?thesis
    unfolding is_private_ipv6_def blocked_ipv6_def segment0_masks
    by (simp add: in_network_unat list_ex_iff split_beta)
qed

subsection \<open>Partition keys\<close>

lemma append_at_first:
  assumes "(c :: char) \<notin> set p" and "c \<notin> set q"
  shows "p @ c # x = q @ c # y \<longleftrightarrow> p = q \<and> x = y"
proof
  assume eq: "p @ c # x = q @ c # y"
  have "Some (p, x) = Some (q, y)"
    by (simp only: split_once_append [OF assms(1), of x, symmetric] split_once_append [OF assms(2), of y, symmetric] eq)
  then show "p = q \<and> x = y" by simp
qed simp

lemma append_at_last:
  assumes "(c :: char) \<notin> set x" and "c \<notin> set y"
  shows "p @ c # x = q @ c # y \<longleftrightarrow> p = q \<and> x = y"
proof -
  have "p @ c # x = q @ c # y \<longleftrightarrow> rev (p @ c # x) = rev (q @ c # y)" by (simp only: rev_is_rev_conv)
  also have "\<dots> \<longleftrightarrow> rev x @ c # rev p = rev y @ c # rev q" by simp
  also have "\<dots> \<longleftrightarrow> rev x = rev y \<and> rev p = rev q" using assms by (intro append_at_first) simp_all
  finally show ?thesis by auto
qed

lemma port_digits_no_colon: "CHR '':'' \<notin> set (show_nat n)"
proof
  assume "CHR '':'' \<in> set (show_nat n)"
  then have "is_ascii_digit (CHR '':'')" using show_nat_digits [of n] by (metis list_all_iff)
  then show False by (simp add: is_ascii_digit_def byte_def)
qed

text \<open>\<open>Url::port_or_known_default\<close> knows the default port of the four schemes that have an origin.\<close>

definition port_known :: "NetUrl \<Rightarrow> bool" where
  "port_known url \<longleftrightarrow> (url_scheme url \<in> {''http'', ''https'', ''ws'', ''wss''} \<longrightarrow> url_port_or_known_default url \<noteq> None)"

lemma origin_cases:
  assumes "port_known url"
  obtains (opaque) "Origin_from_url url = Origin_opaque"
  | (tuple) scheme host p where "scheme \<in> {''http'', ''https'', ''ws'', ''wss''}" "url_host_str url = Some host"
      "Origin_from_url url = \<lparr>og_scheme = scheme, og_host = host, og_port = Some p, og_opaque = False\<rparr>"
proof (cases "url_host_str url = None \<or> url_scheme url \<notin> {''http'', ''https'', ''ws'', ''wss''}")
  case True
  then have "Origin_from_url url = Origin_opaque" by (auto simp: Origin_from_url_def Let_def split: option.split)
  then show thesis by (rule opaque)
next
  case False
  then obtain host p where "url_host_str url = Some host" "url_port_or_known_default url = Some p"
    using assms by (auto simp: port_known_def)
  with False show thesis by (intro tuple [of "url_scheme url" host p]) (auto simp: Origin_from_url_def)
qed

lemma partition_key_inj:
  assumes "port_known u" and "port_known v"
    and key: "Origin_partition_key (Origin_from_url u) = Origin_partition_key (Origin_from_url v)"
  shows "Origin_from_url u = Origin_from_url v"
  using assms(1)
proof (cases rule: origin_cases)
  case opaque
  from assms(2) show ?thesis
  proof (cases rule: origin_cases)
    case (tuple scheme host p)
    with key opaque have "''opaque'' = scheme @ CHR '':'' # ''//'' @ host @ '':'' @ show_word p"
      by (simp add: Origin_partition_key_def Origin_opaque_def)
    then have "CHR '':'' \<in> set ''opaque''" by (metis in_set_conv_decomp)
    then show ?thesis by simp
  qed (use opaque in simp)
next
  case u: (tuple scheme host p)
  from assms(2) show ?thesis
  proof (cases rule: origin_cases)
    case opaque
    with key u have "scheme @ CHR '':'' # ''//'' @ host @ '':'' @ show_word p = ''opaque''"
      by (simp add: Origin_partition_key_def Origin_opaque_def)
    then have "CHR '':'' \<in> set ''opaque''" by (metis in_set_conv_decomp)
    then show ?thesis by simp
  next
    case v: (tuple scheme' host' p')
    with key u have "scheme @ CHR '':'' # ''//'' @ host @ CHR '':'' # show_word p
        = scheme' @ CHR '':'' # ''//'' @ host' @ CHR '':'' # show_word p'"
      by (simp add: Origin_partition_key_def)
    moreover have "CHR '':'' \<notin> set scheme" "CHR '':'' \<notin> set scheme'" using u(1) v(1) by auto
    ultimately have "scheme = scheme'" "host @ CHR '':'' # show_word p = host' @ CHR '':'' # show_word p'"
      by (simp_all add: append_at_first)
    then have "scheme = scheme'" "host = host'" "show_word p = show_word p'"
      by (simp_all add: append_at_last port_digits_no_colon)
    then show ?thesis using u v show_nat_inj by (simp add: word_unat_eq_iff)
  qed
qed

end
