(* ===== verification/Http_Cache.thy ===== *)
theory Http_Cache
  imports Profile_Store Url_Policy Cookie_Jar
begin

section \<open>The private HTTP cache\<close>

text \<open>
  \<open>vixen-engine/src/http_cache.rs\<close>: whether a stored response may answer a request, what is stored, and
  permanent redirects. Parameters: \<open>parse_url\<close> is \<open>Url::parse\<close>, with the text of its error, and
  \<open>http_date\<close> is the third-party date parser, in whole seconds since the epoch; \<open>display\<close> is the
  text of a store error. \<open>u64\<close> quantities are natural numbers with their limit written out, as
  \<open>saturating_add\<close>; \<open>i64\<close> ones are integers, likewise.
\<close>

definition MAX_VARY_FIELDS :: usize where "MAX_VARY_FIELDS = 32"
definition MAX_VARY_NAME_BYTES :: usize where "MAX_VARY_NAME_BYTES = 256"
definition MAX_VARY_VALUES_BYTES :: usize where "MAX_VARY_VALUES_BYTES = 65536"

datatype CacheUse = Fresh | Stale | Unusable

type_synonym header_map = "(string, string) btree"

subsection \<open>Headers and directives\<close>

definition header_find :: "(string \<times> string) list \<Rightarrow> string \<Rightarrow> string option" where
  "header_find headers wanted =
     map_option snd (List.find (\<lambda>(name, val). eq_ignore_ascii_case name wanted) headers)"

definition map_header :: "header_map \<Rightarrow> string \<Rightarrow> string option" where
  "map_header headers wanted =
     map_option snd (List.find (\<lambda>(name, val). eq_ignore_ascii_case name wanted) headers)"

text \<open>An item of a list of directives: its name and, after \<open>=\<close>, its value.\<close>

definition directive_item :: "string \<Rightarrow> string \<times> string option" where
  "directive_item item =
     (case split_once (CHR ''='') item of
        None \<Rightarrow> (str_trim item, None)
      | Some (name, val) \<Rightarrow> (str_trim name, Some (str_trim val)))"

definition directive :: "string \<Rightarrow> string \<Rightarrow> string option option" where
  "directive val wanted =
     find_map (\<lambda>item. let (name, v) = directive_item item in
       if eq_ignore_ascii_case name wanted then Some v else None) (str_split '','' val)"

definition cache_control_has :: "(string \<times> string) list \<Rightarrow> string \<Rightarrow> bool" where
  "cache_control_has headers wanted =
     (case header_find headers ''cache-control'' of
        None \<Rightarrow> False | Some val \<Rightarrow> directive val wanted \<noteq> None)"

definition cache_control_has_map :: "header_map \<Rightarrow> string \<Rightarrow> bool" where
  "cache_control_has_map headers wanted =
     (case bt_get headers ''cache-control'' of None \<Rightarrow> False | Some val \<Rightarrow> directive val wanted \<noteq> None)"

datatype SecondsDirective = SD_Absent | SD_Value nat | SD_Invalid

primrec seconds_loop :: "string \<Rightarrow> nat option \<Rightarrow> string list \<Rightarrow> SecondsDirective" where
  "seconds_loop wanted found [] = (case found of None \<Rightarrow> SD_Absent | Some n \<Rightarrow> SD_Value n)"
| "seconds_loop wanted found (item # items) =
     (let (name, val) = directive_item item in
      if \<not> eq_ignore_ascii_case name wanted then seconds_loop wanted found items
      else (case Option.bind val (\<lambda>v. parse_u64 (trim_matches_char (CHR 0x22) v)) of
          None \<Rightarrow> SD_Invalid
        | Some seconds \<Rightarrow>
            if (case found of None \<Rightarrow> False | Some previous \<Rightarrow> previous \<noteq> unat seconds) then SD_Invalid
            else seconds_loop wanted (Some (unat seconds)) items))"

definition seconds_directive :: "string option \<Rightarrow> string \<Rightarrow> SecondsDirective" where
  "seconds_directive val wanted =
     (case val of None \<Rightarrow> SD_Absent | Some v \<Rightarrow> seconds_loop wanted None (str_split '','' v))"

primrec max_stale_loop :: "nat \<Rightarrow> bool \<Rightarrow> nat option \<Rightarrow> string list \<Rightarrow> bool" where
  "max_stale_loop staleness found maximum [] =
     (found \<and> (case maximum of None \<Rightarrow> False | Some m \<Rightarrow> staleness \<le> m))"
| "max_stale_loop staleness found maximum (item # items) =
     (let (name, val) = directive_item item in
      if \<not> eq_ignore_ascii_case name ''max-stale'' then max_stale_loop staleness found maximum items
      else (case val of
          None \<Rightarrow> True
        | Some v \<Rightarrow> (case parse_u64 (trim_matches_char (CHR 0x22) v) of
            None \<Rightarrow> False
          | Some seconds \<Rightarrow> max_stale_loop staleness True
              (Some (case maximum of None \<Rightarrow> unat seconds | Some m \<Rightarrow> min m (unat seconds))) items)))"

definition max_stale_allows :: "string option \<Rightarrow> nat \<Rightarrow> bool" where
  "max_stale_allows cache_control staleness =
     (case cache_control of None \<Rightarrow> False
      | Some v \<Rightarrow> max_stale_loop staleness False None (str_split '','' v))"

subsection \<open>Vary\<close>

definition is_ascii_alphanumeric :: "char \<Rightarrow> bool" where
  "is_ascii_alphanumeric c \<longleftrightarrow> is_ascii_digit c \<or> 65 \<le> byte c \<and> byte c \<le> 90 \<or> 97 \<le> byte c \<and> byte c \<le> 122"

definition valid_header_name :: "string \<Rightarrow> bool" where
  "valid_header_name name \<longleftrightarrow> name \<noteq> [] \<and> length name \<le> MAX_VARY_NAME_BYTES
     \<and> list_all (\<lambda>b. is_ascii_alphanumeric b
         \<or> b \<in> {CHR ''!'', CHR ''#'', CHR ''$'', CHR ''%'', CHR ''&'', CHR 0x27, CHR ''*'', CHR ''+'', CHR ''-'',
             CHR ''.'', CHR ''^'', CHR ''_'', CHR 0x60, CHR ''|'', CHR ''~''}) name"

primrec vary_loop :: "string list \<Rightarrow> string list \<Rightarrow> string list option" where
  "vary_loop names [] = Some names"
| "vary_loop names (f # fs) =
     (let name = to_ascii_lowercase (str_trim f) in
      if name = ''*'' \<or> \<not> valid_header_name name then None
      else if name \<notin> set names then
        (if MAX_VARY_FIELDS \<le> length names then None else vary_loop (names @ [name]) fs)
      else vary_loop names fs)"

definition vary_names :: "string option \<Rightarrow> string list option" where
  "vary_names val = (case val of None \<Rightarrow> Some [] | Some v \<Rightarrow> vary_loop [] (str_split '','' v))"

definition vary_matches :: "CacheEntry \<Rightarrow> header_map \<Rightarrow> bool" where
  "vary_matches entry request_headers =
     (case vary_names (header_find (ce_headers entry) ''vary'') of
        None \<Rightarrow> False
      | Some names \<Rightarrow>
          if names = [] then ce_vary_headers entry = []
          else if length (ce_vary_headers entry) \<noteq> length names then False
          else list_all (\<lambda>name.
            case List.find (\<lambda>(stored_name, val). stored_name = name) (ce_vary_headers entry) of
              None \<Rightarrow> False
            | Some (stored_name, val) \<Rightarrow> val = bt_get request_headers name) names)"

primrec capture_loop ::
    "header_map \<Rightarrow> usize \<Rightarrow> (string \<times> string option) list \<Rightarrow> string list \<Rightarrow> (string \<times> string option) list option" where
  "capture_loop request_headers bytes_so_far captured [] = Some captured"
| "capture_loop request_headers bytes_so_far captured (name # names) =
     (let val = bt_get request_headers name in
      Option.bind (checked_add_usize bytes_so_far (case val of None \<Rightarrow> 0 | Some v \<Rightarrow> length v)) (\<lambda>n.
      if MAX_VARY_VALUES_BYTES < n then None
      else capture_loop request_headers n (captured @ [(name, val)]) names))"

definition capture_vary :: "string option \<Rightarrow> header_map \<Rightarrow> (string \<times> string option) list option" where
  "capture_vary val request_headers =
     Option.bind (vary_names val) (\<lambda>names. capture_loop request_headers 0 [] names)"

subsection \<open>Freshness\<close>

definition u64_max :: nat where "u64_max = 18446744073709551615"

definition saturating_add_u64 :: "nat \<Rightarrow> nat \<Rightarrow> nat" where
  "saturating_add_u64 a b = min (a + b) u64_max"

definition saturating_sub_i64 :: "int \<Rightarrow> int \<Rightarrow> int" where
  "saturating_sub_i64 a b = max i64_min (min i64_max (a - b))"

text \<open>\<open>saturating_sub(..).max(0) as u64\<close>.\<close>

definition elapsed :: "int \<Rightarrow> int \<Rightarrow> nat" where
  "elapsed later earlier = nat (max 0 (saturating_sub_i64 later earlier))"

definition http_date_unix :: "(string \<Rightarrow> int option) \<Rightarrow> string \<Rightarrow> int option" where
  "http_date_unix http_date val =
     Option.bind (http_date val) (\<lambda>t. if - i64_max \<le> t \<and> t \<le> i64_max then Some t else None)"

definition current_age :: "(string \<Rightarrow> int option) \<Rightarrow> CacheEntry \<Rightarrow> int \<Rightarrow> nat" where
  "current_age http_date entry now_unix =
     (let date_value = (case Option.bind (header_find (ce_headers entry) ''date'') (http_date_unix http_date) of
            Some t \<Rightarrow> t | None \<Rightarrow> ce_fetched_unix entry);
          apparent_age = elapsed (ce_fetched_unix entry) date_value;
          age_value = (case header_find (ce_headers entry) ''age'' of
            None \<Rightarrow> 0 | Some val \<Rightarrow> (case parse_u64 (str_trim val) of Some n \<Rightarrow> unat n | None \<Rightarrow> u64_max))
      in saturating_add_u64 (max apparent_age age_value) (elapsed now_unix (ce_fetched_unix entry)))"

definition freshness_lifetime :: "(string \<Rightarrow> int option) \<Rightarrow> CacheEntry \<Rightarrow> nat option" where
  "freshness_lifetime http_date entry =
     (let date_value = (case Option.bind (header_find (ce_headers entry) ''date'') (http_date_unix http_date) of
            Some t \<Rightarrow> t | None \<Rightarrow> ce_fetched_unix entry)
      in case seconds_directive (header_find (ce_headers entry) ''cache-control'') ''max-age'' of
           SD_Value seconds \<Rightarrow> Some seconds
         | SD_Absent \<Rightarrow> map_option (\<lambda>expires. elapsed expires date_value)
             (Option.bind (header_find (ce_headers entry) ''expires'') (http_date_unix http_date))
         | SD_Invalid \<Rightarrow> None)"

definition has_directive :: "string option \<Rightarrow> string \<Rightarrow> bool" where
  "has_directive val wanted = (case val of None \<Rightarrow> False | Some v \<Rightarrow> directive v wanted \<noteq> None)"

definition cache_use :: "(string \<Rightarrow> int option) \<Rightarrow> CacheEntry \<Rightarrow> header_map \<Rightarrow> int \<Rightarrow> nat \<Rightarrow> CacheUse" where
  "cache_use http_date entry request_headers now_unix max_body_bytes =
     (let request_cache_control = map_header request_headers ''cache-control'' in
      if \<not> (200 \<le> ce_status entry \<and> ce_status entry < 300) \<or> max_body_bytes < length (ce_body entry)
         \<or> cache_control_has (ce_headers entry) ''no-store'' \<or> has_directive request_cache_control ''no-store''
         \<or> \<not> vary_matches entry request_headers
      then Unusable
      else if cache_control_has (ce_headers entry) ''no-cache'' \<or> has_directive request_cache_control ''no-cache''
         \<or> request_cache_control = None \<and> has_directive (map_header request_headers ''pragma'') ''no-cache''
      then Stale
      else
        let age = current_age http_date entry now_unix in
        case freshness_lifetime http_date entry of
          None \<Rightarrow> Stale
        | Some lifetime \<Rightarrow>
            (let request_max_age = seconds_directive request_cache_control ''max-age'' in
             if request_max_age = SD_Invalid \<or> (case request_max_age of SD_Value limit \<Rightarrow> limit \<le> age | _ \<Rightarrow> False)
             then Stale
             else
               let request_min_fresh = seconds_directive request_cache_control ''min-fresh'' in
               if request_min_fresh = SD_Invalid
                  \<or> (case request_min_fresh of
                       SD_Value required \<Rightarrow> lifetime \<le> saturating_add_u64 age required | _ \<Rightarrow> False)
               then Stale
               else if age < lifetime
                    \<or> \<not> cache_control_has (ce_headers entry) ''must-revalidate''
                      \<and> max_stale_allows request_cache_control (age - lifetime)
               then Fresh else Stale))"

subsection \<open>Storing and selecting\<close>

definition cache_entry :: "u16 \<Rightarrow> header_map \<Rightarrow> bytes \<Rightarrow> header_map \<Rightarrow> int \<Rightarrow> CacheEntry option" where
  "cache_entry status headers body request_headers fetched_unix =
     (if \<not> (200 \<le> status \<and> status < 300) \<or> cache_control_has_map headers ''no-store''
         \<or> has_directive (map_header request_headers ''cache-control'') ''no-store''
      then None
      else Option.bind (capture_vary (bt_get headers ''vary'') request_headers) (\<lambda>vary_headers.
        Some \<lparr>ce_status = status, ce_headers = headers, ce_body = body, ce_fetched_unix = fetched_unix,
          ce_vary_headers = vary_headers\<rparr>))"

definition has_validator :: "CacheEntry \<Rightarrow> bool" where
  "has_validator entry \<longleftrightarrow>
     header_find (ce_headers entry) ''etag'' \<noteq> None \<or> header_find (ce_headers entry) ''last-modified'' \<noteq> None"

definition usable_rank :: "CacheUse \<Rightarrow> nat" where
  "usable_rank u = (case u of Fresh \<Rightarrow> 1 | Stale \<Rightarrow> 0 | Unusable \<Rightarrow> 0)"

definition select_variant ::
    "(string \<Rightarrow> int option) \<Rightarrow> CacheEntry list \<Rightarrow> header_map \<Rightarrow> int \<Rightarrow> nat \<Rightarrow> (CacheEntry \<times> CacheUse) option" where
  "select_variant http_date entries request_headers now_unix max_body_bytes =
     max_by_key (\<lambda>(entry, u). (ce_fetched_unix entry, usable_rank u))
       (List.map_filter (\<lambda>entry.
          let u = cache_use http_date entry request_headers now_unix max_body_bytes in
          if u \<noteq> Unusable then Some (entry, u) else None) entries)"

subsection \<open>Permanent redirects\<close>

datatype NetworkEvent =
    RequestStart string Method
  | Redirect string string u16
  | Response string u16
  | BodyProgress string nat nat "nat option"
  | Completed string nat

record ResolvedCacheAlias =
  ra_final_url :: NetUrl
  ra_hops :: "CacheRedirectHop list"

primrec hop_events :: "string \<Rightarrow> CacheRedirectHop list \<Rightarrow> NetworkEvent list" where
  "hop_events current [] = []"
| "hop_events current (hop # hops) =
     [Redirect current (hop_to hop) (hop_status hop), RequestStart (hop_to hop) Get] @ hop_events (hop_to hop) hops"

definition ResolvedCacheAlias_events ::
    "ResolvedCacheAlias \<Rightarrow> NetUrl \<Rightarrow> u16 \<Rightarrow> usize \<Rightarrow> NetworkEvent list" where
  "ResolvedCacheAlias_events al original_url status body_bytes =
     [RequestStart (url_as_str original_url) Get] @ hop_events (url_as_str original_url) (ra_hops al)
     @ [Response (url_as_str (ra_final_url al)) status,
        BodyProgress (url_as_str (ra_final_url al)) body_bytes body_bytes (Some body_bytes),
        Completed (url_as_str (ra_final_url al)) body_bytes]"

primrec follow_hops ::
    "dns_lib \<Rightarrow> (string \<Rightarrow> (NetUrl, string) result) \<Rightarrow> Origin \<Rightarrow> string set \<Rightarrow> NetUrl \<Rightarrow> CacheRedirectHop list
     \<Rightarrow> (NetUrl option, string) result" where
  "follow_hops dns parse_url og visited current [] = Ok (Some current)"
| "follow_hops dns parse_url og visited current (hop # hops) =
     (if hop_status hop \<notin> {301, 308} then Ok None
      else and_then (parse_url (hop_to hop)) (\<lambda>target.
        if \<not> is_ok (validate_http_url dns target) \<or> Origin_from_url target \<noteq> og \<or> url_as_str target \<in> visited
        then Ok None
        else follow_hops dns parse_url og (insert (url_as_str target) visited) target hops))"

definition resolve_redirect_alias ::
    "('db, 'tx, 'rd, 'e) redb \<Rightarrow> (CacheAlias, 'e) serde \<Rightarrow> ('e StoreError \<Rightarrow> string) \<Rightarrow> dns_lib
     \<Rightarrow> (string \<Rightarrow> (NetUrl, string) result) \<Rightarrow> 'db \<Rightarrow> NetUrl \<Rightarrow> (ResolvedCacheAlias option, string) result" where
  "resolve_redirect_alias lib json display dns parse_url db url =
     (let og = Origin_from_url url in
      and_then (map_err display (Store_cache_alias lib json db (Origin_partition_key og) (url_as_str url))) (\<lambda>found.
      case found of
        None \<Rightarrow> Ok None
      | Some al \<Rightarrow>
          and_then (follow_hops dns parse_url og {url_as_str url} url (ca_hops al)) (\<lambda>final_url.
          Ok (map_option (\<lambda>u. \<lparr>ra_final_url = u, ra_hops = ca_hops al\<rparr>) final_url))))"

definition redirect_of :: "NetworkEvent \<Rightarrow> (string \<times> CacheRedirectHop) option" where
  "redirect_of event =
     (case event of
        Redirect from_url to_url status \<Rightarrow> Some (from_url, \<lparr>hop_to = to_url, hop_status = status\<rparr>)
      | _ \<Rightarrow> None)"

text \<open>The test of all redirects: where the chain ends, if every hop is permitted.\<close>

primrec chain_end ::
    "(string \<Rightarrow> (NetUrl, string) result) \<Rightarrow> Origin \<Rightarrow> string \<Rightarrow> (string \<times> CacheRedirectHop) list \<Rightarrow> string option" where
  "chain_end parse_url og current [] = Some current"
| "chain_end parse_url og current (r # rs) =
     (if fst r = current \<and> hop_status (snd r) \<in> {301, 308}
         \<and> (case parse_url (hop_to (snd r)) of Ok target \<Rightarrow> Origin_from_url target = og | Err _ \<Rightarrow> False)
      then chain_end parse_url og (hop_to (snd r)) rs else None)"

primrec delete_aliases ::
    "('db, 'tx, 'rd, 'e) redb \<Rightarrow> ('e StoreError \<Rightarrow> string) \<Rightarrow> string \<Rightarrow> 'db \<Rightarrow> string list
     \<Rightarrow> 'db \<times> (unit, string) result" where
  "delete_aliases lib display origin_key db [] = (db, Ok ())"
| "delete_aliases lib display origin_key db (url # urls) =
     (case Store_delete_cache_alias lib db origin_key url of
        (db', Ok _) \<Rightarrow> delete_aliases lib display origin_key db' urls
      | (db', Err e) \<Rightarrow> (db', Err (display e)))"

primrec put_aliases ::
    "('db, 'tx, 'rd, 'e) redb \<Rightarrow> (CacheAlias, 'e) serde \<Rightarrow> ('e StoreError \<Rightarrow> string) \<Rightarrow> string \<Rightarrow> int \<Rightarrow> 'db
     \<Rightarrow> (string \<times> CacheRedirectHop) list \<Rightarrow> 'db \<times> (unit, string) result" where
  "put_aliases lib json display origin_key fetched db [] = (db, Ok ())"
| "put_aliases lib json display origin_key fetched db (r # rs) =
     (case Store_put_cache_alias lib json db origin_key (fst r)
         \<lparr>ca_hops = map snd (r # rs), ca_fetched_unix = fetched\<rparr> of
        (db', Ok _) \<Rightarrow> put_aliases lib json display origin_key fetched db' rs
      | (db', Err e) \<Rightarrow> (db', Err (display e)))"

definition persist_redirect_aliases ::
    "('db, 'tx, 'rd, 'e) redb \<Rightarrow> (CacheAlias, 'e) serde \<Rightarrow> ('e StoreError \<Rightarrow> string)
     \<Rightarrow> (string \<Rightarrow> (NetUrl, string) result) \<Rightarrow> 'db \<Rightarrow> NetUrl \<Rightarrow> NetUrl \<Rightarrow> NetworkEvent list \<Rightarrow> bool \<Rightarrow> int
     \<Rightarrow> 'db \<times> (unit, string) result" where
  "persist_redirect_aliases lib json display parse_url db original_url final_url events redirect_aliasable fetched =
     (let og = Origin_from_url original_url;
          origin_key = Origin_partition_key og;
          redirects = List.map_filter redirect_of events
      in if redirects = [] then delete_aliases lib display origin_key db [url_as_str original_url]
         else if \<not> (redirect_aliasable
            \<and> chain_end parse_url og (url_as_str original_url) redirects = Some (url_as_str final_url))
         then delete_aliases lib display origin_key db (map fst redirects)
         else (case put_aliases lib json display origin_key fetched db redirects of
             (db', Ok _) \<Rightarrow> delete_aliases lib display origin_key db' [url_as_str final_url]
           | (db', Err e) \<Rightarrow> (db', Err e)))"

end
