(* ===== verification/Http_Cache_Properties.thy ===== *)
theory Http_Cache_Properties
  imports Http_Cache Profile_Properties
begin

section \<open>Properties of origins, the URL policy and the HTTP cache\<close>

text \<open>
  The URL policy blocks a table of networks and names, partition keys identify origins, and the cache
  answers a request only with a response to an equivalent one, while it is fresh, newest first.
\<close>

subsection \<open>Vary\<close>

lemma vary_loop_distinct:
  "vary_loop names fs = Some names' \<Longrightarrow> distinct names \<Longrightarrow> distinct names' \<and> (\<exists>more. names' = names @ more)"
proof (induction fs arbitrary: names)
  case (Cons f fs)
  let ?n = "to_ascii_lowercase (str_trim f)"
  show ?case
  proof (cases "?n \<in> set names")
    case True
    with Cons show ?thesis by (auto simp: Let_def split: if_splits)
  next
    case False
    with Cons.prems have "vary_loop (names @ [?n]) fs = Some names'" "distinct (names @ [?n])"
      by (auto simp: Let_def split: if_splits)
    from Cons.IH [OF this] show ?thesis by auto
  qed
qed simp

lemma vary_names_distinct: "vary_names val = Some names \<Longrightarrow> distinct names"
  using vary_loop_distinct [of "[]"] by (auto simp: vary_names_def split: option.splits)

lemma vary_names_Nil: "vary_names val = Some [] \<longleftrightarrow> val = None"
proof (cases val)
  case (Some v)
  obtain f fs where fs: "str_split '','' v = f # fs" by (cases "str_split '','' v") simp_all
  have "vary_loop [] (f # fs) \<noteq> Some []"
    using vary_loop_distinct [of "[to_ascii_lowercase (str_trim f)]" fs "[]"] by (auto simp: Let_def)
  with Some fs show ?thesis by (simp add: vary_names_def)
qed (simp add: vary_names_def)

lemma capture_loop_Some:
  "capture_loop rq n captured names = Some out \<Longrightarrow> out = captured @ map (\<lambda>name. (name, bt_get rq name)) names"
proof (induction names arbitrary: n captured)
  case (Cons a names)
  then obtain n' where "capture_loop rq n' (captured @ [(a, bt_get rq a)]) names = Some out"
    by (auto simp: Let_def bind_eq_Some_conv split: if_splits)
  from Cons.IH [OF this] show ?case by simp
qed simp

lemma capture_vary_Some:
  assumes "capture_vary val rq = Some out"
  obtains names where "vary_names val = Some names" and "out = map (\<lambda>name. (name, bt_get rq name)) names"
  using assms by (auto simp: capture_vary_def bind_eq_Some_conv dest: capture_loop_Some)

lemma find_captured:
  "List.find (\<lambda>(stored_name, val). stored_name = name) (map (\<lambda>n. (n, f n)) names) =
     (if name \<in> set names then Some (name, f name) else None)"
  by (induction names) auto

text \<open>Two lists of different names, of the same length, of which one contains the other.\<close>

lemma distinct_same_set:
  assumes "distinct xs" and "distinct ys" and "length xs = length ys" and "set xs \<subseteq> set ys"
  shows "set xs = set ys"
proof (rule card_subset_eq [OF finite_set assms(4)])
  show "card (set xs) = card (set ys)" using assms(1-3) by (simp add: distinct_card)
qed

lemma vary_matches_captured:
  assumes "capture_vary val rq = Some (ce_vary_headers e)"
    and "vary_names (header_find (ce_headers e) ''vary'') = Some names"
  obtains captured where "vary_names val = Some captured"
    and "vary_matches e rq' \<longleftrightarrow> set names = set captured \<and> list_all (\<lambda>n. bt_get rq' n = bt_get rq n) captured"
proof -
  from assms(1) obtain captured where cap: "vary_names val = Some captured"
      "ce_vary_headers e = map (\<lambda>name. (name, bt_get rq name)) captured" by (rule capture_vary_Some)
  have dist: "distinct names" "distinct captured"
    using vary_names_distinct assms(2) cap(1) by blast+
  have len: "length captured = length names" if "set names = set captured"
    using dist that by (metis distinct_card)
  have "vary_matches e rq' \<longleftrightarrow> length captured = length names
      \<and> list_all (\<lambda>n. n \<in> set captured \<and> bt_get rq' n = bt_get rq n) names"
    by (auto simp: vary_matches_def assms(2) cap(2) find_captured list_all_iff split: if_splits)
  also have "\<dots> \<longleftrightarrow> set names = set captured \<and> list_all (\<lambda>n. bt_get rq' n = bt_get rq n) captured"
  proof
    assume *: "length captured = length names
        \<and> list_all (\<lambda>n. n \<in> set captured \<and> bt_get rq' n = bt_get rq n) names"
    then have "set names = set captured"
      by (intro distinct_same_set dist) (auto simp: list_all_iff)
    with * show "set names = set captured \<and> list_all (\<lambda>n. bt_get rq' n = bt_get rq n) captured"
      by (simp add: list_all_iff)
  qed (use len in \<open>auto simp: list_all_iff\<close>)
  finally show thesis using cap(1) that by blast
qed

subsection \<open>Freshness\<close>

lemma elapsed_mono: "t \<le> t' \<Longrightarrow> elapsed t s \<le> elapsed t' s"
  by (auto simp: elapsed_def saturating_sub_i64_def intro!: nat_mono)

lemma current_age_mono: "t \<le> t' \<Longrightarrow> current_age dt e t \<le> current_age dt e t'"
  using elapsed_mono [of t t' "ce_fetched_unix e"]
  by (simp add: current_age_def Let_def saturating_add_u64_def min_le_iff_disj le_max_iff_disj)

lemma max_stale_loop_antitone:
  "s \<le> s' \<Longrightarrow> max_stale_loop s' found m items \<Longrightarrow> max_stale_loop s found m items"
  by (induction items arbitrary: found m) (auto simp: split_beta Let_def split: option.splits if_splits)

lemma max_stale_antitone: "s \<le> s' \<Longrightarrow> max_stale_allows cc s' \<Longrightarrow> max_stale_allows cc s"
  using max_stale_loop_antitone by (auto simp: max_stale_allows_def split: option.splits)

text \<open>A stored response is used without asking the server when it is admitted, nothing asks for
  revalidation, and it is within every limit of its age.\<close>

definition admitted :: "CacheEntry \<Rightarrow> header_map \<Rightarrow> nat \<Rightarrow> bool" where
  "admitted e rq limit \<longleftrightarrow> 200 \<le> ce_status e \<and> ce_status e < 300 \<and> length (ce_body e) \<le> limit
     \<and> \<not> cache_control_has (ce_headers e) ''no-store'' \<and> \<not> has_directive (map_header rq ''cache-control'') ''no-store''
     \<and> vary_matches e rq"

definition revalidated :: "CacheEntry \<Rightarrow> header_map \<Rightarrow> bool" where
  "revalidated e rq \<longleftrightarrow> cache_control_has (ce_headers e) ''no-cache''
     \<or> has_directive (map_header rq ''cache-control'') ''no-cache''
     \<or> map_header rq ''cache-control'' = None \<and> has_directive (map_header rq ''pragma'') ''no-cache''"

definition young_enough :: "CacheEntry \<Rightarrow> header_map \<Rightarrow> nat \<Rightarrow> nat \<Rightarrow> bool" where
  "young_enough e rq age lifetime \<longleftrightarrow>
     (let cc = map_header rq ''cache-control'' in
      (case seconds_directive cc ''max-age'' of SD_Absent \<Rightarrow> True | SD_Value m \<Rightarrow> age < m | SD_Invalid \<Rightarrow> False)
    \<and> (case seconds_directive cc ''min-fresh'' of
         SD_Absent \<Rightarrow> True | SD_Value m \<Rightarrow> saturating_add_u64 age m < lifetime | SD_Invalid \<Rightarrow> False)
    \<and> (age < lifetime
       \<or> \<not> cache_control_has (ce_headers e) ''must-revalidate'' \<and> max_stale_allows cc (age - lifetime)))"

lemma cache_use_cases:
  "cache_use dt e rq t limit =
     (if \<not> admitted e rq limit then Unusable
      else if \<not> revalidated e rq
        \<and> (case freshness_lifetime dt e of None \<Rightarrow> False | Some l \<Rightarrow> young_enough e rq (current_age dt e t) l)
      then Fresh else Stale)"
proof (cases "admitted e rq limit \<and> \<not> revalidated e rq")
  case False
  then show ?thesis by (auto simp: cache_use_def admitted_def revalidated_def Let_def not_le)
next
  case True
  then have "cache_use dt e rq t limit =
      (case freshness_lifetime dt e of None \<Rightarrow> Stale
       | Some l \<Rightarrow> if young_enough e rq (current_age dt e t) l then Fresh else Stale)"
    unfolding cache_use_def admitted_def revalidated_def young_enough_def Let_def
    by (simp add: not_le not_less split: option.split SecondsDirective.split)
  with True show ?thesis by (simp split: option.split)
qed

lemma young_enough_antitone:
  assumes "age \<le> age'" and "young_enough e rq age' l"
  shows "young_enough e rq age l"
proof -
  have "saturating_add_u64 age m \<le> saturating_add_u64 age' m" for m
    using assms(1) by (simp add: saturating_add_u64_def min_le_iff_disj)
  moreover have "max_stale_allows cc (age' - l) \<Longrightarrow> max_stale_allows cc (age - l)" for cc
    using assms(1) by (intro max_stale_antitone [of "age - l" "age' - l"]) simp_all
  ultimately show ?thesis
    using assms unfolding young_enough_def Let_def
    by (auto split: SecondsDirective.splits intro: le_less_trans)
qed

subsection \<open>Selection\<close>

lemma max_by_key_None: "max_by_key key xs = None \<longleftrightarrow> xs = []"
  by (cases xs) (simp_all split: option.split)

lemma max_by_key_Some:
  assumes "max_by_key key xs = Some x"
  shows "x \<in> set xs" and "y \<in> set xs \<Longrightarrow> key y \<le> key x"
proof -
  have "x \<in> set xs \<and> (\<forall>y\<in>set xs. key y \<le> key x)"
    using assms
  proof (induction xs arbitrary: x)
    case (Cons a xs)
    show ?case
    proof (cases "max_by_key key xs")
      case None
      with Cons.prems show ?thesis by (simp add: max_by_key_None)
    next
      case (Some y)
      from Cons.IH [OF this] have y: "y \<in> set xs" "\<And>z. z \<in> set xs \<Longrightarrow> key z \<le> key y" by simp_all
      show ?thesis
      proof (cases "key y < key a")
        case True
        with Cons.prems Some have "x = a" by simp
        with True show ?thesis by (auto dest!: y(2))
      next
        case False
        with Cons.prems Some have "x = y" by simp
        with False y show ?thesis by auto
      qed
    qed
  qed simp
  then show "x \<in> set xs" and "y \<in> set xs \<Longrightarrow> key y \<le> key x" by simp_all
qed

lemma select_variant_Some:
  assumes "select_variant dt es rq t limit = Some (e, u)"
  shows "e \<in> set es" and "cache_use dt e rq t limit = u" and "u \<noteq> Unusable"
    and "e' \<in> set es \<Longrightarrow> cache_use dt e' rq t limit \<noteq> Unusable \<Longrightarrow> ce_fetched_unix e' \<le> ce_fetched_unix e"
proof -
  note sel = assms [unfolded select_variant_def]
  from max_by_key_Some(1) [OF sel]
  show "e \<in> set es" "cache_use dt e rq t limit = u" "u \<noteq> Unusable"
    by (auto simp: map_filter_def Let_def split: if_splits)
  assume "e' \<in> set es" "cache_use dt e' rq t limit \<noteq> Unusable"
  then have "(e', cache_use dt e' rq t limit) \<in> set (List.map_filter (\<lambda>entry.
          let u = cache_use dt entry rq t limit in if u \<noteq> Unusable then Some (entry, u) else None) es)"
    by (force simp: map_filter_def Let_def)
  from max_by_key_Some(2) [OF sel this] show "ce_fetched_unix e' \<le> ce_fetched_unix e"
    by (auto simp: less_eq_prod_def)
qed

lemma select_variant_None:
  "select_variant dt es rq t limit = None \<longleftrightarrow> list_all (\<lambda>e. cache_use dt e rq t limit = Unusable) es"
  by (auto simp: select_variant_def max_by_key_None map_filter_def Let_def filter_empty_conv list_all_iff split: if_splits)

subsection \<open>Header names in lower case\<close>

definition lower_names :: "header_map \<Rightarrow> bool" where
  "lower_names hs \<longleftrightarrow> list_all (\<lambda>(name, val). to_ascii_lowercase name = name) hs"

lemma header_find_lower:
  assumes "lower_names hs" and "to_ascii_lowercase wanted = wanted"
  shows "header_find hs wanted = bt_get hs wanted"
  using assms unfolding lower_names_def
  by (induction hs) (auto simp: header_find_def bt_get_def eq_ignore_ascii_case_def)

lemma lower_words: "to_ascii_lowercase ''vary'' = ''vary''" "to_ascii_lowercase ''cache-control'' = ''cache-control''"
  by code_simp+

lemma cache_entry_Some:
  assumes "cache_entry st hs body rq t = Some e"
  shows "200 \<le> st \<and> st < 300" and "ce_status e = st" and "ce_body e = body" and "ce_headers e = hs"
    and "ce_fetched_unix e = t" and "\<not> cache_control_has_map hs ''no-store''"
    and "capture_vary (bt_get hs ''vary'') rq = Some (ce_vary_headers e)"
  using assms by (auto simp: cache_entry_def bind_eq_Some_conv split: if_splits)

lemma entry_matches:
  assumes "cache_entry st hs body rq t = Some e" and "vary_matches e rq'"
  obtains names where "vary_names (bt_get hs ''vary'') = Some names"
    and "list_all (\<lambda>n. bt_get rq' n = bt_get rq n) names"
proof -
  from assms(2) obtain stored where stored: "vary_names (header_find (ce_headers e) ''vary'') = Some stored"
    by (auto simp: vary_matches_def split: option.splits)
  from cache_entry_Some(7) [OF assms(1)] stored obtain names
    where "vary_names (bt_get hs ''vary'') = Some names"
      and "vary_matches e rq' \<longleftrightarrow> set stored = set names \<and> list_all (\<lambda>n. bt_get rq' n = bt_get rq n) names"
    by (rule vary_matches_captured)
  with assms(2) that show thesis by blast
qed

lemma entry_matches_lower:
  assumes "cache_entry st hs body rq t = Some e" and "lower_names hs"
    and "vary_names (bt_get hs ''vary'') = Some names" and "list_all (\<lambda>n. bt_get rq' n = bt_get rq n) names"
  shows "vary_matches e rq'"
proof -
  have "vary_names (header_find (ce_headers e) ''vary'') = Some names"
    using header_find_lower [OF assms(2) lower_words(1)] assms(3) cache_entry_Some(4) [OF assms(1)] by simp
  with cache_entry_Some(7) [OF assms(1)] obtain names' where "vary_names (bt_get hs ''vary'') = Some names'"
      and "vary_matches e rq' \<longleftrightarrow> set names = set names' \<and> list_all (\<lambda>n. bt_get rq' n = bt_get rq n) names'"
    by (rule vary_matches_captured)
  with assms(3,4) show ?thesis by simp
qed

subsection \<open>Stored redirects\<close>

lemma follow_hops_Some:
  assumes "follow_hops dns parse_url og visited current hops = Ok (Some final)"
  obtains urls where "map (\<lambda>h. parse_url (hop_to h)) hops = map Ok urls" and "final = last (current # urls)"
    and "list_all (\<lambda>h. hop_status h = 301 \<or> hop_status h = 308) hops"
    and "list_all (\<lambda>u. is_ok (validate_http_url dns u) \<and> Origin_from_url u = og) urls"
    and "distinct (map url_as_str urls)" and "set (map url_as_str urls) \<inter> visited = {}"
  using assms
proof (induction hops arbitrary: visited current thesis)
  case Nil
  from Nil(1) [of "[]"] Nil(2) show ?case by simp
next
  case (Cons h hops)
  from Cons.prems(2) obtain u where u: "parse_url (hop_to h) = Ok u" "hop_status h = 301 \<or> hop_status h = 308"
      "is_ok (validate_http_url dns u)" "Origin_from_url u = og" "url_as_str u \<notin> visited"
      "follow_hops dns parse_url og (insert (url_as_str u) visited) u hops = Ok (Some final)"
    by (auto simp: result_simps split: if_splits)
  from u(6) obtain urls where "map (\<lambda>h. parse_url (hop_to h)) hops = map Ok urls" and "final = last (u # urls)"
    and "list_all (\<lambda>h. hop_status h = 301 \<or> hop_status h = 308) hops"
    and "list_all (\<lambda>u. is_ok (validate_http_url dns u) \<and> Origin_from_url u = og) urls"
    and "distinct (map url_as_str urls)" and "set (map url_as_str urls) \<inter> insert (url_as_str u) visited = {}"
    by (rule Cons.IH [rotated])
  with u show ?case by (intro Cons.prems(1) [of "u # urls"]) auto
qed

lemma no_max_stale:
  "list_all (\<lambda>item. \<not> eq_ignore_ascii_case (fst (directive_item item)) ''max-stale'') items \<Longrightarrow>
     \<not> max_stale_loop s False None items"
  by (induction items) (auto simp: split_beta Let_def)

lemma max_stale_asked:
  assumes "max_stale_allows cc s"
  shows "has_directive cc ''max-stale''"
proof (rule ccontr)
  assume not: "\<not> has_directive cc ''max-stale''"
  from assms obtain v where v: "cc = Some v" "max_stale_loop s False None (str_split '','' v)"
    by (auto simp: max_stale_allows_def split: option.splits)
  with not have "list_all (\<lambda>item. \<not> eq_ignore_ascii_case (fst (directive_item item)) ''max-stale'') (str_split '','' v)"
    by (auto simp: has_directive_def directive_def find_map_eq_None list_all_iff split_beta Let_def split: if_splits)
  with v(2) show False using no_max_stale by blast
qed

lemma age_since_fetch:
  assumes "current_age dt e t < l" and "int l \<le> i64_max"
  shows "t - ce_fetched_unix e < int l"
proof -
  have "elapsed t (ce_fetched_unix e) < l \<or> u64_max < l"
    using assms(1) by (auto simp: current_age_def Let_def saturating_add_u64_def split: if_splits)
  then have "elapsed t (ce_fetched_unix e) < l" using assms(2) by (auto simp: u64_max_def i64_max_def)
  then show ?thesis using assms(2) by (auto simp: elapsed_def saturating_sub_i64_def nat_less_iff)
qed

subsection \<open>What the policy blocks\<close>

definition blocked_names :: "string list" where
  "blocked_names = [''localhost'', ''localhost.localdomain'']"

definition blocked_tlds :: "string list" where
  "blocked_tlds = [''local'', ''internal'', ''onion'', ''arpa'', ''test'', ''example'', ''invalid'']"

definition blocked_host :: "Host \<Rightarrow> bool" where
  "blocked_host host =
     (case host of
        Ipv4 ip \<Rightarrow> list_ex (in_network ip) blocked_ipv4
      | Ipv6 ip \<Rightarrow> list_ex (in_network ip) blocked_ipv6
      | Domain d \<Rightarrow> to_ascii_lowercase d \<in> set blocked_names
          \<or> 2 \<le> length (str_split ''.'' d) \<and> to_ascii_lowercase (last (str_split ''.'' d)) \<in> set blocked_tlds)"

lemma str_split_last:
  assumes "c \<notin> set tld"
  shows "(\<exists>p. s = p @ c # tld) \<longleftrightarrow> 2 \<le> length (str_split [c] s) \<and> last (str_split [c] s) = tld"
proof
  assume "\<exists>p. s = p @ c # tld"
  then obtain p where "s = p @ c # tld" ..
  then have "str_split [c] s = str_split [c] p @ [tld]"
    using assms by (simp add: str_split_append str_split_free)
  then show "2 \<le> length (str_split [c] s) \<and> last (str_split [c] s) = tld"
    by (simp add: Suc_le_eq numeral_2_eq_2)
next
  assume *: "2 \<le> length (str_split [c] s) \<and> last (str_split [c] s) = tld"
  show "\<exists>p. s = p @ c # tld"
  proof (cases "c \<in> set s")
    case True
    then obtain p q where s: "s = p @ c # q" "c \<notin> set q" by (meson split_list_last)
    then have "str_split [c] s = str_split [c] p @ [q]" by (simp add: str_split_append str_split_free)
    with * s show ?thesis by auto
  next
    case False
    with * show ?thesis by (simp add: str_split_free)
  qed
qed

lemma lower_char_dot: "to_ascii_lowercase_char c = CHR ''.'' \<longleftrightarrow> c = CHR ''.''"
proof -
  have "of_char (char_of (byte c + 32) :: char) = byte c + 32" if "byte c \<le> 90" using that by simp
  then have "char_of (byte c + 32) \<noteq> CHR ''.''" if "65 \<le> byte c" "byte c \<le> 90" using that by fastforce
  then show ?thesis by (auto simp: to_ascii_lowercase_char_def byte_def)
qed

lemma str_split_lower:
  "str_split ''.'' (to_ascii_lowercase s) = map to_ascii_lowercase (str_split ''.'' s)"
  by (induction s) (auto simp: to_ascii_lowercase_def lower_char_dot hd_map map_tl)

lemma ends_with_tld:
  assumes "CHR ''.'' \<notin> set tld"
  shows "str_ends_with (to_ascii_lowercase d) (CHR ''.'' # tld) \<longleftrightarrow>
    2 \<le> length (str_split ''.'' d) \<and> to_ascii_lowercase (last (str_split ''.'' d)) = tld"
proof -
  have "str_ends_with (to_ascii_lowercase d) (CHR ''.'' # tld) \<longleftrightarrow> (\<exists>p. to_ascii_lowercase d = p @ CHR ''.'' # tld)"
    by (simp add: str_ends_with_def strip_suffix_Some)
  with str_split_last [OF assms, of "to_ascii_lowercase d"] show ?thesis
    by (simp add: str_split_lower last_map)
qed

lemma is_private_host_iff: "is_private_host host \<longleftrightarrow> blocked_host host"
proof (cases host)
  case (Domain d)
  then show ?thesis
    by (auto simp: is_private_host_def blocked_host_def Let_def blocked_names_def blocked_tlds_def ends_with_tld)
qed (simp_all add: is_private_host_def blocked_host_def is_private_ipv4_iff is_private_ipv6_iff)

subsection \<open>Results\<close>

text \<open>C20: the URL policy lets through exactly the http and https URLs whose host is not in one of the
  blocked networks (loopback, private, link-local, shared, documentation, unspecified and broadcast
  addresses of IPv4, the same embedded in IPv6, and ::1, ::, fc00::/7, fe80::/10), is not localhost, and
  has none of the blocked top-level labels, without regard to case.\<close>

theorem url_policy_exact:
  "is_ok (validate_http_url dns url) \<longleftrightarrow> url_scheme url \<in> {''http'', ''https''}
     \<and> (case url_host url of None \<Rightarrow> True | Some host \<Rightarrow> \<not> blocked_host host)"
  by (auto simp: validate_http_url_def is_private_host_iff split: option.splits)

text \<open>Partition keys identify origins. Two URLs whose ports are known have the same partition key
  exactly when they have the same origin, so that no two origins share a partition of the store; all
  opaque origins share one.\<close>

theorem partition_keys_identify_origins:
  assumes "port_known u" and "port_known v"
  shows "Origin_partition_key (Origin_from_url u) = Origin_partition_key (Origin_from_url v)
    \<longleftrightarrow> Origin_from_url u = Origin_from_url v"
  using partition_key_inj [OF assms] by auto

definition ex_net_url :: "string \<Rightarrow> string \<Rightarrow> u16 \<Rightarrow> string \<Rightarrow> NetUrl" where
  "ex_net_url scheme host p path = \<lparr>url_scheme = scheme, url_host = Some (Domain host), url_path = path,
     url_host_str = Some host, url_port = None, url_port_or_known_default = Some p, url_as_str = scheme @ ''://'' @ host @ path\<rparr>"

theorem partition_keys_identify_origins_witness:
  "Origin_partition_key (Origin_from_url (ex_net_url ''https'' ''a.org'' 443 ''/x''))
     = Origin_partition_key (Origin_from_url (ex_net_url ''https'' ''a.org'' 443 ''/y''))
   \<and> Origin_partition_key (Origin_from_url (ex_net_url ''https'' ''a.org'' 443 ''/x''))
     \<noteq> Origin_partition_key (Origin_from_url (ex_net_url ''http'' ''a.org'' 443 ''/x''))"
  using partition_keys_identify_origins [of "ex_net_url ''https'' ''a.org'' 443 ''/x''" "ex_net_url ''https'' ''a.org'' 443 ''/y''"]
    partition_keys_identify_origins [of "ex_net_url ''https'' ''a.org'' 443 ''/x''" "ex_net_url ''http'' ''a.org'' 443 ''/x''"]
  by (simp add: port_known_def ex_net_url_def Origin_from_url_def)

text \<open>C18: a cached response answers only equivalent requests. A response stored for one request is usable
  for another only if they agree on every header the response varies on; and if the names of its headers are in
  lower case, as the network layer gives them, it is usable if they agree, the request does not say \<open>no-store\<close>
  and the body fits the limit of the request.\<close>

theorem cached_response_same_vary:
  assumes "cache_entry st hs body rq t0 = Some e"
  shows "(if cache_use dt e rq' t limit = Unusable then True
      else \<exists>names. vary_names (bt_get hs ''vary'') = Some names \<and> list_all (\<lambda>n. bt_get rq' n = bt_get rq n) names)
    \<and> (if lower_names hs \<and> vary_names (bt_get hs ''vary'') = Some names
          \<and> list_all (\<lambda>n. bt_get rq' n = bt_get rq n) names
          \<and> \<not> has_directive (map_header rq' ''cache-control'') ''no-store'' \<and> length body \<le> limit
       then cache_use dt e rq' t limit \<noteq> Unusable else True)"
proof (intro conjI)
  show "if cache_use dt e rq' t limit = Unusable then True
      else \<exists>names. vary_names (bt_get hs ''vary'') = Some names \<and> list_all (\<lambda>n. bt_get rq' n = bt_get rq n) names"
    using entry_matches [OF assms, of rq'] by (auto simp: cache_use_cases admitted_def split: if_splits)
  have "admitted e rq' limit" if "lower_names hs" "vary_names (bt_get hs ''vary'') = Some names"
      "list_all (\<lambda>n. bt_get rq' n = bt_get rq n) names"
      "\<not> has_directive (map_header rq' ''cache-control'') ''no-store''" "length body \<le> limit"
    using entry_matches_lower [OF assms that(1-3)] that(4,5) cache_entry_Some(1-6) [OF assms]
      header_find_lower [OF that(1) lower_words(2)]
    by (simp add: admitted_def cache_control_has_def cache_control_has_map_def)
  then show "if lower_names hs \<and> vary_names (bt_get hs ''vary'') = Some names
          \<and> list_all (\<lambda>n. bt_get rq' n = bt_get rq n) names
          \<and> \<not> has_directive (map_header rq' ''cache-control'') ''no-store'' \<and> length body \<le> limit
       then cache_use dt e rq' t limit \<noteq> Unusable else True"
    by (simp add: cache_use_cases)
qed

definition ex_stored_response :: CacheEntry where
  "ex_stored_response = \<lparr>ce_status = 200, ce_headers = [(''cache-control'', ''max-age=60''), (''vary'', ''accept'')],
     ce_body = ''x'', ce_fetched_unix = 1000, ce_vary_headers = [(''accept'', Some ''a'')]\<rparr>"

lemma ex_trimmed: "str_trim ''accept'' = ''accept''" "str_trim ''max-age'' = ''max-age''" "str_trim ''60'' = ''60''"
  by (simp_all add: str_trim_printable printable_def byte_def)

lemma ex_vary_names: "vary_names (Some ''accept'') = Some [''accept'']"
proof -
  have "to_ascii_lowercase ''accept'' = ''accept''" "valid_header_name ''accept''" by code_simp+
  then show ?thesis by (simp add: vary_names_def ex_trimmed MAX_VARY_FIELDS_def)
qed

lemma ex_directive_items:
  "str_split '','' ''max-age=60'' = [''max-age=60'']" "directive_item ''max-age=60'' = (''max-age'', Some ''60'')"
  "eq_ignore_ascii_case ''max-age'' ''max-age'' = True" "trim_matches_char (CHR 0x22) ''60'' = ''60''"
  "directive ''max-age=60'' ''no-store'' = None" "directive ''max-age=60'' ''no-cache'' = None"
proof -
  have "split_once (CHR ''='') ''max-age=60'' = Some (''max-age'', ''60'')" by code_simp
  then show item: "directive_item ''max-age=60'' = (''max-age'', Some ''60'')"
    by (simp add: directive_item_def ex_trimmed)
  show split: "str_split '','' ''max-age=60'' = [''max-age=60'']" by simp
  have "eq_ignore_ascii_case ''max-age'' ''no-store'' = False" "eq_ignore_ascii_case ''max-age'' ''no-cache'' = False"
    by code_simp+
  then show "directive ''max-age=60'' ''no-store'' = None" "directive ''max-age=60'' ''no-cache'' = None"
    by (simp_all add: directive_def split item find_map_eq_None)
  show "eq_ignore_ascii_case ''max-age'' ''max-age'' = True" "trim_matches_char (CHR 0x22) ''60'' = ''60''"
    by code_simp+
qed

lemma ex_directives:
  "cache_control_has [(''cache-control'', ''max-age=60''), (''vary'', ''accept'')] d = has_directive (Some ''max-age=60'') d"
  "cache_control_has_map [(''cache-control'', ''max-age=60''), (''vary'', ''accept'')] d = has_directive (Some ''max-age=60'') d"
  "seconds_directive (Some ''max-age=60'') ''max-age'' = SD_Value 60"
proof -
  show "cache_control_has [(''cache-control'', ''max-age=60''), (''vary'', ''accept'')] d = has_directive (Some ''max-age=60'') d"
    "cache_control_has_map [(''cache-control'', ''max-age=60''), (''vary'', ''accept'')] d = has_directive (Some ''max-age=60'') d"
    by (simp_all add: cache_control_has_def cache_control_has_map_def has_directive_def header_find_def bt_get_def
        eq_ignore_ascii_case_def)
  have "parse_u64 ''60'' = Some 60"
    by (simp add: parse_u64_def starts_with_char_def is_ascii_digit_def byte_def decimal_def)
  then show "seconds_directive (Some ''max-age=60'') ''max-age'' = SD_Value 60"
    by (simp add: seconds_directive_def ex_directive_items)
qed

lemma ex_stored_response_stored:
  "cache_entry 200 [(''cache-control'', ''max-age=60''), (''vary'', ''accept'')] ''x'' [(''accept'', ''a'')] 1000
     = Some ex_stored_response"
proof -
  have "map_header [(''accept'', ''a'')] ''cache-control'' = None" by code_simp
  then show ?thesis
    by (simp add: cache_entry_def ex_directives ex_directive_items capture_vary_def bt_get_def ex_vary_names
        ex_stored_response_def has_directive_def checked_add_usize_def usize_max_def MAX_VARY_VALUES_BYTES_def)
qed

lemma ex_stored_response_use:
  assumes "1000 \<le> t" and "t < 2000"
  shows "cache_use (\<lambda>_. None) ex_stored_response [(''accept'', ''a'')] t 10 = (if t < 1060 then Fresh else Stale)"
proof -
  let ?hs = "[(''cache-control'', ''max-age=60''), (''vary'', ''accept'')]"
  have rq: "map_header [(''accept'', ''a'')] ''cache-control'' = None" "map_header [(''accept'', ''a'')] ''pragma'' = None"
    by code_simp+
  have hs: "header_find ?hs ''date'' = None" "header_find ?hs ''age'' = None" "header_find ?hs ''vary'' = Some ''accept''"
    "header_find ?hs ''cache-control'' = Some ''max-age=60''"
    by code_simp+
  have "admitted ex_stored_response [(''accept'', ''a'')] 10" "\<not> revalidated ex_stored_response [(''accept'', ''a'')]"
    by (simp_all add: admitted_def revalidated_def ex_stored_response_def ex_directives ex_directive_items rq has_directive_def vary_matches_def
        hs ex_vary_names bt_get_def)
  moreover have "freshness_lifetime (\<lambda>_. None) ex_stored_response = Some 60"
    by (simp add: freshness_lifetime_def ex_stored_response_def hs ex_directives)
  moreover have "current_age (\<lambda>_. None) ex_stored_response t = nat (t - 1000)"
    using assms by (simp add: current_age_def ex_stored_response_def hs elapsed_def saturating_sub_i64_def saturating_add_u64_def
        i64_max_def i64_min_def u64_max_def)
  ultimately show ?thesis
    using assms by (simp add: cache_use_cases young_enough_def rq seconds_directive_def max_stale_allows_def nat_less_iff)
qed

theorem cached_response_same_vary_witness:
  "cache_use (\<lambda>_. None) ex_stored_response [(''accept'', ''b'')] 1010 10 = Unusable
   \<and> cache_use (\<lambda>_. None) ex_stored_response [(''accept'', ''a''), (''x'', ''y'')] 1010 10 \<noteq> Unusable"
proof -
  have "lower_names [(''cache-control'', ''max-age=60''), (''vary'', ''accept'')]"
    "\<not> has_directive (map_header [(''accept'', ''a''), (''x'', ''y'')] ''cache-control'') ''no-store''"
    by code_simp+
  then show ?thesis
    using ex_vary_names cached_response_same_vary [OF ex_stored_response_stored, of "\<lambda>_. None" "[(''accept'', ''b'')]" 1010 10 "[]"]
      cached_response_same_vary [OF ex_stored_response_stored, of "\<lambda>_. None" "[(''accept'', ''a''), (''x'', ''y'')]" 1010 10 "[''accept'']"]
    by (simp add: bt_get_def split: if_splits)
qed

text \<open>Freshness expires. A response that is fresh at some time was fresh at every earlier time, and a
  request that does not ask for stale responses gets a stored one without revalidation only within its
  lifetime after it was fetched, for lifetimes that fit 63 bits.\<close>

theorem cached_freshness_expires:
  assumes "cache_use dt e rq t limit = Fresh"
  shows "(if t0 \<le> t then cache_use dt e rq t0 limit = Fresh else True)
    \<and> (\<exists>l. freshness_lifetime dt e = Some l
        \<and> (if has_directive (map_header rq ''cache-control'') ''max-stale'' \<or> i64_max < int l then True
           else t - ce_fetched_unix e < int l))"
proof -
  from assms obtain l where l: "admitted e rq limit" "\<not> revalidated e rq" "freshness_lifetime dt e = Some l"
      "young_enough e rq (current_age dt e t) l"
    by (auto simp: cache_use_cases split: if_splits option.splits)
  have "cache_use dt e rq t0 limit = Fresh" if "t0 \<le> t"
    using l young_enough_antitone [OF current_age_mono [OF that] l(4)] by (simp add: cache_use_cases)
  moreover have "t - ce_fetched_unix e < int l"
    if "\<not> has_directive (map_header rq ''cache-control'') ''max-stale''" "int l \<le> i64_max"
  proof -
    have "current_age dt e t < l"
      using l(4) that(1) max_stale_asked unfolding young_enough_def Let_def by blast
    then show ?thesis using that(2) by (rule age_since_fetch)
  qed
  ultimately show ?thesis using l(3) by (auto simp: not_less)
qed

theorem cached_freshness_expires_witness:
  "cache_use (\<lambda>_. None) ex_stored_response [(''accept'', ''a'')] 1005 10 = Fresh
   \<and> cache_use (\<lambda>_. None) ex_stored_response [(''accept'', ''a'')] 1060 10 = Stale"
proof -
  have "cache_use (\<lambda>_. None) ex_stored_response [(''accept'', ''a'')] 1059 10 = Fresh" by (simp add: ex_stored_response_use)
  from cached_freshness_expires [OF this, of 1005] show ?thesis by (simp add: ex_stored_response_use)
qed

text \<open>The newest usable variant is chosen. A selected response is one of the stored ones, usable, and
  none of the usable ones was fetched later; nothing is selected only if none is usable.\<close>

theorem newest_variant_selected:
  "case select_variant dt es rq t limit of
     None \<Rightarrow> list_all (\<lambda>e. cache_use dt e rq t limit = Unusable) es
   | Some (e, u) \<Rightarrow> e \<in> set es \<and> u = cache_use dt e rq t limit \<and> u \<noteq> Unusable
       \<and> list_all (\<lambda>e'. cache_use dt e' rq t limit = Unusable \<or> ce_fetched_unix e' \<le> ce_fetched_unix e) es"
proof (cases "select_variant dt es rq t limit")
  case None
  then have "list_all (\<lambda>e. cache_use dt e rq t limit = Unusable) es" by (simp only: select_variant_None)
  with None show ?thesis by simp
next
  case (Some p)
  obtain e u where "p = (e, u)" by fastforce
  with Some select_variant_Some [of dt es rq t limit e u] show ?thesis by (auto simp: list_all_iff)
qed

text \<open>C19: stored redirects stay on their origin. Whatever the database holds, a redirect that is replayed
  from it has permanent statuses only, and each of its URLs passes the URL policy, has the origin of the
  request and occurs once, the first being the request itself.\<close>

theorem redirect_replay_stays_on_origin:
  assumes "resolve_redirect_alias lib json display dns parse_url db url = Ok (Some r)"
  shows "\<exists>urls. map (\<lambda>h. parse_url (hop_to h)) (ra_hops r) = map Ok urls \<and> ra_final_url r = last (url # urls)
    \<and> list_all (\<lambda>h. hop_status h = 301 \<or> hop_status h = 308) (ra_hops r)
    \<and> list_all (\<lambda>u. is_ok (validate_http_url dns u) \<and> Origin_from_url u = Origin_from_url url) urls
    \<and> distinct (map url_as_str (url # urls))"
proof -
  from assms have "follow_hops dns parse_url (Origin_from_url url) {url_as_str url} url (ra_hops r)
      = Ok (Some (ra_final_url r))"
    by (auto simp: resolve_redirect_alias_def result_simps Let_def split: option.splits)
  then show ?thesis by (rule follow_hops_Some) auto
qed

definition ex_redirect :: CacheAlias where
  "ex_redirect = \<lparr>ca_hops = [\<lparr>hop_to = ''https://a.org/y'', hop_status = 301\<rparr>], ca_fetched_unix = 5\<rparr>"

definition ex_redirect_db :: tables where
  "ex_redirect_db = (\<lambda>_. [])(FETCH_CACHE_ALIASES :=
     [(namespaced_key ''https://a.org:443'' ''https://a.org/x'', ''r'')])"

definition ex_parse_url :: "string \<Rightarrow> (NetUrl, string) result" where
  "ex_parse_url s = (if s = ''https://a.org/y'' then Ok (ex_net_url ''https'' ''a.org'' 443 ''/y'') else Err ''invalid'')"

definition ex_net_dns :: dns_lib where
  "ex_net_dns = \<lparr>host_parse = Map.empty, host_to_string = (\<lambda>_. []), psl_suffix_str = Map.empty, psl_domain_str = Map.empty\<rparr>"

lemma ex_resolved:
  "resolve_redirect_alias memory_redb (table_serde [(ex_redirect, ''r'')]) (\<lambda>_. ''error'') ex_net_dns ex_parse_url
     ex_redirect_db (ex_net_url ''https'' ''a.org'' 443 ''/x'')
   = Ok (Some \<lparr>ra_final_url = ex_net_url ''https'' ''a.org'' 443 ''/y'', ra_hops = ca_hops ex_redirect\<rparr>)"
proof -
  let ?u = "\<lambda>p. ex_net_url ''https'' ''a.org'' 443 p"
  have o: "Origin_from_url (?u p) = \<lparr>og_scheme = ''https'', og_host = ''a.org'', og_port = Some 443, og_opaque = False\<rparr>" for p
    by (simp add: Origin_from_url_def ex_net_url_def)
  have "\<not> blocked_host (Domain ''a.org'')" by code_simp
  then have v: "is_ok (validate_http_url ex_net_dns (?u p))" for p
    by (simp add: validate_http_url_def ex_net_url_def is_private_host_iff)
  have key: "Origin_partition_key (Origin_from_url (?u ''/x'')) = ''https://a.org:443''"
    by (simp add: o Origin_partition_key_def show_nat.simps) code_simp
  have as: "url_as_str (?u p) = ''https://a.org'' @ p" for p by (simp add: ex_net_url_def)
  have "Store_cache_alias memory_redb (table_serde [(ex_redirect, ''r'')]) ex_redirect_db ''https://a.org:443'' ''https://a.org/x''
      = Ok (Some ex_redirect)"
    by (simp add: Store_cache_alias_def in_read_def read_get_def memory_redb_def ex_redirect_db_def sorted_table_def
        bt_ok_def bt_get_def decode_record_def table_serde_def)
  then show ?thesis
    by (simp add: resolve_redirect_alias_def key [unfolded o] as ex_redirect_def ex_parse_url_def o v Let_def)
qed

theorem redirect_replay_stays_on_origin_witness:
  "\<exists>urls. map (\<lambda>h. ex_parse_url (hop_to h)) (ca_hops ex_redirect) = map Ok urls
    \<and> list_all (\<lambda>u. is_ok (validate_http_url ex_net_dns u)
        \<and> Origin_from_url u = Origin_from_url (ex_net_url ''https'' ''a.org'' 443 ''/x'')) urls"
  using redirect_replay_stays_on_origin [OF ex_resolved] by auto

end
