(* ===== verification/Utf8_Lossy.thy ===== *)
theory Utf8_Lossy
  imports Rust_Str
begin

section \<open>Lossy decoding of UTF-8\<close>

text \<open>
  \<open>String::from_utf8_lossy\<close>: every maximal part of the input that cannot begin a character becomes U+FFFD. A step
  says how many bytes are consumed and whether they are a character. Strings of the model are lists of bytes, so
  the function returns its input unless that is not UTF-8, and what it returns always is.
\<close>

definition lossy_step :: "string \<Rightarrow> bool \<times> nat" where
  "lossy_step s =
     (case s of
        [] \<Rightarrow> (True, 1)
      | a # t \<Rightarrow>
          if byte a < 128 then (True, 1)
          else (case t of
              [] \<Rightarrow> (False, 1)
            | b # u \<Rightarrow>
                (case utf8_rest (byte a) (byte b) of
                   None \<Rightarrow> (False, 1)
                 | Some n \<Rightarrow>
                     (let k = length (takeWhile continuation_byte (take n u)) in
                      if k = n then (True, 2 + n) else (False, 2 + k)))))"

lemma lossy_step_pos: "0 < snd (lossy_step s)"
  by (auto simp: lossy_step_def Let_def split: list.splits option.splits if_splits)

definition REPLACEMENT :: string where
  "REPLACEMENT = [CHR 0xEF, CHR 0xBF, CHR 0xBD]"

function from_utf8_lossy :: "string \<Rightarrow> string" where
  "from_utf8_lossy s =
     (if s = [] then []
      else (let (ok, n) = lossy_step s in (if ok then take n s else REPLACEMENT) @ from_utf8_lossy (drop n s)))"
  by pat_completeness auto
termination
proof (relation "measure length")
  fix s :: string and x :: "bool \<times> nat" and ok n
  assume "s \<noteq> []" "x = lossy_step s" "(ok, n) = x"
  then have "0 < n" using lossy_step_pos [of s] by (metis snd_conv)
  with \<open>s \<noteq> []\<close> show "(drop n s, s) \<in> measure length" by simp
qed simp

declare from_utf8_lossy.simps [simp del]

lemma from_utf8_lossy_Nil [simp]: "from_utf8_lossy [] = []"
  by (simp add: from_utf8_lossy.simps)

lemma takeWhile_all: "length (takeWhile P xs) = length xs \<longleftrightarrow> list_all P xs"
  by (induction xs) auto

text \<open>A step that finds a character consumes exactly the bytes that the validator does.\<close>

lemma lossy_step_valid:
  assumes "lossy_step s = (True, n)" and "s \<noteq> []"
  shows "n \<le> length s" and "utf8_valid (take n s @ t) = utf8_valid t"
proof -
  obtain a u where s: "s = a # u" using assms(2) by (cases s) auto
  have "n \<le> length s \<and> utf8_valid (take n s @ t) = utf8_valid t"
  proof (cases "byte a < 128")
    case True
    with assms(1) have "n = 1" by (auto simp: lossy_step_def s)
    with True show ?thesis by (simp add: s)
  next
    case False
    with assms(1) obtain b v k where v: "u = b # v" "utf8_rest (byte a) (byte b) = Some k" "n = 2 + k"
        "length (takeWhile continuation_byte (take k v)) = k"
      by (auto simp: lossy_step_def s Let_def split: list.splits option.splits if_splits)
    have "length (takeWhile continuation_byte (take k v)) \<le> length (take k v)" by (rule length_takeWhile_le)
    with v(4) have k: "k \<le> length v" by simp
    with v(4) have "list_all continuation_byte (take k v)" using takeWhile_all [of continuation_byte "take k v"] by simp
    with False v k show ?thesis by (simp add: s)
  qed
  then show "n \<le> length s" "utf8_valid (take n s @ t) = utf8_valid t" by simp_all
qed

lemma valid_lossy_step:
  assumes "utf8_valid s" and "s \<noteq> []"
  shows "\<exists>n. lossy_step s = (True, n)"
proof -
  obtain a u where s: "s = a # u" using assms(2) by (cases s) auto
  show ?thesis
  proof (cases "byte a < 128")
    case False
    with assms(1) obtain b v k where v: "u = b # v" "utf8_rest (byte a) (byte b) = Some k" "k \<le> length v"
        "list_all continuation_byte (take k v)"
      by (auto simp: s split: list.splits option.splits)
    then have "length (takeWhile continuation_byte (take k v)) = k"
      using takeWhile_all [of continuation_byte "take k v"] by simp
    with False v show ?thesis by (simp add: lossy_step_def s)
  qed (simp add: lossy_step_def s)
qed

lemma from_utf8_lossy_valid: "utf8_valid s \<Longrightarrow> from_utf8_lossy s = s"
proof (induction s rule: from_utf8_lossy.induct)
  case (1 s)
  show ?case
  proof (cases "s = []")
    case False
    with 1(2) obtain n where n: "lossy_step s = (True, n)" using valid_lossy_step by blast
    have "utf8_valid (drop n s)"
      using lossy_step_valid(2) [OF n False, of "drop n s"] 1(2) by simp
    with 1(1) [OF False n [symmetric] refl] n False show ?thesis by (simp add: from_utf8_lossy.simps [of s])
  qed simp
qed

lemma replacement_valid: "utf8_valid (REPLACEMENT @ t) = utf8_valid t"
  by (simp add: REPLACEMENT_def byte_def utf8_rest_def continuation_byte_def)

theorem from_utf8_lossy_utf8: "utf8_valid (from_utf8_lossy s)"
proof (induction s rule: from_utf8_lossy.induct)
  case (1 s)
  show ?case
  proof (cases "s = []")
    case False
    obtain ok n where n: "lossy_step s = (ok, n)" by fastforce
    from 1(1) [OF False n [symmetric] refl] have "utf8_valid (from_utf8_lossy (drop n s))" .
    with n False show ?thesis
      using lossy_step_valid(2) [of s n] by (cases ok) (simp_all add: from_utf8_lossy.simps [of s] replacement_valid)
  qed simp
qed

end
