(* ===== verification/Network_Fetch.thy ===== *)
theory Network_Fetch
  imports Http_Cache Cookie_Runs Utf8_Lossy
begin

section \<open>Fetching over the network\<close>

text \<open>
  \<open>vixen-net/src/network.rs\<close> and \<open>fetch_types.rs\<close>: the loop that follows redirects by hand, so that the URL
  policy and the cookie jar apply at every hop. The HTTP client is third-party: \<open>transport\<close> holds what the
  code calls. A call of \<open>send\<close> takes and returns the state of the world outside, \<open>'w\<close>, which also
  determines the clock; the body of a response arrives as a finite sequence of chunks, any of which may
  fail. The names in a response are lower case, as \<open>HeaderName\<close> keeps them, and a value is \<open>None\<close> when it
  is not visible ASCII. The observers of the caller are functions on a state \<open>'o\<close> of their own. The
  number of redirects is a natural number: \<open>max_redirects\<close> is assumed to fit the \<open>u32\<close> counter.
\<close>

definition DEFAULT_MAX_BODY_BYTES :: nat where "DEFAULT_MAX_BODY_BYTES = 8 * 1024 * 1024"
definition DEFAULT_MAX_REDIRECTS :: usize where "DEFAULT_MAX_REDIRECTS = 10"
definition MAX_BODY_PROGRESS_EVENTS :: nat where "MAX_BODY_PROGRESS_EVENTS = 256"

datatype NetworkError =
    UrlPolicy UrlPolicyError
  | Connect string
  | Timeout
  | Body string
  | Decode string
  | Request string
  | Transport string
  | TooManyRedirects usize string
  | RedirectLoop string
  | InvalidRedirect string
  | RedirectDisallowed string
  | BodyTooLarge nat nat string

record NetworkConfig =
  nc_user_agent :: string
  nc_max_body_bytes :: nat
  nc_max_redirects :: usize

subsection \<open>The HTTP client\<close>

record reqwest_error =
  is_timeout :: bool
  is_connect :: bool
  is_body :: bool
  is_decode :: bool
  is_request :: bool
  re_message :: string

record http_response =
  rs_status :: u16
  rs_headers :: "(string \<times> string option) list"
  rs_content_length :: "nat option"
  rs_chunks :: "(bytes, reqwest_error) result list"

record ('w, 't) transport =
  send :: "'w \<Rightarrow> Method \<Rightarrow> NetUrl \<Rightarrow> header_map \<Rightarrow> bytes option \<Rightarrow> 'w \<times> (http_response, reqwest_error) result"
  url_join :: "NetUrl \<Rightarrow> string \<Rightarrow> NetUrl option"
  header_name :: "string \<Rightarrow> (string, string) result"
  header_value :: "string \<Rightarrow> (string, string) result"
  clock :: "'w \<Rightarrow> nat \<Rightarrow> 't"

definition map_reqwest_error :: "reqwest_error \<Rightarrow> NetworkError" where
  "map_reqwest_error e =
     (if is_timeout e then Timeout
      else if is_connect e then Connect (re_message e)
      else if is_body e then Body (re_message e)
      else if is_decode e then Decode (re_message e)
      else if is_request e then Request (re_message e)
      else Transport (re_message e))"

definition header_get :: "http_response \<Rightarrow> string \<Rightarrow> string option" where
  "header_get resp name = (case map_of (rs_headers resp) name of Some v \<Rightarrow> v | None \<Rightarrow> None)"

definition header_get_all :: "http_response \<Rightarrow> string \<Rightarrow> string list" where
  "header_get_all resp name = List.map_filter (\<lambda>(n, v). if n = name then v else None) (rs_headers resp)"

text \<open>\<open>BTreeMap::entry\<close> with \<open>and_modify\<close> appending, or inserting; and \<open>or_insert\<close> alone.\<close>

definition combine_header :: "string \<Rightarrow> string \<Rightarrow> header_map \<Rightarrow> header_map" where
  "combine_header name val m =
     (case bt_get m name of
        Some old \<Rightarrow> bt_insert name (old @ '', '' @ val) m
      | None \<Rightarrow> bt_insert name val m)"

definition default_header :: "string \<Rightarrow> string \<Rightarrow> header_map \<Rightarrow> header_map" where
  "default_header name val m = (if bt_contains_key m name then m else bt_insert name val m)"

definition flatten_headers :: "http_response \<Rightarrow> header_map" where
  "flatten_headers resp =
     fold (\<lambda>(name, val). combine_header (to_ascii_lowercase name) (case val of Some v \<Rightarrow> v | None \<Rightarrow> []))
       (rs_headers resp) []"

definition is_followable_redirect :: "u16 \<Rightarrow> bool" where
  "is_followable_redirect status \<longleftrightarrow> status \<in> {301, 302, 303, 307, 308}"

definition redirect_response_aliasable :: "http_response \<Rightarrow> bool" where
  "redirect_response_aliasable resp \<longleftrightarrow> rs_status resp \<in> {301, 308}
     \<and> \<not> (case header_get resp ''cache-control'' of
           None \<Rightarrow> False
         | Some val \<Rightarrow> list_ex (\<lambda>dir.
             eq_ignore_ascii_case (str_trim (case split_once (CHR ''='') dir of Some (name, _) \<Rightarrow> name | None \<Rightarrow> dir))
               ''no-store'') (str_split '','' val))"

subsection \<open>Requests and responses\<close>

datatype RedirectMode = Follow | RedirectError | Manual

record TextRequest =
  rq_url :: NetUrl
  rq_cross_site :: bool
  rq_method :: Method
  rq_redirect_mode :: RedirectMode
  rq_headers :: "(string \<times> string) list"
  rq_body :: "bytes option"

record ByteResponse =
  br_body :: bytes
  br_headers :: header_map
  br_status :: u16
  br_final_url :: string
  br_set_cookie :: "string list"
  br_redirects :: nat
  br_events :: "NetworkEvent list"
  br_request_headers :: header_map
  br_from_cache :: bool
  br_redirect_aliasable :: bool

definition ByteResponse_header :: "ByteResponse \<Rightarrow> string \<Rightarrow> string option" where
  "ByteResponse_header r name = bt_get (br_headers r) (to_ascii_lowercase name)"

definition ByteResponse_content_type :: "ByteResponse \<Rightarrow> string option" where
  "ByteResponse_content_type r =
     map_option (\<lambda>v. str_trim (hd (str_split '';'' v))) (ByteResponse_header r ''content-type'')"

record ResponseHead =
  rh_headers :: header_map
  rh_status :: u16
  rh_final_url :: string
  rh_set_cookie :: "string list"
  rh_redirects :: nat
  rh_events :: "NetworkEvent list"
  rh_request_headers :: header_map
  rh_redirect_aliasable :: bool
  rh_total_bytes :: "nat option"

record 'o FetchObservers =
  on_progress :: "NetworkEvent \<Rightarrow> 'o \<Rightarrow> 'o"
  on_redirect :: "NetUrl \<Rightarrow> 'o \<Rightarrow> 'o \<times> bool"
  on_response :: "ResponseHead \<Rightarrow> 'o \<Rightarrow> 'o"
  on_body :: "bytes \<Rightarrow> 'o \<Rightarrow> 'o"

record ('w, 't, 'o) fetch_state =
  fs_world :: 'w
  fs_jar :: "'t CookieJar"
  fs_observer :: 'o

text \<open>What stays the same during a fetch.\<close>

record ('w, 't, 'o) fetch_env =
  fe_transport :: "('w, 't) transport"
  fe_dns :: dns_lib
  fe_time :: "'t time_lib"
  fe_config :: NetworkConfig
  fe_request :: TextRequest
  fe_limit :: nat
  fe_observers :: "'o FetchObservers"

subsection \<open>Request headers\<close>

definition request_host :: "NetUrl \<Rightarrow> string option" where
  "request_host url =
     Option.bind (url_host_str url) (\<lambda>host.
       Some (case url_port url of Some p \<Rightarrow> host @ '':'' @ show_word p | None \<Rightarrow> host))"

primrec caller_headers ::
    "('w, 't) transport \<Rightarrow> (string \<times> string) list \<Rightarrow> header_map \<Rightarrow> (header_map, NetworkError) result" where
  "caller_headers lib [] out = Ok out"
| "caller_headers lib (h # hs) out =
     (case header_name lib (fst h) of
        Err error \<Rightarrow> Err (Request (''invalid request header name '' @ fst h @ '': '' @ error))
      | Ok name \<Rightarrow>
          (case header_value lib (snd h) of
             Err error \<Rightarrow> Err (Request (''invalid request header value for '' @ name @ '': '' @ error))
           | Ok val \<Rightarrow> caller_headers lib hs (combine_header (to_ascii_lowercase name) val out)))"

definition effective_request_headers_for ::
    "('w, 't::linorder) transport \<Rightarrow> dns_lib \<Rightarrow> NetworkConfig \<Rightarrow> 'w \<Rightarrow> 't CookieJar \<Rightarrow> NetUrl \<Rightarrow> bool \<Rightarrow> Method
     \<Rightarrow> (string \<times> string) list \<Rightarrow> bytes option \<Rightarrow> 't CookieJar \<times> (header_map, NetworkError) result" where
  "effective_request_headers_for lib dns config w jar url cross_site meth headers body =
     (case caller_headers lib headers [] of
        Err e \<Rightarrow> (jar, Err e)
      | Ok out0 \<Rightarrow>
          (let out1 = default_header ''user-agent'' (nc_user_agent config) out0;
               out2 = default_header ''accept-encoding'' ''gzip, br'' out1;
               out3 = (case request_host url of Some host \<Rightarrow> default_header ''host'' host out2 | None \<Rightarrow> out2);
               (jar', cookie) = CookieJar_cookies_for dns (clock lib w 0) jar (Url.truncate url) cross_site meth;
               out4 = (if cookie \<noteq> [] then bt_insert ''cookie'' cookie out3 else bt_remove ''cookie'' out3);
               out5 = (case body of Some b \<Rightarrow> bt_insert ''content-length'' (show_nat (length b)) out4
                 | None \<Rightarrow> bt_remove ''content-length'' out4)
           in (jar', Ok out5)))"

definition effective_request_headers ::
    "('w, 't::linorder) transport \<Rightarrow> dns_lib \<Rightarrow> NetworkConfig \<Rightarrow> 'w \<Rightarrow> 't CookieJar \<Rightarrow> TextRequest
     \<Rightarrow> 't CookieJar \<times> (header_map, NetworkError) result" where
  "effective_request_headers lib dns config w jar request =
     (case validate_http_url dns (rq_url request) of
        Err e \<Rightarrow> (jar, Err (UrlPolicy e))
      | Ok _ \<Rightarrow> effective_request_headers_for lib dns config w jar (rq_url request) (rq_cross_site request)
          (rq_method request) (rq_headers request) (rq_body request))"

primrec store_cookies ::
    "dns_lib \<Rightarrow> 't::linorder time_lib \<Rightarrow> (nat \<Rightarrow> 't) \<Rightarrow> nat \<Rightarrow> NetUrl \<Rightarrow> 't CookieJar \<Rightarrow> string list \<Rightarrow> 't CookieJar" where
  "store_cookies dns tm now i url jar [] = jar"
| "store_cookies dns tm now i url jar (sc # scs) =
     store_cookies dns tm now (i + 2) url
       (fst (CookieJar_set_cookie dns tm (\<lambda>k. now (i + k)) jar sc (Url.truncate url) True)) scs"

subsection \<open>The body\<close>

definition body_progress_quantum :: "nat \<Rightarrow> nat" where
  "body_progress_quantum limit =
     max (limit div MAX_BODY_PROGRESS_EVENTS + (if limit mod MAX_BODY_PROGRESS_EVENTS = 0 then 0 else 1)) 1"

record body_state =
  bs_body :: bytes
  bs_loaded :: nat
  bs_pending :: nat
  bs_events :: "NetworkEvent list"

definition record_progress ::
    "'o FetchObservers \<Rightarrow> NetworkEvent \<Rightarrow> 'o \<Rightarrow> NetworkEvent list \<Rightarrow> 'o \<times> NetworkEvent list" where
  "record_progress ob event obs events = (on_progress ob event obs, events @ [event])"

definition report_body :: "'o FetchObservers \<Rightarrow> string \<Rightarrow> nat option \<Rightarrow> 'o \<Rightarrow> body_state \<Rightarrow> 'o \<times> body_state" where
  "report_body ob url total_bytes obs b =
     (let (obs', events) = record_progress ob
            (BodyProgress url (bs_pending b) (bs_loaded b) total_bytes) obs (bs_events b)
      in (obs', b\<lparr>bs_events := events, bs_pending := 0\<rparr>))"

primrec body_loop ::
    "'o FetchObservers \<Rightarrow> string \<Rightarrow> nat \<Rightarrow> nat option \<Rightarrow> (bytes, reqwest_error) result list \<Rightarrow> 'o \<Rightarrow> body_state
     \<Rightarrow> 'o \<times> (body_state, NetworkError) result" where
  "body_loop ob url limit total_bytes [] obs b = (obs, Ok b)"
| "body_loop ob url limit total_bytes (r # rs) obs b =
     (case r of
        Err e \<Rightarrow> (obs, Err (map_reqwest_error e))
      | Ok chunk \<Rightarrow>
          (let actual = saturating_add_u64 (bs_loaded b) (length chunk) in
           if limit < actual then (obs, Err (BodyTooLarge limit actual url))
           else
             let obs' = on_body ob chunk obs;
                 b' = b\<lparr>bs_body := bs_body b @ chunk, bs_loaded := actual,
                   bs_pending := saturating_add_u64 (bs_pending b) (length chunk)\<rparr>;
                 (obs'', b'') = (if body_progress_quantum limit \<le> bs_pending b' \<or> total_bytes = Some (bs_loaded b')
                   then report_body ob url total_bytes obs' b' else (obs', b'))
             in body_loop ob url limit total_bytes rs obs'' b''))"

subsection \<open>The loop\<close>

record fetch_vars =
  fv_current :: NetUrl
  fv_redirects :: nat
  fv_visited :: "string set"
  fv_events :: "NetworkEvent list"
  fv_aliasable :: bool

definition manual_response ::
    "('w, 't, 'o) fetch_env \<Rightarrow> ('w, 't, 'o) fetch_state \<Rightarrow> fetch_vars \<Rightarrow> http_response \<Rightarrow> header_map \<Rightarrow> string list
     \<Rightarrow> ('w, 't, 'o) fetch_state \<times> ByteResponse" where
  "manual_response env st v resp request_headers set_cookie =
     (let ob = fe_observers env; url = url_as_str (fv_current v); status = rs_status resp;
          (obs1, events1) = record_progress ob (Response url status) (fs_observer st) (fv_events v);
          obs2 = on_response ob \<lparr>rh_headers = flatten_headers resp, rh_status = status, rh_final_url = url,
            rh_set_cookie = set_cookie, rh_redirects = fv_redirects v, rh_events = events1,
            rh_request_headers = request_headers, rh_redirect_aliasable = redirect_response_aliasable resp,
            rh_total_bytes = Some 0\<rparr> obs1;
          (obs3, events2) = record_progress ob (Completed url 0) obs2 events1
      in (st\<lparr>fs_observer := obs3\<rparr>,
          \<lparr>br_body = [], br_headers = flatten_headers resp, br_status = status, br_final_url = url,
           br_set_cookie = set_cookie, br_redirects = fv_redirects v, br_events = events2,
           br_request_headers = request_headers, br_from_cache = False,
           br_redirect_aliasable = redirect_response_aliasable resp\<rparr>))"

definition follow_redirect ::
    "('w, 't, 'o) fetch_env \<Rightarrow> ('w, 't, 'o) fetch_state \<Rightarrow> fetch_vars \<Rightarrow> http_response
     \<Rightarrow> ('w, 't, 'o) fetch_state \<times> (fetch_vars, NetworkError) result" where
  "follow_redirect env st v resp =
     (let url = url_as_str (fv_current v); max = nc_max_redirects (fe_config env) in
      if rq_redirect_mode (fe_request env) = RedirectError then (st, Err (RedirectDisallowed url))
      else if max \<le> fv_redirects v then (st, Err (TooManyRedirects max url))
      else (case header_get resp ''location'' of
          None \<Rightarrow> (st, Err (InvalidRedirect url))
        | Some location \<Rightarrow>
            (case url_join (fe_transport env) (fv_current v) location of
               None \<Rightarrow> (st, Err (InvalidRedirect url))
             | Some next_url \<Rightarrow>
                 if url_as_str next_url \<in> fv_visited v then (st, Err (RedirectLoop (url_as_str next_url)))
                 else (case validate_http_url (fe_dns env) next_url of
                     Err e \<Rightarrow> (st, Err (UrlPolicy e))
                   | Ok _ \<Rightarrow>
                       (let (obs1, allowed) = on_redirect (fe_observers env) next_url (fs_observer st) in
                        if \<not> allowed then (st\<lparr>fs_observer := obs1\<rparr>, Err (Request
                          (''redirect target rejected by caller policy: '' @ url_as_str next_url)))
                        else
                          let (obs2, events) = record_progress (fe_observers env)
                                (Redirect url (url_as_str next_url) (rs_status resp)) obs1 (fv_events v)
                          in (st\<lparr>fs_observer := obs2\<rparr>, Ok \<lparr>fv_current = next_url, fv_redirects = fv_redirects v + 1,
                                fv_visited = fv_visited v, fv_events = events,
                                fv_aliasable = (fv_aliasable v \<and> redirect_response_aliasable resp)\<rparr>))))))"

definition final_response ::
    "('w, 't, 'o) fetch_env \<Rightarrow> ('w, 't, 'o) fetch_state \<Rightarrow> fetch_vars \<Rightarrow> http_response \<Rightarrow> header_map \<Rightarrow> string list
     \<Rightarrow> ('w, 't, 'o) fetch_state \<times> (ByteResponse, NetworkError) result" where
  "final_response env st v resp request_headers set_cookie =
     (let ob = fe_observers env; url = url_as_str (fv_current v); status = rs_status resp; limit = fe_limit env;
          (obs1, events1) = record_progress ob (Response url status) (fs_observer st) (fv_events v);
          total_bytes = rs_content_length resp
      in if (case total_bytes of Some cl \<Rightarrow> limit < cl | None \<Rightarrow> False)
         then (st\<lparr>fs_observer := obs1\<rparr>, Err (BodyTooLarge limit (the total_bytes) url))
         else
           let headers = flatten_headers resp;
               obs2 = on_response ob \<lparr>rh_headers = headers, rh_status = status, rh_final_url = url,
                 rh_set_cookie = set_cookie, rh_redirects = fv_redirects v, rh_events = events1,
                 rh_request_headers = request_headers, rh_redirect_aliasable = fv_aliasable v,
                 rh_total_bytes = total_bytes\<rparr> obs1
           in (case body_loop ob url limit total_bytes (rs_chunks resp) obs2
                 \<lparr>bs_body = [], bs_loaded = 0, bs_pending = 0, bs_events = events1\<rparr> of
               (obs3, Err e) \<Rightarrow> (st\<lparr>fs_observer := obs3\<rparr>, Err e)
             | (obs3, Ok b) \<Rightarrow>
                 (let (obs4, b') = (if 0 < bs_pending b then report_body ob url total_bytes obs3 b else (obs3, b));
                      (obs5, events2) = record_progress ob (Completed url (bs_loaded b')) obs4 (bs_events b')
                  in (st\<lparr>fs_observer := obs5\<rparr>, Ok
                      \<lparr>br_body = bs_body b', br_headers = headers, br_status = status, br_final_url = url,
                       br_set_cookie = set_cookie, br_redirects = fv_redirects v, br_events = events2,
                       br_request_headers = request_headers, br_from_cache = False,
                       br_redirect_aliasable = fv_aliasable v\<rparr>))))"

text \<open>What an iteration does with a response, after its cookies were stored: another hop, or the result.\<close>

definition handle_response ::
    "('w, 't, 'o) fetch_env \<Rightarrow> ('w, 't, 'o) fetch_state \<Rightarrow> fetch_vars \<Rightarrow> http_response \<Rightarrow> header_map
     \<Rightarrow> ('w, 't, 'o) fetch_state \<times> (fetch_vars + (ByteResponse, NetworkError) result)" where
  "handle_response env st v resp request_headers =
     (let set_cookie = header_get_all resp ''set-cookie'' in
      if is_followable_redirect (rs_status resp) \<and> rq_redirect_mode (fe_request env) = Manual then
        (let (st', r) = manual_response env st v resp request_headers set_cookie in (st', Inr (Ok r)))
      else if is_followable_redirect (rs_status resp) then
        (case follow_redirect env st v resp of
           (st', Ok v') \<Rightarrow> (st', Inl v')
         | (st', Err e) \<Rightarrow> (st', Inr (Err e)))
      else (let (st', r) = final_response env st v resp request_headers set_cookie in (st', Inr r)))"

text \<open>The start of an iteration: the URL is visited, and the request is announced.\<close>

definition start_request ::
    "('w, 't, 'o) fetch_env \<Rightarrow> 'o \<Rightarrow> fetch_vars \<Rightarrow> 'o \<times> fetch_vars" where
  "start_request env obs v =
     (let url = url_as_str (fv_current v);
          (obs', events) = record_progress (fe_observers env) (RequestStart url (rq_method (fe_request env))) obs (fv_events v)
      in (obs', v\<lparr>fv_visited := insert url (fv_visited v), fv_events := events\<rparr>))"

definition request_headers ::
    "('w, 't::linorder, 'o) fetch_env \<Rightarrow> ('w, 't, 'o) fetch_state \<Rightarrow> NetUrl
     \<Rightarrow> 't CookieJar \<times> (header_map, NetworkError) result" where
  "request_headers env st url =
     effective_request_headers_for (fe_transport env) (fe_dns env) (fe_config env) (fs_world st) (fs_jar st) url
       (rq_cross_site (fe_request env)) (rq_method (fe_request env)) (rq_headers (fe_request env)) (rq_body (fe_request env))"

definition fetch_iteration ::
    "('w, 't::linorder, 'o) fetch_env \<Rightarrow> ('w, 't, 'o) fetch_state \<Rightarrow> fetch_vars
     \<Rightarrow> ('w, 't, 'o) fetch_state \<times> (fetch_vars + (ByteResponse, NetworkError) result)" where
  "fetch_iteration env st v0 =
     (let rq = fe_request env; current = fv_current v0;
          (obs, v) = start_request env (fs_observer st) v0;
          (jar, hdrs) = request_headers env st current;
          st1 = st\<lparr>fs_jar := jar, fs_observer := obs\<rparr>
      in case hdrs of
           Err e \<Rightarrow> (st1, Inr (Err e))
         | Ok h \<Rightarrow>
             (let (w, sent) = send (fe_transport env) (fs_world st) (rq_method rq) current h (rq_body rq);
                  st2 = st1\<lparr>fs_world := w\<rparr>
              in case sent of
                   Err e \<Rightarrow> (st2, Inr (Err (map_reqwest_error e)))
                 | Ok resp \<Rightarrow> handle_response env (st2\<lparr>fs_jar := store_cookies (fe_dns env) (fe_time env)
                     (clock (fe_transport env) w) 0 current jar (header_get_all resp ''set-cookie'')\<rparr>) v resp h))"

lemma follow_redirect_counts:
  "follow_redirect env st v resp = (st', Ok v') \<Longrightarrow>
     fv_redirects v' = fv_redirects v + 1 \<and> fv_redirects v < nc_max_redirects (fe_config env)"
  by (auto simp: follow_redirect_def record_progress_def Let_def split: if_splits option.splits result.splits prod.splits)

lemma handle_response_Inl:
  "handle_response env st v resp h = (st', Inl v') \<Longrightarrow> follow_redirect env st v resp = (st', Ok v')"
  by (auto simp: handle_response_def Let_def split: if_splits prod.splits result.splits)

text \<open>The two ways an iteration can go: the headers are refused or nothing is received, or a response is
  handled.\<close>

lemma fetch_iteration_cases:
  assumes "fetch_iteration env st v = (st', x)"
  obtains (refused) e where "request_headers env st (fv_current v) = (fs_jar st', Err e)" and "x = Inr (Err e)"
      and "fs_world st' = fs_world st"
  | (lost) h w e where "request_headers env st (fv_current v) = (fs_jar st', Ok h)" and "x = Inr (Err (map_reqwest_error e))"
      and "send (fe_transport env) (fs_world st) (rq_method (fe_request env)) (fv_current v) h (rq_body (fe_request env)) = (w, Err e)"
      and "fs_world st' = w"
  | (handled) h w resp jar obs v1 where "request_headers env st (fv_current v) = (jar, Ok h)"
      and "send (fe_transport env) (fs_world st) (rq_method (fe_request env)) (fv_current v) h (rq_body (fe_request env)) = (w, Ok resp)"
      and "start_request env (fs_observer st) v = (obs, v1)"
      and "handle_response env \<lparr>fs_world = w, fs_jar = store_cookies (fe_dns env) (fe_time env)
        (clock (fe_transport env) w) 0 (fv_current v) jar (header_get_all resp ''set-cookie''), fs_observer = obs\<rparr> v1 resp h = (st', x)"
proof -
  obtain obs v1 where start: "start_request env (fs_observer st) v = (obs, v1)" by fastforce
  obtain jar hdrs where hdrs: "request_headers env st (fv_current v) = (jar, hdrs)" by fastforce
  show thesis
  proof (cases hdrs)
    case (Err e)
    with assms start hdrs refused show thesis by (auto simp: fetch_iteration_def Let_def)
  next
    case (Ok h)
    obtain w r where sent: "send (fe_transport env) (fs_world st) (rq_method (fe_request env)) (fv_current v) h
        (rq_body (fe_request env)) = (w, r)" by fastforce
    show thesis
    proof (cases r)
      case (Err e)
      with assms start hdrs Ok sent lost show thesis by (auto simp: fetch_iteration_def Let_def)
    next
      case (Ok resp)
      have "st\<lparr>fs_observer := obs, fs_world := w, fs_jar := j\<rparr> = \<lparr>fs_world = w, fs_jar = j, fs_observer = obs\<rparr>" for j
        by (cases st) simp
      with Ok assms start hdrs \<open>hdrs = Ok h\<close> sent show thesis
        by (intro handled [of jar h w resp obs v1]) (auto simp: fetch_iteration_def Let_def)
    qed
  qed
qed

lemma fetch_iteration_counts:
  assumes "fetch_iteration env st v = (st', Inl v')"
  shows "fv_redirects v' = fv_redirects v + 1 \<and> fv_redirects v < nc_max_redirects (fe_config env)"
  using assms
proof (cases rule: fetch_iteration_cases)
  case (handled h w resp jar obs v1)
  from handled(3) have "fv_redirects v1 = fv_redirects v" by (auto simp: start_request_def record_progress_def Let_def)
  with follow_redirect_counts [OF handle_response_Inl [OF handled(4)]] show ?thesis by simp
qed simp_all

text \<open>Every redirect is counted, so the maximal number of redirects bounds the iterations.\<close>

function fetch_loop ::
    "('w, 't::linorder, 'o) fetch_env \<Rightarrow> ('w, 't, 'o) fetch_state \<Rightarrow> fetch_vars
     \<Rightarrow> ('w, 't, 'o) fetch_state \<times> (ByteResponse, NetworkError) result" where
  "fetch_loop env st v =
     (case fetch_iteration env st v of
        (st', Inl v') \<Rightarrow> fetch_loop env st' v'
      | (st', Inr r) \<Rightarrow> (st', r))"
  by pat_completeness auto
termination
  by (relation "measure (\<lambda>(env, st, v). nc_max_redirects (fe_config env) - fv_redirects v)")
    (auto dest: fetch_iteration_counts [OF sym])

declare fetch_loop.simps [simp del]

definition fetch_start :: "NetUrl \<Rightarrow> fetch_vars" where
  "fetch_start url = \<lparr>fv_current = url, fv_redirects = 0, fv_visited = {}, fv_events = [], fv_aliasable = True\<rparr>"

definition fetch_bytes_with_limit ::
    "('w, 't::linorder, 'o) fetch_env \<Rightarrow> ('w, 't, 'o) fetch_state
     \<Rightarrow> ('w, 't, 'o) fetch_state \<times> (ByteResponse, NetworkError) result" where
  "fetch_bytes_with_limit env st = fetch_loop env st (fetch_start (rq_url (fe_request env)))"

definition fetch_bytes ::
    "('w, 't::linorder, 'o) fetch_env \<Rightarrow> ('w, 't, 'o) fetch_state
     \<Rightarrow> ('w, 't, 'o) fetch_state \<times> (ByteResponse, NetworkError) result" where
  "fetch_bytes env st = fetch_bytes_with_limit (env\<lparr>fe_limit := nc_max_body_bytes (fe_config env)\<rparr>) st"

text \<open>The public entries check the first URL.\<close>

definition get_bytes_with_cookies_request_streaming ::
    "('w, 't::linorder, 'o) fetch_env \<Rightarrow> ('w, 't, 'o) fetch_state
     \<Rightarrow> ('w, 't, 'o) fetch_state \<times> (ByteResponse, NetworkError) result" where
  "get_bytes_with_cookies_request_streaming env st =
     (case validate_http_url (fe_dns env) (rq_url (fe_request env)) of
        Err e \<Rightarrow> (st, Err (UrlPolicy e))
      | Ok _ \<Rightarrow> fetch_bytes env st)"

text \<open>The other entries leave out observers.\<close>

definition progress_only :: "'o FetchObservers \<Rightarrow> 'o FetchObservers" where
  "progress_only ob = \<lparr>on_progress = on_progress ob, on_redirect = (\<lambda>_ st. (st, True)), on_response = (\<lambda>_ st. st),
     on_body = (\<lambda>_ st. st)\<rparr>"

definition unobserved :: "'o FetchObservers" where
  "unobserved = \<lparr>on_progress = (\<lambda>_ st. st), on_redirect = (\<lambda>_ st. (st, True)), on_response = (\<lambda>_ st. st), on_body = (\<lambda>_ st. st)\<rparr>"

definition get_bytes_with_cookies_request_with_progress ::
    "('w, 't::linorder, 'o) fetch_env \<Rightarrow> ('w, 't, 'o) fetch_state
     \<Rightarrow> ('w, 't, 'o) fetch_state \<times> (ByteResponse, NetworkError) result" where
  "get_bytes_with_cookies_request_with_progress env st =
     (case validate_http_url (fe_dns env) (rq_url (fe_request env)) of
        Err e \<Rightarrow> (st, Err (UrlPolicy e))
      | Ok _ \<Rightarrow> fetch_bytes (env\<lparr>fe_observers := progress_only (fe_observers env)\<rparr>) st)"

definition get_bytes_with_cookies_request_with_progress_and_limit ::
    "('w, 't::linorder, 'o) fetch_env \<Rightarrow> nat \<Rightarrow> ('w, 't, 'o) fetch_state
     \<Rightarrow> ('w, 't, 'o) fetch_state \<times> (ByteResponse, NetworkError) result" where
  "get_bytes_with_cookies_request_with_progress_and_limit env max_body_bytes st =
     (case validate_http_url (fe_dns env) (rq_url (fe_request env)) of
        Err e \<Rightarrow> (st, Err (UrlPolicy e))
      | Ok _ \<Rightarrow> fetch_bytes_with_limit (env\<lparr>fe_limit := min (nc_max_body_bytes (fe_config env)) max_body_bytes,
          fe_observers := progress_only (fe_observers env)\<rparr>) st)"

subsection \<open>Text\<close>

record TextResponse =
  tr_body :: string
  tr_headers :: header_map
  tr_status :: u16
  tr_final_url :: string
  tr_set_cookie :: "string list"
  tr_redirects :: nat
  tr_events :: "NetworkEvent list"
  tr_request_headers :: header_map
  tr_redirect_aliasable :: bool

definition TextResponse_from :: "ByteResponse \<Rightarrow> TextResponse" where
  "TextResponse_from r = \<lparr>tr_body = from_utf8_lossy (br_body r), tr_headers = br_headers r, tr_status = br_status r,
     tr_final_url = br_final_url r, tr_set_cookie = br_set_cookie r, tr_redirects = br_redirects r, tr_events = br_events r,
     tr_request_headers = br_request_headers r, tr_redirect_aliasable = br_redirect_aliasable r\<rparr>"

definition TextResponse_header :: "TextResponse \<Rightarrow> string \<Rightarrow> string option" where
  "TextResponse_header r name = bt_get (tr_headers r) (to_ascii_lowercase name)"

definition TextResponse_content_type :: "TextResponse \<Rightarrow> string option" where
  "TextResponse_content_type r =
     map_option (\<lambda>v. str_trim (hd (str_split '';'' v))) (TextResponse_header r ''content-type'')"

text \<open>The body that the text entries share: the check of the URL, the fetch and the conversion.\<close>

definition fetch_text ::
    "('w, 't::linorder, 'o) fetch_env \<Rightarrow> ('w, 't, 'o) fetch_state
     \<Rightarrow> ('w, 't, 'o) fetch_state \<times> (TextResponse, NetworkError) result" where
  "fetch_text env st =
     (case validate_http_url (fe_dns env) (rq_url (fe_request env)) of
        Err e \<Rightarrow> (st, Err (UrlPolicy e))
      | Ok _ \<Rightarrow>
          (let (st', r) = fetch_bytes env st in (st', and_then r (\<lambda>response. Ok (TextResponse_from response)))))"

definition get_text_with_cookies_request_with_progress ::
    "('w, 't::linorder, 'o) fetch_env \<Rightarrow> ('w, 't, 'o) fetch_state
     \<Rightarrow> ('w, 't, 'o) fetch_state \<times> (TextResponse, NetworkError) result" where
  "get_text_with_cookies_request_with_progress env st =
     fetch_text (env\<lparr>fe_observers := progress_only (fe_observers env)\<rparr>) st"

definition get_text_with_cookies_request ::
    "('w, 't::linorder, 'o) fetch_env \<Rightarrow> ('w, 't, 'o) fetch_state
     \<Rightarrow> ('w, 't, 'o) fetch_state \<times> (TextResponse, NetworkError) result" where
  "get_text_with_cookies_request env st = fetch_text (env\<lparr>fe_observers := unobserved\<rparr>) st"

definition get_text_with_cookies_redirect_mode_and_headers ::
    "('w, 't::linorder, 'o) fetch_env \<Rightarrow> ('w, 't, 'o) fetch_state \<Rightarrow> NetUrl \<Rightarrow> bool \<Rightarrow> Method \<Rightarrow> RedirectMode
     \<Rightarrow> (string \<times> string) list \<Rightarrow> ('w, 't, 'o) fetch_state \<times> (TextResponse, NetworkError) result" where
  "get_text_with_cookies_redirect_mode_and_headers env st url cross_site meth redirect_mode headers =
     fetch_text (env\<lparr>fe_observers := unobserved, fe_request := \<lparr>rq_url = url, rq_cross_site = cross_site, rq_method = meth,
       rq_redirect_mode = redirect_mode, rq_headers = headers, rq_body = None\<rparr>\<rparr>) st"

definition get_text_with_cookies_and_redirect_mode ::
    "('w, 't::linorder, 'o) fetch_env \<Rightarrow> ('w, 't, 'o) fetch_state \<Rightarrow> NetUrl \<Rightarrow> bool \<Rightarrow> Method \<Rightarrow> RedirectMode
     \<Rightarrow> ('w, 't, 'o) fetch_state \<times> (TextResponse, NetworkError) result" where
  "get_text_with_cookies_and_redirect_mode env st url cross_site meth redirect_mode =
     fetch_text (env\<lparr>fe_observers := unobserved, fe_request := \<lparr>rq_url = url, rq_cross_site = cross_site, rq_method = meth,
       rq_redirect_mode = redirect_mode, rq_headers = [], rq_body = None\<rparr>\<rparr>) st"

definition get_text_with_cookies ::
    "('w, 't::linorder, 'o) fetch_env \<Rightarrow> ('w, 't, 'o) fetch_state \<Rightarrow> NetUrl \<Rightarrow> bool \<Rightarrow> Method
     \<Rightarrow> ('w, 't, 'o) fetch_state \<times> (TextResponse, NetworkError) result" where
  "get_text_with_cookies env st url cross_site meth =
     get_text_with_cookies_and_redirect_mode env st url cross_site meth Follow"

end
