(* ===== verification/Network_Runs.thy ===== *)
theory Network_Runs
  imports Network_Fetch
begin

section \<open>What a fetch does\<close>

text \<open>
  Lemmas about the loop of \<open>Network_Fetch\<close>, each proved for one iteration and then by computation induction:
  which requests leave the process, that the cookie jar stays well formed, the events of a fetch, and the
  bounds of a body.
\<close>

subsection \<open>Requests that were sent\<close>

text \<open>The \<open>Cookie\<close> header of a request is what the jar has for its URL, and absent if that is nothing,
  and \<open>Content-Length\<close> is the length of the body, whatever the caller asked for.\<close>

abbreviation hop_cookies :: "('w, 't::linorder, 'o) fetch_env \<Rightarrow> 'w \<Rightarrow> 't CookieJar \<Rightarrow> NetUrl \<Rightarrow> 't CookieJar \<times> string" where
  "hop_cookies env w jar url \<equiv> CookieJar_cookies_for (fe_dns env) (clock (fe_transport env) w 0) jar (Url.truncate url)
     (rq_cross_site (fe_request env)) (rq_method (fe_request env))"

definition hop_headers_ok :: "('w, 't::linorder, 'o) fetch_env \<Rightarrow> 'w \<Rightarrow> 't CookieJar \<Rightarrow> NetUrl \<Rightarrow> header_map \<Rightarrow> bool" where
  "hop_headers_ok env w jar url h \<longleftrightarrow>
     bt_get h ''cookie'' = (let c = snd (hop_cookies env w jar url) in if c = [] then None else Some c)
     \<and> bt_get h ''content-length'' = map_option (\<lambda>b. show_nat (length b)) (rq_body (fe_request env))"

text \<open>The requests of a fetch with what happens to the jar: at every hop the cookies of the response go
  into the jar that answers for the next one, and only a response leads to another request.\<close>

fun hops :: "('w, 't::linorder, 'o) fetch_env \<Rightarrow> 'w \<Rightarrow> 't CookieJar \<Rightarrow> (NetUrl \<times> header_map) list \<Rightarrow> 'w \<Rightarrow> 't CookieJar \<Rightarrow> bool" where
  "hops env w jar [] w' jar' \<longleftrightarrow> w' = w \<and> jar' = jar"
| "hops env w jar ((url, h) # rs) w' jar' \<longleftrightarrow>
     is_ok (validate_http_url (fe_dns env) url) \<and> hop_headers_ok env w jar url h
     \<and> (case send (fe_transport env) w (rq_method (fe_request env)) url h (rq_body (fe_request env)) of
          (w1, Err _) \<Rightarrow> hops env w1 (fst (hop_cookies env w jar url)) [] w' jar' \<and> rs = []
        | (w1, Ok resp) \<Rightarrow> hops env w1 (store_cookies (fe_dns env) (fe_time env) (clock (fe_transport env) w1) 0 url
            (fst (hop_cookies env w jar url)) (header_get_all resp ''set-cookie'')) rs w' jar')"

lemma combine_header_ok [simp]: "bt_ok m \<Longrightarrow> bt_ok (combine_header name val m)"
  by (simp add: combine_header_def split: option.split)

lemma default_header_ok [simp]: "bt_ok m \<Longrightarrow> bt_ok (default_header name val m)"
  by (simp add: default_header_def)

lemma caller_headers_ok: "caller_headers lib hs out = Ok out' \<Longrightarrow> bt_ok out \<Longrightarrow> bt_ok out'"
  by (induction hs arbitrary: out) (auto split: result.splits)

lemma request_headers_Ok:
  assumes "request_headers env st url = (jar, Ok h)"
  shows "jar = fst (hop_cookies env (fs_world st) (fs_jar st) url)" and "hop_headers_ok env (fs_world st) (fs_jar st) url h"
proof -
  from assms obtain out0 where out0: "caller_headers (fe_transport env) (rq_headers (fe_request env)) [] = Ok out0"
    by (auto simp: request_headers_def effective_request_headers_for_def split: result.splits)
  then have "bt_ok out0" by (rule caller_headers_ok) simp
  with assms out0 show "hop_headers_ok env (fs_world st) (fs_jar st) url h"
    by (auto simp: request_headers_def effective_request_headers_for_def hop_headers_ok_def Let_def bt_get_insert bt_get_remove
        split: option.splits prod.splits if_splits)
  from assms out0 show "jar = fst (hop_cookies env (fs_world st) (fs_jar st) url)"
    by (auto simp: request_headers_def effective_request_headers_for_def Let_def split: prod.splits)
qed

lemma request_headers_Err: "request_headers env st url = (jar, Err e) \<Longrightarrow> jar = fs_jar st"
  by (auto simp: request_headers_def effective_request_headers_for_def Let_def split: result.splits prod.splits)

lemma follow_redirect_frame:
  "follow_redirect env st v resp = (st', r) \<Longrightarrow> fs_world st' = fs_world st \<and> fs_jar st' = fs_jar st"
  by (auto simp: follow_redirect_def record_progress_def Let_def split: if_splits option.splits result.splits prod.splits)

lemma manual_response_frame:
  "manual_response env st v resp h sc = (st', r) \<Longrightarrow> fs_world st' = fs_world st \<and> fs_jar st' = fs_jar st"
  by (auto simp: manual_response_def record_progress_def Let_def)

lemma final_response_frame:
  "final_response env st v resp h sc = (st', r) \<Longrightarrow> fs_world st' = fs_world st \<and> fs_jar st' = fs_jar st"
  by (auto simp: final_response_def record_progress_def Let_def split: if_splits result.splits prod.splits)

lemma handle_response_frame:
  "handle_response env st v resp h = (st', x) \<Longrightarrow> fs_world st' = fs_world st \<and> fs_jar st' = fs_jar st"
  unfolding handle_response_def Let_def
  by (auto split: if_splits prod.splits result.splits
      dest: follow_redirect_frame manual_response_frame final_response_frame)

lemma follow_redirect_target:
  "follow_redirect env st v resp = (st', Ok v') \<Longrightarrow> is_ok (validate_http_url (fe_dns env) (fv_current v'))
     \<and> url_as_str (fv_current v') \<notin> fv_visited v \<and> fv_visited v' = fv_visited v"
  by (auto simp: follow_redirect_def record_progress_def Let_def
      split: if_splits option.splits result.splits prod.splits)

text \<open>An iteration sends at most one request, to the current URL.\<close>

lemma fetch_iteration_sends:
  assumes "fetch_iteration env st v = (st', x)" and "is_ok (validate_http_url (fe_dns env) (fv_current v))"
  obtains (nothing) e where "fs_world st' = fs_world st" and "fs_jar st' = fs_jar st" and "x = Inr (Err e)"
  | (last) e h where "hops env (fs_world st) (fs_jar st) [(fv_current v, h)] (fs_world st') (fs_jar st')" and "x = Inr e"
  | (next_hop) h v' where "\<And>reqs w jar. hops env (fs_world st) (fs_jar st) ((fv_current v, h) # reqs) w jar
        = hops env (fs_world st') (fs_jar st') reqs w jar" and "x = Inl v'"
      and "is_ok (validate_http_url (fe_dns env) (fv_current v'))" and "url_as_str (fv_current v') \<notin> fv_visited v'"
      and "fv_visited v' = insert (url_as_str (fv_current v)) (fv_visited v)"
  using assms(1)
proof (cases rule: fetch_iteration_cases)
  case (refused e)
  show thesis by (rule nothing [of e]) (rule refused(3), rule request_headers_Err [OF refused(1)], rule refused(2))
next
  case (lost h w e)
  show thesis
    by (rule last [of h]) (use lost request_headers_Ok [OF lost(1)] assms(2) in simp_all)
next
  case (handled h w resp jar obs v1)
  note hdrs = request_headers_Ok [OF handled(1)]
  have frame: "fs_world st' = w" "fs_jar st' = store_cookies (fe_dns env) (fe_time env)
      (clock (fe_transport env) w) 0 (fv_current v) jar (header_get_all resp ''set-cookie'')"
    using handle_response_frame [OF handled(4)] by simp_all
  show thesis
  proof (cases x)
    case (Inr r)
    show thesis by (rule last [of h r]) (use frame handled(2) hdrs assms(2) Inr in simp_all)
  next
    case (Inl v')
    have "fv_visited v1 = insert (url_as_str (fv_current v)) (fv_visited v)"
      using handled(3) by (auto simp: start_request_def record_progress_def Let_def)
    then show thesis
      by (intro next_hop [of h v'])
        (use frame handled(2) hdrs assms(2) Inl follow_redirect_target [OF handle_response_Inl [OF handled(4) [unfolded Inl]]] in simp_all)
  qed
qed

abbreviation sent_to :: "NetUrl \<times> header_map \<Rightarrow> string" where
  "sent_to r \<equiv> url_as_str (fst r)"

lemma fetch_loop_sends:
  assumes "fetch_loop env st v = (st', r)" and "is_ok (validate_http_url (fe_dns env) (fv_current v))"
    and "url_as_str (fv_current v) \<notin> fv_visited v"
  shows "\<exists>reqs. hops env (fs_world st) (fs_jar st) reqs (fs_world st') (fs_jar st')
    \<and> distinct (map sent_to reqs) \<and> set (map sent_to reqs) \<inter> fv_visited v = {}
    \<and> length reqs \<le> nc_max_redirects (fe_config env) - fv_redirects v + 1"
  using assms
proof (induction env st v arbitrary: st' r rule: fetch_loop.induct)
  case (1 env st v)
  obtain s x where it: "fetch_iteration env st v = (s, x)" by fastforce
  from it 1(3) show ?case
  proof (cases rule: fetch_iteration_sends)
    case (nothing e)
    with 1(2) it have "fs_world st' = fs_world st" "fs_jar st' = fs_jar st" by (simp_all add: fetch_loop.simps)
    then show ?thesis by (intro exI [of _ "[]"]) simp
  next
    case (last e h)
    with 1(2) it have "st' = s" by (simp add: fetch_loop.simps)
    with last(1) 1(4) show ?thesis by (intro exI [of _ "[(fv_current v, h)]"]) (simp del: hops.simps)
  next
    case (next_hop h v')
    with 1(2) it have loop: "fetch_loop env s v' = (st', r)" by (simp add: fetch_loop.simps)
    from 1(1) [OF it [symmetric] next_hop(2) loop next_hop(3,4)] obtain reqs where
      reqs: "hops env (fs_world s) (fs_jar s) reqs (fs_world st') (fs_jar st')"
        "distinct (map sent_to reqs)" "set (map sent_to reqs) \<inter> fv_visited v' = {}"
        "length reqs \<le> nc_max_redirects (fe_config env) - fv_redirects v' + 1" by blast
    from fetch_iteration_counts [OF it [unfolded next_hop(2)]] reqs(4)
    have "length ((fv_current v, h) # reqs) \<le> nc_max_redirects (fe_config env) - fv_redirects v + 1"
      by (auto simp: Suc_diff_Suc)
    moreover have "url_as_str (fv_current v) \<notin> set (map sent_to reqs)" "set (map sent_to reqs) \<inter> fv_visited v = {}"
      using reqs(3) next_hop(5) by auto
    ultimately show ?thesis
      using reqs(1,2) next_hop(1) 1(4) by (intro exI [of _ "(fv_current v, h) # reqs"]) (simp del: hops.simps)
  qed
qed

subsection \<open>The cookie jar\<close>

lemma store_cookies_ok: "jar_ok jar \<Longrightarrow> jar_ok (store_cookies dns tm now i url jar scs)"
proof (induction scs arbitrary: i jar)
  case (Cons sc scs)
  have "jar_ok (fst (CookieJar_set_cookie dns tm (\<lambda>k. now (i + k)) jar sc (Url.truncate url) True))"
    using jar_step_ok [OF Cons.prems, of dns tm "SetCookie (\<lambda>k. now (i + k)) sc (Url.truncate url) True"] by simp
  then show ?case by (simp add: Cons.IH)
qed simp

lemma hops_jar_ok: "hops env w jar reqs w' jar' \<Longrightarrow> jar_ok jar \<Longrightarrow> jar_ok jar'"
proof (induction env w jar reqs w' jar' rule: hops.induct)
  case (2 env w jar url h rs w' jar')
  have "jar_ok (fst (hop_cookies env w jar url))"
    using jar_step_ok [OF 2(4), of "fe_dns env" "fe_time env" "CookiesFor (clock (fe_transport env) w 0) (Url.truncate url)
      (rq_cross_site (fe_request env)) (rq_method (fe_request env))"] by simp
  with 2 show ?case by (auto simp: store_cookies_ok split: prod.splits result.splits)
qed simp

subsection \<open>Events\<close>

text \<open>The redirects of a fetch, in the form in which they are stored, and where they lead.\<close>

abbreviation redirects_of :: "NetworkEvent list \<Rightarrow> (string \<times> CacheRedirectHop) list" where
  "redirects_of events \<equiv> List.map_filter redirect_of events"

primrec leads_to :: "string \<Rightarrow> (string \<times> CacheRedirectHop) list \<Rightarrow> string \<Rightarrow> bool" where
  "leads_to s [] e \<longleftrightarrow> s = e"
| "leads_to s (r # rs) e \<longleftrightarrow> fst r = s \<and> leads_to (hop_to (snd r)) rs e"

lemma leads_to_append: "leads_to s (rs @ [r]) e \<longleftrightarrow> leads_to s rs (fst r) \<and> hop_to (snd r) = e"
  by (induction rs arbitrary: s) auto

lemma map_filter_append [simp]: "List.map_filter f (xs @ ys) = List.map_filter f xs @ List.map_filter f ys"
  by (simp add: map_filter_def)

lemma redirect_of_simps [simp]:
  "redirect_of (RequestStart u m) = None" "redirect_of (Response u s) = None"
  "redirect_of (BodyProgress u a b c) = None" "redirect_of (Completed u n) = None"
  "redirect_of (Redirect f t s) = Some (f, \<lparr>hop_to = t, hop_status = s\<rparr>)"
  by (simp_all add: redirect_of_def)

definition permanent :: "string \<times> CacheRedirectHop \<Rightarrow> bool" where
  "permanent r \<longleftrightarrow> hop_status (snd r) = 301 \<or> hop_status (snd r) = 308"

text \<open>The variables of the loop record the redirects so far.\<close>

definition vars_ok :: "string \<Rightarrow> fetch_vars \<Rightarrow> bool" where
  "vars_ok start v \<longleftrightarrow> leads_to start (redirects_of (fv_events v)) (url_as_str (fv_current v))
     \<and> length (redirects_of (fv_events v)) = fv_redirects v
     \<and> (fv_aliasable v \<longrightarrow> list_all permanent (redirects_of (fv_events v)))"

lemma start_request_vars_ok: "vars_ok start v \<Longrightarrow> start_request env obs v = (obs', v') \<Longrightarrow> vars_ok start v'"
  by (auto simp: start_request_def record_progress_def Let_def vars_ok_def)

lemma start_request_redirects: "start_request env obs v = (obs', v') \<Longrightarrow> fv_redirects v' = fv_redirects v"
  by (auto simp: start_request_def record_progress_def Let_def)

lemma follow_redirect_vars_ok:
  assumes "vars_ok start v" and "follow_redirect env st v resp = (st', Ok v')"
  shows "vars_ok start v'"
proof -
  from assms(2) obtain u where "v' = \<lparr>fv_current = u, fv_redirects = fv_redirects v + 1, fv_visited = fv_visited v,
      fv_events = fv_events v @ [Redirect (url_as_str (fv_current v)) (url_as_str u) (rs_status resp)],
      fv_aliasable = (fv_aliasable v \<and> redirect_response_aliasable resp)\<rparr>"
    by (auto simp: follow_redirect_def record_progress_def Let_def split: if_splits option.splits result.splits prod.splits)
  with assms(1) show ?thesis
    by (auto simp: vars_ok_def leads_to_append permanent_def redirect_response_aliasable_def)
qed

lemma body_loop_redirects:
  "body_loop ob url limit tot cs obs b = (obs', Ok b') \<Longrightarrow> redirects_of (bs_events b') = redirects_of (bs_events b)"
proof (induction cs arbitrary: obs b)
  case (Cons r rs)
  from Cons.prems obtain c where "r = Ok c" by (cases r) simp_all
  with Cons.prems Cons.IH show ?case
    by (auto simp: report_body_def record_progress_def Let_def split: if_splits)
qed simp

definition result_ok :: "string \<Rightarrow> fetch_vars \<Rightarrow> ByteResponse \<Rightarrow> bool" where
  "result_ok start v r \<longleftrightarrow> redirects_of (br_events r) = redirects_of (fv_events v)
     \<and> br_final_url r = url_as_str (fv_current v) \<and> br_redirects r = fv_redirects v"

lemma manual_response_result:
  "manual_response env st v resp h sc = (st', r) \<Longrightarrow> result_ok start v r"
  by (auto simp: manual_response_def record_progress_def Let_def result_ok_def)

lemma final_response_result:
  assumes "final_response env st v resp h sc = (st', Ok r)"
  shows "result_ok start v r \<and> br_redirect_aliasable r = fv_aliasable v"
  using assms unfolding final_response_def record_progress_def Let_def
  by (auto simp: result_ok_def report_body_def record_progress_def Let_def dest!: body_loop_redirects
      split: if_splits result.splits prod.splits)

text \<open>A fetch that succeeds ends with a response, handled with variables that satisfy whatever the steps of
  the loop preserve.\<close>

definition ended ::
    "('w, 't::linorder, 'o) fetch_env \<Rightarrow> (fetch_vars \<Rightarrow> bool) \<Rightarrow> ('w, 't, 'o) fetch_state \<Rightarrow> ByteResponse \<Rightarrow> bool" where
  "ended env I st' r \<longleftrightarrow> (\<exists>s v1 w w' url h resp. I v1
    \<and> send (fe_transport env) w (rq_method (fe_request env)) url h (rq_body (fe_request env)) = (w', Ok resp)
    \<and> (rq_redirect_mode (fe_request env) = Manual \<and> manual_response env s v1 resp h (header_get_all resp ''set-cookie'') = (st', r)
       \<or> final_response env s v1 resp h (header_get_all resp ''set-cookie'') = (st', Ok r)))"

lemma fetch_loop_ends:
  assumes "fetch_loop env st v = (st', Ok r)" and "I v"
    and "\<And>obs v obs' v'. I v \<Longrightarrow> start_request env obs v = (obs', v') \<Longrightarrow> I v'"
    and "\<And>st v resp st' v'. I v \<Longrightarrow> follow_redirect env st v resp = (st', Ok v') \<Longrightarrow> I v'"
  shows "ended env I st' r"
  using assms
proof (induction env st v arbitrary: st' r rule: fetch_loop.induct)
  case (1 env st v)
  obtain s x where it: "fetch_iteration env st v = (s, x)" by fastforce
  from it show ?case
  proof (cases rule: fetch_iteration_cases)
    case (handled h w resp jar obs v1)
    have v1: "I v1" using 1(4) [OF 1(3) handled(3)] .
    show ?thesis
    proof (cases x)
      case (Inl v')
      with 1(2) it have loop: "fetch_loop env s v' = (st', Ok r)" by (simp add: fetch_loop.simps)
      have "I v'" using 1(5) [OF v1 handle_response_Inl [OF handled(4) [unfolded Inl]]] .
      from this 1(4,5) show ?thesis by (rule 1(1) [OF it [symmetric] Inl loop])
    next
      case (Inr r')
      with 1(2) it handled(4) have "handle_response env \<lparr>fs_world = w, fs_jar = store_cookies (fe_dns env) (fe_time env)
        (clock (fe_transport env) w) 0 (fv_current v) jar (header_get_all resp ''set-cookie''), fs_observer = obs\<rparr> v1 resp h
          = (st', Inr (Ok r))"
        by (simp add: fetch_loop.simps)
      with v1 handled(2) show ?thesis
        unfolding handle_response_def Let_def ended_def by (force split: if_splits prod.splits result.splits)
    qed
  qed (use 1(2) it in \<open>auto simp: fetch_loop.simps\<close>)
qed

lemma fetch_loop_result:
  assumes "fetch_loop env st v = (st', Ok r)" and "vars_ok start v" and "fv_redirects v \<le> nc_max_redirects (fe_config env)"
  shows "leads_to start (redirects_of (br_events r)) (br_final_url r) \<and> length (redirects_of (br_events r)) = br_redirects r
    \<and> br_redirects r \<le> nc_max_redirects (fe_config env)
    \<and> (br_redirect_aliasable r \<and> rq_redirect_mode (fe_request env) = Follow
        \<longrightarrow> list_all permanent (redirects_of (br_events r)))"
proof -
  let ?I = "\<lambda>v. vars_ok start v \<and> fv_redirects v \<le> nc_max_redirects (fe_config env)"
  have start: "?I v'" if "?I v" "start_request env obs v = (obs', v')" for obs obs' v v'
    using that start_request_vars_ok start_request_redirects by metis
  have hop: "?I v'" if "?I v" "follow_redirect env st v resp = (st', Ok v')" for st v resp st' v'
    using that follow_redirect_vars_ok [OF _ that(2)] follow_redirect_counts [OF that(2)] by simp
  have "?I v" using assms(2,3) by blast
  then have "ended env ?I st' r" using start hop by (rule fetch_loop_ends [OF assms(1)])
  then obtain s v1 h resp where v1: "?I v1"
    and ends: "rq_redirect_mode (fe_request env) = Manual \<and> manual_response env s v1 resp h (header_get_all resp ''set-cookie'') = (st', r)
       \<or> final_response env s v1 resp h (header_get_all resp ''set-cookie'') = (st', Ok r)"
    unfolding ended_def by blast
  from ends have "result_ok start v1 r" "rq_redirect_mode (fe_request env) = Follow \<longrightarrow> br_redirect_aliasable r = fv_aliasable v1"
    by (auto dest: manual_response_result [where start = start] final_response_result [where start = start])
  with v1 show ?thesis by (auto simp: result_ok_def vars_ok_def)
qed

subsection \<open>The body\<close>

definition progress_of :: "NetworkEvent list \<Rightarrow> nat list" where
  "progress_of = List.map_filter (\<lambda>event. case event of BodyProgress _ n _ _ \<Rightarrow> Some n | _ \<Rightarrow> None)"

lemma progress_of_simps [simp]:
  "progress_of [] = []" "progress_of (xs @ ys) = progress_of xs @ progress_of ys"
  "progress_of (RequestStart u m # xs) = progress_of xs" "progress_of (Response u s # xs) = progress_of xs"
  "progress_of (BodyProgress u a b c # xs) = a # progress_of xs" "progress_of (Completed u n # xs) = progress_of xs"
  "progress_of (Redirect f t s # xs) = progress_of xs"
  by (simp_all add: progress_of_def)

text \<open>A body as HTTP frames it: no chunk is empty, and there are not more bytes than announced.\<close>

definition chunk_bytes :: "(bytes, reqwest_error) result \<Rightarrow> nat" where
  "chunk_bytes r = (case r of Ok c \<Rightarrow> length c | Err _ \<Rightarrow> 0)"

definition well_framed :: "nat option \<Rightarrow> nat \<Rightarrow> (bytes, reqwest_error) result list \<Rightarrow> bool" where
  "well_framed tot loaded cs \<longleftrightarrow> list_all (\<lambda>r. case r of Ok c \<Rightarrow> c \<noteq> [] | Err _ \<Rightarrow> True) cs
     \<and> (case tot of Some t \<Rightarrow> loaded + sum_list (map chunk_bytes cs) \<le> t | None \<Rightarrow> True)"

lemma quantum_covers: "limit \<le> 256 * body_progress_quantum limit" "0 < body_progress_quantum limit"
  by (auto simp: body_progress_quantum_def MAX_BODY_PROGRESS_EVENTS_def max_def)

text \<open>The loaded bytes are counted without wrap-around, every one of them is reported once or pending,
  and a report covers at least a quantum, except the one of the last byte that was announced.\<close>

definition body_ok :: "nat \<Rightarrow> body_state \<Rightarrow> bool" where
  "body_ok limit b \<longleftrightarrow> bs_loaded b = length (bs_body b) \<and> length (bs_body b) \<le> limit
     \<and> sum_list (progress_of (bs_events b)) + bs_pending b = length (bs_body b)"

definition reports_ok :: "nat \<Rightarrow> nat option \<Rightarrow> body_state \<Rightarrow> bool" where
  "reports_ok limit tot b \<longleftrightarrow>
     (let n = length (progress_of (bs_events b)); q = body_progress_quantum limit; reported = sum_list (progress_of (bs_events b)) in
      q * n \<le> reported \<or> tot = Some (bs_loaded b) \<and> q * (n - 1) < reported \<and> bs_pending b = 0)"

lemma body_loop_step:
  assumes "limit < u64_max" and "body_ok limit b" and "body_loop ob url limit tot (r # rs) obs b = (obs', Ok b')"
  obtains c o1 b1 where "r = Ok c" and "body_ok limit b1" and "bs_loaded b1 = bs_loaded b + length c"
    and "body_loop ob url limit tot rs o1 b1 = (obs', Ok b')"
    and "progress_of (bs_events b1) = progress_of (bs_events b)
       \<or> progress_of (bs_events b1) = progress_of (bs_events b) @ [bs_pending b + length c] \<and> bs_pending b1 = 0
         \<and> (body_progress_quantum limit \<le> bs_pending b + length c \<or> tot = Some (bs_loaded b1))"
proof -
  from assms(3) obtain c where r: "r = Ok c" by (cases r) simp_all
  from assms(3) r have fits: "saturating_add_u64 (bs_loaded b) (length c) \<le> limit"
    by (auto simp: Let_def split: if_splits)
  then have sat: "saturating_add_u64 (bs_loaded b) (length c) = bs_loaded b + length c"
    "saturating_add_u64 (bs_pending b) (length c) = bs_pending b + length c"
    using assms(1,2) by (auto simp: saturating_add_u64_def body_ok_def min_def split: if_splits)
  let ?b = "b\<lparr>bs_body := bs_body b @ c, bs_loaded := bs_loaded b + length c, bs_pending := bs_pending b + length c\<rparr>"
  let ?s = "if body_progress_quantum limit \<le> bs_pending ?b \<or> tot = Some (bs_loaded ?b)
    then report_body ob url tot (on_body ob c obs) ?b else (on_body ob c obs, ?b)"
  have "body_loop ob url limit tot rs (fst ?s) (snd ?s) = (obs', Ok b')"
    using assms(3) r sat fits by (auto simp: Let_def split: prod.splits)
  then show thesis
    by (rule that [OF r, rotated 2])
      (use assms(2) fits sat in \<open>auto simp: body_ok_def report_body_def record_progress_def Let_def split: if_splits\<close>)
qed

lemma body_loop_ok:
  assumes "limit < u64_max" and "body_ok limit b" and "body_loop ob url limit tot cs obs b = (obs', Ok b')"
  shows "body_ok limit b'"
  using assms(2,3)
proof (induction cs arbitrary: obs b)
  case (Cons r rs)
  from body_loop_step [OF assms(1) Cons.prems] Cons.IH show ?case by metis
qed simp

lemma body_loop_reports:
  assumes "limit < u64_max" and "body_ok limit b" and "reports_ok limit tot b" and "well_framed tot (bs_loaded b) cs"
    and "body_loop ob url limit tot cs obs b = (obs', Ok b')"
  shows "reports_ok limit tot b'"
  using assms(2-)
proof (induction cs arbitrary: obs b)
  case (Cons r rs)
  from Cons.prems(1,4) show ?case
  proof (rule body_loop_step [OF assms(1)])
    fix c o1 b1
    assume r: "r = Ok c" and b1: "body_ok limit b1" "bs_loaded b1 = bs_loaded b + length c"
      and rest: "body_loop ob url limit tot rs o1 b1 = (obs', Ok b')"
      and ps: "progress_of (bs_events b1) = progress_of (bs_events b)
       \<or> progress_of (bs_events b1) = progress_of (bs_events b) @ [bs_pending b + length c] \<and> bs_pending b1 = 0
         \<and> (body_progress_quantum limit \<le> bs_pending b + length c \<or> tot = Some (bs_loaded b1))"
    have c: "c \<noteq> []" "case tot of Some t \<Rightarrow> bs_loaded b + length c \<le> t | None \<Rightarrow> True"
      using Cons.prems(3) r by (auto simp: well_framed_def chunk_bytes_def split: option.splits)
    then have "body_progress_quantum limit * length (progress_of (bs_events b)) \<le> sum_list (progress_of (bs_events b))"
      using Cons.prems(2) by (auto simp: reports_ok_def Let_def)
    moreover have "0 < length c" using c(1) by simp
    ultimately have "reports_ok limit tot b1" using ps unfolding reports_ok_def Let_def by (elim disjE conjE) (simp_all del: length_greater_0_conv)
    moreover have "well_framed tot (bs_loaded b1) rs"
      using Cons.prems(3) r b1(2) by (auto simp: well_framed_def chunk_bytes_def add.assoc split: option.splits)
    ultimately show ?thesis by (rule Cons.IH [OF b1(1) _ _ rest])
  qed
qed simp

lemma reports_bounded:
  assumes "body_ok limit b" and "reports_ok limit tot b"
  shows "length (progress_of (bs_events b)) + (if 0 < bs_pending b then 1 else 0) \<le> 256"
proof -
  let ?n = "length (progress_of (bs_events b))" and ?q = "body_progress_quantum limit"
  have le: "sum_list (progress_of (bs_events b)) + bs_pending b \<le> 256 * ?q"
    using assms(1) quantum_covers(1) [of limit] by (simp add: body_ok_def)
  have small: "m < 256" if "?q * m < 256 * ?q" for m
    using that by (simp add: mult.commute)
  have n: "?n \<le> 256" if "?q * ?n \<le> 256 * ?q"
    using that quantum_covers(2) [of limit] by (simp add: mult.commute del: not_gr_zero)
  from assms(2) consider "?q * ?n \<le> sum_list (progress_of (bs_events b))"
    | "?q * (?n - 1) < sum_list (progress_of (bs_events b))" "bs_pending b = 0"
    by (auto simp: reports_ok_def Let_def)
  then show ?thesis
  proof cases
    case 1
    with le have "?q * ?n + bs_pending b \<le> 256 * ?q" by linarith
    then have "?n \<le> 256" "?n < 256" if "0 < bs_pending b" using n small [of ?n] that by linarith+
    with \<open>?q * ?n + bs_pending b \<le> 256 * ?q\<close> n show ?thesis by (cases "bs_pending b = 0") auto
  next
    case 2
    with le have "?q * (?n - 1) < 256 * ?q" by linarith
    then have "?n - 1 < 256" by (rule small)
    with 2(2) show ?thesis by simp
  qed
qed

lemma final_response_body:
  assumes "final_response env st v resp h sc = (st', Ok r)" and "fe_limit env < u64_max" and "progress_of (fv_events v) = []"
  shows "length (br_body r) \<le> fe_limit env \<and> sum_list (progress_of (br_events r)) = length (br_body r)
    \<and> (well_framed (rs_content_length resp) 0 (rs_chunks resp) \<longrightarrow> length (progress_of (br_events r)) \<le> 256)"
proof -
  let ?ev = "fv_events v @ [Response (url_as_str (fv_current v)) (rs_status resp)]"
  let ?b0 = "\<lparr>bs_body = [], bs_loaded = 0, bs_pending = 0, bs_events = ?ev\<rparr>"
  from assms(1) obtain o2 o3 b where
    loop: "body_loop (fe_observers env) (url_as_str (fv_current v)) (fe_limit env) (rs_content_length resp) (rs_chunks resp) o2 ?b0
        = (o3, Ok b)"
    and r: "br_body r = bs_body b" "progress_of (br_events r) = progress_of (bs_events b) @ (if 0 < bs_pending b then [bs_pending b] else [])"
    unfolding final_response_def record_progress_def Let_def
    by (auto simp: report_body_def record_progress_def Let_def split: if_splits result.splits prod.splits)
  have b0: "body_ok (fe_limit env) ?b0" "reports_ok (fe_limit env) (rs_content_length resp) ?b0"
    using assms(3) by (auto simp: body_ok_def reports_ok_def)
  have b: "body_ok (fe_limit env) b" using body_loop_ok [OF assms(2) b0(1) loop] .
  with r have "length (br_body r) \<le> fe_limit env" "sum_list (progress_of (br_events r)) = length (br_body r)"
    by (auto simp: body_ok_def)
  moreover have "length (progress_of (br_events r)) \<le> 256" if "well_framed (rs_content_length resp) 0 (rs_chunks resp)"
    using reports_bounded [OF b body_loop_reports [OF assms(2) b0 _ loop]] that r by (auto split: if_splits)
  ultimately show ?thesis by blast
qed

lemma fetch_loop_body:
  assumes "fetch_loop env st v = (st', Ok r)" and "fe_limit env < u64_max" and "progress_of (fv_events v) = []"
  shows "length (br_body r) \<le> fe_limit env \<and> sum_list (progress_of (br_events r)) = length (br_body r)
    \<and> ((\<forall>w meth url h b w' resp. send (fe_transport env) w meth url h b = (w', Ok resp)
          \<longrightarrow> well_framed (rs_content_length resp) 0 (rs_chunks resp))
        \<longrightarrow> length (progress_of (br_events r)) \<le> 256)"
proof -
  let ?I = "\<lambda>v. progress_of (fv_events v) = []"
  have start: "?I v'" if "?I v" "start_request env obs v = (obs', v')" for obs obs' v v'
    using that by (auto simp: start_request_def record_progress_def Let_def)
  have hop: "?I v'" if "?I v" "follow_redirect env st v resp = (st', Ok v')" for st v resp st' v'
    using that by (auto simp: follow_redirect_def record_progress_def Let_def split: if_splits option.splits result.splits prod.splits)
  from assms(3) start hop have "ended env ?I st' r" by (rule fetch_loop_ends [OF assms(1)])
  then obtain s v1 w w' url h resp where v1: "progress_of (fv_events v1) = []"
    and sent: "send (fe_transport env) w (rq_method (fe_request env)) url h (rq_body (fe_request env)) = (w', Ok resp)"
    and ends: "manual_response env s v1 resp h (header_get_all resp ''set-cookie'') = (st', r)
       \<or> final_response env s v1 resp h (header_get_all resp ''set-cookie'') = (st', Ok r)"
    unfolding ended_def by blast
  from ends show ?thesis
  proof
    assume "manual_response env s v1 resp h (header_get_all resp ''set-cookie'') = (st', r)"
    with v1 show ?thesis by (auto simp: manual_response_def record_progress_def Let_def)
  next
    assume "final_response env s v1 resp h (header_get_all resp ''set-cookie'') = (st', Ok r)"
    from final_response_body [OF this assms(2) v1] sent show ?thesis by blast
  qed
qed

end
