(* ===== verification/Network_Properties.thy ===== *)
theory Network_Properties
  imports Network_Runs Http_Cache_Properties
begin

section \<open>Properties of fetches\<close>

text \<open>
  What every fetch through the public entry guarantees, for any behaviour of the HTTP client and of the
  servers, and how its redirects are stored for later. The examples fetch a page that has moved, with two
  chunks of one byte each.
\<close>

subsection \<open>A fetch\<close>

definition ex_served :: "bool \<Rightarrow> NetUrl \<Rightarrow> http_response" where
  "ex_served moved url =
     (if moved then \<lparr>rs_status = 301, rs_headers = [(''location'', Some ''/y'')], rs_content_length = Some 0, rs_chunks = []\<rparr>
      else \<lparr>rs_status = 200, rs_headers = [], rs_content_length = Some 2, rs_chunks = [Ok ''h'', Ok ''i'']\<rparr>)"

definition ex_transport :: "(nat, int) transport" where
  "ex_transport = \<lparr>send = (\<lambda>w meth url h b. (w + 1, Ok (ex_served (url_path url = ''/x'') url))),
     url_join = (\<lambda>url loc. Some (ex_net_url ''https'' ''a.org'' 443 loc)),
     header_name = Ok, header_value = Ok, clock = (\<lambda>w i. int w)\<rparr>"

definition ex_fetch_env :: "(nat, int, unit) fetch_env" where
  "ex_fetch_env = \<lparr>fe_transport = ex_transport, fe_dns = ex_net_dns,
     fe_time = \<lparr>from_unix_timestamp = Some, unix_timestamp = (\<lambda>t. t), checked_add_seconds = (\<lambda>t n. Some (t + n)), UNIX_EPOCH = 0\<rparr>,
     fe_config = \<lparr>nc_user_agent = ''Vixen'', nc_max_body_bytes = 100, nc_max_redirects = 10\<rparr>,
     fe_request = \<lparr>rq_url = ex_net_url ''https'' ''a.org'' 443 ''/x'', rq_cross_site = False, rq_method = Get,
       rq_redirect_mode = Follow, rq_headers = [], rq_body = None\<rparr>,
     fe_limit = 0,
     fe_observers = \<lparr>on_progress = (\<lambda>_ o1. o1), on_redirect = (\<lambda>_ o1. (o1, True)), on_response = (\<lambda>_ o1. o1), on_body = (\<lambda>_ o1. o1)\<rparr>\<rparr>"

definition ex_fetch_state :: "(nat, int, unit) fetch_state" where
  "ex_fetch_state = \<lparr>fs_world = 0, fs_jar = CookieJar_new, fs_observer = ()\<rparr>"

definition ex_response :: ByteResponse where
  "ex_response = \<lparr>br_body = ''hi'', br_headers = [], br_status = 200, br_final_url = ''https://a.org/y'', br_set_cookie = [],
     br_redirects = 1,
     br_events = [RequestStart ''https://a.org/x'' Get, Redirect ''https://a.org/x'' ''https://a.org/y'' 301,
       RequestStart ''https://a.org/y'' Get, Response ''https://a.org/y'' 200, BodyProgress ''https://a.org/y'' 1 1 (Some 2),
       BodyProgress ''https://a.org/y'' 1 2 (Some 2), Completed ''https://a.org/y'' 2],
     br_request_headers = [(''accept-encoding'', ''gzip, br''), (''host'', ''a.org''), (''user-agent'', ''Vixen'')],
     br_from_cache = False, br_redirect_aliasable = True\<rparr>"

lemma ex_fetch_url:
  "url_as_str (ex_net_url ''https'' ''a.org'' 443 p) = ''https://a.org'' @ p"
  "is_ok (validate_http_url ex_net_dns (ex_net_url ''https'' ''a.org'' 443 p))"
  "url_path (ex_net_url ''https'' ''a.org'' 443 p) = p"
proof -
  have "\<not> blocked_host (Domain ''a.org'')" by code_simp
  then show "is_ok (validate_http_url ex_net_dns (ex_net_url ''https'' ''a.org'' 443 p))"
    by (simp add: validate_http_url_def ex_net_url_def is_private_host_iff)
qed (simp_all add: ex_net_url_def)

lemma ex_fetch_headers:
  "request_headers (ex_fetch_env\<lparr>fe_limit := n\<rparr>) \<lparr>fs_world = w, fs_jar = CookieJar_new, fs_observer = o1\<rparr> (ex_net_url ''https'' ''a.org'' 443 p)
     = (CookieJar_new, Ok [(''accept-encoding'', ''gzip, br''), (''host'', ''a.org''), (''user-agent'', ''Vixen'')])"
proof -
  have "CookieJar_cookies_for dns (t :: int) CookieJar_new u c m = (CookieJar_new, [])" for dns t u c m
    by (simp add: CookieJar_cookies_for_def CookieJar_new_def Let_def split: option.split)
  moreover have "request_host (ex_net_url ''https'' ''a.org'' 443 p) = Some ''a.org''"
    by (simp add: request_host_def ex_net_url_def)
  ultimately show ?thesis
    by (simp add: request_headers_def effective_request_headers_for_def ex_fetch_env_def ex_transport_def Let_def
      default_header_def bt_contains_key_def bt_get_def bt_remove_def)
qed

definition ex_visited :: fetch_vars where
  "ex_visited = \<lparr>fv_current = ex_net_url ''https'' ''a.org'' 443 ''/y'', fv_redirects = 1, fv_visited = {''https://a.org/x''},
     fv_events = [RequestStart ''https://a.org/x'' Get, Redirect ''https://a.org/x'' ''https://a.org/y'' 301], fv_aliasable = True\<rparr>"

lemma ex_fetch_fields [simp]:
  "fe_transport ex_fetch_env = ex_transport" "fe_dns ex_fetch_env = ex_net_dns"
  "rq_redirect_mode (fe_request ex_fetch_env) = Follow" "rq_method (fe_request ex_fetch_env) = Get"
  "rq_body (fe_request ex_fetch_env) = None" "rq_url (fe_request ex_fetch_env) = ex_net_url ''https'' ''a.org'' 443 ''/x''"
  "nc_max_redirects (fe_config ex_fetch_env) = 10" "nc_max_body_bytes (fe_config ex_fetch_env) = 100"
  "on_progress (fe_observers ex_fetch_env) = (\<lambda>_ o1. o1)" "on_redirect (fe_observers ex_fetch_env) = (\<lambda>_ o1. (o1, True))"
  "on_body (fe_observers ex_fetch_env) = (\<lambda>_ o1. o1)" "on_response (fe_observers ex_fetch_env) = (\<lambda>_ o1. o1)"
  by (simp_all add: ex_fetch_env_def)

lemma ex_first_hop:
  "fetch_iteration (ex_fetch_env\<lparr>fe_limit := 100\<rparr>) ex_fetch_state (fetch_start (ex_net_url ''https'' ''a.org'' 443 ''/x''))
     = (\<lparr>fs_world = 1, fs_jar = CookieJar_new, fs_observer = ()\<rparr>, Inl ex_visited)"
proof -
  have "header_get_all (ex_served True u) ''set-cookie'' = []" "header_get (ex_served True u) ''location'' = Some ''/y''"
    "header_get (ex_served True u) ''cache-control'' = None" "rs_status (ex_served True u) = 301" for u
    by (simp_all add: ex_served_def header_get_all_def header_get_def map_filter_simps)
  moreover have "\<not> (case validate_http_url ex_net_dns (ex_net_url ''https'' ''a.org'' 443 ''/y'') of Err e \<Rightarrow> True | Ok _ \<Rightarrow> False)"
    using ex_fetch_url(2) [of "''/y''"] by (auto split: result.splits)
  ultimately show ?thesis
    by (auto simp: fetch_iteration_def start_request_def record_progress_def fetch_start_def ex_fetch_headers ex_fetch_state_def
        ex_transport_def ex_fetch_url handle_response_def is_followable_redirect_def follow_redirect_def
        redirect_response_aliasable_def ex_visited_def Let_def split: result.splits)
qed

lemma ex_second_hop:
  "fetch_iteration (ex_fetch_env\<lparr>fe_limit := 100\<rparr>) \<lparr>fs_world = 1, fs_jar = CookieJar_new, fs_observer = ()\<rparr> ex_visited
     = (\<lparr>fs_world = 2, fs_jar = CookieJar_new, fs_observer = ()\<rparr>, Inr (Ok ex_response))"
proof -
  have "header_get_all (ex_served False u) ''set-cookie'' = []" "flatten_headers (ex_served False u) = []" for u
    by (simp_all add: ex_served_def header_get_all_def flatten_headers_def map_filter_simps)
  moreover have "body_progress_quantum 100 = 1" by (simp add: body_progress_quantum_def MAX_BODY_PROGRESS_EVENTS_def)
  ultimately show ?thesis
    by (simp add: fetch_iteration_def start_request_def record_progress_def ex_fetch_headers
        ex_transport_def ex_fetch_url handle_response_def is_followable_redirect_def final_response_def report_body_def
        ex_visited_def ex_served_def Let_def saturating_add_u64_def u64_max_def ex_response_def)
qed

lemma ex_fetch:
  "get_bytes_with_cookies_request_streaming ex_fetch_env ex_fetch_state
     = (\<lparr>fs_world = 2, fs_jar = CookieJar_new, fs_observer = ()\<rparr>, Ok ex_response)"
proof -
  have "\<exists>u. validate_http_url ex_net_dns (ex_net_url ''https'' ''a.org'' 443 ''/x'') = Ok u"
    using ex_fetch_url(2) [of "''/x''"] by (simp add: is_ok_iff)
  then show ?thesis
    by (auto simp: get_bytes_with_cookies_request_streaming_def fetch_bytes_def fetch_bytes_with_limit_def
        fetch_loop.simps ex_first_hop ex_second_hop simp del: One_nat_def)
qed

subsection \<open>The chain of redirects\<close>

lemma chain_end_leads_to:
  assumes "leads_to s rs e" and "list_all permanent rs"
  shows "chain_end parse_url og s rs = (if list_all (\<lambda>hop. case parse_url (hop_to (snd hop)) of
      Ok target \<Rightarrow> Origin_from_url target = og | Err _ \<Rightarrow> False) rs then Some e else None)"
  using assms by (induction rs arbitrary: s) (auto simp: permanent_def split: result.splits)

subsection \<open>The properties\<close>

text \<open>C21: every request of a fetch passes the URL policy, redirects included, carries exactly the cookies that
  the jar has for its URL and the length of its body; no URL is requested twice and there are at most
  \<open>max_redirects\<close> hops after the first request. The cookies of each response are in the jar before the
  next request, and the jar stays well formed. A first URL that the policy refuses changes nothing.\<close>

theorem fetch_requests_policed:
  "let (st', r) = get_bytes_with_cookies_request_streaming env st in
     (\<exists>reqs. hops (env\<lparr>fe_limit := nc_max_body_bytes (fe_config env)\<rparr>) (fs_world st) (fs_jar st) reqs (fs_world st') (fs_jar st')
        \<and> distinct (map sent_to reqs) \<and> length reqs \<le> nc_max_redirects (fe_config env) + 1)
     \<and> (if jar_ok (fs_jar st) then jar_ok (fs_jar st') else True)
     \<and> (if is_ok (validate_http_url (fe_dns env) (rq_url (fe_request env))) then True
        else st' = st \<and> \<not> is_ok r)"
proof (cases "validate_http_url (fe_dns env) (rq_url (fe_request env))")
  case (Err e)
  then show ?thesis by (auto simp: get_bytes_with_cookies_request_streaming_def intro!: exI [of _ "[]"])
next
  case (Ok u)
  let ?env = "env\<lparr>fe_limit := nc_max_body_bytes (fe_config env)\<rparr>"
  obtain st' r where loop: "fetch_loop ?env st (fetch_start (rq_url (fe_request env))) = (st', r)" by fastforce
  from fetch_loop_sends [OF loop] Ok obtain reqs where reqs:
    "hops ?env (fs_world st) (fs_jar st) reqs (fs_world st') (fs_jar st')" "distinct (map sent_to reqs)"
    "length reqs \<le> nc_max_redirects (fe_config env) + 1"
    by (auto simp: fetch_start_def)
  with Ok loop hops_jar_ok [OF reqs(1)] show ?thesis
    by (auto simp: get_bytes_with_cookies_request_streaming_def fetch_bytes_def fetch_bytes_with_limit_def)
qed

text \<open>C22: a fetch that succeeds is bounded. The body has at most \<open>max_body_bytes\<close> bytes, all of which were
  reported as progress, there were at most \<open>max_redirects\<close> redirects, and they lead from the URL
  of the request to the final URL. If the client frames bodies as HTTP does, without empty chunks and
  without bytes beyond the announced length, there are at most 256 progress reports.\<close>

theorem fetch_result_bounded:
  assumes "get_bytes_with_cookies_request_streaming env st = (st', Ok r)"
    and "nc_max_body_bytes (fe_config env) < 2 ^ 64 - 1"
    and "\<And>w meth url h b w' resp. send (fe_transport env) w meth url h b = (w', Ok resp) \<Longrightarrow>
      well_framed (rs_content_length resp) 0 (rs_chunks resp)"
  shows "length (br_body r) \<le> nc_max_body_bytes (fe_config env) \<and> sum_list (progress_of (br_events r)) = length (br_body r)
    \<and> length (progress_of (br_events r)) \<le> 256 \<and> br_redirects r \<le> nc_max_redirects (fe_config env)
    \<and> length (redirects_of (br_events r)) = br_redirects r
    \<and> leads_to (url_as_str (rq_url (fe_request env))) (redirects_of (br_events r)) (br_final_url r)"
proof -
  let ?env = "env\<lparr>fe_limit := nc_max_body_bytes (fe_config env)\<rparr>"
  from assms(1) have loop: "fetch_loop ?env st (fetch_start (rq_url (fe_request env))) = (st', Ok r)"
    by (auto simp: get_bytes_with_cookies_request_streaming_def fetch_bytes_def fetch_bytes_with_limit_def split: result.splits)
  have "vars_ok (url_as_str (rq_url (fe_request env))) (fetch_start (rq_url (fe_request env)))"
    by (simp add: vars_ok_def fetch_start_def)
  from fetch_loop_result [OF loop this] fetch_loop_body [OF loop] assms(2,3) show ?thesis
    by (simp add: fetch_start_def u64_max_def)
qed

theorem fetch_result_bounded_witness:
  "length (br_body ex_response) \<le> 100 \<and> sum_list (progress_of (br_events ex_response)) = 2
    \<and> leads_to ''https://a.org/x'' (redirects_of (br_events ex_response)) ''https://a.org/y''"
proof -
  have framed: "well_framed (rs_content_length (ex_served m u)) 0 (rs_chunks (ex_served m u))" for m u
    by (simp add: ex_served_def well_framed_def chunk_bytes_def)
  have "length (br_body ex_response) \<le> nc_max_body_bytes (fe_config ex_fetch_env) \<and> sum_list (progress_of (br_events ex_response)) = length (br_body ex_response)
    \<and> length (progress_of (br_events ex_response)) \<le> 256 \<and> br_redirects ex_response \<le> nc_max_redirects (fe_config ex_fetch_env)
    \<and> length (redirects_of (br_events ex_response)) = br_redirects ex_response
    \<and> leads_to (url_as_str (rq_url (fe_request ex_fetch_env))) (redirects_of (br_events ex_response)) (br_final_url ex_response)"
    by (rule fetch_result_bounded [OF ex_fetch]) (use framed in \<open>auto simp: ex_transport_def\<close>)
  then show ?thesis by (simp add: ex_fetch_url ex_response_def)
qed

text \<open>What is stored of the redirects of a fetch. The chain of a response that was fetched following
  redirects never fails the test of its continuity: it is stored for replay exactly if no hop
  forbids it and every target has the origin of the request, and then every status is permanent.\<close>

theorem fetched_chain_stored:
  assumes "get_bytes_with_cookies_request_streaming env st = (st', Ok r)" and "rq_redirect_mode (fe_request env) = Follow"
    and "br_redirect_aliasable r"
  shows "(chain_end parse_url og (url_as_str (rq_url (fe_request env))) (redirects_of (br_events r)) = Some (br_final_url r))
      = list_all (\<lambda>hop. case parse_url (hop_to (snd hop)) of Ok target \<Rightarrow> Origin_from_url target = og | Err _ \<Rightarrow> False)
          (redirects_of (br_events r))
    \<and> list_all permanent (redirects_of (br_events r))"
proof -
  let ?env = "env\<lparr>fe_limit := nc_max_body_bytes (fe_config env)\<rparr>"
  from assms(1) have loop: "fetch_loop ?env st (fetch_start (rq_url (fe_request env))) = (st', Ok r)"
    by (auto simp: get_bytes_with_cookies_request_streaming_def fetch_bytes_def fetch_bytes_with_limit_def split: result.splits)
  have "vars_ok (url_as_str (rq_url (fe_request env))) (fetch_start (rq_url (fe_request env)))"
    by (simp add: vars_ok_def fetch_start_def)
  from fetch_loop_result [OF loop this] assms(2,3)
  have chain: "leads_to (url_as_str (rq_url (fe_request env))) (redirects_of (br_events r)) (br_final_url r)"
    "list_all permanent (redirects_of (br_events r))"
    by (simp_all add: fetch_start_def)
  with chain_end_leads_to [OF chain] show ?thesis by simp
qed

theorem fetched_chain_stored_witness:
  "chain_end ex_parse_url (Origin_from_url (ex_net_url ''https'' ''a.org'' 443 ''/x'')) ''https://a.org/x''
     (redirects_of (br_events ex_response)) = Some ''https://a.org/y''
   \<and> chain_end ex_parse_url (Origin_from_url (ex_net_url ''https'' ''b.org'' 443 ''/x'')) ''https://a.org/x''
     (redirects_of (br_events ex_response)) = None"
proof -
  have r: "redirects_of (br_events ex_response) = [(''https://a.org/x'', \<lparr>hop_to = ''https://a.org/y'', hop_status = 301\<rparr>)]"
    "br_final_url ex_response = ''https://a.org/y''" "br_redirect_aliasable ex_response"
    by (simp_all add: ex_response_def)
  have same: "Origin_from_url (ex_net_url ''https'' ''a.org'' 443 ''/y'') = Origin_from_url (ex_net_url ''https'' ''a.org'' 443 ''/x'')"
    "Origin_from_url (ex_net_url ''https'' ''a.org'' 443 ''/x'') \<noteq> Origin_from_url (ex_net_url ''https'' ''b.org'' 443 ''/x'')"
    by (simp_all add: Origin_from_url_def ex_net_url_def)
  show ?thesis
    using fetched_chain_stored [OF ex_fetch _ r(3), of ex_parse_url "Origin_from_url (ex_net_url ''https'' ''a.org'' 443 ''/x'')"]
      fetched_chain_stored [OF ex_fetch _ r(3), of ex_parse_url "Origin_from_url (ex_net_url ''https'' ''b.org'' 443 ''/x'')"]
    by (simp add: r(1,2) ex_fetch_url ex_parse_url_def same)
qed

end
