(* ===== verification/Csp.thy ===== *)
theory Csp
  imports Http_Cache
begin

section \<open>Content Security Policy\<close>

text \<open>
  \<open>vixen-net/src/csp.rs\<close>: parsing of policies and the checks of scripts, styles and fetches. The hash
  functions and the base64 decoder are third-party and fields of \<open>digest_lib\<close>; URLs come parsed.
\<close>

unbundle bit_operations_syntax

subsection \<open>Strings\<close>

text \<open>\<open>str::split_whitespace\<close>: the pieces between white space, without the empty ones. No white space
  character starts with a continuation byte, so scanning bytes finds characters.\<close>

function split_words :: "string \<Rightarrow> string \<Rightarrow> string list" where
  "split_words word s =
     (let flushed = (if word = [] then [] else [word]) in
      case s of
        [] \<Rightarrow> flushed
      | c # t \<Rightarrow> (case strip_one white_space s of
            Some r \<Rightarrow> flushed @ split_words [] r
          | None \<Rightarrow> split_words (word @ [c]) t))"
  by pat_completeness auto
termination
  by (relation "measure (\<lambda>(word, s). length s)") (auto dest: strip_one_shorter [OF _ white_space_nonempty])

declare split_words.simps [simp del]

definition split_whitespace :: "string \<Rightarrow> string list" where
  "split_whitespace s = split_words [] s"

text \<open>\<open>str::split_once\<close> with a string, \<open>rsplit_once\<close> with a character, \<open>parse::<u16>\<close>.\<close>

primrec split_once_str :: "string \<Rightarrow> string \<Rightarrow> (string \<times> string) option" where
  "split_once_str p [] = (if p = [] then Some ([], []) else None)"
| "split_once_str p (c # s) =
     (if str_starts_with (c # s) p then Some ([], drop (length p) (c # s))
      else map_option (\<lambda>(a, b). (c # a, b)) (split_once_str p s))"

definition rsplit_once :: "char \<Rightarrow> string \<Rightarrow> (string \<times> string) option" where
  "rsplit_once d s = map_option (\<lambda>(a, b). (rev b, rev a)) (split_once d (rev s))"

definition parse_u16 :: "string \<Rightarrow> u16 option" where
  "parse_u16 s =
     (let ds = (if starts_with_char (CHR ''+'') s then tl s else s); n = decimal ds
      in if ds \<noteq> [] \<and> list_all is_ascii_digit ds \<and> n < 2 ^ 16 then Some (of_int n) else None)"

subsection \<open>Policies\<close>

datatype HashAlg = Sha256 | Sha384 | Sha512

record HostSource =
  hs_scheme :: "string option"
  hs_host :: string
  hs_port :: "u16 option"
  hs_path :: "string option"

datatype Source = KeywordSelf | KeywordNone | UnsafeInline | UnsafeEval | StrictDynamic | Nonce string
  | Hash HashAlg string | Scheme string | HostSrc HostSource

type_synonym CspPolicy = "(string, Source list) btree"

type_synonym ContentSecurityPolicy = "CspPolicy list"

record digest_lib =
  sha_digest :: "HashAlg \<Rightarrow> string \<Rightarrow> bytes"
  base64_standard_decode :: "string \<Rightarrow> bytes option"

subsection \<open>Parsing\<close>

definition parse_host_source :: "string \<Rightarrow> HostSource" where
  "parse_host_source tok =
     (let (scheme, rest) = (case split_once_str ''://'' tok of
            Some (s, r) \<Rightarrow> (Some (to_ascii_lowercase s), r) | None \<Rightarrow> (None, tok));
          (authority, path) = (case split_once (CHR ''/'') rest of
            Some (a, p) \<Rightarrow> (a, Some (''/'' @ p)) | None \<Rightarrow> (rest, None));
          (host, port) = (case rsplit_once (CHR '':'') authority of
            Some (h, p) \<Rightarrow> if list_all is_ascii_digit p then (to_ascii_lowercase h, parse_u16 p)
              else (to_ascii_lowercase authority, None)
          | None \<Rightarrow> (to_ascii_lowercase authority, None))
      in \<lparr>hs_scheme = scheme, hs_host = host, hs_port = port, hs_path = path\<rparr>)"

definition quoted :: "string \<Rightarrow> string \<Rightarrow> string option" where
  "quoted tok prefix = Option.bind (strip_prefix tok prefix) (\<lambda>s. strip_suffix s [CHR 0x27])"

definition parse_hash :: "string \<Rightarrow> HashAlg \<times> string \<Rightarrow> Source option" where
  "parse_hash tok ap =
     (let (alg, prefix) = ap in
      case quoted (to_ascii_lowercase tok) prefix of
        Some rest \<Rightarrow> Some (Hash alg (drop (length prefix) (take (length tok - 1) tok)))
      | None \<Rightarrow> None)"

definition scheme_char :: "char \<Rightarrow> bool" where
  "scheme_char c \<longleftrightarrow> is_ascii_alphanumeric c \<or> c = CHR ''+'' \<or> c = CHR ''-'' \<or> c = CHR ''.''"

definition parse_source :: "string \<Rightarrow> Source" where
  "parse_source tok =
     (let lower = to_ascii_lowercase tok;
          keyword = (\<lambda>k. [CHR 0x27] @ k @ [CHR 0x27])
      in if lower = keyword ''self'' then KeywordSelf
         else if lower = keyword ''none'' then KeywordNone
         else if lower = keyword ''unsafe-inline'' then UnsafeInline
         else if lower = keyword ''unsafe-eval'' then UnsafeEval
         else if lower = keyword ''strict-dynamic'' then StrictDynamic
         else (case quoted tok (CHR 0x27 # ''nonce-'') of
             Some mid \<Rightarrow> Nonce mid
           | None \<Rightarrow>
               (case find_map (parse_hash tok) [(Sha256, CHR 0x27 # ''sha256-''), (Sha384, CHR 0x27 # ''sha384-''),
                   (Sha512, CHR 0x27 # ''sha512-'')] of
                  Some h \<Rightarrow> h
                | None \<Rightarrow>
                    if ends_with_char (CHR '':'') lower \<and> CHR '':'' \<notin> set (butlast lower)
                       \<and> list_all scheme_char (trim_end_char (CHR '':'') lower)
                    then Scheme (trim_end_char (CHR '':'') lower)
                    else HostSrc (parse_host_source tok))))"

definition add_directive :: "string \<Rightarrow> CspPolicy \<Rightarrow> CspPolicy" where
  "add_directive dir policy =
     (case split_whitespace dir of
        [] \<Rightarrow> policy
      | name # tokens \<Rightarrow>
          (let n = to_ascii_lowercase name in
           if bt_contains_key policy n then policy else bt_insert n (map parse_source tokens) policy))"

definition parse_policy :: "string \<Rightarrow> CspPolicy" where
  "parse_policy val = fold add_directive (str_split '';'' val) []"

definition ContentSecurityPolicy_new :: ContentSecurityPolicy where
  "ContentSecurityPolicy_new = []"

definition ContentSecurityPolicy_add_header :: "string \<Rightarrow> ContentSecurityPolicy \<Rightarrow> ContentSecurityPolicy" where
  "ContentSecurityPolicy_add_header val csp = csp @ [parse_policy val]"

definition ContentSecurityPolicy_from_headers :: "(string \<times> string) list \<Rightarrow> ContentSecurityPolicy" where
  "ContentSecurityPolicy_from_headers headers =
     fold (\<lambda>(name, val) csp.
       if eq_ignore_ascii_case name ''content-security-policy'' then ContentSecurityPolicy_add_header val csp else csp)
       headers ContentSecurityPolicy_new"

definition ContentSecurityPolicy_is_empty :: "ContentSecurityPolicy \<Rightarrow> bool" where
  "ContentSecurityPolicy_is_empty csp \<longleftrightarrow> csp = []"

subsection \<open>Matching\<close>

definition url_origin_matches :: "NetUrl \<Rightarrow> Origin \<Rightarrow> bool" where
  "url_origin_matches url doc_origin =
     (let og = Origin_from_url url in \<not> Origin_is_opaque og \<and> og = doc_origin)"

definition host_pattern_matches :: "string \<Rightarrow> string \<Rightarrow> bool" where
  "host_pattern_matches pat host =
     (if pat = ''*'' then host \<noteq> []
      else (case strip_prefix pat ''*.'' of
          Some suffix \<Rightarrow> host = suffix \<or> str_ends_with host (''.'' @ suffix)
        | None \<Rightarrow> host = pat))"

definition host_source_matches :: "HostSource \<Rightarrow> NetUrl \<Rightarrow> bool" where
  "host_source_matches h url =
     (if \<not> (case hs_scheme h of
              Some scheme \<Rightarrow> eq_ignore_ascii_case (url_scheme url) scheme
            | None \<Rightarrow> url_scheme url = ''http'' \<or> url_scheme url = ''https'')
      then False
      else (case url_host_str url of
          None \<Rightarrow> False
        | Some host \<Rightarrow>
            if \<not> host_pattern_matches (to_ascii_lowercase (hs_host h)) (to_ascii_lowercase host) then False
            else if (case hs_port h of
                Some port \<Rightarrow> port \<noteq> (case url_port url of Some p \<Rightarrow> p
                  | None \<Rightarrow> if url_scheme url = ''https'' then 443 else 80)
              | None \<Rightarrow> False) then False
            else (case hs_path h of Some path \<Rightarrow> str_starts_with (url_path url) path | None \<Rightarrow> True)))"

definition url_matches_source :: "Source \<Rightarrow> NetUrl \<Rightarrow> Origin \<Rightarrow> bool" where
  "url_matches_source s url doc_origin =
     (case s of
        KeywordSelf \<Rightarrow> url_origin_matches url doc_origin
      | Scheme scheme \<Rightarrow> eq_ignore_ascii_case (url_scheme url) (trim_end_char (CHR '':'') scheme)
      | HostSrc h \<Rightarrow> host_source_matches h url
      | _ \<Rightarrow> False)"

definition base64_decode_or_empty :: "digest_lib \<Rightarrow> string \<Rightarrow> bytes" where
  "base64_decode_or_empty lib s = (case base64_standard_decode lib s of Some b \<Rightarrow> b | None \<Rightarrow> [])"

definition constant_time_eq :: "bytes \<Rightarrow> bytes \<Rightarrow> bool" where
  "constant_time_eq a b =
     (if length a \<noteq> length b then False
      else fold (\<lambda>(x, y) diff. diff OR (of_nat (byte x) XOR of_nat (byte y) :: u8)) (zip a b) 0 = 0)"

definition hash_matches :: "digest_lib \<Rightarrow> HashAlg \<Rightarrow> string \<Rightarrow> string \<Rightarrow> bool" where
  "hash_matches lib alg expected content =
     constant_time_eq (sha_digest lib alg content) (base64_decode_or_empty lib expected)"

definition inline_match :: "digest_lib \<Rightarrow> string option \<Rightarrow> string option \<Rightarrow> Source \<Rightarrow> bool" where
  "inline_match lib content nonce s =
     (case s of
        UnsafeInline \<Rightarrow> True
      | Nonce n \<Rightarrow> Some n = nonce
      | Hash alg expected \<Rightarrow> (case content of Some c \<Rightarrow> hash_matches lib alg expected c | None \<Rightarrow> False)
      | _ \<Rightarrow> False)"

definition inline_allowed :: "digest_lib \<Rightarrow> Source list \<Rightarrow> string option \<Rightarrow> string option \<Rightarrow> bool" where
  "inline_allowed lib srcs content nonce =
     (if length srcs = 1 \<and> hd srcs = KeywordNone then False
      else list_ex (inline_match lib content nonce) srcs)"

primrec url_loop :: "NetUrl \<Rightarrow> Origin \<Rightarrow> bool \<Rightarrow> Source list \<Rightarrow> bool" where
  "url_loop url doc_origin has_positive [] = (\<not> has_positive)"
| "url_loop url doc_origin has_positive (s # srcs) =
     (if s = KeywordNone then url_loop url doc_origin has_positive srcs
      else if url_matches_source s url doc_origin then True
      else url_loop url doc_origin True srcs)"

definition url_allowed :: "Source list \<Rightarrow> NetUrl \<Rightarrow> Origin \<Rightarrow> bool" where
  "url_allowed srcs url doc_origin =
     (if length srcs = 1 \<and> hd srcs = KeywordNone then False else url_loop url doc_origin False srcs)"

definition external_script_allowed :: "Source list \<Rightarrow> NetUrl \<Rightarrow> Origin \<Rightarrow> string option \<Rightarrow> bool" where
  "external_script_allowed srcs url doc_origin nonce =
     (if length srcs = 1 \<and> hd srcs = KeywordNone then False
      else if list_ex (\<lambda>s. case s of Nonce n \<Rightarrow> Some n = nonce | _ \<Rightarrow> False) srcs then True
      else url_allowed srcs url doc_origin)"

definition sources_for :: "CspPolicy \<Rightarrow> string \<Rightarrow> Source list option" where
  "sources_for policy dir =
     (case bt_get policy dir of
        Some s \<Rightarrow> Some s
      | None \<Rightarrow> if dir \<noteq> ''default-src'' then bt_get policy ''default-src'' else None)"

definition ContentSecurityPolicy_allows_inline_script ::
    "digest_lib \<Rightarrow> ContentSecurityPolicy \<Rightarrow> string option \<Rightarrow> string option \<Rightarrow> bool" where
  "ContentSecurityPolicy_allows_inline_script lib csp content nonce =
     list_all (\<lambda>p. case sources_for p ''script-src'' of
        None \<Rightarrow> True | Some srcs \<Rightarrow> inline_allowed lib srcs content nonce) csp"

definition ContentSecurityPolicy_allows_inline_style ::
    "digest_lib \<Rightarrow> ContentSecurityPolicy \<Rightarrow> string option \<Rightarrow> string option \<Rightarrow> bool" where
  "ContentSecurityPolicy_allows_inline_style lib csp content nonce =
     list_all (\<lambda>p. case sources_for p ''style-src'' of
        None \<Rightarrow> True | Some srcs \<Rightarrow> inline_allowed lib srcs content nonce) csp"

definition ContentSecurityPolicy_allows_fetch :: "ContentSecurityPolicy \<Rightarrow> string \<Rightarrow> NetUrl \<Rightarrow> Origin \<Rightarrow> bool" where
  "ContentSecurityPolicy_allows_fetch csp dir url doc_origin =
     list_all (\<lambda>p. case sources_for p dir of None \<Rightarrow> True | Some srcs \<Rightarrow> url_allowed srcs url doc_origin) csp"

definition ContentSecurityPolicy_allows_external_script ::
    "ContentSecurityPolicy \<Rightarrow> Origin \<Rightarrow> NetUrl \<Rightarrow> string option \<Rightarrow> bool" where
  "ContentSecurityPolicy_allows_external_script csp doc_origin url nonce =
     list_all (\<lambda>p. case sources_for p ''script-src'' of
        None \<Rightarrow> True | Some srcs \<Rightarrow> external_script_allowed srcs url doc_origin nonce) csp"

definition ContentSecurityPolicy_allows_plugin :: "ContentSecurityPolicy \<Rightarrow> NetUrl \<Rightarrow> Origin \<Rightarrow> bool" where
  "ContentSecurityPolicy_allows_plugin csp url doc_origin =
     ContentSecurityPolicy_allows_fetch csp ''object-src'' url doc_origin"

end
