(* ===== verification/Cors.thy ===== *)
theory Cors
  imports Rust_Str
begin

section \<open>Cross-origin resource sharing\<close>

text \<open>
  \<open>vixen-net/src/cors.rs\<close>: the response headers of the protocol, the check of a response and the filter
  of the headers that scripts see.
\<close>

datatype CorsCredentialsMode = Cred_Omit | Cred_SameOrigin | Cred_Include

definition CorsCredentialsMode_sends_cross_origin_credentials :: "CorsCredentialsMode \<Rightarrow> bool" where
  "CorsCredentialsMode_sends_cross_origin_credentials m \<longleftrightarrow> m = Cred_Include"

record CorsResponseHeaders =
  allow_origin :: "string option"
  allow_credentials :: bool
  allow_methods :: "string list"
  allow_headers :: "string list"
  expose_headers :: "string list"
  cors_max_age :: "u64 option"

definition CorsResponseHeaders_default :: CorsResponseHeaders where
  "CorsResponseHeaders_default = \<lparr>allow_origin = None, allow_credentials = False, allow_methods = [],
     allow_headers = [], expose_headers = [], cors_max_age = None\<rparr>"

definition extend_lower_dedup :: "string list \<Rightarrow> string \<Rightarrow> string list" where
  "extend_lower_dedup xs val =
     foldl (\<lambda>acc part. let s = to_ascii_lowercase (str_trim part) in
       if s = [] \<or> s \<in> set acc then acc else acc @ [s]) xs (str_split '','' val)"

definition cors_header :: "string \<times> string \<Rightarrow> CorsResponseHeaders \<Rightarrow> CorsResponseHeaders" where
  "cors_header h out =
     (let name = to_ascii_lowercase (fst h); val = snd h in
      if name = ''access-control-allow-origin'' then
        (if allow_origin out = None then out\<lparr>allow_origin := Some (str_trim val)\<rparr> else out)
      else if name = ''access-control-allow-credentials'' then
        out\<lparr>allow_credentials := allow_credentials out \<or> eq_ignore_ascii_case (str_trim val) ''true''\<rparr>
      else if name = ''access-control-allow-methods'' then
        out\<lparr>allow_methods := extend_lower_dedup (allow_methods out) val\<rparr>
      else if name = ''access-control-allow-headers'' then
        out\<lparr>allow_headers := extend_lower_dedup (allow_headers out) val\<rparr>
      else if name = ''access-control-expose-headers'' then
        out\<lparr>expose_headers := extend_lower_dedup (expose_headers out) val\<rparr>
      else if name = ''access-control-max-age'' \<and> cors_max_age out = None then
        out\<lparr>cors_max_age := parse_u64 (str_trim val)\<rparr>
      else out)"

definition CorsResponseHeaders_from_headers :: "(string \<times> string) list \<Rightarrow> CorsResponseHeaders" where
  "CorsResponseHeaders_from_headers headers = fold cors_header headers CorsResponseHeaders_default"

definition CorsResponseHeaders_is_wildcard_origin :: "CorsResponseHeaders \<Rightarrow> bool" where
  "CorsResponseHeaders_is_wildcard_origin r \<longleftrightarrow> allow_origin r = Some ''*''"

definition CorsResponseHeaders_is_null_origin :: "CorsResponseHeaders \<Rightarrow> bool" where
  "CorsResponseHeaders_is_null_origin r \<longleftrightarrow> allow_origin r = Some ''null''"

datatype CorsError = WildcardWithCredentials | MissingAllowCredentials | OriginMismatch "string option" string
  | NoAllowOrigin

datatype CorsCheckOutcome = Cors_Pass | Cors_Fail CorsError

definition cors_check :: "CorsResponseHeaders \<Rightarrow> string \<Rightarrow> CorsCredentialsMode \<Rightarrow> CorsCheckOutcome" where
  "cors_check response request_origin credentials_mode =
     (case allow_origin response of
        None \<Rightarrow> Cors_Fail NoAllowOrigin
      | Some ao \<Rightarrow>
          if ao = ''*'' \<and> CorsCredentialsMode_sends_cross_origin_credentials credentials_mode
          then Cors_Fail WildcardWithCredentials
          else if ao \<noteq> ''*'' \<and> ao \<noteq> request_origin
          then Cors_Fail (OriginMismatch (allow_origin response) request_origin)
          else if CorsCredentialsMode_sends_cross_origin_credentials credentials_mode \<and> \<not> allow_credentials response
          then Cors_Fail MissingAllowCredentials
          else Cors_Pass)"

definition CORS_SAFELISTED_RESPONSE_HEADERS :: "string list" where
  "CORS_SAFELISTED_RESPONSE_HEADERS = [''cache-control'', ''content-language'', ''content-length'', ''content-type'',
     ''expires'', ''last-modified'', ''pragma'']"

definition CORS_FORBIDDEN_RESPONSE_HEADERS :: "string list" where
  "CORS_FORBIDDEN_RESPONSE_HEADERS = [''set-cookie'', ''set-cookie2'']"

definition cors_filtered_headers :: "(string \<times> string) list \<Rightarrow> string list \<Rightarrow> (string \<times> string) list" where
  "cors_filtered_headers headers exposed =
     filter (\<lambda>(name, val). let lower = to_ascii_lowercase name in
       lower \<notin> set CORS_FORBIDDEN_RESPONSE_HEADERS
       \<and> (lower \<in> set CORS_SAFELISTED_RESPONSE_HEADERS \<or> lower \<in> set exposed)) headers"

subsection \<open>What is collected from the headers\<close>

text \<open>The values of the headers with a name, in order.\<close>

definition header_values :: "string \<Rightarrow> (string \<times> string) list \<Rightarrow> string list" where
  "header_values name headers = map snd (filter (\<lambda>h. to_ascii_lowercase (fst h) = name) headers)"

lemma header_values_simps [simp]:
  "header_values name [] = []"
  "header_values name (h # hs) =
     (if to_ascii_lowercase (fst h) = name then snd h # header_values name hs else header_values name hs)"
  by (simp_all add: header_values_def)

lemma fold_cors_origin:
  "allow_origin (fold cors_header hs out) =
     (case allow_origin out of
        Some a \<Rightarrow> Some a
      | None \<Rightarrow> (case header_values ''access-control-allow-origin'' hs of [] \<Rightarrow> None | v # _ \<Rightarrow> Some (str_trim v)))"
  by (induction hs arbitrary: out) (auto simp: cors_header_def Let_def split: option.splits list.splits)

lemma fold_cors_credentials:
  "allow_credentials (fold cors_header hs out) \<longleftrightarrow> allow_credentials out
     \<or> list_ex (\<lambda>v. eq_ignore_ascii_case (str_trim v) ''true'') (header_values ''access-control-allow-credentials'' hs)"
  by (induction hs arbitrary: out) (auto simp: cors_header_def Let_def)

lemma fold_cors_exposed:
  "expose_headers (fold cors_header hs out) =
     foldl extend_lower_dedup (expose_headers out) (header_values ''access-control-expose-headers'' hs)"
  by (induction hs arbitrary: out) (auto simp: cors_header_def Let_def)

lemma extend_lower_dedup_set:
  "set (extend_lower_dedup xs val) = set xs \<union> {s. s \<noteq> [] \<and> (\<exists>part\<in>set (str_split '','' val). s = to_ascii_lowercase (str_trim part))}"
proof -
  have "set (foldl (\<lambda>acc part. let s = to_ascii_lowercase (str_trim part) in
         if s = [] \<or> s \<in> set acc then acc else acc @ [s]) xs parts)
      = set xs \<union> {s. s \<noteq> [] \<and> (\<exists>part\<in>set parts. s = to_ascii_lowercase (str_trim part))}" for parts
    by (induction parts arbitrary: xs) (auto simp: Let_def)
  then show ?thesis by (simp add: extend_lower_dedup_def)
qed

lemma cors_check_Pass:
  "cors_check r og mode = Cors_Pass \<longleftrightarrow>
     (if mode = Cred_Include then allow_origin r = Some og \<and> og \<noteq> ''*'' \<and> allow_credentials r
      else allow_origin r = Some ''*'' \<or> allow_origin r = Some og)"
  by (auto simp: cors_check_def CorsCredentialsMode_sends_cross_origin_credentials_def split: option.splits)

end
