(* ===== verification/Transport_Security.thy ===== *)
theory Transport_Security
  imports Url_Policy
begin

section \<open>HSTS, referrers and mixed content\<close>

text \<open>
  \<open>vixen-net/src/strict_transport_security.rs\<close>, \<open>referrer_policy.rs\<close> and \<open>mixed_content.rs\<close>. Parameters:
  \<open>lower\<close> is \<open>str::to_lowercase\<close>, the full Unicode mapping, where its result is compared with arbitrary
  hosts; \<open>url_lib\<close> has the operations on URLs of the third-party \<open>url\<close> crate.
\<close>

subsection \<open>Strict transport security\<close>

record HstsDirective =
  hd_max_age_secs :: u64
  hd_include_sub_domains :: bool
  hd_preload :: bool

definition HstsDirective_is_zero :: "HstsDirective \<Rightarrow> bool" where
  "HstsDirective_is_zero d \<longleftrightarrow> hd_max_age_secs d = 0"

type_synonym hsts_scan = "u64 option \<times> bool \<times> bool"

definition hsts_token :: "string \<Rightarrow> hsts_scan \<Rightarrow> hsts_scan" where
  "hsts_token raw scan =
     (let token = str_trim raw; (max_age, include_sub_domains, preload) = scan in
      if token = [] then scan
      else
        let (name, val) = (case split_once (CHR ''='') token of
              Some (n, v) \<Rightarrow> (str_trim n, Some (str_trim v)) | None \<Rightarrow> (token, None));
            lower = to_ascii_lowercase name
        in if lower = ''max-age'' then
             (case Option.bind val parse_u64 of
                Some n \<Rightarrow> (Some n, include_sub_domains, preload) | None \<Rightarrow> scan)
           else if lower = ''includesubdomains'' then (max_age, True, preload)
           else if lower = ''preload'' then (max_age, include_sub_domains, True)
           else scan)"

definition parse_strict_transport_security :: "string \<Rightarrow> HstsDirective option" where
  "parse_strict_transport_security header =
     (case fold hsts_token (str_split '';'' header) (None, False, False) of
        (None, _, _) \<Rightarrow> None
      | (Some max_age_secs, include_sub_domains, preload) \<Rightarrow>
          Some \<lparr>hd_max_age_secs = max_age_secs, hd_include_sub_domains = include_sub_domains, hd_preload = preload\<rparr>)"

record HstsEntry =
  he_host :: string
  he_include_sub_domains :: bool

definition HstsEntry_from_directive :: "(string \<Rightarrow> string) \<Rightarrow> string \<Rightarrow> HstsDirective \<Rightarrow> HstsEntry" where
  "HstsEntry_from_directive lower host d =
     \<lparr>he_host = lower host, he_include_sub_domains = hd_include_sub_domains d\<rparr>"

definition HstsEntry_matches :: "(string \<Rightarrow> string) \<Rightarrow> HstsEntry \<Rightarrow> string \<Rightarrow> bool" where
  "HstsEntry_matches lower entry candidate =
     (let c = lower candidate in
      if c = he_host entry then True
      else if he_include_sub_domains entry then str_ends_with c (''.'' @ he_host entry)
      else False)"

subsection \<open>Referrers\<close>

datatype ReferrerPolicy = NoReferrer | NoReferrerWhenDowngrade | RP_SameOrigin | RP_Origin | OriginWhenCrossOrigin
  | UnsafeUrl | StrictOrigin | StrictOriginWhenCrossOrigin

definition ReferrerPolicy_default :: ReferrerPolicy where
  "ReferrerPolicy_default = StrictOriginWhenCrossOrigin"

definition ReferrerPolicy_parse_token :: "string \<Rightarrow> ReferrerPolicy option" where
  "ReferrerPolicy_parse_token token = map_of [(''no-referrer'', NoReferrer),
     (''no-referrer-when-downgrade'', NoReferrerWhenDowngrade), (''same-origin'', RP_SameOrigin), (''origin'', RP_Origin),
     (''origin-when-cross-origin'', OriginWhenCrossOrigin), (''unsafe-url'', UnsafeUrl), (''strict-origin'', StrictOrigin),
     (''strict-origin-when-cross-origin'', StrictOriginWhenCrossOrigin)] (str_trim token)"

definition parse_referrer_policy :: "string \<Rightarrow> ReferrerPolicy option" where
  "parse_referrer_policy header =
     (let known = List.map_filter ReferrerPolicy_parse_token
            (filter (\<lambda>t. t \<noteq> []) (str_split [CHR '','', CHR '' '', CHR 0x09, CHR 0x0A, CHR 0x0D] header))
      in if known = [] then None else Some (last known))"

datatype ReferrerValue = RV_None | RV_Origin string | RV_FullUrl string

record 'o url_lib =
  url_origin :: "NetUrl \<Rightarrow> 'o"
  ascii_serialization :: "'o \<Rightarrow> string"
  clear_fragment :: "NetUrl \<Rightarrow> NetUrl"
  clear_username :: "NetUrl \<Rightarrow> NetUrl"
  clear_password :: "NetUrl \<Rightarrow> NetUrl"

text \<open>\<open>Ipv6Addr::is_loopback\<close>: the address \<open>::1\<close>. The lower case of a domain is compared with strings
  without k, as in \<open>Url_Policy\<close>.\<close>

definition is_local_trustworthy :: "NetUrl \<Rightarrow> bool" where
  "is_local_trustworthy url =
     (case url_host url of
        Some (Domain d) \<Rightarrow>
          (let l = to_ascii_lowercase d in l = ''localhost'' \<or> str_ends_with l ''.localhost'')
      | Some (Ipv4 ip) \<Rightarrow> ipv4_is_loopback ip
      | Some (Ipv6 ip) \<Rightarrow> ip = 1
      | None \<Rightarrow> False)"

definition is_potentially_trustworthy :: "NetUrl \<Rightarrow> bool" where
  "is_potentially_trustworthy url =
     (if url_scheme url \<in> {''https'', ''wss'', ''file''} then True
      else if url_scheme url \<in> {''http'', ''ws''} then is_local_trustworthy url
      else False)"

definition origin_string :: "'o url_lib \<Rightarrow> NetUrl \<Rightarrow> ReferrerValue" where
  "origin_string lib url = RV_Origin (ascii_serialization lib (url_origin lib url))"

definition full_url :: "'o url_lib \<Rightarrow> NetUrl \<Rightarrow> ReferrerValue" where
  "full_url lib url =
     (let u = clear_fragment lib url; u = clear_username lib u; u = clear_password lib u
      in RV_FullUrl (url_as_str u))"

definition resolve_referrer :: "'o url_lib \<Rightarrow> ReferrerPolicy \<Rightarrow> NetUrl \<Rightarrow> NetUrl \<Rightarrow> ReferrerValue" where
  "resolve_referrer lib policy source dest =
     (let src_trustworthy = is_potentially_trustworthy source;
          dest_trustworthy = is_potentially_trustworthy dest;
          downgrade = (src_trustworthy \<and> \<not> dest_trustworthy);
          same_origin = (url_origin lib source = url_origin lib dest)
      in case policy of
           NoReferrer \<Rightarrow> RV_None
         | UnsafeUrl \<Rightarrow> full_url lib source
         | NoReferrerWhenDowngrade \<Rightarrow> if downgrade then RV_None else full_url lib source
         | RP_SameOrigin \<Rightarrow> if same_origin then full_url lib source else RV_None
         | StrictOrigin \<Rightarrow> if downgrade then RV_None else origin_string lib source
         | RP_Origin \<Rightarrow> origin_string lib source
         | OriginWhenCrossOrigin \<Rightarrow> if same_origin then full_url lib source else origin_string lib source
         | StrictOriginWhenCrossOrigin \<Rightarrow>
             if same_origin then full_url lib source else if downgrade then RV_None else origin_string lib source)"

subsection \<open>Mixed content\<close>

datatype ResourceType = RT_Script | RT_Stylesheet | RT_Fetch | RT_Iframe | RT_Object | RT_Font | RT_Stream | RT_Image
  | RT_Audio | RT_Video | RT_Document

definition ResourceType_is_active :: "ResourceType \<Rightarrow> bool" where
  "ResourceType_is_active r \<longleftrightarrow>
     r \<in> {RT_Script, RT_Stylesheet, RT_Fetch, RT_Iframe, RT_Object, RT_Font, RT_Stream}"

definition ResourceType_is_passive :: "ResourceType \<Rightarrow> bool" where
  "ResourceType_is_passive r \<longleftrightarrow> r \<in> {RT_Image, RT_Audio, RT_Video}"

definition ResourceType_is_navigation :: "ResourceType \<Rightarrow> bool" where
  "ResourceType_is_navigation r \<longleftrightarrow> r = RT_Document"

datatype MixedContentVerdict = NotMixed | MC_Block | MC_Upgrade

definition classify :: "bool \<Rightarrow> NetUrl \<Rightarrow> ResourceType \<Rightarrow> bool \<Rightarrow> MixedContentVerdict" where
  "classify context_trustworthy request_url resource block_all_mixed_content =
     (if \<not> context_trustworthy then NotMixed
      else if is_potentially_trustworthy request_url then NotMixed
      else if block_all_mixed_content then MC_Block
      else if ResourceType_is_navigation resource then NotMixed
      else if ResourceType_is_passive resource then MC_Upgrade
      else MC_Block)"

subsection \<open>What a referrer reveals\<close>

text \<open>Nothing, the origin, or the URL.\<close>

definition reveals :: "ReferrerValue \<Rightarrow> nat" where
  "reveals v = (case v of RV_None \<Rightarrow> 0 | RV_Origin _ \<Rightarrow> 1 | RV_FullUrl _ \<Rightarrow> 2)"

lemma reveals_simps [simp]:
  "reveals RV_None = 0" "reveals (origin_string lib url) = 1" "reveals (full_url lib url) = 2"
  by (simp_all add: reveals_def origin_string_def full_url_def Let_def)

text \<open>The policies by what they reveal at most in every situation.\<close>

definition stricter :: "ReferrerPolicy \<Rightarrow> ReferrerPolicy \<Rightarrow> bool" where
  "stricter p q \<longleftrightarrow> p = q \<or> p = NoReferrer \<or> q = UnsafeUrl
     \<or> (p, q) \<in> {(RP_SameOrigin, StrictOriginWhenCrossOrigin), (RP_SameOrigin, OriginWhenCrossOrigin),
          (StrictOrigin, StrictOriginWhenCrossOrigin), (StrictOrigin, RP_Origin), (StrictOrigin, OriginWhenCrossOrigin),
          (StrictOrigin, NoReferrerWhenDowngrade), (RP_Origin, OriginWhenCrossOrigin),
          (StrictOriginWhenCrossOrigin, OriginWhenCrossOrigin)}"

lemma stricter_reveals_less:
  "stricter p q \<Longrightarrow> reveals (resolve_referrer lib p s d) \<le> reveals (resolve_referrer lib q s d)"
  by (cases p; cases q) (simp_all add: stricter_def resolve_referrer_def Let_def)

lemma hsts_entry_matches:
  assumes "\<And>s. list_all (\<lambda>c. byte c < 128) s \<Longrightarrow> lower s = to_ascii_lowercase s"
    and "list_all (\<lambda>c. byte c < 128) host" and "list_all (\<lambda>c. byte c < 128) candidate"
  shows "HstsEntry_matches lower (HstsEntry_from_directive lower host d) candidate \<longleftrightarrow>
    eq_ignore_ascii_case candidate host
    \<or> hd_include_sub_domains d \<and> subdomain (to_ascii_lowercase candidate) (to_ascii_lowercase host)"
  by (auto simp: HstsEntry_matches_def HstsEntry_from_directive_def assms eq_ignore_ascii_case_def str_ends_with_def
      strip_suffix_Some subdomain_def Let_def)

end
