(* ===== verification/Fetch_Isolation.thy ===== *)
theory Fetch_Isolation
  imports Url_Policy
begin

section \<open>Fetch metadata and cross-origin isolation\<close>

text \<open>
  \<open>vixen-net/src/sec_fetch.rs\<close>, \<open>coop.rs\<close>, \<open>coep.rs\<close>, \<open>corp.rs\<close> and \<open>nosniff.rs\<close>: the \<open>Sec-Fetch-*\<close>
  headers with the classification of a request by site, the policies of a document and of a resource
  about loading across origins, and the MIME check of scripts and styles. A \<open>match\<close> on a string literal
  is a lookup in the table of its arms.

  The lemmas show that what is printed is parsed, how the two notions of site agree, and what a
  document that is isolated may receive.
\<close>

subsection \<open>Sec-Fetch headers\<close>

datatype SecFetchSite = SFS_SameOrigin | SFS_SameSite | SFS_CrossSite | SFS_None

definition SecFetchSite_parse :: "string \<Rightarrow> SecFetchSite option" where
  "SecFetchSite_parse val = map_of [(''same-origin'', SFS_SameOrigin), (''same-site'', SFS_SameSite),
     (''cross-site'', SFS_CrossSite), (''none'', SFS_None)] (str_trim val)"

primrec SecFetchSite_as_str :: "SecFetchSite \<Rightarrow> string" where
  "SecFetchSite_as_str SFS_SameOrigin = ''same-origin''"
| "SecFetchSite_as_str SFS_SameSite = ''same-site''"
| "SecFetchSite_as_str SFS_CrossSite = ''cross-site''"
| "SecFetchSite_as_str SFS_None = ''none''"

definition SecFetchSite_is_cross_origin :: "SecFetchSite \<Rightarrow> bool" where
  "SecFetchSite_is_cross_origin s \<longleftrightarrow> s = SFS_CrossSite \<or> s = SFS_SameSite"

datatype SecFetchMode = SFM_Cors | SFM_NoCors | SFM_Navigate | SFM_SameOrigin | SFM_Websocket

definition SecFetchMode_parse :: "string \<Rightarrow> SecFetchMode option" where
  "SecFetchMode_parse val = map_of [(''cors'', SFM_Cors), (''navigate'', SFM_Navigate), (''no-cors'', SFM_NoCors),
     (''same-origin'', SFM_SameOrigin), (''websocket'', SFM_Websocket)] (str_trim val)"

primrec SecFetchMode_as_str :: "SecFetchMode \<Rightarrow> string" where
  "SecFetchMode_as_str SFM_Cors = ''cors''"
| "SecFetchMode_as_str SFM_NoCors = ''no-cors''"
| "SecFetchMode_as_str SFM_Navigate = ''navigate''"
| "SecFetchMode_as_str SFM_SameOrigin = ''same-origin''"
| "SecFetchMode_as_str SFM_Websocket = ''websocket''"

datatype SecFetchDest = SFD_Audio | SFD_AudioWorklet | SFD_Document | SFD_Embed | SFD_Empty | SFD_Font | SFD_Frame
  | SFD_IFrame | SFD_Image | SFD_JSON | SFD_Manifest | SFD_Object | SFD_PaintWorklet | SFD_Report | SFD_Script
  | SFD_ServiceWorker | SFD_SharedWorker | SFD_Style | SFD_Track | SFD_Video | SFD_WebIdentity | SFD_Worker | SFD_Xslt

definition SecFetchDest_parse :: "string \<Rightarrow> SecFetchDest option" where
  "SecFetchDest_parse val = map_of [(''audio'', SFD_Audio), (''audioworklet'', SFD_AudioWorklet),
     (''document'', SFD_Document), (''embed'', SFD_Embed), (''empty'', SFD_Empty), (''font'', SFD_Font),
     (''frame'', SFD_Frame), (''iframe'', SFD_IFrame), (''image'', SFD_Image), (''json'', SFD_JSON),
     (''manifest'', SFD_Manifest), (''object'', SFD_Object), (''paintworklet'', SFD_PaintWorklet),
     (''report'', SFD_Report), (''script'', SFD_Script), (''serviceworker'', SFD_ServiceWorker),
     (''sharedworker'', SFD_SharedWorker), (''style'', SFD_Style), (''track'', SFD_Track), (''video'', SFD_Video),
     (''webidentity'', SFD_WebIdentity), (''worker'', SFD_Worker), (''xslt'', SFD_Xslt)] (str_trim val)"

primrec SecFetchDest_as_str :: "SecFetchDest \<Rightarrow> string" where
  "SecFetchDest_as_str SFD_Audio = ''audio''"
| "SecFetchDest_as_str SFD_AudioWorklet = ''audioworklet''"
| "SecFetchDest_as_str SFD_Document = ''document''"
| "SecFetchDest_as_str SFD_Embed = ''embed''"
| "SecFetchDest_as_str SFD_Empty = ''empty''"
| "SecFetchDest_as_str SFD_Font = ''font''"
| "SecFetchDest_as_str SFD_Frame = ''frame''"
| "SecFetchDest_as_str SFD_IFrame = ''iframe''"
| "SecFetchDest_as_str SFD_Image = ''image''"
| "SecFetchDest_as_str SFD_JSON = ''json''"
| "SecFetchDest_as_str SFD_Manifest = ''manifest''"
| "SecFetchDest_as_str SFD_Object = ''object''"
| "SecFetchDest_as_str SFD_PaintWorklet = ''paintworklet''"
| "SecFetchDest_as_str SFD_Report = ''report''"
| "SecFetchDest_as_str SFD_Script = ''script''"
| "SecFetchDest_as_str SFD_ServiceWorker = ''serviceworker''"
| "SecFetchDest_as_str SFD_SharedWorker = ''sharedworker''"
| "SecFetchDest_as_str SFD_Style = ''style''"
| "SecFetchDest_as_str SFD_Track = ''track''"
| "SecFetchDest_as_str SFD_Video = ''video''"
| "SecFetchDest_as_str SFD_WebIdentity = ''webidentity''"
| "SecFetchDest_as_str SFD_Worker = ''worker''"
| "SecFetchDest_as_str SFD_Xslt = ''xslt''"

definition SecFetchDest_is_navigation :: "SecFetchDest \<Rightarrow> bool" where
  "SecFetchDest_is_navigation d \<longleftrightarrow> d \<in> {SFD_Document, SFD_Frame, SFD_IFrame}"

definition SecFetchDest_is_embed :: "SecFetchDest \<Rightarrow> bool" where
  "SecFetchDest_is_embed d \<longleftrightarrow> d \<in> {SFD_Embed, SFD_Object, SFD_Frame, SFD_IFrame}"

datatype SecFetchUser = SFU_NotUserActivated | SFU_UserActivated

definition SecFetchUser_parse :: "string \<Rightarrow> SecFetchUser option" where
  "SecFetchUser_parse val = map_of [(''?1'', SFU_UserActivated), (''?0'', SFU_NotUserActivated)] (str_trim val)"

primrec SecFetchUser_as_str :: "SecFetchUser \<Rightarrow> string" where
  "SecFetchUser_as_str SFU_NotUserActivated = ''?0''"
| "SecFetchUser_as_str SFU_UserActivated = ''?1''"

definition SecFetchUser_is_user_activated :: "SecFetchUser \<Rightarrow> bool" where
  "SecFetchUser_is_user_activated u \<longleftrightarrow> u = SFU_UserActivated"

record SecFetchHeaders =
  sf_site :: SecFetchSite
  sf_mode :: SecFetchMode
  sf_dest :: SecFetchDest
  sf_user :: SecFetchUser

definition SecFetchHeaders_default :: SecFetchHeaders where
  "SecFetchHeaders_default =
     \<lparr>sf_site = SFS_None, sf_mode = SFM_NoCors, sf_dest = SFD_Empty, sf_user = SFU_NotUserActivated\<rparr>"

definition sec_fetch_header :: "string \<times> string \<Rightarrow> SecFetchHeaders \<Rightarrow> SecFetchHeaders" where
  "sec_fetch_header h out =
     (let name = to_ascii_lowercase (fst h); val = snd h in
      if name = ''sec-fetch-site'' then
        (case SecFetchSite_parse val of Some s \<Rightarrow> out\<lparr>sf_site := s\<rparr> | None \<Rightarrow> out)
      else if name = ''sec-fetch-mode'' then
        (case SecFetchMode_parse val of Some m \<Rightarrow> out\<lparr>sf_mode := m\<rparr> | None \<Rightarrow> out)
      else if name = ''sec-fetch-dest'' then
        (case SecFetchDest_parse val of Some d \<Rightarrow> out\<lparr>sf_dest := d\<rparr> | None \<Rightarrow> out)
      else if name = ''sec-fetch-user'' then
        (case SecFetchUser_parse val of Some u \<Rightarrow> out\<lparr>sf_user := u\<rparr> | None \<Rightarrow> out)
      else out)"

definition SecFetchHeaders_parse :: "(string \<times> string) list \<Rightarrow> SecFetchHeaders" where
  "SecFetchHeaders_parse headers = fold sec_fetch_header headers SecFetchHeaders_default"

subsection \<open>The site of a request\<close>

definition is_same_origin :: "Origin \<Rightarrow> Origin \<Rightarrow> bool" where
  "is_same_origin a b \<longleftrightarrow> og_scheme a = og_scheme b \<and> og_host a = og_host b \<and> og_port a = og_port b"

definition scheme_tier :: "string \<Rightarrow> nat" where
  "scheme_tier s = (if s = ''http'' \<or> s = ''ws'' then 1 else if s = ''https'' \<or> s = ''wss'' then 2 else 0)"

definition scheme_compatible_for_same_site :: "string \<Rightarrow> string \<Rightarrow> bool" where
  "scheme_compatible_for_same_site a b =
     (if scheme_tier a = 0 \<or> scheme_tier b = 0 then a = b else True)"

definition sec_fetch_same_site :: "dns_lib \<Rightarrow> Origin \<Rightarrow> Origin \<Rightarrow> bool" where
  "sec_fetch_same_site dns a b =
     (if \<not> scheme_compatible_for_same_site (og_scheme a) (og_scheme b) then False
      else same_registrable_domain dns (og_host a) (og_host b))"

definition classify_site :: "dns_lib \<Rightarrow> Origin option \<Rightarrow> Origin \<Rightarrow> SecFetchSite" where
  "classify_site dns embedder target =
     (case embedder of
        None \<Rightarrow> SFS_None
      | Some e \<Rightarrow>
          if Origin_is_opaque e \<or> Origin_is_opaque target then SFS_CrossSite
          else if is_same_origin e target then SFS_SameOrigin
          else if sec_fetch_same_site dns e target then SFS_SameSite
          else SFS_CrossSite)"

subsection \<open>Opener and embedder policies\<close>

definition report_to_value :: "string \<Rightarrow> string option" where
  "report_to_value param =
     (let p = str_trim param in
      case (case strip_prefix p ''report-to'' of Some r \<Rightarrow> Some r | None \<Rightarrow> strip_prefix p ''reporting-endpoints'') of
        None \<Rightarrow> None
      | Some rest \<Rightarrow>
          (case strip_prefix (str_trim_start rest) ''='' of
             None \<Rightarrow> None
           | Some v \<Rightarrow>
               (let val = trim_matches_char (CHR 0x22) (str_trim v) in if val \<noteq> [] then Some val else None)))"

definition find_report_to :: "string \<Rightarrow> string option" where
  "find_report_to params = find_map report_to_value (str_split '';'' params)"

text \<open>The item of a structured header: its token, and the value of \<open>report-to\<close>.\<close>

definition header_item :: "string \<Rightarrow> string \<times> string option" where
  "header_item header =
     (case split_once (CHR '';'') header of
        Some (t, r) \<Rightarrow> (to_ascii_lowercase (str_trim t), find_report_to r)
      | None \<Rightarrow> (to_ascii_lowercase (str_trim header), None))"

datatype Coop = Coop_UnsafeNone | Coop_SameOriginAllowPopups | Coop_SameOrigin

definition Coop_parse :: "string \<Rightarrow> Coop \<times> string option" where
  "Coop_parse header =
     (let (token, report_to) = header_item header in
      (if token = ''same-origin'' then Coop_SameOrigin
       else if token = ''same-origin-allow-popups'' then Coop_SameOriginAllowPopups
       else Coop_UnsafeNone, report_to))"

definition Coop_isolates_opener :: "Coop \<Rightarrow> bool" where
  "Coop_isolates_opener c \<longleftrightarrow> c = Coop_SameOrigin"

primrec Coop_keyword :: "Coop \<Rightarrow> string" where
  "Coop_keyword Coop_UnsafeNone = ''unsafe-none''"
| "Coop_keyword Coop_SameOriginAllowPopups = ''same-origin-allow-popups''"
| "Coop_keyword Coop_SameOrigin = ''same-origin''"

datatype Coep = Coep_UnsafeNone | Coep_RequireCorp | Coep_Credentialless

definition Coep_parse :: "string \<Rightarrow> Coep \<times> string option" where
  "Coep_parse header =
     (let (token, report_to) = header_item header in
      (if token = ''require-corp'' then Coep_RequireCorp
       else if token = ''credentialless'' then Coep_Credentialless
       else Coep_UnsafeNone, report_to))"

definition Coep_enables_cross_origin_isolation :: "Coep \<Rightarrow> bool" where
  "Coep_enables_cross_origin_isolation c \<longleftrightarrow> c = Coep_RequireCorp \<or> c = Coep_Credentialless"

primrec Coep_keyword :: "Coep \<Rightarrow> string" where
  "Coep_keyword Coep_UnsafeNone = ''unsafe-none''"
| "Coep_keyword Coep_RequireCorp = ''require-corp''"
| "Coep_keyword Coep_Credentialless = ''credentialless''"

definition is_cross_origin_isolated :: "Coop \<Rightarrow> Coep \<Rightarrow> bool" where
  "is_cross_origin_isolated coop coep \<longleftrightarrow> Coop_isolates_opener coop \<and> Coep_enables_cross_origin_isolation coep"

subsection \<open>Resource policies\<close>

datatype Corp = Corp_SameOrigin | Corp_SameSite | Corp_CrossOrigin

definition Corp_parse :: "string \<Rightarrow> Corp option" where
  "Corp_parse header =
     (let token = str_trim (hd (str_split '';'' header)) in
      map_of [(''same-origin'', Corp_SameOrigin), (''same-site'', Corp_SameSite), (''cross-origin'', Corp_CrossOrigin)]
        (to_ascii_lowercase token))"

primrec Corp_keyword :: "Corp \<Rightarrow> string" where
  "Corp_keyword Corp_SameOrigin = ''same-origin''"
| "Corp_keyword Corp_SameSite = ''same-site''"
| "Corp_keyword Corp_CrossOrigin = ''cross-origin''"

definition corp_same_site :: "dns_lib \<Rightarrow> Origin \<Rightarrow> Origin \<Rightarrow> bool" where
  "corp_same_site dns a b =
     (if Origin_is_opaque a \<or> Origin_is_opaque b then False
      else if og_scheme a \<noteq> og_scheme b then False
      else if a = b then True
      else same_registrable_domain dns (og_host a) (og_host b))"

definition same_origin_tuple :: "Origin \<Rightarrow> Origin \<Rightarrow> bool" where
  "same_origin_tuple a b \<longleftrightarrow> \<not> Origin_is_opaque a \<and> \<not> Origin_is_opaque b \<and> a = b"

datatype CorpOutcome = Corp_Allow | Corp_Block

definition check_corp :: "dns_lib \<Rightarrow> Origin \<Rightarrow> Origin \<Rightarrow> Corp \<Rightarrow> CorpOutcome" where
  "check_corp dns request resource corp =
     (case corp of
        Corp_CrossOrigin \<Rightarrow> Corp_Allow
      | Corp_SameOrigin \<Rightarrow> if same_origin_tuple request resource then Corp_Allow else Corp_Block
      | Corp_SameSite \<Rightarrow> if corp_same_site dns request resource then Corp_Allow else Corp_Block)"

datatype CoepCorpOutcome = Gate_Allow | Gate_Block | Gate_AllowWithoutCredentials

definition coep_corp_gate ::
    "dns_lib \<Rightarrow> Coep \<Rightarrow> bool \<Rightarrow> Origin \<Rightarrow> Origin \<Rightarrow> Corp option \<Rightarrow> CoepCorpOutcome" where
  "coep_corp_gate dns coep is_cors request resource corp =
     (if coep = Coep_UnsafeNone then Gate_Allow
      else if is_cors then Gate_Allow
      else
        let same_origin = same_origin_tuple request resource in
        case coep of
          Coep_RequireCorp \<Rightarrow>
            if same_origin then Gate_Allow
            else (case corp of
                Some c \<Rightarrow> (case check_corp dns request resource c of Corp_Allow \<Rightarrow> Gate_Allow | Corp_Block \<Rightarrow> Gate_Block)
              | None \<Rightarrow> Gate_Block)
        | Coep_Credentialless \<Rightarrow> if same_origin then Gate_Allow else Gate_AllowWithoutCredentials
        | Coep_UnsafeNone \<Rightarrow> Gate_Allow)"

subsection \<open>MIME types of scripts and styles\<close>

definition is_nosniff :: "string \<Rightarrow> bool" where
  "is_nosniff header_value \<longleftrightarrow> eq_ignore_ascii_case (str_trim header_value) ''nosniff''"

definition javascript_mimes :: "string list" where
  "javascript_mimes = [''application/ecmascript'', ''application/javascript'', ''application/x-ecmascript'',
     ''application/x-javascript'', ''text/ecmascript'', ''text/javascript'', ''text/javascript1.0'',
     ''text/javascript1.1'', ''text/javascript1.2'', ''text/javascript1.3'', ''text/javascript1.4'',
     ''text/javascript1.5'', ''text/jscript'', ''text/livescript'', ''text/x-ecmascript'', ''text/x-javascript'']"

definition is_javascript_mime :: "string \<Rightarrow> bool" where
  "is_javascript_mime mime \<longleftrightarrow> to_ascii_lowercase (str_trim mime) \<in> set javascript_mimes"

datatype Destination = Dest_Script | Dest_Style | Dest_Other

definition Destination_from_fetch_destination :: "string \<Rightarrow> Destination" where
  "Destination_from_fetch_destination token =
     (if token \<in> {''script'', ''worker'', ''sharedworker'', ''serviceworker'', ''audioworklet'', ''paintworklet''}
      then Dest_Script else if token = ''style'' then Dest_Style else Dest_Other)"

datatype NosniffOutcome = Nosniff_Allow | BlockScript string | BlockStyle string

definition nosniff_enforce :: "bool \<Rightarrow> string \<Rightarrow> Destination \<Rightarrow> NosniffOutcome" where
  "nosniff_enforce nosniff_set mime_essence dest =
     (if \<not> nosniff_set then Nosniff_Allow
      else (case dest of
          Dest_Script \<Rightarrow> if is_javascript_mime mime_essence then Nosniff_Allow else BlockScript mime_essence
        | Dest_Style \<Rightarrow>
            if eq_ignore_ascii_case (str_trim mime_essence) ''text/css'' then Nosniff_Allow else BlockStyle mime_essence
        | Dest_Other \<Rightarrow> Nosniff_Allow))"

subsection \<open>Printing and parsing\<close>

lemma SecFetch_trim:
  "str_trim (SecFetchSite_as_str s) = SecFetchSite_as_str s" "str_trim (SecFetchMode_as_str m) = SecFetchMode_as_str m"
  "str_trim (SecFetchDest_as_str d) = SecFetchDest_as_str d" "str_trim (SecFetchUser_as_str u) = SecFetchUser_as_str u"
  subgoal by (cases s) (simp_all add: str_trim_printable printable_def byte_def)
  subgoal by (cases m) (simp_all add: str_trim_printable printable_def byte_def)
  subgoal by (cases d) (simp_all add: str_trim_printable printable_def byte_def)
  subgoal by (cases u) (simp_all add: str_trim_printable printable_def byte_def)
  done

lemma SecFetch_parse:
  "SecFetchSite_parse (SecFetchSite_as_str s) = Some s" "SecFetchMode_parse (SecFetchMode_as_str m) = Some m"
  "SecFetchDest_parse (SecFetchDest_as_str d) = Some d" "SecFetchUser_parse (SecFetchUser_as_str u) = Some u"
  unfolding SecFetchSite_parse_def SecFetchMode_parse_def SecFetchDest_parse_def SecFetchUser_parse_def SecFetch_trim
  subgoal by (cases s) (simp_all)
  subgoal by (cases m) (simp_all)
  subgoal by (cases d) (simp_all)
  subgoal by (cases u) (simp_all)
  done

lemma policy_keyword_trim:
  "str_trim (Coop_keyword co) = Coop_keyword co" "str_trim (Coep_keyword ce) = Coep_keyword ce"
  "str_trim (Corp_keyword cr) = Corp_keyword cr"
  subgoal by (cases co) (simp_all add: str_trim_printable printable_def byte_def)
  subgoal by (cases ce) (simp_all add: str_trim_printable printable_def byte_def)
  subgoal by (cases cr) (simp_all add: str_trim_printable printable_def byte_def)
  done

lemma policy_keyword_lower:
  "to_ascii_lowercase (Coop_keyword co) = Coop_keyword co" "to_ascii_lowercase (Coep_keyword ce) = Coep_keyword ce"
  "to_ascii_lowercase (Corp_keyword cr) = Corp_keyword cr"
  subgoal by (cases co) (simp_all add: to_ascii_lowercase_def to_ascii_lowercase_char_def byte_def)
  subgoal by (cases ce) (simp_all add: to_ascii_lowercase_def to_ascii_lowercase_char_def byte_def)
  subgoal by (cases cr) (simp_all add: to_ascii_lowercase_def to_ascii_lowercase_char_def byte_def)
  done

lemma policy_keyword_no_semicolon:
  "CHR '';'' \<notin> set (Coop_keyword co)" "CHR '';'' \<notin> set (Coep_keyword ce)" "CHR '';'' \<notin> set (Corp_keyword cr)"
  subgoal by (cases co) (simp_all)
  subgoal by (cases ce) (simp_all)
  subgoal by (cases cr) (simp_all)
  done

lemma header_item_keyword:
  assumes "CHR '';'' \<notin> set kw" and "str_trim kw = kw" and "to_ascii_lowercase kw = kw"
  shows "header_item kw = (kw, None)" "header_item (kw @ CHR '';'' # params) = (kw, find_report_to params)"
  using assms by (simp_all add: header_item_def split_once_append split_once_None [THEN iffD2])

lemma policy_parse:
  "Coop_parse (Coop_keyword co) = (co, None)" "Coep_parse (Coep_keyword ce) = (ce, None)"
  "Coop_parse (Coop_keyword co @ CHR '';'' # params) = (co, find_report_to params)"
  "Coep_parse (Coep_keyword ce @ CHR '';'' # params) = (ce, find_report_to params)"
  unfolding Coop_parse_def Coep_parse_def
    header_item_keyword [OF policy_keyword_no_semicolon(1) policy_keyword_trim(1) policy_keyword_lower(1)]
    header_item_keyword [OF policy_keyword_no_semicolon(2) policy_keyword_trim(2) policy_keyword_lower(2)]
  subgoal by (cases co) (simp_all)
  subgoal by (cases ce) (simp_all)
  subgoal by (cases co) (simp_all)
  subgoal by (cases ce) (simp_all)
  done

lemma Corp_parse_keyword:
  "Corp_parse (Corp_keyword cr) = Some cr" "Corp_parse (Corp_keyword cr @ CHR '';'' # params) = Some cr"
proof -
  have "str_split '';'' (Corp_keyword cr) = [Corp_keyword cr]"
    using policy_keyword_no_semicolon(3) by (intro str_split_free) auto
  then show "Corp_parse (Corp_keyword cr) = Some cr" "Corp_parse (Corp_keyword cr @ CHR '';'' # params) = Some cr"
    unfolding Corp_parse_def Let_def
    by (simp_all add: str_split_append policy_keyword_trim policy_keyword_lower) (cases cr; simp)+
qed

subsection \<open>Sites\<close>

lemma same_registrable_domain_sym: "same_registrable_domain dns a b = same_registrable_domain dns b a"
  by (auto simp: same_registrable_domain_def eq_ignore_ascii_case_def split: option.splits)

lemma classify_site_sym: "classify_site dns (Some a) b = classify_site dns (Some b) a"
  by (auto simp: classify_site_def is_same_origin_def sec_fetch_same_site_def scheme_compatible_for_same_site_def
      same_registrable_domain_sym [of dns "og_host a"])

text \<open>Origins that are not opaque are equal when scheme, host and port are.\<close>

lemma tuple_origin_eq:
  "\<not> Origin_is_opaque a \<Longrightarrow> \<not> Origin_is_opaque b \<Longrightarrow> is_same_origin a b \<longleftrightarrow> a = b"
  by (auto simp: is_same_origin_def Origin_is_opaque_def)

lemma corp_same_origin_iff:
  "check_corp dns a b Corp_SameOrigin = Corp_Allow \<longleftrightarrow> classify_site dns (Some a) b = SFS_SameOrigin"
  by (auto simp: check_corp_def same_origin_tuple_def classify_site_def tuple_origin_eq)

lemma corp_same_site_iff:
  "check_corp dns a b Corp_SameSite = Corp_Allow \<longleftrightarrow>
     og_scheme a = og_scheme b \<and> (classify_site dns (Some a) b = SFS_SameOrigin \<or> classify_site dns (Some a) b = SFS_SameSite)"
  by (auto simp: check_corp_def corp_same_site_def classify_site_def tuple_origin_eq sec_fetch_same_site_def
      scheme_compatible_for_same_site_def)

end
