(* ===== verification/Net_Policy_Properties.thy ===== *)
theory Net_Policy_Properties
  imports Csp Cors Transport_Security Fetch_Isolation
begin

section \<open>Properties of the network policies\<close>

text \<open>
  What the policies of the network layer decide, from the headers as they arrive: content security
  policies, cross-origin sharing, referrers, transport security, and the isolation of documents.
\<close>

subsection \<open>Content security policies\<close>

lemma url_loop_iff:
  "url_loop url og hp srcs \<longleftrightarrow> list_ex (\<lambda>s. url_matches_source s url og) srcs
     \<or> \<not> hp \<and> list_all (\<lambda>s. s = KeywordNone) srcs"
  by (induction srcs arbitrary: hp) (auto simp: url_matches_source_def)

lemma url_allowed_iff:
  "url_allowed srcs url og \<longleftrightarrow>
     (if list_all (\<lambda>s. s = KeywordNone) srcs then length srcs \<noteq> 1 else list_ex (\<lambda>s. url_matches_source s url og) srcs)"
proof (cases "length srcs = 1")
  case True
  then obtain s where "srcs = [s]" by (auto simp: length_Suc_conv)
  then show ?thesis by (auto simp: url_allowed_def url_matches_source_def)
next
  case False
  have "\<not> list_ex (\<lambda>s. url_matches_source s url og) srcs" if "list_all (\<lambda>s. s = KeywordNone) srcs"
    using that by (auto simp: list_all_iff list_ex_iff url_matches_source_def)
  with False show ?thesis by (auto simp: url_allowed_def url_loop_iff)
qed

text \<open>The sources that cover a URL, one rule for each kind of source that can; a host pattern is a host, any host, or a
  domain with its subdomains.\<close>

definition host_covered :: "string \<Rightarrow> string \<Rightarrow> bool" where
  "host_covered pat host \<longleftrightarrow>
     (if pat = ''*'' then host \<noteq> []
      else if take 2 pat = ''*.'' then host = drop 2 pat \<or> (\<exists>sub. host = sub @ ''.'' @ drop 2 pat)
      else host = pat)"

definition effective_port :: "NetUrl \<Rightarrow> u16" where
  "effective_port url = (case url_port url of Some p \<Rightarrow> p | None \<Rightarrow> if url_scheme url = ''https'' then 443 else 80)"

inductive covers :: "NetUrl \<Rightarrow> Origin \<Rightarrow> Source \<Rightarrow> bool" for url og where
  self: "Origin_from_url url = og \<Longrightarrow> \<not> Origin_is_opaque og \<Longrightarrow> covers url og KeywordSelf"
| scheme: "to_ascii_lowercase (url_scheme url) = to_ascii_lowercase (trim_end_char (CHR '':'') scheme) \<Longrightarrow>
     covers url og (Scheme scheme)"
| host: "(case hs_scheme h of Some scheme \<Rightarrow> to_ascii_lowercase (url_scheme url) = to_ascii_lowercase scheme
       | None \<Rightarrow> url_scheme url \<in> {''http'', ''https''}) \<Longrightarrow>
     url_host_str url = Some host \<Longrightarrow> host_covered (to_ascii_lowercase (hs_host h)) (to_ascii_lowercase host) \<Longrightarrow>
     hs_port h \<in> {None, Some (effective_port url)} \<Longrightarrow>
     (case hs_path h of Some path \<Rightarrow> take (length path) (url_path url) = path | None \<Rightarrow> True) \<Longrightarrow>
     covers url og (HostSrc h)"

inductive_simps covers_simps: "covers url og s"

lemma host_pattern_covers: "host_pattern_matches pat host = host_covered pat host"
  by (auto simp: host_pattern_matches_def host_covered_def strip_prefix_def str_starts_with_def str_ends_with_def strip_suffix_Some numeral_2_eq_2
      split: if_splits)

lemma covers_iff: "url_matches_source s url og = covers url og s"
  by (cases s) (auto simp: covers_simps url_matches_source_def url_origin_matches_def eq_ignore_ascii_case_def
      host_source_matches_def host_pattern_covers effective_port_def str_starts_with_def Let_def split: option.splits if_splits)

text \<open>The policies are those of the headers with the name, in order.\<close>

lemma from_headers_eq:
  "ContentSecurityPolicy_from_headers hs =
     map (\<lambda>h. parse_policy (snd h)) (filter (\<lambda>h. eq_ignore_ascii_case (fst h) ''content-security-policy'') hs)"
proof -
  have "fold (\<lambda>(name, val) csp. if eq_ignore_ascii_case name ''content-security-policy''
        then ContentSecurityPolicy_add_header val csp else csp) hs csp
      = csp @ map (\<lambda>h. parse_policy (snd h)) (filter (\<lambda>h. eq_ignore_ascii_case (fst h) ''content-security-policy'') hs)" for csp
    by (induction hs arbitrary: csp) (simp_all add: ContentSecurityPolicy_add_header_def case_prod_unfold)
  then show ?thesis by (simp add: ContentSecurityPolicy_from_headers_def ContentSecurityPolicy_new_def)
qed

text \<open>Words of printable characters with single spaces between them are read back.\<close>

lemma split_words_word: "list_all printable s \<Longrightarrow> split_words w (s @ t) = split_words (w @ s) t"
proof (induction s arbitrary: w)
  case (Cons c s)
  have "strip_one white_space (c # s @ t) = None"
    by (rule strip_one_none) (use Cons.prems white_space_edges white_space_nonempty in auto)
  with Cons show ?case by (simp add: split_words.simps [of w "c # s @ t"] Let_def)
qed simp

lemma strip_one_space: "strip_one white_space (CHR '' '' # t) = Some t"
proof -
  have "CHR '' '' = char_of n \<longleftrightarrow> n mod 256 = 32" for n :: nat
    using char_of_eq_iff [of n "CHR '' ''"] by (auto simp: take_bit_eq_mod)
  then show ?thesis by (simp add: strip_one_def white_space_def)
qed

lemma split_words_space: "split_words w (CHR '' '' # t) = (if w = [] then [] else [w]) @ split_words [] t"
  by (simp add: split_words.simps [of w "CHR '' '' # t"] strip_one_space)

lemma split_whitespace_words:
  "list_all (\<lambda>w. w \<noteq> [] \<and> list_all printable w) ws \<Longrightarrow> split_whitespace (str_join '' '' ws) = ws"
  unfolding split_whitespace_def
proof (induction ws)
  case Nil
  show ?case by (simp add: split_words.simps [of "[]" "[]"])
next
  case (Cons w ws)
  then have w: "split_words [] (w @ t) = split_words w t" for t using split_words_word [of w "[]"] by simp
  show ?case
  proof (cases ws)
    case Nil
    then show ?thesis using w [of "[]"] Cons.prems by (simp add: split_words.simps [of w "[]"])
  next
    case (Cons v vs)
    with Cons.prems Cons.IH show ?thesis by (simp add: w split_words_space)
  qed
qed

lemma fold_or_0: "fold (\<lambda>(x, y) diff. diff OR f x y) ps (d :: u8) = 0 \<longleftrightarrow> d = 0 \<and> list_all (\<lambda>(x, y). f x y = 0) ps"
proof (induction ps arbitrary: d)
  case (Cons p ps)
  obtain x y where p: "p = (x, y)" by fastforce
  show ?case by (simp add: p Cons.IH or_eq_0_iff conj_assoc)
qed simp

lemma byte_xor_0: "(of_nat (byte x) XOR of_nat (byte y) :: u8) = 0 \<longleftrightarrow> x = y"
proof -
  have "byte c < 256" for c by (simp add: byte_def)
  then have "unat (of_nat (byte c) :: u8) = byte c" for c by (simp add: unat_of_nat take_bit_eq_mod)
  then have "byte x = byte y" if "(of_nat (byte x) :: u8) = of_nat (byte y)" using that by metis
  moreover have "a = b" if "a XOR b = 0" for a b :: u8
    using that by (metis xor.assoc xor.right_neutral xor_self_eq)
  ultimately show ?thesis by (auto simp: byte_def)
qed

lemma constant_time_eq_iff: "constant_time_eq a b \<longleftrightarrow> a = b"
proof -
  have "fold (\<lambda>(x, y) diff. diff OR (of_nat (byte x) XOR of_nat (byte y) :: u8)) (zip a b) 0 = 0 \<longleftrightarrow> a = b"
    if "length a = length b"
    using that by (simp add: fold_or_0 [of "\<lambda>x y. of_nat (byte x) XOR of_nat (byte y)"] byte_xor_0 list_all_iff)
      (induction a b rule: list_induct2, auto)
  then show ?thesis by (auto simp: constant_time_eq_def)
qed

text \<open>A header with one directive.\<close>

lemma parse_policy_single:
  assumes "list_all (\<lambda>w. w \<noteq> [] \<and> list_all printable w \<and> CHR '';'' \<notin> set w) (name # tokens)"
  shows "parse_policy (str_join '' '' (name # tokens)) = [(to_ascii_lowercase name, map parse_source tokens)]"
proof -
  have "CHR '';'' \<notin> set (str_join '' '' ws)" if "list_all (\<lambda>w. CHR '';'' \<notin> set w) ws" for ws
    using that by (induction ws) auto
  with assms have "str_split '';'' (str_join '' '' (name # tokens)) = [str_join '' '' (name # tokens)]"
    by (intro str_split_free) (auto simp: list_all_iff)
  moreover have "split_whitespace (str_join '' '' (name # tokens)) = name # tokens"
    using assms by (intro split_whitespace_words) (auto simp: list_all_iff)
  ultimately show ?thesis by (simp add: parse_policy_def add_directive_def bt_contains_key_def)
qed

definition self_policy :: "(string \<times> string) list" where
  "self_policy = [(''Content-Security-Policy'', ''default-src '' @ [CHR 0x27] @ ''self'' @ [CHR 0x27])]"

lemma self_policy_parsed: "ContentSecurityPolicy_from_headers self_policy = [[(''default-src'', [KeywordSelf])]]"
proof -
  let ?self = "[CHR 0x27] @ ''self'' @ [CHR 0x27]"
  have "parse_policy (str_join '' '' [''default-src'', ?self]) = [(to_ascii_lowercase ''default-src'', [parse_source ?self])]"
    by (subst parse_policy_single) (simp_all add: printable_def byte_def)
  moreover have "parse_source ?self = KeywordSelf" "to_ascii_lowercase ''default-src'' = ''default-src''" by code_simp+
  moreover have "eq_ignore_ascii_case ''Content-Security-Policy'' ''content-security-policy''" by code_simp
  ultimately show ?thesis by (simp add: from_headers_eq self_policy_def)
qed

lemmas csp_checks = ContentSecurityPolicy_allows_fetch_def ContentSecurityPolicy_allows_inline_script_def
  ContentSecurityPolicy_allows_inline_style_def ContentSecurityPolicy_allows_external_script_def

subsection \<open>Transport security\<close>

lemma str_trim_space:
  assumes "s \<noteq> []" and "printable (hd s)" and "printable (last s)"
  shows "str_trim (CHR '' '' # s) = s"
proof -
  have "strip_one white_space s = None"
    by (rule strip_one_none) (use assms white_space_edges white_space_nonempty in auto)
  then have "str_trim_start (CHR '' '' # s) = s" "str_trim_start s = s"
    by (simp_all add: str_trim_start_def strip_one_space strip_all_none)
  with str_trim_printable [OF assms] show ?thesis by (simp add: str_trim_def)
qed

lemma parse_u64_show_nat: "n < 2 ^ 64 \<Longrightarrow> parse_u64 (show_nat n) = Some (of_nat n)"
proof -
  assume "n < 2 ^ 64"
  moreover have "\<not> is_ascii_digit (CHR ''+'')" by code_simp
  then have "hd (show_nat n) \<noteq> CHR ''+''"
    using show_nat_digits [of n] by (metis list.set_sel(1) list_all_iff)
  ultimately show ?thesis
    using show_nat_digits [of n] by (simp add: parse_u64_def starts_with_char_def decimal_show_nat)
qed

lemma show_nat_edges:
  "printable (hd (show_nat n))" "printable (last (show_nat n))" "show_nat n \<noteq> []" "c \<in> set (show_nat n) \<Longrightarrow> is_ascii_digit c"
proof -
  have "printable c" if "is_ascii_digit c" for c
    using that by (auto simp: is_ascii_digit_def printable_def)
  with show_nat_digits [of n]
  show "printable (hd (show_nat n))" "printable (last (show_nat n))" "show_nat n \<noteq> []" "c \<in> set (show_nat n) \<Longrightarrow> is_ascii_digit c"
    by (simp_all add: list_all_iff)
qed

lemma hsts_tokens:
  "n < 2 ^ 64 \<Longrightarrow> hsts_token (''max-age='' @ show_nat n) (None, False, False) = (Some (of_nat n), False, False)"
  "hsts_token '' includeSubDomains'' (a, b, c) = (a, True, c)"
proof -
  have "str_trim (''max-age='' @ show_nat n) = ''max-age='' @ show_nat n"
    by (rule str_trim_printable) (use show_nat_edges(2,3) [of n] in \<open>simp_all add: printable_def byte_def\<close>)
  moreover have "str_trim (show_nat n) = show_nat n" by (rule str_trim_printable) (rule show_nat_edges)+
  moreover have "str_trim ''max-age'' = ''max-age''" by (simp add: str_trim_printable printable_def byte_def)
  moreover have "split_once (CHR ''='') (''max-age='' @ show_nat n) = Some (''max-age'', show_nat n)"
    using split_once_append [of "CHR ''=''" "''max-age''" "show_nat n"] by simp
  moreover have "to_ascii_lowercase ''max-age'' = ''max-age''" by code_simp
  ultimately show "n < 2 ^ 64 \<Longrightarrow> hsts_token (''max-age='' @ show_nat n) (None, False, False) = (Some (of_nat n), False, False)"
    by (simp add: hsts_token_def parse_u64_show_nat)
  have "str_trim '' includeSubDomains'' = ''includeSubDomains''"
    by (rule str_trim_space) (simp_all add: printable_def byte_def)
  moreover have "split_once (CHR ''='') ''includeSubDomains'' = None"
    "to_ascii_lowercase ''includeSubDomains'' = ''includesubdomains''" by code_simp+
  ultimately show "hsts_token '' includeSubDomains'' (a, b, c) = (a, True, c)"
    by (simp add: hsts_token_def)
qed

lemma hsts_parsed:
  assumes "n < 2 ^ 64"
  shows "parse_strict_transport_security (''max-age='' @ show_nat n @ ''; includeSubDomains'') =
    Some \<lparr>hd_max_age_secs = of_nat n, hd_include_sub_domains = True, hd_preload = False\<rparr>"
proof -
  have "CHR '';'' \<notin> set (show_nat n)" using show_nat_edges(4) [of "CHR '';''" n] by (auto simp: is_ascii_digit_def byte_def)
  moreover define a where "a = ''max-age='' @ show_nat n"
  ultimately have a: "str_split '';'' a = [a]" by (intro str_split_free) auto
  have b: "str_split '';'' '' includeSubDomains'' = ['' includeSubDomains'']" by (rule str_split_free) simp
  have "str_split '';'' (a @ CHR '';'' # '' includeSubDomains'') = [a, '' includeSubDomains'']"
    by (simp add: str_split_append a b del: str_split.simps)
  moreover have "hsts_token a (None, False, False) = (Some (of_nat n), False, False)"
    unfolding a_def using assms by (rule hsts_tokens)
  ultimately have "fold hsts_token (str_split '';'' (a @ ''; includeSubDomains'')) (None, False, False) = (Some (of_nat n), True, False)"
    by (simp add: hsts_tokens(2) del: str_split.simps)
  then show ?thesis by (simp add: parse_strict_transport_security_def a_def del: str_split.simps)
qed

subsection \<open>The properties\<close>

text \<open>C23: which fetches the policies allow, written out. Each policy has to allow the URL on its own. Its source
  list is the one of the directive, or else that of \<open>default-src\<close>; a policy with neither allows everything.
  A list with a source other than \<open>'none'\<close> allows exactly the URLs that one of its sources covers by the rules of
  \<open>covers\<close>, so a list of nonces, hashes or \<open>'unsafe-inline'\<close> only allows none. A list with no such source allows
  nothing if it is \<open>'none'\<close> alone, but everything if it is empty or repeats \<open>'none'\<close>.\<close>

theorem csp_fetch_exact:
  "ContentSecurityPolicy_allows_fetch csp dir url og =
     list_all (\<lambda>p.
        let allowed = (\<lambda>srcs. if set srcs \<subseteq> {KeywordNone} then srcs \<noteq> [KeywordNone] else list_ex (covers url og) srcs)
        in case (bt_get p dir, bt_get p ''default-src'') of
             (Some srcs, _) \<Rightarrow> allowed srcs
           | (None, Some srcs) \<Rightarrow> allowed srcs
           | (None, None) \<Rightarrow> True) csp"
proof -
  have none: "(if set srcs \<subseteq> {KeywordNone} then srcs \<noteq> [KeywordNone] else list_ex (covers url og) srcs) = url_allowed srcs url og" for srcs
    by (cases srcs; cases "tl srcs") (auto simp: url_allowed_iff list_all_iff covers_iff [abs_def])
  show ?thesis
    unfolding csp_checks Let_def none sources_for_def
    by (intro arg_cong2 [where f = list_all] ext refl) (auto split: option.splits)
qed

text \<open>Headers only restrict. What the policies of all headers allow is what the policies of every
  part of the headers allow, for scripts, styles and fetches, whatever the other headers are.\<close>

theorem csp_headers_intersect:
  "ContentSecurityPolicy_allows_fetch (ContentSecurityPolicy_from_headers (hs @ hs')) dir url og =
     (ContentSecurityPolicy_allows_fetch (ContentSecurityPolicy_from_headers hs) dir url og
      \<and> ContentSecurityPolicy_allows_fetch (ContentSecurityPolicy_from_headers hs') dir url og)
   \<and> ContentSecurityPolicy_allows_inline_script lib (ContentSecurityPolicy_from_headers (hs @ hs')) content nonce =
     (ContentSecurityPolicy_allows_inline_script lib (ContentSecurityPolicy_from_headers hs) content nonce
      \<and> ContentSecurityPolicy_allows_inline_script lib (ContentSecurityPolicy_from_headers hs') content nonce)
   \<and> ContentSecurityPolicy_allows_inline_style lib (ContentSecurityPolicy_from_headers (hs @ hs')) content nonce =
     (ContentSecurityPolicy_allows_inline_style lib (ContentSecurityPolicy_from_headers hs) content nonce
      \<and> ContentSecurityPolicy_allows_inline_style lib (ContentSecurityPolicy_from_headers hs') content nonce)
   \<and> ContentSecurityPolicy_allows_external_script (ContentSecurityPolicy_from_headers (hs @ hs')) og url nonce =
     (ContentSecurityPolicy_allows_external_script (ContentSecurityPolicy_from_headers hs) og url nonce
      \<and> ContentSecurityPolicy_allows_external_script (ContentSecurityPolicy_from_headers hs') og url nonce)"
  by (simp add: csp_checks from_headers_eq)

text \<open>C24: the policy \<open>default-src 'self'\<close>, as it arrives in a header, confines a document to its origin:
  fetches and scripts of any kind need a URL of the document's origin, which is not opaque, and
  inline scripts and styles are refused.\<close>

theorem csp_self_confines:
  "ContentSecurityPolicy_allows_fetch (ContentSecurityPolicy_from_headers self_policy) dir url og =
     (\<not> Origin_is_opaque og \<and> Origin_from_url url = og)
   \<and> ContentSecurityPolicy_allows_external_script (ContentSecurityPolicy_from_headers self_policy) og url nonce =
     (\<not> Origin_is_opaque og \<and> Origin_from_url url = og)
   \<and> \<not> ContentSecurityPolicy_allows_inline_script lib (ContentSecurityPolicy_from_headers self_policy) content nonce
   \<and> \<not> ContentSecurityPolicy_allows_inline_style lib (ContentSecurityPolicy_from_headers self_policy) content nonce"
proof -
  have "sources_for [(''default-src'', [KeywordSelf])] dir = Some [KeywordSelf]" for dir
    by (simp add: sources_for_def bt_get_def)
  then show ?thesis
    by (auto simp: self_policy_parsed csp_checks url_allowed_iff external_script_allowed_def inline_allowed_def
        inline_match_def url_matches_source_def url_origin_matches_def Let_def)
qed

text \<open>The comparison of digests, which looks at every byte, is equality, and so an inline script with a
  hash source is accepted exactly if it has the digest that the source encodes.\<close>

theorem digest_comparison_exact:
  "(constant_time_eq a b = (a = b))
   \<and> inline_allowed lib [Hash alg expected] (Some content) nonce
      = (sha_digest lib alg content = (case base64_standard_decode lib expected of Some d \<Rightarrow> d | None \<Rightarrow> []))"
  by (simp add: constant_time_eq_iff inline_allowed_def inline_match_def hash_matches_def base64_decode_or_empty_def)

text \<open>C25: a response passes the check of cross-origin sharing exactly if the first
  \<open>Access-Control-Allow-Origin\<close> header is byte for byte the origin of the request, or a wildcard for a request
  without credentials; one with credentials also needs some \<open>Access-Control-Allow-Credentials\<close> header that is
  \<open>true\<close>, whatever the others say. So the value is not put into lower case and the last of several headers does not
  win, which the comments of the module say. Scripts see exactly the headers that are safe or listed in some
  \<open>Access-Control-Expose-Headers\<close>, and never \<open>Set-Cookie\<close>.\<close>

theorem cors_response_exact:
  "(cors_check (CorsResponseHeaders_from_headers hs) og mode = Cors_Pass) =
     (\<exists>v vs. header_values ''access-control-allow-origin'' hs = v # vs
       \<and> (if mode = Cred_Include then str_trim v = og \<and> og \<noteq> ''*''
            \<and> list_ex (\<lambda>c. eq_ignore_ascii_case (str_trim c) ''true'') (header_values ''access-control-allow-credentials'' hs)
          else str_trim v = ''*'' \<or> str_trim v = og))
   \<and> cors_filtered_headers hs (expose_headers (CorsResponseHeaders_from_headers hs)) =
       filter (\<lambda>h. to_ascii_lowercase (fst h) \<notin> {''set-cookie'', ''set-cookie2''}
        \<and> (to_ascii_lowercase (fst h) \<in> {''cache-control'', ''content-language'', ''content-length'', ''content-type'',
              ''expires'', ''last-modified'', ''pragma''}
           \<or> fst h \<noteq> [] \<and> list_ex (\<lambda>v. list_ex (\<lambda>part. to_ascii_lowercase (str_trim part) = to_ascii_lowercase (fst h)) (str_split '','' v))
               (header_values ''access-control-expose-headers'' hs))) hs"
proof (intro conjI)
  have exposed: "set (foldl extend_lower_dedup xs vs) = set xs \<union> {s. s \<noteq> [] \<and>
      (\<exists>v\<in>set vs. \<exists>part\<in>set (str_split '','' v). s = to_ascii_lowercase (str_trim part))}" for xs vs
    by (induction vs arbitrary: xs) (auto simp: extend_lower_dedup_set)
  have empty: "to_ascii_lowercase s = [] \<longleftrightarrow> s = []" for s by (simp add: to_ascii_lowercase_def)
  let ?hdrs = "header_values ''access-control-expose-headers'' hs"
  have listed: "n \<in> set (expose_headers (CorsResponseHeaders_from_headers hs)) \<longleftrightarrow>
      n \<noteq> [] \<and> list_ex (\<lambda>v. list_ex (\<lambda>part. to_ascii_lowercase (str_trim part) = n) (str_split '','' v)) ?hdrs" for n
    unfolding CorsResponseHeaders_from_headers_def fold_cors_exposed CorsResponseHeaders_default_def
    by (simp add: exposed list_ex_iff) metis
  show "cors_filtered_headers hs (expose_headers (CorsResponseHeaders_from_headers hs)) =
       filter (\<lambda>h. to_ascii_lowercase (fst h) \<notin> {''set-cookie'', ''set-cookie2''}
        \<and> (to_ascii_lowercase (fst h) \<in> {''cache-control'', ''content-language'', ''content-length'', ''content-type'',
              ''expires'', ''last-modified'', ''pragma''}
           \<or> fst h \<noteq> [] \<and> list_ex (\<lambda>v. list_ex (\<lambda>part. to_ascii_lowercase (str_trim part) = to_ascii_lowercase (fst h)) (str_split '','' v))
               (header_values ''access-control-expose-headers'' hs))) hs"
    unfolding cors_filtered_headers_def CORS_FORBIDDEN_RESPONSE_HEADERS_def CORS_SAFELISTED_RESPONSE_HEADERS_def Let_def listed
    by (simp add: case_prod_unfold empty)
qed (auto simp: cors_check_Pass CorsResponseHeaders_from_headers_def fold_cors_origin fold_cors_credentials
    CorsResponseHeaders_default_def split: list.splits)

text \<open>Referrer policies are ordered by what they reveal. A policy that is stricter by the order of
  \<open>stricter\<close> never sends more than another, where a URL is more than an origin and an origin more than
  nothing; under the default the URL stays within the origin, and a request from a trustworthy to an
  untrustworthy origin carries nothing.\<close>

theorem referrer_policies_ordered:
  "(if stricter p q then reveals (resolve_referrer lib p s d) \<le> reveals (resolve_referrer lib q s d) else True)
   \<and> (if url_origin lib s = url_origin lib d then True
      else reveals (resolve_referrer lib ReferrerPolicy_default s d) \<le> 1
        \<and> (if is_potentially_trustworthy s \<and> \<not> is_potentially_trustworthy d
           then resolve_referrer lib ReferrerPolicy_default s d = RV_None else True))"
proof (intro conjI)
  show "if stricter p q then reveals (resolve_referrer lib p s d) \<le> reveals (resolve_referrer lib q s d) else True"
    using stricter_reveals_less [of p q lib s d] by simp
qed (simp add: ReferrerPolicy_default_def resolve_referrer_def Let_def)

text \<open>An \<open>Strict-Transport-Security\<close> header with any lifetime that fits 64 bits and \<open>includeSubDomains\<close>
  makes an entry that matches the host of the response and the names below it, without regard to case,
  and nothing else. The lower case of ASCII strings is assumed to be the ASCII one.\<close>

theorem hsts_header_covers_subdomains:
  assumes "n < 2 ^ 64" and "\<And>s. list_all (\<lambda>c. byte c < 128) s \<Longrightarrow> lower s = to_ascii_lowercase s"
    and "list_all (\<lambda>c. byte c < 128) host" and "list_all (\<lambda>c. byte c < 128) candidate"
  shows "\<exists>d. parse_strict_transport_security (''max-age='' @ show_nat n @ ''; includeSubDomains'') = Some d
    \<and> unat (hd_max_age_secs d) = n
    \<and> HstsEntry_matches lower (HstsEntry_from_directive lower host d) candidate =
      (eq_ignore_ascii_case candidate host \<or> subdomain (to_ascii_lowercase candidate) (to_ascii_lowercase host))"
proof -
  let ?d = "\<lparr>hd_max_age_secs = of_nat n, hd_include_sub_domains = True, hd_preload = False\<rparr>"
  have "parse_strict_transport_security (''max-age='' @ show_nat n @ ''; includeSubDomains'') = Some ?d"
    by (rule hsts_parsed [OF assms(1)])
  moreover have "unat (hd_max_age_secs ?d) = n" using assms(1) by (simp add: unat_of_nat take_bit_eq_mod)
  ultimately show ?thesis using hsts_entry_matches [OF assms(2-4), of ?d] by auto
qed

theorem hsts_header_covers_subdomains_witness:
  "\<exists>d. parse_strict_transport_security ''max-age=60; includeSubDomains'' = Some d
    \<and> HstsEntry_matches to_ascii_lowercase (HstsEntry_from_directive to_ascii_lowercase ''a.org'' d) ''www.A.org''"
proof -
  have "show_nat 60 = ''60''" by (simp add: show_nat.simps) code_simp
  moreover have "subdomain (to_ascii_lowercase ''www.A.org'') (to_ascii_lowercase ''a.org'')"
    unfolding subdomain_def by (rule exI [of _ "''www''"]) code_simp
  ultimately show ?thesis
    using hsts_header_covers_subdomains [of 60 to_ascii_lowercase "''a.org''" "''www.A.org''"] by (auto simp: byte_def)
qed

text \<open>Fetch metadata and isolation policies are read back as they are written: the four headers of a
  request in their usual order, and the keywords of the opener, embedder and resource policies, also
  with parameters after them.\<close>

theorem isolation_headers_roundtrip:
  "SecFetchHeaders_parse [(''Sec-Fetch-Site'', SecFetchSite_as_str (sf_site h)), (''Sec-Fetch-Mode'', SecFetchMode_as_str (sf_mode h)),
     (''Sec-Fetch-Dest'', SecFetchDest_as_str (sf_dest h)), (''Sec-Fetch-User'', SecFetchUser_as_str (sf_user h))] = h
   \<and> Coop_parse (Coop_keyword co) = (co, None) \<and> Coep_parse (Coep_keyword ce) = (ce, None) \<and> Corp_parse (Corp_keyword cr) = Some cr
   \<and> Coop_parse (Coop_keyword co @ CHR '';'' # params) = (co, find_report_to params)
   \<and> Coep_parse (Coep_keyword ce @ CHR '';'' # params) = (ce, find_report_to params)
   \<and> Corp_parse (Corp_keyword cr @ CHR '';'' # params) = Some cr"
proof -
  have "to_ascii_lowercase ''Sec-Fetch-Site'' = ''sec-fetch-site''" "to_ascii_lowercase ''Sec-Fetch-Mode'' = ''sec-fetch-mode''"
    "to_ascii_lowercase ''Sec-Fetch-Dest'' = ''sec-fetch-dest''" "to_ascii_lowercase ''Sec-Fetch-User'' = ''sec-fetch-user''"
    by code_simp+
  then show ?thesis
    by (simp add: SecFetchHeaders_parse_def sec_fetch_header_def SecFetch_parse policy_parse Corp_parse_keyword
        SecFetchHeaders_default_def Let_def)
qed

text \<open>The resource policies agree with the site that a request announces. \<open>same-origin\<close> admits exactly the
  requests that are announced as such, \<open>same-site\<close> those of the same site and scheme; and a document
  with \<open>require-corp\<close> receives a resource without sharing exactly if it is of its origin or
  its policy admits the document, so that one of another site needs \<open>cross-origin\<close>.\<close>

theorem resource_policy_agrees_with_site:
  "(check_corp dns a b Corp_SameOrigin = Corp_Allow) = (classify_site dns (Some a) b = SFS_SameOrigin)
   \<and> (check_corp dns a b Corp_SameSite = Corp_Allow) =
      (og_scheme a = og_scheme b \<and> (classify_site dns (Some a) b = SFS_SameOrigin \<or> classify_site dns (Some a) b = SFS_SameSite))
   \<and> (coep_corp_gate dns Coep_RequireCorp False a b corp = Gate_Allow) =
      (classify_site dns (Some a) b = SFS_SameOrigin \<or> (\<exists>c. corp = Some c \<and> check_corp dns a b c = Corp_Allow))
   \<and> (if classify_site dns (Some a) b = SFS_CrossSite
      then (coep_corp_gate dns Coep_RequireCorp False a b corp = Gate_Allow) = (corp = Some Corp_CrossOrigin) else True)"
proof -
  have same: "same_origin_tuple a b \<longleftrightarrow> classify_site dns (Some a) b = SFS_SameOrigin"
    using corp_same_origin_iff [of dns a b] by (simp add: check_corp_def split: if_splits)
  have gate: "(coep_corp_gate dns Coep_RequireCorp False a b corp = Gate_Allow) =
      (classify_site dns (Some a) b = SFS_SameOrigin \<or> (\<exists>c. corp = Some c \<and> check_corp dns a b c = Corp_Allow))"
    by (auto simp: coep_corp_gate_def same Let_def split: option.splits CorpOutcome.splits)
  have "(\<exists>c. corp = Some c \<and> check_corp dns a b c = Corp_Allow) = (corp = Some Corp_CrossOrigin)"
    if "classify_site dns (Some a) b = SFS_CrossSite"
  proof -
    have "check_corp dns a b c = Corp_Allow \<longleftrightarrow> c = Corp_CrossOrigin" for c
      using that corp_same_origin_iff [of dns a b] corp_same_site_iff [of dns a b]
      by (cases c) (simp_all add: check_corp_def)
    then show ?thesis by auto
  qed
  with gate corp_same_origin_iff corp_same_site_iff show ?thesis by auto
qed

end
