(* ===== verification/WebSocket.thy ===== *)
theory WebSocket
  imports Rust_Str
begin

section \<open>Web sockets\<close>

text \<open>
  \<open>vixen-net/src/websocket.rs\<close>: the handshake, the header of a frame, masking and close codes. A frame is
  a list of bytes as words. SHA-1 and base64 are third-party (\<open>ws_crypto\<close>). The lemmas relate the parser of
  frame headers to the encoding that RFC 6455 section 5.2 gives.
\<close>

unbundle bit_operations_syntax

definition WEBSOCKET_GUID :: string where "WEBSOCKET_GUID = ''258EAFA5-E914-47DA-95CA-C5AB0DC85B11''"
definition WEBSOCKET_VERSION :: nat where "WEBSOCKET_VERSION = 13"

datatype WebSocketError = InvalidHandshake string | AcceptMismatch | InvalidFrame string | InvalidCloseCode u16

subsection \<open>Handshake\<close>

record ws_crypto =
  sha1 :: "string \<Rightarrow> string"
  base64_encode :: "string \<Rightarrow> string"
  base64_decode :: "string \<Rightarrow> string option"

definition compute_accept :: "ws_crypto \<Rightarrow> string \<Rightarrow> string" where
  "compute_accept lib client_key = base64_encode lib (sha1 lib (client_key @ WEBSOCKET_GUID))"

definition ws_header :: "(string \<times> string) list \<Rightarrow> string \<Rightarrow> string option" where
  "ws_header headers name =
     map_option (\<lambda>(_, v). str_trim v) (List.find (\<lambda>(n, _). eq_ignore_ascii_case n name) headers)"

definition token_list_contains :: "string \<Rightarrow> string \<Rightarrow> bool" where
  "token_list_contains xs token = list_ex (\<lambda>t. eq_ignore_ascii_case (str_trim t) token) (str_split '','' xs)"

definition validate_client_handshake :: "ws_crypto \<Rightarrow> (string \<times> string) list \<Rightarrow> (string, WebSocketError) result" where
  "validate_client_handshake lib headers =
     (case ws_header headers ''Upgrade'' of
        None \<Rightarrow> Err (InvalidHandshake ''missing Upgrade'')
      | Some upgrade \<Rightarrow>
     if \<not> token_list_contains upgrade ''websocket'' then Err (InvalidHandshake ''Upgrade is not websocket'')
     else (case ws_header headers ''Connection'' of
        None \<Rightarrow> Err (InvalidHandshake ''missing Connection'')
      | Some connection \<Rightarrow>
     if \<not> token_list_contains connection ''upgrade'' then Err (InvalidHandshake ''Connection lacks Upgrade'')
     else (case ws_header headers ''Sec-WebSocket-Version'' of
        None \<Rightarrow> Err (InvalidHandshake ''missing Sec-WebSocket-Version'')
      | Some version \<Rightarrow>
     if str_trim version \<noteq> show_nat WEBSOCKET_VERSION then Err (InvalidHandshake ''Sec-WebSocket-Version is not 13'')
     else (case ws_header headers ''Sec-WebSocket-Key'' of
        None \<Rightarrow> Err (InvalidHandshake ''missing Sec-WebSocket-Key'')
      | Some key \<Rightarrow>
     (case base64_decode lib key of
        None \<Rightarrow> Err (InvalidHandshake ''Sec-WebSocket-Key is not valid base64'')
      | Some decoded \<Rightarrow>
     if length decoded \<noteq> 16 then Err (InvalidHandshake ''Sec-WebSocket-Key must decode to 16 bytes'')
     else Ok decoded)))))"

definition validate_server_response :: "ws_crypto \<Rightarrow> u16 \<Rightarrow> (string \<times> string) list \<Rightarrow> string \<Rightarrow> (unit, WebSocketError) result" where
  "validate_server_response lib status headers client_key =
     (if status \<noteq> 101 then Err (InvalidHandshake ''status is not 101'')
     else (case ws_header headers ''Upgrade'' of
        None \<Rightarrow> Err (InvalidHandshake ''missing Upgrade'')
      | Some upgrade \<Rightarrow>
     if \<not> token_list_contains upgrade ''websocket'' then Err (InvalidHandshake ''Upgrade is not websocket'')
     else (case ws_header headers ''Connection'' of
        None \<Rightarrow> Err (InvalidHandshake ''missing Connection'')
      | Some connection \<Rightarrow>
     if \<not> token_list_contains connection ''upgrade'' then Err (InvalidHandshake ''Connection lacks Upgrade'')
     else (case ws_header headers ''Sec-WebSocket-Accept'' of
        None \<Rightarrow> Err (InvalidHandshake ''missing Sec-WebSocket-Accept'')
      | Some accept \<Rightarrow>
     if accept \<noteq> compute_accept lib client_key then Err AcceptMismatch else Ok ()))))"

subsection \<open>Frame headers\<close>

datatype Opcode = Continuation | Text | Binary | Close | Ping | Pong

definition Opcode_from_byte :: "u8 \<Rightarrow> Opcode option" where
  "Opcode_from_byte b =
     (let n = b AND 0x0F in
      if n = 0x0 then Some Continuation
      else if n = 0x1 then Some Text
      else if n = 0x2 then Some Binary
      else if n = 0x8 then Some Close
      else if n = 0x9 then Some Ping
      else if n = 0xA then Some Pong
      else None)"

primrec Opcode_as_byte :: "Opcode \<Rightarrow> u8" where
  "Opcode_as_byte Continuation = 0x0"
| "Opcode_as_byte Text = 0x1"
| "Opcode_as_byte Binary = 0x2"
| "Opcode_as_byte Close = 0x8"
| "Opcode_as_byte Ping = 0x9"
| "Opcode_as_byte Pong = 0xA"

definition Opcode_is_control :: "Opcode \<Rightarrow> bool" where
  "Opcode_is_control op \<longleftrightarrow> op = Close \<or> op = Ping \<or> op = Pong"

record FrameHeader =
  fh_fin :: bool
  fh_opcode :: Opcode
  fh_masked :: bool
  fh_payload_len :: u64
  fh_mask_key :: "u8 list"

definition FrameHeader_header_len :: "FrameHeader \<Rightarrow> usize" where
  "FrameHeader_header_len h =
     2 + (if fh_payload_len h \<le> 125 then 0 else if fh_payload_len h \<le> 65535 then 2 else 8) + (if fh_masked h then 4 else 0)"

text \<open>\<open>u16::from_be_bytes\<close> and \<open>u64::from_be_bytes\<close>, as \<open>u64\<close>.\<close>

definition be_value :: "u8 list \<Rightarrow> nat" where
  "be_value bs = foldl (\<lambda>n b. n * 256 + unat b) 0 bs"

definition from_be_bytes :: "u8 list \<Rightarrow> u64" where
  "from_be_bytes bs = of_nat (be_value bs)"

definition payload_length :: "u8 list \<Rightarrow> u8 \<Rightarrow> (u64 \<times> usize, WebSocketError) result" where
  "payload_length bytes len7 =
     (if len7 \<le> 125 then Ok (ucast len7, 2)
      else if len7 = 126 then
        (if length bytes < 4 then Err (InvalidFrame ''truncated 16-bit length'')
         else let len = from_be_bytes (take 2 (drop 2 bytes)) in
           if len \<le> 125 then Err (InvalidFrame ''non-canonical 16-bit length'') else Ok (len, 4))
      else
        (if length bytes < 10 then Err (InvalidFrame ''truncated 64-bit length'')
         else let len = from_be_bytes (take 8 (drop 2 bytes)) in
           if drop_bit 63 len \<noteq> 0 then Err (InvalidFrame ''64-bit length high bit set'')
           else if len \<le> 65535 then Err (InvalidFrame ''non-canonical 64-bit length'') else Ok (len, 10)))"

definition parse_frame_header :: "u8 list \<Rightarrow> (FrameHeader \<times> usize, WebSocketError) result" where
  "parse_frame_header bytes =
     (if length bytes < 2 then Err (InvalidFrame ''frame shorter than 2 bytes'')
      else
        let b0 = bytes ! 0; b1 = bytes ! 1 in
        if b0 AND 0x70 \<noteq> 0 then Err (InvalidFrame ''reserved RSV bits set'')
        else
          let fin = (b0 AND 0x80 \<noteq> 0) in
          case Opcode_from_byte b0 of
            None \<Rightarrow> Err (InvalidFrame ''reserved opcode'')
          | Some opcode \<Rightarrow>
              (let masked = (b1 AND 0x80 \<noteq> 0); len7 = b1 AND 0x7F in
               case payload_length bytes len7 of
                 Err e \<Rightarrow> Err e
               | Ok (payload_len, consumed) \<Rightarrow>
                   if Opcode_is_control opcode \<and> 125 < payload_len then Err (InvalidFrame ''control frame > 125 bytes'')
                   else if Opcode_is_control opcode \<and> \<not> fin then Err (InvalidFrame ''control frame fragmented (FIN=0)'')
                   else if masked \<and> length bytes < consumed + 4 then Err (InvalidFrame ''truncated mask key'')
                   else Ok (\<lparr>fh_fin = fin, fh_opcode = opcode, fh_masked = masked, fh_payload_len = payload_len,
                       fh_mask_key = (if masked then take 4 (drop consumed bytes) else [0, 0, 0, 0])\<rparr>,
                     consumed + (if masked then 4 else 0))))"

definition apply_mask :: "u8 list \<Rightarrow> u8 list \<Rightarrow> u8 list" where
  "apply_mask payload mask_key = map (\<lambda>(i, b). b XOR mask_key ! (i AND 3)) (enumerate 0 payload)"

subsection \<open>Close codes\<close>

type_synonym CloseCode = u16

definition validate_close_code :: "u16 \<Rightarrow> (CloseCode, WebSocketError) result" where
  "validate_close_code code =
     (if \<not> (1000 \<le> code \<and> code < 5000) then Err (InvalidCloseCode code)
      else if code \<in> {1004, 1005, 1006, 1012, 1013, 1014} then Err (InvalidCloseCode code)
      else if 1000 \<le> code \<and> code \<le> 1999 \<and> code \<notin> {1000, 1001, 1002, 1003, 1007, 1008, 1010, 1011, 1015}
      then Err (InvalidCloseCode code)
      else if 2000 \<le> code \<and> code \<le> 2999 then Err (InvalidCloseCode code)
      else Ok code)"

subsection \<open>Big-endian numbers\<close>

lemma byte_bound: "unat (b :: u8) < 256"
proof -
  have "unat b < 2 ^ LENGTH(8)" by (rule unsigned_less)
  then show ?thesis by simp
qed

lemma be_value_simps [simp]: "be_value [] = 0" "be_value (bs @ [b]) = be_value bs * 256 + unat b"
  by (simp_all add: be_value_def)

primrec be_bytes :: "nat \<Rightarrow> nat \<Rightarrow> u8 list" where
  "be_bytes 0 n = []"
| "be_bytes (Suc k) n = be_bytes k (n div 256) @ [of_nat n]"

lemma be_bytes_length [simp]: "length (be_bytes k n) = k"
  by (induction k arbitrary: n) simp_all

lemma be_value_bound: "be_value bs < 256 ^ length bs"
proof (induction bs rule: rev_induct)
  case (snoc b bs)
  have "unat b < 256" by (rule byte_bound)
  with snoc show ?case by simp
qed simp

lemma be_value_be_bytes: "n < 256 ^ k \<Longrightarrow> be_value (be_bytes k n) = n"
proof (induction k arbitrary: n)
  case (Suc k)
  then have "n div 256 < 256 ^ k" by (simp add: less_mult_imp_div_less mult.commute)
  moreover have "unat (of_nat n :: u8) = n mod 256" by (simp add: unat_of_nat take_bit_eq_mod)
  ultimately show ?case by (simp add: Suc.IH)
qed simp

lemma be_bytes_be_value: "be_bytes (length bs) (be_value bs) = bs"
proof (induction bs rule: rev_induct)
  case (snoc b bs)
  have "unat b < 256" by (rule byte_bound)
  moreover have "(of_nat (be_value bs * 256 + unat b) :: u8) = b"
  proof -
    have "(256 :: u8) = 0" by simp
    then show ?thesis by (simp only: of_nat_add of_nat_mult of_nat_numeral mult_zero_right add_0 of_nat_unat ucast_id)
  qed
  ultimately show ?case using snoc by (simp del: of_nat_add of_nat_mult)
qed simp

subsection \<open>The encoding of a header\<close>

definition len7_of :: "nat \<Rightarrow> nat" where
  "len7_of n = (if n \<le> 125 then n else if n \<le> 65535 then 126 else 127)"

definition ext_bytes :: "nat \<Rightarrow> u8 list" where
  "ext_bytes n = (if n \<le> 125 then [] else if n \<le> 65535 then be_bytes 2 n else be_bytes 8 n)"

definition encode_frame_header :: "FrameHeader \<Rightarrow> u8 list" where
  "encode_frame_header h =
     (let n = unat (fh_payload_len h) in
      [(if fh_fin h then 128 else 0) + Opcode_as_byte (fh_opcode h), (if fh_masked h then 128 else 0) + of_nat (len7_of n)]
      @ ext_bytes n
      @ (if fh_masked h then fh_mask_key h else []))"

definition wf_frame_header :: "FrameHeader \<Rightarrow> bool" where
  "wf_frame_header h \<longleftrightarrow> length (fh_mask_key h) = 4 \<and> (fh_masked h \<or> fh_mask_key h = [0, 0, 0, 0])
     \<and> unat (fh_payload_len h) < 2 ^ 63
     \<and> (fh_opcode h \<in> {Close, Ping, Pong} \<longrightarrow> fh_fin h \<and> unat (fh_payload_len h) \<le> 125)"

lemma control_opcodes: "Opcode_is_control op \<longleftrightarrow> op \<in> {Close, Ping, Pong}"
  by (auto simp: Opcode_is_control_def)

lemma byte_cases: "list_all P (map of_nat [0..<256]) \<Longrightarrow> P (b :: u8)"
proof -
  assume "list_all P (map of_nat [0..<256])"
  moreover have "b = of_nat (unat b)" "unat b \<in> set [0..<256]" using byte_bound [of b] by simp_all
  ultimately show "P b" unfolding list_all_iff by (metis image_eqI list.set_map)
qed

lemma first_byte:
  "b0 AND 0x70 = 0 \<and> Opcode_from_byte b0 = Some op \<and> (b0 AND 0x80 \<noteq> 0) = fin
     \<longleftrightarrow> b0 = (if fin then 128 else 0) + Opcode_as_byte op"
proof -
  have "b0 AND 0x70 = 0 \<and> Opcode_from_byte b0 \<noteq> None
      \<longrightarrow> b0 = (if b0 AND 0x80 \<noteq> 0 then 128 else 0) + Opcode_as_byte (the (Opcode_from_byte b0))"
    by (rule byte_cases) code_simp
  moreover have "b0 AND 0x70 = 0 \<and> Opcode_from_byte b0 = Some op \<and> (b0 AND 0x80 \<noteq> 0) = fin"
    if "b0 = (if fin then 128 else 0) + Opcode_as_byte op"
    unfolding that by (cases op; cases fin) (simp_all add: Opcode_from_byte_def)
  ultimately show ?thesis by auto
qed

lemma second_byte:
  "((b1 :: u8) AND 0x80 \<noteq> 0) = m \<and> unat (b1 AND 0x7F) = n \<longleftrightarrow> n < 128 \<and> b1 = (if m then 128 else 0) + of_nat n"
proof -
  have "unat (b1 AND 0x7F) < 128 \<and> b1 = (if b1 AND 0x80 \<noteq> 0 then 128 else 0) + of_nat (unat (b1 AND 0x7F))"
    by (rule byte_cases) code_simp
  moreover have "(b1 AND 0x80 \<noteq> 0) = m \<and> unat (b1 AND 0x7F) = n" if "n < 128" "b1 = (if m then 128 else 0) + of_nat n"
  proof -
    have "list_all (\<lambda>n. \<forall>m \<in> {True, False}. (((if m then 128 else 0) + of_nat n :: u8) AND 0x80 \<noteq> 0) = m
        \<and> unat (((if m then 128 else 0) + of_nat n :: u8) AND 0x7F) = n) [0..<128]" by code_simp
    with that show ?thesis by (auto simp: list_all_iff)
  qed
  ultimately show ?thesis by auto
qed

lemma from_be_bytes_unat:
  assumes "length bs \<le> 8"
  shows "unat (from_be_bytes bs) = be_value bs"
proof -
  have "be_value bs < 256 ^ 8"
    using be_value_bound [of bs] power_increasing [OF assms, of "256 :: nat"] by simp
  then show ?thesis by (simp add: from_be_bytes_def unat_of_nat take_bit_eq_mod)
qed

lemma high_bit: "drop_bit 63 (w :: u64) = 0 \<longleftrightarrow> unat w < 2 ^ 63"
proof -
  have "drop_bit 63 w = 0 \<longleftrightarrow> unat (drop_bit 63 w) = unat (0 :: u64)" by (rule word_unat_eq_iff)
  also have "unat (drop_bit 63 w) = unat w div 2 ^ 63" by (subst unat_drop_bit_eq) (rule drop_bit_eq_div)
  also have "unat w div 2 ^ 63 = unat (0 :: u64) \<longleftrightarrow> unat w < 2 ^ 63" by (simp add: div_eq_0_iff)
  finally show ?thesis .
qed

text \<open>The length of a frame is read exactly from its shortest encoding.\<close>

lemma payload_length_Ok:
  assumes "unat len7 < 128"
  shows "payload_length bytes len7 = Ok (len, consumed) \<longleftrightarrow>
    unat len7 = len7_of (unat len) \<and> unat len < 2 ^ 63 \<and> consumed = 2 + length (ext_bytes (unat len))
    \<and> take (length (ext_bytes (unat len))) (drop 2 bytes) = ext_bytes (unat len)"
proof -
  have le: "(w :: u64) \<le> 125 \<longleftrightarrow> unat w \<le> 125" "w \<le> 65535 \<longleftrightarrow> unat w \<le> 65535" for w
    by (simp_all add: word_le_nat_alt)
  have le7: "len7 \<le> 125 \<longleftrightarrow> unat len7 \<le> 125" "len7 = 126 \<longleftrightarrow> unat len7 = 126"
    by (simp_all add: word_le_nat_alt word_unat_eq_iff)
  have word: "len = ucast len7 \<longleftrightarrow> unat len = unat len7"
    using byte_bound [of len7] by (simp add: word_unat_eq_iff unsigned_ucast_eq take_bit_eq_mod)
  have bytes: "from_be_bytes (take k (drop 2 bytes)) = len \<longleftrightarrow> take k (drop 2 bytes) = be_bytes k (unat len) \<and> unat len < 256 ^ k"
    if "k \<le> 8" "2 + k \<le> length bytes" for k
  proof -
    have n: "length (take k (drop 2 bytes)) = k" using that by simp
    then have "unat (from_be_bytes (take k (drop 2 bytes))) = be_value (take k (drop 2 bytes))"
      using that by (intro from_be_bytes_unat) simp
    then have "from_be_bytes (take k (drop 2 bytes)) = len \<longleftrightarrow> be_value (take k (drop 2 bytes)) = unat len"
      by (simp add: word_unat_eq_iff)
    also have "\<dots> \<longleftrightarrow> take k (drop 2 bytes) = be_bytes k (unat len) \<and> unat len < 256 ^ k"
      using be_bytes_be_value [of "take k (drop 2 bytes)"] be_value_bound [of "take k (drop 2 bytes)"]
        be_value_be_bytes [of "unat len" k] n by auto
    finally show ?thesis .
  qed
  have short: "take k (drop 2 bytes) \<noteq> be_bytes k n" if "length bytes < 2 + k" "0 < k" for k n
  proof
    assume "take k (drop 2 bytes) = be_bytes k n"
    then have "length (take k (drop 2 bytes)) = k" by simp
    with that show False by simp
  qed
  consider "unat len7 \<le> 125" | "unat len7 = 126" | "unat len7 = 127" using assms by linarith
  then show ?thesis
  proof cases
    case 1
    then have "len7 \<le> 125" by (simp add: le7)
    then have "payload_length bytes len7 = Ok (len, consumed) \<longleftrightarrow> unat len = unat len7 \<and> consumed = 2"
      by (auto simp: payload_length_def word [symmetric])
    with 1 show ?thesis by (auto simp: len7_of_def ext_bytes_def)
  next
    case 2
    then show ?thesis
      using bytes [of 2] short [of 2] by (auto simp: payload_length_def le7 le Let_def len7_of_def ext_bytes_def not_less)
  next
    case 3
    then show ?thesis
      using bytes [of 8] short [of 8] by (auto simp: payload_length_def le7 le high_bit Let_def len7_of_def ext_bytes_def not_less)
  qed
qed

end
