(* ===== verification/WebSocket_Properties.thy ===== *)
theory WebSocket_Properties
  imports WebSocket
begin

section \<open>Properties of web sockets\<close>

text \<open>
  The parser of frame headers is the inverse of the encoding in RFC 6455, masking undoes itself, and the
  two sides of the handshake agree.
\<close>

subsection \<open>Frame headers\<close>

text \<open>A header is accepted exactly if its fields can be read.\<close>

lemma parse_frame_header_fields:
  "parse_frame_header (b0 # b1 # rest) = Ok (h, n) \<longleftrightarrow>
     (let k = unat (fh_payload_len h); m = fh_masked h; l = length (ext_bytes k) in
      b0 = (if fh_fin h then 128 else 0) + Opcode_as_byte (fh_opcode h)
      \<and> b1 = (if m then 128 else 0) + of_nat (len7_of k) \<and> k < 2 ^ 63 \<and> take l rest = ext_bytes k
      \<and> (Opcode_is_control (fh_opcode h) \<longrightarrow> k \<le> 125 \<and> fh_fin h)
      \<and> (m \<longrightarrow> l + 4 \<le> length rest) \<and> fh_mask_key h = (if m then take 4 (drop l rest) else [0, 0, 0, 0])
      \<and> n = 2 + l + (if m then 4 else 0))"
proof -
  let ?k = "unat (fh_payload_len h)" and ?m = "fh_masked h" and ?bytes = "b0 # b1 # rest"
  let ?L = "length (ext_bytes ?k)"
  have len: "unat (b1 AND 0x7F) < 128" using second_byte [of b1 _ "unat (b1 AND 0x7F)"] by blast
  have split: "(Ok (a, b) = Ok (h, n)) \<longleftrightarrow> fh_fin h = fh_fin a \<and> fh_opcode h = fh_opcode a \<and> ?m = fh_masked a
      \<and> fh_payload_len h = fh_payload_len a \<and> fh_mask_key h = fh_mask_key a \<and> n = b" for a b
    by (cases h; cases a) auto
  have "parse_frame_header ?bytes = Ok (h, n) \<longleftrightarrow>
      (b0 AND 0x70 = 0 \<and> Opcode_from_byte b0 = Some (fh_opcode h) \<and> (b0 AND 0x80 \<noteq> 0) = fh_fin h)
      \<and> (b1 AND 0x80 \<noteq> 0) = ?m
      \<and> (\<exists>consumed. payload_length ?bytes (b1 AND 0x7F) = Ok (fh_payload_len h, consumed)
          \<and> (Opcode_is_control (fh_opcode h) \<longrightarrow> fh_payload_len h \<le> 125 \<and> fh_fin h)
          \<and> (?m \<longrightarrow> consumed + 4 \<le> length ?bytes)
          \<and> fh_mask_key h = (if ?m then take 4 (drop consumed ?bytes) else [0, 0, 0, 0])
          \<and> n = consumed + (if ?m then 4 else 0))"
    unfolding parse_frame_header_def Let_def
    by (cases "Opcode_from_byte b0"; cases "payload_length ?bytes (b1 AND 0x7F)")
      (auto simp: split not_less not_le split: if_splits)
  also have "(\<exists>consumed. payload_length ?bytes (b1 AND 0x7F) = Ok (fh_payload_len h, consumed) \<and> Q consumed) \<longleftrightarrow>
      unat (b1 AND 0x7F) = len7_of ?k \<and> ?k < 2 ^ 63 \<and> take ?L rest = ext_bytes ?k \<and> Q (2 + ?L)" for Q
    unfolding payload_length_Ok [OF len] by auto
  also have "(b1 AND 0x80 \<noteq> 0) = ?m \<and> unat (b1 AND 0x7F) = len7_of ?k \<and> X \<longleftrightarrow>
      b1 = (if ?m then 128 else 0) + of_nat (len7_of ?k) \<and> X" for X
    using second_byte [of b1 ?m "len7_of ?k"] by (auto simp: len7_of_def)
  also have "fh_payload_len h \<le> 125 \<longleftrightarrow> ?k \<le> 125" by (simp add: word_le_nat_alt)
  also have "2 + ?L + 4 \<le> length ?bytes \<longleftrightarrow> ?L + 4 \<le> length rest" by auto
  also have "drop (2 + ?L) ?bytes = drop ?L rest" by simp
  finally show ?thesis unfolding first_byte Let_def .
qed

lemma append_take_eq:
  "take (length xs) zs = xs \<and> take (length ys) (drop (length xs) zs) = ys \<longleftrightarrow> take (length (xs @ ys)) zs = xs @ ys"
proof
  assume eq: "take (length (xs @ ys)) zs = xs @ ys"
  then have "take (length xs) (take (length (xs @ ys)) zs) = xs" by simp
  moreover have "drop (length xs) (take (length (xs @ ys)) zs) = ys" using eq by simp
  ultimately show "take (length xs) zs = xs \<and> take (length ys) (drop (length xs) zs) = ys"
    by (simp add: drop_take min_def split: if_splits)
qed (simp add: take_add)

lemma encode_frame_header_eq:
  "encode_frame_header h =
     ((if fh_fin h then 128 else 0) + Opcode_as_byte (fh_opcode h))
     # ((if fh_masked h then 128 else 0) + of_nat (len7_of (unat (fh_payload_len h))))
     # ext_bytes (unat (fh_payload_len h)) @ (if fh_masked h then fh_mask_key h else [])"
  by (simp add: encode_frame_header_def Let_def)

lemma encode_frame_header_length:
  "wf_frame_header h \<Longrightarrow> length (encode_frame_header h) = FrameHeader_header_len h"
  by (auto simp: wf_frame_header_def encode_frame_header_eq FrameHeader_header_len_def ext_bytes_def word_le_nat_alt)

lemma parse_frame_header_Ok:
  "parse_frame_header bytes = Ok (h, n) \<longleftrightarrow>
     wf_frame_header h \<and> n = FrameHeader_header_len h \<and> take n bytes = encode_frame_header h"
proof (cases "length bytes < 2")
  case True
  have "2 \<le> length (encode_frame_header h)" by (simp add: encode_frame_header_eq)
  moreover have "length (take n bytes) < 2" using True by simp
  ultimately have "take n bytes \<noteq> encode_frame_header h" by (metis linorder_not_le)
  with True show ?thesis by (simp add: parse_frame_header_def)
next
  case False
  then obtain b0 b1 rest where bytes: "bytes = b0 # b1 # rest"
    by (cases bytes; cases "tl bytes") auto
  let ?k = "unat (fh_payload_len h)" and ?m = "fh_masked h"
  let ?key = "if ?m then fh_mask_key h else []" and ?L = "length (ext_bytes ?k)"
  have L: "?L + 4 \<le> length rest \<longleftrightarrow> length (take 4 (drop ?L rest)) = 4" by (auto simp: min_def)
  have key: "(?m \<longrightarrow> ?L + 4 \<le> length rest) \<and> fh_mask_key h = (if ?m then take 4 (drop ?L rest) else [0, 0, 0, 0])
      \<longleftrightarrow> length (fh_mask_key h) = 4 \<and> (?m \<or> fh_mask_key h = [0, 0, 0, 0]) \<and> take (length ?key) (drop ?L rest) = ?key"
    unfolding L by (cases ?m) (auto simp del: length_take)
  have n: "n = FrameHeader_header_len h \<longleftrightarrow> n = 2 + ?L + (if ?m then 4 else 0)"
    by (simp add: FrameHeader_header_len_def ext_bytes_def word_le_nat_alt)
  have taken: "take n bytes = encode_frame_header h \<longleftrightarrow> b0 = (if fh_fin h then 128 else 0) + Opcode_as_byte (fh_opcode h)
      \<and> b1 = (if ?m then 128 else 0) + of_nat (len7_of ?k) \<and> take ?L rest = ext_bytes ?k \<and> take (length ?key) (drop ?L rest) = ?key"
    if "n = 2 + ?L + (if ?m then 4 else 0)" "length (fh_mask_key h) = 4"
    using that append_take_eq [of "ext_bytes ?k" rest ?key] by (auto simp: bytes encode_frame_header_eq)
  show ?thesis
    unfolding bytes parse_frame_header_fields Let_def wf_frame_header_def control_opcodes [symmetric] using key n taken [unfolded bytes] by argo
qed

subsection \<open>Masking and close codes\<close>

lemma apply_mask_twice: "apply_mask (apply_mask payload key) key = payload"
  by (rule nth_equalityI) (simp_all add: apply_mask_def nth_enumerate_eq xor.assoc)

text \<open>The code 1015, which RFC 6455 reserves for use outside frames, is accepted, and 1009 (message too big), which
  it defines, is rejected.\<close>

lemma close_codes_odd: "validate_close_code 1015 = Ok 1015" "validate_close_code 1009 = Err (InvalidCloseCode 1009)"
  by (simp_all add: validate_close_code_def)

subsection \<open>The handshake\<close>

lemma handshake_words:
  "eq_ignore_ascii_case ''Upgrade'' ''Upgrade''" "eq_ignore_ascii_case ''Connection'' ''Connection''"
  "\<not> eq_ignore_ascii_case ''Upgrade'' ''Connection''" "\<not> eq_ignore_ascii_case ''Upgrade'' ''Sec-WebSocket-Accept''"
  "\<not> eq_ignore_ascii_case ''Connection'' ''Sec-WebSocket-Accept''"
  "eq_ignore_ascii_case ''Sec-WebSocket-Accept'' ''Sec-WebSocket-Accept''"
  "eq_ignore_ascii_case ''websocket'' ''websocket''" "eq_ignore_ascii_case ''Upgrade'' ''upgrade''"
  by code_simp+

definition upgrade_response :: "ws_crypto \<Rightarrow> string \<Rightarrow> (string \<times> string) list" where
  "upgrade_response lib client_key = [(''Upgrade'', ''websocket''), (''Connection'', ''Upgrade''),
     (''Sec-WebSocket-Accept'', compute_accept lib client_key)]"

subsection \<open>The properties\<close>

text \<open>C39: the header of a frame is parsed exactly. The parser accepts precisely the inputs that begin with the
  encoding of a header with a length below \<open>2 ^ 63\<close>, control frames being short and final, and returns
  that header and the number of its bytes, which is also what \<open>header_len\<close> computes. So every
  header is read back as it was written, and no input has two readings or a longer than necessary length.
  Masked and unmasked frames are accepted alike, although the comment of the parser says that it enforces masks on client frames;
  it is not told whose frame it reads.\<close>

theorem frame_header_roundtrip:
  "(parse_frame_header bytes = Ok (h, n)) =
     (wf_frame_header h \<and> n = FrameHeader_header_len h \<and> take n bytes = encode_frame_header h)
   \<and> (if wf_frame_header h then parse_frame_header (encode_frame_header h @ payload) = Ok (h, FrameHeader_header_len h)
        \<and> apply_mask (apply_mask payload (fh_mask_key h)) (fh_mask_key h) = payload else True)"
  using encode_frame_header_length [of h]
  by (simp add: parse_frame_header_Ok apply_mask_twice)

text \<open>The client accepts the response of a server to its handshake. If SHA-1 and base64 give a printable
  text, the headers with the computed \<open>Sec-WebSocket-Accept\<close> pass the client's check for the same
  key, and fail it for every key with another digest.\<close>

theorem handshake_agrees:
  assumes "\<And>s. base64_encode lib s \<noteq> [] \<and> list_all printable (base64_encode lib s)"
  shows "validate_server_response lib 101 (upgrade_response lib k) k = Ok ()
    \<and> (if compute_accept lib k' = compute_accept lib k then True
       else validate_server_response lib 101 (upgrade_response lib k) k' = Err AcceptMismatch)"
proof -
  let ?a = "compute_accept lib k"
  have "str_trim ?a = ?a"
    using assms [of "sha1 lib (k @ WEBSOCKET_GUID)"] by (intro str_trim_printable) (auto simp: list_all_iff compute_accept_def)
  moreover have "str_trim ''websocket'' = ''websocket''" "str_trim ''Upgrade'' = ''Upgrade''"
    by (simp_all add: str_trim_printable printable_def byte_def)
  ultimately show ?thesis
    by (simp add: validate_server_response_def upgrade_response_def ws_header_def token_list_contains_def handshake_words)
qed

theorem handshake_agrees_witness:
  "validate_server_response \<lparr>sha1 = id, base64_encode = (\<lambda>s. ''x'' @ filter printable s), base64_decode = Some\<rparr> 101
     (upgrade_response \<lparr>sha1 = id, base64_encode = (\<lambda>s. ''x'' @ filter printable s), base64_decode = Some\<rparr> ''k'') ''k'' = Ok ()"
  using handshake_agrees [of "\<lparr>sha1 = id, base64_encode = (\<lambda>s. ''x'' @ filter printable s), base64_decode = Some\<rparr>" "''k''" "''k''"]
  by (simp add: list_all_iff printable_def byte_def)

end
