(* ===== verification/Content_Policies.thy ===== *)
theory Content_Policies
  imports Csp
begin

section \<open>Integrity, sandboxing and permissions\<close>

text \<open>
  \<open>vixen-net/src/integrity.rs\<close>, \<open>sandboxing.rs\<close>, \<open>permissions_policy.rs\<close>, \<open>trusted_types.rs\<close>, \<open>permissions.rs\<close>
  and \<open>http_helpers.rs\<close>. Digests and base64 are the parameters of \<open>Csp\<close>, and URLs are parsed by \<open>parse_url\<close>.
\<close>

subsection \<open>Strings\<close>

text \<open>\<open>str::split_ascii_whitespace\<close>, \<open>char::is_ascii_whitespace\<close>, and \<open>split_once\<close> and \<open>trim_matches\<close> with a
  predicate on characters. In \<open>split_once(char::is_whitespace)\<close> the separator is one white space character.\<close>

definition ascii_whitespace :: "char list" where
  "ascii_whitespace = [CHR '' '', CHR 0x09, CHR 0x0A, CHR 0x0C, CHR 0x0D]"

definition split_ascii_whitespace :: "string \<Rightarrow> string list" where
  "split_ascii_whitespace s = filter (\<lambda>w. w \<noteq> []) (str_split ascii_whitespace s)"

primrec split_once_whitespace :: "string \<Rightarrow> (string \<times> string) option" where
  "split_once_whitespace [] = None"
| "split_once_whitespace (c # s) =
     (case strip_one white_space (c # s) of
        Some r \<Rightarrow> Some ([], r)
      | None \<Rightarrow> map_option (\<lambda>(a, b). (c # a, b)) (split_once_whitespace s))"

definition trim_quotes :: "string \<Rightarrow> string" where
  "trim_quotes s =
     (let q = (\<lambda>c. c = CHR 0x22 \<or> c = CHR 0x27) in rev (dropWhile q (rev (dropWhile q s))))"

subsection \<open>Subresource integrity\<close>

datatype HashAlgorithm = HA_Sha256 | HA_Sha384 | HA_Sha512

primrec HashAlgorithm_token :: "HashAlgorithm \<Rightarrow> string" where
  "HashAlgorithm_token HA_Sha256 = ''sha256''"
| "HashAlgorithm_token HA_Sha384 = ''sha384''"
| "HashAlgorithm_token HA_Sha512 = ''sha512''"

definition HashAlgorithm_parse :: "string \<Rightarrow> HashAlgorithm option" where
  "HashAlgorithm_parse token =
     map_of [(''sha256'', HA_Sha256), (''sha384'', HA_Sha384), (''sha512'', HA_Sha512)] (to_ascii_lowercase token)"

primrec HashAlgorithm_strength :: "HashAlgorithm \<Rightarrow> nat" where
  "HashAlgorithm_strength HA_Sha256 = 1"
| "HashAlgorithm_strength HA_Sha384 = 2"
| "HashAlgorithm_strength HA_Sha512 = 3"

record IntensityItem =
  ii_algorithm :: HashAlgorithm
  ii_digest :: string
  ii_options :: "string option"

datatype IntegrityOutcome = NoMetadata | Verified HashAlgorithm | Mismatch "HashAlgorithm list" | NoKnownAlgorithms

definition integrity_entry :: "string \<Rightarrow> IntensityItem option" where
  "integrity_entry entry =
     (let (main, options) = (case split_once (CHR ''?'') entry of Some (m, p) \<Rightarrow> (m, Some p) | None \<Rightarrow> (entry, None)) in
      case split_once (CHR ''-'') main of
        None \<Rightarrow> None
      | Some (algo_tok, digest) \<Rightarrow>
          (case HashAlgorithm_parse algo_tok of
             None \<Rightarrow> None
           | Some algorithm \<Rightarrow>
               if digest = [] then None
               else Some \<lparr>ii_algorithm = algorithm, ii_digest = digest, ii_options = options\<rparr>))"

definition parse_integrity :: "string \<Rightarrow> IntensityItem list" where
  "parse_integrity attribute = List.map_filter integrity_entry (split_ascii_whitespace attribute)"

primrec sri_alg :: "HashAlgorithm \<Rightarrow> HashAlg" where
  "sri_alg HA_Sha256 = Sha256" | "sri_alg HA_Sha384 = Sha384" | "sri_alg HA_Sha512 = Sha512"

definition integrity_matches :: "digest_lib \<Rightarrow> IntensityItem \<Rightarrow> bytes \<Rightarrow> bool" where
  "integrity_matches lib item body =
     (let expected = (case base64_standard_decode lib (ii_digest item) of Some d \<Rightarrow> d | None \<Rightarrow> [])
      in constant_time_eq (sha_digest lib (sri_alg (ii_algorithm item)) body) expected)"

primrec verify_loop :: "digest_lib \<Rightarrow> bytes \<Rightarrow> HashAlgorithm list \<Rightarrow> IntensityItem list \<Rightarrow> IntegrityOutcome" where
  "verify_loop lib body attempted [] = (if attempted = [] then NoKnownAlgorithms else Mismatch attempted)"
| "verify_loop lib body attempted (item # items) =
     (if integrity_matches lib item body then Verified (ii_algorithm item)
      else verify_loop lib body (attempted @ [ii_algorithm item]) items)"

definition integrity_verify :: "digest_lib \<Rightarrow> IntensityItem list \<Rightarrow> bytes \<Rightarrow> IntegrityOutcome" where
  "integrity_verify lib items body =
     (if items = [] then NoMetadata
      else
        let strongest = Max (set (map (\<lambda>item. HashAlgorithm_strength (ii_algorithm item)) items));
            candidates = filter (\<lambda>item. HashAlgorithm_strength (ii_algorithm item) = strongest) items
        in verify_loop lib body [] candidates)"

subsection \<open>Sandbox flags\<close>

type_synonym SandboxFlags = u32

definition SANDBOX_TABLE :: "(string \<times> SandboxFlags) list" where
  "SANDBOX_TABLE = [(''allow-forms'', push_bit 0 1), (''allow-modals'', push_bit 1 1), (''allow-orientation-lock'', push_bit 2 1),
     (''allow-pointer-lock'', push_bit 3 1), (''allow-popups'', push_bit 4 1), (''allow-popups-to-escape-sandbox'', push_bit 5 1),
     (''allow-presentation'', push_bit 6 1), (''allow-same-origin'', push_bit 7 1), (''allow-scripts'', push_bit 8 1),
     (''allow-top-navigation'', push_bit 9 1), (''allow-top-navigation-by-user-activation'', push_bit 10 1),
     (''allow-top-navigation-to-custom-protocols'', push_bit 11 1), (''allow-downloads'', push_bit 12 1),
     (''allow-storage-access-by-user-activation'', push_bit 13 1), (''allow-unsafe-downloads'', push_bit 14 1)]"

definition SandboxFlags_union :: "SandboxFlags \<Rightarrow> SandboxFlags \<Rightarrow> SandboxFlags" where
  "SandboxFlags_union a b = a OR b"

definition SandboxFlags_intersection :: "SandboxFlags \<Rightarrow> SandboxFlags \<Rightarrow> SandboxFlags" where
  "SandboxFlags_intersection a b = a AND b"

definition SandboxFlags_intersects :: "SandboxFlags \<Rightarrow> SandboxFlags \<Rightarrow> bool" where
  "SandboxFlags_intersects a b \<longleftrightarrow> a AND b \<noteq> 0"

definition SandboxFlags_is_most_restrictive :: "SandboxFlags \<Rightarrow> bool" where
  "SandboxFlags_is_most_restrictive f \<longleftrightarrow> f = 0"

text \<open>The predicates, one per keyword of the table.\<close>

definition SandboxFlags_allows :: "nat \<Rightarrow> SandboxFlags \<Rightarrow> bool" where
  "SandboxFlags_allows i f \<longleftrightarrow> f AND push_bit i 1 \<noteq> 0"

abbreviation SandboxFlags_allows_same_origin :: "SandboxFlags \<Rightarrow> bool" where
  "SandboxFlags_allows_same_origin \<equiv> SandboxFlags_allows 7"

abbreviation SandboxFlags_allows_scripts :: "SandboxFlags \<Rightarrow> bool" where
  "SandboxFlags_allows_scripts \<equiv> SandboxFlags_allows 8"

definition SandboxFlags_implies_unique_origin :: "SandboxFlags \<Rightarrow> bool" where
  "SandboxFlags_implies_unique_origin f \<longleftrightarrow> \<not> SandboxFlags_allows_same_origin f"

definition SandboxFlags_is_dangerous_scripts_plus_same_origin :: "SandboxFlags \<Rightarrow> bool" where
  "SandboxFlags_is_dangerous_scripts_plus_same_origin f \<longleftrightarrow> SandboxFlags_allows_scripts f \<and> SandboxFlags_allows_same_origin f"

definition SandboxFlags_allows_any_top_navigation :: "SandboxFlags \<Rightarrow> bool" where
  "SandboxFlags_allows_any_top_navigation f \<longleftrightarrow>
     SandboxFlags_allows 9 f \<or> SandboxFlags_allows 10 f \<or> SandboxFlags_allows 11 f"

definition sandbox_token :: "string \<Rightarrow> SandboxFlags \<Rightarrow> SandboxFlags" where
  "sandbox_token token flags =
     (case List.find (\<lambda>(name, _). eq_ignore_ascii_case name token) SANDBOX_TABLE of
        Some (_, flag) \<Rightarrow> SandboxFlags_union flags flag
      | None \<Rightarrow> flags)"

definition parse_sandbox :: "string \<Rightarrow> SandboxFlags" where
  "parse_sandbox attribute_value = fold sandbox_token (split_ascii_whitespace attribute_value) 0"

subsection \<open>Permissions policy\<close>

datatype Allowlist = Everyone | AL_Self | AL_Src | Origins "Origin list" | AL_None

definition origin_eq :: "Origin \<Rightarrow> Origin \<Rightarrow> bool" where
  "origin_eq a b =
     (if Origin_is_opaque a \<or> Origin_is_opaque b then False
      else og_scheme a = og_scheme b \<and> og_host a = og_host b \<and> og_port a = og_port b)"

definition Allowlist_allows :: "Allowlist \<Rightarrow> Origin \<Rightarrow> Origin \<Rightarrow> bool" where
  "Allowlist_allows al embedder target =
     (case al of
        Everyone \<Rightarrow> True
      | AL_None \<Rightarrow> False
      | AL_Self \<Rightarrow> origin_eq embedder target
      | AL_Src \<Rightarrow> origin_eq embedder target
      | Origins xs \<Rightarrow> origin_eq embedder target \<or> list_ex (\<lambda>og. origin_eq og target) xs)"

type_synonym PermissionsPolicy = "(string, Allowlist) btree"

definition PermissionsPolicy_new :: PermissionsPolicy where
  "PermissionsPolicy_new = []"

definition PermissionsPolicy_get :: "PermissionsPolicy \<Rightarrow> string \<Rightarrow> Allowlist option" where
  "PermissionsPolicy_get policy feature = bt_get policy feature"

definition PermissionsPolicy_len :: "PermissionsPolicy \<Rightarrow> usize" where
  "PermissionsPolicy_len policy = length policy"

definition PermissionsPolicy_is_empty :: "PermissionsPolicy \<Rightarrow> bool" where
  "PermissionsPolicy_is_empty policy \<longleftrightarrow> policy = []"

definition PermissionsPolicy_allows :: "PermissionsPolicy \<Rightarrow> string \<Rightarrow> Origin \<Rightarrow> Origin \<Rightarrow> bool" where
  "PermissionsPolicy_allows policy feature embedder target =
     (case bt_get policy feature of
        Some al \<Rightarrow> Allowlist_allows al embedder target
      | None \<Rightarrow> origin_eq embedder target)"

definition PermissionsPolicy_set :: "string \<Rightarrow> Allowlist \<Rightarrow> PermissionsPolicy \<Rightarrow> PermissionsPolicy" where
  "PermissionsPolicy_set feature al policy = bt_insert feature al policy"

text \<open>The scan of \<open>split_top_level\<close>: nesting depth, inside quotes, the current item and the finished ones. The
  separators and delimiters are ASCII, so scanning bytes finds characters.\<close>

primrec split_top_loop :: "char \<Rightarrow> nat \<Rightarrow> bool \<Rightarrow> string \<Rightarrow> string \<Rightarrow> string list" where
  "split_top_loop sep depth in_quote current [] = (if str_trim current \<noteq> [] then [current] else [])"
| "split_top_loop sep depth in_quote current (c # s) =
     (if c = CHR 0x22 then split_top_loop sep depth (\<not> in_quote) (current @ [c]) s
      else if c = CHR ''('' \<and> \<not> in_quote then split_top_loop sep (depth + 1) in_quote (current @ [c]) s
      else if c = CHR '')'' \<and> \<not> in_quote \<and> 0 < depth then split_top_loop sep (depth - 1) in_quote (current @ [c]) s
      else if c = sep \<and> depth = 0 \<and> \<not> in_quote then current # split_top_loop sep depth in_quote [] s
      else split_top_loop sep depth in_quote (current @ [c]) s)"

definition split_top_level :: "string \<Rightarrow> char \<Rightarrow> string list" where
  "split_top_level s sep = split_top_loop sep 0 False [] s"

text \<open>The balance of \<open>strip_parens\<close>: \<open>None\<close> if the parentheses close before the end. The depth is an integer, since
  it may become negative.\<close>

primrec paren_loop :: "int \<Rightarrow> string \<Rightarrow> int option" where
  "paren_loop depth [] = Some depth"
| "paren_loop depth (c # s) =
     (if c = CHR ''('' then paren_loop (depth + 1) s
      else if c = CHR '')'' then (if depth - 1 = 0 \<and> s \<noteq> [] then None else paren_loop (depth - 1) s)
      else paren_loop depth s)"

definition strip_parens :: "string \<Rightarrow> string option" where
  "strip_parens s0 =
     (let s = str_trim s0 in
      if \<not> starts_with_char (CHR ''('') s \<or> \<not> ends_with_char (CHR '')'') s then None
      else if paren_loop 0 s = Some 0 then Some (butlast (tl s)) else None)"

definition parse_origin_token :: "(string \<Rightarrow> NetUrl option) \<Rightarrow> string \<Rightarrow> Origin option" where
  "parse_origin_token parse_url s =
     (case parse_url s of
        None \<Rightarrow> None
      | Some url \<Rightarrow> (let og = Origin_from_url url in if Origin_is_opaque og then None else Some og))"

record source_scan =
  sc_origins :: "Origin list"
  sc_self :: bool
  sc_src :: bool

definition source_token :: "(string \<Rightarrow> NetUrl option) \<Rightarrow> string \<Rightarrow> source_scan \<Rightarrow> source_scan" where
  "source_token parse_url tok scan =
     (let token = trim_quotes tok in
      if token = ''self'' then scan\<lparr>sc_self := True\<rparr>
      else if token = ''src'' then scan\<lparr>sc_src := True\<rparr>
      else (case parse_origin_token parse_url token of
          Some og \<Rightarrow> scan\<lparr>sc_origins := sc_origins scan @ [og]\<rparr>
        | None \<Rightarrow> scan))"

definition parse_source_list :: "(string \<Rightarrow> NetUrl option) \<Rightarrow> string \<Rightarrow> Allowlist" where
  "parse_source_list parse_url inner =
     (let scan = fold (source_token parse_url) (split_whitespace inner) \<lparr>sc_origins = [], sc_self = False, sc_src = False\<rparr>;
          origins = sc_origins scan; has_self = sc_self scan; has_src = sc_src scan
      in if has_self \<and> \<not> has_src \<and> origins = [] then AL_Self
         else if \<not> has_self \<and> has_src \<and> origins = [] then AL_Src
         else if \<not> has_self \<and> \<not> has_src \<and> origins \<noteq> [] then Origins origins
         else if origins = [] \<and> (has_self \<or> has_src) then (if has_self then AL_Self else AL_Src)
         else Origins origins)"

definition parse_rhs :: "(string \<Rightarrow> NetUrl option) \<Rightarrow> string \<Rightarrow> Allowlist option" where
  "parse_rhs parse_url rhs =
     (let r = str_trim rhs in
      if r = ''*'' then Some Everyone
      else if r = ''()'' then Some AL_None
      else (case strip_parens r of
          Some inner \<Rightarrow> Some (parse_source_list parse_url inner)
        | None \<Rightarrow> Some (parse_source_list parse_url r)))"

definition parse_item :: "(string \<Rightarrow> NetUrl option) \<Rightarrow> string \<Rightarrow> (string \<times> Allowlist) option" where
  "parse_item parse_url item0 =
     (let item = str_trim item0 in
      if item = [] then None
      else
        let (feature, rhs) =
          (case split_once (CHR ''='') item of
             Some (f, r) \<Rightarrow> (str_trim f, str_trim r)
           | None \<Rightarrow>
               (case split_once_whitespace item of
                  Some (f, rest) \<Rightarrow> (str_trim f, str_trim rest)
                | None \<Rightarrow> (item, [])))
        in if feature = [] then None
           else if list_ex (\<lambda>c. c \<in> set ascii_whitespace) feature then None
           else if rhs = [] then Some (feature, Everyone)
           else map_option (\<lambda>al. (feature, al)) (parse_rhs parse_url rhs))"

definition parse_policy_items :: "(string \<Rightarrow> NetUrl option) \<Rightarrow> string list \<Rightarrow> PermissionsPolicy" where
  "parse_policy_items parse_url items =
     fold (\<lambda>item policy. case parse_item parse_url item of
        Some (feature, al) \<Rightarrow> PermissionsPolicy_set feature al policy
      | None \<Rightarrow> policy) items []"

definition parse_permissions_policy :: "(string \<Rightarrow> NetUrl option) \<Rightarrow> string \<Rightarrow> PermissionsPolicy" where
  "parse_permissions_policy parse_url header = parse_policy_items parse_url (split_top_level header (CHR '',''))"

definition parse_allow_attribute :: "(string \<Rightarrow> NetUrl option) \<Rightarrow> string \<Rightarrow> PermissionsPolicy" where
  "parse_allow_attribute parse_url attr = parse_policy_items parse_url (split_top_level attr (CHR '';''))"

subsection \<open>Trusted types\<close>

datatype TrustedTypeKind = Html | Script | ScriptUrl

primrec TrustedTypeKind_as_str :: "TrustedTypeKind \<Rightarrow> string" where
  "TrustedTypeKind_as_str Html = ''html''"
| "TrustedTypeKind_as_str Script = ''script''"
| "TrustedTypeKind_as_str ScriptUrl = ''script-url''"

datatype AllowedNames = AN_None | Explicit "string list" | Wildcard

record TrustedTypesPolicyNames =
  tt_allowed :: AllowedNames
  tt_allow_duplicates :: bool

definition parse_trusted_types :: "string \<Rightarrow> TrustedTypesPolicyNames" where
  "parse_trusted_types val =
     (let toks = split_ascii_whitespace val;
          none = [CHR 0x27] @ ''none'' @ [CHR 0x27];
          names = filter (\<lambda>tok. tok \<noteq> none \<and> tok \<noteq> ''allow-duplicates'' \<and> tok \<noteq> ''*'') toks
      in \<lparr>tt_allowed =
            (if none \<in> set toks then AN_None
             else if ''*'' \<in> set toks then Wildcard
             else if names = [] then AN_None
             else Explicit names),
          tt_allow_duplicates = (''allow-duplicates'' \<in> set toks)\<rparr>)"

record RequireFor =
  rf_script :: bool

definition parse_require_trusted_types_for :: "string \<Rightarrow> RequireFor" where
  "parse_require_trusted_types_for val =
     \<lparr>rf_script = list_ex (\<lambda>tok. eq_ignore_ascii_case (trim_matches_char (CHR 0x27) tok) ''script'') (split_ascii_whitespace val)\<rparr>"

definition policy_creation_allowed :: "TrustedTypesPolicyNames \<Rightarrow> string \<Rightarrow> usize \<Rightarrow> bool" where
  "policy_creation_allowed names name existing_count =
     (if name = [] then False
      else if \<not> (case tt_allowed names of AN_None \<Rightarrow> False | Wildcard \<Rightarrow> True | Explicit xs \<Rightarrow> list_ex (\<lambda>n. n = name) xs) then False
      else if 0 < existing_count \<and> \<not> tt_allow_duplicates names then False
      else True)"

datatype TrustedTypesOutcome = TT_Allow | TT_Block | ApplyDefaultPolicy

definition evaluate_sink :: "RequireFor \<Rightarrow> bool \<Rightarrow> bool \<Rightarrow> TrustedTypesOutcome" where
  "evaluate_sink require has_default_policy value_is_trusted =
     (if value_is_trusted then TT_Allow
      else if \<not> rf_script require then TT_Allow
      else if has_default_policy then ApplyDefaultPolicy
      else TT_Block)"

subsection \<open>Permissions\<close>

datatype PermissionKind = Geolocation | Notifications | Camera | Microphone | ClipboardRead | PersistentStorage

datatype PermissionState = Granted | Denied | Prompt

type_synonym PermissionStore = "Origin \<times> PermissionKind \<Rightarrow> PermissionState option"

definition PermissionStore_new :: PermissionStore where
  "PermissionStore_new = Map.empty"

definition PermissionStore_state :: "PermissionStore \<Rightarrow> Origin \<Rightarrow> PermissionKind \<Rightarrow> PermissionState" where
  "PermissionStore_state st og kind = (case st (og, kind) of Some s \<Rightarrow> s | None \<Rightarrow> Prompt)"

definition PermissionStore_set :: "PermissionStore \<Rightarrow> Origin \<Rightarrow> PermissionKind \<Rightarrow> PermissionState \<Rightarrow> PermissionStore" where
  "PermissionStore_set st og kind s = st((og, kind) \<mapsto> s)"

definition PermissionStore_is_granted :: "PermissionStore \<Rightarrow> Origin \<Rightarrow> PermissionKind \<Rightarrow> bool" where
  "PermissionStore_is_granted st og kind \<longleftrightarrow> PermissionStore_state st og kind = Granted"

definition PermissionStore_revoke :: "PermissionStore \<Rightarrow> Origin \<Rightarrow> PermissionKind \<Rightarrow> PermissionStore" where
  "PermissionStore_revoke st og kind = st((og, kind) := None)"

subsection \<open>Header bytes\<close>

datatype HeaderError = ControlByte nat | InvalidNameByte nat | EmptyName

definition safe_value_byte :: "nat \<Rightarrow> bool" where
  "safe_value_byte b \<longleftrightarrow> b = 9 \<or> b = 32 \<or> (0x21 \<le> b \<and> b \<le> 0x7e) \<or> (0x80 \<le> b \<and> b \<le> 0xff)"

definition assert_safe_header_value :: "string \<Rightarrow> (unit, HeaderError) result" where
  "assert_safe_header_value val =
     try_for (\<lambda>c. if safe_value_byte (byte c) then Ok () else Err (ControlByte (byte c))) val"

definition name_byte :: "nat \<Rightarrow> bool" where
  "name_byte b \<longleftrightarrow> b = 0x21 \<or> (0x23 \<le> b \<and> b \<le> 0x27) \<or> b = 0x2a \<or> b = 0x2b \<or> b = 0x2d \<or> b = 0x2e
     \<or> (0x5e \<le> b \<and> b \<le> 0x60) \<or> b = 0x7c \<or> b = 0x7e \<or> (0x30 \<le> b \<and> b \<le> 0x39) \<or> (0x41 \<le> b \<and> b \<le> 0x5a) \<or> (0x61 \<le> b \<and> b \<le> 0x7a)"

definition assert_valid_header_name :: "string \<Rightarrow> (unit, HeaderError) result" where
  "assert_valid_header_name name =
     (if name = [] then Err EmptyName
      else try_for (\<lambda>c. if name_byte (byte c) then Ok () else Err (InvalidNameByte (byte c))) name)"

definition split_attribute :: "string \<Rightarrow> (string \<times> string) option" where
  "split_attribute s =
     map_option (\<lambda>(k, v). (str_trim k, trim_matches_char (CHR 0x22) (str_trim v))) (split_once (CHR ''='') s)"

end
