(* ===== verification/Content_Properties.thy ===== *)
theory Content_Properties
  imports Content_Policies Net_Policy_Properties
begin

section \<open>Properties of integrity, sandboxing and permissions\<close>

subsection \<open>Integrity\<close>

abbreviation expected_digest :: "digest_lib \<Rightarrow> IntensityItem \<Rightarrow> bytes" where
  "expected_digest lib item \<equiv> (case base64_standard_decode lib (ii_digest item) of Some d \<Rightarrow> d | None \<Rightarrow> [])"

abbreviation digest_fits :: "digest_lib \<Rightarrow> bytes \<Rightarrow> IntensityItem \<Rightarrow> bool" where
  "digest_fits lib body item \<equiv> sha_digest lib (sri_alg (ii_algorithm item)) body = expected_digest lib item"

lemma integrity_matches_iff: "integrity_matches lib item body \<longleftrightarrow> digest_fits lib body item"
  by (simp add: integrity_matches_def constant_time_eq_iff)

lemma verify_loop_cases:
  "case verify_loop lib body attempted items of
     NoMetadata \<Rightarrow> False
   | Verified a \<Rightarrow> list_ex (\<lambda>i. ii_algorithm i = a \<and> digest_fits lib body i) items
   | Mismatch as \<Rightarrow> list_all (\<lambda>i. \<not> digest_fits lib body i) items \<and> as = attempted @ map ii_algorithm items
   | NoKnownAlgorithms \<Rightarrow> attempted = [] \<and> items = []"
proof (induction items arbitrary: attempted)
  case (Cons i items)
  from Cons.IH [of "attempted @ [ii_algorithm i]"] show ?case
    by (auto simp: integrity_matches_iff split: IntegrityOutcome.splits)
qed simp

subsection \<open>Sandbox flags\<close>

lemma bit_set: "(f :: u32) AND push_bit i 1 \<noteq> 0 \<longleftrightarrow> bit f i"
  by (simp add: and_exp_eq_0_iff_not_bit)

abbreviation sandbox_keyword :: "nat \<Rightarrow> string" where
  "sandbox_keyword i \<equiv> fst (SANDBOX_TABLE ! i)"

lemma sandbox_table: "SANDBOX_TABLE = map (\<lambda>i. (sandbox_keyword i, push_bit i 1)) [0..<15]"
  by (simp add: SANDBOX_TABLE_def upt_rec)

lemma sandbox_lower: "map (\<lambda>p. to_ascii_lowercase (fst p)) SANDBOX_TABLE = map fst SANDBOX_TABLE"
  by code_simp

lemma sandbox_length: "length SANDBOX_TABLE = 15"
  by (simp add: SANDBOX_TABLE_def)

lemma sandbox_distinct: "distinct (map fst SANDBOX_TABLE)"
  by (simp add: SANDBOX_TABLE_def)

lemma sandbox_map_of: "map_of SANDBOX_TABLE k = Some f \<longleftrightarrow> (\<exists>i<15. k = sandbox_keyword i \<and> f = push_bit i 1)"
proof -
  have "map_of SANDBOX_TABLE k = Some f \<longleftrightarrow> (k, f) \<in> set SANDBOX_TABLE"
    using sandbox_distinct by (rule map_of_eq_Some_iff)
  also have "set SANDBOX_TABLE = (\<lambda>i. (sandbox_keyword i, push_bit i 1)) ` set [0..<15]"
    by (subst sandbox_table) (rule set_map)
  finally show ?thesis by auto
qed

lemma find_lower:
  assumes "list_all (\<lambda>p. to_ascii_lowercase (fst p) = fst p) xs"
  shows "List.find (\<lambda>(name, _). eq_ignore_ascii_case name token) xs =
    map_option (\<lambda>f. (to_ascii_lowercase token, f)) (map_of xs (to_ascii_lowercase token))"
  using assms by (induction xs) (auto simp: eq_ignore_ascii_case_def)

lemma sandbox_token_eq:
  "sandbox_token token flags = (case map_of SANDBOX_TABLE (to_ascii_lowercase token) of Some f \<Rightarrow> flags OR f | None \<Rightarrow> flags)"
proof -
  have "list_all (\<lambda>p. to_ascii_lowercase (fst p) = fst p) SANDBOX_TABLE"
    using sandbox_lower by (simp add: list_all_iff map_eq_conv)
  from find_lower [OF this] show ?thesis
    by (simp add: sandbox_token_def SandboxFlags_union_def split: option.split)
qed

lemma sandbox_token_bit:
  "bit (sandbox_token token flags) i \<longleftrightarrow> bit flags i \<or> i < 15 \<and> to_ascii_lowercase token = sandbox_keyword i"
proof (cases "map_of SANDBOX_TABLE (to_ascii_lowercase token)")
  case None
  moreover have "\<not> (i < 15 \<and> to_ascii_lowercase token = sandbox_keyword i)"
    using None sandbox_map_of [of "to_ascii_lowercase token"] by (metis option.distinct(1))
  ultimately show ?thesis by (auto simp: sandbox_token_eq)
next
  case (Some f)
  then obtain j where j: "j < 15" "to_ascii_lowercase token = sandbox_keyword j" "f = push_bit j 1"
    by (auto simp: sandbox_map_of)
  have "sandbox_keyword i = sandbox_keyword j \<longleftrightarrow> i = j" if "i < 15"
    using that j(1) nth_eq_iff_index_eq [OF sandbox_distinct, of i j] by (simp add: sandbox_length)
  with Some j show ?thesis
    by (auto simp: sandbox_token_eq bit_or_iff bit_exp_iff)
qed

lemma fold_sandbox_bit:
  "bit (fold sandbox_token toks flags) i \<longleftrightarrow>
     bit flags i \<or> i < 15 \<and> list_ex (\<lambda>t. to_ascii_lowercase t = sandbox_keyword i) toks"
  by (induction toks arbitrary: flags) (auto simp: sandbox_token_bit)

lemma sandbox_allows:
  "SandboxFlags_allows i (parse_sandbox s) \<longleftrightarrow>
     i < 15 \<and> list_ex (\<lambda>t. to_ascii_lowercase t = sandbox_keyword i) (split_ascii_whitespace s)"
  unfolding SandboxFlags_allows_def bit_set parse_sandbox_def fold_sandbox_bit by simp

subsection \<open>Permissions policy\<close>

text \<open>The names of features in a header: printable characters without delimiters.\<close>

definition feature_name :: "string \<Rightarrow> bool" where
  "feature_name f \<longleftrightarrow> f \<noteq> [] \<and> list_all (\<lambda>c. printable c \<and> c \<notin> set (CHR 0x22 # ''()=,'')) f"

lemma feature_name_trim: "feature_name f \<Longrightarrow> str_trim f = f"
  by (rule str_trim_printable) (auto simp: feature_name_def list_all_iff)

lemma split_top_loop_plain:
  "list_all (\<lambda>c. c \<notin> set [CHR 0x22, CHR ''('', CHR '')'', sep]) s \<Longrightarrow>
     split_top_loop sep d q cur (s @ t) = split_top_loop sep d q (cur @ s) t"
  by (induction s arbitrary: cur) simp_all

lemma printable_not_space: "printable c \<Longrightarrow> c \<notin> set ascii_whitespace"
  by (auto simp: printable_def ascii_whitespace_def byte_def)

lemma feature_item:
  assumes "feature_name f" and "str_trim rhs = rhs" and "rhs \<noteq> []" and "printable (last rhs)"
  shows "parse_item parse_url (f @ ''='' @ rhs) = map_option (\<lambda>al. (f, al)) (parse_rhs parse_url rhs)"
proof -
  have f: "f \<noteq> []" "list_all printable f" "CHR ''='' \<notin> set f" using assms(1) by (auto simp: feature_name_def list_all_iff)
  have "str_trim (f @ ''='' @ rhs) = f @ ''='' @ rhs"
    by (rule str_trim_printable) (use f(1,2) assms(3,4) in \<open>auto simp: list_all_iff\<close>)
  moreover have "split_once (CHR ''='') (f @ ''='' @ rhs) = Some (f, rhs)"
    using split_once_append [OF f(3), of rhs] by simp
  moreover have "\<not> list_ex (\<lambda>c. c \<in> set ascii_whitespace) f"
    using f(2) printable_not_space by (auto simp: list_all_iff list_ex_iff)
  ultimately show ?thesis
    using assms f(1) by (simp add: parse_item_def feature_name_trim)
qed

abbreviation spaces :: "nat \<Rightarrow> string" where
  "spaces n \<equiv> replicate n (CHR '' '')"

abbreviation empty_list :: "nat \<Rightarrow> string" where
  "empty_list n \<equiv> ''('' @ spaces n @ '')''"

lemma empty_list_trim: "str_trim (empty_list n) = empty_list n"
  by (rule str_trim_printable) (simp_all add: printable_def byte_def)

lemma empty_list_item:
  assumes "feature_name f"
  shows "split_top_level (f @ ''='' @ empty_list n) (CHR '','') = [f @ ''='' @ empty_list n]"
proof -
  have f: "list_all (\<lambda>c. c \<notin> set [CHR 0x22, CHR ''('', CHR '')'', CHR '','']) (f @ ''='')"
    using assms by (auto simp: feature_name_def list_all_iff)
  have sp: "list_all (\<lambda>c. c \<notin> set [CHR 0x22, CHR ''('', CHR '')'', CHR '','']) (spaces n)"
    by (auto simp: list_all_iff)
  have "str_trim (f @ ''='' @ empty_list n) = f @ ''='' @ empty_list n"
    by (rule str_trim_printable) (use assms in \<open>auto simp: feature_name_def list_all_iff printable_def byte_def hd_append\<close>)
  then show ?thesis
    using split_top_loop_plain [OF f, of 0 False "[]" "empty_list n"]
      split_top_loop_plain [OF sp, of 1 False "f @ ''='' @ ''(''" "'')''"]
    by (simp add: split_top_level_def)
qed

lemma split_whitespace_spaces: "split_whitespace (spaces n) = []"
proof -
  have "split_words [] (spaces n) = []"
    by (induction n) (simp_all add: split_words.simps [of "[]" "[]"] split_words_space)
  then show ?thesis by (simp add: split_whitespace_def)
qed

lemma parse_rhs_empty_list: "parse_rhs parse_url (empty_list n) = Some (if n = 0 then AL_None else Origins [])"
proof -
  have "paren_loop 1 (spaces n @ '')'') = Some 0" by (induction n) simp_all
  then have "strip_parens (empty_list n) = Some (spaces n)"
    unfolding strip_parens_def Let_def empty_list_trim by (simp add: starts_with_char_def ends_with_char_def butlast_append)
  then show ?thesis
    unfolding parse_rhs_def Let_def empty_list_trim
    by (cases n) (simp_all add: parse_source_list_def split_whitespace_spaces [unfolded replicate_Suc] Let_def
        split_whitespace_spaces [of "Suc _", simplified])
qed

lemma empty_list_parsed:
  assumes "feature_name f"
  shows "parse_permissions_policy parse_url (f @ ''='' @ empty_list n) = [(f, if n = 0 then AL_None else Origins [])]"
proof -
  have "parse_item parse_url (f @ ''='' @ empty_list n) = Some (f, if n = 0 then AL_None else Origins [])"
  proof -
    have "parse_item parse_url (f @ ''='' @ empty_list n) = map_option (\<lambda>al. (f, al)) (parse_rhs parse_url (empty_list n))"
      by (rule feature_item [OF assms empty_list_trim]) (simp_all add: printable_def byte_def)
    then show ?thesis unfolding parse_rhs_empty_list by simp
  qed
  with empty_list_item [OF assms, of n] show ?thesis
    by (simp add: parse_permissions_policy_def parse_policy_items_def PermissionsPolicy_set_def)
qed

subsection \<open>The properties\<close>

text \<open>Integrity is decided by the strongest algorithm. A resource is verified only by an item with the digest
  of its body under an algorithm that no other item exceeds, and is rejected only if no such item fits;
  without items nothing is checked, and there is no other outcome.\<close>

theorem integrity_strongest_decides:
  "case integrity_verify lib items body of
     NoMetadata \<Rightarrow> items = []
   | Verified a \<Rightarrow> list_ex (\<lambda>i. ii_algorithm i = a \<and> digest_fits lib body i) items
       \<and> list_all (\<lambda>i. HashAlgorithm_strength (ii_algorithm i) \<le> HashAlgorithm_strength a) items
   | Mismatch as \<Rightarrow> items \<noteq> [] \<and> as \<noteq> []
       \<and> list_all (\<lambda>i. if digest_fits lib body i
           then list_ex (\<lambda>j. HashAlgorithm_strength (ii_algorithm i) < HashAlgorithm_strength (ii_algorithm j)) items else True) items
   | NoKnownAlgorithms \<Rightarrow> False"
proof (cases "items = []")
  case False
  let ?str = "\<lambda>i. HashAlgorithm_strength (ii_algorithm i)" and ?max = "Max (set (map (\<lambda>i. HashAlgorithm_strength (ii_algorithm i)) items))"
  let ?best = "filter (\<lambda>i. ?str i = ?max) items"
  have max: "?str i \<le> ?max" if "i \<in> set items" for i using that by (intro Max_ge) auto
  have "?max \<in> set (map ?str items)" using False by (intro Max_in) auto
  then obtain j where j: "j \<in> set items" "?str j = ?max" by auto
  then have "?best \<noteq> []" by (auto simp: filter_empty_conv)
  moreover have "list_ex (\<lambda>j. ?str i < ?str j) items" if "i \<in> set items" "?str i \<noteq> ?max" for i
    using max [OF that(1)] that(2) j by (auto simp: list_ex_iff intro!: bexI [of _ j])
  ultimately show ?thesis
    using False verify_loop_cases [where lib = lib and body = body and attempted = "[]" and items = ?best] max
    unfolding integrity_verify_def Let_def
    by (auto simp: list_all_iff list_ex_iff split: IntegrityOutcome.splits)
qed (simp add: integrity_verify_def)

text \<open>The flags of a sandbox are exactly its keywords. A capability is granted exactly if its keyword is one
  of the tokens of the attribute, without regard to case; so more tokens never take a capability away
  and a document without \<open>allow-same-origin\<close> has an opaque origin whatever else is there.\<close>

theorem sandbox_flags_exact:
  "SandboxFlags_allows i (parse_sandbox s) =
     (i < 15 \<and> list_ex (\<lambda>t. to_ascii_lowercase t = sandbox_keyword i) (split_ascii_whitespace s))
   \<and> SandboxFlags_implies_unique_origin (parse_sandbox s) =
     (\<not> list_ex (\<lambda>t. to_ascii_lowercase t = ''allow-same-origin'') (split_ascii_whitespace s))
   \<and> SandboxFlags_is_most_restrictive (parse_sandbox s) =
     list_all (\<lambda>t. to_ascii_lowercase t \<notin> set (map fst SANDBOX_TABLE)) (split_ascii_whitespace s)"
proof (intro conjI)
  have "sandbox_keyword 7 = ''allow-same-origin''" by (simp add: SANDBOX_TABLE_def)
  then show "SandboxFlags_implies_unique_origin (parse_sandbox s) =
     (\<not> list_ex (\<lambda>t. to_ascii_lowercase t = ''allow-same-origin'') (split_ascii_whitespace s))"
    by (simp add: SandboxFlags_implies_unique_origin_def sandbox_allows)
  have "parse_sandbox s = 0 \<longleftrightarrow> (\<forall>i. \<not> bit (parse_sandbox s) i)"
    using bit_imp_le_length [of "parse_sandbox s"] by (auto simp: bit_eq_iff)
  also have "\<dots> \<longleftrightarrow> list_all (\<lambda>t. to_ascii_lowercase t \<notin> set (map fst SANDBOX_TABLE)) (split_ascii_whitespace s)"
  proof -
    have "x \<in> set (map fst SANDBOX_TABLE) \<longleftrightarrow> (\<exists>i<15. x = sandbox_keyword i)" for x
      by (simp only: in_set_conv_nth) (auto simp: sandbox_length)
    then show ?thesis unfolding parse_sandbox_def fold_sandbox_bit by (auto simp: list_all_iff list_ex_iff)
  qed
  finally show "SandboxFlags_is_most_restrictive (parse_sandbox s) =
     list_all (\<lambda>t. to_ascii_lowercase t \<notin> set (map fst SANDBOX_TABLE)) (split_ascii_whitespace s)"
    by (simp add: SandboxFlags_is_most_restrictive_def)
qed (rule sandbox_allows)

text \<open>A feature with an empty allowlist. Written \<open>feature=()\<close> it is denied to everyone; with spaces
  between the parentheses the same list leaves the feature enabled for the embedder.\<close>

theorem empty_allowlist_denies:
  assumes "feature_name f"
  shows "\<not> PermissionsPolicy_allows (parse_permissions_policy parse_url (f @ ''='' @ empty_list 0)) f embedder target
    \<and> PermissionsPolicy_allows (parse_permissions_policy parse_url (f @ ''='' @ empty_list (Suc n))) f embedder target
      = origin_eq embedder target"
  using empty_list_parsed [OF assms, of parse_url 0] empty_list_parsed [OF assms, of parse_url "Suc n"]
  by (simp add: PermissionsPolicy_allows_def Allowlist_allows_def bt_get_def)

theorem empty_allowlist_denies_witness:
  "\<forall>og. \<not> PermissionsPolicy_allows (parse_permissions_policy (\<lambda>_. None) (''camera='' @ empty_list 0)) ''camera'' og og
   \<and> PermissionsPolicy_allows (parse_permissions_policy (\<lambda>_. None) (''camera='' @ empty_list 1)) ''camera'' og og
     = (\<not> Origin_is_opaque og)"
proof -
  have "feature_name ''camera''" by (simp add: feature_name_def printable_def byte_def)
  from empty_allowlist_denies [OF this, where parse_url = "\<lambda>_. None" and n = 0] show ?thesis
    by (auto simp: origin_eq_def)
qed

end
