(* ===== verification/Search_Params.thy ===== *)
theory Search_Params
  imports Utf8_Lossy "HOL-Library.List_Lexorder" "HOL-Library.Char_ord"
begin

section \<open>URL search parameters\<close>

text \<open>
  \<open>vixen-engine/src/url_search_params.rs\<close>: the ordered list behind \<open>URLSearchParams\<close> with its operations, the
  parser of \<open>application/x-www-form-urlencoded\<close> strings and the serializer. Strings are lists of UTF-8 bytes, so
  comparing names is comparing bytes, as \<open>String::cmp\<close> does. Index loops over bytes are recursions over what is left.
  The last part states the contract of a form encoding as a locale: the bytes it may produce and that
  decoding undoes it. \<open>form_submission.rs\<close> has an encoder of its own that keeps the same contract.
\<close>

subsection \<open>Parser\<close>

definition hex_val :: "char \<Rightarrow> nat option" where
  "hex_val c =
     (if 48 \<le> byte c \<and> byte c \<le> 57 then Some (byte c - 48)
      else if 97 \<le> byte c \<and> byte c \<le> 102 then Some (byte c - 97 + 10)
      else if 65 \<le> byte c \<and> byte c \<le> 70 then Some (byte c - 65 + 10)
      else None)"

text \<open>The escape at the front of the input, if there is one: the byte it stands for.\<close>

fun escaped_byte :: "string \<Rightarrow> char option" where
  "escaped_byte (b # h # l # s) =
     (if b = CHR ''%'' then
        (case (hex_val h, hex_val l) of
           (Some hi, Some lo) \<Rightarrow> Some (char_of (or (push_bit 4 hi) lo))
         | _ \<Rightarrow> None)
      else None)"
| "escaped_byte _ = None"

function percent_decode_bytes :: "string \<Rightarrow> string" where
  "percent_decode_bytes [] = []"
| "percent_decode_bytes (b # s) =
     (case escaped_byte (b # s) of
        Some d \<Rightarrow> d # percent_decode_bytes (drop 2 s)
      | None \<Rightarrow> (if b = CHR ''+'' then CHR '' '' else b) # percent_decode_bytes s)"
  by pat_completeness auto
termination by (relation "measure length") auto

definition percent_decode_tf8 :: "string \<Rightarrow> string" where
  "percent_decode_tf8 s = from_utf8_lossy (percent_decode_bytes s)"

definition parse_tuple :: "string \<Rightarrow> string \<times> string" where
  "parse_tuple t =
     (let (n, v) = (case split_once (CHR ''='') t of Some (n, v) \<Rightarrow> (n, v) | None \<Rightarrow> (t, []))
      in (percent_decode_tf8 n, percent_decode_tf8 v))"

definition parse_pairs :: "string \<Rightarrow> (string \<times> string) list" where
  "parse_pairs input =
     (let input = (case strip_prefix input ''?'' of Some r \<Rightarrow> r | None \<Rightarrow> input)
      in map parse_tuple (filter (\<lambda>t. t \<noteq> []) (str_split ''&'' input)))"

subsection \<open>Serializer\<close>

definition hex_digit :: "nat \<Rightarrow> char" where
  "hex_digit n = (if n \<le> 9 then char_of (48 + n) else char_of (65 + (n - 10)))"

definition push_upper_hex :: "char \<Rightarrow> string \<Rightarrow> string" where
  "push_upper_hex b out = out @ [hex_digit (drop_bit 4 (byte b)), hex_digit (and (byte b) 0x0F)]"

definition url_safe :: "char \<Rightarrow> bool" where
  "url_safe b \<longleftrightarrow> b \<in> set ''*-._'' \<or> 48 \<le> byte b \<and> byte b \<le> 57 \<or> 65 \<le> byte b \<and> byte b \<le> 90 \<or> 97 \<le> byte b \<and> byte b \<le> 122"

definition encode_byte :: "char \<Rightarrow> string \<Rightarrow> string" where
  "encode_byte b out =
     (if b = CHR '' '' then out @ ''+''
      else if url_safe b then out @ [b]
      else push_upper_hex b (out @ ''%''))"

definition urlencoded_byte_encode :: "string \<Rightarrow> string \<Rightarrow> string" where
  "urlencoded_byte_encode input out = fold encode_byte input out"

primrec serialize_loop :: "(string \<times> string) list \<Rightarrow> bool \<Rightarrow> string \<Rightarrow> string" where
  "serialize_loop [] first out = out"
| "serialize_loop (p # ps) first out =
     (let out = (if first then out else out @ ''&'') in
      let out = urlencoded_byte_encode (fst p) out in
      let out = out @ ''='' in
      let out = urlencoded_byte_encode (snd p) out
      in serialize_loop ps False out)"

definition serialize_pairs :: "(string \<times> string) list \<Rightarrow> string" where
  "serialize_pairs ps = serialize_loop ps True []"

subsection \<open>The object\<close>

record UrlSearchParams =
  usp_pairs :: "(string \<times> string) list"

definition UrlSearchParams_parse :: "string \<Rightarrow> UrlSearchParams" where
  "UrlSearchParams_parse input = \<lparr>usp_pairs = parse_pairs input\<rparr>"

definition UrlSearchParams_new :: UrlSearchParams where
  "UrlSearchParams_new = \<lparr>usp_pairs = []\<rparr>"

definition UrlSearchParams_get :: "UrlSearchParams \<Rightarrow> string \<Rightarrow> string option" where
  "UrlSearchParams_get p name = map_option snd (find (\<lambda>(n, _). n = name) (usp_pairs p))"

definition UrlSearchParams_get_all :: "UrlSearchParams \<Rightarrow> string \<Rightarrow> string list" where
  "UrlSearchParams_get_all p name = map snd (filter (\<lambda>(n, _). n = name) (usp_pairs p))"

definition UrlSearchParams_has :: "UrlSearchParams \<Rightarrow> string \<Rightarrow> bool" where
  "UrlSearchParams_has p name = list_ex (\<lambda>(n, _). n = name) (usp_pairs p)"

definition UrlSearchParams_has_pair :: "UrlSearchParams \<Rightarrow> string \<Rightarrow> string \<Rightarrow> bool" where
  "UrlSearchParams_has_pair p name val = list_ex (\<lambda>(n, v). n = name \<and> v = val) (usp_pairs p)"

definition UrlSearchParams_append :: "UrlSearchParams \<Rightarrow> string \<Rightarrow> string \<Rightarrow> UrlSearchParams" where
  "UrlSearchParams_append p name val = p\<lparr>usp_pairs := usp_pairs p @ [(name, val)]\<rparr>"

primrec set_loop :: "string \<Rightarrow> string \<Rightarrow> (string \<times> string) list \<Rightarrow> bool \<Rightarrow> (string \<times> string) list \<Rightarrow> (string \<times> string) list" where
  "set_loop name val [] inserted nxt = (if \<not> inserted then nxt @ [(name, val)] else nxt)"
| "set_loop name val (p # ps) inserted nxt =
     (if fst p \<noteq> name then set_loop name val ps inserted (nxt @ [p])
      else if \<not> inserted then set_loop name val ps True (nxt @ [(name, val)])
      else set_loop name val ps inserted nxt)"

definition UrlSearchParams_set :: "UrlSearchParams \<Rightarrow> string \<Rightarrow> string \<Rightarrow> UrlSearchParams" where
  "UrlSearchParams_set p name val = p\<lparr>usp_pairs := set_loop name val (usp_pairs p) False []\<rparr>"

definition UrlSearchParams_delete :: "UrlSearchParams \<Rightarrow> string \<Rightarrow> UrlSearchParams" where
  "UrlSearchParams_delete p name = p\<lparr>usp_pairs := filter (\<lambda>(n, _). n \<noteq> name) (usp_pairs p)\<rparr>"

definition UrlSearchParams_delete_pair :: "UrlSearchParams \<Rightarrow> string \<Rightarrow> string \<Rightarrow> UrlSearchParams" where
  "UrlSearchParams_delete_pair p name val = p\<lparr>usp_pairs := filter (\<lambda>(n, v). \<not> (n = name \<and> v = val)) (usp_pairs p)\<rparr>"

definition UrlSearchParams_sort :: "UrlSearchParams \<Rightarrow> UrlSearchParams" where
  "UrlSearchParams_sort p = p\<lparr>usp_pairs := sort_key fst (usp_pairs p)\<rparr>"

definition UrlSearchParams_len :: "UrlSearchParams \<Rightarrow> usize" where
  "UrlSearchParams_len p = length (usp_pairs p)"

definition UrlSearchParams_is_empty :: "UrlSearchParams \<Rightarrow> bool" where
  "UrlSearchParams_is_empty p \<longleftrightarrow> usp_pairs p = []"

definition UrlSearchParams_serialize :: "UrlSearchParams \<Rightarrow> string" where
  "UrlSearchParams_serialize p = serialize_pairs (usp_pairs p)"

definition UrlSearchParams_entries :: "UrlSearchParams \<Rightarrow> (string \<times> string) list" where
  "UrlSearchParams_entries p = usp_pairs p"

definition UrlSearchParams_keys :: "UrlSearchParams \<Rightarrow> string list" where
  "UrlSearchParams_keys p = map fst (usp_pairs p)"

definition UrlSearchParams_values :: "UrlSearchParams \<Rightarrow> string list" where
  "UrlSearchParams_values p = map snd (usp_pairs p)"

subsection \<open>The contract of a form encoding\<close>

text \<open>What the parser needs of an encoder of single bytes, and of the loop around it: the encoder only appends,
  never a separator, a question mark or nothing, and decoding gives the byte back.\<close>

locale form_encoder =
  fixes enc :: "char \<Rightarrow> string \<Rightarrow> string"
  assumes enc_appends: "enc b out = out @ enc b []"
    and enc_clean: "set (enc b []) \<inter> {CHR ''&'', CHR ''='', CHR ''?''} = {}"
    and enc_decodes: "percent_decode_bytes (enc b [] @ t) = b # percent_decode_bytes t"
begin

lemma fold_appends: "fold enc s out = out @ fold enc s []"
proof (induction s arbitrary: out)
  case (Cons b s)
  have "fold enc (b # s) out = (out @ enc b []) @ fold enc s []"
    using Cons [of "enc b out"] enc_appends [of b out] by simp
  also have "\<dots> = out @ fold enc (b # s) []" using Cons [of "enc b []"] by simp
  finally show ?case .
qed simp

lemma fold_clean: "set (fold enc s []) \<inter> {CHR ''&'', CHR ''='', CHR ''?''} = {}"
proof (induction s)
  case (Cons b s)
  with enc_clean [of b] fold_appends [of s "enc b []"] show ?case by auto
qed simp

lemma fold_decodes: "percent_decode_bytes (fold enc s []) = s"
proof (induction s)
  case (Cons b s)
  with enc_decodes [of b "fold enc s []"] fold_appends [of s "enc b []"] show ?case by simp
qed simp

lemma decoded_text: "utf8_valid s \<Longrightarrow> percent_decode_tf8 (fold enc s []) = s"
  by (simp add: percent_decode_tf8_def fold_decodes from_utf8_lossy_valid)

definition pair_text :: "string \<times> string \<Rightarrow> string" where
  "pair_text p = fold enc (fst p) [] @ ''='' @ fold enc (snd p) []"

lemma parse_tuple_text:
  "utf8_valid (fst p) \<Longrightarrow> utf8_valid (snd p) \<Longrightarrow> parse_tuple (pair_text p) = p"
  using fold_clean [of "fst p"] by (simp add: parse_tuple_def pair_text_def split_once_append decoded_text)

lemma split_joined:
  "str_split ''&'' (str_join ''&'' (map pair_text (p # ps))) = map pair_text (p # ps)"
proof (induction ps arbitrary: p)
  case Nil
  have "CHR ''&'' \<notin> set (pair_text p)" using fold_clean [of "fst p"] fold_clean [of "snd p"] by (auto simp: pair_text_def)
  then show ?case by (simp add: str_split_free)
next
  case (Cons q qs)
  have "CHR ''&'' \<notin> set (pair_text p)" using fold_clean [of "fst p"] fold_clean [of "snd p"] by (auto simp: pair_text_def)
  with Cons [of q] show ?case by (simp add: str_split_append str_split_free)
qed

text \<open>A joined list of encoded pairs is parsed as those pairs.\<close>

lemma parse_joined:
  assumes "list_all (\<lambda>p. utf8_valid (fst p) \<and> utf8_valid (snd p)) ps"
  shows "parse_pairs (str_join ''&'' (map pair_text ps)) = ps"
proof (cases ps)
  case Nil
  then show ?thesis by (simp add: parse_pairs_def strip_prefix_def str_starts_with_iff)
next
  case (Cons p qs)
  have "CHR ''?'' \<notin> set (pair_text p)"
    using fold_clean [of "fst p"] fold_clean [of "snd p"] by (auto simp: pair_text_def)
  moreover have nonempty: "pair_text q \<noteq> []" for q by (simp add: pair_text_def)
  ultimately have "strip_prefix (str_join ''&'' (map pair_text ps)) ''?'' = None"
    by (cases qs; cases "pair_text p") (auto simp: Cons strip_prefix_def str_starts_with_iff nonempty)
  moreover have "filter (\<lambda>t. t \<noteq> []) (map pair_text ps) = map pair_text ps" by (simp add: filter_id_conv nonempty)
  moreover have "map parse_tuple (map pair_text ps) = ps"
    using assms by (induction ps) (simp_all add: parse_tuple_text)
  ultimately show ?thesis using split_joined [of p qs] by (simp add: parse_pairs_def Cons)
qed

end

text \<open>The encoder of the module keeps the contract.\<close>

lemma hex_digit_nibble: "n < 16 \<Longrightarrow> hex_val (hex_digit n) = Some n \<and> url_safe (hex_digit n)"
proof -
  assume "n < 16"
  moreover have "list_all (\<lambda>n. hex_val (hex_digit n) = Some n \<and> url_safe (hex_digit n)) [0..<16]"
    by (simp add: hex_val_def hex_digit_def url_safe_def byte_def upt_rec)
  ultimately show ?thesis by (simp add: list_all_iff)
qed

lemma nibbles:
  "drop_bit 4 (byte b) < 16" "and (byte b) 0x0F < 16" "or (push_bit 4 (drop_bit 4 (byte b))) (and (byte b) 0x0F) = byte b"
proof -
  have low: "and (byte b) 0x0F = take_bit 4 (byte b)" by (simp add: take_bit_eq_mask mask_eq_exp_minus_1)
  have "byte b = byte b mod 256" by (simp add: byte_def)
  then have "byte b < 256" by (metis mod_less_divisor zero_less_numeral)
  then show "drop_bit 4 (byte b) < 16" by (simp add: drop_bit_eq_div)
  show "and (byte b) 0x0F < 16" by (simp add: low take_bit_eq_mod)
  show "or (push_bit 4 (drop_bit 4 (byte b))) (and (byte b) 0x0F) = byte b"
    unfolding low by (rule bit_eqI) (auto simp: bit_or_iff bit_push_bit_iff_nat bit_drop_bit_eq bit_take_bit_iff)
qed

lemma hex_digits_decode:
  "escaped_byte (CHR ''%'' # hex_digit (drop_bit 4 (byte b)) # hex_digit (and (byte b) 0x0F) # t) = Some b"
  using hex_digit_nibble [OF nibbles(1) [of b]] hex_digit_nibble [OF nibbles(2) [of b]] nibbles(3) [of b]
  by (simp add: byte_def)

lemma hex_digits_clean:
  "url_safe (hex_digit (drop_bit 4 (byte b))) \<and> url_safe (hex_digit (and (byte b) 0x0F))"
  using hex_digit_nibble nibbles by simp

lemma url_safe_not: "url_safe c \<Longrightarrow> c \<notin> set ''&=?%+ ''"
  by (auto simp: url_safe_def byte_def)

interpretation search_params: form_encoder encode_byte
proof
  fix b out t
  show "encode_byte b out = out @ encode_byte b []" by (simp add: encode_byte_def push_upper_hex_def)
  show "set (encode_byte b []) \<inter> {CHR ''&'', CHR ''='', CHR ''?''} = {}"
    using hex_digits_clean [of b] url_safe_not [of b] url_safe_not [of "hex_digit (drop_bit 4 (byte b))"]
      url_safe_not [of "hex_digit (and (byte b) 0x0F)"]
    by (auto simp: encode_byte_def push_upper_hex_def)
  show "percent_decode_bytes (encode_byte b [] @ t) = b # percent_decode_bytes t"
  proof -
    have plain: "escaped_byte (c # t) = None" if "c \<noteq> CHR ''%''" for c
      using that by (cases "c # t" rule: escaped_byte.cases) auto
    have "percent_decode_bytes ([b] @ t) = b # percent_decode_bytes t" if "url_safe b"
      using url_safe_not [OF that] plain [of b] by simp
    moreover have "percent_decode_bytes (CHR ''+'' # t) = CHR '' '' # percent_decode_bytes t" using plain [of "CHR ''+''"] by simp
    moreover have "percent_decode_bytes (push_upper_hex b ''%'' @ t) = b # percent_decode_bytes t"
      using hex_digits_decode [of b t] by (simp add: push_upper_hex_def del: escaped_byte.simps)
    ultimately show ?thesis by (auto simp: encode_byte_def simp del: percent_decode_bytes.simps)
  qed
qed

lemma serialize_loop_join:
  "serialize_loop ps first out =
     out @ (if ps = [] \<or> first then [] else ''&'') @ str_join ''&'' (map search_params.pair_text ps)"
proof (induction ps arbitrary: first out)
  case (Cons p ps)
  have app: "urlencoded_byte_encode s out = out @ fold encode_byte s []" for s out
    unfolding urlencoded_byte_encode_def by (rule search_params.fold_appends)
  show ?case by (simp add: Cons app search_params.pair_text_def)
qed simp

lemma serialize_pairs_join: "serialize_pairs ps = str_join ''&'' (map search_params.pair_text ps)"
  by (simp add: serialize_pairs_def serialize_loop_join)

lemma set_loop_eq:
  "set_loop name val ps inserted nxt =
     nxt @ (if inserted then filter (\<lambda>p. fst p \<noteq> name) ps
            else takeWhile (\<lambda>p. fst p \<noteq> name) ps @ (name, val) # filter (\<lambda>p. fst p \<noteq> name) (dropWhile (\<lambda>p. fst p \<noteq> name) ps))"
  by (induction ps arbitrary: inserted nxt) auto

subsection \<open>Properties\<close>

text \<open>C33: a list of search parameters survives being serialized and parsed again, whatever its names and values are:
  separators, plus and percent signs, spaces, empty names and values, repeated names, characters beyond ASCII.
  Names and values are \<open>String\<close>s, so their bytes are valid UTF-8, which is the hypothesis.\<close>

theorem search_params_roundtrip:
  assumes "list_all (\<lambda>p. utf8_valid (fst p) \<and> utf8_valid (snd p)) (usp_pairs params)"
  shows "UrlSearchParams_parse (UrlSearchParams_serialize params) = params"
  using search_params.parse_joined [OF assms]
  by (simp add: UrlSearchParams_parse_def UrlSearchParams_serialize_def serialize_pairs_join)

theorem search_params_roundtrip_witness:
  "UrlSearchParams_parse (UrlSearchParams_serialize
     \<lparr>usp_pairs = [(''a&b'', ''1 + 1 = 2''), ([], [CHR 0xC3, CHR 0xA9]), (''a&b'', [])]\<rparr>)
   = \<lparr>usp_pairs = [(''a&b'', ''1 + 1 = 2''), ([], [CHR 0xC3, CHR 0xA9]), (''a&b'', [])]\<rparr>"
  by (rule search_params_roundtrip) (simp add: byte_def utf8_rest_def)

lemma get_all_set:
  "UrlSearchParams_get_all (UrlSearchParams_set p n v) m = (if m = n then [v] else UrlSearchParams_get_all p m)"
proof -
  have "map snd (filter (\<lambda>(k, _). k = m) (takeWhile (\<lambda>p. fst p \<noteq> n) ps @ (n, v) # filter (\<lambda>p. fst p \<noteq> n) (dropWhile (\<lambda>p. fst p \<noteq> n) ps)))
      = (if m = n then [v] else map snd (filter (\<lambda>(k, _). k = m) ps))" for ps :: "(string \<times> string) list"
    by (induction ps) (auto simp: filter_empty_conv intro!: arg_cong [where f = "map snd"] filter_cong)
  then show ?thesis by (simp add: UrlSearchParams_get_all_def UrlSearchParams_set_def set_loop_eq)
qed

lemma get_all_delete_pair:
  "UrlSearchParams_get_all (UrlSearchParams_delete_pair p n v) m =
     (if m = n then removeAll v (UrlSearchParams_get_all p m) else UrlSearchParams_get_all p m)"
proof -
  have "map snd (filter (\<lambda>(k, _). k = m) (filter (\<lambda>(k, w). \<not> (k = n \<and> w = v)) ps))
      = (if m = n then removeAll v (map snd (filter (\<lambda>(k, _). k = m) ps)) else map snd (filter (\<lambda>(k, _). k = m) ps))"
    for ps :: "(string \<times> string) list"
    by (induction ps) auto
  then show ?thesis by (simp add: UrlSearchParams_get_all_def UrlSearchParams_delete_pair_def)
qed

lemma get_all_sort: "UrlSearchParams_get_all (UrlSearchParams_sort p) m = UrlSearchParams_get_all p m"
proof -
  have "(\<lambda>(k, _). k = m) = (\<lambda>q :: string \<times> string. fst q = m)" by auto
  then show ?thesis
    by (simp add: UrlSearchParams_get_all_def UrlSearchParams_sort_def sort_key_stable [of fst])
qed

lemma get_first: "UrlSearchParams_get p n = (case UrlSearchParams_get_all p n of [] \<Rightarrow> None | x # _ \<Rightarrow> Some x)"
proof -
  have "map_option snd (find (\<lambda>(k, _). k = n) ps) = (case map snd (filter (\<lambda>(k, _). k = n) ps) of [] \<Rightarrow> None | x # _ \<Rightarrow> Some x)"
    for ps :: "(string \<times> string) list" by (induction ps) auto
  then show ?thesis by (simp add: UrlSearchParams_get_def UrlSearchParams_get_all_def)
qed

text \<open>The parameters behave as an ordered map from names to lists of values. Setting a name leaves it with one value
  and every other name as it was; appending adds a value at the end of the list of its name; deleting removes a
  name; deleting a pair removes only that value; sorting orders the names and moves no value within a name; the
  first value is what a single lookup returns.\<close>

theorem search_params_multimap:
  "UrlSearchParams_get_all (UrlSearchParams_set p n v) = (UrlSearchParams_get_all p)(n := [v])
   \<and> UrlSearchParams_get_all (UrlSearchParams_append p n v) = (UrlSearchParams_get_all p)(n := UrlSearchParams_get_all p n @ [v])
   \<and> UrlSearchParams_get_all (UrlSearchParams_delete p n) = (UrlSearchParams_get_all p)(n := [])
   \<and> UrlSearchParams_get_all (UrlSearchParams_delete_pair p n v) = (UrlSearchParams_get_all p)(n := removeAll v (UrlSearchParams_get_all p n))
   \<and> UrlSearchParams_get_all (UrlSearchParams_sort p) = UrlSearchParams_get_all p
   \<and> sorted (UrlSearchParams_keys (UrlSearchParams_sort p))
   \<and> UrlSearchParams_get p n = (case UrlSearchParams_get_all p n of [] \<Rightarrow> None | x # _ \<Rightarrow> Some x)
   \<and> UrlSearchParams_has p n = (UrlSearchParams_get_all p n \<noteq> [])
   \<and> UrlSearchParams_has_pair p n v = (v \<in> set (UrlSearchParams_get_all p n))"
proof (intro conjI)
  show "UrlSearchParams_get_all (UrlSearchParams_append p n v) = (UrlSearchParams_get_all p)(n := UrlSearchParams_get_all p n @ [v])"
    by (auto simp: UrlSearchParams_get_all_def UrlSearchParams_append_def)
  show "UrlSearchParams_get_all (UrlSearchParams_delete p n) = (UrlSearchParams_get_all p)(n := [])"
    by (auto simp: UrlSearchParams_get_all_def UrlSearchParams_delete_def filter_empty_conv intro!: arg_cong [where f = "map snd"] filter_cong)
  show "sorted (UrlSearchParams_keys (UrlSearchParams_sort p))"
    by (simp add: UrlSearchParams_keys_def UrlSearchParams_sort_def)
  show "UrlSearchParams_has p n = (UrlSearchParams_get_all p n \<noteq> [])"
    by (auto simp: UrlSearchParams_has_def UrlSearchParams_get_all_def list_ex_iff filter_empty_conv)
  show "UrlSearchParams_has_pair p n v = (v \<in> set (UrlSearchParams_get_all p n))"
    by (force simp: UrlSearchParams_has_pair_def UrlSearchParams_get_all_def list_ex_iff)
qed (auto simp: get_all_set get_all_delete_pair get_all_sort get_first)

end
