(* ===== verification/Form_Submission.thy ===== *)
theory Form_Submission
  imports Search_Params
begin

section \<open>Form submission\<close>

text \<open>
  \<open>vixen-engine/src/form_submission.rs\<close>: the entries of a form and the three encodings of them. The counter behind
  \<open>boundary_suffix\<close> is state that is passed explicitly. The last part defines a reader of
  \<open>multipart/form-data\<close> bodies as a receiver has one, and shows what it recovers.
\<close>

subsection \<open>Entries and encodings\<close>

datatype FormEntryValue =
    FormText string
  | FormFile (file_name: string) (file_content_type: string) (file_body: string)

record FormEntry =
  fe_name :: string
  fe_value :: FormEntryValue

definition FormEntry_text :: "string \<Rightarrow> string \<Rightarrow> FormEntry" where
  "FormEntry_text name val = \<lparr>fe_name = name, fe_value = FormText val\<rparr>"

definition FormEntry_file :: "string \<Rightarrow> string \<Rightarrow> string \<Rightarrow> string \<Rightarrow> FormEntry" where
  "FormEntry_file name filename content_type body = \<lparr>fe_name = name, fe_value = FormFile filename content_type body\<rparr>"

definition FormEntry_textual_value :: "FormEntry \<Rightarrow> string" where
  "FormEntry_textual_value e = (case fe_value e of FormText s \<Rightarrow> s | FormFile filename _ _ \<Rightarrow> filename)"

datatype FormEnctype = Urlencoded | MultipartFormData | TextPlain

definition FormEnctype_default :: FormEnctype where
  "FormEnctype_default = Urlencoded"

definition FormEnctype_mime_type :: "FormEnctype \<Rightarrow> string" where
  "FormEnctype_mime_type t =
     (case t of
        Urlencoded \<Rightarrow> ''application/x-www-form-urlencoded''
      | MultipartFormData \<Rightarrow> ''multipart/form-data''
      | TextPlain \<Rightarrow> ''text/plain'')"

definition FormEnctype_parse :: "string \<Rightarrow> FormEnctype option" where
  "FormEnctype_parse s =
     (let t = str_trim s in
      if t = ''application/x-www-form-urlencoded'' then Some Urlencoded
      else if t = ''multipart/form-data'' then Some MultipartFormData
      else if t = ''text/plain'' then Some TextPlain
      else None)"

subsection \<open>\<open>application/x-www-form-urlencoded\<close>\<close>

definition form_hex_digit :: "nat \<Rightarrow> char" where
  "form_hex_digit n = (if n \<le> 9 then char_of (48 + n) else char_of (65 + (n - 10)))"

definition form_push_upper_hex :: "char \<Rightarrow> string \<Rightarrow> string" where
  "form_push_upper_hex b out = out @ [form_hex_digit (drop_bit 4 (byte b)), form_hex_digit (and (byte b) 0x0F)]"

definition form_encode_byte :: "char \<Rightarrow> string \<Rightarrow> string" where
  "form_encode_byte b out =
     (if b = CHR '' '' then out @ ''+''
      else if b \<in> set ''*-._'' then out @ [b]
      else if 48 \<le> byte b \<and> byte b \<le> 57 \<or> 65 \<le> byte b \<and> byte b \<le> 90 \<or> 97 \<le> byte b \<and> byte b \<le> 122 then out @ [b]
      else form_push_upper_hex b (out @ ''%''))"

definition form_byte_encode :: "string \<Rightarrow> string \<Rightarrow> string" where
  "form_byte_encode input out = fold form_encode_byte input out"

primrec encode_urlencoded_loop :: "FormEntry list \<Rightarrow> usize \<Rightarrow> string \<Rightarrow> string" where
  "encode_urlencoded_loop [] i out = out"
| "encode_urlencoded_loop (e # es) i out =
     (let out = (if 0 < i then out @ ''&'' else out) in
      let out = form_byte_encode (fe_name e) out in
      let out = out @ ''='' in
      let out = form_byte_encode (FormEntry_textual_value e) out
      in encode_urlencoded_loop es (i + 1) out)"

definition encode_urlencoded :: "FormEntry list \<Rightarrow> string" where
  "encode_urlencoded es = encode_urlencoded_loop es 0 []"

subsection \<open>\<open>text/plain\<close>\<close>

definition CRLF :: string where
  "CRLF = [CHR 0x0D, CHR 0x0A]"

definition encode_text_plain :: "FormEntry list \<Rightarrow> string" where
  "encode_text_plain es = fold (\<lambda>e out. out @ fe_name e @ ''='' @ FormEntry_textual_value e @ CRLF) es []"

subsection \<open>\<open>multipart/form-data\<close>\<close>

definition escape_quoted_byte :: "char \<Rightarrow> string \<Rightarrow> string" where
  "escape_quoted_byte b out =
     (if b = CHR 0x22 \<or> b = CHR 0x5C then out @ [CHR 0x5C, b]
      else if b = CHR 0x0D \<or> b = CHR 0x0A then out
      else out @ [b])"

definition append_escaped_quoted :: "string \<Rightarrow> string \<Rightarrow> string" where
  "append_escaped_quoted s out = fold escape_quoted_byte s out"

definition encode_part :: "string \<Rightarrow> FormEntry \<Rightarrow> string \<Rightarrow> string" where
  "encode_part boundary e out =
     (let out = out @ ''--'' @ boundary @ CRLF;
          out = out @ ''Content-Disposition: form-data; name='' @ [CHR 0x22];
          out = append_escaped_quoted (fe_name e) out;
          out = (case fe_value e of
              FormText _ \<Rightarrow> out @ [CHR 0x22] @ CRLF @ CRLF
            | FormFile filename content_type body \<Rightarrow>
                (let out = out @ [CHR 0x22] @ ''; filename='' @ [CHR 0x22];
                     out = append_escaped_quoted filename out;
                     out = out @ [CHR 0x22] @ CRLF @ ''Content-Type: ''
                 in out @ content_type @ CRLF @ CRLF @ body));
          out = (case fe_value e of FormText s \<Rightarrow> out @ s | FormFile _ _ _ \<Rightarrow> out)
      in out @ CRLF)"

definition encode_multipart :: "FormEntry list \<Rightarrow> string \<Rightarrow> string" where
  "encode_multipart es boundary = fold (encode_part boundary) es [] @ ''--'' @ boundary @ ''--'' @ CRLF"

definition multipart_content_type :: "string \<Rightarrow> string" where
  "multipart_content_type boundary = ''multipart/form-data; boundary='' @ boundary"

text \<open>\<open>format!("{n:016x}")\<close>: sixteen lower-case digits, which is enough for every \<open>u64\<close>.\<close>

definition lower_hex_digit :: "nat \<Rightarrow> char" where
  "lower_hex_digit n = (if n \<le> 9 then char_of (48 + n) else char_of (97 + (n - 10)))"

definition format_016x :: "u64 \<Rightarrow> string" where
  "format_016x n = map (\<lambda>k. lower_hex_digit (unat n div 16 ^ k mod 16)) (rev [0..<16])"

text \<open>The counter starts at one; \<open>fetch_add\<close> wraps.\<close>

definition boundary_suffix :: "u64 \<Rightarrow> u64 \<times> string" where
  "boundary_suffix counter = (counter + 1, format_016x counter)"

definition generate_boundary :: "u64 \<Rightarrow> u64 \<times> string" where
  "generate_boundary counter =
     (let (counter', suffix) = boundary_suffix counter in (counter', ''----vixenformboundary'' @ suffix))"

definition estimate_multipart_size :: "FormEntry list \<Rightarrow> string \<Rightarrow> usize" where
  "estimate_multipart_size es boundary =
     (let per_part_overhead = 80 + length boundary;
          body_total = sum_list (map (\<lambda>e. case fe_value e of FormText s \<Rightarrow> length s | FormFile _ _ body \<Rightarrow> length body) es)
      in length es * per_part_overhead + body_total + length boundary + 6)"

subsection \<open>The URL encoding keeps the contract of the parser\<close>

lemma form_encode_byte_eq: "form_encode_byte b out = encode_byte b out"
  by (auto simp: form_encode_byte_def encode_byte_def url_safe_def form_push_upper_hex_def push_upper_hex_def
      form_hex_digit_def hex_digit_def)

interpretation form: form_encoder form_encode_byte
  unfolding form_encode_byte_eq by (rule search_params.form_encoder_axioms)

definition entry_pair :: "FormEntry \<Rightarrow> string \<times> string" where
  "entry_pair e = (fe_name e, FormEntry_textual_value e)"

lemma encode_urlencoded_join:
  "encode_urlencoded_loop es i out =
     out @ (if es = [] \<or> i = 0 then [] else ''&'') @ str_join ''&'' (map (form.pair_text \<circ> entry_pair) es)"
proof (induction es arbitrary: i out)
  case (Cons e es)
  have app: "form_byte_encode s out = out @ fold form_encode_byte s []" for s out
    unfolding form_byte_encode_def by (rule form.fold_appends)
  show ?case by (simp add: Cons app form.pair_text_def entry_pair_def)
qed simp

subsection \<open>A receiver of multipart bodies\<close>

text \<open>A quoted string up to its closing quote; the part of the input before the first occurrence of a
  delimiter.\<close>

fun read_quoted :: "string \<Rightarrow> (string \<times> string) option" where
  "read_quoted [] = None"
| "read_quoted (c # s) =
     (if c = CHR 0x22 then Some ([], s)
      else if c = CHR 0x5C then
        (case s of [] \<Rightarrow> None | d # t \<Rightarrow> map_option (\<lambda>(q, r). (d # q, r)) (read_quoted t))
      else map_option (\<lambda>(q, r). (c # q, r)) (read_quoted s))"

primrec read_until :: "string \<Rightarrow> string \<Rightarrow> (string \<times> string) option" where
  "read_until d [] = (if d = [] then Some ([], []) else None)"
| "read_until d (c # s) =
     (if take (length d) (c # s) = d then Some ([], drop (length d) (c # s))
      else map_option (\<lambda>(p, r). (c # p, r)) (read_until d s))"

definition read_entry :: "string \<Rightarrow> string \<Rightarrow> (FormEntry \<times> string) option" where
  "read_entry delim s =
     Option.bind (strip_prefix s (''Content-Disposition: form-data; name='' @ [CHR 0x22])) (\<lambda>s.
     Option.bind (read_quoted s) (\<lambda>(name, s).
       case strip_prefix s (CRLF @ CRLF) of
         Some s \<Rightarrow> map_option (\<lambda>(val, r). (FormEntry_text name val, r)) (read_until delim s)
       | None \<Rightarrow>
           Option.bind (strip_prefix s (''; filename='' @ [CHR 0x22])) (\<lambda>s.
           Option.bind (read_quoted s) (\<lambda>(filename, s).
           Option.bind (strip_prefix s (CRLF @ ''Content-Type: '')) (\<lambda>s.
           Option.bind (read_until (CRLF @ CRLF) s) (\<lambda>(content_type, s).
             map_option (\<lambda>(body, r). (FormEntry_file name filename content_type body, r)) (read_until delim s)))))))"

text \<open>After a delimiter the body either ends or goes on with a part. The number of parts is not known in advance,
  so the length of the input bounds the recursion.\<close>

primrec read_parts :: "nat \<Rightarrow> string \<Rightarrow> string \<Rightarrow> FormEntry list option" where
  "read_parts 0 delim s = None"
| "read_parts (Suc n) delim s =
     (if s = ''--'' @ CRLF then Some []
      else Option.bind (strip_prefix s CRLF) (\<lambda>s.
        Option.bind (read_entry delim s) (\<lambda>(e, s). map_option ((#) e) (read_parts n delim s))))"

definition read_multipart :: "string \<Rightarrow> string \<Rightarrow> FormEntry list option" where
  "read_multipart boundary body =
     Option.bind (strip_prefix body (''--'' @ boundary)) (\<lambda>s. read_parts (length s) (CRLF @ ''--'' @ boundary) s)"

definition without_line_breaks :: "string \<Rightarrow> string" where
  "without_line_breaks s = filter (\<lambda>c. c \<noteq> CHR 0x0D \<and> c \<noteq> CHR 0x0A) s"

definition received :: "FormEntry \<Rightarrow> FormEntry" where
  "received e = \<lparr>fe_name = without_line_breaks (fe_name e), fe_value = (case fe_value e of
     FormText s \<Rightarrow> FormText s
   | FormFile filename content_type body \<Rightarrow> FormFile (without_line_breaks filename) content_type body)\<rparr>"

text \<open>What the caller has to ensure: the delimiter does not occur in a value, and a content type is one line.\<close>

primrec occurs :: "string \<Rightarrow> string \<Rightarrow> bool" where
  "occurs d [] \<longleftrightarrow> d = []"
| "occurs d (c # s) \<longleftrightarrow> take (length d) (c # s) = d \<or> occurs d s"

definition sendable_entry :: "string \<Rightarrow> FormEntry \<Rightarrow> bool" where
  "sendable_entry boundary e =
     (case fe_value e of
        FormText s \<Rightarrow> \<not> occurs (CRLF @ ''--'' @ boundary) s
      | FormFile _ content_type body \<Rightarrow> CHR 0x0D \<notin> set content_type \<and> \<not> occurs (CRLF @ ''--'' @ boundary) body)"

subsection \<open>What the receiver recovers\<close>

lemma read_until_here: "read_until d (d @ r) = Some ([], r)"
  by (cases d; cases r) simp_all

lemma read_until_line: "d = c # d' \<Longrightarrow> c \<notin> set p \<Longrightarrow> read_until d (p @ d @ r) = Some (p, r)"
  by (induction p) (auto simp: read_until_here [of "c # d'", simplified])

text \<open>A delimiter whose first byte does not occur in the rest of it cannot begin in a value and end in the
  delimiter that follows.\<close>

lemma delimiter_not_straddled:
  assumes "take (length d) (p @ d @ r) = d" and "d = c # d'" and "c \<notin> set d'" and "p \<noteq> []"
  shows "take (length d) p = d"
proof (rule ccontr)
  assume other: "take (length d) p \<noteq> d"
  have "length p < length d"
  proof (rule ccontr)
    assume "\<not> length p < length d"
    with assms(1) other show False by simp
  qed
  with assms(1) have "p @ take (length d - length p) (d @ r) = d" by simp
  then have "d ! length p = take (length d - length p) (d @ r) ! 0"
    using \<open>length p < length d\<close> by (metis append_Nil2 nth_append_length_plus add.right_neutral)
  with \<open>length p < length d\<close> assms(2) have "d ! length p = c" by simp
  moreover from \<open>length p < length d\<close> assms(2,4) have "d ! length p \<in> set d'" by (cases p) auto
  ultimately show False using assms(3) by simp
qed

lemma read_until_delimiter:
  "d = c # d' \<Longrightarrow> c \<notin> set d' \<Longrightarrow> \<not> occurs d p \<Longrightarrow> read_until d (p @ d @ r) = Some (p, r)"
proof (induction p)
  case Nil
  then show ?case by (simp add: read_until_here [of "c # d'", simplified])
next
  case (Cons a p)
  have "take (length d) ((a # p) @ d @ r) \<noteq> d"
    using delimiter_not_straddled [of d "a # p" r c d'] Cons.prems by auto
  with Cons show ?case by simp
qed

lemma escape_appends: "append_escaped_quoted s out = out @ append_escaped_quoted s []"
proof (induction s arbitrary: out)
  case (Cons b s)
  have "escape_quoted_byte b out = out @ escape_quoted_byte b []" by (simp add: escape_quoted_byte_def)
  with Cons [of "escape_quoted_byte b out"] Cons [of "escape_quoted_byte b []"] show ?case
    by (simp add: append_escaped_quoted_def)
qed (simp add: append_escaped_quoted_def)

lemma read_quoted_escaped:
  "read_quoted (append_escaped_quoted s [] @ CHR 0x22 # r) = Some (without_line_breaks s, r)"
proof (induction s)
  case (Cons b s)
  have "append_escaped_quoted (b # s) [] = escape_quoted_byte b [] @ append_escaped_quoted s []"
    using escape_appends [of s "escape_quoted_byte b []"] by (simp add: append_escaped_quoted_def)
  with Cons show ?case by (auto simp: escape_quoted_byte_def without_line_breaks_def)
qed (simp add: append_escaped_quoted_def without_line_breaks_def)

text \<open>A part is the delimiter line and an entry text.\<close>

definition entry_text :: "FormEntry \<Rightarrow> string" where
  "entry_text e =
     ''Content-Disposition: form-data; name='' @ [CHR 0x22] @ append_escaped_quoted (fe_name e) [] @ [CHR 0x22] @
     (case fe_value e of
        FormText s \<Rightarrow> CRLF @ CRLF @ s
      | FormFile filename content_type body \<Rightarrow>
          ''; filename='' @ [CHR 0x22] @ append_escaped_quoted filename [] @ [CHR 0x22] @ CRLF @ ''Content-Type: '' @
          content_type @ CRLF @ CRLF @ body)"

lemma encode_part_text: "encode_part boundary e out = out @ ''--'' @ boundary @ CRLF @ entry_text e @ CRLF"
proof -
  define q where "q s = append_escaped_quoted s []" for s
  have app: "append_escaped_quoted s out = out @ q s" for s out
    unfolding q_def by (rule escape_appends)
  show ?thesis by (cases "fe_value e") (simp_all add: encode_part_def entry_text_def Let_def app)
qed

lemma read_entry_text:
  assumes "sendable_entry boundary e" and "CHR 0x0D \<notin> set boundary" and "delim = CRLF @ ''--'' @ boundary"
  shows "read_entry delim (entry_text e @ delim @ r) = Some (received e, r)"
proof -
  have d: "delim = CHR 0x0D # CHR 0x0A # ''--'' @ boundary" using assms(3) by (simp add: CRLF_def)
  have val: "read_until delim (v @ delim @ r) = Some (v, r)" if "\<not> occurs delim v" for v
    by (rule read_until_delimiter [OF d _ that]) (use assms(2) in simp)
  show ?thesis
  proof (cases "fe_value e")
    case (FormText s)
    with assms(1,3) have "\<not> occurs delim s" by (simp add: sendable_entry_def)
    with val FormText show ?thesis
      by (simp add: read_entry_def entry_text_def received_def FormEntry_text_def strip_prefix_def str_starts_with_iff
          read_quoted_escaped CRLF_def)
  next
    case (FormFile filename content_type body)
    with assms(1,3) have "\<not> occurs delim body" "CHR 0x0D \<notin> set content_type" by (simp_all add: sendable_entry_def)
    moreover from this(2) have "read_until (CRLF @ CRLF) (content_type @ CRLF @ CRLF @ t) = Some (content_type, t)" for t
      using read_until_line [of "CRLF @ CRLF" "CHR 0x0D" _ content_type t] by (simp add: CRLF_def)
    ultimately show ?thesis using val FormFile
      by (simp add: read_entry_def entry_text_def received_def FormEntry_file_def strip_prefix_def str_starts_with_iff
          read_quoted_escaped CRLF_def)
  qed
qed

text \<open>What follows the first delimiter.\<close>

primrec parts_text :: "string \<Rightarrow> FormEntry list \<Rightarrow> string" where
  "parts_text delim [] = ''--'' @ CRLF"
| "parts_text delim (e # es) = CRLF @ entry_text e @ delim @ parts_text delim es"

lemma encode_multipart_text:
  "encode_multipart es boundary = ''--'' @ boundary @ parts_text (CRLF @ ''--'' @ boundary) es"
proof -
  have "fold (encode_part boundary) es out @ ''--'' @ boundary @ ''--'' @ CRLF
      = out @ ''--'' @ boundary @ parts_text (CRLF @ ''--'' @ boundary) es" for out
    by (induction es arbitrary: out) (simp_all add: encode_part_text)
  from this [of "[]"] show ?thesis by (simp add: encode_multipart_def)
qed

lemma read_parts_text:
  assumes "CHR 0x0D \<notin> set boundary" and "delim = CRLF @ ''--'' @ boundary"
  shows "list_all (sendable_entry boundary) es \<Longrightarrow> length es < n \<Longrightarrow>
    read_parts n delim (parts_text delim es) = Some (map received es)"
proof (induction es arbitrary: n)
  case Nil
  then show ?case by (cases n) simp_all
next
  case (Cons e es)
  from Cons.prems obtain m where n: "n = Suc m" "length es < m" by (cases n) auto
  with Cons have "read_parts m delim (parts_text delim es) = Some (map received es)" by simp
  moreover have "read_entry delim (entry_text e @ delim @ parts_text delim es) = Some (received e, parts_text delim es)"
    by (rule read_entry_text [OF _ assms]) (use Cons.prems in simp)
  ultimately show ?case by (simp add: n(1) strip_prefix_def str_starts_with_iff CRLF_def)
qed

lemma parts_text_length: "length es < length (parts_text delim es)"
  by (induction es) (simp_all add: CRLF_def)

text \<open>The boundaries of the module are usable and differ from each other until the counter wraps.\<close>

lemma hex_digits_determine:
  fixes a b :: nat
  shows "a < 16 ^ m \<Longrightarrow> b < 16 ^ m \<Longrightarrow> (\<And>k. k < m \<Longrightarrow> a div 16 ^ k mod 16 = b div 16 ^ k mod 16) \<Longrightarrow> a = b"
proof (induction m arbitrary: a b)
  case (Suc m)
  have "a div 16 = b div 16"
  proof (rule Suc.IH)
    show "a div 16 div 16 ^ k mod 16 = b div 16 div 16 ^ k mod 16" if "k < m" for k
      using Suc.prems(3) [of "Suc k"] that by (simp add: div_mult2_eq)
  qed (use Suc.prems(1,2) in \<open>simp_all add: less_mult_imp_div_less mult.commute\<close>)
  moreover have "a mod 16 = b mod 16" using Suc.prems(3) [of 0] by simp
  ultimately show ?case by (metis div_mult_mod_eq)
qed simp

lemma lower_hex_digit_inj:
  assumes "lower_hex_digit i = lower_hex_digit j" and "i < 16" and "j < 16"
  shows "i = j"
proof -
  have val: "of_char (lower_hex_digit n) = (if n \<le> 9 then 48 + n else 87 + n)" if "n < 16" for n :: nat
    using that by (simp add: lower_hex_digit_def)
  show ?thesis using arg_cong [OF assms(1), of "of_char :: char \<Rightarrow> nat"] assms(2,3)
    by (simp add: val split: if_splits)
qed

lemma format_016x_inj: "format_016x a = format_016x b \<Longrightarrow> a = b"
proof -
  assume "format_016x a = format_016x b"
  then have digits: "\<forall>k\<in>set (rev [0..<16]). lower_hex_digit (unat a div 16 ^ k mod 16) = lower_hex_digit (unat b div 16 ^ k mod 16)"
    unfolding format_016x_def map_eq_conv .
  have same: "unat a div 16 ^ k mod 16 = unat b div 16 ^ k mod 16" if "k < 16" for k
  proof (rule lower_hex_digit_inj)
    from that have "k \<in> set (rev [0..<16])" by (simp only: set_rev set_upt atLeastLessThan_iff) simp
    with digits show "lower_hex_digit (unat a div 16 ^ k mod 16) = lower_hex_digit (unat b div 16 ^ k mod 16)" by (rule bspec)
  qed simp_all
  have bound: "unat c < 16 ^ 16" for c :: u64 using unsigned_less [of c, where 'a = nat] by simp
  have "unat a = unat b" by (rule hex_digits_determine [OF bound bound same])
  then show "a = b" by (simp only: word_unat_eq_iff)
qed

lemma generated_boundaries:
  "CHR 0x0D \<notin> set (snd (generate_boundary n))"
  "snd (generate_boundary n) = snd (generate_boundary m) \<longleftrightarrow> n = m"
proof -
  have "lower_hex_digit i \<noteq> CHR 0x0D" if "i < 16" for i
  proof
    assume "lower_hex_digit i = CHR 0x0D"
    from arg_cong [OF this, of "of_char :: char \<Rightarrow> nat"] that show False by (simp add: lower_hex_digit_def split: if_splits)
  qed
  then show "CHR 0x0D \<notin> set (snd (generate_boundary n))"
    by (auto simp: generate_boundary_def boundary_suffix_def format_016x_def) (metis mod_less_divisor zero_less_numeral)
  show "snd (generate_boundary n) = snd (generate_boundary m) \<longleftrightarrow> n = m"
    using format_016x_inj by (auto simp: generate_boundary_def boundary_suffix_def)
qed

subsection \<open>Properties\<close>

text \<open>A form that is submitted in a query string arrives as it was filled in: parsing the encoding gives the names
  and textual values of the entries, in their order, whatever bytes they hold. For an uploaded file the textual
  value is its name.\<close>

theorem form_submission_parsed:
  assumes "list_all (\<lambda>e. utf8_valid (fe_name e) \<and> utf8_valid (FormEntry_textual_value e)) es"
  shows "UrlSearchParams_entries (UrlSearchParams_parse (encode_urlencoded es))
    = map (\<lambda>e. (fe_name e, FormEntry_textual_value e)) es"
proof -
  have "list_all (\<lambda>p. utf8_valid (fst p) \<and> utf8_valid (snd p)) (map entry_pair es)"
    using assms by (simp add: list_all_iff entry_pair_def)
  from form.parse_joined [OF this] show ?thesis
    by (simp add: encode_urlencoded_def encode_urlencoded_join UrlSearchParams_entries_def UrlSearchParams_parse_def
        entry_pair_def [abs_def] comp_def)
qed

theorem form_submission_parsed_witness:
  "UrlSearchParams_entries (UrlSearchParams_parse (encode_urlencoded
      [FormEntry_text ''a=b'' ''c & d'', FormEntry_file ''f'' ''x+y.png'' ''image/png'' [CHR 0xFF]]))
   = [(''a=b'', ''c & d''), (''f'', ''x+y.png'')]"
  using form_submission_parsed [of "[FormEntry_text ''a=b'' ''c & d'', FormEntry_file ''f'' ''x+y.png'' ''image/png'' [CHR 0xFF]]"]
  by (simp add: FormEntry_text_def FormEntry_file_def FormEntry_textual_value_def byte_def)

text \<open>C34: a receiver of a \<open>multipart/form-data\<close> body recovers every entry: texts and file bodies byte by byte, and
  names and file names up to line breaks, which are left out, so that quotes and backslashes in a name cannot end
  the header. This needs three things of the caller: the boundary does not occur as a delimiter in a value, as the
  documentation says; no content type has a carriage return, because content types are written as they are, so
  that one with a blank line would end the header of its part; and the boundary has no carriage return, which
  those that the module generates have not.\<close>

theorem multipart_roundtrip:
  assumes "list_all (sendable_entry boundary) es" and "CHR 0x0D \<notin> set boundary"
  shows "read_multipart boundary (encode_multipart es boundary) = Some (map received es)"
  using read_parts_text [OF assms(2) refl assms(1) parts_text_length]
  by (simp add: read_multipart_def encode_multipart_text strip_prefix_def str_starts_with_iff)

theorem multipart_roundtrip_witness:
  "read_multipart (snd (generate_boundary 1)) (encode_multipart [FormEntry_text [CHR ''a'', CHR 0x22, CHR 0x0A] ''--x''] (snd (generate_boundary 1)))
   = Some [FormEntry_text [CHR ''a'', CHR 0x22] ''--x'']"
  using multipart_roundtrip [of "snd (generate_boundary 1)" "[FormEntry_text [CHR ''a'', CHR 0x22, CHR 0x0A] ''--x'']"]
    generated_boundaries(1) [of 1]
  by (simp add: sendable_entry_def FormEntry_text_def received_def without_line_breaks_def CRLF_def)

end
