(* ===== verification/Structured_Clone.thy ===== *)
theory Structured_Clone
  imports Prelude
begin

section \<open>Structured clone\<close>

text \<open>
  \<open>vixen-engine/src/structured_clone.rs\<close>: the values that \<open>postMessage\<close> can carry, the clone with its transfer
  list and the detachment of what was transferred. The recursion over a value is primitive recursion through the
  lists and pairs of the nested datatype. A reference description walks the leaves of a value from left to right:
  whether a value can be cloned, and with which error it cannot, depends only on them.
\<close>

datatype PortId = PortId u64

record Buffer =
  buf_id :: u64
  buf_shared :: bool
  buf_detached :: bool

datatype Transferable =
    TransferPort PortId
  | TransferArrayBuffer u64
  | TransferSharedArrayBuffer u64

datatype ErrorKind = Error | EvalError | RangeError | ReferenceError | SyntaxError | TypeError | UriError

definition ErrorKind_name :: "ErrorKind \<Rightarrow> string" where
  "ErrorKind_name k =
     (case k of
        Error \<Rightarrow> ''Error'' | EvalError \<Rightarrow> ''EvalError'' | RangeError \<Rightarrow> ''RangeError''
      | ReferenceError \<Rightarrow> ''ReferenceError'' | SyntaxError \<Rightarrow> ''SyntaxError'' | TypeError \<Rightarrow> ''TypeError''
      | UriError \<Rightarrow> ''URIError'')"

datatype StructuredCloneValue =
    VUndefined
  | VNull
  | VBoolean bool
  | VNumber f64
  | VBigInt string
  | VString string
  | VDate f64
  | VArray "StructuredCloneValue list"
  | VObject "(string \<times> StructuredCloneValue) list"
  | VMap "(StructuredCloneValue \<times> StructuredCloneValue) list"
  | VSet "StructuredCloneValue list"
  | VArrayBuffer Buffer
  | VMessagePort PortId
  | VError ErrorKind string string
  | VPlatformObject string

datatype DataCloneError =
    NotCloneable string
  | UnsupportedPlatformObject string
  | DuplicateTransferable
  | DetachedTransferable
  | UnreachableTransferable
  | SharedBufferRequiresIsolation

subsection \<open>Walks over a value\<close>

primrec is_cloneable :: "string set \<Rightarrow> StructuredCloneValue \<Rightarrow> bool" where
  "is_cloneable known VUndefined = True"
| "is_cloneable known VNull = True"
| "is_cloneable known (VBoolean b) = True"
| "is_cloneable known (VNumber n) = True"
| "is_cloneable known (VBigInt s) = True"
| "is_cloneable known (VString s) = True"
| "is_cloneable known (VDate d) = True"
| "is_cloneable known (VArray items) = list_all id (map (is_cloneable known) items)"
| "is_cloneable known (VObject entries) = list_all snd (map (map_prod id (is_cloneable known)) entries)"
| "is_cloneable known (VMap entries) =
     list_all (\<lambda>(k, v). k \<and> v) (map (map_prod (is_cloneable known) (is_cloneable known)) entries)"
| "is_cloneable known (VSet items) = list_all id (map (is_cloneable known) items)"
| "is_cloneable known (VArrayBuffer b) = True"
| "is_cloneable known (VMessagePort p) = True"
| "is_cloneable known (VError k m s) = True"
| "is_cloneable known (VPlatformObject name) = (name \<in> known)"

text \<open>Collecting an iterator of results: the first error, or all values.\<close>

primrec collect_results :: "('a, 'e) result list \<Rightarrow> ('a list, 'e) result" where
  "collect_results [] = Ok []"
| "collect_results (r # rs) = and_then r (\<lambda>x. and_then (collect_results rs) (\<lambda>xs. Ok (x # xs)))"

primrec clone_inner :: "string set \<Rightarrow> StructuredCloneValue \<Rightarrow> (StructuredCloneValue, DataCloneError) result" where
  "clone_inner known VUndefined = Ok VUndefined"
| "clone_inner known VNull = Ok VNull"
| "clone_inner known (VBoolean b) = Ok (VBoolean b)"
| "clone_inner known (VNumber n) = Ok (VNumber n)"
| "clone_inner known (VBigInt s) = Ok (VBigInt s)"
| "clone_inner known (VString s) = Ok (VString s)"
| "clone_inner known (VDate d) = Ok (VDate d)"
| "clone_inner known (VArray items) =
     and_then (collect_results (map (clone_inner known) items)) (\<lambda>out. Ok (VArray out))"
| "clone_inner known (VObject entries) =
     and_then (collect_results (map (\<lambda>(k, r). and_then r (\<lambda>v. Ok (k, v))) (map (map_prod id (clone_inner known)) entries)))
       (\<lambda>out. Ok (VObject out))"
| "clone_inner known (VMap entries) =
     and_then (collect_results (map (\<lambda>(rk, rv). and_then rk (\<lambda>k. and_then rv (\<lambda>v. Ok (k, v))))
         (map (map_prod (clone_inner known) (clone_inner known)) entries)))
       (\<lambda>out. Ok (VMap out))"
| "clone_inner known (VSet items) =
     and_then (collect_results (map (clone_inner known) items)) (\<lambda>out. Ok (VSet out))"
| "clone_inner known (VArrayBuffer b) =
     (if buf_detached b then Err DetachedTransferable else Ok (VArrayBuffer b))"
| "clone_inner known (VMessagePort p) = Ok (VMessagePort p)"
| "clone_inner known (VError k m s) = Ok (VError k m s)"
| "clone_inner known (VPlatformObject name) =
     (if name \<in> known then Ok (VPlatformObject name) else Err (UnsupportedPlatformObject name))"

primrec detach_inner :: "u64 set \<Rightarrow> StructuredCloneValue \<Rightarrow> StructuredCloneValue" where
  "detach_inner ids VUndefined = VUndefined"
| "detach_inner ids VNull = VNull"
| "detach_inner ids (VBoolean b) = VBoolean b"
| "detach_inner ids (VNumber n) = VNumber n"
| "detach_inner ids (VBigInt s) = VBigInt s"
| "detach_inner ids (VString s) = VString s"
| "detach_inner ids (VDate d) = VDate d"
| "detach_inner ids (VArray items) = VArray (map (detach_inner ids) items)"
| "detach_inner ids (VObject entries) = VObject (map (map_prod id (detach_inner ids)) entries)"
| "detach_inner ids (VMap entries) = VMap (map (map_prod (detach_inner ids) (detach_inner ids)) entries)"
| "detach_inner ids (VSet items) = VSet (map (detach_inner ids) items)"
| "detach_inner ids (VArrayBuffer b) = VArrayBuffer (if buf_id b \<in> ids then b\<lparr>buf_detached := True\<rparr> else b)"
| "detach_inner ids (VMessagePort p) = VMessagePort p"
| "detach_inner ids (VError k m s) = VError k m s"
| "detach_inner ids (VPlatformObject name) = VPlatformObject name"

definition detach_transferred :: "StructuredCloneValue \<Rightarrow> Transferable list \<Rightarrow> StructuredCloneValue" where
  "detach_transferred v transfer =
     (let to_detach = fold (\<lambda>h ids. case h of TransferArrayBuffer i \<Rightarrow> insert i ids | _ \<Rightarrow> ids) transfer {}
      in detach_inner to_detach v)"

text \<open>The three containment checks recurse alike and differ in what they accept at a leaf.\<close>

primrec contains_leaf :: "(StructuredCloneValue \<Rightarrow> bool) \<Rightarrow> StructuredCloneValue \<Rightarrow> bool" where
  "contains_leaf p VUndefined = p VUndefined"
| "contains_leaf p VNull = p VNull"
| "contains_leaf p (VBoolean b) = p (VBoolean b)"
| "contains_leaf p (VNumber n) = p (VNumber n)"
| "contains_leaf p (VBigInt s) = p (VBigInt s)"
| "contains_leaf p (VString s) = p (VString s)"
| "contains_leaf p (VDate d) = p (VDate d)"
| "contains_leaf p (VArray items) = list_ex id (map (contains_leaf p) items)"
| "contains_leaf p (VObject entries) = list_ex snd (map (map_prod id (contains_leaf p)) entries)"
| "contains_leaf p (VMap entries) =
     list_ex (\<lambda>(k, v). k \<or> v) (map (map_prod (contains_leaf p) (contains_leaf p)) entries)"
| "contains_leaf p (VSet items) = list_ex id (map (contains_leaf p) items)"
| "contains_leaf p (VArrayBuffer b) = p (VArrayBuffer b)"
| "contains_leaf p (VMessagePort q) = p (VMessagePort q)"
| "contains_leaf p (VError k m s) = p (VError k m s)"
| "contains_leaf p (VPlatformObject name) = p (VPlatformObject name)"

definition contains_port :: "StructuredCloneValue \<Rightarrow> PortId \<Rightarrow> bool" where
  "contains_port v i = contains_leaf (\<lambda>l. case l of VMessagePort p \<Rightarrow> p = i | _ \<Rightarrow> False) v"

definition contains_buffer :: "StructuredCloneValue \<Rightarrow> u64 \<Rightarrow> bool \<Rightarrow> bool" where
  "contains_buffer v i shared =
     contains_leaf (\<lambda>l. case l of VArrayBuffer b \<Rightarrow> buf_id b = i \<and> buf_shared b = shared | _ \<Rightarrow> False) v"

definition contains_buffer_kind :: "StructuredCloneValue \<Rightarrow> bool \<Rightarrow> bool" where
  "contains_buffer_kind v shared =
     contains_leaf (\<lambda>l. case l of VArrayBuffer b \<Rightarrow> buf_shared b = shared \<and> \<not> buf_detached b | _ \<Rightarrow> False) v"

subsection \<open>Cloning with a transfer list\<close>

primrec validate_transfer_loop :: "Transferable set \<Rightarrow> Transferable list \<Rightarrow> (unit, DataCloneError) result" where
  "validate_transfer_loop seen [] = Ok ()"
| "validate_transfer_loop seen (h # hs) =
     (if h \<in> seen then Err DuplicateTransferable else validate_transfer_loop (insert h seen) hs)"

definition validate_transfer_list :: "Transferable list \<Rightarrow> (unit, DataCloneError) result" where
  "validate_transfer_list transfer = validate_transfer_loop {} transfer"

definition transfer_reachable :: "StructuredCloneValue \<Rightarrow> Transferable \<Rightarrow> bool" where
  "transfer_reachable v h =
     (case h of
        TransferPort i \<Rightarrow> contains_port v i
      | TransferArrayBuffer i \<Rightarrow> contains_buffer v i False
      | TransferSharedArrayBuffer i \<Rightarrow> contains_buffer v i True)"

definition contains_shared_buffer :: "StructuredCloneValue \<Rightarrow> Transferable list \<Rightarrow> bool" where
  "contains_shared_buffer v transfer =
     (if list_ex (\<lambda>h. case h of TransferSharedArrayBuffer i \<Rightarrow> contains_buffer v i True | _ \<Rightarrow> False) transfer then False
      else contains_buffer_kind v True)"

definition structured_clone ::
    "StructuredCloneValue \<Rightarrow> Transferable list \<Rightarrow> bool \<Rightarrow> string set \<Rightarrow> (StructuredCloneValue, DataCloneError) result" where
  "structured_clone v transfer cross_origin_isolated known =
     and_then (validate_transfer_list transfer) (\<lambda>_.
     and_then (try_for (\<lambda>h. if \<not> transfer_reachable v h then Err UnreachableTransferable else Ok ()) transfer) (\<lambda>_.
       if \<not> cross_origin_isolated \<and> contains_shared_buffer v transfer then Err SharedBufferRequiresIsolation
       else clone_inner known v))"

subsection \<open>The leaves of a value\<close>

primrec leaves :: "StructuredCloneValue \<Rightarrow> StructuredCloneValue list" where
  "leaves VUndefined = [VUndefined]"
| "leaves VNull = [VNull]"
| "leaves (VBoolean b) = [VBoolean b]"
| "leaves (VNumber n) = [VNumber n]"
| "leaves (VBigInt s) = [VBigInt s]"
| "leaves (VString s) = [VString s]"
| "leaves (VDate d) = [VDate d]"
| "leaves (VArray items) = concat (map leaves items)"
| "leaves (VObject entries) = concat (map snd (map (map_prod id leaves) entries))"
| "leaves (VMap entries) = concat (map (\<lambda>(k, v). k @ v) (map (map_prod leaves leaves) entries))"
| "leaves (VSet items) = concat (map leaves items)"
| "leaves (VArrayBuffer b) = [VArrayBuffer b]"
| "leaves (VMessagePort p) = [VMessagePort p]"
| "leaves (VError k m s) = [VError k m s]"
| "leaves (VPlatformObject name) = [VPlatformObject name]"

text \<open>What is wrong with a leaf.\<close>

definition leaf_error :: "string set \<Rightarrow> StructuredCloneValue \<Rightarrow> DataCloneError option" where
  "leaf_error known l =
     (case l of
        VArrayBuffer b \<Rightarrow> if buf_detached b then Some DetachedTransferable else None
      | VPlatformObject name \<Rightarrow> if name \<in> known then None else Some (UnsupportedPlatformObject name)
      | _ \<Rightarrow> None)"

definition first_error :: "string set \<Rightarrow> StructuredCloneValue list \<Rightarrow> DataCloneError option" where
  "first_error known ls = find_map (leaf_error known) ls"

lemma contains_leaf_iff: "contains_leaf p v \<longleftrightarrow> (\<exists>l\<in>set (leaves v). p l)"
proof (induction v)
  case (VObject es)
  have "contains_leaf p (VObject es) \<longleftrightarrow> (\<exists>(k, v)\<in>set es. contains_leaf p v)" by (auto simp: list_ex_iff split_beta)
  also have "\<dots> \<longleftrightarrow> (\<exists>(k, v)\<in>set es. \<exists>l\<in>set (leaves v). p l)"
    by (rule bex_cong) (use VObject in \<open>auto simp: split_beta\<close>)
  also have "\<dots> \<longleftrightarrow> (\<exists>l\<in>set (leaves (VObject es)). p l)" by (auto simp: split_beta)
  finally show ?case .
next
  case (VMap es)
  have "contains_leaf p (VMap es) \<longleftrightarrow> (\<exists>(k, v)\<in>set es. contains_leaf p k \<or> contains_leaf p v)" by (auto simp: list_ex_iff split_beta)
  also have "\<dots> \<longleftrightarrow> (\<exists>(k, v)\<in>set es. (\<exists>l\<in>set (leaves k). p l) \<or> (\<exists>l\<in>set (leaves v). p l))"
    by (rule bex_cong) (use VMap in \<open>auto simp: split_beta\<close>)
  also have "\<dots> \<longleftrightarrow> (\<exists>l\<in>set (leaves (VMap es)). p l)" by (auto simp: split_beta)
  finally show ?case .
qed (auto simp: list_ex_iff)

lemma first_error_append: "first_error known (xs @ ys) = (case first_error known xs of None \<Rightarrow> first_error known ys | Some e \<Rightarrow> Some e)"
  by (induction xs) (auto simp: first_error_def split: option.splits)

definition checked :: "DataCloneError option \<Rightarrow> 'v \<Rightarrow> ('v, DataCloneError) result" where
  "checked m v = (case m of None \<Rightarrow> Ok v | Some e \<Rightarrow> Err e)"

lemma collect_checked:
  "(\<And>x. x \<in> set xs \<Longrightarrow> f x = checked (first_error known (g x)) x) \<Longrightarrow>
     collect_results (map f xs) = checked (first_error known (concat (map g xs))) xs"
proof (induction xs)
  case (Cons x xs)
  then show ?case by (simp add: first_error_append checked_def split: option.splits)
qed (simp add: first_error_def checked_def)

lemma clone_inner_eq: "clone_inner known v = checked (first_error known (leaves v)) v"
proof (induction v)
  case (VArray items)
  then show ?case by (simp add: collect_checked [of items "clone_inner known" known leaves] checked_def split: option.splits)
next
  case (VSet items)
  then show ?case by (simp add: collect_checked [of items "clone_inner known" known leaves] checked_def split: option.splits)
next
  case (VObject es)
  have "collect_results (map ((\<lambda>(k, r). and_then r (\<lambda>v. Ok (k, v))) \<circ> map_prod id (clone_inner known)) es)
      = checked (first_error known (concat (map (snd \<circ> map_prod id leaves) es))) es"
    by (rule collect_checked) (use VObject in \<open>force simp: checked_def split: option.splits\<close>)
  then show ?case by (simp add: checked_def split: option.splits)
next
  case (VMap es)
  have "collect_results (map ((\<lambda>(rk, rv). and_then rk (\<lambda>k. and_then rv (\<lambda>v. Ok (k, v)))) \<circ> map_prod (clone_inner known) (clone_inner known)) es)
      = checked (first_error known (concat (map ((\<lambda>(k, v). k @ v) \<circ> map_prod leaves leaves) es))) es"
    by (rule collect_checked) (use VMap in \<open>force simp: checked_def first_error_append split: option.splits\<close>)
  then show ?case by (simp add: checked_def split: option.splits)
qed (simp_all add: checked_def first_error_def leaf_error_def)

text \<open>Detaching changes the buffers among the leaves and nothing else.\<close>

lemma leaves_detach_inner: "leaves (detach_inner ids v) = map (detach_inner ids) (leaves v)"
proof (induction v)
  case (VObject es)
  then show ?case by (auto simp: map_concat comp_def split_beta intro!: arg_cong [where f = concat])
next
  case (VMap es)
  then show ?case by (auto simp: map_concat comp_def split_beta intro!: arg_cong [where f = concat])
qed (auto simp: map_concat comp_def intro!: arg_cong [where f = concat])

lemma leaf_no_container:
  "VArray xs \<notin> set (leaves v) \<and> VSet xs \<notin> set (leaves v) \<and> VObject es \<notin> set (leaves v) \<and> VMap ms \<notin> set (leaves v)"
proof (induction v)
  case (VObject es)
  then show ?case by (auto simp: split_beta)
next
  case (VMap es)
  then show ?case by (auto simp: split_beta)
qed auto

lemma validate_transfer_loop_eq:
  "validate_transfer_loop seen hs = (if distinct hs \<and> set hs \<inter> seen = {} then Ok () else Err DuplicateTransferable)"
  by (induction hs arbitrary: seen) auto

lemma try_for_check: "try_for (\<lambda>h. if \<not> p h then Err e else Ok ()) hs = (if list_all p hs then Ok () else Err e)"
  by (induction hs) (simp_all add: try_for_def)

lemma detached_ids: "fold (\<lambda>h ids. case h of TransferArrayBuffer i \<Rightarrow> insert i ids | _ \<Rightarrow> ids) hs ids
    = ids \<union> {i. TransferArrayBuffer i \<in> set hs}"
  by (induction hs arbitrary: ids) (auto split: Transferable.splits)

lemma structured_clone_result: "structured_clone v transfer isolated known = Ok w \<Longrightarrow> w = v"
  by (auto simp: structured_clone_def result_simps clone_inner_eq checked_def split: if_splits option.splits)

subsection \<open>Properties\<close>

text \<open>C30: cloning is exactly this. The transfer list must not name a handle twice, and every handle in it must occur in the
  value; outside a cross-origin isolated context the value must have no live shared buffer, except that a
  transfer list with a shared buffer in it switches this check off for all of them; then the first leaf that is a
  detached buffer or an unknown platform object decides the error, and without one the result is the value.
  In particular a value with two shared buffers can be cloned in a context that is not isolated if one of
  them is transferred.\<close>

theorem structured_clone_exact:
  "structured_clone v transfer isolated known =
     (if \<not> distinct transfer then Err DuplicateTransferable
      else if \<not> list_all (\<lambda>h. list_ex (\<lambda>l. case (h, l) of
            (TransferPort i, VMessagePort j) \<Rightarrow> i = j
          | (TransferArrayBuffer i, VArrayBuffer b) \<Rightarrow> i = buf_id b \<and> \<not> buf_shared b
          | (TransferSharedArrayBuffer i, VArrayBuffer b) \<Rightarrow> i = buf_id b \<and> buf_shared b
          | _ \<Rightarrow> False) (leaves v)) transfer then Err UnreachableTransferable
      else if \<not> isolated \<and> list_ex (\<lambda>l. case l of VArrayBuffer b \<Rightarrow> buf_shared b \<and> \<not> buf_detached b | _ \<Rightarrow> False) (leaves v)
           \<and> \<not> list_ex (\<lambda>h. case h of TransferSharedArrayBuffer _ \<Rightarrow> True | _ \<Rightarrow> False) transfer then Err SharedBufferRequiresIsolation
      else (case first_error known (leaves v) of Some e \<Rightarrow> Err e | None \<Rightarrow> Ok v))"
proof -
  have reach: "transfer_reachable v = (\<lambda>h. list_ex (\<lambda>l. case (h, l) of
            (TransferPort i, VMessagePort j) \<Rightarrow> i = j
          | (TransferArrayBuffer i, VArrayBuffer b) \<Rightarrow> i = buf_id b \<and> \<not> buf_shared b
          | (TransferSharedArrayBuffer i, VArrayBuffer b) \<Rightarrow> i = buf_id b \<and> buf_shared b
          | _ \<Rightarrow> False) (leaves v))" (is "_ = ?R")
  proof
    fix h
    show "transfer_reachable v h = ?R h"
      by (cases h) (auto simp: transfer_reachable_def contains_port_def contains_buffer_def contains_leaf_iff list_ex_iff
          intro!: bex_cong split: StructuredCloneValue.splits)
  qed
  have gate: "contains_shared_buffer v transfer \<longleftrightarrow>
      list_ex (\<lambda>l. case l of VArrayBuffer b \<Rightarrow> buf_shared b \<and> \<not> buf_detached b | _ \<Rightarrow> False) (leaves v)
      \<and> \<not> list_ex (\<lambda>h. case h of TransferSharedArrayBuffer _ \<Rightarrow> True | _ \<Rightarrow> False) transfer"
    if "list_all (transfer_reachable v) transfer"
  proof -
    have "list_ex (\<lambda>h. case h of TransferSharedArrayBuffer i \<Rightarrow> contains_buffer v i True | _ \<Rightarrow> False) transfer
        = list_ex (\<lambda>h. case h of TransferSharedArrayBuffer _ \<Rightarrow> True | _ \<Rightarrow> False) transfer"
      unfolding list_ex_iff by (rule bex_cong) (use that in \<open>auto simp: list_all_iff transfer_reachable_def split: Transferable.splits\<close>)
    moreover have "contains_buffer_kind v True \<longleftrightarrow>
        list_ex (\<lambda>l. case l of VArrayBuffer b \<Rightarrow> buf_shared b \<and> \<not> buf_detached b | _ \<Rightarrow> False) (leaves v)"
      unfolding contains_buffer_kind_def contains_leaf_iff list_ex_iff
      by (rule bex_cong) (auto split: StructuredCloneValue.split)
    ultimately show ?thesis by (simp add: contains_shared_buffer_def)
  qed
  show ?thesis
    unfolding reach [symmetric]
    by (simp add: structured_clone_def validate_transfer_list_def validate_transfer_loop_eq try_for_check gate clone_inner_eq checked_def
        split: option.split)
qed

text \<open>What is transferred cannot be sent again. After a clone that succeeded, the source is detached as the host does it:
  then no transfer list makes a second clone of the source succeed once an array buffer was transferred;
  other handles of the value are as they were, and the clone that was sent is unaffected.\<close>

theorem transferred_once:
  assumes "structured_clone v transfer isolated known = Ok sent" and "TransferArrayBuffer i \<in> set transfer"
  shows "sent = v
    \<and> (\<forall>transfer' isolated' known'. \<not> is_ok (structured_clone (detach_transferred v transfer) transfer' isolated' known'))
    \<and> filter (\<lambda>l. case l of VArrayBuffer b \<Rightarrow> TransferArrayBuffer (buf_id b) \<notin> set transfer | _ \<Rightarrow> True) (leaves (detach_transferred v transfer))
      = filter (\<lambda>l. case l of VArrayBuffer b \<Rightarrow> TransferArrayBuffer (buf_id b) \<notin> set transfer | _ \<Rightarrow> True) (leaves v)"
proof (intro conjI allI)
  define ids where "ids = {i. TransferArrayBuffer i \<in> set transfer}"
  have detach: "detach_transferred v transfer = detach_inner ids v"
    by (simp add: detach_transferred_def detached_ids ids_def)
  from assms(1) have reach: "list_all (transfer_reachable v) transfer" and clone: "clone_inner known v = Ok sent"
    by (auto simp: structured_clone_def result_simps try_for_check split: if_splits)
  from clone show "sent = v" by (auto simp: clone_inner_eq checked_def split: option.splits)
  from reach assms(2) have "transfer_reachable v (TransferArrayBuffer i)" by (simp add: list_all_iff)
  then obtain l where l: "l \<in> set (leaves v)"
      "case l of VArrayBuffer b \<Rightarrow> buf_id b = i \<and> buf_shared b = False | _ \<Rightarrow> False"
    by (auto simp: transfer_reachable_def contains_buffer_def contains_leaf_iff)
  from l(2) obtain b where "l = VArrayBuffer b" "buf_id b = i" by (cases l) auto
  with l(1) have b: "VArrayBuffer b \<in> set (leaves v)" "buf_id b = i" by simp_all
  with assms(2) have "detach_inner ids (VArrayBuffer b) \<in> set (leaves (detach_inner ids v))"
    unfolding leaves_detach_inner by (simp del: detach_inner.simps)
  moreover have "leaf_error known' (detach_inner ids (VArrayBuffer b)) \<noteq> None" for known'
    using assms(2) b(2) by (simp add: leaf_error_def ids_def)
  ultimately have bad: "first_error known' (leaves (detach_inner ids v)) \<noteq> None" for known'
    unfolding first_error_def find_map_eq_None by blast
  show "\<not> is_ok (structured_clone (detach_transferred v transfer) transfer' isolated' known')" for transfer' isolated' known'
    using bad [of known'] unfolding detach
    by (auto simp: structured_clone_def clone_inner_eq checked_def is_ok_iff result_simps split: option.splits)
  define keep where "keep l = (case l of VArrayBuffer b \<Rightarrow> TransferArrayBuffer (buf_id b) \<notin> set transfer | _ \<Rightarrow> True)" for l
  have "keep (detach_inner ids l) = keep l \<and> (keep l \<longrightarrow> detach_inner ids l = l)" if "l \<in> set (leaves v)" for l
    using leaf_no_container that by (cases l) (auto simp: keep_def ids_def)
  then have "filter keep (map (detach_inner ids) ls) = filter keep ls" if "set ls \<subseteq> set (leaves v)" for ls
    using that by (induction ls) auto
  then have "filter keep (leaves (detach_transferred v transfer)) = filter keep (leaves v)"
    by (simp add: detach leaves_detach_inner)
  then show "filter (\<lambda>l. case l of VArrayBuffer b \<Rightarrow> TransferArrayBuffer (buf_id b) \<notin> set transfer | _ \<Rightarrow> True) (leaves (detach_transferred v transfer))
      = filter (\<lambda>l. case l of VArrayBuffer b \<Rightarrow> TransferArrayBuffer (buf_id b) \<notin> set transfer | _ \<Rightarrow> True) (leaves v)"
    unfolding keep_def [abs_def] .
qed

theorem transferred_once_witness:
  "let v = VArray [VArrayBuffer \<lparr>buf_id = 1, buf_shared = False, buf_detached = False\<rparr>, VNull] in
   \<not> is_ok (structured_clone (detach_transferred v [TransferArrayBuffer 1]) [] True {})"
proof -
  let ?v = "VArray [VArrayBuffer \<lparr>buf_id = 1, buf_shared = False, buf_detached = False\<rparr>, VNull]"
  have "structured_clone ?v [TransferArrayBuffer 1] True {} = Ok ?v"
    by (simp add: structured_clone_def validate_transfer_list_def try_for_def transfer_reachable_def contains_buffer_def)
  from transferred_once [OF this, of 1] show ?thesis by (simp add: Let_def)
qed

end
