(* ===== verification/Message_Port.thy ===== *)
theory Message_Port
  imports Structured_Clone "HOL-Library.Sublist"
begin

section \<open>Message ports\<close>

text \<open>
  \<open>vixen-engine/src/message_port.rs\<close>: the two ports of a channel with their inboxes. A port never touches its partner: the
  host routes the outcome of a post to the inbox of the partner, as the comment of \<open>post_message\<close> prescribes.
  Sessions on a channel are sequences of calls on either side with that routing.
\<close>

record Message =
  msg_data :: StructuredCloneValue
  msg_transferred_ports :: "PortId list"

record MessagePort =
  port_id :: PortId
  port_partner :: "PortId option"
  port_detached :: bool
  port_started :: bool
  port_inbox :: "Message list"

record PostOutcome =
  post_partner :: PortId
  post_data :: StructuredCloneValue
  post_transferred_ports :: "PortId list"

text \<open>\<open>filter_map\<close> of an iterator.\<close>

definition filter_map :: "('a \<Rightarrow> 'b option) \<Rightarrow> 'a list \<Rightarrow> 'b list" where
  "filter_map f xs = map (the \<circ> f) (filter (\<lambda>x. f x \<noteq> None) xs)"

definition transferred_port :: "Transferable \<Rightarrow> PortId option" where
  "transferred_port h = (case h of TransferPort i \<Rightarrow> Some i | _ \<Rightarrow> None)"

definition MessagePort_post_message ::
    "MessagePort \<Rightarrow> StructuredCloneValue \<Rightarrow> Transferable list \<Rightarrow> bool \<Rightarrow> string set
     \<Rightarrow> (PostOutcome option, DataCloneError) result" where
  "MessagePort_post_message port message transfer cross_origin_isolated known =
     (if port_detached port then Ok None
      else (case port_partner port of
          None \<Rightarrow> Ok None
        | Some partner \<Rightarrow>
            and_then (structured_clone message transfer cross_origin_isolated known) (\<lambda>data.
              Ok (Some \<lparr>post_partner = partner, post_data = data,
                post_transferred_ports = filter_map transferred_port transfer\<rparr>))))"

definition MessagePort_enqueue :: "MessagePort \<Rightarrow> StructuredCloneValue \<Rightarrow> PortId list \<Rightarrow> MessagePort" where
  "MessagePort_enqueue port data ports =
     (if port_detached port then port
      else port\<lparr>port_inbox := port_inbox port @ [\<lparr>msg_data = data, msg_transferred_ports = ports\<rparr>]\<rparr>)"

definition MessagePort_drain :: "MessagePort \<Rightarrow> MessagePort \<times> Message list" where
  "MessagePort_drain port =
     (if port_detached port \<or> \<not> port_started port then (port, [])
      else (port\<lparr>port_inbox := []\<rparr>, port_inbox port))"

definition MessagePort_start :: "MessagePort \<Rightarrow> MessagePort" where
  "MessagePort_start port = (if port_detached port then port else port\<lparr>port_started := True\<rparr>)"

definition MessagePort_close :: "MessagePort \<Rightarrow> MessagePort" where
  "MessagePort_close port = port\<lparr>port_detached := True, port_inbox := []\<rparr>"

definition MessagePort_transfer_close :: "MessagePort \<Rightarrow> MessagePort" where
  "MessagePort_transfer_close port = port\<lparr>port_detached := True, port_inbox := []\<rparr>"

record MessageChannel =
  port1 :: MessagePort
  port2 :: MessagePort

definition MessageChannel_new :: "u64 \<Rightarrow> u64 \<Rightarrow> MessageChannel" where
  "MessageChannel_new a b =
     \<lparr>port1 = \<lparr>port_id = PortId a, port_partner = Some (PortId b), port_detached = False, port_started = False, port_inbox = []\<rparr>,
      port2 = \<lparr>port_id = PortId b, port_partner = Some (PortId a), port_detached = False, port_started = False, port_inbox = []\<rparr>\<rparr>"

subsection \<open>Sessions on a channel\<close>

text \<open>A call on the first (\<open>True\<close>) or the second port; what is posted is routed to the other one. The log keeps what was
  routed to each side and what each side was given by \<open>drain\<close>.\<close>

datatype port_call =
    PostMessage StructuredCloneValue "Transferable list" bool
  | Start
  | Drain
  | Close
  | TransferClose

definition side :: "bool \<Rightarrow> MessageChannel \<Rightarrow> MessagePort" where
  "side s ch = (if s then port1 ch else port2 ch)"

definition set_side :: "bool \<Rightarrow> MessagePort \<Rightarrow> MessageChannel \<Rightarrow> MessageChannel" where
  "set_side s p ch = (if s then ch\<lparr>port1 := p\<rparr> else ch\<lparr>port2 := p\<rparr>)"

record channel_log =
  lg_channel :: MessageChannel
  lg_routed :: "bool \<Rightarrow> Message list"
  lg_received :: "bool \<Rightarrow> Message list"

definition posted :: "string set \<Rightarrow> MessagePort \<Rightarrow> StructuredCloneValue \<Rightarrow> Transferable list \<Rightarrow> bool \<Rightarrow> Message list" where
  "posted known port v transfer isolated =
     (case MessagePort_post_message port v transfer isolated known of
        Ok (Some out) \<Rightarrow> [\<lparr>msg_data = post_data out, msg_transferred_ports = post_transferred_ports out\<rparr>]
      | _ \<Rightarrow> [])"

definition route :: "Message list \<Rightarrow> MessagePort \<Rightarrow> MessagePort" where
  "route ms port = fold (\<lambda>m p. MessagePort_enqueue p (msg_data m) (msg_transferred_ports m)) ms port"

definition channel_call :: "string set \<Rightarrow> channel_log \<Rightarrow> bool \<times> port_call \<Rightarrow> channel_log" where
  "channel_call known lg c =
     (let (s, call) = c; ch = lg_channel lg; port = side s ch in
      case call of
        PostMessage v transfer isolated \<Rightarrow>
          (let ms = posted known port v transfer isolated in
           lg\<lparr>lg_channel := set_side (\<not> s) (route ms (side (\<not> s) ch)) ch,
              lg_routed := (lg_routed lg)(\<not> s := lg_routed lg (\<not> s) @ ms)\<rparr>)
      | Start \<Rightarrow> lg\<lparr>lg_channel := set_side s (MessagePort_start port) ch\<rparr>
      | Drain \<Rightarrow>
          (let (port', ms) = MessagePort_drain port in
           lg\<lparr>lg_channel := set_side s port' ch, lg_received := (lg_received lg)(s := lg_received lg s @ ms)\<rparr>)
      | Close \<Rightarrow> lg\<lparr>lg_channel := set_side s (MessagePort_close port) ch\<rparr>
      | TransferClose \<Rightarrow> lg\<lparr>lg_channel := set_side s (MessagePort_transfer_close port) ch\<rparr>)"

definition channel_session :: "string set \<Rightarrow> u64 \<Rightarrow> u64 \<Rightarrow> (bool \<times> port_call) list \<Rightarrow> channel_log" where
  "channel_session known a b calls =
     foldl (channel_call known) \<lparr>lg_channel = MessageChannel_new a b, lg_routed = (\<lambda>_. []), lg_received = (\<lambda>_. [])\<rparr> calls"

text \<open>One end of the channel: an open port has received what was routed to it up to what its inbox holds; a
  detached port has received a part of it and holds nothing.\<close>

definition end_ok :: "MessagePort \<Rightarrow> Message list \<Rightarrow> Message list \<Rightarrow> bool" where
  "end_ok port routed received \<longleftrightarrow>
     (if port_detached port then port_inbox port = [] \<and> prefix received routed
      else received @ port_inbox port = routed)"

definition channel_inv :: "channel_log \<Rightarrow> bool" where
  "channel_inv lg \<longleftrightarrow>
     port_partner (port1 (lg_channel lg)) = Some (port_id (port2 (lg_channel lg)))
     \<and> port_partner (port2 (lg_channel lg)) = Some (port_id (port1 (lg_channel lg)))
     \<and> end_ok (port1 (lg_channel lg)) (lg_routed lg True) (lg_received lg True)
     \<and> end_ok (port2 (lg_channel lg)) (lg_routed lg False) (lg_received lg False)"

lemma end_ok_route: "end_ok port routed received \<Longrightarrow> end_ok (route ms port) (routed @ ms) received"
proof (induction ms arbitrary: port routed)
  case (Cons m ms)
  have "end_ok (MessagePort_enqueue port (msg_data m) (msg_transferred_ports m)) (routed @ [m]) received"
    using Cons.prems by (auto simp: end_ok_def MessagePort_enqueue_def)
  from Cons.IH [OF this] show ?case by (simp add: route_def)
qed (simp add: route_def)

lemma end_ok_start: "end_ok port routed received \<Longrightarrow> end_ok (MessagePort_start port) routed received"
  by (simp add: end_ok_def MessagePort_start_def)

lemma end_ok_close:
  "end_ok port routed received \<Longrightarrow> end_ok (MessagePort_close port) routed received"
  "end_ok port routed received \<Longrightarrow> end_ok (MessagePort_transfer_close port) routed received"
  by (auto simp: end_ok_def MessagePort_close_def MessagePort_transfer_close_def split: if_splits)

lemma end_ok_drain:
  "end_ok port routed received \<Longrightarrow> MessagePort_drain port = (port', ms) \<Longrightarrow> end_ok port' routed (received @ ms)"
  by (auto simp: end_ok_def MessagePort_drain_def split: if_splits)

text \<open>No call changes an identity or a partner.\<close>

lemma route_ids: "port_id (route ms port) = port_id port \<and> port_partner (route ms port) = port_partner port"
  by (induction ms arbitrary: port) (auto simp: route_def MessagePort_enqueue_def)

lemma port_ids:
  "port_id (MessagePort_start port) = port_id port" "port_partner (MessagePort_start port) = port_partner port"
  "port_id (MessagePort_close port) = port_id port" "port_partner (MessagePort_close port) = port_partner port"
  "port_id (MessagePort_transfer_close port) = port_id port" "port_partner (MessagePort_transfer_close port) = port_partner port"
  "MessagePort_drain port = (port', ms) \<Longrightarrow> port_id port' = port_id port"
  "MessagePort_drain port = (port', ms) \<Longrightarrow> port_partner port' = port_partner port"
  by (auto simp: MessagePort_start_def MessagePort_close_def MessagePort_transfer_close_def MessagePort_drain_def split: if_splits)

lemmas end_ok_calls = end_ok_route end_ok_start end_ok_close end_ok_drain

lemma channel_call_inv: "channel_inv lg \<Longrightarrow> channel_inv (channel_call known lg (s, call))"
  by (cases s; cases call)
    (auto simp: channel_inv_def channel_call_def side_def set_side_def Let_def route_ids port_ids split: prod.splits intro: end_ok_calls)

lemma channel_foldl_inv: "channel_inv lg \<Longrightarrow> channel_inv (foldl (channel_call known) lg calls)"
proof (induction calls arbitrary: lg)
  case (Cons c cs)
  then show ?case using channel_call_inv [of lg known "fst c" "snd c"] by simp
qed simp

lemma channel_session_inv: "channel_inv (channel_session known a b calls)"
  unfolding channel_session_def
  by (rule channel_foldl_inv) (simp add: channel_inv_def end_ok_def MessageChannel_new_def)

lemma channel_session_end:
  "lg = channel_session known a b calls \<Longrightarrow> end_ok (side s (lg_channel lg)) (lg_routed lg s) (lg_received lg s)"
  "lg = channel_session known a b calls \<Longrightarrow> port_partner (side s (lg_channel lg)) = Some (port_id (side (\<not> s) (lg_channel lg)))"
  using channel_session_inv [of known a b calls] by (cases s; simp add: channel_inv_def side_def)+

lemma posted_nothing: "posted known (side s (lg_channel lg)) v transfer isolated = [] \<Longrightarrow>
    channel_call known lg (s, PostMessage v transfer isolated) = lg"
  by (cases s) (simp_all add: channel_call_def side_def set_side_def route_def fun_upd_triv Let_def)

lemma started_drain:
  assumes "\<not> port_detached (side s (lg_channel lg))"
  shows "lg_received (foldl (channel_call known) lg [(s, Start), (s, Drain)]) s = lg_received lg s @ port_inbox (side s (lg_channel lg))"
  using assms by (cases s) (simp_all add: channel_call_def side_def set_side_def MessagePort_start_def MessagePort_drain_def Let_def)

lemma drain_call:
  "channel_call known lg (s, Drain) =
     (if port_detached (side s (lg_channel lg)) \<or> \<not> port_started (side s (lg_channel lg)) then lg
      else lg\<lparr>lg_channel := set_side s ((side s (lg_channel lg))\<lparr>port_inbox := []\<rparr>) (lg_channel lg),
              lg_received := (lg_received lg)(s := lg_received lg s @ port_inbox (side s (lg_channel lg)))\<rparr>)"
  by (cases s) (simp_all add: channel_call_def side_def set_side_def MessagePort_drain_def fun_upd_triv Let_def)

lemma closed_side:
  "port_detached (side s (lg_channel (channel_call known lg (s, Close))))"
  "port_detached (side s (lg_channel (channel_call known lg (s, TransferClose))))"
  by (cases s; simp add: channel_call_def side_def set_side_def MessagePort_close_def MessagePort_transfer_close_def Let_def)+

text \<open>What a post does: nothing when the port is detached or the value cannot be cloned.\<close>

definition ports_in :: "Transferable list \<Rightarrow> PortId list" where
  "ports_in transfer = concat (map (\<lambda>h. case h of TransferPort i \<Rightarrow> [i] | _ \<Rightarrow> []) transfer)"

lemma ports_in_eq: "filter_map transferred_port transfer = ports_in transfer"
  by (induction transfer) (auto simp: filter_map_def ports_in_def transferred_port_def split: Transferable.splits)

lemma post_outcome:
  assumes "port_partner port = Some partner"
  shows "MessagePort_post_message port v transfer isolated known =
    (if port_detached port then Ok None
     else case structured_clone v transfer isolated known of
         Ok _ \<Rightarrow> Ok (Some \<lparr>post_partner = partner, post_data = v, post_transferred_ports = ports_in transfer\<rparr>)
       | Err e \<Rightarrow> Err e)"
  using assms by (auto simp: MessagePort_post_message_def ports_in_eq result_simps dest: structured_clone_result split: result.splits)

lemma post_routed:
  "lg_routed (channel_call known lg (s, PostMessage v transfer isolated)) (\<not> s) =
     lg_routed lg (\<not> s) @ posted known (side s (lg_channel lg)) v transfer isolated"
  by (simp add: channel_call_def Let_def)

subsection \<open>Properties\<close>

text \<open>C31: a channel is two queues without loss, duplication or reordering. In every session of posts, starts, drains and
  closes on both ports, what a side has been given by \<open>drain\<close> is an initial part of what was posted to it; the rest
  is in its inbox as long as the port is open, and starting and draining the port then delivers all of it, while
  a drain before the start delivers nothing. A
  closed port holds nothing. A post on an open port whose value can be cloned goes to the partner, carries the value itself and the ports of the
  transfer list, and is added to what was posted to the other side. A post that fails to clone returns the error and changes neither port; a
  post on a closed port, also one closed by the last call, returns no outcome and changes neither port.\<close>

theorem channel_delivers_in_order:
  "let lg = channel_session known a b calls; port = side s (lg_channel lg); post = (s, PostMessage v transfer isolated) in
     prefix (lg_received lg s) (lg_routed lg s)
     \<and> (if port_detached port then port_inbox port = []
        else lg_received lg s @ port_inbox port = lg_routed lg s
          \<and> lg_received (channel_session known a b (calls @ [(s, Start), (s, Drain)])) s = lg_routed lg s)
     \<and> (if port_started port \<and> \<not> port_detached port then lg_received (channel_call known lg (s, Drain)) s = lg_routed lg s
        else channel_call known lg (s, Drain) = lg)
     \<and> (if port_detached port
        then MessagePort_post_message port v transfer isolated known = Ok None \<and> channel_call known lg post = lg
        else case structured_clone v transfer isolated known of
            Err e \<Rightarrow> MessagePort_post_message port v transfer isolated known = Err e \<and> channel_call known lg post = lg
          | Ok _ \<Rightarrow> MessagePort_post_message port v transfer isolated known
                = Ok (Some \<lparr>post_partner = port_id (side (\<not> s) (lg_channel lg)), post_data = v, post_transferred_ports = ports_in transfer\<rparr>)
              \<and> lg_routed (channel_call known lg post) (\<not> s)
                = lg_routed lg (\<not> s) @ [\<lparr>msg_data = v, msg_transferred_ports = ports_in transfer\<rparr>])
     \<and> channel_session known a b (calls @ [(s, Close), post]) = channel_session known a b (calls @ [(s, Close)])
     \<and> channel_session known a b (calls @ [(s, TransferClose), post]) = channel_session known a b (calls @ [(s, TransferClose)])"
proof -
  define lg where "lg = channel_session known a b calls"
  define port where "port = side s (lg_channel lg)"
  have ok: "end_ok port (lg_routed lg s) (lg_received lg s)" and partner: "port_partner port = Some (port_id (side (\<not> s) (lg_channel lg)))"
    using channel_session_end [OF lg_def] by (simp_all add: port_def)
  note post = post_outcome [OF partner]
  from ok have "prefix (lg_received lg s) (lg_routed lg s)"
    unfolding end_ok_def by (metis prefixI)
  moreover have "lg_received (channel_session known a b (calls @ [(s, Start), (s, Drain)])) s = lg_routed lg s"
    if "\<not> port_detached port"
    using ok that started_drain [of s lg known]
    by (simp add: end_ok_def channel_session_def lg_def [symmetric, unfolded channel_session_def] port_def [symmetric] del: foldl_Cons foldl_Nil)
  moreover have "if port_started port \<and> \<not> port_detached port then lg_received (channel_call known lg (s, Drain)) s = lg_routed lg s
        else channel_call known lg (s, Drain) = lg"
    using ok by (simp add: drain_call port_def [symmetric] end_ok_def)
  moreover have "channel_call known lg (s, PostMessage v transfer isolated) = lg"
    if "port_detached port \<or> (\<exists>e. structured_clone v transfer isolated known = Err e)"
    using that by (intro posted_nothing) (auto simp: posted_def port_def [symmetric] post)
  moreover have "lg_routed (channel_call known lg (s, PostMessage v transfer isolated)) (\<not> s)
      = lg_routed lg (\<not> s) @ [\<lparr>msg_data = v, msg_transferred_ports = ports_in transfer\<rparr>]"
    if "\<not> port_detached port" "structured_clone v transfer isolated known = Ok d" for d
    using that by (simp add: post_routed posted_def port_def [symmetric] post)
  moreover have "channel_call known lg' (s, PostMessage v transfer isolated) = lg'"
    if "port_detached (side s (lg_channel lg'))" for lg'
    using that by (intro posted_nothing) (simp add: posted_def MessagePort_post_message_def)
  with closed_side have "channel_session known a b (calls @ [(s, Close), (s, PostMessage v transfer isolated)]) = channel_session known a b (calls @ [(s, Close)])"
    "channel_session known a b (calls @ [(s, TransferClose), (s, PostMessage v transfer isolated)]) = channel_session known a b (calls @ [(s, TransferClose)])"
    by (simp_all add: channel_session_def)
  ultimately show ?thesis
    using ok by (auto simp: Let_def lg_def [symmetric] port_def [symmetric] end_ok_def post split: result.split)
qed

end
