(* ===== verification/Tree_Traversal.thy ===== *)
theory Tree_Traversal
  imports Prelude
begin

section \<open>Tree walkers and node iterators\<close>

text \<open>
  \<open>vixen-engine/src/traversal.rs\<close>: filtered traversal of the DOM. The tree is behind a trait that the host implements, here
  a record of its six accessors, about which nothing is assumed in the definitions: a loop that climbs or descends
  need not end, so every loop is a partial function whose value \<open>None\<close> stands for not returning. The filter is a
  function, as the code calls it through a shared reference.
\<close>

unbundle bit_operations_syntax

datatype NodeType = NT_Element | NT_Text | NT_Comment | NT_Document | NT_DocumentType | NT_DocumentFragment

primrec NodeType_code :: "NodeType \<Rightarrow> u16" where
  "NodeType_code NT_Element = 1"
| "NodeType_code NT_Text = 3"
| "NodeType_code NT_Comment = 8"
| "NodeType_code NT_Document = 9"
| "NodeType_code NT_DocumentType = 10"
| "NodeType_code NT_DocumentFragment = 11"

definition NodeType_show_bit :: "NodeType \<Rightarrow> u32" where
  "NodeType_show_bit t = push_bit (unat (NodeType_code t) - 1) 1"

type_synonym WhatToShow = u32

definition SHOW_ALL :: WhatToShow where "SHOW_ALL = 0xFFFFFFFF"
definition SHOW_ELEMENT :: WhatToShow where "SHOW_ELEMENT = 0x1"
definition SHOW_TEXT :: WhatToShow where "SHOW_TEXT = 0x4"
definition SHOW_COMMENT :: WhatToShow where "SHOW_COMMENT = 0x80"
definition SHOW_DOCUMENT :: WhatToShow where "SHOW_DOCUMENT = 0x100"
definition SHOW_DOCUMENT_TYPE :: WhatToShow where "SHOW_DOCUMENT_TYPE = 0x200"
definition SHOW_DOCUMENT_FRAGMENT :: WhatToShow where "SHOW_DOCUMENT_FRAGMENT = 0x400"

definition WhatToShow_shows :: "WhatToShow \<Rightarrow> NodeType \<Rightarrow> bool" where
  "WhatToShow_shows w t \<longleftrightarrow> w AND NodeType_show_bit t \<noteq> 0"

definition WhatToShow_union :: "WhatToShow \<Rightarrow> WhatToShow \<Rightarrow> WhatToShow" where
  "WhatToShow_union a b = a OR b"

datatype FilterResult = Accept | Reject | Skip

type_synonym NodeFilter = "usize \<Rightarrow> FilterResult"

definition AcceptAll :: NodeFilter where
  "AcceptAll n = Accept"

record DomTree =
  dt_parent :: "usize \<Rightarrow> usize option"
  dt_first_child :: "usize \<Rightarrow> usize option"
  dt_last_child :: "usize \<Rightarrow> usize option"
  dt_prev_sibling :: "usize \<Rightarrow> usize option"
  dt_next_sibling :: "usize \<Rightarrow> usize option"
  dt_node_type :: "usize \<Rightarrow> NodeType"

definition filter_node :: "DomTree \<Rightarrow> WhatToShow \<Rightarrow> NodeFilter \<Rightarrow> usize \<Rightarrow> FilterResult" where
  "filter_node tree w flt n = (if \<not> WhatToShow_shows w (dt_node_type tree n) then Skip else flt n)"

subsection \<open>Preorder steps\<close>

text \<open>The loop that climbs to the next sibling of a node or of its nearest ancestor that has one.\<close>

partial_function (option) climb_loop :: "DomTree \<Rightarrow> usize \<Rightarrow> usize \<Rightarrow> usize option option" where
  "climb_loop tree root n =
     (if n = root then Some None
      else (case dt_next_sibling tree n of
          Some ns \<Rightarrow> Some (Some ns)
        | None \<Rightarrow> (case dt_parent tree n of None \<Rightarrow> Some None | Some p \<Rightarrow> climb_loop tree root p)))"

definition preorder_successor :: "DomTree \<Rightarrow> usize \<Rightarrow> usize \<Rightarrow> usize option option" where
  "preorder_successor tree n root =
     (case dt_first_child tree n of Some fc \<Rightarrow> Some (Some fc) | None \<Rightarrow> climb_loop tree root n)"

partial_function (option) last_descendant :: "DomTree \<Rightarrow> usize \<Rightarrow> usize option" where
  "last_descendant tree n =
     (case dt_last_child tree n of Some lc \<Rightarrow> last_descendant tree lc | None \<Rightarrow> Some n)"

definition preorder_predecessor :: "DomTree \<Rightarrow> usize \<Rightarrow> usize \<Rightarrow> usize option option" where
  "preorder_predecessor tree n root =
     (if n = root then Some None
      else (case dt_prev_sibling tree n of
          Some ps \<Rightarrow> map_option Some (last_descendant tree ps)
        | None \<Rightarrow> Some (dt_parent tree n)))"

definition subtree_skip_successor :: "DomTree \<Rightarrow> usize \<Rightarrow> usize \<Rightarrow> usize option option" where
  "subtree_skip_successor tree n root = climb_loop tree root n"

definition subtree_skip_predecessor :: "DomTree \<Rightarrow> usize \<Rightarrow> usize \<Rightarrow> usize option" where
  "subtree_skip_predecessor tree n root =
     (if n = root then None
      else (case dt_prev_sibling tree n of
          Some ps \<Rightarrow> Some ps
        | None \<Rightarrow> (case dt_parent tree n of None \<Rightarrow> None | Some p \<Rightarrow> if p = root then None else Some p)))"

partial_function (option) walk_accept_forward ::
    "DomTree \<Rightarrow> WhatToShow \<Rightarrow> NodeFilter \<Rightarrow> usize option \<Rightarrow> usize \<Rightarrow> usize option option" where
  "walk_accept_forward tree w flt node root =
     (case node of
        None \<Rightarrow> Some None
      | Some n \<Rightarrow>
          (case filter_node tree w flt n of
             Accept \<Rightarrow> Some (Some n)
           | Reject \<Rightarrow> Option.bind (subtree_skip_successor tree n root) (\<lambda>next. walk_accept_forward tree w flt next root)
           | Skip \<Rightarrow> Option.bind (preorder_successor tree n root) (\<lambda>next. walk_accept_forward tree w flt next root)))"

partial_function (option) walk_accept_backward ::
    "DomTree \<Rightarrow> WhatToShow \<Rightarrow> NodeFilter \<Rightarrow> usize option \<Rightarrow> usize \<Rightarrow> usize option option" where
  "walk_accept_backward tree w flt node root =
     (case node of
        None \<Rightarrow> Some None
      | Some n \<Rightarrow>
          (case filter_node tree w flt n of
             Accept \<Rightarrow> Some (Some n)
           | Reject \<Rightarrow> walk_accept_backward tree w flt (subtree_skip_predecessor tree n root) root
           | Skip \<Rightarrow> Option.bind (preorder_predecessor tree n root) (\<lambda>next. walk_accept_backward tree w flt next root)))"

subsection \<open>Tree walkers\<close>

record TreeWalker =
  tw_root :: usize
  tw_current :: usize
  tw_what_to_show :: WhatToShow

definition TreeWalker_new :: "usize \<Rightarrow> WhatToShow \<Rightarrow> TreeWalker" where
  "TreeWalker_new root w = \<lparr>tw_root = root, tw_current = root, tw_what_to_show = w\<rparr>"

text \<open>What every method does with the node that it found.\<close>

definition moved :: "TreeWalker \<Rightarrow> usize option \<Rightarrow> TreeWalker \<times> usize option" where
  "moved tw found = (case found of Some n \<Rightarrow> (tw\<lparr>tw_current := n\<rparr>, found) | None \<Rightarrow> (tw, found))"

partial_function (option) parent_loop :: "DomTree \<Rightarrow> WhatToShow \<Rightarrow> NodeFilter \<Rightarrow> usize \<Rightarrow> usize \<Rightarrow> usize option option" where
  "parent_loop tree w flt root node =
     (if node = root then Some None
      else (case dt_parent tree node of
          None \<Rightarrow> Some None
        | Some p \<Rightarrow> if filter_node tree w flt p = Accept then Some (Some p) else parent_loop tree w flt root p))"

definition TreeWalker_parent_node :: "DomTree \<Rightarrow> NodeFilter \<Rightarrow> TreeWalker \<Rightarrow> (TreeWalker \<times> usize option) option" where
  "TreeWalker_parent_node tree flt tw =
     map_option (moved tw) (parent_loop tree (tw_what_to_show tw) flt (tw_root tw) (tw_current tw))"

definition TreeWalker_first_child :: "DomTree \<Rightarrow> NodeFilter \<Rightarrow> TreeWalker \<Rightarrow> (TreeWalker \<times> usize option) option" where
  "TreeWalker_first_child tree flt tw =
     (case dt_first_child tree (tw_current tw) of
        None \<Rightarrow> Some (tw, None)
      | Some start \<Rightarrow> map_option (moved tw) (walk_accept_forward tree (tw_what_to_show tw) flt (Some start) (tw_current tw)))"

definition TreeWalker_last_child :: "DomTree \<Rightarrow> NodeFilter \<Rightarrow> TreeWalker \<Rightarrow> (TreeWalker \<times> usize option) option" where
  "TreeWalker_last_child tree flt tw =
     (case dt_last_child tree (tw_current tw) of
        None \<Rightarrow> Some (tw, None)
      | Some start \<Rightarrow> map_option (moved tw) (walk_accept_backward tree (tw_what_to_show tw) flt (Some start) (tw_current tw)))"

definition TreeWalker_next_sibling :: "DomTree \<Rightarrow> NodeFilter \<Rightarrow> TreeWalker \<Rightarrow> (TreeWalker \<times> usize option) option" where
  "TreeWalker_next_sibling tree flt tw =
     (case (dt_parent tree (tw_current tw), dt_next_sibling tree (tw_current tw)) of
        (Some parent, Some start) \<Rightarrow>
          map_option (moved tw) (walk_accept_forward tree (tw_what_to_show tw) flt (Some start) parent)
      | _ \<Rightarrow> Some (tw, None))"

definition TreeWalker_previous_sibling :: "DomTree \<Rightarrow> NodeFilter \<Rightarrow> TreeWalker \<Rightarrow> (TreeWalker \<times> usize option) option" where
  "TreeWalker_previous_sibling tree flt tw =
     (case (dt_parent tree (tw_current tw), dt_prev_sibling tree (tw_current tw)) of
        (Some parent, Some start) \<Rightarrow>
          map_option (moved tw) (walk_accept_backward tree (tw_what_to_show tw) flt (Some start) parent)
      | _ \<Rightarrow> Some (tw, None))"

definition TreeWalker_next_node :: "DomTree \<Rightarrow> NodeFilter \<Rightarrow> TreeWalker \<Rightarrow> (TreeWalker \<times> usize option) option" where
  "TreeWalker_next_node tree flt tw =
     Option.bind (preorder_successor tree (tw_current tw) (tw_root tw)) (\<lambda>start.
       case start of
         None \<Rightarrow> Some (tw, None)
       | Some start \<Rightarrow> map_option (moved tw) (walk_accept_forward tree (tw_what_to_show tw) flt (Some start) (tw_root tw)))"

definition TreeWalker_previous_node :: "DomTree \<Rightarrow> NodeFilter \<Rightarrow> TreeWalker \<Rightarrow> (TreeWalker \<times> usize option) option" where
  "TreeWalker_previous_node tree flt tw =
     Option.bind (preorder_predecessor tree (tw_current tw) (tw_root tw)) (\<lambda>start.
       case start of
         None \<Rightarrow> Some (tw, None)
       | Some start \<Rightarrow> map_option (moved tw) (walk_accept_backward tree (tw_what_to_show tw) flt (Some start) (tw_root tw)))"

subsection \<open>Node iterators\<close>

record NodeIterator =
  ni_root :: usize
  ni_reference :: usize
  ni_what_to_show :: WhatToShow

definition NodeIterator_new :: "usize \<Rightarrow> WhatToShow \<Rightarrow> NodeIterator" where
  "NodeIterator_new root w = \<lparr>ni_root = root, ni_reference = root, ni_what_to_show = w\<rparr>"

partial_function (option) iterate_forward ::
    "DomTree \<Rightarrow> WhatToShow \<Rightarrow> NodeFilter \<Rightarrow> usize \<Rightarrow> usize option \<Rightarrow> usize option option" where
  "iterate_forward tree w flt root node =
     (case node of
        None \<Rightarrow> Some None
      | Some n \<Rightarrow>
          if filter_node tree w flt n = Accept then Some (Some n)
          else Option.bind (preorder_successor tree n root) (\<lambda>next. iterate_forward tree w flt root next))"

partial_function (option) iterate_backward ::
    "DomTree \<Rightarrow> WhatToShow \<Rightarrow> NodeFilter \<Rightarrow> usize \<Rightarrow> usize option \<Rightarrow> usize option option" where
  "iterate_backward tree w flt root node =
     (case node of
        None \<Rightarrow> Some None
      | Some n \<Rightarrow>
          if filter_node tree w flt n = Accept then Some (Some n)
          else Option.bind (preorder_predecessor tree n root) (\<lambda>next. iterate_backward tree w flt root next))"

definition returned :: "NodeIterator \<Rightarrow> usize option \<Rightarrow> NodeIterator \<times> usize option" where
  "returned it found = (case found of Some n \<Rightarrow> (it\<lparr>ni_reference := n\<rparr>, found) | None \<Rightarrow> (it, found))"

definition NodeIterator_next_node :: "DomTree \<Rightarrow> NodeFilter \<Rightarrow> NodeIterator \<Rightarrow> (NodeIterator \<times> usize option) option" where
  "NodeIterator_next_node tree flt it =
     Option.bind (preorder_successor tree (ni_reference it) (ni_root it)) (\<lambda>node.
       map_option (returned it) (iterate_forward tree (ni_what_to_show it) flt (ni_root it) node))"

definition NodeIterator_previous_node :: "DomTree \<Rightarrow> NodeFilter \<Rightarrow> NodeIterator \<Rightarrow> (NodeIterator \<times> usize option) option" where
  "NodeIterator_previous_node tree flt it =
     Option.bind (preorder_predecessor tree (ni_reference it) (ni_root it)) (\<lambda>node.
       map_option (returned it) (iterate_backward tree (ni_what_to_show it) flt (ni_root it) node))"

text \<open>The loop of \<open>adjust_for_removal\<close> asks whether the removed node is above the reference.\<close>

partial_function (option) inside_loop :: "DomTree \<Rightarrow> usize \<Rightarrow> usize \<Rightarrow> bool option" where
  "inside_loop tree removed n =
     (if n = removed then Some True
      else (case dt_parent tree n of Some p \<Rightarrow> inside_loop tree removed p | None \<Rightarrow> Some False))"

definition NodeIterator_adjust_for_removal :: "DomTree \<Rightarrow> NodeIterator \<Rightarrow> usize \<Rightarrow> (NodeIterator \<times> usize) option" where
  "NodeIterator_adjust_for_removal tree it removed =
     Option.bind (inside_loop tree removed (ni_reference it)) (\<lambda>inside.
       if inside then
         map_option (\<lambda>new_ref. (it\<lparr>ni_reference := new_ref\<rparr>, new_ref))
           (case dt_prev_sibling tree removed of
              Some ps \<Rightarrow> last_descendant tree ps
            | None \<Rightarrow> Some (case dt_parent tree removed of Some p \<Rightarrow> p | None \<Rightarrow> ni_root it))
       else Some (it, ni_reference it))"

end
