(* ===== verification/Traversal_Properties.thy ===== *)
theory Traversal_Properties
  imports Tree_Traversal
begin

section \<open>What tree walkers and node iterators visit\<close>

text \<open>
  The host promises that the accessors describe a tree. Here that promise is a finite ordered tree together with the
  statement that the accessors agree with it below its root; about the root itself nothing is assumed, so
  it may have a parent and siblings, as an element in a document has. The result of the traversals is stated on the list of
  nodes in preorder.
\<close>

datatype rose = Rose (root_of: usize) (kids: "rose list")

primrec preorder :: "rose \<Rightarrow> usize list" where
  "preorder (Rose n cs) = n # concat (map preorder cs)"

abbreviation preorders :: "rose list \<Rightarrow> usize list" where
  "preorders cs \<equiv> concat (map preorder cs)"

fun represents :: "DomTree \<Rightarrow> rose \<Rightarrow> bool" and represents_kids :: "DomTree \<Rightarrow> usize \<Rightarrow> usize option \<Rightarrow> rose list \<Rightarrow> bool" where
  "represents tree (Rose n cs) \<longleftrightarrow>
     dt_first_child tree n = (case cs of [] \<Rightarrow> None | c # _ \<Rightarrow> Some (root_of c))
     \<and> dt_last_child tree n = (if cs = [] then None else Some (root_of (last cs)))
     \<and> represents_kids tree n None cs"
| "represents_kids tree p prev [] = True"
| "represents_kids tree p prev (c # cs) \<longleftrightarrow>
     dt_parent tree (root_of c) = Some p \<and> dt_prev_sibling tree (root_of c) = prev
     \<and> dt_next_sibling tree (root_of c) = (case cs of [] \<Rightarrow> None | d # _ \<Rightarrow> Some (root_of d))
     \<and> represents tree c \<and> represents_kids tree p (Some (root_of c)) cs"

lemma preorder_basics [simp]:
  "preorder t \<noteq> []" "hd (preorder t) = root_of t" "root_of t \<in> set (preorder t)"
  by (cases t; simp)+

lemma tl_preorder: "r \<notin> set (preorder t) \<Longrightarrow> r \<notin> set (tl (preorder t))"
  by (cases t) simp

lemma root_not: "r \<notin> set (preorder t) \<Longrightarrow> root_of t \<noteq> r"
  by auto

lemma preorders_Nil [simp]: "preorders cs = [] \<longleftrightarrow> cs = []"
  by (cases cs) simp_all

lemma hd_preorders: "cs \<noteq> [] \<Longrightarrow> hd (preorders cs) = root_of (hd cs)"
  by (cases cs) simp_all

text \<open>The steps of the climb.\<close>

lemma climb_root: "climb_loop tree r r = Some None"
  by (simp add: climb_loop.simps)

lemma climb_kid:
  assumes "represents_kids tree p prev (c # cs)" and "root_of c \<noteq> r"
  shows "climb_loop tree r (root_of c) = (case cs of [] \<Rightarrow> climb_loop tree r p | d # _ \<Rightarrow> Some (Some (root_of d)))"
  using assms by (cases cs) (simp_all add: climb_loop.simps [of tree r "root_of c"])

text \<open>From the last node of a subtree the climb continues as from its root.\<close>

lemma climb_last:
  "represents tree t \<Longrightarrow> r \<notin> set (tl (preorder t)) \<Longrightarrow>
     climb_loop tree r (last (preorder t)) = climb_loop tree r (root_of t) \<and> dt_first_child tree (last (preorder t)) = None"
  "represents_kids tree p prev cs \<Longrightarrow> r \<notin> set (preorders cs) \<Longrightarrow> cs \<noteq> [] \<Longrightarrow>
     climb_loop tree r (last (preorders cs)) = climb_loop tree r p \<and> dt_first_child tree (last (preorders cs)) = None"
proof (induction tree t and tree p prev cs rule: represents_represents_kids.induct)
  case (1 tree n cs)
  then show ?case by (cases "cs = []") simp_all
next
  case (3 tree p prev c cs)
  from 3(4) have r: "r \<notin> set (preorder c)" "r \<notin> set (preorders cs)" by simp_all
  show ?case
  proof (cases "cs = []")
    case True
    with 3(1) 3(3) tl_preorder [OF r(1)] climb_kid [OF 3(3) root_not [OF r(1)]] show ?thesis by simp
  next
    case False
    with 3(2) 3(3) r(2) show ?thesis by simp
  qed
qed simp

lemma successors:
  "represents tree t \<Longrightarrow> r \<notin> set (tl (preorder t)) \<Longrightarrow>
     successively (\<lambda>a b. preorder_successor tree a r = Some (Some b)) (preorder t)"
  "represents_kids tree p prev cs \<Longrightarrow> r \<notin> set (preorders cs) \<Longrightarrow>
     successively (\<lambda>a b. preorder_successor tree a r = Some (Some b)) (preorders cs)"
proof (induction tree t and tree p prev cs rule: represents_represents_kids.induct)
  case (1 tree n cs)
  then show ?case
    by (cases cs) (simp_all add: preorder_successor_def successively_Cons)
next
  case (3 tree p prev c cs)
  from 3(4) have r: "r \<notin> set (preorder c)" "r \<notin> set (preorders cs)" by simp_all
  have "preorder_successor tree (last (preorder c)) r = Some (Some (root_of (hd cs)))" if "cs \<noteq> []"
    using climb_last(1) [OF _ tl_preorder [OF r(1)], of tree] climb_kid [OF 3(3) root_not [OF r(1)]] 3(3) that
    by (cases cs) (simp_all add: preorder_successor_def)
  with 3(1,2,3) r tl_preorder [OF r(1)] show ?case
    by (cases "cs = []") (simp_all add: successively_append_iff hd_preorders)
qed simp

lemma last_descendant_last:
  "represents tree t \<Longrightarrow> last_descendant tree (root_of t) = Some (last (preorder t))"
  "represents_kids tree p prev cs \<Longrightarrow> cs \<noteq> [] \<Longrightarrow> last_descendant tree (root_of (last cs)) = Some (last (preorders cs))"
proof (induction tree t and tree p prev cs rule: represents_represents_kids.induct)
  case (1 tree n cs)
  then show ?case by (cases "cs = []") (simp_all add: last_descendant.simps [of tree n])
next
  case (3 tree p prev c cs)
  then show ?case by (cases "cs = []") simp_all
qed simp

lemma predecessors:
  "represents tree t \<Longrightarrow> r \<notin> set (tl (preorder t)) \<Longrightarrow>
     successively (\<lambda>a b. preorder_predecessor tree b r = Some (Some a)) (preorder t)"
  "represents_kids tree p prev cs \<Longrightarrow> r \<notin> set (preorders cs) \<Longrightarrow>
     successively (\<lambda>a b. preorder_predecessor tree b r = Some (Some a)) (preorders cs)"
proof (induction tree t and tree p prev cs rule: represents_represents_kids.induct)
  case (1 tree n cs)
  have "preorder_predecessor tree (root_of c) r = Some (Some n)" if "cs = c # ds" for c ds
    using 1(2,3) that root_not [of r c] by (simp add: preorder_predecessor_def)
  with 1 show ?case by (cases cs) (simp_all add: successively_Cons)
next
  case (3 tree p prev c cs)
  from 3(4) have r: "r \<notin> set (preorder c)" "r \<notin> set (preorders cs)" by simp_all
  have "preorder_predecessor tree (root_of (hd cs)) r = Some (Some (last (preorder c)))" if "cs \<noteq> []"
    using last_descendant_last(1) [of tree c] 3(3) r(2) that root_not [of r "hd cs"]
    by (cases cs) (simp_all add: preorder_predecessor_def)
  with 3(1,2,3) r tl_preorder [OF r(1)] show ?case
    by (cases "cs = []") (simp_all add: successively_append_iff hd_preorders)
qed simp

text \<open>The first node has no predecessor and the last no successor.\<close>

lemma ends:
  assumes "represents tree t" and "root_of t \<notin> set (tl (preorder t))"
  shows "preorder_successor tree (last (preorder t)) (root_of t) = Some None"
    and "preorder_predecessor tree (root_of t) (root_of t) = Some None"
  using climb_last(1) [OF assms] by (simp_all add: preorder_successor_def preorder_predecessor_def climb_root)

lemma distinct_root: "distinct (preorder t) \<Longrightarrow> root_of t \<notin> set (tl (preorder t))"
  by (cases t) simp

subsection \<open>Node iterators\<close>

abbreviation accepted :: "DomTree \<Rightarrow> WhatToShow \<Rightarrow> NodeFilter \<Rightarrow> usize \<Rightarrow> bool" where
  "accepted tree w flt n \<equiv> filter_node tree w flt n = Accept"

lemma iterate_forward_find:
  assumes "successively (\<lambda>a b. preorder_successor tree a r = Some (Some b)) (x # xs)"
    and "preorder_successor tree (last (x # xs)) r = Some None"
  shows "Option.bind (preorder_successor tree x r) (iterate_forward tree w flt r) = Some (find (accepted tree w flt) xs)"
  using assms
proof (induction xs arbitrary: x)
  case Nil
  then show ?case by (simp add: iterate_forward.simps)
next
  case (Cons y ys)
  then have "preorder_successor tree x r = Some (Some y)" by simp
  with Cons show ?case by (simp add: iterate_forward.simps [of tree w flt r "Some y"])
qed

lemma iterate_backward_find:
  assumes "successively (\<lambda>a b. preorder_predecessor tree b r = Some (Some a)) (xs @ [x])"
    and "preorder_predecessor tree (hd (xs @ [x])) r = Some None"
  shows "Option.bind (preorder_predecessor tree x r) (iterate_backward tree w flt r) = Some (find (accepted tree w flt) (rev xs))"
  using assms
proof (induction xs arbitrary: x rule: rev_induct)
  case Nil
  then show ?case by (simp add: iterate_backward.simps)
next
  case (snoc y ys)
  then have "preorder_predecessor tree x r = Some (Some y)" by (simp add: successively_append_iff)
  moreover from snoc have "Option.bind (preorder_predecessor tree y r) (iterate_backward tree w flt r) = Some (find (accepted tree w flt) (rev ys))"
    using snoc.IH [of y] by (cases "ys = []") (simp_all add: successively_append_iff)
  ultimately show ?case by (simp add: iterate_backward.simps [of tree w flt r "Some y"])
qed

subsection \<open>Tree walkers, forwards\<close>

text \<open>The nodes that a walker may stop at below a node: a rejected node hides its subtree, a skipped one only itself.\<close>

primrec visible :: "(usize \<Rightarrow> FilterResult) \<Rightarrow> rose \<Rightarrow> usize list" where
  "visible f (Rose n cs) =
     (case f n of
        Accept \<Rightarrow> n # concat (map (visible f) cs)
      | Skip \<Rightarrow> concat (map (visible f) cs)
      | Reject \<Rightarrow> [])"

abbreviation visibles :: "(usize \<Rightarrow> FilterResult) \<Rightarrow> rose list \<Rightarrow> usize list" where
  "visibles f cs \<equiv> concat (map (visible f) cs)"

definition walk :: "DomTree \<Rightarrow> WhatToShow \<Rightarrow> NodeFilter \<Rightarrow> usize \<Rightarrow> usize option option \<Rightarrow> usize option option" where
  "walk tree w flt r start = Option.bind start (\<lambda>node. walk_accept_forward tree w flt node r)"

lemma walk_unfold:
  "walk tree w flt r (Some None) = Some None"
  "walk tree w flt r (Some (Some n)) =
     (case filter_node tree w flt n of
        Accept \<Rightarrow> Some (Some n)
      | Reject \<Rightarrow> walk tree w flt r (climb_loop tree r n)
      | Skip \<Rightarrow> walk tree w flt r (preorder_successor tree n r))"
  by (simp_all add: walk_def walk_accept_forward.simps [of tree w flt "Some n"] walk_accept_forward.simps [of tree w flt None]
      subtree_skip_successor_def split: FilterResult.split)

lemma walk_visible:
  "represents tree t \<Longrightarrow> r \<notin> set (tl (preorder t)) \<Longrightarrow>
     walk tree w flt r (Some (Some (root_of t))) =
       (case visible (filter_node tree w flt) t of x # _ \<Rightarrow> Some (Some x) | [] \<Rightarrow> walk tree w flt r (climb_loop tree r (root_of t)))"
  "represents_kids tree p prev cs \<Longrightarrow> r \<notin> set (preorders cs) \<Longrightarrow> cs \<noteq> [] \<Longrightarrow>
     walk tree w flt r (Some (Some (root_of (hd cs)))) =
       (case visibles (filter_node tree w flt) cs of x # _ \<Rightarrow> Some (Some x) | [] \<Rightarrow> walk tree w flt r (climb_loop tree r p))"
proof (induction tree t and tree p prev cs rule: represents_represents_kids.induct)
  case (1 tree n cs)
  define vs where "vs = visibles (filter_node tree w flt) cs"
  have below: "walk tree w flt r (preorder_successor tree n r) =
      (case vs of x # _ \<Rightarrow> Some (Some x) | [] \<Rightarrow> walk tree w flt r (climb_loop tree r n))"
  proof (cases "cs = []")
    case True
    with 1(2) show ?thesis by (simp add: preorder_successor_def vs_def)
  next
    case False
    with 1(2) have "preorder_successor tree n r = Some (Some (root_of (hd cs)))"
      by (cases cs) (simp_all add: preorder_successor_def)
    with 1 False show ?thesis by (simp add: vs_def)
  qed
  show ?case
    by (cases vs) (simp_all add: walk_unfold(2) [of tree w flt r n] below vs_def [symmetric] split: FilterResult.split)
next
  case (3 tree p prev c cs)
  from 3(4) have r: "r \<notin> set (preorder c)" "r \<notin> set (preorders cs)" by simp_all
  note climb = climb_kid [OF 3(3) root_not [OF r(1)]]
  from 3(1,3) tl_preorder [OF r(1)] have first: "walk tree w flt r (Some (Some (root_of c))) =
      (case visible (filter_node tree w flt) c of x # _ \<Rightarrow> Some (Some x) | [] \<Rightarrow> walk tree w flt r (climb_loop tree r (root_of c)))"
    by simp
  show ?case
  proof (cases cs)
    case Nil
    with first climb show ?thesis by (cases "visible (filter_node tree w flt) c") simp_all
  next
    case (Cons d ds)
    with first climb 3(2,3) r(2) show ?thesis by (cases "visible (filter_node tree w flt) c") simp_all
  qed
qed simp

text \<open>From a visible node the walk goes to the next visible one, and from the last one on as from the root of the
  subtree.\<close>

definition after :: "DomTree \<Rightarrow> WhatToShow \<Rightarrow> NodeFilter \<Rightarrow> usize \<Rightarrow> usize \<Rightarrow> usize option option" where
  "after tree w flt r n = walk tree w flt r (preorder_successor tree n r)"

lemma after_root:
  assumes "represents tree (Rose n cs)" and "r \<notin> set (preorders cs)"
  shows "after tree w flt r n =
    (case visibles (filter_node tree w flt) cs of x # _ \<Rightarrow> Some (Some x) | [] \<Rightarrow> walk tree w flt r (climb_loop tree r n))"
  using assms walk_visible(2) [of tree n None cs r w flt]
  by (cases cs) (simp_all add: after_def preorder_successor_def)

lemma after_visible:
  "represents tree t \<Longrightarrow> r \<notin> set (tl (preorder t)) \<Longrightarrow>
     (let vs = visible (filter_node tree w flt) t in
      successively (\<lambda>a b. after tree w flt r a = Some (Some b)) vs
      \<and> (vs = [] \<or> after tree w flt r (last vs) = walk tree w flt r (climb_loop tree r (root_of t))))"
  "represents_kids tree p prev cs \<Longrightarrow> r \<notin> set (preorders cs) \<Longrightarrow>
     (let vs = visibles (filter_node tree w flt) cs in
      successively (\<lambda>a b. after tree w flt r a = Some (Some b)) vs
      \<and> (vs = [] \<or> after tree w flt r (last vs) = walk tree w flt r (climb_loop tree r p)))"
proof (induction tree t and tree p prev cs rule: represents_represents_kids.induct)
  case (1 tree n cs)
  define vs where "vs = visibles (filter_node tree w flt) cs"
  from 1 have ih: "successively (\<lambda>a b. after tree w flt r a = Some (Some b)) vs"
      "vs = [] \<or> after tree w flt r (last vs) = walk tree w flt r (climb_loop tree r n)"
    by (simp_all add: vs_def Let_def)
  have "after tree w flt r n = (case vs of x # _ \<Rightarrow> Some (Some x) | [] \<Rightarrow> walk tree w flt r (climb_loop tree r n))"
    unfolding vs_def by (rule after_root) (use 1(2,3) in simp_all)
  with ih show ?case
    by (cases vs) (simp_all add: vs_def [symmetric] Let_def successively_Cons split: FilterResult.split)
next
  case (3 tree p prev c cs)
  define us where "us = visible (filter_node tree w flt) c"
  define vs where "vs = visibles (filter_node tree w flt) cs"
  from 3(4) have r: "r \<notin> set (preorder c)" "r \<notin> set (preorders cs)" by simp_all
  note climb = climb_kid [OF 3(3) root_not [OF r(1)]]
  from 3(1,3) tl_preorder [OF r(1)] have us: "successively (\<lambda>a b. after tree w flt r a = Some (Some b)) us"
      "us = [] \<or> after tree w flt r (last us) = walk tree w flt r (climb_loop tree r (root_of c))"
    by (simp_all add: us_def Let_def)
  from 3(2,3) r(2) have vs: "successively (\<lambda>a b. after tree w flt r a = Some (Some b)) vs"
      "vs = [] \<or> after tree w flt r (last vs) = walk tree w flt r (climb_loop tree r p)"
    by (simp_all add: vs_def Let_def)
  have join: "walk tree w flt r (climb_loop tree r (root_of c)) =
      (case vs of x # _ \<Rightarrow> Some (Some x) | [] \<Rightarrow> walk tree w flt r (climb_loop tree r p))"
    using climb walk_visible(2) [of tree p "Some (root_of c)" cs r w flt] 3(3) r(2)
    by (cases cs) (simp_all add: vs_def)
  from us vs join show ?case
    by (cases vs; cases "us = []") (simp_all add: us_def [symmetric] vs_def [symmetric] Let_def successively_append_iff)
qed simp

lemma next_node_after: "TreeWalker_next_node tree flt tw =
    map_option (moved tw) (after tree (tw_what_to_show tw) flt (tw_root tw) (tw_current tw))"
  by (cases "preorder_successor tree (tw_current tw) (tw_root tw)")
    (auto simp: TreeWalker_next_node_def after_def walk_def moved_def walk_accept_forward.simps [of _ _ _ None] split: option.split)

lemma successively_at: "successively P (us @ a # b # vs) \<Longrightarrow> P a b"
  by (simp add: successively_append_iff)

subsection \<open>An element with siblings\<close>

text \<open>A document with a root \<open>0\<close>, whose children are \<open>1\<close> and \<open>4\<close>; the children of \<open>1\<close> are \<open>2\<close>, with a child \<open>5\<close>, and \<open>3\<close>.\<close>

definition ex_dom :: DomTree where
  "ex_dom = \<lparr>dt_parent = map_of [(1, 0), (4, 0), (2, 1), (3, 1), (5, 2)],
     dt_first_child = map_of [(0, 1), (1, 2), (2, 5)], dt_last_child = map_of [(0, 4), (1, 3), (2, 5)],
     dt_prev_sibling = map_of [(4, 1), (3, 2)], dt_next_sibling = map_of [(1, 4), (2, 3)],
     dt_node_type = (\<lambda>_. NT_Element)\<rparr>"

definition ex_subtree :: rose where
  "ex_subtree = Rose 1 [Rose 2 [Rose 5 []], Rose 3 []]"

lemma ex_fields:
  "dt_parent ex_dom = map_of [(1, 0), (4, 0), (2, 1), (3, 1), (5, 2)]"
  "dt_first_child ex_dom = map_of [(0, 1), (1, 2), (2, 5)]" "dt_last_child ex_dom = map_of [(0, 4), (1, 3), (2, 5)]"
  "dt_prev_sibling ex_dom = map_of [(4, 1), (3, 2)]" "dt_next_sibling ex_dom = map_of [(1, 4), (2, 3)]"
  by (simp_all add: ex_dom_def)

lemma ex_represents: "represents ex_dom ex_subtree"
  by (simp add: ex_dom_def ex_subtree_def)

lemma ex_shows: "filter_node ex_dom SHOW_ALL flt n = flt n"
  by (simp add: filter_node_def ex_dom_def WhatToShow_shows_def SHOW_ALL_def NodeType_show_bit_def)

lemmas ex_dom_eval = climb_loop.simps [of ex_dom] last_descendant.simps [of ex_dom] walk_accept_forward.simps [of ex_dom]
  walk_accept_backward.simps [of ex_dom] preorder_predecessor_def preorder_successor_def
  subtree_skip_successor_def subtree_skip_predecessor_def moved_def TreeWalker_new_def ex_shows ex_fields

text \<open>A walker leaves its root when it is asked for a sibling there; going back it enters a subtree that the filter
  rejects; and the last child it reports can be the node it stands on.\<close>

lemma walker_leaves_root:
  "TreeWalker_next_sibling ex_dom AcceptAll (TreeWalker_new 1 SHOW_ALL)
     = Some (\<lparr>tw_root = 1, tw_current = 4, tw_what_to_show = SHOW_ALL\<rparr>, Some 4)"
  by (simp add: TreeWalker_next_sibling_def AcceptAll_def ex_dom_eval)

lemma walker_enters_rejected_subtree:
  "TreeWalker_previous_node ex_dom (\<lambda>n. if n = 2 then Reject else Accept) \<lparr>tw_root = 1, tw_current = 3, tw_what_to_show = SHOW_ALL\<rparr>
     = Some (\<lparr>tw_root = 1, tw_current = 5, tw_what_to_show = SHOW_ALL\<rparr>, Some 5)"
  by (simp add: TreeWalker_previous_node_def ex_dom_eval)

lemma walker_is_its_last_child:
  "TreeWalker_last_child ex_dom (\<lambda>n. if n = 2 \<or> n = 3 \<or> n = 5 then Skip else Accept) (TreeWalker_new 1 SHOW_ALL)
     = Some (TreeWalker_new 1 SHOW_ALL, Some 1)"
  by (simp add: TreeWalker_last_child_def ex_dom_eval)

subsection \<open>Properties\<close>

text \<open>C35: a node iterator returns, and what it returns is exact. With the reference on any node of the subtree of its root, the
  next node is the first node after it in preorder that the mask and the filter accept, the previous node the last
  one before it, and without one the iterator stays where it is. The loops therefore end on every finite tree, and iterating
  visits every accepted node below the root once, in document order.\<close>

theorem node_iterator_exact:
  assumes "represents tree t" and "distinct (preorder t)" and "preorder t = us @ ni_reference it # vs"
    and "ni_root it = root_of t"
  shows "NodeIterator_next_node tree flt it =
      Some (returned it (find (\<lambda>n. filter_node tree (ni_what_to_show it) flt n = Accept) vs))
    \<and> NodeIterator_previous_node tree flt it =
      Some (returned it (find (\<lambda>n. filter_node tree (ni_what_to_show it) flt n = Accept) (rev us)))"
proof
  note root = distinct_root [OF assms(2)]
  let ?n = "ni_reference it" and ?r = "ni_root it" and ?w = "ni_what_to_show it"
  have "successively (\<lambda>a b. preorder_successor tree a ?r = Some (Some b)) (?n # vs)"
    using successors(1) [OF assms(1) root] unfolding assms(3,4) by (simp add: successively_append_iff)
  moreover have "preorder_successor tree (last (?n # vs)) ?r = Some None"
    using ends(1) [OF assms(1) root] unfolding assms(3,4) by simp
  ultimately show "NodeIterator_next_node tree flt it = Some (returned it (find (accepted tree ?w flt) vs))"
    using iterate_forward_find [of tree ?r ?n vs ?w flt]
    by (cases "preorder_successor tree ?n ?r") (simp_all add: NodeIterator_next_node_def)
  have "successively (\<lambda>a b. preorder_predecessor tree b ?r = Some (Some a)) (us @ [?n])"
    using predecessors(1) [OF assms(1) root] unfolding assms(3,4) by (simp add: successively_append_iff)
  moreover have "hd (us @ [?n]) = ?r"
    using preorder_basics(2) [of t] unfolding assms(3,4) by (cases us) simp_all
  then have "preorder_predecessor tree (hd (us @ [?n])) ?r = Some None"
    using ends(2) [OF assms(1) root] by (simp add: assms(4))
  ultimately show "NodeIterator_previous_node tree flt it = Some (returned it (find (accepted tree ?w flt) (rev us)))"
    using iterate_backward_find [of tree ?r us ?n ?w flt]
    by (cases "preorder_predecessor tree ?n ?r") (simp_all add: NodeIterator_previous_node_def)
qed

theorem node_iterator_exact_witness:
  "NodeIterator_next_node ex_dom (\<lambda>n. if n = 2 then Reject else Accept) (NodeIterator_new 1 SHOW_ALL)
     = Some (\<lparr>ni_root = 1, ni_reference = 5, ni_what_to_show = SHOW_ALL\<rparr>, Some 5)"
  using node_iterator_exact [OF ex_represents, of "[]" "NodeIterator_new 1 SHOW_ALL" "[2, 5, 3]" "\<lambda>n. if n = 2 then Reject else Accept"]
  by (simp add: ex_subtree_def NodeIterator_new_def returned_def ex_shows)

text \<open>C36: going forwards a tree walker returns and visits exactly the visible nodes in document order. The nodes are the
  accepted ones below the root without those in subtrees that the filter rejects, skipped nodes being passed
  through; from each of them, and from the root at the start, the next node is the next in this list, and at
  its end the walker stays.\<close>

theorem tree_walker_next_exact:
  assumes "represents tree t" and "distinct (preorder t)"
    and "root_of t # concat (map (visible (filter_node tree (tw_what_to_show tw) flt)) (kids t)) = us @ tw_current tw # vs"
    and "tw_root tw = root_of t"
  shows "TreeWalker_next_node tree flt tw =
    Some (case vs of [] \<Rightarrow> (tw, None) | n # _ \<Rightarrow> (tw\<lparr>tw_current := n\<rparr>, Some n))"
proof -
  let ?r = "tw_root tw" and ?w = "tw_what_to_show tw"
  obtain cs where t: "t = Rose ?r cs" using assms(4) by (cases t) auto
  define xs where "xs = visibles (filter_node tree ?w flt) cs"
  have r: "?r \<notin> set (preorders cs)" using assms(2) t by (metis distinct.simps(2) preorder.simps)
  have kids: "represents_kids tree ?r None cs" and rep: "represents tree (Rose ?r cs)" using assms(1) t by (metis represents.simps(1), metis)
  from after_visible(2) [OF kids r, of ?w flt] have
    xs: "successively (\<lambda>a b. after tree ?w flt ?r a = Some (Some b)) xs" "xs = [] \<or> after tree ?w flt ?r (last xs) = Some None"
    by (simp_all add: Let_def xs_def climb_root walk_unfold)
  moreover from after_root [OF rep r, of ?w flt] have
    "after tree ?w flt ?r ?r = (case xs of x # _ \<Rightarrow> Some (Some x) | [] \<Rightarrow> Some None)"
    by (simp add: xs_def climb_root walk_unfold cong: list.case_cong)
  ultimately have all: "successively (\<lambda>a b. after tree ?w flt ?r a = Some (Some b)) (?r # xs)" "after tree ?w flt ?r (last (?r # xs)) = Some None"
    by (cases xs; simp)+
  have split: "?r # xs = us @ tw_current tw # vs"
    using assms(3) t by (metis rose.sel xs_def)
  have "after tree ?w flt ?r (tw_current tw) = Some (case vs of [] \<Rightarrow> None | n # _ \<Rightarrow> Some n)"
    using all successively_at [of _ us "tw_current tw" "hd vs" "tl vs"] unfolding split by (cases vs) auto
  then show ?thesis by (cases vs) (simp_all add: next_node_after moved_def)
qed

theorem tree_walker_next_exact_witness:
  "TreeWalker_next_node ex_dom (\<lambda>n. if n = 2 then Reject else Accept) (TreeWalker_new 1 SHOW_ALL)
     = Some (\<lparr>tw_root = 1, tw_current = 3, tw_what_to_show = SHOW_ALL\<rparr>, Some 3)"
  using tree_walker_next_exact [OF ex_represents, of "TreeWalker_new 1 SHOW_ALL" "\<lambda>n. if n = 2 then Reject else Accept" "[]" "[3]"]
  by (simp add: ex_subtree_def TreeWalker_new_def ex_shows)

end
