(* ===== verification/Dom_Ranges.thy ===== *)
theory Dom_Ranges
  imports Prelude "HOL-Library.Product_Lexorder"
begin

section \<open>Ranges and selections\<close>

text \<open>
  \<open>vixen-engine/src/range.rs\<close>: boundary points, ranges and the selection. A node carries the position that the caller gave it
  in document order; the results assume that the caller gave distinct nodes distinct positions, which is what the
  comparison relies on.
\<close>

type_synonym DocumentOrder = usize

record NodeRef =
  nr_id :: usize
  nr_order :: DocumentOrder

definition NodeRef_new :: "usize \<Rightarrow> DocumentOrder \<Rightarrow> NodeRef" where
  "NodeRef_new i k = \<lparr>nr_id = i, nr_order = k\<rparr>"

record Boundary =
  bd_node :: NodeRef
  bd_offset :: usize

definition Boundary_at :: "NodeRef \<Rightarrow> usize \<Rightarrow> Boundary" where
  "Boundary_at n k = \<lparr>bd_node = n, bd_offset = k\<rparr>"

datatype Ordering = Before | Equal | After

definition cmp_usize :: "usize \<Rightarrow> usize \<Rightarrow> Ordering" where
  "cmp_usize a b = (if a < b then Before else if a = b then Equal else After)"

definition Boundary_compare :: "Boundary \<Rightarrow> Boundary \<Rightarrow> Ordering" where
  "Boundary_compare a b =
     (if nr_id (bd_node a) = nr_id (bd_node b) then cmp_usize (bd_offset a) (bd_offset b)
      else cmp_usize (nr_order (bd_node a)) (nr_order (bd_node b)))"

subsection \<open>Ranges\<close>

record Range =
  rg_start :: Boundary
  rg_end :: Boundary

definition Range_new :: "Boundary \<Rightarrow> Boundary \<Rightarrow> Range" where
  "Range_new s e =
     (if Boundary_compare s e = After then \<lparr>rg_start = e, rg_end = s\<rparr> else \<lparr>rg_start = s, rg_end = e\<rparr>)"

definition Range_new_unchecked :: "Boundary \<Rightarrow> Boundary \<Rightarrow> Range" where
  "Range_new_unchecked s e = \<lparr>rg_start = s, rg_end = e\<rparr>"

definition Range_is_collapsed :: "Range \<Rightarrow> bool" where
  "Range_is_collapsed r \<longleftrightarrow> rg_start r = rg_end r"

definition Range_collapse :: "Range \<Rightarrow> bool \<Rightarrow> Range" where
  "Range_collapse r to_start =
     (let point = (if to_start then rg_start r else rg_end r) in \<lparr>rg_start = point, rg_end = point\<rparr>)"

definition Range_set_start :: "Range \<Rightarrow> Boundary \<Rightarrow> Range" where
  "Range_set_start r b =
     (if Boundary_compare b (rg_end r) = After then r\<lparr>rg_start := b, rg_end := b\<rparr> else r\<lparr>rg_start := b\<rparr>)"

definition Range_set_end :: "Range \<Rightarrow> Boundary \<Rightarrow> Range" where
  "Range_set_end r b =
     (if Boundary_compare b (rg_start r) = Before then r\<lparr>rg_start := b, rg_end := b\<rparr> else r\<lparr>rg_end := b\<rparr>)"

definition Range_contains_boundary :: "Range \<Rightarrow> Boundary \<Rightarrow> bool" where
  "Range_contains_boundary r b \<longleftrightarrow>
     (let start_cmp = Boundary_compare b (rg_start r); end_cmp = Boundary_compare b (rg_end r)
      in start_cmp \<noteq> Before \<and> end_cmp \<noteq> After)"

definition Range_intersect :: "Range \<Rightarrow> Range \<Rightarrow> Range option" where
  "Range_intersect r q =
     (let s = (if Boundary_compare (rg_start r) (rg_start q) = Before then rg_start q else rg_start r);
          e = (if Boundary_compare (rg_end r) (rg_end q) = After then rg_end q else rg_end r)
      in if Boundary_compare s e = After then None else Some \<lparr>rg_start = s, rg_end = e\<rparr>)"

subsection \<open>The selection\<close>

record Selection =
  sel_ranges :: "Range list"
  sel_anchor :: "Boundary option"
  sel_focus :: "Boundary option"

datatype SelectionDirection = Forward | Backward | NoDirection

definition Selection_empty :: Selection where
  "Selection_empty = \<lparr>sel_ranges = [], sel_anchor = None, sel_focus = None\<rparr>"

definition Selection_is_collapsed :: "Selection \<Rightarrow> bool" where
  "Selection_is_collapsed s \<longleftrightarrow> list_all Range_is_collapsed (sel_ranges s)"

definition Selection_range_count :: "Selection \<Rightarrow> usize" where
  "Selection_range_count s = length (sel_ranges s)"

definition Selection_add_range :: "Selection \<Rightarrow> Range \<Rightarrow> Selection" where
  "Selection_add_range s r = s\<lparr>sel_anchor := Some (rg_start r), sel_focus := Some (rg_end r), sel_ranges := [r]\<rparr>"

definition Selection_collapse_to :: "Selection \<Rightarrow> Boundary \<Rightarrow> Selection" where
  "Selection_collapse_to s b =
     s\<lparr>sel_ranges := [\<lparr>rg_start = b, rg_end = b\<rparr>], sel_anchor := Some b, sel_focus := Some b\<rparr>"

definition Selection_remove_all_ranges :: "Selection \<Rightarrow> Selection" where
  "Selection_remove_all_ranges s = s\<lparr>sel_ranges := [], sel_anchor := None, sel_focus := None\<rparr>"

definition Selection_direction :: "Selection \<Rightarrow> SelectionDirection" where
  "Selection_direction s =
     (case (sel_anchor s, sel_focus s) of
        (Some a, Some f) \<Rightarrow>
          (case Boundary_compare a f of Before \<Rightarrow> Forward | After \<Rightarrow> Backward | Equal \<Rightarrow> NoDirection)
      | _ \<Rightarrow> NoDirection)"

definition Selection_extend_to :: "Selection \<Rightarrow> Boundary \<Rightarrow> Selection" where
  "Selection_extend_to s b =
     (case sel_anchor s of
        Some anchor \<Rightarrow> s\<lparr>sel_focus := Some b, sel_ranges := [Range_new anchor b]\<rparr>
      | None \<Rightarrow> s)"

subsection \<open>Document order\<close>

text \<open>Where a boundary is, and that it was placed by a numbering of the nodes. With a numbering without repetition the
  comparison is the lexicographic order of position and offset.\<close>

definition place :: "Boundary \<Rightarrow> usize \<times> usize" where
  "place b = (nr_order (bd_node b), bd_offset b)"

definition placed :: "(usize \<Rightarrow> DocumentOrder) \<Rightarrow> Boundary \<Rightarrow> bool" where
  "placed pos b \<longleftrightarrow> nr_order (bd_node b) = pos (nr_id (bd_node b))"

definition ordered :: "Range \<Rightarrow> bool" where
  "ordered r \<longleftrightarrow> place (rg_start r) \<le> place (rg_end r)"

lemma compare_place:
  assumes "inj pos" and "placed pos a" and "placed pos b"
  shows "Boundary_compare a b = (if place a < place b then Before else if place a = place b then Equal else After)"
  using assms injD [OF assms(1), of "nr_id (bd_node a)" "nr_id (bd_node b)"]
  by (auto simp: Boundary_compare_def cmp_usize_def placed_def place_def less_prod_simp)

lemma place_eq: "inj pos \<Longrightarrow> placed pos a \<Longrightarrow> placed pos b \<Longrightarrow> place a = place b \<Longrightarrow> a = b"
  by (cases a; cases b; cases "bd_node a"; cases "bd_node b") (auto simp: place_def placed_def dest: injD)

lemma contains_iff:
  "inj pos \<Longrightarrow> placed pos (rg_start r) \<Longrightarrow> placed pos (rg_end r) \<Longrightarrow> placed pos b \<Longrightarrow>
     Range_contains_boundary r b \<longleftrightarrow> place (rg_start r) \<le> place b \<and> place b \<le> place (rg_end r)"
  by (auto simp: Range_contains_boundary_def compare_place)

lemma intersect_eq:
  assumes "inj pos" and "list_all (placed pos) [rg_start r, rg_end r, rg_start q, rg_end q]"
  obtains s e where "placed pos s" "placed pos e" "place s = max (place (rg_start r)) (place (rg_start q))"
    "place e = min (place (rg_end r)) (place (rg_end q))"
    "Range_intersect r q = (if place s \<le> place e then Some \<lparr>rg_start = s, rg_end = e\<rparr> else None)"
proof -
  define s where "s = (if Boundary_compare (rg_start r) (rg_start q) = Before then rg_start q else rg_start r)"
  define e where "e = (if Boundary_compare (rg_end r) (rg_end q) = After then rg_end q else rg_end r)"
  have pl: "placed pos s" "placed pos e" using assms(2) by (simp_all add: s_def e_def)
  have "place s = max (place (rg_start r)) (place (rg_start q))" "place e = min (place (rg_end r)) (place (rg_end q))"
    using assms by (auto simp: s_def e_def compare_place max_def min_def)
  moreover have "Range_intersect r q = (if Boundary_compare s e = After then None else Some \<lparr>rg_start = s, rg_end = e\<rparr>)"
    by (simp only: Range_intersect_def s_def e_def Let_def)
  then have "Range_intersect r q = (if place s \<le> place e then Some \<lparr>rg_start = s, rg_end = e\<rparr> else None)"
    by (auto simp: compare_place [OF assms(1) pl])
  ultimately show thesis using that pl by blast
qed

text \<open>The range between two boundaries in document order, and a selection from an anchor to a focus.\<close>

definition range_between :: "Boundary \<Rightarrow> Boundary \<Rightarrow> Range" where
  "range_between a b =
     (if place b < place a then \<lparr>rg_start = b, rg_end = a\<rparr> else \<lparr>rg_start = a, rg_end = b\<rparr>)"

definition selects :: "Selection \<Rightarrow> Boundary \<Rightarrow> Boundary \<Rightarrow> bool" where
  "selects s anchor focus \<longleftrightarrow> sel_anchor s = Some anchor \<and> sel_focus s = Some focus
     \<and> sel_ranges s = [range_between anchor focus]
     \<and> Selection_direction s =
         (if place anchor < place focus then Forward else if place focus < place anchor then Backward else NoDirection)"

lemma extends_anchor: "sel_anchor (foldl Selection_extend_to s bs) = sel_anchor s"
  by (induction bs arbitrary: s) (simp_all add: Selection_extend_to_def split: option.split)

lemma extend_selects:
  assumes "inj pos" and "placed pos a" and "placed pos b" and "sel_anchor s = Some a"
  shows "selects (foldl Selection_extend_to s (bs @ [b])) a b"
  using assms extends_anchor [of s bs]
  by (auto simp: selects_def range_between_def Selection_extend_to_def Range_new_def Selection_direction_def compare_place)

subsection \<open>Properties\<close>

text \<open>C38: ranges stay ordered and are intervals of the document. If the caller numbers the nodes without repetition,
  a new range is the one between its boundaries; setting its start keeps the end, unless the start would come after it, when the range
  collapses to the start, and likewise for the end; a boundary is in the intersection of
  two ranges exactly if it is in both, and there is no intersection exactly if no boundary is in both.
  However often a selection is extended, it goes from where it was placed to where it was last extended: its anchor is the boundary it was collapsed
  to, or the start of the range it was given, its focus is the last boundary, its range is the one between the
  two and its direction says which of them comes first. A selection without ranges is not extended.\<close>

theorem ranges_are_intervals:
  assumes "inj pos" and "list_all (placed pos) [rg_start r, rg_end r, rg_start q, rg_end q, a, b]" and "ordered r" and "ordered q"
  shows "Range_new a b = range_between a b \<and> ordered (Range_new a b)
    \<and> Range_collapse r to_start = (if to_start then \<lparr>rg_start = rg_start r, rg_end = rg_start r\<rparr> else \<lparr>rg_start = rg_end r, rg_end = rg_end r\<rparr>)
    \<and> Range_set_start r a = (if place (rg_end r) < place a then \<lparr>rg_start = a, rg_end = a\<rparr> else \<lparr>rg_start = a, rg_end = rg_end r\<rparr>)
    \<and> Range_set_end r a = (if place a < place (rg_start r) then \<lparr>rg_start = a, rg_end = a\<rparr> else \<lparr>rg_start = rg_start r, rg_end = a\<rparr>)
    \<and> ordered (Range_set_start r a) \<and> ordered (Range_set_end r a)
    \<and> Range_contains_boundary r a = (place (rg_start r) \<le> place a \<and> place a \<le> place (rg_end r))
    \<and> (case Range_intersect r q of
         Some i \<Rightarrow> ordered i \<and> Range_contains_boundary i a = (Range_contains_boundary r a \<and> Range_contains_boundary q a)
       | None \<Rightarrow> \<not> (Range_contains_boundary r a \<and> Range_contains_boundary q a))
    \<and> selects (foldl Selection_extend_to (Selection_collapse_to s a) (bs @ [b])) a b
    \<and> selects (foldl Selection_extend_to (Selection_add_range s r) (bs @ [b])) (rg_start r) b
    \<and> Selection_extend_to (Selection_remove_all_ranges s) b = Selection_empty"
proof -
  have pl: "placed pos (rg_start r)" "placed pos (rg_end r)" "placed pos (rg_start q)" "placed pos (rg_end q)" "placed pos a" "placed pos b"
    using assms(2) by simp_all
  note cmp = compare_place [OF assms(1)]
  show ?thesis
  proof (intro conjI)
    show "Range_new a b = range_between a b" "ordered (Range_new a b)"
      using pl by (auto simp: ordered_def Range_new_def range_between_def cmp)
    show "Range_set_start r a = (if place (rg_end r) < place a then \<lparr>rg_start = a, rg_end = a\<rparr> else \<lparr>rg_start = a, rg_end = rg_end r\<rparr>)"
      "Range_set_end r a = (if place a < place (rg_start r) then \<lparr>rg_start = a, rg_end = a\<rparr> else \<lparr>rg_start = rg_start r, rg_end = a\<rparr>)"
      using pl by (auto simp: Range_set_start_def Range_set_end_def cmp)
    show "ordered (Range_set_start r a)" "ordered (Range_set_end r a)"
      using pl assms(3) by (auto simp: ordered_def Range_set_start_def Range_set_end_def cmp)
    show "Range_contains_boundary r a = (place (rg_start r) \<le> place a \<and> place a \<le> place (rg_end r))"
      using pl by (auto simp: Range_contains_boundary_def cmp)
    show "case Range_intersect r q of
         Some i \<Rightarrow> ordered i \<and> Range_contains_boundary i a = (Range_contains_boundary r a \<and> Range_contains_boundary q a)
       | None \<Rightarrow> \<not> (Range_contains_boundary r a \<and> Range_contains_boundary q a)"
    proof -
      from assms(2) have "list_all (placed pos) [rg_start r, rg_end r, rg_start q, rg_end q]" by simp
      from intersect_eq [OF assms(1) this] obtain s e where se: "placed pos s" "placed pos e"
          "place s = max (place (rg_start r)) (place (rg_start q))" "place e = min (place (rg_end r)) (place (rg_end q))"
          "Range_intersect r q = (if place s \<le> place e then Some \<lparr>rg_start = s, rg_end = e\<rparr> else None)" .
      show ?thesis
        using pl se(1,2) order_trans [of "place s" "place a" "place e"]
        by (auto simp: se(5) ordered_def contains_iff [OF assms(1)]) (auto simp: se(3,4))
    qed
    show "selects (foldl Selection_extend_to (Selection_collapse_to s a) (bs @ [b])) a b"
      "selects (foldl Selection_extend_to (Selection_add_range s r) (bs @ [b])) (rg_start r) b"
      using extend_selects [OF assms(1) pl(5,6)] extend_selects [OF assms(1) pl(1,6)]
      by (simp_all add: Selection_collapse_to_def Selection_add_range_def del: foldl_append)
  qed (simp_all add: Range_collapse_def Selection_remove_all_ranges_def Selection_extend_to_def Selection_empty_def Let_def)
qed

theorem ranges_are_intervals_witness:
  "let at = (\<lambda>n k. Boundary_at (NodeRef_new n n) k) in
   Range_contains_boundary (Range_new (at 1 0) (at 3 2)) (at 2 7)
   \<and> sel_ranges (foldl Selection_extend_to (Selection_collapse_to Selection_empty (at 2 7)) [at 1 0, at 3 2]) = [\<lparr>rg_start = at 2 7, rg_end = at 3 2\<rparr>]"
proof -
  define at where "at n k = Boundary_at (NodeRef_new n n) k" for n k
  have pl: "placed id (at n k)" and place: "place (at n k) = (n, k)" for n k
    by (simp_all add: at_def placed_def place_def Boundary_at_def NodeRef_new_def)
  have r: "Range_new (at 1 0) (at 3 2) = \<lparr>rg_start = at 1 0, rg_end = at 3 2\<rparr>"
    by (simp add: Range_new_def compare_place [OF inj_on_id pl pl] place del: One_nat_def)
  have "ordered (Range_new (at 1 0) (at 3 2))" by (simp add: r ordered_def place del: One_nat_def)
  from ranges_are_intervals [of id "Range_new (at 1 0) (at 3 2)" "Range_new (at 1 0) (at 3 2)" "at 2 7" "at 3 2" True Selection_empty "[at 1 0]",
      OF inj_on_id _ this this]
  show ?thesis
    by (simp add: r pl at_def [symmetric] Let_def selects_def range_between_def place del: One_nat_def foldl_Cons)
qed

end
