(* ===== verification/Dom_Events.thy ===== *)
theory Dom_Events
  imports Guarded_Refinement
begin

section \<open>Event paths, focus and mutation observers\<close>

text \<open>
  \<open>vixen-engine/src/event_path.rs\<close> and \<open>mutation_observer.rs\<close>. The walk along parent links need not end, since nothing says
  that the links of the caller are a tree, so it is a partial function. The observer interprets the contract of
  \<open>Guarded_Refinement\<close>: calls act on a map of registrations and a queue, or are refused.
\<close>

subsection \<open>Event paths\<close>

record PathNode =
  pn_id :: usize
  pn_parent :: "usize option"
  pn_is_shadow_root :: bool

definition path_lookup :: "PathNode list \<Rightarrow> usize \<Rightarrow> PathNode option" where
  "path_lookup nodes i = find (\<lambda>n. pn_id n = i) nodes"

definition is_shadow :: "PathNode list \<Rightarrow> usize \<Rightarrow> bool" where
  "is_shadow nodes i = (case path_lookup nodes i of Some n \<Rightarrow> pn_is_shadow_root n | None \<Rightarrow> False)"

partial_function (option) path_loop :: "PathNode list \<Rightarrow> bool \<Rightarrow> usize list \<Rightarrow> usize \<Rightarrow> usize list option" where
  "path_loop nodes composed path cur =
     (case path_lookup nodes cur of
        None \<Rightarrow> Some path
      | Some node \<Rightarrow>
          (case pn_parent node of
             None \<Rightarrow> Some path
           | Some parent_id \<Rightarrow>
               if \<not> composed \<and> is_shadow nodes parent_id then Some (path @ [parent_id])
               else path_loop nodes composed (path @ [parent_id]) parent_id))"

definition composed_path :: "usize \<Rightarrow> PathNode list \<Rightarrow> bool \<Rightarrow> usize list option" where
  "composed_path target nodes composed = path_loop nodes composed [target] target"

subsection \<open>Focus\<close>

record FocusDispatch =
  fd_event :: string
  fd_target :: "usize option"
  fd_bubbles :: bool

definition focus_event_sequence :: "usize option \<Rightarrow> usize option \<Rightarrow> FocusDispatch list" where
  "focus_event_sequence old new =
     (if old = new then []
      else
        (case old of Some x \<Rightarrow> [\<lparr>fd_event = ''focusout'', fd_target = Some x, fd_bubbles = True\<rparr>] | None \<Rightarrow> [])
        @ (case new of Some n \<Rightarrow> [\<lparr>fd_event = ''focusin'', fd_target = Some n, fd_bubbles = True\<rparr>] | None \<Rightarrow> [])
        @ (case old of Some x \<Rightarrow> [\<lparr>fd_event = ''blur'', fd_target = Some x, fd_bubbles = False\<rparr>] | None \<Rightarrow> [])
        @ (case new of Some n \<Rightarrow> [\<lparr>fd_event = ''focus'', fd_target = Some n, fd_bubbles = False\<rparr>] | None \<Rightarrow> []))"

subsection \<open>Mutation records and observers\<close>

type_synonym NodeHandle = usize

datatype MutationType = ChildList | Attributes | CharacterData

primrec MutationType_as_str :: "MutationType \<Rightarrow> string" where
  "MutationType_as_str ChildList = ''childList''"
| "MutationType_as_str Attributes = ''attributes''"
| "MutationType_as_str CharacterData = ''characterData''"

record MutationRecord =
  mr_type :: MutationType
  mr_target :: NodeHandle
  mr_added_nodes :: "NodeHandle list"
  mr_removed_nodes :: "NodeHandle list"
  mr_previous_sibling :: "NodeHandle option"
  mr_next_sibling :: "NodeHandle option"
  mr_attribute_name :: "string option"
  mr_attribute_namespace :: "string option"
  mr_old_value :: "string option"

definition MutationRecord_child_list ::
    "NodeHandle \<Rightarrow> NodeHandle list \<Rightarrow> NodeHandle list \<Rightarrow> NodeHandle option \<Rightarrow> NodeHandle option \<Rightarrow> MutationRecord" where
  "MutationRecord_child_list target added removed prev nxt =
     \<lparr>mr_type = ChildList, mr_target = target, mr_added_nodes = added, mr_removed_nodes = removed, mr_previous_sibling = prev,
      mr_next_sibling = nxt, mr_attribute_name = None, mr_attribute_namespace = None, mr_old_value = None\<rparr>"

definition MutationRecord_attribute :: "NodeHandle \<Rightarrow> string \<Rightarrow> string option \<Rightarrow> string option \<Rightarrow> MutationRecord" where
  "MutationRecord_attribute target name namespace old_value =
     \<lparr>mr_type = Attributes, mr_target = target, mr_added_nodes = [], mr_removed_nodes = [], mr_previous_sibling = None,
      mr_next_sibling = None, mr_attribute_name = Some name, mr_attribute_namespace = namespace, mr_old_value = old_value\<rparr>"

definition MutationRecord_character_data :: "NodeHandle \<Rightarrow> string option \<Rightarrow> MutationRecord" where
  "MutationRecord_character_data target old_value =
     \<lparr>mr_type = CharacterData, mr_target = target, mr_added_nodes = [], mr_removed_nodes = [], mr_previous_sibling = None,
      mr_next_sibling = None, mr_attribute_name = None, mr_attribute_namespace = None, mr_old_value = old_value\<rparr>"

record MutationObserverInit =
  mo_child_list :: bool
  mo_attributes :: bool
  mo_attribute_filter :: "string list option"
  mo_attribute_old_value :: bool
  mo_character_data :: bool
  mo_character_data_old_value :: bool
  mo_subtree :: bool

definition MutationObserverInit_is_valid :: "MutationObserverInit \<Rightarrow> bool" where
  "MutationObserverInit_is_valid opts \<longleftrightarrow> mo_child_list opts \<or> mo_attributes opts \<or> mo_character_data opts"

definition MutationObserverInit_allows_attribute :: "MutationObserverInit \<Rightarrow> string \<Rightarrow> bool" where
  "MutationObserverInit_allows_attribute opts name =
     (case mo_attribute_filter opts of None \<Rightarrow> True | Some names \<Rightarrow> list_ex (\<lambda>n. n = name) names)"

datatype Relation = Target | Descendant

definition should_observe :: "Relation \<Rightarrow> MutationType \<Rightarrow> string option \<Rightarrow> MutationObserverInit \<Rightarrow> bool" where
  "should_observe relation kind attribute_name opts =
     (let in_scope = (case relation of Target \<Rightarrow> True | Descendant \<Rightarrow> mo_subtree opts) in
      if \<not> in_scope then False
      else (case kind of
          ChildList \<Rightarrow> mo_child_list opts
        | Attributes \<Rightarrow>
            mo_attributes opts \<and> MutationObserverInit_allows_attribute opts (case attribute_name of Some n \<Rightarrow> n | None \<Rightarrow> [])
        | CharacterData \<Rightarrow> mo_character_data opts))"

record MutationObserver =
  mo_records :: "MutationRecord list"
  mo_registrations :: "(NodeHandle \<times> MutationObserverInit) list"

definition MutationObserver_new :: MutationObserver where
  "MutationObserver_new = \<lparr>mo_records = [], mo_registrations = []\<rparr>"

text \<open>Replacing the options in the first slot of a target, if it has one.\<close>

primrec replace_first :: "NodeHandle \<Rightarrow> MutationObserverInit \<Rightarrow> (NodeHandle \<times> MutationObserverInit) list
    \<Rightarrow> (NodeHandle \<times> MutationObserverInit) list option" where
  "replace_first target opts [] = None"
| "replace_first target opts (r # rs) =
     (if fst r = target then Some ((fst r, opts) # rs) else map_option ((#) r) (replace_first target opts rs))"

definition MutationObserver_observe :: "MutationObserver \<Rightarrow> NodeHandle \<Rightarrow> MutationObserverInit \<Rightarrow> MutationObserver \<times> bool" where
  "MutationObserver_observe ob target opts =
     (if \<not> MutationObserverInit_is_valid opts then (ob, False)
      else (case replace_first target opts (mo_registrations ob) of
          Some rs \<Rightarrow> (ob\<lparr>mo_registrations := rs\<rparr>, True)
        | None \<Rightarrow> (ob\<lparr>mo_registrations := mo_registrations ob @ [(target, opts)]\<rparr>, True)))"

definition MutationObserver_disconnect :: "MutationObserver \<Rightarrow> MutationObserver" where
  "MutationObserver_disconnect ob = ob\<lparr>mo_registrations := []\<rparr>"

definition MutationObserver_registrations :: "MutationObserver \<Rightarrow> (NodeHandle \<times> MutationObserverInit) list" where
  "MutationObserver_registrations ob = mo_registrations ob"

definition MutationObserver_enqueue :: "MutationObserver \<Rightarrow> MutationRecord \<Rightarrow> MutationObserver" where
  "MutationObserver_enqueue ob rec = ob\<lparr>mo_records := mo_records ob @ [rec]\<rparr>"

definition MutationObserver_take_records :: "MutationObserver \<Rightarrow> MutationObserver \<times> MutationRecord list" where
  "MutationObserver_take_records ob = (ob\<lparr>mo_records := []\<rparr>, mo_records ob)"

definition MutationObserver_drain_for_delivery :: "MutationObserver \<Rightarrow> MutationObserver \<times> MutationRecord list" where
  "MutationObserver_drain_for_delivery ob = MutationObserver_take_records ob"

definition MutationObserver_pending_count :: "MutationObserver \<Rightarrow> usize" where
  "MutationObserver_pending_count ob = length (mo_records ob)"

subsection \<open>Paths on a tree\<close>

text \<open>The part of a list up to and including its first element with a property.\<close>

primrec upto_first :: "('a \<Rightarrow> bool) \<Rightarrow> 'a list \<Rightarrow> 'a list" where
  "upto_first p [] = []"
| "upto_first p (x # xs) = x # (if p x then [] else upto_first p xs)"

definition parent_of :: "PathNode list \<Rightarrow> usize \<Rightarrow> usize option" where
  "parent_of nodes i = Option.bind (path_lookup nodes i) pn_parent"

text \<open>A rank that decreases along parent links, as the depth in a tree does.\<close>

definition parents_ranked :: "(usize \<Rightarrow> nat) \<Rightarrow> PathNode list \<Rightarrow> bool" where
  "parents_ranked rank nodes = list_all (\<lambda>n. case pn_parent n of Some p \<Rightarrow> rank p < rank (pn_id n) | None \<Rightarrow> True) nodes"

lemma parent_rank: "parents_ranked rank nodes \<Longrightarrow> parent_of nodes i = Some p \<Longrightarrow> rank p < rank i"
  by (auto simp: parents_ranked_def parent_of_def path_lookup_def list_all_iff find_Some_iff bind_eq_Some_conv dest!: nth_mem)

lemma path_loop_step:
  "path_loop nodes composed path cur =
     (case parent_of nodes cur of
        None \<Rightarrow> Some path
      | Some p \<Rightarrow> if \<not> composed \<and> is_shadow nodes p then Some (path @ [p]) else path_loop nodes composed (path @ [p]) p)"
  by (subst path_loop.simps) (simp add: parent_of_def split: option.split)

lemma path_loop_exact:
  assumes "parents_ranked rank nodes"
  shows "\<exists>ps. (\<forall>path. path_loop nodes True path cur = Some (path @ ps) \<and> path_loop nodes False path cur = Some (path @ upto_first (is_shadow nodes) ps))
    \<and> successively (\<lambda>a b. parent_of nodes a = Some b) (cur # ps) \<and> parent_of nodes (last (cur # ps)) = None"
proof (induction "rank cur" arbitrary: cur rule: less_induct)
  case less
  show ?case
  proof (cases "parent_of nodes cur")
    case None
    then show ?thesis by (intro exI [of _ "[]"]) (simp add: path_loop_step [of nodes _ _ cur])
  next
    case (Some p)
    from less [OF parent_rank [OF assms Some]] obtain ps where ps:
      "\<And>path. path_loop nodes True path p = Some (path @ ps)"
      "\<And>path. path_loop nodes False path p = Some (path @ upto_first (is_shadow nodes) ps)"
      "successively (\<lambda>a b. parent_of nodes a = Some b) (p # ps)" "parent_of nodes (last (p # ps)) = None"
      by blast
    then show ?thesis
      using Some by (intro exI [of _ "p # ps"]) (simp add: path_loop_step [of nodes _ _ cur])
  qed
qed

subsection \<open>Calls on an observer\<close>

datatype observer_call = Observe NodeHandle MutationObserverInit | Disconnect | Enqueue MutationRecord | TakeRecords | DrainForDelivery

text \<open>The state with what was handed out so far.\<close>

fun observer_step :: "MutationObserver \<times> MutationRecord list \<Rightarrow> observer_call \<Rightarrow> MutationObserver \<times> MutationRecord list" where
  "observer_step (ob, out) (Observe t opts) = (fst (MutationObserver_observe ob t opts), out)"
| "observer_step (ob, out) Disconnect = (MutationObserver_disconnect ob, out)"
| "observer_step (ob, out) (Enqueue rec) = (MutationObserver_enqueue ob rec, out)"
| "observer_step (ob, out) TakeRecords = (let (ob', rs) = MutationObserver_take_records ob in (ob', out @ rs))"
| "observer_step (ob, out) DrainForDelivery = (let (ob', rs) = MutationObserver_drain_for_delivery ob in (ob', out @ rs))"

definition call_valid :: "observer_call \<Rightarrow> bool" where
  "call_valid c = (case c of Observe t opts \<Rightarrow> MutationObserverInit_is_valid opts | _ \<Rightarrow> True)"

fun observer_spec :: "(NodeHandle \<Rightarrow> MutationObserverInit option) \<times> MutationRecord list \<Rightarrow> observer_call
    \<Rightarrow> (NodeHandle \<Rightarrow> MutationObserverInit option) \<times> MutationRecord list" where
  "observer_spec (m, q) (Observe t opts) = (m(t \<mapsto> opts), q)"
| "observer_spec (m, q) Disconnect = (Map.empty, q)"
| "observer_spec (m, q) (Enqueue rec) = (m, q @ [rec])"
| "observer_spec (m, q) TakeRecords = (m, q)"
| "observer_spec (m, q) DrainForDelivery = (m, q)"

lemma replace_first_None: "replace_first t opts rs = None \<longleftrightarrow> t \<notin> fst ` set rs"
  by (induction rs) auto

lemma map_of_snoc: "t \<notin> fst ` set rs \<Longrightarrow> map_of (rs @ [(t, v)]) = (map_of rs)(t \<mapsto> v)"
  by (induction rs) (auto simp: fun_eq_iff)

lemma replace_first_Some:
  "replace_first t opts rs = Some rs' \<Longrightarrow> map fst rs' = map fst rs \<and> map_of rs' = (map_of rs)(t \<mapsto> opts)"
  by (induction rs arbitrary: rs') (auto split: if_splits simp: fun_eq_iff)

interpretation observer: guarded_refinement "\<lambda>s. distinct (map fst (mo_registrations (fst s)))" observer_step
  "\<lambda>s. (map_of (mo_registrations (fst s)), snd s @ mo_records (fst s))" call_valid observer_spec
proof
  fix s :: "MutationObserver \<times> MutationRecord list" and c
  assume wf: "distinct (map fst (mo_registrations (fst s)))"
  obtain ob out where s: "s = (ob, out)" by (cases s)
  have observe: "distinct (map fst (mo_registrations (fst (MutationObserver_observe ob t opts))))
      \<and> map_of (mo_registrations (fst (MutationObserver_observe ob t opts)))
        = (if MutationObserverInit_is_valid opts then (map_of (mo_registrations ob))(t \<mapsto> opts) else map_of (mo_registrations ob))
      \<and> mo_records (fst (MutationObserver_observe ob t opts)) = mo_records ob" for t opts
  proof (cases "replace_first t opts (mo_registrations ob)")
    case None
    with replace_first_None [of t opts "mo_registrations ob"] have "t \<notin> fst ` set (mo_registrations ob)" by simp
    then show ?thesis using wf None
      by (simp add: s MutationObserver_observe_def map_of_snoc del: map_of_append)
  next
    case (Some rs)
    with replace_first_Some [OF Some] wf show ?thesis by (simp add: s MutationObserver_observe_def)
  qed
  show "distinct (map fst (mo_registrations (fst (observer_step s c))))"
    using wf observe by (cases c) (auto simp: s MutationObserver_disconnect_def MutationObserver_enqueue_def
        MutationObserver_take_records_def MutationObserver_drain_for_delivery_def)
  show "(map_of (mo_registrations (fst (observer_step s c))), snd (observer_step s c) @ mo_records (fst (observer_step s c)))
      = observer_spec (map_of (mo_registrations (fst s)), snd s @ mo_records (fst s)) c" if "call_valid c"
    using that observe by (cases c) (auto simp: s call_valid_def MutationObserver_disconnect_def MutationObserver_enqueue_def
        MutationObserver_take_records_def MutationObserver_drain_for_delivery_def)
  show "observer_step s c = s" if "\<not> call_valid c"
    using that by (cases c) (auto simp: s call_valid_def MutationObserver_observe_def)
qed

subsection \<open>Properties\<close>

text \<open>C37: the path of an event. If parent links never lead back, the walk ends; the composed path starts at the target,
  goes from each node to its parent and ends at a node without one; the path of an event that is not composed is
  the part of it up to and including the first shadow root above the target. (A target that is a shadow root
  itself does not stop the walk: its path goes on into the host.)\<close>

theorem event_path_exact:
  assumes "parents_ranked rank nodes"
  shows "\<exists>ancestors. composed_path target nodes True = Some (target # ancestors)
    \<and> composed_path target nodes False = Some (target # upto_first (is_shadow nodes) ancestors)
    \<and> successively (\<lambda>a b. parent_of nodes a = Some b) (target # ancestors)
    \<and> parent_of nodes (last (target # ancestors)) = None"
  using path_loop_exact [OF assms, of target] by (force simp: composed_path_def)

theorem event_path_exact_witness:
  "\<exists>ancestors. composed_path 2 [\<lparr>pn_id = 0, pn_parent = None, pn_is_shadow_root = False\<rparr>,
     \<lparr>pn_id = 1, pn_parent = Some 0, pn_is_shadow_root = True\<rparr>, \<lparr>pn_id = 2, pn_parent = Some 1, pn_is_shadow_root = False\<rparr>] True
   = Some (2 # ancestors)"
  using event_path_exact [of "\<lambda>i. i" "[\<lparr>pn_id = 0, pn_parent = None, pn_is_shadow_root = False\<rparr>,
     \<lparr>pn_id = 1, pn_parent = Some 0, pn_is_shadow_root = True\<rparr>, \<lparr>pn_id = 2, pn_parent = Some 1, pn_is_shadow_root = False\<rparr>]" 2]
  by (auto simp: parents_ranked_def)

text \<open>A mutation observer after any sequence of calls. Each target is registered once, with the options of the last valid
  \<open>observe\<close> since the last \<open>disconnect\<close>; calls with invalid options change nothing; and the records handed out, followed
  by those that wait, are all records in the order in which they were enqueued.\<close>

theorem observer_calls_refine:
  "let (ob, out) = foldl observer_step (MutationObserver_new, []) calls in
     distinct (map fst (mo_registrations ob))
     \<and> (map_of (mo_registrations ob), out @ mo_records ob) = foldl observer_spec (Map.empty, []) (filter call_valid calls)"
  using observer.run_wf [of "(MutationObserver_new, [])" calls] observer.run_abs [of "(MutationObserver_new, [])" calls]
  by (auto simp: MutationObserver_new_def split: prod.splits)

end
