(* ===== verification/Mime_Types.thy ===== *)
theory Mime_Types
  imports Search_Params Ordered_Map
begin

section \<open>MIME types and data URLs\<close>

text \<open>
  \<open>vixen-engine/src/mime.rs\<close> and \<open>data_url.rs\<close>. The MIME parser looks for ASCII characters only, so its loops over
  characters are recursions over the bytes that are left. The parameters are a \<open>BTreeMap\<close>. What the parser returns is
  well formed, and serializing a well-formed MIME type and parsing it again gives it back, whatever its parameter
  values are. A data URL is split and decoded; the base64 engine is a parameter. Slicing a string outside a
  character boundary panics, which is the outcome \<open>None\<close>.
\<close>

subsection \<open>MIME types\<close>

record MimeType =
  mime_type :: string
  mime_subtype :: string
  mime_parameters :: "(string, string) btree"

definition is_http_whitespace :: "char \<Rightarrow> bool" where
  "is_http_whitespace c \<longleftrightarrow> c \<in> {CHR '' '', CHR 0x09, CHR 0x0A, CHR 0x0D}"

definition mime_alphanumeric :: "char \<Rightarrow> bool" where
  "mime_alphanumeric c \<longleftrightarrow> 48 \<le> byte c \<and> byte c \<le> 57 \<or> 65 \<le> byte c \<and> byte c \<le> 90 \<or> 97 \<le> byte c \<and> byte c \<le> 122"

definition is_http_token_code_point :: "char \<Rightarrow> bool" where
  "is_http_token_code_point c \<longleftrightarrow> c \<in> set (CHR 0x27 # ''!#$%&*+-.^_`|~'') \<or> mime_alphanumeric c"

definition trim_matches :: "(char \<Rightarrow> bool) \<Rightarrow> string \<Rightarrow> string" where
  "trim_matches p s = rev (dropWhile p (rev (dropWhile p s)))"

text \<open>The loop over a quoted string, after its opening quote: the value and what follows the closing quote.\<close>

function quoted_string :: "string \<Rightarrow> string \<Rightarrow> string \<times> string" where
  "quoted_string [] val = (val, [])"
| "quoted_string (c # s) val =
     (if c = CHR 0x22 then (val, s)
      else if c = CHR 0x5C \<and> s \<noteq> [] then quoted_string (tl s) (val @ [hd s])
      else quoted_string s (val @ [c]))"
  by pat_completeness auto
termination by (relation "measure (length \<circ> fst)") auto

definition parameter_value :: "string \<Rightarrow> string \<times> string" where
  "parameter_value s =
     (if s \<noteq> [] \<and> hd s = CHR ''='' then
        (if tl s \<noteq> [] \<and> hd (tl s) = CHR 0x22 then quoted_string (tl (tl s)) []
         else (trim_matches is_http_whitespace (takeWhile (\<lambda>c. c \<noteq> CHR '';'') (tl s)),
               dropWhile (\<lambda>c. c \<noteq> CHR '';'') (tl s)))
      else ([], s))"

lemma quoted_string_shorter: "length (snd (quoted_string s v)) \<le> length s"
  by (induction s v rule: quoted_string.induct) (auto simp: le_diff_conv)

lemma parameter_value_shorter: "length (snd (parameter_value s)) \<le> length s"
proof -
  have "length (dropWhile P (tl s)) \<le> length s" for P
    using length_dropWhile_le [of P "tl s"] by simp
  moreover have "length (snd (quoted_string (tl (tl s)) [])) \<le> length s"
    using quoted_string_shorter [of "tl (tl s)" "[]"] by simp
  ultimately show ?thesis by (simp add: parameter_value_def)
qed

definition parameter_name_end :: "char \<Rightarrow> bool" where
  "parameter_name_end c \<longleftrightarrow> c = CHR '';'' \<or> c = CHR ''=''"

definition insert_first :: "string \<Rightarrow> string \<Rightarrow> (string, string) btree \<Rightarrow> (string, string) btree" where
  "insert_first name val ps = (if name \<noteq> [] \<and> \<not> bt_contains_key ps name then bt_insert name val ps else ps)"

function parameter_loop :: "(string, string) btree \<Rightarrow> string \<Rightarrow> (string, string) btree" where
  "parameter_loop ps [] = ps"
| "parameter_loop ps (c # s) =
     (if c \<noteq> CHR '';'' then ps
      else (let s = dropWhile is_http_whitespace s;
                name = to_ascii_lowercase (takeWhile (\<lambda>c. \<not> parameter_name_end c) s);
                (val, s) = parameter_value (dropWhile (\<lambda>c. \<not> parameter_name_end c) s)
            in parameter_loop (insert_first name val ps) s))"
  by pat_completeness auto
termination
proof (relation "measure (length \<circ> snd)")
  fix ps :: "(string, string) btree" and c s t name x val u
  assume "t = dropWhile is_http_whitespace s"
    and "x = parameter_value (dropWhile (\<lambda>c. \<not> parameter_name_end c) t)" and "(val, u) = x"
  then have "length u \<le> length (dropWhile (\<lambda>c. \<not> parameter_name_end c) (dropWhile is_http_whitespace s))"
    using parameter_value_shorter by (metis snd_conv)
  also have "\<dots> \<le> length s"
    by (meson le_trans length_dropWhile_le)
  finally show "((insert_first name val ps, u), (ps, c # s)) \<in> measure (length \<circ> snd)" by simp
qed simp

definition mime_token :: "string \<Rightarrow> string option" where
  "mime_token raw =
     (let t = to_ascii_lowercase (trim_matches is_http_whitespace raw)
      in if t = [] \<or> \<not> list_all is_http_token_code_point t then None else Some t)"

definition MimeType_parse :: "string \<Rightarrow> MimeType option" where
  "MimeType_parse input =
     (let input = trim_matches is_http_whitespace input;
          rest = dropWhile (\<lambda>c. c \<noteq> CHR ''/'') input
      in if rest = [] then None
         else (case mime_token (takeWhile (\<lambda>c. c \<noteq> CHR ''/'') input) of
             None \<Rightarrow> None
           | Some t \<Rightarrow>
               (case mime_token (takeWhile (\<lambda>c. c \<noteq> CHR '';'') (tl rest)) of
                  None \<Rightarrow> None
                | Some u \<Rightarrow> Some \<lparr>mime_type = t, mime_subtype = u,
                    mime_parameters = parameter_loop [] (dropWhile (\<lambda>c. c \<noteq> CHR '';'') (tl rest))\<rparr>)))"

definition quote_char :: "char \<Rightarrow> string \<Rightarrow> string" where
  "quote_char c out = (if c = CHR 0x5C \<or> c = CHR 0x22 then out @ [CHR 0x5C, c] else out @ [c])"

definition serialize_parameter :: "string \<times> string \<Rightarrow> string \<Rightarrow> string" where
  "serialize_parameter p out =
     (let out = out @ '';'' @ fst p
      in if snd p = [] then out
         else (let out = out @ ''=''
               in if list_all is_http_token_code_point (snd p) then out @ snd p
                  else fold quote_char (snd p) (out @ [CHR 0x22]) @ [CHR 0x22]))"

definition MimeType_serialize :: "MimeType \<Rightarrow> string" where
  "MimeType_serialize m =
     fold serialize_parameter (mime_parameters m) (mime_type m @ ''/'' @ mime_subtype m)"

definition MimeType_essence :: "MimeType \<Rightarrow> string" where
  "MimeType_essence m = mime_type m @ ''/'' @ mime_subtype m"

definition MimeType_is_essence :: "MimeType \<Rightarrow> string \<Rightarrow> bool" where
  "MimeType_is_essence m expected \<longleftrightarrow> MimeType_essence m = expected"

subsection \<open>Data URLs\<close>

record DataUrl =
  du_mime_type :: MimeType
  du_is_base64 :: bool
  du_data :: string

datatype DataUrlError = NotDataUrl | MissingComma | InvalidMediaType string | InvalidBase64

text \<open>\<open>str::is_char_boundary\<close>.\<close>

definition is_char_boundary :: "string \<Rightarrow> usize \<Rightarrow> bool" where
  "is_char_boundary s i \<longleftrightarrow> i = 0 \<or> i = length s \<or> i < length s \<and> \<not> continuation_byte (s ! i)"

definition strip_base64_flag :: "string \<Rightarrow> (string \<times> bool) option" where
  "strip_base64_flag head =
     (if 7 \<le> length head then
        (let k = length head - 7 in
         if \<not> is_char_boundary head k then None
         else if eq_ignore_ascii_case (drop k head) '';base64'' then Some (take k head, True)
         else Some (head, False))
      else Some (head, False))"

definition resolve_mediatype :: "string \<Rightarrow> (MimeType, DataUrlError) result" where
  "resolve_mediatype s =
     (if s = [] then ok_or (MimeType_parse ''text/plain;charset=US-ASCII'') (InvalidMediaType s)
      else if starts_with_char (CHR '';'') s then ok_or (MimeType_parse (''text/plain'' @ s)) (InvalidMediaType s)
      else ok_or (MimeType_parse s) (InvalidMediaType s))"

function percent_decode :: "string \<Rightarrow> string" where
  "percent_decode [] = []"
| "percent_decode (b # s) =
     (case escaped_byte (b # s) of
        Some d \<Rightarrow> d # percent_decode (drop 2 s)
      | None \<Rightarrow> b # percent_decode s)"
  by pat_completeness auto
termination by (relation "measure length") auto

definition base64_blank :: "char \<Rightarrow> bool" where
  "base64_blank b \<longleftrightarrow> b \<in> {CHR '' '', CHR 0x09, CHR 0x0A, CHR 0x0D, CHR 0x0C}"

definition decode_base64_lenient :: "(string \<Rightarrow> string option) \<Rightarrow> string \<Rightarrow> string option" where
  "decode_base64_lenient lenient_decode input = lenient_decode (filter (\<lambda>b. \<not> base64_blank b) input)"

definition parse_data_url :: "(string \<Rightarrow> string option) \<Rightarrow> string \<Rightarrow> (DataUrl, DataUrlError) result option" where
  "parse_data_url lenient_decode input =
     (if \<not> (5 \<le> length input \<and> eq_ignore_ascii_case (take 5 input) ''data:'') then Some (Err NotDataUrl)
      else (case split_once (CHR '','') (drop 5 input) of
          None \<Rightarrow> Some (Err MissingComma)
        | Some (head, data_str) \<Rightarrow>
            (case strip_base64_flag head of
               None \<Rightarrow> None
             | Some (mediatype_str, is_base64) \<Rightarrow>
                 Some (and_then (resolve_mediatype mediatype_str) (\<lambda>mt.
                   and_then (if is_base64 then ok_or (decode_base64_lenient lenient_decode data_str) InvalidBase64
                             else Ok (percent_decode data_str)) (\<lambda>data.
                   Ok \<lparr>du_mime_type = mt, du_is_base64 = is_base64, du_data = data\<rparr>))))))"

subsection \<open>What the parser returns\<close>

definition token_wf :: "string \<Rightarrow> bool" where
  "token_wf t \<longleftrightarrow> t \<noteq> [] \<and> list_all is_http_token_code_point t \<and> to_ascii_lowercase t = t"

definition name_ok :: "string \<Rightarrow> bool" where
  "name_ok n \<longleftrightarrow> n \<noteq> [] \<and> to_ascii_lowercase n = n \<and> \<not> is_http_whitespace (hd n) \<and> list_all (\<lambda>c. \<not> parameter_name_end c) n"

definition parameters_ok :: "(string, string) btree \<Rightarrow> bool" where
  "parameters_ok ps \<longleftrightarrow> bt_ok ps \<and> list_all (\<lambda>p. name_ok (fst p)) ps"

definition mime_ok :: "MimeType \<Rightarrow> bool" where
  "mime_ok m \<longleftrightarrow> token_wf (mime_type m) \<and> token_wf (mime_subtype m) \<and> parameters_ok (mime_parameters m)"

text \<open>The parser does not strip white space after a parameter name. Such a name survives printing unless it is the end
  of the text, which the parser trims.\<close>

definition ends_clean :: "MimeType \<Rightarrow> bool" where
  "ends_clean m \<longleftrightarrow> mime_parameters m = []
     \<or> snd (last (mime_parameters m)) \<noteq> [] \<or> \<not> is_http_whitespace (last (fst (last (mime_parameters m))))"

lemma lowercase_char_stable:
  "is_http_whitespace (to_ascii_lowercase_char c) = is_http_whitespace c"
  "parameter_name_end (to_ascii_lowercase_char c) = parameter_name_end c"
proof -
  have "byte (to_ascii_lowercase_char c) = (if 65 \<le> byte c \<and> byte c \<le> 90 then byte c + 32 else byte c)"
    by (simp add: to_ascii_lowercase_char_def byte_def)
  moreover have "x = y \<longleftrightarrow> byte x = byte y" for x y by (simp add: byte_def)
  moreover have "byte (CHR '' '') = 32" "byte (CHR 0x09) = 9" "byte (CHR 0x0A) = 10" "byte (CHR 0x0D) = 13"
    "byte (CHR '';'') = 59" "byte (CHR ''='') = 61"
    by (simp_all add: byte_def)
  ultimately show "is_http_whitespace (to_ascii_lowercase_char c) = is_http_whitespace c"
    "parameter_name_end (to_ascii_lowercase_char c) = parameter_name_end c"
    unfolding is_http_whitespace_def parameter_name_end_def by auto
qed

lemma token_not_special:
  assumes "is_http_token_code_point c"
  shows "\<not> is_http_whitespace c" "c \<noteq> CHR ''/''" "c \<noteq> CHR '';''" "c \<noteq> CHR ''=''" "c \<noteq> CHR 0x22"
  using assms
  by (auto simp: is_http_token_code_point_def is_http_whitespace_def mime_alphanumeric_def byte_def)

lemma mime_token_ok: "mime_token raw = Some t \<Longrightarrow> token_wf t"
  by (auto simp: mime_token_def token_wf_def Let_def to_ascii_lowercase_idem split: if_splits)

lemma parameters_ok_bt_insert:
  assumes "parameters_ok ps" and "name_ok n"
  shows "parameters_ok (bt_insert n val ps)"
proof -
  have "name_ok k" if "k \<in> set (map fst (bt_insert n val ps))" for k
    using that assms unfolding keys_bt_insert by (auto simp: parameters_ok_def list_all_iff)
  with assms(1) show ?thesis by (auto simp: parameters_ok_def list_all_iff)
qed

lemma parameters_ok_insert:
  assumes "parameters_ok ps"
  shows "parameters_ok (insert_first (to_ascii_lowercase (takeWhile (\<lambda>c. \<not> parameter_name_end c) (dropWhile is_http_whitespace s))) val ps)"
proof -
  let ?raw = "takeWhile (\<lambda>c. \<not> parameter_name_end c) (dropWhile is_http_whitespace s)"
  have "name_ok (to_ascii_lowercase ?raw)" if "to_ascii_lowercase ?raw \<noteq> []"
  proof -
    from that obtain c u where u: "?raw = c # u" by (cases ?raw) (auto simp: to_ascii_lowercase_def)
    then obtain v where v: "dropWhile is_http_whitespace s = c # v"
      by (cases "dropWhile is_http_whitespace s") (auto split: if_splits)
    then have "\<not> is_http_whitespace c" using hd_dropWhile [of is_http_whitespace s] by simp
    moreover have "list_all (\<lambda>c. \<not> parameter_name_end c) ?raw" by (auto simp: list_all_iff dest: set_takeWhileD)
    ultimately show ?thesis using u that
      by (simp add: name_ok_def to_ascii_lowercase_idem) (auto simp: to_ascii_lowercase_def lowercase_char_stable list_all_iff)
  qed
  with assms show ?thesis by (simp add: insert_first_def parameters_ok_bt_insert)
qed

lemma parameters_ok_loop: "parameters_ok ps \<Longrightarrow> parameters_ok (parameter_loop ps s)"
proof (induction ps s rule: parameter_loop.induct)
  case (2 ps c s)
  then show ?case
    by (auto simp: parameters_ok_insert Let_def split: prod.splits)
qed simp

lemma mime_parse_ok: "MimeType_parse s = Some m \<Longrightarrow> mime_ok m"
  using parameters_ok_loop [of "[]"]
  by (auto simp: MimeType_parse_def Let_def mime_ok_def parameters_ok_def mime_token_ok
      split: if_splits option.splits)

subsection \<open>Printing and parsing\<close>

definition value_text :: "string \<Rightarrow> string" where
  "value_text v =
     (if v = [] then [] else if list_all is_http_token_code_point v then CHR ''='' # v
      else CHR ''='' # CHR 0x22 # concat (map (\<lambda>c. quote_char c []) v) @ [CHR 0x22])"

definition parameter_text :: "string \<times> string \<Rightarrow> string" where
  "parameter_text p = CHR '';'' # fst p @ value_text (snd p)"

lemma fold_quote_char: "fold quote_char v out = out @ concat (map (\<lambda>c. quote_char c []) v)"
  by (induction v arbitrary: out) (simp_all add: quote_char_def)

lemma serialize_parameter_text: "serialize_parameter p out = out @ parameter_text p"
  by (simp add: serialize_parameter_def parameter_text_def value_text_def Let_def fold_quote_char)

lemma serialize_text: "MimeType_serialize m = mime_type m @ ''/'' @ mime_subtype m @ concat (map parameter_text (mime_parameters m))"
proof -
  have "fold serialize_parameter ps out = out @ concat (map parameter_text ps)" for ps out
    by (induction ps arbitrary: out) (simp_all add: serialize_parameter_text)
  then show ?thesis by (simp add: MimeType_serialize_def)
qed

lemma quoted_string_text:
  "quoted_string (concat (map (\<lambda>c. quote_char c []) v) @ CHR 0x22 # r) acc = (acc @ v, r)"
  by (induction v arbitrary: acc) (simp_all add: quote_char_def)

lemma trim_matches_id:
  "s = [] \<or> \<not> p (hd s) \<and> \<not> p (last s) \<Longrightarrow> trim_matches p s = s"
proof -
  assume a: "s = [] \<or> \<not> p (hd s) \<and> \<not> p (last s)"
  then have "dropWhile p s = s" by (cases s) auto
  moreover from a have "dropWhile p (rev s) = rev s" by (cases s rule: rev_cases) auto
  ultimately show ?thesis by (simp add: trim_matches_def)
qed

lemma takeWhile_dropWhile_block:
  assumes "list_all p a" and "r = [] \<or> \<not> p (hd r)"
  shows "takeWhile p (a @ r) = a" "dropWhile p (a @ r) = r"
  using assms by (induction a) (cases r; simp)+

lemma tokens_trim: "list_all is_http_token_code_point v \<Longrightarrow> trim_matches is_http_whitespace v = v"
  by (rule trim_matches_id) (cases v rule: rev_cases; auto simp: list_all_iff hd_append token_not_special dest: hd_in_set)

lemma parameter_value_text:
  assumes "r = [] \<or> hd r = CHR '';''"
  shows "parameter_value (value_text v @ r) = (v, r)"
proof -
  consider "v = []" | "v \<noteq> []" "list_all is_http_token_code_point v" | "v \<noteq> []" "\<not> list_all is_http_token_code_point v" by blast
  then show ?thesis
  proof cases
    case 1
    with assms show ?thesis by (auto simp: parameter_value_def value_text_def)
  next
    case 2
    then have "list_all (\<lambda>c. c \<noteq> CHR '';'') v" and "hd (v @ r) \<noteq> CHR 0x22"
      by (auto simp: list_all_iff token_not_special)
    with takeWhile_dropWhile_block [of "\<lambda>c. c \<noteq> CHR '';''" v r] assms 2 show ?thesis
      by (simp add: parameter_value_def value_text_def tokens_trim)
  next
    case 3
    then show ?thesis using quoted_string_text [of v r "[]"] by (simp add: parameter_value_def value_text_def)
  qed
qed

lemma parameter_loop_text:
  assumes "name_ok (fst p)" and "r = [] \<or> hd r = CHR '';''"
  shows "parameter_loop ps (parameter_text p @ r) = parameter_loop (insert_first (fst p) (snd p) ps) r"
proof -
  have name: "dropWhile is_http_whitespace (fst p @ u) = fst p @ u" for u
    using assms(1) by (cases "fst p") (auto simp: name_ok_def)
  have "value_text (snd p) @ r = [] \<or> parameter_name_end (hd (value_text (snd p) @ r))"
    using assms(2) by (cases r) (auto simp: value_text_def parameter_name_end_def)
  with takeWhile_dropWhile_block [of "\<lambda>c. \<not> parameter_name_end c" "fst p" "value_text (snd p) @ r"] assms(1)
  show ?thesis
    by (simp add: parameter_text_def name name_ok_def parameter_value_text [OF assms(2)])
qed

lemma bt_insert_last: "(\<forall>x\<in>set m. fst x < k) \<Longrightarrow> bt_insert k v m = m @ [(k, v)]"
  by (induction k v m rule: bt_insert.induct) auto

lemma parameter_loop_texts:
  "bt_ok (acc @ ps) \<Longrightarrow> list_all (\<lambda>p. name_ok (fst p)) ps \<Longrightarrow>
    parameter_loop acc (concat (map parameter_text ps)) = acc @ ps"
proof (induction ps arbitrary: acc)
  case (Cons p ps)
  have less: "\<forall>x\<in>set acc. fst x < fst p" using Cons.prems(1) by (auto simp: bt_ok_def sorted_wrt_append)
  then have "insert_first (fst p) (snd p) acc = acc @ [p]"
    using Cons.prems(2) bt_insert_last [OF less, of "snd p"]
    by (auto simp: insert_first_def bt_contains_key_iff bt_keys_def name_ok_def)
  moreover have "concat (map parameter_text ps) = [] \<or> hd (concat (map parameter_text ps)) = CHR '';''"
    by (cases ps) (simp_all add: parameter_text_def)
  ultimately show ?case
    using Cons.IH [of "acc @ [p]"] Cons.prems by (simp add: parameter_loop_text)
qed simp

lemma token_ok_read: "token_wf t \<Longrightarrow> mime_token t = Some t"
  by (auto simp: token_wf_def mime_token_def tokens_trim)

lemma tokens_last: "v \<noteq> [] \<Longrightarrow> list_all is_http_token_code_point v \<Longrightarrow> \<not> is_http_whitespace (last v)"
  unfolding list_all_iff using last_in_set token_not_special(1) by blast

lemma parameter_text_last:
  assumes "name_ok (fst p)" and "snd p \<noteq> [] \<or> \<not> is_http_whitespace (last (fst p))"
  shows "\<not> is_http_whitespace (last (parameter_text p))"
proof -
  consider "snd p = []" | "snd p \<noteq> []" "list_all is_http_token_code_point (snd p)"
    | "snd p \<noteq> []" "\<not> list_all is_http_token_code_point (snd p)" by blast
  then show ?thesis
  proof cases
    case 1
    with assms show ?thesis by (simp add: parameter_text_def value_text_def name_ok_def)
  next
    case 2
    with tokens_last show ?thesis by (simp add: parameter_text_def value_text_def)
  next
    case 3
    then show ?thesis by (simp add: parameter_text_def value_text_def is_http_whitespace_def)
  qed
qed

lemma serialize_last:
  assumes "mime_ok m" and "ends_clean m"
  shows "\<not> is_http_whitespace (last (MimeType_serialize m))"
proof (cases "mime_parameters m" rule: rev_cases)
  case Nil
  with assms(1) tokens_last [of "mime_subtype m"] show ?thesis
    by (simp add: serialize_text mime_ok_def token_wf_def)
next
  case (snoc ps p)
  then have "last (MimeType_serialize m) = last (parameter_text p)"
    by (simp add: serialize_text parameter_text_def)
  moreover have "name_ok (fst p)" using assms(1) snoc by (simp add: mime_ok_def parameters_ok_def)
  moreover have "snd p \<noteq> [] \<or> \<not> is_http_whitespace (last (fst p))" using assms(2) snoc by (simp add: ends_clean_def)
  ultimately show ?thesis using parameter_text_last by simp
qed

lemma mime_read_back:
  assumes "mime_ok m" and "ends_clean m"
  shows "MimeType_parse (MimeType_serialize m) = Some m"
proof -
  let ?ps = "concat (map parameter_text (mime_parameters m))"
  from assms(1) have t: "token_wf (mime_type m)" and u: "token_wf (mime_subtype m)"
      and ps: "bt_ok (mime_parameters m)" "list_all (\<lambda>p. name_ok (fst p)) (mime_parameters m)"
    by (auto simp: mime_ok_def parameters_ok_def)
  let ?rest = "CHR ''/'' # mime_subtype m @ ?ps"
  have shape: "MimeType_serialize m = mime_type m @ ?rest" by (simp add: serialize_text)
  have trim: "trim_matches is_http_whitespace (MimeType_serialize m) = MimeType_serialize m"
  proof (rule trim_matches_id)
    have "hd (MimeType_serialize m) \<in> set (mime_type m)" using t by (simp add: shape token_wf_def)
    then have "\<not> is_http_whitespace (hd (MimeType_serialize m))"
      using t by (simp add: token_wf_def list_all_iff token_not_special(1))
    with serialize_last [OF assms]
    show "MimeType_serialize m = [] \<or> \<not> is_http_whitespace (hd (MimeType_serialize m)) \<and> \<not> is_http_whitespace (last (MimeType_serialize m))"
      by simp
  qed
  have "list_all (\<lambda>c. c \<noteq> CHR ''/'') (mime_type m)"
    using t by (auto simp: token_wf_def list_all_iff dest: token_not_special(2))
  from takeWhile_dropWhile_block [OF this, of ?rest]
  have t': "takeWhile (\<lambda>c. c \<noteq> CHR ''/'') (MimeType_serialize m) = mime_type m"
      "dropWhile (\<lambda>c. c \<noteq> CHR ''/'') (MimeType_serialize m) = ?rest"
    unfolding shape by simp_all
  have "list_all (\<lambda>c. c \<noteq> CHR '';'') (mime_subtype m)"
    using u by (auto simp: token_wf_def list_all_iff dest: token_not_special(3))
  moreover have "?ps = [] \<or> \<not> hd ?ps \<noteq> CHR '';''" by (cases "mime_parameters m") (simp_all add: parameter_text_def)
  ultimately have u': "takeWhile (\<lambda>c. c \<noteq> CHR '';'') (mime_subtype m @ ?ps) = mime_subtype m"
      "dropWhile (\<lambda>c. c \<noteq> CHR '';'') (mime_subtype m @ ?ps) = ?ps"
    using takeWhile_dropWhile_block [of "\<lambda>c. c \<noteq> CHR '';''" "mime_subtype m" ?ps] by blast+
  have "parameter_loop [] ?ps = mime_parameters m" using parameter_loop_texts [of "[]"] ps by simp
  then show ?thesis
    unfolding MimeType_parse_def Let_def trim t' list.sel u' token_ok_read [OF t] token_ok_read [OF u] by simp
qed

text \<open>Whatever the text, the MIME parser returns a well-formed MIME type or nothing: type and subtype are non-empty
  lower-case tokens and the parameters are in order with proper names. Unless the last parameter has no value and a name that
  ends in white space, printing what was parsed and parsing the print gives the same MIME type, with
  every parameter value as it was; every well-formed MIME type that ends so can be printed and read back.\<close>

theorem mime_print_parse:
  "(case MimeType_parse s of
      None \<Rightarrow> True
    | Some m \<Rightarrow> mime_ok m \<and> (if ends_clean m then MimeType_parse (MimeType_serialize m) = Some m else True))
   \<and> (if mime_ok m' \<and> ends_clean m' then MimeType_parse (MimeType_serialize m') = Some m' else True)"
  using mime_parse_ok [of s] by (auto simp: mime_read_back split: option.splits)

text \<open>A name that ends in white space is lost at the end of the print, and what follows a quoted value is dropped with
  all later parameters, where the MIME Sniffing standard resumes at the next semicolon.\<close>

lemma mime_odd_cases:
  "map_option MimeType_serialize (MimeType_parse ''a/b;x ;'') = Some ''a/b;x ''"
  "map_option mime_parameters (MimeType_parse ''a/b;x '') = Some [(''x'', [])]"
  "map_option mime_parameters (MimeType_parse (''a/b;x='' @ [CHR 0x22, CHR ''1'', CHR 0x22] @ '' ;y=2'')) = Some [(''x'', ''1'')]"
  by code_simp+

subsection \<open>Where a data URL panics\<close>

text \<open>The parser slices the text before the comma seven bytes before its end. It panics exactly when that is inside a
  character, which no ASCII text is.\<close>

lemma strip_base64_flag_panics:
  "strip_base64_flag head = None \<longleftrightarrow> 7 < length head \<and> continuation_byte (head ! (length head - 7))"
  by (auto simp: strip_base64_flag_def is_char_boundary_def Let_def)

theorem parse_data_url_panics:
  "parse_data_url dec s = None \<longleftrightarrow>
     (\<exists>p head data. s = p @ head @ '','' @ data \<and> eq_ignore_ascii_case p ''data:'' \<and> CHR '','' \<notin> set head
        \<and> 7 < length head \<and> continuation_byte (head ! (length head - 7)))"
  (is "?l = ?r")
proof
  assume ?l
  then obtain head data where h: "5 \<le> length s" "eq_ignore_ascii_case (take 5 s) ''data:''"
      "split_once (CHR '','') (drop 5 s) = Some (head, data)" "strip_base64_flag head = None"
    by (auto simp: parse_data_url_def split: if_splits option.splits)
  have "s = take 5 s @ head @ '','' @ data"
    using split_once_Some [OF h(3)] append_take_drop_id [of 5 s] by simp
  with h split_once_Some [OF h(3)] strip_base64_flag_panics [of head] show ?r by blast
next
  assume ?r
  then obtain p head data where s: "s = p @ head @ '','' @ data" "eq_ignore_ascii_case p ''data:''" "CHR '','' \<notin> set head"
      "7 < length head" "continuation_byte (head ! (length head - 7))" by blast
  have "length (to_ascii_lowercase p) = length (to_ascii_lowercase ''data:'')"
    using s(2) by (simp add: eq_ignore_ascii_case_def)
  then have "length p = 5" by (simp add: to_ascii_lowercase_def)
  then show ?l using s strip_base64_flag_panics [of head]
    by (simp add: parse_data_url_def split_once_append)
qed

end
