(* ===== verification/Fetch_Headers.thy ===== *)
theory Fetch_Headers
  imports Mime_Types Guarded_Refinement
begin

section \<open>The headers of fetch requests and responses\<close>

text \<open>
  \<open>vixen-engine/src/headers.rs\<close>: validation of names and values, the forbidden and the safelisted headers and the
  store behind the \<open>Headers\<close> object. A \<open>BTreeSet\<close> of names is the sorted list of its elements. The
  store refines a function from lower-case names to lists of values.
\<close>

datatype FetchHeaderError = InvalidName string | InvalidValue

subsection \<open>Validation\<close>

definition is_tchar :: "char \<Rightarrow> bool" where
  "is_tchar b \<longleftrightarrow> b \<in> set (CHR 0x27 # ''!#$%&*+-.^_`|~'')
     \<or> 48 \<le> byte b \<and> byte b \<le> 57 \<or> 65 \<le> byte b \<and> byte b \<le> 90 \<or> 97 \<le> byte b \<and> byte b \<le> 122"

definition validate_header_name :: "string \<Rightarrow> (string, FetchHeaderError) result" where
  "validate_header_name name =
     (if name = [] \<or> \<not> list_all is_tchar name then Err (InvalidName name) else Ok (to_ascii_lowercase name))"

definition value_breaker :: "char \<Rightarrow> bool" where
  "value_breaker b \<longleftrightarrow> b \<in> {CHR 0x00, CHR 0x0D, CHR 0x0A}"

definition is_ows :: "char \<Rightarrow> bool" where
  "is_ows c \<longleftrightarrow> c = CHR '' '' \<or> c = CHR 0x09"

definition validate_header_value :: "string \<Rightarrow> (string, FetchHeaderError) result" where
  "validate_header_value val =
     (if list_ex (\<lambda>c. 0xFF < code_point c) (str_chars val) then Err InvalidValue
      else if list_ex value_breaker val then Err InvalidValue
      else Ok (trim_matches is_ows val))"

subsection \<open>Forbidden and safelisted headers\<close>

definition FORBIDDEN_REQUEST_HEADERS :: "string list" where
  "FORBIDDEN_REQUEST_HEADERS =
     [''accept-charset'', ''accept-encoding'', ''access-control-request-headers'', ''access-control-request-method'',
      ''connection'', ''content-length'', ''cookie'', ''cookie2'', ''date'', ''dnt'', ''expect'', ''host'', ''keep-alive'',
      ''origin'', ''referer'', ''set-cookie'', ''te'', ''trailer'', ''transfer-encoding'', ''upgrade'', ''via'']"

definition is_forbidden_request_header :: "string \<Rightarrow> bool" where
  "is_forbidden_request_header name =
     (let lower = to_ascii_lowercase name in
      if list_ex (\<lambda>f. f = lower) FORBIDDEN_REQUEST_HEADERS then True
      else str_starts_with lower ''proxy-'' \<or> str_starts_with lower ''sec-'')"

definition is_forbidden_response_header_name :: "string \<Rightarrow> bool" where
  "is_forbidden_response_header_name name =
     (let lower = to_ascii_lowercase name in lower = ''set-cookie'' \<or> lower = ''set-cookie2'')"

definition CORS_SAFELIST_MAX_VALUE_BYTES :: usize where
  "CORS_SAFELIST_MAX_VALUE_BYTES = 1024"

definition is_cors_unsafe_byte :: "char \<Rightarrow> bool" where
  "is_cors_unsafe_byte b \<longleftrightarrow> byte b \<le> 0x20 \<and> byte b \<noteq> 0x09 \<or> 0x7E < byte b"

definition is_safelisted_range_value :: "string \<Rightarrow> bool" where
  "is_safelisted_range_value val =
     (case strip_prefix val ''bytes='' of
        None \<Rightarrow> False
      | Some rest \<Rightarrow>
          (case split_once (CHR ''-'') rest of
             None \<Rightarrow> False
           | Some (start, fin) \<Rightarrow>
               start \<noteq> [] \<and> list_all is_ascii_digit start \<and> (fin = [] \<or> list_all is_ascii_digit fin)))"

definition is_cors_safelisted_request_header :: "string \<Rightarrow> string \<Rightarrow> bool" where
  "is_cors_safelisted_request_header name val =
     (let lower = to_ascii_lowercase name in
      if CORS_SAFELIST_MAX_VALUE_BYTES < length val then False
      else if list_ex is_cors_unsafe_byte val then False
      else if lower = ''accept'' \<or> lower = ''accept-language'' \<or> lower = ''content-language'' then True
      else if lower = ''content-type'' then
        map_option MimeType_essence (MimeType_parse (str_trim val))
          \<in> {Some ''application/x-www-form-urlencoded'', Some ''multipart/form-data'', Some ''text/plain''}
      else if lower = ''range'' then is_safelisted_range_value val
      else False)"

subsection \<open>The store\<close>

record Headers =
  hs_entries :: "(string \<times> string) list"

definition Headers_new :: Headers where
  "Headers_new = \<lparr>hs_entries = []\<rparr>"

definition Headers_append :: "Headers \<Rightarrow> string \<Rightarrow> string \<Rightarrow> Headers \<times> (unit, FetchHeaderError) result" where
  "Headers_append h name val =
     try_in h (validate_header_name name) (\<lambda>n.
       try_in h (validate_header_value val) (\<lambda>v.
         (h\<lparr>hs_entries := hs_entries h @ [(n, v)]\<rparr>, Ok ())))"

primrec append_records :: "Headers \<Rightarrow> (string \<times> string) list \<Rightarrow> (Headers, FetchHeaderError) result" where
  "append_records h [] = Ok h"
| "append_records h (r # rs) =
     (case Headers_append h (fst r) (snd r) of
        (h', Ok _) \<Rightarrow> append_records h' rs
      | (_, Err e) \<Rightarrow> Err e)"

definition Headers_from_records :: "(string \<times> string) list \<Rightarrow> (Headers, FetchHeaderError) result" where
  "Headers_from_records rs = append_records Headers_new rs"

text \<open>\<open>Vec::retain\<close> with the closure of \<open>set\<close>, which keeps the first entry of a name and notes that it did.\<close>

primrec retain_first :: "string \<Rightarrow> bool \<Rightarrow> (string \<times> string) list \<Rightarrow> (string \<times> string) list \<times> bool" where
  "retain_first n replaced [] = ([], replaced)"
| "retain_first n replaced (e # es) =
     (if fst e = n then
        (if \<not> replaced then (let (r, b) = retain_first n True es in (e # r, b)) else retain_first n replaced es)
      else (let (r, b) = retain_first n replaced es in (e # r, b)))"

primrec overwrite_first :: "string \<Rightarrow> string \<Rightarrow> (string \<times> string) list \<Rightarrow> (string \<times> string) list" where
  "overwrite_first n v [] = []"
| "overwrite_first n v (e # es) = (if fst e = n then (fst e, v) # es else e # overwrite_first n v es)"

definition Headers_set :: "Headers \<Rightarrow> string \<Rightarrow> string \<Rightarrow> Headers \<times> (unit, FetchHeaderError) result" where
  "Headers_set h name val =
     try_in h (validate_header_name name) (\<lambda>n.
       try_in h (validate_header_value val) (\<lambda>v.
         let (es, replaced) = retain_first n False (hs_entries h)
         in (h\<lparr>hs_entries := if replaced then overwrite_first n v es else es @ [(n, v)]\<rparr>, Ok ())))"

definition Headers_has :: "Headers \<Rightarrow> string \<Rightarrow> bool" where
  "Headers_has h name = (let lower = to_ascii_lowercase name in list_ex (\<lambda>(n, _). n = lower) (hs_entries h))"

definition Headers_get :: "Headers \<Rightarrow> string \<Rightarrow> string option" where
  "Headers_get h name =
     (let lower = to_ascii_lowercase name;
          found = fold (\<lambda>(n, v) found. if n = lower then found @ [v] else found) (hs_entries h) []
      in if found = [] then None else Some (str_join '', '' found))"

definition Headers_get_all :: "Headers \<Rightarrow> string \<Rightarrow> string list" where
  "Headers_get_all h name =
     (let lower = to_ascii_lowercase name in map snd (filter (\<lambda>(n, _). n = lower) (hs_entries h)))"

definition Headers_delete :: "Headers \<Rightarrow> string \<Rightarrow> Headers" where
  "Headers_delete h name =
     (let lower = to_ascii_lowercase name in h\<lparr>hs_entries := filter (\<lambda>(n, _). n \<noteq> lower) (hs_entries h)\<rparr>)"

definition btree_set :: "string list \<Rightarrow> string list" where
  "btree_set xs = sort (remdups xs)"

definition Headers_len :: "Headers \<Rightarrow> usize" where
  "Headers_len h = length (btree_set (map fst (hs_entries h)))"

definition Headers_is_empty :: "Headers \<Rightarrow> bool" where
  "Headers_is_empty h \<longleftrightarrow> hs_entries h = []"

primrec iter_loop :: "Headers \<Rightarrow> string list \<Rightarrow> (string \<times> string) list \<Rightarrow> (string \<times> string) list" where
  "iter_loop h seen [] = []"
| "iter_loop h seen (e # es) =
     (if list_ex (\<lambda>s. s = fst e) seen then iter_loop h seen es
      else (case Headers_get h (fst e) of
          None \<Rightarrow> iter_loop h (seen @ [fst e]) es
        | Some v \<Rightarrow> (fst e, v) # iter_loop h (seen @ [fst e]) es))"

definition Headers_iter :: "Headers \<Rightarrow> (string \<times> string) list" where
  "Headers_iter h = iter_loop h [] (hs_entries h)"

definition Headers_sorted_iter :: "Headers \<Rightarrow> (string \<times> string) list" where
  "Headers_sorted_iter h =
     List.map_filter (\<lambda>n. map_option (\<lambda>v. (n, v)) (Headers_get h n)) (sort (btree_set (map fst (hs_entries h))))"

subsection \<open>The store as a function from names to values\<close>

definition values_of :: "Headers \<Rightarrow> string \<Rightarrow> string list" where
  "values_of h n = map snd (filter (\<lambda>e. fst e = n) (hs_entries h))"

lemma values_of_Nil: "values_of h n = [] \<longleftrightarrow> n \<notin> fst ` set (hs_entries h)"
  by (auto simp: values_of_def filter_empty_conv)

lemma get_all_values: "Headers_get_all h name = values_of h (to_ascii_lowercase name)"
  by (simp add: Headers_get_all_def values_of_def case_prod_unfold)

lemma get_values:
  "Headers_get h name =
     (let vs = values_of h (to_ascii_lowercase name) in if vs = [] then None else Some (str_join '', '' vs))"
proof -
  have "fold (\<lambda>(n, v) found. if n = k then found @ [v] else found) es acc = acc @ map snd (filter (\<lambda>e. fst e = k) es)"
    for k and es :: "(string \<times> string) list" and acc :: "string list"
    by (induction es arbitrary: acc) auto
  from this [of _ _ "[]"] show ?thesis by (simp add: Headers_get_def values_of_def Let_def)
qed

lemma has_values: "Headers_has h name \<longleftrightarrow> values_of h (to_ascii_lowercase name) \<noteq> []"
  by (auto simp: Headers_has_def values_of_def list_ex_iff filter_empty_conv Let_def case_prod_unfold)

lemma delete_values:
  "values_of (Headers_delete h name) = (values_of h)(to_ascii_lowercase name := [])"
  by (rule ext) (auto simp: Headers_delete_def values_of_def Let_def case_prod_unfold filter_empty_conv intro: arg_cong [where f = "map snd"] filter_cong)

lemma retain_first_flag: "snd (retain_first n r es) \<longleftrightarrow> r \<or> n \<in> fst ` set es"
  by (induction es arbitrary: r) (auto simp: Let_def case_prod_unfold)

lemma retain_first_keys: "set (fst (retain_first n r es)) \<subseteq> set es"
proof (induction es arbitrary: r)
  case (Cons e es)
  from Cons.IH [of True] Cons.IH [of r] show ?case by (auto simp: Let_def case_prod_unfold)
qed simp

lemma retain_first_filter:
  "filter (\<lambda>e. fst e = k) (fst (retain_first n r es)) =
     (if k \<noteq> n then filter (\<lambda>e. fst e = k) es else if r then [] else take 1 (filter (\<lambda>e. fst e = k) es))"
  by (induction es arbitrary: r) (auto simp: Let_def case_prod_unfold)

lemma overwrite_first_filter:
  "map snd (filter (\<lambda>e. fst e = k) (overwrite_first n v es)) =
     (if k \<noteq> n then map snd (filter (\<lambda>e. fst e = k) es)
      else (case filter (\<lambda>e. fst e = k) es of [] \<Rightarrow> [] | _ # r \<Rightarrow> v # map snd r))"
  by (induction es) auto

lemma overwrite_first_set: "set (overwrite_first n v es) \<subseteq> insert (n, v) (set es)"
  by (induction es) auto

subsection \<open>Calls\<close>

datatype header_call = HAppend string string | HSet string string | HDelete string

primrec header_step :: "Headers \<Rightarrow> header_call \<Rightarrow> Headers" where
  "header_step h (HAppend n v) = fst (Headers_append h n v)"
| "header_step h (HSet n v) = fst (Headers_set h n v)"
| "header_step h (HDelete n) = Headers_delete h n"

text \<open>What the calls are expected to do, with every byte written out: which names and values are legal, the name in lower
  case and the value without blanks around it.\<close>

definition legal_name :: "string \<Rightarrow> bool" where
  "legal_name n \<longleftrightarrow> n \<noteq> [] \<and> set n \<subseteq> set (CHR 0x27 # ''!#$%&*+-.^_`|~0123456789''
     @ ''ABCDEFGHIJKLMNOPQRSTUVWXYZ'' @ ''abcdefghijklmnopqrstuvwxyz'')"

definition legal_value :: "string \<Rightarrow> bool" where
  "legal_value v \<longleftrightarrow> list_all (\<lambda>c. code_point c \<le> 0xFF) (str_chars v) \<and> set v \<inter> {CHR 0x00, CHR 0x0A, CHR 0x0D} = {}"

definition header_valid :: "string \<Rightarrow> string \<Rightarrow> bool" where
  "header_valid n v \<longleftrightarrow> legal_name n \<and> legal_value v"

definition without_blanks :: "string \<Rightarrow> string" where
  "without_blanks v = (let blank = (\<lambda>c. c \<in> {CHR 0x20, CHR 0x09}) in rev (dropWhile blank (rev (dropWhile blank v))))"

primrec header_legal :: "header_call \<Rightarrow> bool" where
  "header_legal (HAppend n v) = header_valid n v"
| "header_legal (HSet n v) = header_valid n v"
| "header_legal (HDelete n) = True"

primrec header_spec :: "(string \<Rightarrow> string list) \<Rightarrow> header_call \<Rightarrow> string \<Rightarrow> string list" where
  "header_spec m (HAppend n v) = m(to_ascii_lowercase n := m (to_ascii_lowercase n) @ [without_blanks v])"
| "header_spec m (HSet n v) = m(to_ascii_lowercase n := [without_blanks v])"
| "header_spec m (HDelete n) = m(to_ascii_lowercase n := [])"

text \<open>What every entry satisfies: a line made of it cannot end early or begin another one.\<close>

definition entry_clean :: "string \<times> string \<Rightarrow> bool" where
  "entry_clean e \<longleftrightarrow> fst e \<noteq> [] \<and> set (fst e) \<inter> {CHR 0x00, CHR 0x09, CHR 0x0A, CHR 0x0D, CHR '' '', CHR '':''} = {}
     \<and> to_ascii_lowercase (fst e) = fst e \<and> set (snd e) \<inter> {CHR 0x00, CHR 0x0A, CHR 0x0D} = {}"

definition headers_ok :: "Headers \<Rightarrow> bool" where
  "headers_ok h \<longleftrightarrow> list_all entry_clean (hs_entries h)"

lemma tchars: "is_tchar c \<longleftrightarrow> c \<in> set (CHR 0x27 # ''!#$%&*+-.^_`|~0123456789''
     @ ''ABCDEFGHIJKLMNOPQRSTUVWXYZ'' @ ''abcdefghijklmnopqrstuvwxyz'')"
proof -
  have "\<forall>c. is_tchar c = (c \<in> set (CHR 0x27 # ''!#$%&*+-.^_`|~0123456789''
     @ ''ABCDEFGHIJKLMNOPQRSTUVWXYZ'' @ ''abcdefghijklmnopqrstuvwxyz''))" by code_simp
  then show ?thesis by blast
qed

lemma legal_name_iff: "legal_name n \<longleftrightarrow> n \<noteq> [] \<and> list_all is_tchar n"
  by (auto simp only: legal_name_def tchars list_all_iff)

lemma legal_value_iff:
  "legal_value v \<longleftrightarrow> \<not> list_ex (\<lambda>c. 0xFF < code_point c) (str_chars v) \<and> \<not> list_ex value_breaker v"
proof -
  have "value_breaker c \<longleftrightarrow> c \<in> {CHR 0x00, CHR 0x0A, CHR 0x0D}" for c by (auto simp: value_breaker_def)
  then show ?thesis unfolding legal_value_def list_all_iff list_ex_iff not_less [symmetric] by blast
qed

lemma without_blanks_eq: "trim_matches is_ows v = without_blanks v"
  by (simp add: trim_matches_def without_blanks_def is_ows_def [abs_def] Let_def)

lemma without_blanks_subset: "set (without_blanks v) \<subseteq> set v"
  by (auto simp: without_blanks_def Let_def dest!: set_dropWhileD)

lemma tchar_lower_clean: "is_tchar c \<Longrightarrow>
    to_ascii_lowercase_char c \<notin> {CHR 0x00, CHR 0x09, CHR 0x0A, CHR 0x0D, CHR '' '', CHR '':''}"
proof -
  have "\<forall>c. is_tchar c \<longrightarrow> to_ascii_lowercase_char c \<notin> set [CHR 0x00, CHR 0x09, CHR 0x0A, CHR 0x0D, CHR '' '', CHR '':'']"
    by code_simp
  then show "is_tchar c \<Longrightarrow> ?thesis" by simp
qed

lemma entry_clean_new:
  assumes "header_valid n v"
  shows "entry_clean (to_ascii_lowercase n, without_blanks v)"
proof -
  have "c \<notin> {CHR 0x00, CHR 0x09, CHR 0x0A, CHR 0x0D, CHR '' '', CHR '':''}" if "c \<in> set (to_ascii_lowercase n)" for c
    using that assms tchar_lower_clean
    unfolding header_valid_def legal_name_iff list_all_iff to_ascii_lowercase_def by (metis imageE list.set_map)
  with assms without_blanks_subset [of v] show ?thesis
    by (auto simp: header_valid_def entry_clean_def to_ascii_lowercase_idem legal_name_def legal_value_def)
      (simp add: to_ascii_lowercase_def)
qed

lemma append_cases:
  "Headers_append h n v =
     (if header_valid n v
      then (h\<lparr>hs_entries := hs_entries h @ [(to_ascii_lowercase n, without_blanks v)]\<rparr>, Ok ())
      else (h, Err (if legal_name n then InvalidValue else InvalidName n)))"
  by (auto simp: Headers_append_def validate_header_name_def validate_header_value_def header_valid_def
      legal_name_iff legal_value_iff without_blanks_eq)

lemma set_cases:
  "Headers_set h n v =
     (if header_valid n v
      then (let (es, replaced) = retain_first (to_ascii_lowercase n) False (hs_entries h)
            in (h\<lparr>hs_entries := if replaced then overwrite_first (to_ascii_lowercase n) (without_blanks v) es
                  else es @ [(to_ascii_lowercase n, without_blanks v)]\<rparr>, Ok ()))
      else (h, Err (if legal_name n then InvalidValue else InvalidName n)))"
  by (auto simp: Headers_set_def validate_header_name_def validate_header_value_def header_valid_def
      legal_name_iff legal_value_iff without_blanks_eq)

lemma set_values:
  assumes "header_valid n v"
  shows "values_of (fst (Headers_set h n v)) = (values_of h)(to_ascii_lowercase n := [without_blanks v])"
proof
  fix k
  let ?n = "to_ascii_lowercase n" and ?v = "without_blanks v"
  let ?R = "retain_first ?n False (hs_entries h)"
  have flag: "snd ?R \<longleftrightarrow> filter (\<lambda>e. fst e = ?n) (hs_entries h) \<noteq> []"
    by (force simp: retain_first_flag filter_empty_conv)
  have "values_of (fst (Headers_set h n v)) k = map snd (filter (\<lambda>e. fst e = k)
      (if snd ?R then overwrite_first ?n ?v (fst ?R) else fst ?R @ [(?n, ?v)]))"
    using assms by (simp add: set_cases values_of_def case_prod_unfold)
  also have "\<dots> = ((values_of h)(?n := [?v])) k"
    using flag
    by (cases "filter (\<lambda>e. fst e = ?n) (hs_entries h)")
      (auto simp: overwrite_first_filter retain_first_filter values_of_def split del: if_split split: if_split)
  finally show "values_of (fst (Headers_set h n v)) k = ((values_of h)(?n := [?v])) k" .
qed

lemma set_ok:
  assumes "headers_ok h"
  shows "headers_ok (fst (Headers_set h n v))"
proof (cases "header_valid n v")
  case True
  let ?e = "(to_ascii_lowercase n, without_blanks v)"
  let ?R = "retain_first (to_ascii_lowercase n) False (hs_entries h)"
  have "set (if snd ?R then overwrite_first (fst ?e) (snd ?e) (fst ?R) else fst ?R @ [?e])
      \<subseteq> insert ?e (set (hs_entries h))"
    using overwrite_first_set [of "fst ?e" "snd ?e" "fst ?R"] retain_first_keys [of "fst ?e" False "hs_entries h"]
    by auto
  with True assms entry_clean_new [OF True] show ?thesis
    unfolding set_cases headers_ok_def list_all_iff by (auto simp: Let_def case_prod_unfold simp del: split_paired_All)
qed (use assms in \<open>simp add: set_cases\<close>)

interpretation headers: guarded_refinement headers_ok header_step values_of header_legal header_spec
proof
  fix h c
  assume ok: "headers_ok h"
  show "headers_ok (header_step h c)"
    using ok set_ok entry_clean_new
    by (cases c) (auto simp: append_cases Headers_delete_def headers_ok_def list_all_iff Let_def)
  show "values_of (header_step h c) = header_spec (values_of h) c" if "header_legal c"
    using that by (cases c) (auto simp: append_cases set_values delete_values values_of_def)
  show "header_step h c = h" if "\<not> header_legal c"
    using that by (cases c) (auto simp: append_cases set_cases)
qed

subsection \<open>Iteration\<close>

definition header_names :: "Headers \<Rightarrow> string set" where
  "header_names h = fst ` set (hs_entries h)"

definition combined :: "Headers \<Rightarrow> string \<Rightarrow> string \<times> string" where
  "combined h n = (n, str_join '', '' (values_of h n))"

lemma get_stored:
  assumes "headers_ok h" and "n \<in> header_names h"
  shows "Headers_get h n = Some (str_join '', '' (values_of h n))"
proof -
  from assms have "to_ascii_lowercase n = n"
    by (auto simp: headers_ok_def header_names_def list_all_iff entry_clean_def)
  with assms(2) show ?thesis by (simp add: get_values header_names_def values_of_Nil Let_def)
qed

lemma iter_loop_entries:
  assumes "headers_ok h"
  shows "set es \<subseteq> set (hs_entries h) \<Longrightarrow>
    distinct (map fst (iter_loop h seen es)) \<and> set (iter_loop h seen es) = combined h ` (fst ` set es - set seen)"
proof (induction es arbitrary: seen)
  case (Cons e es)
  then have "Headers_get h (fst e) = Some (str_join '', '' (values_of h (fst e)))"
    by (intro get_stored [OF assms]) (auto simp: header_names_def)
  with Cons.IH [of seen] Cons.IH [of "seen @ [fst e]"] Cons.prems show ?case
    by (auto simp: list_ex_iff combined_def)
qed simp

lemma sorted_iter_names:
  assumes "headers_ok h"
  shows "Headers_sorted_iter h = map (combined h) (sorted_list_of_set (header_names h))"
proof -
  let ?names = "sort (btree_set (map fst (hs_entries h)))"
  have names: "?names = sorted_list_of_set (header_names h)"
    by (simp add: btree_set_def header_names_def sorted_list_of_set_sort_remdups sorted_sort_id flip: set_map)
  have "List.map_filter (\<lambda>n. map_option (\<lambda>v. (n, v)) (Headers_get h n)) ns = map (combined h) ns"
    if "set ns \<subseteq> header_names h" for ns
    using that by (induction ns) (simp_all add: List.map_filter_simps get_stored [OF assms] combined_def)
  moreover have "set ?names \<subseteq> header_names h" by (simp add: names) (simp add: header_names_def)
  ultimately show ?thesis by (simp add: Headers_sorted_iter_def names)
qed

text \<open>C40: After any calls, refused ones included, a header store answers as the function from lower-case names to lists of values
  on which the legal calls act. A call is legal exactly if its name is a non-empty sequence of token bytes, which
  \<open>legal_name\<close> lists, and its value has no NUL, line feed or carriage return and no character beyond U+00FF; other calls return the error and change
  nothing. Values are stored without blanks around them. Lookups ignore the case of names, values are joined in the order they were added and both
  iterators give each name once with its joined values, one of them in byte order. No stored name has a NUL, tab, line feed, carriage return,
  space, colon or capital letter, and no stored value a NUL, line feed or carriage return, so no entry can end its header line.\<close>

theorem headers_are_a_map:
  "let h = foldl header_step Headers_new cs;
       m = foldl header_spec (\<lambda>_. []) (filter header_legal cs);
       values = m (to_ascii_lowercase name);
       names = {n. m n \<noteq> []};
       answer = (if \<not> legal_name name then Err (InvalidName name) else if \<not> legal_value v then Err InvalidValue else Ok ())
   in list_all (\<lambda>e. fst e \<noteq> [] \<and> set (fst e) \<inter> {CHR 0x00, CHR 0x09, CHR 0x0A, CHR 0x0D, CHR '' '', CHR '':''} = {}
        \<and> to_ascii_lowercase (fst e) = fst e \<and> set (snd e) \<inter> {CHR 0x00, CHR 0x0A, CHR 0x0D} = {}) (hs_entries h)
    \<and> snd (Headers_append h name v) = answer \<and> snd (Headers_set h name v) = answer
    \<and> Headers_get_all h name = values
    \<and> (Headers_has h name \<longleftrightarrow> values \<noteq> [])
    \<and> Headers_get h name = (if values = [] then None else Some (str_join '', '' values))
    \<and> distinct (map fst (Headers_iter h)) \<and> set (Headers_iter h) = (\<lambda>n. (n, str_join '', '' (m n))) ` names
    \<and> Headers_sorted_iter h = map (\<lambda>n. (n, str_join '', '' (m n))) (sorted_list_of_set names)
    \<and> Headers_len h = card names"
proof -
  let ?h = "foldl header_step Headers_new cs"
  have new: "headers_ok Headers_new" "values_of Headers_new = (\<lambda>_. [])"
    by (auto simp: headers_ok_def Headers_new_def values_of_def)
  have ok: "headers_ok ?h" by (rule headers.run_wf [OF new(1)])
  have m: "values_of ?h = foldl header_spec (\<lambda>_. []) (filter header_legal cs)"
    using headers.run_abs [OF new(1), of cs] by (simp add: new(2))
  have names: "{n. values_of ?h n \<noteq> []} = header_names ?h" by (simp add: values_of_Nil header_names_def)
  have "Headers_len ?h = card (header_names ?h)"
    by (simp add: Headers_len_def btree_set_def header_names_def length_remdups_card_conv)
  moreover have "snd (Headers_append ?h name v) = (if \<not> legal_name name then Err (InvalidName name) else if \<not> legal_value v then Err InvalidValue else Ok ())"
    "snd (Headers_set ?h name v) = (if \<not> legal_name name then Err (InvalidName name) else if \<not> legal_value v then Err InvalidValue else Ok ())"
    by (simp_all add: append_cases set_cases header_valid_def case_prod_unfold Let_def)
  moreover note ok [unfolded headers_ok_def entry_clean_def [abs_def]]
  ultimately show ?thesis
    using iter_loop_entries [OF ok subset_refl, of "[]"] sorted_iter_names [OF ok]
    unfolding Let_def m [symmetric] names
    by (simp add: get_all_values has_values get_values Headers_iter_def header_names_def combined_def [abs_def] Let_def)
qed

text \<open>The safelist of the code also excludes the space, so a content type with a parameter after a space is not safelisted.\<close>

lemma safelist_cases:
  "\<not> is_cors_safelisted_request_header ''Content-Type'' ''text/plain; charset=utf-8''"
  "is_cors_safelisted_request_header ''Range'' ''bytes=0-''"
  by code_simp+

end
