(* ===== verification/Text_Codec.thy ===== *)
theory Text_Codec
  imports Html_Serialize "HOL-Library.Sublist"
begin

section \<open>Text encoders and decoders\<close>

text \<open>
  \<open>vixen-engine/src/text_codec.rs\<close>: \<open>TextEncoder\<close> and \<open>TextDecoder\<close>. A destination buffer is a list of bytes that keeps its
  length; strings are their UTF-8 bytes, so encoding is the identity.
\<close>

definition TextEncoder_encode :: "string \<Rightarrow> string" where
  "TextEncoder_encode input = input"

record EncodeIntoResult =
  read_utf16 :: usize
  written :: usize

text \<open>\<open>copy_from_slice\<close> into part of a buffer, and the loop over the characters.\<close>

definition copy_into :: "string \<Rightarrow> usize \<Rightarrow> string \<Rightarrow> string" where
  "copy_into dest i src = take i dest @ src @ drop (i + length src) dest"

primrec encode_into_loop :: "string list \<Rightarrow> string \<Rightarrow> usize \<Rightarrow> usize \<Rightarrow> string \<times> EncodeIntoResult" where
  "encode_into_loop [] dest w r = (dest, \<lparr>read_utf16 = r, written = w\<rparr>)"
| "encode_into_loop (c # cs) dest w r =
     (if length dest < w + length c then (dest, \<lparr>read_utf16 = r, written = w\<rparr>)
      else encode_into_loop cs (copy_into dest w c) (w + length c) (r + utf16_len c))"

definition TextEncoder_encode_into :: "string \<Rightarrow> string \<Rightarrow> string \<times> EncodeIntoResult" where
  "TextEncoder_encode_into input dest = encode_into_loop (str_chars input) dest 0 0"

record TextDecoder =
  td_fatal :: bool
  td_ignore_bom :: bool

datatype DecodeError = LabelNotSupported string | InvalidUtf8

definition TextDecoder_new :: "string \<Rightarrow> bool \<Rightarrow> bool \<Rightarrow> (TextDecoder, DecodeError) result" where
  "TextDecoder_new label fatal ignore_bom =
     (if \<not> eq_ignore_ascii_case label ''utf-8'' \<and> label \<noteq> [] then Err (LabelNotSupported label)
      else Ok \<lparr>td_fatal = fatal, td_ignore_bom = ignore_bom\<rparr>)"

definition TextDecoder_utf8 :: TextDecoder where
  "TextDecoder_utf8 = \<lparr>td_fatal = False, td_ignore_bom = False\<rparr>"

function normalise_line_breaks :: "string \<Rightarrow> string" where
  "normalise_line_breaks [] = []"
| "normalise_line_breaks (c # s) =
     (if c = CHR 0x0D then CHR 0x0A # normalise_line_breaks (if starts_with_char (CHR 0x0A) s then tl s else s)
      else c # normalise_line_breaks s)"
  by pat_completeness auto
termination by (relation "measure length") auto

definition BOM :: string where
  "BOM = [CHR 0xEF, CHR 0xBB, CHR 0xBF]"

definition TextDecoder_decode :: "TextDecoder \<Rightarrow> string \<Rightarrow> (string, DecodeError) result" where
  "TextDecoder_decode d input =
     (let body = (if \<not> td_ignore_bom d \<and> str_starts_with input BOM then drop 3 input else input) in
      and_then (if td_fatal d then (if utf8_valid body then Ok body else Err InvalidUtf8)
                else Ok (from_utf8_lossy body)) (\<lambda>decoded.
        Ok (normalise_line_breaks decoded)))"

subsection \<open>Encoding into a buffer\<close>

lemma encode_into_loop_prefix:
  assumes "w \<le> length dest"
  shows "\<exists>k \<le> length cs. encode_into_loop cs dest w r =
      (take w dest @ concat (take k cs) @ drop (w + length (concat (take k cs))) dest,
       \<lparr>read_utf16 = r + utf16_len (concat (take k cs)), written = w + length (concat (take k cs))\<rparr>)
    \<and> w + length (concat (take k cs)) \<le> length dest
    \<and> (if k < length cs then length dest < w + length (concat (take (Suc k) cs)) else True)"
  using assms
proof (induction cs arbitrary: dest w r)
  case Nil
  then show ?case by (simp add: utf16_len_def)
next
  case (Cons c cs)
  show ?case
  proof (cases "length dest < w + length c")
    case True
    with Cons.prems show ?thesis by (intro exI [of _ 0]) (simp add: utf16_len_def)
  next
    case False
    let ?d = "copy_into dest w c"
    have d: "length ?d = length dest" "take (w + length c) ?d = take w dest @ c"
        "\<And>n. drop (w + length c + n) ?d = drop (w + length c + n) dest"
      using False Cons.prems by (simp_all add: copy_into_def add.commute)
    have "w + length c \<le> length ?d" using False d(1) by simp
    from Cons.IH [OF this, of "r + utf16_len c", unfolded d(1)] obtain k where k: "k \<le> length cs"
        "encode_into_loop cs ?d (w + length c) (r + utf16_len c) =
          (take (w + length c) ?d @ concat (take k cs) @ drop (w + length c + length (concat (take k cs))) ?d,
           \<lparr>read_utf16 = r + utf16_len c + utf16_len (concat (take k cs)), written = w + length c + length (concat (take k cs))\<rparr>)"
        "w + length c + length (concat (take k cs)) \<le> length dest"
        "if k < length cs then length dest < w + length c + length (concat (take (Suc k) cs)) else True" by blast
    then show ?thesis using False d by (intro exI [of _ "Suc k"]) (auto simp: add.assoc)
  qed
qed

text \<open>Encoding into a buffer writes whole characters, as many as fit, keeps the rest of the buffer and its length, and counts what it read in
  UTF-16 code units.\<close>

theorem encode_into_longest:
  assumes "utf8_valid input"
  shows "\<exists>k \<le> length (str_chars input). let text = concat (take k (str_chars input)); (dest', res) = TextEncoder_encode_into input dest
    in written res = length text \<and> read_utf16 res = utf16_len text \<and> prefix text input
     \<and> dest' = text @ drop (length text) dest \<and> length dest' = length dest
     \<and> (if k < length (str_chars input) then length dest < length (concat (take (Suc k) (str_chars input))) else text = input)"
proof -
  from encode_into_loop_prefix [of 0 dest "str_chars input" 0] obtain k where k: "k \<le> length (str_chars input)"
      "TextEncoder_encode_into input dest =
         (concat (take k (str_chars input)) @ drop (length (concat (take k (str_chars input)))) dest,
          \<lparr>read_utf16 = utf16_len (concat (take k (str_chars input))), written = length (concat (take k (str_chars input)))\<rparr>)"
      "length (concat (take k (str_chars input))) \<le> length dest"
      "if k < length (str_chars input) then length dest < length (concat (take (Suc k) (str_chars input))) else True"
    unfolding TextEncoder_encode_into_def by (simp only: add_0 take_0 append_Nil le0) blast
  have "concat (str_chars input) = input" using str_chars_are_chars [OF assms] by blast
  moreover from this have "prefix (concat (take k (str_chars input))) input"
    by (metis append_take_drop_id concat_append prefixI)
  ultimately show ?thesis using k by (intro exI [of _ k]) (auto simp: Let_def)
qed

subsection \<open>Decoding\<close>

lemma normalise_no_cr: "CHR 0x0D \<notin> set (normalise_line_breaks s)"
  by (induction s rule: normalise_line_breaks.induct) (auto split: list.splits)

lemma normalise_id: "CHR 0x0D \<notin> set s \<Longrightarrow> normalise_line_breaks s = s"
  by (induction s rule: normalise_line_breaks.induct) auto

text \<open>A fatal decoder fails exactly on text that is not UTF-8 and else agrees with the lenient one; what it returns has no carriage returns,
  and text without a byte order mark and carriage returns survives encoding and decoding.\<close>

theorem decoders_agree:
  "(case TextDecoder_decode \<lparr>td_fatal = True, td_ignore_bom = b\<rparr> input of
      Ok t \<Rightarrow> TextDecoder_decode \<lparr>td_fatal = False, td_ignore_bom = b\<rparr> input = Ok t \<and> CHR 0x0D \<notin> set t
    | Err e \<Rightarrow> e = InvalidUtf8 \<and> \<not> utf8_valid (if \<not> b \<and> str_starts_with input BOM then drop 3 input else input))
   \<and> (if utf8_valid text \<and> CHR 0x0D \<notin> set text \<and> (b \<or> \<not> str_starts_with text BOM)
      then TextDecoder_decode \<lparr>td_fatal = f, td_ignore_bom = b\<rparr> (TextEncoder_encode text) = Ok text else True)"
  by (auto simp: TextDecoder_decode_def TextEncoder_encode_def Let_def from_utf8_lossy_valid normalise_no_cr normalise_id
      split: result.splits)

end
