(* ===== verification/Dataset.thy ===== *)
theory Dataset
  imports Rust_Str
begin

section \<open>Data attributes\<close>

text \<open>
  \<open>vixen-engine/src/dataset.rs\<close>: the names of \<open>data-*\<close> attributes and of the properties of \<open>dataset\<close>. Both conversions are
  characterised, each as the inverse of the other on the names for which it is one.
\<close>

definition DATA_PREFIX :: string where
  "DATA_PREFIX = ''data-''"

definition is_ascii_uppercase :: "char \<Rightarrow> bool" where
  "is_ascii_uppercase c \<longleftrightarrow> 65 \<le> byte c \<and> byte c \<le> 90"

definition is_ascii_lowercase :: "char \<Rightarrow> bool" where
  "is_ascii_lowercase c \<longleftrightarrow> 97 \<le> byte c \<and> byte c \<le> 122"

text \<open>The test over \<open>windows(2)\<close>: a hyphen followed by a character with the property.\<close>

fun hyphen_then :: "(char \<Rightarrow> bool) \<Rightarrow> string \<Rightarrow> bool" where
  "hyphen_then p (a # b # s) \<longleftrightarrow> a = CHR ''-'' \<and> p b \<or> hyphen_then p (b # s)"
| "hyphen_then p _ \<longleftrightarrow> False"

fun camel_case :: "string \<Rightarrow> string" where
  "camel_case [] = []"
| "camel_case (c # s) =
     (if c = CHR ''-'' then
        (case s of
           nxt # t \<Rightarrow> if is_ascii_lowercase nxt then to_ascii_uppercase_char nxt # camel_case t else CHR ''-'' # camel_case s
         | [] \<Rightarrow> ''-'')
      else c # camel_case s)"

definition attribute_to_property :: "string \<Rightarrow> string option" where
  "attribute_to_property name =
     (case strip_prefix name DATA_PREFIX of
        None \<Rightarrow> None
      | Some suffix \<Rightarrow>
          if suffix = [] then None
          else if hyphen_then is_ascii_uppercase suffix then None
          else Some (camel_case suffix))"

datatype DatasetError = EmptyPropertyName | InvalidPropertyName string

definition property_char_ok :: "char \<Rightarrow> bool" where
  "property_char_ok c \<longleftrightarrow> is_ascii_uppercase c \<or> is_ascii_lowercase c \<or> is_ascii_digit c \<or> c \<in> set ''-_.:''"

text \<open>One iteration, for a character given by its bytes.\<close>

definition push_property_char :: "string \<Rightarrow> string \<Rightarrow> (string, DatasetError) result" where
  "push_property_char name c =
     (if length c = 1 \<and> is_ascii_uppercase (hd c) then Ok (name @ ''-'' @ [to_ascii_lowercase_char (hd c)])
      else if length c = 1 \<and> property_char_ok (hd c) then Ok (name @ c)
      else Err (InvalidPropertyName c))"

definition property_to_attribute :: "string \<Rightarrow> (string, DatasetError) result" where
  "property_to_attribute property =
     (if property = [] then Err EmptyPropertyName
      else try_fold push_property_char DATA_PREFIX (str_chars property))"

primrec collect_loop :: "(string \<times> 'v) list \<Rightarrow> (string \<times> 'v) list \<Rightarrow> string list \<Rightarrow> (string \<times> 'v) list" where
  "collect_loop [] out seen = out"
| "collect_loop (a # as) out seen =
     (case attribute_to_property (fst a) of
        None \<Rightarrow> collect_loop as out seen
      | Some prop \<Rightarrow>
          if prop \<in> set seen then collect_loop as out seen
          else collect_loop as (out @ [(prop, snd a)]) (seen @ [prop]))"

definition collect_dataset :: "(string \<times> 'v) list \<Rightarrow> (string \<times> 'v) list" where
  "collect_dataset attrs = collect_loop attrs [] []"

subsection \<open>The two conversions\<close>

text \<open>The text that one character of a property name adds.\<close>

definition kebab_char :: "char \<Rightarrow> string" where
  "kebab_char c = (if is_ascii_uppercase c then ''-'' @ [to_ascii_lowercase_char c] else [c])"

definition kebab :: "string \<Rightarrow> string" where
  "kebab p = concat (map kebab_char p)"

lemma property_char_ascii: "property_char_ok c \<Longrightarrow> byte c < 128"
  by (auto simp: property_char_ok_def is_ascii_uppercase_def is_ascii_lowercase_def is_ascii_digit_def byte_def)

lemma ascii_chars: "list_all (\<lambda>c. byte c < 128) p \<Longrightarrow> str_chars p = map (\<lambda>c. [c]) p"
proof (induction p)
  case (Cons a p)
  then have "takeWhile continuation_byte p = [] \<and> dropWhile continuation_byte p = p"
    by (cases p) (auto simp: continuation_byte_def)
  with Cons show ?case by simp
qed simp

lemma property_to_attribute_ok:
  assumes "p \<noteq> []" and "list_all property_char_ok p"
  shows "property_to_attribute p = Ok (DATA_PREFIX @ kebab p)"
proof -
  have "try_fold push_property_char out (map (\<lambda>c. [c]) p) = Ok (out @ kebab p)" for out
    using assms(2)
    by (induction p arbitrary: out) (auto simp: push_property_char_def kebab_def kebab_char_def)
  moreover have "list_all (\<lambda>c. byte c < 128) p" using assms(2) property_char_ascii by (auto simp: list_all_iff)
  ultimately show ?thesis using assms(1) by (simp add: property_to_attribute_def ascii_chars)
qed

lemma lower_upper:
  "is_ascii_uppercase c \<Longrightarrow> is_ascii_lowercase (to_ascii_lowercase_char c) \<and> to_ascii_uppercase_char (to_ascii_lowercase_char c) = c"
  "is_ascii_lowercase c \<Longrightarrow> is_ascii_uppercase (to_ascii_uppercase_char c) \<and> to_ascii_lowercase_char (to_ascii_uppercase_char c) = c"
  "is_ascii_lowercase c \<Longrightarrow> \<not> is_ascii_uppercase c" "\<not> is_ascii_uppercase (CHR ''-'')" "\<not> is_ascii_lowercase (CHR ''-'')"
  by (auto simp: is_ascii_uppercase_def is_ascii_lowercase_def to_ascii_lowercase_char_def to_ascii_uppercase_char_def byte_def)

lemma kebab_simps [simp]:
  "kebab [] = []" "kebab (c # p) = kebab_char c @ kebab p"
  by (simp_all add: kebab_def)

text \<open>A property name that has no hyphen before a small letter comes back.\<close>

lemma camel_kebab: "\<not> hyphen_then is_ascii_lowercase p \<Longrightarrow> camel_case (kebab p) = p"
proof (induction p)
  case (Cons c p)
  have IH: "camel_case (kebab p) = p" using Cons by (cases p) auto
  show ?case
  proof (cases "is_ascii_uppercase c")
    case True
    with IH lower_upper(1) [OF True] show ?thesis by (simp add: kebab_char_def)
  next
    case False
    show ?thesis
    proof (cases "c = CHR ''-''")
      case hyphen: True
      show ?thesis
      proof (cases p)
        case (Cons d q)
        with Cons.prems hyphen have "\<not> is_ascii_lowercase d" by simp
        then have "kebab p = d # kebab q \<and> \<not> is_ascii_lowercase d \<or> (\<exists>x. kebab p = CHR ''-'' # x)"
          by (auto simp: Cons kebab_char_def)
        with IH hyphen False lower_upper(5) show ?thesis by (auto simp: kebab_char_def)
      qed (simp add: hyphen kebab_char_def lower_upper)
    qed (use IH False in \<open>simp add: kebab_char_def\<close>)
  qed
qed simp

lemma kebab_no_upper: "list_all (\<lambda>c. \<not> is_ascii_uppercase c) (kebab p)"
  by (induction p) (auto simp: kebab_char_def lower_upper dest: lower_upper(1))

lemma no_upper_no_hyphen: "list_all (\<lambda>c. \<not> is_ascii_uppercase c) s \<Longrightarrow> \<not> hyphen_then is_ascii_uppercase s"
  by (induction "is_ascii_uppercase" s rule: hyphen_then.induct) auto

lemma kebab_camel: "list_all (\<lambda>c. \<not> is_ascii_uppercase c) s \<Longrightarrow> kebab (camel_case s) = s"
proof (induction s rule: camel_case.induct)
  case (2 c s)
  then show ?case
    by (cases s) (auto simp: kebab_char_def lower_upper split: if_splits dest: lower_upper(2))
qed simp

lemma upper_ok: "is_ascii_lowercase c \<Longrightarrow> property_char_ok (to_ascii_uppercase_char c)"
  using lower_upper(2) [of c] by (simp add: property_char_ok_def)

lemma camel_case_ok: "list_all property_char_ok s \<Longrightarrow> list_all property_char_ok (camel_case s)"
proof (induction s rule: camel_case.induct)
  case (2 c s)
  have hyphen: "property_char_ok (CHR ''-'')" by (simp add: property_char_ok_def)
  show ?case
  proof (cases s)
    case (Cons d t)
    with 2 show ?thesis by (cases "c = CHR ''-''"; cases "is_ascii_lowercase d") (simp_all add: upper_ok hyphen)
  qed (use 2 hyphen in simp)
qed simp

lemma camel_case_Nil: "camel_case s = [] \<longleftrightarrow> s = []"
  by (cases s) (auto split: list.splits)

text \<open>For names of the permitted characters: a property name without a hyphen before a small letter is restored from
  its attribute name, and an attribute name without capital letters, which is what the HTML parser leaves, from its
  property name.\<close>

theorem dataset_names_correspond:
  "(if p \<noteq> [] \<and> list_all property_char_ok p \<and> \<not> hyphen_then is_ascii_lowercase p
    then property_to_attribute p = Ok (DATA_PREFIX @ kebab p) \<and> attribute_to_property (DATA_PREFIX @ kebab p) = Some p
    else True)
   \<and> (if s \<noteq> [] \<and> list_all property_char_ok s \<and> list_all (\<lambda>c. \<not> is_ascii_uppercase c) s
      then attribute_to_property (DATA_PREFIX @ s) = Some (camel_case s)
         \<and> property_to_attribute (camel_case s) = Ok (DATA_PREFIX @ s)
      else True)"
proof -
  have strip: "strip_prefix (DATA_PREFIX @ t) DATA_PREFIX = Some t" for t by (simp add: strip_prefix_Some)
  have "kebab p \<noteq> []" if "p \<noteq> []" using that by (cases p) (auto simp: kebab_char_def)
  moreover have "\<not> hyphen_then is_ascii_uppercase (kebab p)" by (rule no_upper_no_hyphen [OF kebab_no_upper])
  ultimately show ?thesis
    by (auto simp: attribute_to_property_def strip property_to_attribute_ok camel_kebab no_upper_no_hyphen
        camel_case_ok camel_case_Nil kebab_camel)
qed

text \<open>The dataset of an element has each property once, with the value of its first attribute.\<close>

definition exposed :: "(string \<times> 'v) list \<Rightarrow> (string \<times> 'v) list" where
  "exposed attrs = List.map_filter (\<lambda>a. map_option (\<lambda>p. (p, snd a)) (attribute_to_property (fst a))) attrs"

lemma map_of_shadowed:
  assumes "k \<in> set (map fst xs)"
  shows "map_of (xs @ (k, v) # ys) = map_of (xs @ ys)"
proof
  fix j
  from assms obtain w where "map_of xs k = Some w" using map_of_eq_None_iff [of xs k] by auto
  then show "map_of (xs @ (k, v) # ys) j = map_of (xs @ ys) j"
    by (cases "map_of xs j") (auto simp: map_add_def)
qed

theorem collect_dataset_first:
  "distinct (map fst (collect_dataset attrs)) \<and> map_of (collect_dataset attrs) = map_of (exposed attrs)"
proof -
  have "distinct (map fst (collect_loop attrs out (map fst out)))
      \<and> map_of (collect_loop attrs out (map fst out)) = map_of (out @ exposed attrs)"
    if "distinct (map fst out)" for out
    using that
  proof (induction attrs arbitrary: out)
    case Nil
    then show ?case by (simp add: exposed_def List.map_filter_simps)
  next
    case (Cons a attrs)
    show ?case
    proof (cases "attribute_to_property (fst a)")
      case None
      with Cons show ?thesis by (simp add: exposed_def List.map_filter_simps)
    next
      case (Some pn)
      have ex: "exposed (a # attrs) = (pn, snd a) # exposed attrs" by (simp add: exposed_def List.map_filter_simps Some)
      show ?thesis
      proof (cases "pn \<in> set (map fst out)")
        case True
        then have "map_of (out @ (pn, snd a) # exposed attrs) = map_of (out @ exposed attrs)" by (rule map_of_shadowed)
        with Cons.IH [OF Cons.prems] Some True show ?thesis by (simp add: ex)
      next
        case False
        with Cons.IH [of "out @ [(pn, snd a)]"] Cons.prems Some show ?thesis by (simp add: ex)
      qed
    qed
  qed
  from this [of "[]"] show ?thesis by (simp add: collect_dataset_def)
qed

end
