(* ===== verification/Storage_Keys.thy ===== *)
theory Storage_Keys
  imports Url_Policy
begin

section \<open>Keys, values and partitions of Web Storage\<close>

text \<open>
  \<open>vixen-engine/src/storage_key.rs\<close>: which keys and values Web Storage accepts, the partition of an origin and the quota of
  a partition.
\<close>

datatype StorageKind = LocalStorage | SessionStorage

primrec StorageKind_tag :: "StorageKind \<Rightarrow> string" where
  "StorageKind_tag LocalStorage = ''local''"
| "StorageKind_tag SessionStorage = ''session''"

definition MAX_KEY_LEN :: usize where "MAX_KEY_LEN = 1024"
definition MAX_VALUE_LEN :: usize where "MAX_VALUE_LEN = 2 * 1024 * 1024"
definition MAX_ENTRIES :: usize where "MAX_ENTRIES = 8192"
definition MAX_PARTITION_BYTES :: usize where "MAX_PARTITION_BYTES = 5 * 1024 * 1024"

datatype StorageKeyError = EmptyKey | ContainsNul | TooLong string usize usize

definition validate_storage_key :: "string \<Rightarrow> (unit, StorageKeyError) result" where
  "validate_storage_key key =
     (if key = [] then Err EmptyKey
      else if CHR 0x00 \<in> set key then Err ContainsNul
      else if MAX_KEY_LEN < length key then Err (TooLong ''key'' (length key) MAX_KEY_LEN)
      else Ok ())"

definition validate_storage_value :: "string \<Rightarrow> (unit, StorageKeyError) result" where
  "validate_storage_value val =
     (if CHR 0x00 \<in> set val then Err ContainsNul
      else if MAX_VALUE_LEN < length val then Err (TooLong ''value'' (length val) MAX_VALUE_LEN)
      else Ok ())"

record StoragePartition =
  sp_origin :: Origin
  sp_kind :: StorageKind

definition StoragePartition_new :: "Origin \<Rightarrow> StorageKind \<Rightarrow> StoragePartition" where
  "StoragePartition_new og kind = \<lparr>sp_origin = og, sp_kind = kind\<rparr>"

definition StoragePartition_partition_key :: "StoragePartition \<Rightarrow> string" where
  "StoragePartition_partition_key p =
     ''storage:'' @ StorageKind_tag (sp_kind p) @ '':'' @ Origin_partition_key (sp_origin p)"

record StorageQuota =
  sq_entries :: usize
  sq_bytes :: usize

definition StorageQuota_check :: "StorageQuota \<Rightarrow> usize \<Rightarrow> usize \<Rightarrow> (unit, StorageKeyError) result" where
  "StorageQuota_check q key_len value_len =
     (if MAX_ENTRIES < sq_entries q + 1 then Err (TooLong ''entry-count'' (sq_entries q + 1) MAX_ENTRIES)
      else (let added = sq_bytes q + key_len + value_len in
        if MAX_PARTITION_BYTES < added then Err (TooLong ''partition-bytes'' added MAX_PARTITION_BYTES)
        else Ok ()))"

subsection \<open>Properties\<close>

text \<open>Keys of partitions differ when the kinds differ or the keys of the origins do, so the partitions of two origins with hosts never
  meet (\<open>partition_key_inj\<close>).\<close>

theorem storage_partitions_apart:
  "StoragePartition_partition_key (StoragePartition_new og k) = StoragePartition_partition_key (StoragePartition_new og' k')
     \<longleftrightarrow> k = k' \<and> Origin_partition_key og = Origin_partition_key og'"
  by (cases k; cases k') (simp_all add: StoragePartition_partition_key_def StoragePartition_new_def)

text \<open>A partition that only grows by items for which the checks succeed stays within its limits.\<close>

definition add_item :: "StorageQuota \<Rightarrow> string \<times> string \<Rightarrow> StorageQuota" where
  "add_item q item =
     (if validate_storage_key (fst item) = Ok () \<and> validate_storage_value (snd item) = Ok ()
         \<and> StorageQuota_check q (length (fst item)) (length (snd item)) = Ok ()
      then \<lparr>sq_entries = sq_entries q + 1, sq_bytes = sq_bytes q + length (fst item) + length (snd item)\<rparr> else q)"

theorem storage_within_quota:
  "let q = foldl add_item \<lparr>sq_entries = 0, sq_bytes = 0\<rparr> items
   in sq_entries q \<le> MAX_ENTRIES \<and> sq_bytes q \<le> MAX_PARTITION_BYTES
    \<and> sq_bytes q \<le> sq_entries q * (MAX_KEY_LEN + MAX_VALUE_LEN)"
proof -
  have "sq_entries (foldl add_item q items) \<le> MAX_ENTRIES \<and> sq_bytes (foldl add_item q items) \<le> MAX_PARTITION_BYTES
      \<and> sq_bytes (foldl add_item q items) \<le> sq_entries (foldl add_item q items) * (MAX_KEY_LEN + MAX_VALUE_LEN)"
    if "sq_entries q \<le> MAX_ENTRIES \<and> sq_bytes q \<le> MAX_PARTITION_BYTES
      \<and> sq_bytes q \<le> sq_entries q * (MAX_KEY_LEN + MAX_VALUE_LEN)" for q
    using that
    by (induction items arbitrary: q)
      (auto simp: add_item_def StorageQuota_check_def validate_storage_key_def validate_storage_value_def
        Let_def not_less add_mult_distrib split: if_splits)
  from this [of "\<lparr>sq_entries = 0, sq_bytes = 0\<rparr>"] show ?thesis by simp
qed

end
