(* ===== verification/Date_Units.thy ===== *)
theory Date_Units
  imports Cookie_Date "HOL-Library.Monad_Syntax"
begin

section \<open>Dates and times of form controls\<close>

text \<open>
  \<open>vixen-engine/src/date_units.rs\<close> and the integer arithmetic of \<open>forms.rs\<close>: the values of date, time, week, month and
  local date controls become integers, on which step constraints are checked. The \<open>i64\<close> computations of the parsers are on
  numbers of at most four digits and are modelled by \<open>int\<close>, with division and remainder that truncate; the
  saturating subtraction of the step check is written out. The calendar of \<open>Cookie_Date\<close> is the
  reference for days, the Thursdays of a year are the one for weeks.
\<close>

subsection \<open>Fields\<close>

datatype DateTimeUnit = Days int | Seconds int | Weeks int | Months int | DateTimeSeconds int

primrec DateTimeUnit_as_scalar :: "DateTimeUnit \<Rightarrow> int" where
  "DateTimeUnit_as_scalar (Days n) = n"
| "DateTimeUnit_as_scalar (Seconds n) = n"
| "DateTimeUnit_as_scalar (Weeks n) = n"
| "DateTimeUnit_as_scalar (Months n) = n"
| "DateTimeUnit_as_scalar (DateTimeSeconds n) = n"

definition days_from_civil :: "int \<Rightarrow> int \<Rightarrow> int \<Rightarrow> int" where
  "days_from_civil y0 m d =
     (let y = (if m \<le> 2 then y0 - 1 else y0);
          era = (if 0 \<le> y then y else y - 399) sdiv 400;
          yoe = y - era * 400;
          doy = (153 * (if 2 < m then m - 3 else m + 9) + 2) sdiv 5 + d - 1;
          doe = yoe * 365 + yoe sdiv 4 - yoe sdiv 100 + doy
      in era * 146097 + doe - 719468)"

definition digits :: "string \<Rightarrow> nat \<Rightarrow> (int \<times> string) option" where
  "digits s n =
     (if length s < n then None
      else if \<not> list_all is_ascii_digit (take n s) then None
      else Some (decimal (take n s), drop n s))"

definition at_end :: "string \<Rightarrow> unit option" where
  "at_end rest = (if rest = [] then Some () else None)"

definition lit :: "string \<Rightarrow> char \<Rightarrow> string option" where
  "lit s ch = (if starts_with_char ch s then Some (tl s) else None)"

definition is_leap_year :: "int \<Rightarrow> bool" where
  "is_leap_year yr \<longleftrightarrow> yr smod 4 = 0 \<and> yr smod 100 \<noteq> 0 \<or> yr smod 400 = 0"

definition days_in_month :: "int \<Rightarrow> int \<Rightarrow> int" where
  "days_in_month yr mo =
     (if mo \<in> {1, 3, 5, 7, 8, 10, 12} then 31
      else if mo \<in> {4, 6, 9, 11} then 30
      else if mo = 2 then (if is_leap_year yr then 29 else 28)
      else 0)"

definition validate_ymd :: "int \<Rightarrow> int \<Rightarrow> int \<Rightarrow> unit option" where
  "validate_ymd yr mo dy =
     (if yr < 1 \<or> \<not> (1 \<le> mo \<and> mo \<le> 12) then None
      else if \<not> (1 \<le> dy \<and> dy \<le> days_in_month yr mo) then None
      else Some ())"

subsection \<open>Parsers\<close>

definition parse_date :: "string \<Rightarrow> DateTimeUnit option" where
  "parse_date s = do {
     (yr, rest) \<leftarrow> digits s 4;
     rest \<leftarrow> lit rest (CHR ''-'');
     (mo, rest) \<leftarrow> digits rest 2;
     rest \<leftarrow> lit rest (CHR ''-'');
     (dy, rest) \<leftarrow> digits rest 2;
     at_end rest;
     validate_ymd yr mo dy;
     Some (Days (days_from_civil yr mo dy)) }"

definition clock_ok :: "int \<Rightarrow> int \<Rightarrow> int \<Rightarrow> bool" where
  "clock_ok hour minute seconds \<longleftrightarrow> 0 \<le> hour \<and> hour \<le> 23 \<and> 0 \<le> minute \<and> minute \<le> 59 \<and> 0 \<le> seconds \<and> seconds \<le> 59"

text \<open>The optional seconds with their optional fraction.\<close>

definition parse_seconds :: "string \<Rightarrow> (int \<times> string) option" where
  "parse_seconds rest =
     (if starts_with_char (CHR '':'') rest then do {
        rest \<leftarrow> lit rest (CHR '':'');
        (sec, rest) \<leftarrow> digits rest 2;
        (case strip_prefix rest ''.'' of
           Some after_dot \<Rightarrow>
             (let upto = length (takeWhile is_ascii_digit after_dot)
              in if upto = 0 then None else Some (sec, drop upto after_dot))
         | None \<Rightarrow> Some (sec, rest)) }
      else Some (0, rest))"

definition parse_time :: "string \<Rightarrow> DateTimeUnit option" where
  "parse_time s = do {
     (hour, rest) \<leftarrow> digits s 2;
     rest \<leftarrow> lit rest (CHR '':'');
     (minute, rest) \<leftarrow> digits rest 2;
     (seconds, rest) \<leftarrow> parse_seconds rest;
     at_end rest;
     if \<not> clock_ok hour minute seconds then None
     else Some (Seconds (hour * 3600 + minute * 60 + seconds)) }"

definition weekday :: "int \<Rightarrow> int" where
  "weekday days = (days smod 7 + 4) smod 7"

definition has_iso_week_53 :: "int \<Rightarrow> bool" where
  "has_iso_week_53 yr \<longleftrightarrow> weekday (days_from_civil yr 1 1) = 4 \<or> weekday (days_from_civil yr 12 31) = 4"

definition parse_week :: "string \<Rightarrow> DateTimeUnit option" where
  "parse_week s = do {
     (yr, rest) \<leftarrow> digits s 4;
     rest \<leftarrow> lit rest (CHR ''-'');
     rest \<leftarrow> lit rest (CHR ''W'');
     (week, rest) \<leftarrow> digits rest 2;
     at_end rest;
     if yr < 1 \<or> \<not> (1 \<le> week \<and> week \<le> 53) then None
     else if week = 53 \<and> \<not> has_iso_week_53 yr then None
     else (let jan4_days = days_from_civil yr 1 4;
               week1_monday = jan4_days - (weekday jan4_days + 6) smod 7
           in Some (Weeks ((week1_monday + (week - 1) * 7 - (- 3)) sdiv 7))) }"

definition parse_month :: "string \<Rightarrow> DateTimeUnit option" where
  "parse_month s = do {
     (yr, rest) \<leftarrow> digits s 4;
     rest \<leftarrow> lit rest (CHR ''-'');
     (mo, rest) \<leftarrow> digits rest 2;
     at_end rest;
     if yr < 1 \<or> \<not> (1 \<le> mo \<and> mo \<le> 12) then None
     else Some (Months (yr * 12 + (mo - 1))) }"

definition parse_datetime_local :: "string \<Rightarrow> DateTimeUnit option" where
  "parse_datetime_local s = do {
     (yr, rest) \<leftarrow> digits s 4;
     rest \<leftarrow> lit rest (CHR ''-'');
     (mo, rest) \<leftarrow> digits rest 2;
     rest \<leftarrow> lit rest (CHR ''-'');
     (dy, rest) \<leftarrow> digits rest 2;
     rest \<leftarrow> (case lit rest (CHR ''T'') of Some r \<Rightarrow> Some r | None \<Rightarrow> lit rest (CHR '' ''));
     (hour, rest) \<leftarrow> digits rest 2;
     rest \<leftarrow> lit rest (CHR '':'');
     (minute, rest) \<leftarrow> digits rest 2;
     (seconds, rest) \<leftarrow> (case strip_prefix rest '':'' of Some after \<Rightarrow> digits after 2 | None \<Rightarrow> Some (0, rest));
     at_end rest;
     validate_ymd yr mo dy;
     if \<not> clock_ok hour minute seconds then None
     else Some (DateTimeSeconds (days_from_civil yr mo dy * 86400 + hour * 3600 + minute * 60 + seconds)) }"

subsection \<open>Step constraints\<close>

definition i64_saturating_sub :: "int \<Rightarrow> int \<Rightarrow> int" where
  "i64_saturating_sub a b = max i64_min (min i64_max (a - b))"

definition step_mismatch :: "int \<Rightarrow> int \<Rightarrow> int \<Rightarrow> bool" where
  "step_mismatch step_base val step =
     (if step \<le> 0 then False
      else (let diff = i64_saturating_sub val step_base; r = diff mod step in r \<noteq> 0 \<and> r \<noteq> step))"

subsection \<open>Days\<close>

lemma days_from_civil_number:
  assumes "1 \<le> m" and "m \<le> 12"
  shows "days_from_civil y m d = day_number (y, m, d)"
proof -
  define y' m' where "y' = (if m \<le> 2 then y - 1 else y)" and "m' = (if m \<le> 2 then m + 12 else m)"
  have doy: "(153 * (if 2 < m then m - 3 else m + 9) + 2) sdiv 5 = month_days m'"
    using assms by (simp add: m'_def month_days_def sdiv_nonneg)
  have "0 \<le> y' - y' div 400 * 400" by (simp add: minus_div_mult_eq_mod)
  then have "days_from_civil y m d = year_days y' + month_days m' + d - 719469"
    using year_days_split [of y'] unfolding days_from_civil_def Let_def doy era_floor y'_def [symmetric]
    by (simp add: sdiv_nonneg)
  then show ?thesis by (simp add: day_number_def y'_def m'_def)
qed

lemma smod_cases:
  assumes "0 < (k::int)"
  shows "x smod k = (if 0 \<le> x then x mod k else - ((- x) mod k))"
proof (cases "0 \<le> x")
  case True
  with assms show ?thesis by (cases "x = 0") (simp_all add: signed_modulo_int_def sdiv_nonneg minus_div_mult_eq_mod sgn_if)
next
  case False
  with False show ?thesis using assms by (simp add: signed_modulo_int_def sgn_if)
qed

lemma smod_dvd: "0 < k \<Longrightarrow> (x::int) smod k = 0 \<longleftrightarrow> k dvd x"
  by (simp add: smod_cases flip: dvd_eq_mod_eq_0)

lemma validate_ymd_civil: "validate_ymd y m d = Some () \<longleftrightarrow> 1 \<le> y \<and> civil_date (y, m, d)"
proof -
  have "is_leap_year y = leap_year y" by (auto simp: is_leap_year_def leap_year_def smod_dvd)
  moreover have "1 \<le> m \<Longrightarrow> m \<le> 12 \<Longrightarrow> m \<in> {1, 3, 5, 7, 8, 10, 12} \<or> m \<in> {4, 6, 9, 11} \<or> m = 2" by simp presburger
  ultimately have "1 \<le> m \<Longrightarrow> m \<le> 12 \<Longrightarrow> days_in_month y m = month_length y m"
    by (auto simp: days_in_month_def month_length_def)
  then show ?thesis by (auto simp: validate_ymd_def civil_date_def)
qed

subsection \<open>Fixed-width numbers\<close>

primrec padded :: "nat \<Rightarrow> int \<Rightarrow> string" where
  "padded 0 v = []"
| "padded (Suc n) v = padded n (v div 10) @ [char_of (nat (v mod 10) + 48)]"

lemma length_padded [simp]: "length (padded n v) = n"
  by (induction n arbitrary: v) simp_all

lemma decimal_snoc: "decimal (ds @ [c]) = 10 * decimal ds + (int (byte c) - 48)"
  by (simp add: decimal_def)

lemma padded_digits:
  "0 \<le> v \<Longrightarrow> v < 10 ^ n \<Longrightarrow> list_all is_ascii_digit (padded n v) \<and> decimal (padded n v) = v"
proof (induction n arbitrary: v)
  case (Suc n)
  then have "v div 10 < 10 ^ n" "0 \<le> v div 10" by auto
  with Suc.IH have IH: "list_all is_ascii_digit (padded n (v div 10))" "decimal (padded n (v div 10)) = v div 10" by blast+
  have small: "nat (v mod 10) < 10" by simp
  then have "byte (char_of (nat (v mod 10) + 48)) = nat (v mod 10) + 48" by (simp add: byte_def)
  with IH small show ?case by (simp add: decimal_snoc is_ascii_digit_def [of "char_of _"])
qed (simp add: decimal_def)

lemma digits_padded:
  "list_all is_ascii_digit ds \<Longrightarrow> ds = padded (length ds) (decimal ds) \<and> 0 \<le> decimal ds \<and> decimal ds < 10 ^ length ds"
proof (induction ds rule: rev_induct)
  case (snoc c ds)
  then have IH: "ds = padded (length ds) (decimal ds)" "0 \<le> decimal ds" "decimal ds < 10 ^ length ds"
      and c: "48 \<le> byte c" "byte c \<le> 57" by (auto simp: is_ascii_digit_def)
  define k where "k = int (byte c) - 48"
  with c have k: "0 \<le> k" "k < 10" "char_of (nat k + 48) = c" by (auto simp: byte_def nat_diff_distrib)
  have d: "decimal (ds @ [c]) = 10 * decimal ds + k" by (simp add: decimal_snoc k_def)
  have "(10 * decimal ds + k) div 10 = decimal ds" "(10 * decimal ds + k) mod 10 = k" using k by auto
  with IH k show ?case by (simp add: d)
qed (simp add: decimal_def)

lemma digits_exact:
  "digits s n = Some (v, r) \<longleftrightarrow> 0 \<le> v \<and> v < 10 ^ n \<and> s = padded n v @ r" (is "?l \<longleftrightarrow> ?r")
proof
  assume ?l
  then have l: "n \<le> length s" "list_all is_ascii_digit (take n s)" "v = decimal (take n s)" "r = drop n s"
    by (auto simp: digits_def split: if_splits)
  with digits_padded [OF l(2)] show ?r by (metis append_take_drop_id length_take min.absorb2)
next
  assume ?r
  with padded_digits [of v n] show ?l by (simp add: digits_def)
qed

lemma digits_read: "0 \<le> v \<and> v < 10 ^ n \<Longrightarrow> digits (padded n v @ r) n = Some (v, r)"
  by (simp add: digits_exact)

lemma lit_exact: "lit s c = Some r \<longleftrightarrow> s = c # r"
  by (cases s) (auto simp: lit_def starts_with_char_def)

lemma at_end_exact: "at_end r = Some u \<longleftrightarrow> r = []"
  by (simp add: at_end_def)

lemmas field_facts = bind_eq_Some_conv digits_exact lit_exact at_end_exact

definition date_text :: "int \<Rightarrow> int \<Rightarrow> int \<Rightarrow> string" where
  "date_text y m d = padded 4 y @ ''-'' @ padded 2 m @ ''-'' @ padded 2 d"

lemma parse_date_exact:
  "parse_date s = Some u \<longleftrightarrow>
     (\<exists>y m d. 1 \<le> y \<and> y \<le> 9999 \<and> civil_date (y, m, d) \<and> s = date_text y m d \<and> u = Days (day_number (y, m, d)))"
  (is "?l \<longleftrightarrow> ?r")
proof
  assume ?l
  then obtain y m d where f: "y < 10 ^ 4" "s = date_text y m d" "validate_ymd y m d = Some ()"
      "u = Days (days_from_civil y m d)"
    by (auto simp: parse_date_def field_facts date_text_def)
  from f(3) have "1 \<le> y \<and> civil_date (y, m, d)" by (simp add: validate_ymd_civil)
  moreover from this have "days_from_civil y m d = day_number (y, m, d)"
    by (intro days_from_civil_number) (auto simp: civil_date_def)
  ultimately show ?r using f by fastforce
next
  assume ?r
  then obtain y m d where f: "1 \<le> y" "y \<le> 9999" "civil_date (y, m, d)" "s = date_text y m d" "u = Days (day_number (y, m, d))"
    by blast
  from civil_date_bounds [OF f(3)] have "0 \<le> y \<and> y < 10 ^ 4" "0 \<le> m \<and> m < 10 ^ 2" "0 \<le> d \<and> d < 10 ^ 2" using f(1,2) by auto
  moreover have "validate_ymd y m d = Some ()" using f(1,3) by (simp add: validate_ymd_civil)
  moreover have "days_from_civil y m d = day_number (y, m, d)"
    using civil_date_bounds [OF f(3)] by (intro days_from_civil_number) auto
  ultimately show ?l using f(4,5) by (auto simp: parse_date_def field_facts date_text_def)
qed

subsection \<open>Weeks\<close>

text \<open>Day 0, the first of January 1970, is a Thursday, so the Thursdays are the multiples of seven. An ISO week
  belongs to the year that its Thursday is in.\<close>

definition first_thursday :: "int \<Rightarrow> int" where
  "first_thursday y = 7 * (- ((- day_number (y, 1, 1)) div 7))"

definition last_day :: "int \<Rightarrow> int" where
  "last_day y = day_number (y, 12, 31)"

lemma last_day_eq: "last_day y = day_number (y, 1, 1) + 364 + (if leap_year y then 1 else 0)"
  using year_days_step [of "y - 1"] by (simp add: last_day_def day_number_def month_days_def)

lemma first_thursday_bounds:
  "7 dvd first_thursday y" "day_number (y, 1, 1) \<le> first_thursday y" "first_thursday y < day_number (y, 1, 1) + 7"
  unfolding first_thursday_def by (simp, presburger, presburger)

lemma smod_7:
  obtains q t where "x smod 7 = t" and "x = 7 * q + t"
    and "t \<in> {- 6, - 5, - 4, - 3, - 2, - 1, 0, 1, 2, 3, 4, 5, 6 :: int}"
proof -
  have "x = 7 * (x sdiv 7) + x smod 7" by (simp add: mult_sdiv_smod_eq)
  moreover have "- 6 \<le> x smod 7 \<and> x smod 7 \<le> 6"
    using pos_mod_bound [of 7 x] pos_mod_bound [of 7 "- x"] pos_mod_sign [of 7 x] pos_mod_sign [of 7 "- x"]
    unfolding smod_cases [of 7 x, OF zero_less_numeral] by (auto split: if_split)
  moreover have "t \<in> {- 6, - 5, - 4, - 3, - 2, - 1, 0, 1, 2, 3, 4, 5, 6}" if "- 6 \<le> t \<and> t \<le> 6" for t :: int
    using that by (simp only: insert_iff empty_iff) presburger
  ultimately show ?thesis using that [OF refl] by blast
qed

lemma weekday_values:
  assumes "x smod 7 = t" and "t \<in> {- 6, - 5, - 4, - 3, - 2, - 1, 0, 1, 2, 3, 4, 5, 6 :: int}"
  shows "weekday x = 4 \<longleftrightarrow> t = 0" and "(weekday x + 6) smod 7 = (t + 3) mod 7"
  using assms(2) unfolding weekday_def assms(1) by (auto simp: smod_cases)

lemma weekday_thursday: "weekday x = 4 \<longleftrightarrow> 7 dvd x"
proof -
  obtain q t where "x smod 7 = t" "t \<in> {- 6, - 5, - 4, - 3, - 2, - 1, 0, 1, 2, 3, 4, 5, 6}" by (rule smod_7)
  from weekday_values(1) [OF this] this(1) show ?thesis using smod_dvd [of 7 x] by simp
qed

lemma monday_offset: "(weekday x + 6) smod 7 = (x + 3) mod 7"
proof -
  obtain q t where t: "x smod 7 = t" "t \<in> {- 6, - 5, - 4, - 3, - 2, - 1, 0, 1, 2, 3, 4, 5, 6}" and x: "x = 7 * q + t"
    by (rule smod_7)
  have "(x + 3) mod 7 = (t + 3) mod 7" by (simp add: x add.assoc)
  with weekday_values(2) [OF t] show ?thesis by simp
qed

lemma week1_monday: "day_number (y, 1, 4) - (weekday (day_number (y, 1, 4)) + 6) smod 7 = first_thursday y - 3"
proof -
  have "day_number (y, 1, 4) = day_number (y, 1, 1) + 3" by (simp add: day_number_def)
  then show ?thesis unfolding monday_offset first_thursday_def by presburger
qed

lemma week_53:
  "has_iso_week_53 y \<longleftrightarrow> first_thursday y + 52 * 7 \<le> last_day y"
proof -
  have "has_iso_week_53 y \<longleftrightarrow> 7 dvd day_number (y, 1, 1) \<or> 7 dvd last_day y"
    by (simp add: has_iso_week_53_def weekday_thursday days_from_civil_number last_day_def)
  also have "\<dots> \<longleftrightarrow> first_thursday y + 52 * 7 \<le> last_day y"
    unfolding last_day_eq first_thursday_def by (cases "leap_year y") (simp_all, presburger+)
  finally show ?thesis .
qed

definition week_text :: "int \<Rightarrow> int \<Rightarrow> string" where
  "week_text y k = padded 4 y @ ''-W'' @ padded 2 k"

definition week_of :: "int \<Rightarrow> int \<Rightarrow> DateTimeUnit option" where
  "week_of yr week =
     (if yr < 1 \<or> \<not> (1 \<le> week \<and> week \<le> 53) then None
      else if week = 53 \<and> \<not> has_iso_week_53 yr then None
      else (let jan4_days = days_from_civil yr 1 4;
                week1_monday = jan4_days - (weekday jan4_days + 6) smod 7
            in Some (Weeks ((week1_monday + (week - 1) * 7 - (- 3)) sdiv 7))))"

lemma parse_week_of:
  "parse_week s = do {
     (yr, rest) \<leftarrow> digits s 4; rest \<leftarrow> lit rest (CHR ''-''); rest \<leftarrow> lit rest (CHR ''W'');
     (week, rest) \<leftarrow> digits rest 2; at_end rest; week_of yr week }"
  by (simp add: parse_week_def week_of_def)

lemma parse_week_exact:
  "parse_week s = Some u \<longleftrightarrow>
     (\<exists>y k. 1 \<le> y \<and> y \<le> 9999 \<and> 1 \<le> k \<and> first_thursday y + 7 * (k - 1) \<le> last_day y
        \<and> s = week_text y k \<and> u = Weeks ((first_thursday y + 7 * (k - 1)) div 7))"
  (is "?l \<longleftrightarrow> ?r")
proof -
  have exists: "k \<le> 53 \<and> (k = 53 \<longrightarrow> has_iso_week_53 y) \<longleftrightarrow> first_thursday y + 7 * (k - 1) \<le> last_day y" for y k
    using first_thursday_bounds [of y] unfolding week_53 last_day_eq by (auto split: if_splits)
  have thursday: "(first_thursday y - 3 + (k - 1) * 7 - - 3) sdiv 7 = (first_thursday y + 7 * (k - 1)) div 7" for y k
  proof -
    obtain w where w: "first_thursday y = 7 * w" using first_thursday_bounds(1) by (auto elim: dvdE)
    have "(7 * n) sdiv 7 = n" for n :: int by (simp add: signed_divide_int_def sgn_if abs_mult)
    from this [of "w + (k - 1)"] show ?thesis by (simp add: w algebra_simps)
  qed
  have "?l \<longleftrightarrow> (\<exists>y k. 0 \<le> y \<and> y < 10 ^ 4 \<and> 0 \<le> k \<and> k < 10 ^ 2 \<and> s = week_text y k \<and> week_of y k = Some u)"
  proof
    assume ?l
    then show "\<exists>y k. 0 \<le> y \<and> y < 10 ^ 4 \<and> 0 \<le> k \<and> k < 10 ^ 2 \<and> s = week_text y k \<and> week_of y k = Some u"
      unfolding parse_week_of by (auto simp: field_facts week_text_def)
  next
    assume "\<exists>y k. 0 \<le> y \<and> y < 10 ^ 4 \<and> 0 \<le> k \<and> k < 10 ^ 2 \<and> s = week_text y k \<and> week_of y k = Some u"
    then obtain y k where "0 \<le> y \<and> y < 10 ^ 4" "0 \<le> k \<and> k < 10 ^ 2" "s = week_text y k" "week_of y k = Some u" by blast
    then show ?l using digits_read [of k 2 "[]"]
      by (simp add: parse_week_of week_text_def digits_read lit_def starts_with_char_def at_end_def)
  qed
  also have "\<dots> \<longleftrightarrow> (\<exists>y k. 0 \<le> y \<and> y < 10 ^ 4 \<and> 0 \<le> k \<and> k < 10 ^ 2 \<and> s = week_text y k
      \<and> 1 \<le> y \<and> 1 \<le> k \<and> (k \<le> 53 \<and> (k = 53 \<longrightarrow> has_iso_week_53 y))
      \<and> u = Weeks ((first_thursday y - 3 + (k - 1) * 7 - - 3) sdiv 7))"
    by (intro iff_exI) (auto simp: week_of_def days_from_civil_number week1_monday Let_def split: if_splits)
  also have "\<dots> \<longleftrightarrow> ?r"
    unfolding exists thursday
  proof (intro iff_exI iffI)
    fix y k
    assume r: "1 \<le> y \<and> y \<le> 9999 \<and> 1 \<le> k \<and> first_thursday y + 7 * (k - 1) \<le> last_day y \<and> s = week_text y k
      \<and> u = Weeks ((first_thursday y + 7 * (k - 1)) div 7)"
    then have "k \<le> 53" using exists [of k y] by blast
    with r show "0 \<le> y \<and> y < 10 ^ 4 \<and> 0 \<le> k \<and> k < 10 ^ 2 \<and> s = week_text y k \<and> 1 \<le> y \<and> 1 \<le> k
      \<and> first_thursday y + 7 * (k - 1) \<le> last_day y \<and> u = Weeks ((first_thursday y + 7 * (k - 1)) div 7)" by auto
  qed auto
  finally show ?thesis .
qed

subsection \<open>Properties\<close>

text \<open>The date control accepts exactly the dates of the Gregorian calendar from year 1 to 9999 in their fixed-width form, and its value is
  the number of days since 1970 that counting the calendar gives. The week control accepts exactly the
  weeks whose Thursday lies in the named year, as ISO 8601 defines them, and its value counts those Thursdays from 1970,
  for years before 1970 too.\<close>

theorem date_and_week_values_exact:
  "(parse_date s = Some u \<longleftrightarrow>
     (\<exists>y m d. 1 \<le> y \<and> y \<le> 9999 \<and> civil_date (y, m, d) \<and> s = date_text y m d \<and> u = Days (day_number (y, m, d))))
   \<and> (parse_week s = Some u \<longleftrightarrow>
     (\<exists>y k. 1 \<le> y \<and> y \<le> 9999 \<and> 1 \<le> k \<and> first_thursday y + 7 * (k - 1) \<le> last_day y
        \<and> s = week_text y k \<and> u = Weeks ((first_thursday y + 7 * (k - 1)) div 7)))
   \<and> 7 dvd first_thursday y' \<and> day_number (y', 1, 1) \<le> first_thursday y' \<and> first_thursday y' < day_number (y', 1, 1) + 7"
  using parse_date_exact [of s u] parse_week_exact [of s u] first_thursday_bounds [of y'] by blast

lemma clock_reads:
  assumes "clock_ok h mi sec"
  shows "0 \<le> h \<and> h < 10 ^ 2" "0 \<le> mi \<and> mi < 10 ^ 2" "0 \<le> sec \<and> sec < 10 ^ 2"
  using assms by (auto simp: clock_ok_def)

text \<open>A local date and time gives the seconds of its day and of its clock.\<close>

theorem datetime_local_value:
  assumes "1 \<le> y" "y \<le> 9999" "civil_date (y, m, d)" "clock_ok h mi sec" "sep = CHR ''T'' \<or> sep = CHR '' ''"
  shows "parse_datetime_local (date_text y m d @ [sep] @ padded 2 h @ '':'' @ padded 2 mi @ '':'' @ padded 2 sec) =
    Some (DateTimeSeconds (day_number (y, m, d) * 86400 + h * 3600 + mi * 60 + sec))"
proof -
  from civil_date_bounds [OF assms(3)] have "0 \<le> y \<and> y < 10 ^ 4" "0 \<le> m \<and> m < 10 ^ 2" "0 \<le> d \<and> d < 10 ^ 2"
    using assms(1,2) by auto
  moreover have "validate_ymd y m d = Some ()" using assms(1,3) by (simp add: validate_ymd_civil)
  moreover have "days_from_civil y m d = day_number (y, m, d)"
    using civil_date_bounds [OF assms(3)] by (intro days_from_civil_number) auto
  ultimately show ?thesis using clock_reads [OF assms(4)] digits_read [of sec 2 "[]"] assms(4,5)
    by (auto simp: parse_datetime_local_def date_text_def digits_read lit_def starts_with_char_def at_end_def
        strip_prefix_def str_starts_with_def)
qed

theorem time_value:
  assumes "clock_ok h mi sec"
  shows "parse_time (padded 2 h @ '':'' @ padded 2 mi @ '':'' @ padded 2 sec) = Some (Seconds (h * 3600 + mi * 60 + sec))"
    and "parse_time (padded 2 h @ '':'' @ padded 2 mi) = Some (Seconds (h * 3600 + mi * 60))"
  using clock_reads [OF assms] digits_read [of sec 2 "[]"] digits_read [of mi 2 "[]"] assms
  by (auto simp: parse_time_def parse_seconds_def digits_read lit_def starts_with_char_def at_end_def
      strip_prefix_def str_starts_with_def clock_ok_def)

text \<open>The comment of the parser allows one to three digits of a fraction; it takes any number of them.\<close>

lemma long_fraction: "parse_time ''10:00:00.123456'' = Some (Seconds 36000)"
  by code_simp

text \<open>Where the difference is an \<open>i64\<close>, a step mismatch is that it is no multiple of the step.\<close>

theorem step_mismatch_dvd:
  "0 < step \<Longrightarrow> i64_min \<le> val - base \<Longrightarrow> val - base \<le> i64_max \<Longrightarrow> step_mismatch base val step \<longleftrightarrow> \<not> step dvd val - base"
  by (auto simp: step_mismatch_def i64_saturating_sub_def dvd_eq_mod_eq_0)
    (metis less_irrefl pos_mod_bound)

end
