(* ===== verification/Form_Validity.thy ===== *)
theory Form_Validity
  imports Date_Units
begin

section \<open>Validity of form controls\<close>

text \<open>
  \<open>vixen-engine/src/forms.rs\<close> but for the arithmetic of steps, which is in \<open>Date_Units\<close>: the formats of addresses, the validity flags
  and the range and length checks. Floats are compared as in \<open>Prelude\<close>. The step check on floats is
  floating-point arithmetic and is not modelled.
\<close>

definition email_is_valid :: "string \<Rightarrow> bool" where
  "email_is_valid s =
     (if count_list s (CHR ''@'') \<noteq> 1 then False
      else (case split_once (CHR ''@'') s of
          None \<Rightarrow> False
        | Some (local, domain) \<Rightarrow>
            local \<noteq> [] \<and> CHR ''.'' \<in> set domain \<and> \<not> starts_with_char (CHR ''.'') domain \<and> \<not> ends_with_char (CHR ''.'') domain))"

definition is_ascii_alphabetic :: "char \<Rightarrow> bool" where
  "is_ascii_alphabetic c \<longleftrightarrow> 65 \<le> byte c \<and> byte c \<le> 90 \<or> 97 \<le> byte c \<and> byte c \<le> 122"

definition url_is_valid :: "string \<Rightarrow> bool" where
  "url_is_valid s =
     (case split_once (CHR '':'') s of
        None \<Rightarrow> False
      | Some (scheme, rest) \<Rightarrow>
          if scheme = [] \<or> \<not> list_all is_ascii_alphabetic scheme then False
          else str_starts_with rest ''//'' \<and> hd (str_split ''/'' (drop 2 rest)) \<noteq> [])"

record Validity =
  value_missing :: bool
  type_mismatch :: bool
  pattern_mismatch :: bool
  too_long :: bool
  too_short :: bool
  range_underflow :: bool
  range_overflow :: bool
  step_mismatched :: bool
  bad_input :: bool
  custom_error :: bool

definition Validity_default :: Validity where
  "Validity_default = \<lparr>value_missing = False, type_mismatch = False, pattern_mismatch = False, too_long = False, too_short = False,
     range_underflow = False, range_overflow = False, step_mismatched = False, bad_input = False, custom_error = False\<rparr>"

definition Validity_is_valid :: "Validity \<Rightarrow> bool" where
  "Validity_is_valid v \<longleftrightarrow> \<not> (value_missing v \<or> type_mismatch v \<or> pattern_mismatch v \<or> too_long v \<or> too_short v
     \<or> range_underflow v \<or> range_overflow v \<or> step_mismatched v \<or> bad_input v \<or> custom_error v)"

definition Validity_with_custom_error :: "Validity \<Rightarrow> string \<Rightarrow> Validity" where
  "Validity_with_custom_error v msg = (if msg \<noteq> [] then v\<lparr>custom_error := True\<rparr> else v)"

definition range_validity :: "f64 \<Rightarrow> f64 option \<Rightarrow> f64 option \<Rightarrow> Validity" where
  "range_validity val lo hi =
     (let v = Validity_default;
          v = (case lo of Some m \<Rightarrow> if f64_lt val m then v\<lparr>range_underflow := True\<rparr> else v | None \<Rightarrow> v);
          v = (case hi of Some m \<Rightarrow> if f64_lt m val then v\<lparr>range_overflow := True\<rparr> else v | None \<Rightarrow> v)
      in v)"

definition length_validity :: "usize \<Rightarrow> usize option \<Rightarrow> usize option \<Rightarrow> Validity" where
  "length_validity len lo hi =
     (let v = Validity_default;
          v = (case lo of Some m \<Rightarrow> if len < m then v\<lparr>too_short := True\<rparr> else v | None \<Rightarrow> v);
          v = (case hi of Some m \<Rightarrow> if m < len then v\<lparr>too_long := True\<rparr> else v | None \<Rightarrow> v)
      in v)"

subsection \<open>Properties\<close>

theorem email_exact:
  "email_is_valid s \<longleftrightarrow>
     (\<exists>l d. s = l @ ''@'' @ d \<and> CHR ''@'' \<notin> set l \<and> CHR ''@'' \<notin> set d \<and> l \<noteq> [] \<and> CHR ''.'' \<in> set d
        \<and> hd d \<noteq> CHR ''.'' \<and> last d \<noteq> CHR ''.'')" (is "?l \<longleftrightarrow> ?r")
proof
  assume ?l
  then obtain l d where p: "split_once (CHR ''@'') s = Some (l, d)" and c: "count_list s (CHR ''@'') = 1"
      and d: "l \<noteq> []" "CHR ''.'' \<in> set d" "\<not> starts_with_char (CHR ''.'') d" "\<not> ends_with_char (CHR ''.'') d"
    by (auto simp: email_is_valid_def split: if_splits option.splits)
  from split_once_Some [OF p] c have "s = l @ ''@'' @ d" "CHR ''@'' \<notin> set l" "count_list d (CHR ''@'') = 0" by auto
  with d show ?r by (auto simp: count_list_0_iff starts_with_char_def ends_with_char_def)
next
  assume ?r
  then obtain l d where s: "s = l @ CHR ''@'' # d" "CHR ''@'' \<notin> set l" "CHR ''@'' \<notin> set d" "l \<noteq> []" "CHR ''.'' \<in> set d"
        "hd d \<noteq> CHR ''.''" "last d \<noteq> CHR ''.''" by auto
  then show ?l by (auto simp: email_is_valid_def split_once_append starts_with_char_def ends_with_char_def)
qed

theorem validity_of_bounds:
  "(Validity_is_valid (length_validity len lo hi) \<longleftrightarrow>
      (case lo of Some m \<Rightarrow> m \<le> len | None \<Rightarrow> True) \<and> (case hi of Some m \<Rightarrow> len \<le> m | None \<Rightarrow> True))
   \<and> (Validity_is_valid (range_validity x lo' hi') \<longleftrightarrow>
      (case lo' of Some m \<Rightarrow> \<not> f64_lt x m | None \<Rightarrow> True) \<and> (case hi' of Some m \<Rightarrow> \<not> f64_lt m x | None \<Rightarrow> True))
   \<and> (Validity_is_valid (Validity_with_custom_error v msg) \<longleftrightarrow> Validity_is_valid v \<and> msg = [])"
  by (auto simp: Validity_is_valid_def length_validity_def range_validity_def Validity_default_def Validity_with_custom_error_def
      Let_def split: option.splits)

end
