(* ===== verification/Url_Pattern.thy ===== *)
theory Url_Pattern
  imports Rust_Str
begin

section \<open>Patterns of path names\<close>

text \<open>
  \<open>vixen-engine/src/url_pattern.rs\<close>: patterns with literal segments, named captures and a last wildcard. What compiles is well
  formed, and a match is characterised by putting the captured texts back into the pattern.
\<close>

datatype Segment = Literal string | Param string | Wildcard

record URLPattern =
  up_segments :: "Segment list"
  up_raw :: string

datatype URLPatternError = InvalidParamName string | DuplicateName string | WildcardMustBeLast | EmptyPattern

definition name_start :: "char \<Rightarrow> bool" where
  "name_start c \<longleftrightarrow> 65 \<le> byte c \<and> byte c \<le> 90 \<or> 97 \<le> byte c \<and> byte c \<le> 122 \<or> c = CHR ''_''"

definition is_valid_name :: "string \<Rightarrow> bool" where
  "is_valid_name name =
     (case name of
        [] \<Rightarrow> False
      | c # cs \<Rightarrow> name_start c \<and> list_all (\<lambda>c. name_start c \<or> is_ascii_digit c) cs)"

definition parse_segment :: "string \<Rightarrow> (Segment, URLPatternError) result" where
  "parse_segment seg =
     (if seg = ''*'' then Ok Wildcard
      else (case strip_prefix seg '':'' of
          Some name \<Rightarrow> if \<not> is_valid_name name \<or> name = [] then Err (InvalidParamName name) else Ok (Param name)
        | None \<Rightarrow>
            if CHR ''*'' \<in> set seg \<or> CHR '':'' \<in> set seg then Err (InvalidParamName seg)
            else Ok (Literal seg)))"

primrec compile_loop :: "string list \<Rightarrow> Segment list \<Rightarrow> string list \<Rightarrow> (Segment list, URLPatternError) result" where
  "compile_loop [] segments seen = Ok segments"
| "compile_loop (raw_seg # rest) segments seen =
     (let seg = str_trim raw_seg in
      if seg = [] then compile_loop rest segments seen
      else and_then (parse_segment seg) (\<lambda>parsed.
        case parsed of
          Param name \<Rightarrow>
            if name \<in> set seen then Err (DuplicateName name)
            else compile_loop rest (segments @ [parsed]) (seen @ [name])
        | _ \<Rightarrow> compile_loop rest (segments @ [parsed]) seen))"

definition URLPattern_compile :: "string \<Rightarrow> (URLPattern, URLPatternError) result" where
  "URLPattern_compile pattern =
     and_then (compile_loop (str_split ''/'' pattern) [] []) (\<lambda>segments.
       if segments = [] then Err EmptyPattern
       else if list_ex (\<lambda>(i, seg). seg = Wildcard \<and> i \<noteq> length segments - 1) (zip [0..<length segments] segments)
       then Err WildcardMustBeLast
       else Ok \<lparr>up_segments = segments, up_raw = pattern\<rparr>)"

definition path_segments :: "string \<Rightarrow> string list" where
  "path_segments pathname = filter (\<lambda>s. s \<noteq> []) (str_split ''/'' pathname)"

text \<open>The loop over the segments with the path segments that are left; a wildcard takes them all.\<close>

primrec match_loop :: "Segment list \<Rightarrow> string list \<Rightarrow> (string \<times> string) list \<Rightarrow> (string \<times> string) list option" where
  "match_loop [] ps captures = (if ps \<noteq> [] then None else Some captures)"
| "match_loop (seg # segs) ps captures =
     (case seg of
        Literal lit \<Rightarrow>
          (case ps of [] \<Rightarrow> None | p # ps' \<Rightarrow> if p \<noteq> lit then None else match_loop segs ps' captures)
      | Param name \<Rightarrow>
          (case ps of [] \<Rightarrow> None
           | p # ps' \<Rightarrow> if p = [] then None else match_loop segs ps' (captures @ [(name, p)]))
      | Wildcard \<Rightarrow> Some (captures @ [(''*'', str_join ''/'' ps)]))"

definition URLPattern_match_pathname :: "URLPattern \<Rightarrow> string \<Rightarrow> (string \<times> string) list option" where
  "URLPattern_match_pathname pat pathname = match_loop (up_segments pat) (path_segments pathname) []"

definition URLPattern_test_pathname :: "URLPattern \<Rightarrow> string \<Rightarrow> bool" where
  "URLPattern_test_pathname pat pathname \<longleftrightarrow> URLPattern_match_pathname pat pathname \<noteq> None"

definition URLPattern_segment_count :: "URLPattern \<Rightarrow> usize" where
  "URLPattern_segment_count pat = length (up_segments pat)"

subsection \<open>Compiled patterns\<close>

fun capture_names :: "Segment list \<Rightarrow> string list" where
  "capture_names [] = []"
| "capture_names (Param n # segs) = n # capture_names segs"
| "capture_names (Wildcard # segs) = ''*'' # capture_names segs"
| "capture_names (Literal l # segs) = capture_names segs"

fun param_names :: "Segment list \<Rightarrow> string list" where
  "param_names [] = []"
| "param_names (Param n # segs) = n # param_names segs"
| "param_names (_ # segs) = param_names segs"

primrec segment_ok :: "Segment \<Rightarrow> bool" where
  "segment_ok (Literal l) \<longleftrightarrow> l \<noteq> [] \<and> CHR ''*'' \<notin> set l \<and> CHR '':'' \<notin> set l"
| "segment_ok (Param n) \<longleftrightarrow> is_valid_name n"
| "segment_ok Wildcard \<longleftrightarrow> True"

definition pattern_ok :: "Segment list \<Rightarrow> bool" where
  "pattern_ok segs \<longleftrightarrow> segs \<noteq> [] \<and> list_all segment_ok segs \<and> distinct (param_names segs) \<and> Wildcard \<notin> set (butlast segs)"

lemma param_names_append [simp]: "param_names (a @ b) = param_names a @ param_names b"
  by (induction a rule: param_names.induct) simp_all

lemma parse_segment_ok: "parse_segment seg = Ok x \<Longrightarrow> seg \<noteq> [] \<Longrightarrow> segment_ok x"
  by (auto simp: parse_segment_def split: if_splits option.splits)

lemma compile_loop_ok:
  "compile_loop raws segs (param_names segs) = Ok out \<Longrightarrow> list_all segment_ok segs \<Longrightarrow> distinct (param_names segs) \<Longrightarrow>
    list_all segment_ok out \<and> distinct (param_names out)"
proof (induction raws arbitrary: segs)
  case (Cons raw raws)
  show ?case
  proof (cases "str_trim raw = []")
    case False
    with Cons.prems(1) obtain x where x: "parse_segment (str_trim raw) = Ok x"
      by (auto simp: Let_def result_simps)
    with parse_segment_ok False have "segment_ok x" by blast
    with Cons.prems False x Cons.IH [of "segs @ [x]"] show ?thesis
      by (cases x) (auto simp: Let_def split: if_splits)
  qed (use Cons in simp)
qed simp

lemma wildcard_last:
  "list_ex (\<lambda>(i, seg). seg = Wildcard \<and> i \<noteq> length segs - 1) (zip [0..<length segs] segs) \<longleftrightarrow> Wildcard \<in> set (butlast segs)"
proof -
  have "list_ex (\<lambda>(i, seg). seg = Wildcard \<and> i \<noteq> length segs - 1) (zip [0..<length segs] segs)
      \<longleftrightarrow> (\<exists>i < length segs. segs ! i = Wildcard \<and> i \<noteq> length segs - 1)"
    unfolding list_ex_length by auto
  also have "\<dots> \<longleftrightarrow> (\<exists>i < length segs - 1. segs ! i = Wildcard)"
    by (intro iff_exI) auto
  also have "\<dots> \<longleftrightarrow> Wildcard \<in> set (butlast segs)"
    by (auto simp: in_set_conv_nth nth_butlast)
  finally show ?thesis .
qed

theorem compiled_pattern_ok:
  assumes "URLPattern_compile pat = Ok p"
  shows "pattern_ok (up_segments p)"
proof -
  from assms obtain segs where segs: "compile_loop (str_split ''/'' pat) [] [] = Ok segs" "segs \<noteq> []" "up_segments p = segs"
      "\<not> list_ex (\<lambda>(i, seg). seg = Wildcard \<and> i \<noteq> length segs - 1) (zip [0..<length segs] segs)"
    by (auto simp: URLPattern_compile_def and_then_eq_Ok split: if_splits)
  from segs(4) have "Wildcard \<notin> set (butlast segs)" unfolding wildcard_last .
  with segs compile_loop_ok [of "str_split ''/'' pat" "[]" segs] show ?thesis by (simp add: pattern_ok_def)
qed

subsection \<open>Matches\<close>

definition path_part :: "string \<Rightarrow> bool" where
  "path_part p \<longleftrightarrow> p \<noteq> [] \<and> CHR ''/'' \<notin> set p"

lemma path_segments_parts: "list_all path_part (path_segments s)"
  using str_split_pieces_free [of "''/''" s] by (auto simp: path_segments_def path_part_def list_all_iff)

lemma path_segments_join: "list_all path_part ps \<Longrightarrow> path_segments (str_join ''/'' ps) = ps"
proof (induction ps)
  case (Cons p ps)
  then have p: "str_split ''/'' p = [p]" "p \<noteq> []" by (auto simp: path_part_def intro: str_split_free)
  then show ?case
    using Cons str_split_append [of "CHR ''/''" "''/''" p "str_join ''/'' ps"] by (auto simp: path_segments_def)
qed (simp add: path_segments_def)

text \<open>The path that putting captured texts into a pattern gives, and which texts can be captured.\<close>

fun put_back :: "Segment list \<Rightarrow> string list \<Rightarrow> string list" where
  "put_back (Literal l # segs) vs = l # put_back segs vs"
| "put_back (Param n # segs) (v # vs) = v # put_back segs vs"
| "put_back (Wildcard # segs) (v # vs) = path_segments v @ put_back segs vs"
| "put_back _ _ = []"

fun texts_ok :: "Segment list \<Rightarrow> string list \<Rightarrow> bool" where
  "texts_ok (Literal l # segs) vs = texts_ok segs vs"
| "texts_ok (Param n # segs) (v # vs) \<longleftrightarrow> path_part v \<and> texts_ok segs vs"
| "texts_ok (Wildcard # segs) (v # vs) \<longleftrightarrow> v = str_join ''/'' (path_segments v) \<and> texts_ok segs vs"
| "texts_ok [] [] = True"
| "texts_ok _ _ = False"

lemma match_loop_exact:
  "Wildcard \<notin> set (butlast segs) \<Longrightarrow> list_all path_part ps \<Longrightarrow>
    match_loop segs ps acc = Some out \<longleftrightarrow>
      (\<exists>caps. out = acc @ caps \<and> map fst caps = capture_names segs \<and> texts_ok segs (map snd caps)
        \<and> ps = put_back segs (map snd caps))"
proof (induction segs arbitrary: ps acc)
  case Nil
  then show ?case by auto
next
  case (Cons seg segs)
  then have wild: "Wildcard \<notin> set (butlast segs)" by (cases segs) auto
  show ?case
  proof (cases seg)
    case (Literal l)
    with Cons.IH [OF wild, of "tl ps" acc] Cons.prems(2) show ?thesis by (cases ps) auto
  next
    case (Param n)
    show ?thesis
    proof (cases ps)
      case Nil
      with Param show ?thesis by (auto simp: map_eq_Cons_conv)
    next
      case (Cons p ps')
      with Cons.prems have "path_part p" "list_all path_part ps'" by auto
      then have "match_loop (seg # segs) ps acc = Some out \<longleftrightarrow>
          (\<exists>caps. out = (acc @ [(n, p)]) @ caps \<and> map fst caps = capture_names segs \<and> texts_ok segs (map snd caps)
            \<and> ps' = put_back segs (map snd caps))"
        using Cons.IH [OF wild, of ps' "acc @ [(n, p)]"] Param Cons by (simp add: path_part_def [of p])
      also have "\<dots> \<longleftrightarrow> (\<exists>c caps. out = acc @ c # caps \<and> fst c = n \<and> snd c = p \<and> map fst caps = capture_names segs
          \<and> texts_ok segs (map snd caps) \<and> ps' = put_back segs (map snd caps))"
        by auto
      also have "\<dots> \<longleftrightarrow> (\<exists>caps. out = acc @ caps \<and> map fst caps = capture_names (seg # segs)
          \<and> texts_ok (seg # segs) (map snd caps) \<and> ps = put_back (seg # segs) (map snd caps))" (is "?l \<longleftrightarrow> ?r")
      proof
        assume ?l
        then obtain c caps where "out = acc @ c # caps" "fst c = n" "snd c = p" "map fst caps = capture_names segs"
            "texts_ok segs (map snd caps)" "ps' = put_back segs (map snd caps)" by blast
        with Param Cons \<open>path_part p\<close> show ?r by (intro exI [of _ "c # caps"]) simp
      next
        assume ?r
        then obtain caps where r: "out = acc @ caps" "map fst caps = n # capture_names segs"
            "texts_ok (Param n # segs) (map snd caps)" "p # ps' = put_back (Param n # segs) (map snd caps)"
          using Param Cons by auto
        then obtain c caps' where "caps = c # caps'" by (cases caps) auto
        with r show ?l by auto
      qed
      finally show ?thesis .
    qed
  next
    case Wildcard
    with Cons.prems(1) have "segs = []" by (cases segs) auto
    with Wildcard Cons.prems(2) path_segments_join [of ps] show ?thesis
      by (auto simp: map_eq_Cons_conv)
  qed
qed

text \<open>A compiled pattern has distinct valid capture names and at most a last wildcard. It matches a path exactly when putting the captured texts
  back into it gives the segments of the path; the captures are named in the order of the pattern, a named one is one
  segment, and a wildcard holds the rest of the path.\<close>

theorem pattern_matches_exact:
  "case URLPattern_compile pattern of
     Err e \<Rightarrow> True
   | Ok p \<Rightarrow> pattern_ok (up_segments p)
      \<and> (URLPattern_match_pathname p path = Some caps \<longleftrightarrow>
          map fst caps = capture_names (up_segments p) \<and> texts_ok (up_segments p) (map snd caps)
          \<and> path_segments path = put_back (up_segments p) (map snd caps))"
proof (cases "URLPattern_compile pattern")
  case (Ok p)
  note ok = compiled_pattern_ok [OF Ok]
  then have "Wildcard \<notin> set (butlast (up_segments p))" by (simp add: pattern_ok_def)
  from match_loop_exact [OF this path_segments_parts, of path "[]" caps] ok Ok show ?thesis
    by (simp add: URLPattern_match_pathname_def)
qed simp

end
