(* ===== verification/Microsyntax.thy ===== *)
theory Microsyntax
  imports Rust_Str
begin

section \<open>Integers in attribute values\<close>

text \<open>
  The integer parsers of \<open>vixen-engine/src/microsyntax.rs\<close>. A \<open>u64\<close> is a natural number below \<open>2 ^ 64\<close> with the checked operations written
  out, an \<open>i64\<close> an integer. Index loops over bytes are recursions over what is left. The parsers for floating-point
  numbers and dimensions end in the float parser of the standard library and are not modelled.
\<close>

definition is_ascii_blank :: "char \<Rightarrow> bool" where
  "is_ascii_blank b \<longleftrightarrow> b \<in> {CHR '' '', CHR 0x09, CHR 0x0A, CHR 0x0D, CHR 0x0C}"

definition skip_ascii_whitespace :: "string \<Rightarrow> string" where
  "skip_ascii_whitespace input = dropWhile is_ascii_blank input"

definition U64_MAX :: nat where
  "U64_MAX = 18446744073709551615"

primrec magnitude_loop :: "string \<Rightarrow> nat \<Rightarrow> nat" where
  "magnitude_loop [] m = m"
| "magnitude_loop (b # bs) m =
     (let d = byte b - 48 in
      if U64_MAX < m * 10 \<or> U64_MAX < m * 10 + d then U64_MAX else magnitude_loop bs (m * 10 + d))"

definition parse_signed_integer_bytes :: "string \<Rightarrow> int option" where
  "parse_signed_integer_bytes bytes =
     (let neg = starts_with_char (CHR ''-'') bytes;
          rest = (if neg \<or> starts_with_char (CHR ''+'') bytes then tl bytes else bytes);
          ds = takeWhile is_ascii_digit rest
      in if ds = [] then None
         else (let magnitude = magnitude_loop ds 0 in
           if neg then (if 2 ^ 63 \<le> magnitude then Some i64_min else Some (- int magnitude))
           else if i64_max < int magnitude then Some i64_max
           else Some (int magnitude)))"

definition parse_signed_integer :: "string \<Rightarrow> int option" where
  "parse_signed_integer input = parse_signed_integer_bytes (skip_ascii_whitespace input)"

definition parse_non_negative_integer :: "string \<Rightarrow> int option" where
  "parse_non_negative_integer input =
     (case parse_signed_integer input of
        None \<Rightarrow> None
      | Some v \<Rightarrow> if v < 0 then None else Some v)"

definition consumed_integer_prefix :: "string \<Rightarrow> nat" where
  "consumed_integer_prefix s =
     (let k = (if starts_with_char (CHR ''-'') s \<or> starts_with_char (CHR ''+'') s then 1 else 0)
      in k + length (takeWhile is_ascii_digit (drop k s)))"

definition inline_blank :: "char \<Rightarrow> bool" where
  "inline_blank b \<longleftrightarrow> b \<in> {CHR '' '', CHR 0x09, CHR 0x0C}"

lemma parse_consumes: "parse_signed_integer s = Some v \<Longrightarrow> \<not> is_ascii_blank (hd s) \<Longrightarrow> 0 < consumed_integer_prefix s"
  by (cases s) (auto simp: parse_signed_integer_def parse_signed_integer_bytes_def skip_ascii_whitespace_def
      consumed_integer_prefix_def starts_with_char_def Let_def split: if_splits)

text \<open>The loop over one segment. The integer parser skips white space that the count of consumed bytes leaves out, so the loop of the
  source would not advance at a line break before digits. Segments have no line breaks (\<open>str_split_pieces_free\<close>), so the branch for them is
  never taken.\<close>

function segment_integers :: "string \<Rightarrow> int list" where
  "segment_integers [] = []"
| "segment_integers (b # rest) =
     (if inline_blank b then segment_integers rest
      else (let slice = (if utf8_valid (b # rest) then b # rest else []) in
        case parse_signed_integer slice of
          Some v \<Rightarrow>
            (if is_ascii_blank b then []
             else v # segment_integers (drop (consumed_integer_prefix slice) (b # rest)))
        | None \<Rightarrow> segment_integers rest))"
  by pat_completeness auto
termination
proof (relation "measure length")
  fix b rest slice v
  assume "slice = (if utf8_valid (b # rest) then b # rest else [])" "parse_signed_integer slice = Some v" "\<not> is_ascii_blank b"
  moreover have "parse_signed_integer [] = None"
    by (simp add: parse_signed_integer_def parse_signed_integer_bytes_def skip_ascii_whitespace_def starts_with_char_def)
  ultimately have "0 < consumed_integer_prefix slice" using parse_consumes [of "b # rest" v] by (auto split: if_splits)
  then show "(drop (consumed_integer_prefix slice) (b # rest), b # rest) \<in> measure length" by simp
qed auto

definition parse_list_of_integers :: "string \<Rightarrow> int list" where
  "parse_list_of_integers input =
     concat (map (\<lambda>segment. segment_integers (dropWhile inline_blank segment))
       (str_split [CHR '','', CHR 0x0A, CHR 0x0D] input))"

subsection \<open>Properties\<close>

text \<open>The checked loop computes the number, or the largest \<open>u64\<close> when that is smaller.\<close>

lemma decimal_Cons: "decimal (c # ds) = (int (byte c) - 48) * 10 ^ length ds + decimal ds"
proof -
  let ?f = "\<lambda>n c. 10 * n + (int (byte c) - 48)"
  have shift: "foldl ?f a ds = a * 10 ^ length ds + foldl ?f 0 ds" for a
  proof (induction ds arbitrary: a)
    case (Cons d ds)
    have "foldl ?f a (d # ds) = (10 * a + (int (byte d) - 48)) * 10 ^ length ds + foldl ?f 0 ds"
      using Cons [of "?f a d"] by simp
    moreover have "foldl ?f 0 (d # ds) = (int (byte d) - 48) * 10 ^ length ds + foldl ?f 0 ds"
      using Cons [of "?f 0 d"] by simp
    ultimately show ?case unfolding length_Cons power_Suc by (simp only: distrib_right)
  qed simp
  have "decimal (c # ds) = foldl ?f (?f 0 c) ds" by (simp add: decimal_def)
  also have "\<dots> = ?f 0 c * 10 ^ length ds + foldl ?f 0 ds" by (rule shift)
  finally show ?thesis by (simp add: decimal_def)
qed

lemma decimal_nonneg: "list_all is_ascii_digit ds \<Longrightarrow> 0 \<le> decimal ds"
proof (induction ds)
  case (Cons c ds)
  then have "0 \<le> int (byte c) - 48" "0 \<le> decimal ds" by (auto simp: is_ascii_digit_def)
  then show ?case by (simp add: decimal_Cons)
qed (simp add: decimal_def)

lemma magnitude_loop_value:
  "list_all is_ascii_digit ds \<Longrightarrow> m \<le> U64_MAX \<Longrightarrow>
    int (magnitude_loop ds m) = min (int U64_MAX) (int m * 10 ^ length ds + decimal ds)"
proof (induction ds arbitrary: m)
  case Nil
  then show ?case by (simp add: decimal_def)
next
  case (Cons c ds)
  define d where "d = byte c - 48"
  have d: "int (byte c) - 48 = int d" using Cons.prems(1) by (simp add: d_def is_ascii_digit_def)
  have total: "int m * 10 ^ length (c # ds) + decimal (c # ds) = int (m * 10 + d) * 10 ^ length ds + decimal ds"
    by (simp add: decimal_Cons d algebra_simps)
  have nonneg: "0 \<le> decimal ds" using Cons.prems(1) decimal_nonneg by simp
  show ?case
  proof (cases "U64_MAX < m * 10 + d")
    case True
    have "int (m * 10 + d) \<le> int (m * 10 + d) * 10 ^ length ds" 
      using mult_left_mono [of 1 "10 ^ length ds" "int (m * 10 + d)"] by simp
    with True nonneg have "int U64_MAX \<le> int (m * 10 + d) * 10 ^ length ds + decimal ds" by linarith
    with True show ?thesis unfolding total by (auto simp: d_def Let_def)
  next
    case False
    with Cons show ?thesis unfolding total by (simp add: d_def Let_def)
  qed
qed

lemma clamped:
  assumes "int m = min (int U64_MAX) d" and "0 \<le> d"
  shows "(if 2 ^ 63 \<le> m then i64_min else - int m) = max i64_min (min i64_max (- 1 * d))"
    and "(if i64_max < int m then i64_max else int m) = max i64_min (min i64_max (1 * d))"
proof -
  have big: "2 ^ 63 \<le> m \<longleftrightarrow> 2 ^ 63 \<le> int m"
    using of_nat_le_iff [of "2 ^ 63" m, where ?'a = int] by simp
  show "(if 2 ^ 63 \<le> m then i64_min else - int m) = max i64_min (min i64_max (- 1 * d))"
    unfolding big assms(1) using assms(2) by (auto simp: U64_MAX_def i64_min_def i64_max_def)
  show "(if i64_max < int m then i64_max else int m) = max i64_min (min i64_max (1 * d))"
    unfolding assms(1) using assms(2) by (auto simp: U64_MAX_def i64_min_def i64_max_def)
qed

text \<open>The integer parser skips white space, reads an optional sign and the digits that follow, ignores the rest and returns the number
  they denote, clamped to the range of \<open>i64\<close> however many digits there are; without digits it returns nothing.\<close>

theorem signed_integer_exact:
  "parse_signed_integer input =
     (let s = dropWhile is_ascii_blank input;
          sign = (if starts_with_char (CHR ''-'') s then - 1 else 1);
          ds = takeWhile is_ascii_digit (if s \<noteq> [] \<and> hd s \<in> {CHR ''-'', CHR ''+''} then tl s else s)
      in if ds = [] then None else Some (max i64_min (min i64_max (sign * decimal ds))))"
proof -
  have "list_all is_ascii_digit (takeWhile is_ascii_digit s)" for s
    by (auto simp: list_all_iff dest: set_takeWhileD)
  from magnitude_loop_value [OF this, of 0] decimal_nonneg [OF this]
  have m: "int (magnitude_loop (takeWhile is_ascii_digit s) 0) = min (int U64_MAX) (decimal (takeWhile is_ascii_digit s))"
      "0 \<le> decimal (takeWhile is_ascii_digit s)" for s by simp_all
  have sign: "starts_with_char (CHR ''-'') s \<or> starts_with_char (CHR ''+'') s \<longleftrightarrow> s \<noteq> [] \<and> hd s \<in> {CHR ''-'', CHR ''+''}" for s
    by (auto simp: starts_with_char_def)
  note cl = clamped [OF m]
  show ?thesis
    unfolding parse_signed_integer_def parse_signed_integer_bytes_def skip_ascii_whitespace_def Let_def sign
    by (simp only: cl if_distrib [of Some, symmetric] split: if_split) simp
qed

text \<open>A printed list of integers is read back.\<close>

definition show_int :: "int \<Rightarrow> string" where
  "show_int v = (if v < 0 then CHR ''-'' # show_nat (nat (- v)) else show_nat (nat v))"

lemma ascii_utf8: "list_all (\<lambda>c. byte c < 128) s \<Longrightarrow> utf8_valid s"
  by (induction s) auto

lemma digit_plain: "is_ascii_digit c \<Longrightarrow> byte c < 128 \<and> \<not> is_ascii_blank c \<and> \<not> inline_blank c \<and> c \<notin> {CHR ''-'', CHR ''+'', CHR '','', CHR 0x0A, CHR 0x0D}"
  by (auto simp: is_ascii_digit_def is_ascii_blank_def inline_blank_def byte_def)

lemma show_int_shape:
  obtains sg ds where "show_int v = sg @ ds" "sg = (if v < 0 then ''-'' else [])" "list_all is_ascii_digit ds" "ds \<noteq> []"
    "decimal ds = \<bar>v\<bar>"
proof
  let ?ds = "show_nat (nat \<bar>v\<bar>)"
  show "show_int v = (if v < 0 then ''-'' else []) @ ?ds" by (simp add: show_int_def)
  show "list_all is_ascii_digit ?ds" "?ds \<noteq> []" using show_nat_digits by auto
  show "decimal ?ds = \<bar>v\<bar>" by (simp add: decimal_show_nat)
qed (rule refl)

lemma segment_show_int:
  assumes "i64_min \<le> v" and "v \<le> i64_max"
  shows "segment_integers (dropWhile inline_blank (show_int v)) = [v]" "CHR '','' \<notin> set (show_int v)"
    "CHR 0x0A \<notin> set (show_int v)" "CHR 0x0D \<notin> set (show_int v)" "\<not> inline_blank (hd (show_int v))" "show_int v \<noteq> []"
proof -
  obtain sg ds where v: "show_int v = sg @ ds" and sg: "sg = (if v < 0 then ''-'' else [])"
      and ds: "list_all is_ascii_digit ds" "ds \<noteq> []" "decimal ds = \<bar>v\<bar>" by (rule show_int_shape)
  have all: "takeWhile is_ascii_digit ds = ds" using ds(1) by (simp add: list_all_iff takeWhile_eq_all_conv)
  have hd: "is_ascii_digit (hd ds)" using ds(1,2) by (simp add: list_all_iff)
  note hd' = digit_plain [OF hd]
  have chars: "byte c < 128" "c \<noteq> CHR '',''" "c \<noteq> CHR 0x0A" "c \<noteq> CHR 0x0D" if "c \<in> set ds" for c
  proof -
    from that ds(1) have "is_ascii_digit c" by (simp add: list_all_iff)
    from digit_plain [OF this] show "byte c < 128" "c \<noteq> CHR '',''" "c \<noteq> CHR 0x0A" "c \<noteq> CHR 0x0D" by simp_all
  qed
  have set_v: "set (show_int v) \<subseteq> {CHR ''-''} \<union> set ds" by (auto simp: v sg)
  show no: "CHR '','' \<notin> set (show_int v)" "CHR 0x0A \<notin> set (show_int v)" "CHR 0x0D \<notin> set (show_int v)"
    using set_v chars(2) [of "CHR '',''"] chars(3) [of "CHR 0x0A"] chars(4) [of "CHR 0x0D"] by auto
  show blank: "\<not> inline_blank (hd (show_int v))" and ne: "show_int v \<noteq> []"
    unfolding v sg using hd' ds(2) by (auto simp: inline_blank_def)
  have ws: "\<not> is_ascii_blank (hd (show_int v))"
    unfolding v sg using hd' ds(2) by (auto simp: is_ascii_blank_def)
  have "byte c < 128" if "c \<in> set (show_int v)" for c
    using that set_v chars(1) [of c] by (auto simp: byte_def)
  then have "list_all (\<lambda>c. byte c < 128) (show_int v)" by (simp add: list_all_iff)
  then have utf8: "utf8_valid (show_int v)" by (rule ascii_utf8)
  have "dropWhile is_ascii_blank (show_int v) = show_int v" using ws ne by (cases "show_int v") auto
  note skip = this
  have nosign: "\<not> starts_with_char (CHR ''-'') ds" "\<not> starts_with_char (CHR ''+'') ds" "hd ds \<noteq> CHR ''-''" "hd ds \<noteq> CHR ''+''"
    using hd' by (auto simp: starts_with_char_def)
  have parse: "parse_signed_integer (show_int v) = Some v"
  proof (cases "v < 0")
    case True
    then have "show_int v = CHR ''-'' # ds" by (simp add: v sg)
    moreover have "max i64_min (min i64_max (- decimal ds)) = v" using True assms ds(3) by simp
    ultimately show ?thesis
      unfolding signed_integer_exact Let_def skip by (simp add: starts_with_char_def all ds(2))
  next
    case False
    then have "show_int v = ds" by (simp add: v sg)
    moreover have "max i64_min (min i64_max (decimal ds)) = v" using False assms ds(3) by simp
    ultimately show ?thesis
      unfolding signed_integer_exact Let_def skip by (simp add: nosign all ds(2))
  qed
  have consumed: "consumed_integer_prefix (show_int v) = length (show_int v)"
    by (cases "v < 0") (simp_all add: consumed_integer_prefix_def v sg Let_def nosign all starts_with_char_def [of _ "_ # _"])
  obtain b rest where b: "show_int v = b # rest" using ne by (cases "show_int v") auto
  have blank': "\<not> inline_blank b" and ws': "\<not> is_ascii_blank b" using blank ws by (simp_all add: b)
  then have "dropWhile inline_blank (show_int v) = b # rest" by (simp add: b)
  moreover have "segment_integers (b # rest) = v # segment_integers (drop (consumed_integer_prefix (b # rest)) (b # rest))"
    using utf8 parse blank' ws' unfolding b segment_integers.simps(2) [of b rest] Let_def by (simp only: if_True if_False option.case)
  moreover have "drop (consumed_integer_prefix (b # rest)) (b # rest) = []" using consumed by (simp add: b)
  ultimately show "segment_integers (dropWhile inline_blank (show_int v)) = [v]" by (simp only: segment_integers.simps(1))
qed

theorem integer_list_read_back:
  assumes "list_all (\<lambda>v. i64_min \<le> v \<and> v \<le> i64_max) vs"
  shows "parse_list_of_integers (str_join '', '' (map show_int vs)) = vs"
proof (cases vs)
  case Nil
  then show ?thesis by (simp add: parse_list_of_integers_def)
next
  case (Cons v ws)
  let ?sep = "[CHR '','', CHR 0x0A, CHR 0x0D]"
  have "concat (map (\<lambda>s. segment_integers (dropWhile inline_blank s)) (str_split ?sep (pre @ str_join '', '' (map show_int (v # ws))))) = v # ws"
    if "list_all (\<lambda>v. i64_min \<le> v \<and> v \<le> i64_max) (v # ws)" and "pre = [] \<or> pre = '' ''" for pre v ws
    using that
  proof (induction ws arbitrary: pre v)
    case Nil
    then have f: "set (pre @ show_int v) \<inter> set ?sep = {}" using segment_show_int(2-4) [of v] by auto
    have "dropWhile inline_blank (pre @ show_int v) = dropWhile inline_blank (show_int v)"
      using Nil(2) by (auto simp: inline_blank_def)
    with Nil f segment_show_int(1) [of v] show ?case by (simp add: str_split_free)
  next
    case (Cons w ws)
    then have f: "set (pre @ show_int v) \<inter> set ?sep = {}" using segment_show_int(2-4) [of v] by auto
    have d: "dropWhile inline_blank (pre @ show_int v) = dropWhile inline_blank (show_int v)"
      using Cons.prems(2) by (auto simp: inline_blank_def)
    have "str_split ?sep (pre @ str_join '', '' (map show_int (v # w # ws)))
        = (pre @ show_int v) # str_split ?sep ('' '' @ str_join '', '' (map show_int (w # ws)))"
      using str_split_append [of "CHR '',''" ?sep "pre @ show_int v" "'' '' @ str_join '', '' (map show_int (w # ws))"] str_split_free [OF f]
      by simp
    with Cons.IH [of w "'' ''"] Cons.prems(1) d segment_show_int(1) [of v] show ?case by simp
  qed
  from this [of v ws "[]"] assms Cons show ?thesis by (simp add: parse_list_of_integers_def)
qed

end
