(* ===== verification/Spec2Isabelle.thy ===== *)
theory Spec2Isabelle
  imports Renderer_View Session_History Token_List Abort_Signal Cookie_Properties Profile_Properties
    Http_Cache_Properties Network_Properties Net_Policy_Properties WebSocket_Properties Content_Properties
    Form_Submission Message_Port Traversal_Properties Dom_Ranges Dom_Events Fetch_Headers Text_Codec Dataset
    Storage_Keys Form_Validity Url_Pattern Microsyntax
begin

text \<open>
  A verification of the Rust core of the Vixen browser, archived under
  \<^verbatim>\<open>flutter/crates\<close> in the repository.

  \<^bold>\<open>The program.\<close> A browser core in Rust (crate \<open>vixen-engine\<close>) owns tabs, documents and scripts; a
  renderer behind a C ABI (crate \<open>vixen-ffi\<close>) lays documents out and paints them; the types and
  the rules both sides obey are in \<open>vixen-api\<close>. The core describes a document to the renderer as a
  \<^emph>\<open>source\<close>: a full snapshot, then batches of mutations, each naming the revision it starts from and
  the one it reaches. The renderer answers with \<^emph>\<open>commits\<close>: layouts of one source revision, with hit
  test and text query handles the core must release, and reports which commit is on the screen.
  Input, scroll commands and semantic actions are accepted against the presented commit only.
  All messages pass a \<^emph>\<open>broker\<close>, a bounded queue under one mutex with requests that wait for their
  response. Independently of the renderer, \<open>vixen-engine\<close> has value-level components behind the
  DOM: the session history, token lists, abort signals and many parsers; \<open>vixen-net\<close> has the cookie
  jar and the network policies; \<open>vixen-store\<close> keeps the profile (cookies, HTTP cache, visits, session,
  downloads, permissions, HSTS, Web Storage) in one database, partitioned by origin, and the HTTP cache
  of \<open>vixen-engine\<close> decides what of it may answer a request.

  \<^bold>\<open>Conventions.\<close> (\<open>Prelude\<close>, \<open>Ordered_Map\<close>, \<open>Rust_Str\<close>, \<open>Rust_Vec\<close>)
  \<^item> A method with \<open>&mut self\<close> returns the new state and its result. \<open>Result\<close> is
    \<open>('a, 'e) result\<close>; the \<open>?\<close> operator is \<open>and_then\<close>, or \<open>try_in\<close> where the state at the point of
    return matters; a \<open>for\<close> loop with early return is \<open>try_fold\<close> or \<open>try_for\<close>. Every error value
    carries the code and the message of the source.
  \<^item> \<open>u8\<close> to \<open>u64\<close> are words; \<open>usize\<close> is \<open>nat\<close> with the limit \<open>2 ^ 64 - 1\<close> written out in
    \<open>checked_add\<close> and \<open>saturating_add\<close>. An \<open>f64\<close> is its IEEE 754 bit pattern: the protocol compares
    floats and never computes with them, so order, equality, finiteness and NaN are all it needs.
  \<^item> A \<open>String\<close> is the list of its UTF-8 bytes; \<open>len\<close> is their number, and \<open>encode_utf16\<close> is counted
    from the lead bytes.
  \<^item> A \<open>BTreeMap\<close> is an association list sorted by key (\<open>bt_ok\<close>), so that iteration has the order
    of the source; its operations keep \<open>bt_ok\<close> and are related to \<open>map_of\<close>.
  \<^item> Loops are recursions on lists, or bounded as in the source: the ancestor searches run their 257
    iterations (\<open>nearest_loop\<close>), and \<open>nearest_searches_exact\<close> shows that this is enough for every
    reachable replica. \<open>strip_all\<close> of \<open>Rust_Str\<close> is bounded by the length of the string
    (\<open>strip_all_done\<close>).

  \<^bold>\<open>Renderer source\<close> (\<^verbatim>\<open>vixen-api/src/ids.rs\<close>, \<^verbatim>\<open>render/mod.rs\<close>, \<^verbatim>\<open>render/source.rs\<close>).
  \<^item> \<open>Ids\<close>: the non-zero identifiers and the opaque handles. \<open>Render_Types\<close>: limits, error codes,
    geometry and viewport with their validation.
  \<^item> \<open>Render_Source\<close>: revisions, nodes, resources, scroll intents, \<open>FullRenderSnapshot\<close> and
    \<open>validate_state\<close>; \<open>wf_render_state\<close> says declaratively what \<open>validate_state\<close> accepts.
  \<^item> \<open>Render_Replica\<close>: \<open>RenderMutationBatch\<close> with \<open>between\<close>, and \<open>RenderReplica\<close> with every method.
  \<^item> \<open>Render_Replication\<close>: the invariant \<open>replica_inv\<close>, \<open>replica_reachable\<close> as an inductive
    relation, \<open>mirrors\<close> (a replica holds a snapshot), replay of a computed batch, the render tree.
    \<open>Render_Examples\<close> holds concrete snapshots; \<open>Replica_Properties\<close> states the results.

  \<^bold>\<open>Commits and presentation\<close> (\<^verbatim>\<open>render/commit.rs\<close>).
  \<^item> \<open>Render_Commit\<close>: the contents of a commit and \<open>RenderCommit::validate\<close>, with \<open>wf_commit\<close>.
    \<open>Commit_State\<close>: \<open>RenderCommitState\<close> with acceptance, presentation, hit tests, text queries,
    input targets, scroll commands, semantic actions and the replay ledgers.
  \<^item> \<open>Commit_Protocol\<close>: runs of the four operations that change the state with the log of their
    effects, the invariant \<open>commit_inv\<close>, conservation of handles, and the locale \<open>replay_guard\<close>,
    interpreted for the scroll and for the action ledger. \<open>Commit_Queries\<close>: what each query check
    accepts. \<open>Commit_Properties\<close> states the results on a concrete run.

  \<^bold>\<open>The broker\<close> (\<^verbatim>\<open>render/broker.rs\<close>, \<^verbatim>\<open>vixen-ffi/src/renderer_broker.rs\<close>).
  \<^item> \<open>Render_Broker_Protocol\<close>: requests, responses, updates, submissions and their transport checks;
    the \<open>unreachable!\<close> arm of \<open>validate_for\<close> is the value \<open>None\<close>, which no response gives.
  \<^item> \<open>Renderer_Broker\<close>: one operation per critical section under the mutex. What a thread holds
    outside the lock (allocated identifiers, replies taken but not yet sent, the phase of each
    requester) is part of the state, so any sequence of operations is an interleaving of threads.
  \<^item> \<open>Broker_Runs\<close>: events, runs, logs and the invariant \<open>broker_inv\<close>. \<open>Broker_Traffic\<close>: the locale
    \<open>fifo_channel\<close>, interpreted for updates and for submissions, and the uniqueness of answers and
    identifiers. \<open>Broker_Checks\<close>: exact sizes and what the transport checks decide.
    \<open>Broker_Properties\<close> states the results.
  \<^item> Parameters: \<open>encode\<close> is the length of the JSON encoding of an update, computed by a third-party
    serialiser, or \<open>None\<close> if that fails; nothing is assumed of it. Clock readings are arguments
    of the operations. A wake-up of the condition variable is the event \<open>Resume\<close>, at any moment, so
    spurious wake-ups are included. Poisoning of the mutex is a flag of the state.

  \<^bold>\<open>The path from core to renderer\<close>. \<open>Renderer_View\<close> and the property at the end of this theory put
  the source protocol and the broker together.

  \<^bold>\<open>Value components of the engine\<close>.
  \<^item> \<open>Session_History\<close> (\<^verbatim>\<open>vixen-engine/src/history.rs\<close>): the entry stack with its cursor refines a
    zipper; locale \<open>history_stack\<close>.
  \<^item> \<open>Token_List\<close> (\<^verbatim>\<open>class_list.rs\<close>) and \<open>Abort_Signal\<close> (\<^verbatim>\<open>abort.rs\<close>): calls refine operations on
    sets of tokens and on the first reason; both interpret the locale of \<open>Guarded_Refinement\<close>.

  \<^bold>\<open>Cookies\<close> (\<^verbatim>\<open>vixen-net/src/cookie.rs\<close>, \<^verbatim>\<open>site.rs\<close>).
  \<^item> \<open>Cookie_Date\<close>: the date parser and its calendar arithmetic; \<open>Cookie_Date_Roundtrip\<close> shows that it
    reads every date in the preferred format. \<open>Cookie_Site\<close>: hosts, sites and domain matching.
    \<open>Cookie_Jar\<close>: parsing of \<open>Set-Cookie\<close> and every operation of the jar.
  \<^item> \<open>Cookie_Runs\<close>: sessions and the invariant of the jar. \<open>Cookie_Delta\<close>: what merging a worker's
    changes does. \<open>Cookie_Policy\<close>: who may set and read a cookie. \<open>Cookie_Properties\<close> states the results.
  \<^item> Parameters: \<open>dns_lib\<close> (host parsing and the public suffix list) and \<open>time_lib\<close> are third-party; the
    clock is an argument. Insertion numbers are 64-bit words, as in the source; the results that need it assume that
    fewer than \<open>2 ^ 64\<close> cookies were inserted.

  \<^bold>\<open>The profile\<close> (\<^verbatim>\<open>vixen-store/src/lib.rs\<close>).
  \<^item> \<open>Redb\<close>: the third-party database as a record of its calls, each of which may fail, and
    \<open>redb_laws\<close>, its documented behaviour: a transaction sees its own writes, a commit publishes them at
    once, dropping it publishes nothing, reads see a snapshot. \<open>Profile_Records\<close>: records, keys and
    validation; \<open>serde\<close> is the third-party encoding, of which the results assume that what it writes it
    reads back (\<open>codecs_ok\<close>). \<open>Profile_Store\<close>: every operation of \<open>Store\<close>.
  \<^item> \<open>Profile_Effects\<close>: the effect of each write on the tables, with every error path.
    \<open>Profile_Spec\<close>: the abstract profile and its steps. \<open>Profile_Refinement\<close>, \<open>Profile_Bounded\<close> (the
    tables with a maximal size), \<open>Profile_Simulation\<close> and \<open>Profile_Reads\<close> relate the two;
    \<open>Profile_Properties\<close> states the results on a database in memory.

  \<^bold>\<open>Origins, URL policy and HTTP cache\<close> (\<^verbatim>\<open>vixen-net/src/origin.rs\<close>, \<^verbatim>\<open>url_policy.rs\<close>,
  \<^verbatim>\<open>vixen-engine/src/http_cache.rs\<close>).
  \<^item> \<open>Url_Policy\<close>: origins, their partition keys and the hosts that may not be fetched, shown to be a table
    of networks. \<open>Http_Cache\<close>: freshness, \<open>Vary\<close>, selection, storing and permanent redirects, on top of
    the store. \<open>Http_Cache_Properties\<close> states the results. URLs and dates are parsed by third-party
    crates, which are parameters.

  \<^bold>\<open>Fetching\<close> (\<^verbatim>\<open>vixen-net/src/network.rs\<close>, \<^verbatim>\<open>fetch_types.rs\<close>).
  \<^item> \<open>Network_Fetch\<close>: the loop that follows redirects itself, with the request headers, the cookies, the
    body limit and the progress reports, over the HTTP client as a parameter (\<open>transport\<close>) that may
    do anything. The number of redirects is the measure of its termination. \<open>Network_Runs\<close>: which
    requests a fetch sends (\<open>hops\<close>), where its redirects lead and how its body is counted.
    \<open>Network_Properties\<close> states the results, also for the redirects that the HTTP cache stores. The entries that
    return text decode the body with \<open>Utf8_Lossy\<close>.
  \<^item> \<open>WebSocket\<close> (\<^verbatim>\<open>websocket.rs\<close>): handshake, frame headers, masking and close codes; SHA-1 and base64 are
    parameters. \<open>WebSocket_Properties\<close> shows that the parser reads exactly the canonical encodings.

  \<^bold>\<open>Network policies\<close> (\<^verbatim>\<open>vixen-net/src\<close>).
  \<^item> \<open>Fetch_Isolation\<close> (\<^verbatim>\<open>sec_fetch.rs\<close>, \<^verbatim>\<open>coop.rs\<close>, \<^verbatim>\<open>coep.rs\<close>, \<^verbatim>\<open>corp.rs\<close>, \<^verbatim>\<open>nosniff.rs\<close>), \<open>Csp\<close> (\<^verbatim>\<open>csp.rs\<close>),
    \<open>Cors\<close> (\<^verbatim>\<open>cors.rs\<close>) and \<open>Transport_Security\<close> (\<^verbatim>\<open>strict_transport_security.rs\<close>,
    \<^verbatim>\<open>referrer_policy.rs\<close>, \<^verbatim>\<open>mixed_content.rs\<close>): header parsers and decisions. Parameters: digests,
    base64 and the operations on URLs. \<open>Net_Policy_Properties\<close> states the results from the headers on, against
    the rules of \<open>covers\<close> for the sources of a policy.
  \<^item> \<open>Content_Policies\<close> (\<^verbatim>\<open>integrity.rs\<close>, \<^verbatim>\<open>sandboxing.rs\<close>, \<^verbatim>\<open>permissions_policy.rs\<close>, \<^verbatim>\<open>trusted_types.rs\<close>,
    \<^verbatim>\<open>permissions.rs\<close>, \<^verbatim>\<open>http_helpers.rs\<close>) and \<open>Content_Properties\<close>: subresource integrity, sandbox flags, feature
    policies, trusted types and header checks.

  \<^bold>\<open>Forms, search parameters and messages\<close> (\<^verbatim>\<open>vixen-engine/src\<close>).
  \<^item> \<open>Search_Params\<close> (\<^verbatim>\<open>url_search_params.rs\<close>): parser, serializer and operations. The locale \<open>form_encoder\<close> is what the
    parser needs of an encoder of bytes; it is interpreted for this serializer and for the one of \<open>Form_Submission\<close>
    (\<^verbatim>\<open>form_submission.rs\<close>), which also has the multipart encoding and a reader of it as a receiver has one.
  \<^item> \<open>Structured_Clone\<close> (\<^verbatim>\<open>structured_clone.rs\<close>): cloning with a transfer list, described by the leaves of a value.
    \<open>Message_Port\<close> (\<^verbatim>\<open>message_port.rs\<close>): sessions on the two ports of a channel.

  \<^bold>\<open>Documents\<close> (\<^verbatim>\<open>vixen-engine/src\<close>).
  \<^item> \<open>Tree_Traversal\<close> (\<^verbatim>\<open>traversal.rs\<close>): tree walkers and node iterators over the accessors of the host, whose loops are
    partial functions; \<open>Traversal_Properties\<close> shows on every finite tree that they end and what they visit,
    and where walkers going backwards do not do what their comments say. \<open>Dom_Ranges\<close> (\<^verbatim>\<open>range.rs\<close>): ranges and
    selections as intervals of the document order. \<open>Dom_Events\<close> (\<^verbatim>\<open>event_path.rs\<close>, \<^verbatim>\<open>mutation_observer.rs\<close>): event
    paths, focus events and mutation observers, which interpret \<open>guarded_refinement\<close>.
  \<^item> \<open>Html_Serialize\<close> (\<^verbatim>\<open>html_serialize.rs\<close>): the text of a subtree. The locale \<open>escaper\<close> states what an escape function
    promises and is interpreted for text and for attribute values; a reader of tags finds the tree again. \<open>Dataset\<close>
    (\<^verbatim>\<open>dataset.rs\<close>): data attributes. \<open>Date_Units\<close> (\<^verbatim>\<open>date_units.rs\<close>): date, time and week controls against the calendar of
    \<open>Cookie_Date\<close> and the ISO weeks; \<open>Form_Validity\<close> (\<^verbatim>\<open>forms.rs\<close>): the other constraints.

  \<^bold>\<open>Fetch objects and small syntaxes\<close> (\<^verbatim>\<open>vixen-engine/src\<close>).
  \<^item> \<open>Mime_Types\<close> (\<^verbatim>\<open>mime.rs\<close>, \<^verbatim>\<open>data_url.rs\<close>): parsing and printing MIME types, each the inverse of the other, and data
    URLs with the texts on which their parser panics. \<open>Fetch_Headers\<close> (\<^verbatim>\<open>headers.rs\<close>): the header store as a map, by an
    interpretation of \<open>guarded_refinement\<close>. \<open>Text_Codec\<close> (\<^verbatim>\<open>text_codec.rs\<close>), \<open>Storage_Keys\<close> (\<^verbatim>\<open>storage_key.rs\<close>),
    \<open>Url_Pattern\<close> (\<^verbatim>\<open>url_pattern.rs\<close>) and the integer parsers of \<open>Microsyntax\<close> (\<^verbatim>\<open>microsyntax.rs\<close>).

  \<^bold>\<open>Bounds.\<close> Recursions over lists and strings need none. The ancestor searches of a replica are bounded as in the source; the
  fetch loop by the redirect limit; the reader of multipart bodies, which is a reference and not code, by the length of its
  input (\<open>parts_text_length\<close>). Loops over structures of the host (trees, parent links) are partial functions, and
  the properties show that they return.

  \<^bold>\<open>What is not modelled.\<close> JSON encoding and the wire format; pointers and threads of the C ABI; the
  JavaScript engine, HTML and CSS parsers, the HTTP client and the database itself, which are
  third-party; the tab and navigation lifecycle of \<^verbatim>\<open>vixen-engine/src/browser.rs\<close> and the script bindings, which drive the
  JavaScript engine; the CDP server and the test drivers; the value parsers of \<open>vixen-engine\<close> for lengths, media queries, image
  sources and the like, whose values are floating-point numbers, and the step check of forms on floats. Liveness of the broker is stated for a thread that runs again (a request whose answer was sent returns it at
  its next look, if that is in time and not cancelled), not for the scheduler.
\<close>

section \<open>The path from the core to the renderer\<close>

text \<open>C1: the renderer follows the core. The core publishes a valid snapshot and a batch for each
  of its successors, in any number of calls and mixed with handle releases, through a broker whose
  threads interleave in any way. After every event the replica the renderer has built from the
  messages it polled is a replica of exactly the snapshot of the last source update it has received
  (and empty before the first), and unless the broker was shut down it is a replica of the last
  snapshot once no source update is queued.\<close>

theorem renderer_follows_core:
  assumes "FullRenderSnapshot_validate s0 = Ok ()" and "successors_ok s0 ss"
    and "filter is_source_update (published_in (broker_log encode RenderBroker_new es))
      = source_updates s0 ss"
  shows "let received = delivered_in (broker_log encode RenderBroker_new es);
      n = length (filter is_source_update received);
      w = broker_run encode RenderBroker_new es
    in (if n = 0 then renderer_view received = RenderReplica_default
        else mirrors (renderer_view received) ((s0 # ss) ! (n - 1)))
     \<and> (if closed w \<or> list_ex is_source_update (queued_updates (outbound w)) then True
        else mirrors (renderer_view received) (last (s0 # ss)))"
proof -
  let ?log = "broker_log encode RenderBroker_new es" and ?w = "broker_run encode RenderBroker_new es"
  let ?src = "filter is_source_update (delivered_in ?log)"
  have order: "prefix (delivered_in ?log) (published_in ?log)
      \<and> (closed ?w \<or> published_in ?log = delivered_in ?log @ queued_updates (outbound ?w))"
    using updates.in_order [OF broker_inv_new, of encode es]
    by (simp add: broker_log_out broker_run_foldl) (auto simp: RenderBroker_new_def)
  have view: "renderer_view (delivered_in ?log) = renderer_view ?src"
    by (simp add: renderer_view_def follow_filter [of _ "delivered_in ?log"])
  have pre: "prefix ?src (source_updates s0 ss)"
    using prefix_filter order assms(3) by metis
  have received: "mirrors (renderer_view ?src) ((s0 # ss) ! (length ?src - 1))" if "?src \<noteq> []"
    using view_of_prefix [OF assms(1,2) pre that] .
  moreover have "mirrors (renderer_view ?src) (last (s0 # ss))"
    if "\<not> (closed ?w \<or> list_ex is_source_update (queued_updates (outbound ?w)))"
  proof -
    have "filter is_source_update (queued_updates (outbound ?w)) = []"
      using that by (auto simp: list_ex_iff filter_empty_conv)
    then have all: "?src = source_updates s0 ss"
      using order that assms(3) by auto
    then have "length ?src = Suc (length ss)"
      by (simp add: source_updates_def batch_updates_length [OF assms(2)])
    moreover have "?src \<noteq> []" using all by (simp add: source_updates_def)
    ultimately show ?thesis
      using received last_conv_nth [of "s0 # ss"] by (simp del: last.simps)
  qed
  ultimately show ?thesis by (auto simp: view Let_def)
qed

text \<open>A session that publishes two snapshots of a document and polls the first update.\<close>

definition ex_following :: "RenderMutationBatch \<Rightarrow> broker_event list" where
  "ex_following b = [Publish [FullSnapshot ex_snapshot1, ex_update, MutationBatch b], Poll 1 0 (\<lambda>_. 1)]"

lemma ex_source_valid:
  assumes "RenderMutationBatch_between ex_snapshot1 ex_snapshot2 = Ok b"
  shows "validate_update ex_encode (FullSnapshot ex_snapshot1) = Ok ()"
    and "validate_update ex_encode (MutationBatch b) = Ok ()"
proof -
  have "update_bytes (FullSnapshot ex_snapshot1) \<le> RENDER_BROKER_MAX_UPDATE_SOURCE_BYTES"
    by (simp add: update_bytes_def resource_bytes_def ex_defs wf_eval size_limits)
  then show "validate_update ex_encode (FullSnapshot ex_snapshot1) = Ok ()"
    by (simp add: validate_update_Ok RenderBridgeUpdate_validate_def ex_snapshots_valid
        ex_encode_def size_limits)
  from assms have "RenderMutationBatch_validate b = Ok ()"
      and b: "batch_mutations b = between_mutations ex_snapshot1 ex_snapshot2"
    by (auto simp: RenderMutationBatch_between_def result_simps Let_def)
  moreover have "update_bytes (MutationBatch b) \<le> RENDER_BROKER_MAX_UPDATE_SOURCE_BYTES"
    by (simp add: b update_bytes_def between_mutations_def Let_def nodes_by_id_def
        resources_by_id_def intents_by_id_def bt_collect_def removed_keys_def changed_values_def
        bt_keys_def bt_contains_key_def bt_get_def mutation_bytes_def resource_bytes_def ex_defs
        wf_eval size_limits)
  ultimately show "validate_update ex_encode (MutationBatch b) = Ok ()"
    by (simp add: validate_update_Ok RenderBridgeUpdate_validate_def ex_encode_def size_limits)
qed

lemma ex_following_log:
  assumes "RenderMutationBatch_between ex_snapshot1 ex_snapshot2 = Ok b"
  shows "broker_log ex_encode RenderBroker_new (ex_following b) =
    [Published (FullSnapshot ex_snapshot1), Published ex_update, Published (MutationBatch b),
     Delivered (FullSnapshot ex_snapshot1)]"
  by (simp add: ex_following_def RenderBroker_new_def ex_eval RenderBroker_publish_updates_def
      try_for_def ex_update_valid ex_source_valid [OF assms] ensure_update_capacity_def
      saturating_add_usize_def is_queued_update_def size_limits usize_max_def)

theorem renderer_follows_core_witness:
  "\<exists>b. RenderMutationBatch_between ex_snapshot1 ex_snapshot2 = Ok b
     \<and> mirrors (renderer_view (delivered_in (broker_log ex_encode RenderBroker_new (ex_following b))))
         ex_snapshot1"
proof -
  obtain b where b: "RenderMutationBatch_between ex_snapshot1 ex_snapshot2 = Ok b"
    using ex_between_ok by blast
  have "successors_ok ex_snapshot1 [ex_snapshot2]"
    using b ex_viewport_advances by simp
  moreover have "filter is_source_update
      (published_in (broker_log ex_encode RenderBroker_new (ex_following b)))
      = source_updates ex_snapshot1 [ex_snapshot2]"
    by (simp add: ex_following_log [OF b] published_in_def source_updates_def b is_source_update_def
        ex_update_def)
  ultimately show ?thesis
    using b renderer_follows_core [OF ex_snapshots_valid(1), of "[ex_snapshot2]" ex_encode "ex_following b"]
    by (auto simp: Let_def ex_following_log [OF b] delivered_in_def is_source_update_def)
qed

end
